(* ===== verification/Go_Base.thy ===== *)
theory Go_Base
  imports Main "HOL-Library.Word" "HOL-Library.Multiset"
begin

text \<open>
  The vocabulary every component of the development shares: the named collections the
  component proofs rewrite with, Go's 64-bit arithmetic and its clock, and the functions of
  Go's \<open>strings\<close>, \<open>strconv\<close> and \<open>sort\<close> packages that the agent uses.

  \<^item> A Go \<open>int\<close> or \<open>int64\<close> is an \<open>int\<close> between \<open>-2^63\<close> and \<open>2^63 - 1\<close>; where an
    operation of the source can leave that range the result is folded back with \<open>wrap64\<close>.
  \<^item> A \<open>time.Time\<close> is the number of nanoseconds since the Unix epoch, with the zero
    \<open>Time\<close> (1 January of year 1) as \<open>zero_time\<close>; a \<open>time.Duration\<close> is a number of
    nanoseconds. \<open>Sub\<close> saturates, as Go's does.
  \<^item> A Go \<open>string\<close> or \<open>[]byte\<close> is a list of \<open>char\<close>, one per byte, so \<open>len\<close> is
    \<open>length\<close>. Case folding and white space are those of ASCII.
  \<^item> A function that returns only an \<open>error\<close> returns an option, \<open>None\<close> for nil; one
    that returns a value or an error returns a sum, \<open>Inl\<close> for the error.
\<close>

named_theorems go_simps \<open>equations of the Go library functions\<close>
named_theorems guard_simps \<open>what the guards of the operations decide\<close>
named_theorems inv_intros \<open>an operation keeps its component's invariant\<close>

section \<open>Integers, times and durations\<close>

type_synonym gtime = int
type_synonym duration = int
type_synonym bytes = string

definition wrap64 :: "int \<Rightarrow> int" where
  "wrap64 x = (x + 2 ^ 63) mod 2 ^ 64 - 2 ^ 63"

definition int64 :: "int \<Rightarrow> bool" where
  "int64 x \<longleftrightarrow> - (2 ^ 63) \<le> x \<and> x < 2 ^ 63"

lemma wrap64_id [simp]: "int64 x \<Longrightarrow> wrap64 x = x"
  by (simp add: wrap64_def int64_def)

lemma wrap64_range: "int64 (wrap64 x)"
proof -
  have "0 \<le> (x + 2 ^ 63) mod 2 ^ 64" and "(x + 2 ^ 63) mod 2 ^ 64 < 2 ^ 64"
    by simp_all
  then show ?thesis by (simp add: wrap64_def int64_def)
qed

definition second :: duration where
  "second = 1000000000"

definition zero_time :: gtime where
  "zero_time = - 62135596800 * 1000000000"

definition isZero :: "gtime \<Rightarrow> bool" where
  "isZero t \<longleftrightarrow> t = zero_time"

text \<open>\<open>t.Sub(u)\<close>, \<open>t.Unix()\<close> and \<open>time.Unix(s, 0)\<close>.\<close>

definition subT :: "gtime \<Rightarrow> gtime \<Rightarrow> duration" where
  "subT t u = max (- (2 ^ 63)) (min (2 ^ 63 - 1) (t - u))"

definition unix :: "gtime \<Rightarrow> int" where
  "unix t = t div second"

definition ofUnix :: "int \<Rightarrow> gtime" where
  "ofUnix s = s * second"

text \<open>\<open>time.Duration(n) * time.Second\<close>: the product of two 64-bit integers.\<close>

definition seconds :: "int \<Rightarrow> duration" where
  "seconds n = wrap64 (n * second)"

lemma unix_ofUnix [simp]: "unix (ofUnix s) = s"
  by (simp add: unix_def ofUnix_def second_def)

lemma subT_le_iff:
  assumes "int64 d" and "d < 2 ^ 63 - 1"
  shows "subT t u \<le> d \<longleftrightarrow> t - u \<le> d"
  using assms by (auto simp: subT_def int64_def)

lemma seconds_small: "\<bar>n\<bar> \<le> 9223372036 \<Longrightarrow> seconds n = n * second"
  unfolding seconds_def by (rule wrap64_id) (auto simp: int64_def second_def abs_le_iff)

section \<open>Strings\<close>

definition isSpace :: "char \<Rightarrow> bool" where
  "isSpace c \<longleftrightarrow> c = CHR '' '' \<or> (9 \<le> (of_char c :: nat) \<and> (of_char c :: nat) \<le> 13)"

definition isLower :: "char \<Rightarrow> bool" where
  "isLower c \<longleftrightarrow> 97 \<le> (of_char c :: nat) \<and> (of_char c :: nat) \<le> 122"

definition isUpper :: "char \<Rightarrow> bool" where
  "isUpper c \<longleftrightarrow> 65 \<le> (of_char c :: nat) \<and> (of_char c :: nat) \<le> 90"

definition isDigit :: "char \<Rightarrow> bool" where
  "isDigit c \<longleftrightarrow> 48 \<le> (of_char c :: nat) \<and> (of_char c :: nat) \<le> 57"

definition isAlnum :: "char \<Rightarrow> bool" where
  "isAlnum c \<longleftrightarrow> isLower c \<or> isUpper c \<or> isDigit c"

lemmas char_class_defs = isSpace_def isLower_def isUpper_def isDigit_def isAlnum_def

definition trimLeftBy :: "(char \<Rightarrow> bool) \<Rightarrow> string \<Rightarrow> string" where
  "trimLeftBy p s = dropWhile p s"

definition trimRightBy :: "(char \<Rightarrow> bool) \<Rightarrow> string \<Rightarrow> string" where
  "trimRightBy p s = rev (dropWhile p (rev s))"

definition trimBy :: "(char \<Rightarrow> bool) \<Rightarrow> string \<Rightarrow> string" where
  "trimBy p s = trimRightBy p (trimLeftBy p s)"

abbreviation trimSpace :: "string \<Rightarrow> string" where
  "trimSpace \<equiv> trimBy isSpace"

text \<open>\<open>strings.Split(s, sep)\<close> for a separator of one byte: never empty.\<close>

fun splitOn :: "char \<Rightarrow> string \<Rightarrow> string list" where
  "splitOn c [] = [[]]"
| "splitOn c (x # xs) =
     (if x = c then [] # splitOn c xs
      else (case splitOn c xs of [] \<Rightarrow> [[x]] | w # ws \<Rightarrow> (x # w) # ws))"

text \<open>\<open>strings.Cut(s, sep)\<close> for a separator of one byte.\<close>

fun cutOn :: "char \<Rightarrow> string \<Rightarrow> (string \<times> string) option" where
  "cutOn c [] = None"
| "cutOn c (x # xs) =
     (if x = c then Some ([], xs)
      else map_option (\<lambda>(k, v). (x # k, v)) (cutOn c xs))"

fun joinWith :: "string \<Rightarrow> string list \<Rightarrow> string" where
  "joinWith sep [] = []"
| "joinWith sep [w] = w"
| "joinWith sep (w # ws) = w @ sep @ joinWith sep ws"

definition cutPrefix :: "string \<Rightarrow> string \<Rightarrow> string option" where
  "cutPrefix p s = (if take (length p) s = p then Some (drop (length p) s) else None)"

definition trimPrefix :: "string \<Rightarrow> string \<Rightarrow> string" where
  "trimPrefix p s = (case cutPrefix p s of Some r \<Rightarrow> r | None \<Rightarrow> s)"

definition trimSuffix :: "string \<Rightarrow> string \<Rightarrow> string" where
  "trimSuffix q s = (case cutPrefix (rev q) (rev s) of Some r \<Rightarrow> rev r | None \<Rightarrow> s)"

definition lowerChar :: "char \<Rightarrow> char" where
  "lowerChar c = (if isUpper c then char_of ((of_char c :: nat) + 32) else c)"

definition toLower :: "string \<Rightarrow> string" where
  "toLower s = map lowerChar s"

text \<open>\<open>strconv.Itoa\<close> and the verbs \<open>%d\<close> and \<open>%t\<close>.\<close>

fun decNat :: "nat \<Rightarrow> string" where
  "decNat n = (if n < 10 then [char_of (48 + n)]
               else decNat (n div 10) @ [char_of (48 + n mod 10)])"

declare decNat.simps [simp del]

definition itoa :: "int \<Rightarrow> string" where
  "itoa i = (if i < 0 then CHR ''-'' # decNat (nat (- i)) else decNat (nat i))"

definition showBool :: "bool \<Rightarrow> string" where
  "showBool b = (if b then ''true'' else ''false'')"

text \<open>\<open>strconv.ParseInt(s, 10, 64)\<close>: a sign, digits, and the range of 64 bits.\<close>

definition digitsVal :: "string \<Rightarrow> int option" where
  "digitsVal s =
     (if s \<noteq> [] \<and> list_all isDigit s
      then Some (foldl (\<lambda>n c. 10 * n + (int (of_char c) - 48)) 0 s) else None)"

definition parseInt64 :: "string \<Rightarrow> int option" where
  "parseInt64 s =
     (let (neg, ds) = (case s of
            c # cs \<Rightarrow> if c = CHR ''-'' then (True, cs) else if c = CHR ''+'' then (False, cs) else (False, s)
          | [] \<Rightarrow> (False, s))
      in case digitsVal ds of
           None \<Rightarrow> None
         | Some n \<Rightarrow> let v = (if neg then - n else n) in if int64 v then Some v else None)"

text \<open>\<open>encoding/hex\<close> and the verb \<open>%x\<close>.\<close>

definition hexDigit :: "nat \<Rightarrow> char" where
  "hexDigit n = ''0123456789abcdef'' ! (n mod 16)"

definition hexByte :: "8 word \<Rightarrow> string" where
  "hexByte b = [hexDigit (unat b div 16), hexDigit (unat b mod 16)]"

definition hexOf :: "8 word list \<Rightarrow> string" where
  "hexOf bs = concat (map hexByte bs)"

text \<open>\<open>strings.HasPrefix\<close>, \<open>strings.Cut\<close> for a longer separator, \<open>strings.Contains\<close>.\<close>

definition hasPrefix :: "string \<Rightarrow> string \<Rightarrow> bool" where
  "hasPrefix s p \<longleftrightarrow> take (length p) s = p"

fun cutSub :: "string \<Rightarrow> string \<Rightarrow> (string \<times> string) option" where
  "cutSub sep [] = (if sep = [] then Some ([], []) else None)"
| "cutSub sep (c # cs) =
     (if hasPrefix (c # cs) sep then Some ([], drop (length sep) (c # cs))
      else map_option (\<lambda>(a, b). (c # a, b)) (cutSub sep cs))"

definition containsSub :: "string \<Rightarrow> string \<Rightarrow> bool" where
  "containsSub s sub \<longleftrightarrow> cutSub sub s \<noteq> None"

subsection \<open>Lemmas\<close>

lemma list_all_take: "list_all P xs \<Longrightarrow> list_all P (take n xs)"
  by (metis list_all_iff in_set_takeD)

lemma trimBy_Nil [simp]: "trimBy p [] = []"
  by (simp add: trimBy_def trimLeftBy_def trimRightBy_def)

lemma set_dropWhile_subset: "set (dropWhile p s) \<subseteq> set s"
  by (metis set_dropWhileD subsetI)

lemma set_trimBy: "set (trimBy p s) \<subseteq> set s"
  unfolding trimBy_def trimLeftBy_def trimRightBy_def
  using set_dropWhile_subset by (metis set_rev subset_trans)

lemma length_trimBy: "length (trimBy p s) \<le> length s"
  unfolding trimBy_def trimLeftBy_def trimRightBy_def
  by (metis length_dropWhile_le length_rev order_trans)

lemma hd_dropWhile_rev:
  "dropWhile p (rev s) \<noteq> [] \<Longrightarrow> s \<noteq> [] \<Longrightarrow> hd (rev (dropWhile p (rev s))) = hd s"
proof (induction s rule: rev_induct)
  case Nil
  then show ?case by simp
next
  case (snoc x xs)
  show ?case
  proof (cases "p x")
    case True
    with snoc show ?thesis by (cases xs) auto
  next
    case False
    then show ?thesis by simp
  qed
qed

lemma trimBy_ends:
  assumes "trimBy p s \<noteq> []"
  shows "\<not> p (hd (trimBy p s))" and "\<not> p (last (trimBy p s))"
proof -
  let ?d = "dropWhile p s"
  have ne: "dropWhile p (rev ?d) \<noteq> []"
    using assms unfolding trimBy_def trimLeftBy_def trimRightBy_def by blast
  then have dne: "?d \<noteq> []" by (metis dropWhile.simps(1) rev.simps(1))
  have "hd (trimBy p s) = hd ?d"
    using hd_dropWhile_rev [OF ne dne] by (simp add: trimBy_def trimLeftBy_def trimRightBy_def)
  then show "\<not> p (hd (trimBy p s))" using dne hd_dropWhile by metis
  have "last (trimBy p s) = hd (dropWhile p (rev ?d))"
    using ne by (simp add: trimBy_def trimLeftBy_def trimRightBy_def last_rev)
  then show "\<not> p (last (trimBy p s))" using ne hd_dropWhile by metis
qed

lemma trimBy_id: "s = [] \<or> (\<not> p (hd s) \<and> \<not> p (last s)) \<Longrightarrow> trimBy p s = s"
proof (cases "s = []")
  case False
  assume "s = [] \<or> (\<not> p (hd s) \<and> \<not> p (last s))"
  with False have h: "\<not> p (hd s)" and l: "\<not> p (last s)" by auto
  have "dropWhile p s = s" using h by (cases s) auto
  moreover have "dropWhile p (rev s) = rev s"
    using l False by (metis dropWhile_eq_self_iff hd_rev)
  ultimately show ?thesis by (simp add: trimBy_def trimLeftBy_def trimRightBy_def)
qed simp

lemma trimBy_idem [simp]: "trimBy p (trimBy p s) = trimBy p s"
  by (rule trimBy_id) (use trimBy_ends in blast)

lemma splitOn_not_Nil [simp]: "splitOn c s \<noteq> []"
  by (cases s) (auto split: list.splits)

lemma splitOn_no_sep: "w \<in> set (splitOn c s) \<Longrightarrow> c \<notin> set w"
proof (induction s arbitrary: w)
  case (Cons x xs)
  then show ?case by (auto split: if_splits list.splits)
qed simp

lemma set_splitOn: "w \<in> set (splitOn c s) \<Longrightarrow> set w \<subseteq> set s"
proof (induction s arbitrary: w)
  case (Cons x xs)
  obtain v vs where vs: "splitOn c xs = v # vs" by (cases "splitOn c xs") auto
  have "set v \<subseteq> set xs" and "\<forall>u \<in> set vs. set u \<subseteq> set xs"
    using Cons.IH vs by auto
  with Cons.prems vs show ?case by (auto split: if_splits)
qed simp

lemma splitOn_free: "c \<notin> set s \<Longrightarrow> splitOn c s = [s]"
  by (induction s) auto

lemma splitOn_append:
  "splitOn c (s @ c # t) = splitOn c s @ splitOn c t"
proof (induction s)
  case (Cons x s)
  then show ?case by (auto split: list.splits)
qed simp

lemma joinWith_Cons: "ws \<noteq> [] \<Longrightarrow> joinWith sep (w # ws) = w @ sep @ joinWith sep ws"
  by (cases ws) auto

lemma joinWith_splitOn: "joinWith [c] (splitOn c s) = s"
proof (induction s)
  case (Cons x s)
  obtain v vs where vs: "splitOn c s = v # vs" by (cases "splitOn c s") auto
  have "joinWith [c] ((x # v) # vs) = x # joinWith [c] (v # vs)" by (cases vs) auto
  with Cons vs show ?case by (auto simp: joinWith_Cons)
qed simp

lemma cutOn_Some: "cutOn c s = Some (k, v) \<Longrightarrow> s = k @ c # v \<and> c \<notin> set k"
  by (induction s arbitrary: k) (auto split: if_splits)

lemma cutOn_intro: "c \<notin> set k \<Longrightarrow> cutOn c (k @ c # v) = Some (k, v)"
  by (induction k) auto

lemma cutPrefix_append [simp]: "cutPrefix p (p @ s) = Some s"
  by (simp add: cutPrefix_def)

lemma cutPrefix_Some: "cutPrefix p s = Some r \<Longrightarrow> s = p @ r"
  by (auto simp: cutPrefix_def split: if_splits) (metis append_take_drop_id)

lemma trimPrefix_append [simp]: "trimPrefix p (p @ s) = s"
  by (simp add: trimPrefix_def)

lemma length_toLower [simp]: "length (toLower s) = length s"
  by (simp add: toLower_def)

lemma char_of_less_eq:
  "m < 256 \<Longrightarrow> n < 256 \<Longrightarrow> (char_of m :: char) = char_of n \<longleftrightarrow> (m :: nat) = n"
  by (metis of_char_of mod_less)

lemma decNat_digits: "\<forall>c \<in> set (decNat n). isDigit c"
proof (induction n rule: decNat.induct)
  case (1 n)
  have d: "isDigit (char_of (48 + k))" if "k < 10" for k :: nat
    using that by (simp add: isDigit_def)
  show ?case
    using 1 d by (subst decNat.simps) auto
qed

lemma decNat_not_Nil [simp]: "decNat n \<noteq> []"
  by (subst decNat.simps) simp

lemma decNat_inj: "decNat m = decNat n \<Longrightarrow> m = n"
proof (induction m arbitrary: n rule: decNat.induct)
  case (1 m)
  have len1: "decNat k = [c] \<Longrightarrow> k < 10" for k c
    by (subst (asm) decNat.simps) (auto split: if_splits)
  show ?case
  proof (cases "m < 10")
    case True
    then have "decNat m = [char_of (48 + m)]" by (simp add: decNat.simps)
    then have n10: "n < 10" using "1.prems" len1 [of n "char_of (48 + m)"] by simp
    then have "decNat n = [char_of (48 + n)]" by (simp add: decNat.simps)
    with \<open>decNat m = [char_of (48 + m)]\<close> "1.prems"
    have "(char_of (48 + m) :: char) = char_of (48 + n)" by simp
    moreover have "48 + m < 256" and "48 + n < 256" using True n10 by simp_all
    ultimately show ?thesis using char_of_less_eq [of "48 + m" "48 + n"] by simp
  next
    case False
    then have m: "decNat m = decNat (m div 10) @ [char_of (48 + m mod 10)]"
      by (simp add: decNat.simps [of m])
    have "\<not> n < 10"
    proof
      assume "n < 10"
      then have "decNat n = [char_of (48 + n)]" by (simp add: decNat.simps)
      with "1.prems" m show False by simp
    qed
    then have n: "decNat n = decNat (n div 10) @ [char_of (48 + n mod 10)]"
      by (simp add: decNat.simps [of n])
    from m n "1.prems" have "decNat (m div 10) = decNat (n div 10)"
      and "(char_of (48 + m mod 10) :: char) = char_of (48 + n mod 10)" by auto
    moreover have "48 + m mod 10 < 256" and "48 + n mod 10 < 256" by simp_all
    ultimately have "m mod 10 = n mod 10" and "m div 10 = n div 10"
      using char_of_less_eq [of "48 + m mod 10" "48 + n mod 10"] "1.IH" [OF False] by simp_all
    then show ?thesis by (metis div_mult_mod_eq)
  qed
qed

lemma itoa_inj: "itoa i = itoa j \<Longrightarrow> i = j"
proof -
  have no_minus: "decNat n \<noteq> CHR ''-'' # s" for n s
  proof
    assume "decNat n = CHR ''-'' # s"
    then have "CHR ''-'' \<in> set (decNat n)" by simp
    then have "isDigit CHR ''-''" using decNat_digits by blast
    then show False by (simp add: isDigit_def)
  qed
  assume "itoa i = itoa j"
  then show "i = j"
    by (auto simp: itoa_def no_minus no_minus [symmetric] dest: decNat_inj split: if_splits)
qed

lemma length_hexByte [simp]: "length (hexByte b) = 2"
  by (simp add: hexByte_def)

lemma length_hexOf [simp]: "length (hexOf bs) = 2 * length bs"
  by (induction bs) (simp_all add: hexOf_def)

lemma hexDigit_class:
  "hexDigit n \<in> set ''0123456789abcdef''"
  unfolding hexDigit_def by (rule nth_mem) simp

lemma set_hexOf: "set (hexOf bs) \<subseteq> set ''0123456789abcdef''"
proof
  fix x assume "x \<in> set (hexOf bs)"
  then obtain n where "x = hexDigit n" by (auto simp: hexOf_def hexByte_def)
  then show "x \<in> set ''0123456789abcdef''" using hexDigit_class by metis
qed

lemma trimSuffix_append: "trimSuffix q (s @ q) = s"
  by (simp add: trimSuffix_def cutPrefix_def)

lemmas go_base_simps [go_simps] =
  trimPrefix_def cutPrefix_def trimSuffix_def second_def

end
