(* ===== verification/Wire.thy ===== *)
theory Wire
  imports Go_Base
begin

unbundle bit_operations_syntax

text \<open>
  The protocol vocabulary of \<open>agent/internal/wire\<close>: the identifier check that stands in
  front of every subject the agent builds (\<open>identifier.go\<close>), the subjects themselves
  (\<open>subjects.go\<close>), the message ids (\<open>msgid.go\<close>) and the envelope (\<open>envelope.go\<close>).
  The lemmas show that an accepted identifier contributes only plain, non-empty tokens to a
  subject, that two subjects of one agent meet only when they are the same channel, and that
  a message id determines the sixteen bytes it was made of.
\<close>

section \<open>Identifiers\<close>

definition MaxIdentifierLen :: nat where
  "MaxIdentifierLen = 128"

text \<open>The rejections of \<open>ValidIdentifier\<close>, which all wrap \<open>ErrInvalidIdentifier\<close>.\<close>

datatype id_error =
    IdEmpty
  | IdTooLong nat
  | IdWildcard char
  | IdWhitespace
  | IdBadRune
  | IdEmptySegment

definition idRune :: "char \<Rightarrow> bool" where
  "idRune c \<longleftrightarrow> isAlnum c \<or> c = CHR ''.'' \<or> c = CHR ''_'' \<or> c = CHR ''-''"

fun scanRunes :: "string \<Rightarrow> id_error option" where
  "scanRunes [] = None"
| "scanRunes (r # rs) =
     (if idRune r then scanRunes rs
      else if r = CHR ''*'' \<or> r = CHR ''>'' then Some (IdWildcard r)
      else if isSpace r then Some IdWhitespace
      else Some IdBadRune)"

fun scanSegments :: "string list \<Rightarrow> id_error option" where
  "scanSegments [] = None"
| "scanSegments (tok # toks) = (if tok = [] then Some IdEmptySegment else scanSegments toks)"

definition ValidIdentifier :: "string \<Rightarrow> id_error option" where
  "ValidIdentifier s =
     (if s = [] then Some IdEmpty
      else if length s > MaxIdentifierLen then Some (IdTooLong (length s))
      else case scanRunes s of
             Some e \<Rightarrow> Some e
           | None \<Rightarrow> scanSegments (splitOn CHR ''.'' s))"

text \<open>\<open>CheckIdentifier\<close> names the field in front of the same error.\<close>

definition CheckIdentifier :: "string \<Rightarrow> string \<Rightarrow> (string \<times> id_error) option" where
  "CheckIdentifier field s = map_option (\<lambda>e. (field, e)) (ValidIdentifier s)"

abbreviation validId :: "string \<Rightarrow> bool" where
  "validId s \<equiv> ValidIdentifier s = None"

section \<open>Subjects\<close>

definition ProtocolVersion :: int where
  "ProtocolVersion = 1"

definition Heartbeat :: "string \<Rightarrow> string" where
  "Heartbeat agentID = ''agents.'' @ agentID @ ''.heartbeat''"

definition Telemetry :: "string \<Rightarrow> string" where
  "Telemetry agentID = ''agents.'' @ agentID @ ''.telemetry''"

definition Inventory :: "string \<Rightarrow> string \<Rightarrow> string" where
  "Inventory agentID kind = ''agents.'' @ agentID @ ''.inventory.'' @ kind"

definition JobProgress :: "string \<Rightarrow> string \<Rightarrow> string" where
  "JobProgress agentID jobID = ''agents.'' @ agentID @ ''.jobs.'' @ jobID @ ''.progress''"

definition JobOutput :: "string \<Rightarrow> string \<Rightarrow> string" where
  "JobOutput agentID jobID = ''agents.'' @ agentID @ ''.jobs.'' @ jobID @ ''.output''"

definition JobResult :: "string \<Rightarrow> string \<Rightarrow> string" where
  "JobResult agentID jobID = ''agents.'' @ agentID @ ''.jobs.'' @ jobID @ ''.result''"

definition Events :: "string \<Rightarrow> string" where
  "Events agentID = ''agents.'' @ agentID @ ''.events''"

definition ShellOut :: "string \<Rightarrow> string \<Rightarrow> string" where
  "ShellOut agentID sessionID = ''agents.'' @ agentID @ ''.shell.'' @ sessionID @ ''.out''"

definition ShellCtl :: "string \<Rightarrow> string \<Rightarrow> string" where
  "ShellCtl agentID sessionID = ''agents.'' @ agentID @ ''.shell.'' @ sessionID @ ''.ctl''"

definition JobsQueue :: "string \<Rightarrow> string" where
  "JobsQueue agentID = ''jobs.'' @ agentID"

definition Cmd :: "string \<Rightarrow> string \<Rightarrow> string" where
  "Cmd agentID op = ''cmd.'' @ agentID @ ''.'' @ op"

definition CmdWildcard :: "string \<Rightarrow> string" where
  "CmdWildcard agentID = ''cmd.'' @ agentID @ ''.>''"

definition ShellIn :: "string \<Rightarrow> string \<Rightarrow> string" where
  "ShellIn agentID sessionID = ''agents.'' @ agentID @ ''.shell.'' @ sessionID @ ''.in''"

definition ShellResize :: "string \<Rightarrow> string \<Rightarrow> string" where
  "ShellResize agentID sessionID = ''agents.'' @ agentID @ ''.shell.'' @ sessionID @ ''.rsz''"

definition InboxPrefix :: "string \<Rightarrow> string" where
  "InboxPrefix agentID = ''_INBOX_'' @ agentID"

lemmas subject_defs =
  Heartbeat_def Telemetry_def Inventory_def JobProgress_def JobOutput_def JobResult_def
  Events_def ShellOut_def ShellCtl_def JobsQueue_def Cmd_def ShellIn_def ShellResize_def

text \<open>
  How NATS reads a subject: tokens between dots, \<open>*\<close> for any one token, \<open>>\<close> for
  one or more trailing tokens.
\<close>

fun tokensMatch :: "string list \<Rightarrow> string list \<Rightarrow> bool" where
  "tokensMatch [] [] = True"
| "tokensMatch (p # ps) (t # ts) =
     (if p = ''>'' then True
      else if p = ''*'' \<or> p = t then tokensMatch ps ts else False)"
| "tokensMatch _ _ = False"

definition subjectMatches :: "string \<Rightarrow> string \<Rightarrow> bool" where
  "subjectMatches pat subj = tokensMatch (splitOn CHR ''.'' pat) (splitOn CHR ''.'' subj)"

section \<open>Message ids\<close>

definition crockford :: string where
  "crockford = ''0123456789ABCDEFGHJKMNPQRSTVWXYZ''"

text \<open>The six timestamp bytes of \<open>NewMsgID\<close>; the ten random ones follow them.\<close>

definition stampBytes :: "64 word \<Rightarrow> 8 word list" where
  "stampBytes ms = map (\<lambda>k. ucast (drop_bit k ms)) [40, 32, 24, 16, 8, 0]"

text \<open>The twenty-six assignments to \<open>out\<close>, as the values that index \<open>crockford\<close>.\<close>

definition msgDigits :: "(nat \<Rightarrow> 8 word) \<Rightarrow> 8 word list" where
  "msgDigits b =
    [ drop_bit 5 (b 0 AND 224),
      b 0 AND 31,
      drop_bit 3 (b 1 AND 248),
      push_bit 2 (b 1 AND 7) OR drop_bit 6 (b 2 AND 192),
      drop_bit 1 (b 2 AND 62),
      push_bit 4 (b 2 AND 1) OR drop_bit 4 (b 3 AND 240),
      push_bit 1 (b 3 AND 15) OR drop_bit 7 (b 4 AND 128),
      drop_bit 2 (b 4 AND 124),
      push_bit 3 (b 4 AND 3) OR drop_bit 5 (b 5 AND 224),
      b 5 AND 31,
      drop_bit 3 (b 6 AND 248),
      push_bit 2 (b 6 AND 7) OR drop_bit 6 (b 7 AND 192),
      drop_bit 1 (b 7 AND 62),
      push_bit 4 (b 7 AND 1) OR drop_bit 4 (b 8 AND 240),
      push_bit 1 (b 8 AND 15) OR drop_bit 7 (b 9 AND 128),
      drop_bit 2 (b 9 AND 124),
      push_bit 3 (b 9 AND 3) OR drop_bit 5 (b 10 AND 224),
      b 10 AND 31,
      drop_bit 3 (b 11 AND 248),
      push_bit 2 (b 11 AND 7) OR drop_bit 6 (b 12 AND 192),
      drop_bit 1 (b 12 AND 62),
      push_bit 4 (b 12 AND 1) OR drop_bit 4 (b 13 AND 240),
      push_bit 1 (b 13 AND 15) OR drop_bit 7 (b 14 AND 128),
      drop_bit 2 (b 14 AND 124),
      push_bit 3 (b 14 AND 3) OR drop_bit 5 (b 15 AND 224),
      b 15 AND 31 ]"

definition encodeMsgID :: "8 word list \<Rightarrow> string" where
  "encodeMsgID bs = map (\<lambda>d. crockford ! unat d) (msgDigits (\<lambda>i. bs ! i))"

text \<open>\<open>NewMsgID\<close>, with the clock and the ten bytes of \<open>crypto/rand\<close> as arguments.\<close>

definition NewMsgID :: "64 word \<Rightarrow> 8 word list \<Rightarrow> string" where
  "NewMsgID ms rnd = encodeMsgID (stampBytes ms @ rnd)"

section \<open>Envelopes\<close>

record envelope =
  env_V :: int
  env_Type :: string
  env_AgentID :: string
  env_MsgID :: string
  env_TS :: gtime
  env_Data :: bytes

text \<open>
  \<open>NewEnvelope\<close>: \<open>marshal\<close> is what \<open>json.Marshal\<close> makes of the data, \<open>now\<close> the clock.
\<close>

definition NewEnvelope ::
  "('e + bytes) \<Rightarrow> gtime \<Rightarrow> string \<Rightarrow> string \<Rightarrow> string \<Rightarrow> 'e + envelope" where
  "NewEnvelope marshal now msgType agentID msgID =
     (case marshal of
        Inl e \<Rightarrow> Inl e
      | Inr raw \<Rightarrow> Inr \<lparr>env_V = ProtocolVersion, env_Type = msgType, env_AgentID = agentID,
                        env_MsgID = msgID, env_TS = now, env_Data = raw\<rparr>)"

section \<open>What an accepted identifier is\<close>

lemma scanRunes_None: "scanRunes s = None \<longleftrightarrow> set s \<subseteq> Collect idRune"
  by (induction s) auto

lemma scanSegments_None: "scanSegments toks = None \<longleftrightarrow> [] \<notin> set toks"
  by (induction toks) auto

lemma validId_iff [guard_simps]:
  "validId s \<longleftrightarrow> s \<noteq> [] \<and> length s \<le> MaxIdentifierLen \<and> set s \<subseteq> Collect idRune \<and>
     [] \<notin> set (splitOn CHR ''.'' s)"
proof (cases "scanRunes s")
  case None
  then show ?thesis
    using scanRunes_None [of s] by (auto simp: ValidIdentifier_def scanSegments_None)
next
  case (Some e)
  then show ?thesis using scanRunes_None [of s] by (auto simp: ValidIdentifier_def)
qed

lemma CheckIdentifier_None [guard_simps]: "CheckIdentifier f s = None \<longleftrightarrow> validId s"
  by (simp add: CheckIdentifier_def)

lemma idRune_plain: "idRune c \<Longrightarrow> c \<noteq> CHR ''*'' \<and> c \<noteq> CHR ''>'' \<and> \<not> isSpace c \<and> c \<noteq> CHR ''/''"
  by (auto simp: idRune_def char_class_defs)

definition plainToken :: "string \<Rightarrow> bool" where
  "plainToken t \<longleftrightarrow> t \<noteq> [] \<and> t \<noteq> ''*'' \<and> t \<noteq> ''>''"

lemma validId_tokens: "validId s \<Longrightarrow> list_all plainToken (splitOn CHR ''.'' s)"
proof -
  assume v: "validId s"
  have "plainToken t" if t: "t \<in> set (splitOn CHR ''.'' s)" for t
  proof -
    from v t have "t \<noteq> []" and "set t \<subseteq> Collect idRune"
      using set_splitOn [OF t] by (auto simp: validId_iff)
    then show ?thesis
      using idRune_plain [of "CHR ''*''"] idRune_plain [of "CHR ''>''"]
      by (auto simp: plainToken_def)
  qed
  then show ?thesis by (simp add: list_all_iff)
qed

lemma tokensMatch_plain:
  "list_all plainToken ps \<Longrightarrow> tokensMatch ps ts \<longleftrightarrow> ts = ps"
  by (induction ps ts rule: tokensMatch.induct) (auto simp: plainToken_def)

lemma subjectMatches_plain:
  assumes "list_all plainToken (splitOn CHR ''.'' pat)"
  shows "subjectMatches pat subj \<longleftrightarrow> subj = pat"
  using tokensMatch_plain [OF assms] joinWith_splitOn unfolding subjectMatches_def by metis

lemma splitOn_dot_free:
  "CHR ''.'' \<notin> set w \<Longrightarrow> splitOn CHR ''.'' (w @ CHR ''.'' # t) = w # splitOn CHR ''.'' t"
  by (simp add: splitOn_append splitOn_free)

lemma sessionSubject_plain:
  assumes "validId a" and "validId s" and "CHR ''.'' \<notin> set leaf" and "plainToken leaf"
  shows "list_all plainToken (splitOn CHR ''.'' (''agents.'' @ a @ ''.shell.'' @ s @ CHR ''.'' # leaf))"
proof -
  have "splitOn CHR ''.'' (''agents.'' @ a @ ''.shell.'' @ s @ CHR ''.'' # leaf) =
      ''agents'' # splitOn CHR ''.'' a @ ''shell'' # splitOn CHR ''.'' s @ [leaf]"
    using splitOn_dot_free [of "''agents''"] splitOn_dot_free [of "''shell''"]
      splitOn_append [of _ a] splitOn_append [of _ s] splitOn_free [OF assms(3)] by simp
  then show ?thesis
    using assms validId_tokens by (simp add: plainToken_def)
qed

lemmas session_subject_match =
  subjectMatches_plain [OF sessionSubject_plain]

section \<open>Decoding a message id\<close>

lemma less8_cases:
  "n < 8 \<Longrightarrow> n = 0 \<or> n = 1 \<or> n = 2 \<or> n = 3 \<or> n = 4 \<or> n = 5 \<or> n = 6 \<or> n = (7 :: nat)"
  by arith

lemma byte_eqI:
  fixes v w :: "8 word"
  assumes "bit v 0 = bit w 0" "bit v 1 = bit w 1" "bit v 2 = bit w 2" "bit v 3 = bit w 3"
    "bit v 4 = bit w 4" "bit v 5 = bit w 5" "bit v 6 = bit w 6" "bit v 7 = bit w 7"
  shows "v = w"
proof (rule bit_word_eqI)
  fix n assume "n < LENGTH(8)"
  then have "n < 8" by simp
  then show "bit v n = bit w n" using assms less8_cases by blast
qed

text \<open>The bytes read back from the twenty-six digits: a reference decoder.\<close>

definition undigits :: "8 word list \<Rightarrow> 8 word list" where
  "undigits d =
    (let grp = (\<lambda>k. [push_bit 3 (d ! k) OR drop_bit 2 (d ! (k + 1)),
           push_bit 6 (d ! (k + 1)) OR push_bit 1 (d ! (k + 2)) OR drop_bit 4 (d ! (k + 3)),
           push_bit 4 (d ! (k + 3)) OR drop_bit 1 (d ! (k + 4)),
           push_bit 7 (d ! (k + 4)) OR push_bit 2 (d ! (k + 5)) OR drop_bit 3 (d ! (k + 6)),
           push_bit 5 (d ! (k + 6)) OR d ! (k + 7)])
     in (push_bit 5 (d ! 0) OR d ! 1) # grp 2 @ grp 10 @ grp 18)"

definition crockVal :: "char \<Rightarrow> 8 word" where
  "crockVal c = of_nat (length (takeWhile (\<lambda>x. x \<noteq> c) crockford))"

definition decodeMsgID :: "string \<Rightarrow> 8 word list" where
  "decodeMsgID s = undigits (map crockVal s)"

lemma digit_bytes:
  fixes v w x y z :: "8 word"
  shows "push_bit 5 (drop_bit 5 (v AND 224)) OR (v AND 31) = v"
    and "push_bit 3 (drop_bit 3 (v AND 248)) OR
         drop_bit 2 (push_bit 2 (v AND 7) OR drop_bit 6 (w AND 192)) = v"
    and "push_bit 6 (push_bit 2 (v AND 7) OR drop_bit 6 (w AND 192)) OR
         push_bit 1 (drop_bit 1 (w AND 62)) OR
         drop_bit 4 (push_bit 4 (w AND 1) OR drop_bit 4 (x AND 240)) = w"
    and "push_bit 4 (push_bit 4 (w AND 1) OR drop_bit 4 (x AND 240)) OR
         drop_bit 1 (push_bit 1 (x AND 15) OR drop_bit 7 (y AND 128)) = x"
    and "push_bit 7 (push_bit 1 (x AND 15) OR drop_bit 7 (y AND 128)) OR
         push_bit 2 (drop_bit 2 (y AND 124)) OR
         drop_bit 3 (push_bit 3 (y AND 3) OR drop_bit 5 (z AND 224)) = y"
    and "push_bit 5 (push_bit 3 (y AND 3) OR drop_bit 5 (z AND 224)) OR (z AND 31) = z"
  by (rule byte_eqI; simp add: bit_simps eval_nat_numeral del: push_bit_Suc drop_bit_Suc)+

lemma digit_small:
  fixes v w :: "8 word"
  shows "take_bit 5 (drop_bit 5 (v AND 224)) = drop_bit 5 (v AND 224)"
    and "take_bit 5 (v AND 31) = v AND 31"
    and "take_bit 5 (drop_bit 3 (v AND 248)) = drop_bit 3 (v AND 248)"
    and "take_bit 5 (push_bit 2 (v AND 7) OR drop_bit 6 (w AND 192)) =
         push_bit 2 (v AND 7) OR drop_bit 6 (w AND 192)"
    and "take_bit 5 (drop_bit 1 (v AND 62)) = drop_bit 1 (v AND 62)"
    and "take_bit 5 (push_bit 4 (v AND 1) OR drop_bit 4 (w AND 240)) =
         push_bit 4 (v AND 1) OR drop_bit 4 (w AND 240)"
    and "take_bit 5 (push_bit 1 (v AND 15) OR drop_bit 7 (w AND 128)) =
         push_bit 1 (v AND 15) OR drop_bit 7 (w AND 128)"
    and "take_bit 5 (drop_bit 2 (v AND 124)) = drop_bit 2 (v AND 124)"
    and "take_bit 5 (push_bit 3 (v AND 3) OR drop_bit 5 (w AND 224)) =
         push_bit 3 (v AND 3) OR drop_bit 5 (w AND 224)"
  by (rule byte_eqI; simp add: bit_simps del: push_bit_Suc drop_bit_Suc)+

lemma msgDigits_small: "list_all (\<lambda>d. unat d < 32) (msgDigits b)"
proof -
  have "unat d < 32" if "take_bit 5 d = d" for d :: "8 word"
  proof -
    have "take_bit 5 (unat d) < 2 ^ 5" by (rule take_bit_nat_less_exp)
    moreover have "unat d = take_bit 5 (unat d)" using that by (metis unsigned_take_bit_eq)
    ultimately show ?thesis by simp
  qed
  then show ?thesis
    unfolding msgDigits_def by (simp only: list.pred_inject digit_small simp_thms)
qed

lemma length_msgDigits [simp]: "length (msgDigits b) = 26"
  by (simp add: msgDigits_def)

lemma crockVal_nth: "unat d < 32 \<Longrightarrow> crockVal (crockford ! unat d) = d"
proof -
  assume "unat d < 32"
  have all: "list_all (\<lambda>k. crockVal (crockford ! k) = of_nat k) [0..<32]"
    by code_simp
  then have "crockVal (crockford ! unat d) = of_nat (unat d)"
    using \<open>unat d < 32\<close> by (simp add: list_all_iff)
  then show ?thesis by simp
qed

lemma map_crockVal: "map crockVal (encodeMsgID bs) = msgDigits (\<lambda>i. bs ! i)"
  using msgDigits_small [of "\<lambda>i. bs ! i"]
  by (auto simp: encodeMsgID_def list_all_iff crockVal_nth intro!: map_idI)

lemma undigits_msgDigits: "undigits (msgDigits b) = map b [0..<16]"
proof -
  have "[0..<16] = [0, 1, 2, 3, 4, 5, 6, 7, 8, 9, 10, 11, 12, 13, 14, 15 :: nat]"
    by (simp add: upt_rec)
  then show ?thesis
    unfolding undigits_def Let_def msgDigits_def
    by (simp add: digit_bytes [simplified] nth_Cons')
qed

lemma decode_encodeMsgID: "length bs = 16 \<Longrightarrow> decodeMsgID (encodeMsgID bs) = bs"
  unfolding decodeMsgID_def by (simp add: map_crockVal undigits_msgDigits map_nth [symmetric])
    (metis map_nth)

lemma encodeMsgID_shape: "length (encodeMsgID bs) = 26" "set (encodeMsgID bs) \<subseteq> set crockford"
proof -
  show "length (encodeMsgID bs) = 26" by (simp add: encodeMsgID_def)
  have "crockford ! unat d \<in> set crockford" if "unat d < 32" for d :: "8 word"
    by (rule nth_mem) (use that in \<open>simp add: crockford_def\<close>)
  then show "set (encodeMsgID bs) \<subseteq> set crockford"
    using msgDigits_small [of "\<lambda>i. bs ! i"] by (auto simp: encodeMsgID_def list_all_iff)
qed

section \<open>Properties\<close>

lemma validId_not_dots: "validId s \<Longrightarrow> s \<noteq> ''.'' \<and> s \<noteq> ''..''"
  by (auto simp: validId_iff)

text \<open>
  An identifier the check accepts is not empty, is at most 128 bytes long, holds no
  wildcard, no white space and no path separator, and is neither \<open>.\<close> nor \<open>..\<close>: it can
  neither change the meaning of a subject nor walk out of a directory.
\<close>

theorem accepted_identifier_safe:
  assumes "validId s"
  shows "s \<noteq> [] \<and> length s \<le> 128 \<and> s \<noteq> ''.'' \<and> s \<noteq> ''..'' \<and>
    CHR ''*'' \<notin> set s \<and> CHR ''>'' \<notin> set s \<and> CHR ''/'' \<notin> set s \<and> filter isSpace s = []"
proof -
  from assms have "set s \<subseteq> Collect idRune" by (simp add: validId_iff)
  then have "\<And>c. c \<in> set s \<Longrightarrow> c \<noteq> CHR ''*'' \<and> c \<noteq> CHR ''>'' \<and> \<not> isSpace c \<and> c \<noteq> CHR ''/''"
    using idRune_plain by blast
  then show ?thesis
    using assms validId_not_dots
    by (auto simp: validId_iff MaxIdentifierLen_def filter_empty_conv)
qed

theorem accepted_identifier_safe_witness:
  "validId ''job-7.retry_2'' \<and> CHR ''>'' \<notin> set ''job-7.retry_2''"
proof -
  have v: "validId ''job-7.retry_2''" by code_simp
  then show ?thesis using accepted_identifier_safe [OF v] by simp
qed

text \<open>
  A session's three subscriptions are private: for identifiers the check accepts, the
  subject the agent subscribes to for keystrokes, for control frames or for resizes is matched
  by exactly that subject, so no other session's traffic reaches the terminal.
\<close>

theorem session_subjects_private:
  assumes "validId agent" and "validId sid"
  shows "(subjectMatches (ShellIn agent sid) subj \<longleftrightarrow> subj = ShellIn agent sid) \<and>
    (subjectMatches (ShellCtl agent sid) subj \<longleftrightarrow> subj = ShellCtl agent sid) \<and>
    (subjectMatches (ShellResize agent sid) subj \<longleftrightarrow> subj = ShellResize agent sid)"
  using session_subject_match [OF assms, of "''in''"] session_subject_match [OF assms, of "''ctl''"]
    session_subject_match [OF assms, of "''rsz''"]
  by (simp add: plainToken_def subject_defs)

theorem session_subjects_private_witness:
  "\<not> subjectMatches (ShellIn ''a1'' ''s1'') (ShellIn ''a1'' ''s2'') \<and>
   subjectMatches (ShellIn ''a1'' ''*'') (ShellIn ''a1'' ''s2'')"
proof -
  have a: "validId ''a1''" and s: "validId ''s1''" by code_simp+
  have "\<not> subjectMatches (ShellIn ''a1'' ''s1'') (ShellIn ''a1'' ''s2'')"
    using session_subjects_private [OF a s, of "ShellIn ''a1'' ''s2''"] by (simp add: subject_defs)
  moreover have "subjectMatches (ShellIn ''a1'' ''*'') (ShellIn ''a1'' ''s2'')" by code_simp
  ultimately show ?thesis by simp
qed

text \<open>
  A message id is a faithful encoding: it has twenty-six characters of the Crockford
  alphabet, and the sixteen bytes (six of clock, ten random) can be read back from it, so two
  ids collide only when all their bytes do.
\<close>

theorem msg_id_roundtrip:
  assumes "length rnd = 10"
  shows "length (NewMsgID ms rnd) = 26 \<and> set (NewMsgID ms rnd) \<subseteq> set crockford \<and>
    decodeMsgID (NewMsgID ms rnd) = stampBytes ms @ rnd"
  using assms encodeMsgID_shape decode_encodeMsgID [of "stampBytes ms @ rnd"]
  by (simp add: NewMsgID_def stampBytes_def)

theorem msg_id_roundtrip_witness:
  "decodeMsgID (NewMsgID 1700000000000 (replicate 10 7)) = stampBytes 1700000000000 @ replicate 10 7"
  using msg_id_roundtrip [of "replicate 10 7" 1700000000000] by simp

end
