(* ===== verification/Fire_Heap.thy ===== *)
theory Fire_Heap
  imports Go_Base
begin

text \<open>
  The next-fire heap of the scheduler, \<open>agent/internal/sched/heap.go\<close>: \<open>fireItem\<close>, the
  \<open>heap.Interface\<close> methods of \<open>fireHeap\<close>, and the functions of Go's \<open>container/heap\<close> that
  drive them (\<open>Init\<close>, \<open>Push\<close>, \<open>Pop\<close> and their sift loops), on the array the source keeps
  the heap in. The interface the scheduler relies on is the locale \<open>timer_queue\<close>: a bag of
  timed items whose \<open>peek\<close> is an item that comes first. The array heap is shown to be one.
\<close>

section \<open>The array and its methods\<close>

record fireItem =
  fi_entryID :: string
  fi_base :: gtime
  fi_at :: gtime

type_synonym fireHeap = "fireItem list"

definition heapLess :: "fireHeap \<Rightarrow> nat \<Rightarrow> nat \<Rightarrow> bool" where
  "heapLess h i j \<longleftrightarrow> fi_at (h ! i) < fi_at (h ! j)"

definition heapSwap :: "fireHeap \<Rightarrow> nat \<Rightarrow> nat \<Rightarrow> fireHeap" where
  "heapSwap h i j = h[i := h ! j, j := h ! i]"

definition heapPeek :: "fireHeap \<Rightarrow> fireItem option" where
  "heapPeek h = (case h of [] \<Rightarrow> None | it # _ \<Rightarrow> Some it)"

section \<open>container/heap\<close>

function siftUp :: "fireHeap \<Rightarrow> nat \<Rightarrow> fireHeap" where
  "siftUp h j =
     (let i = (j - 1) div 2
      in if i = j \<or> \<not> heapLess h j i then h else siftUp (heapSwap h i j) i)"
  by pat_completeness auto
termination
  by (relation "measure snd") auto

text \<open>The smaller child of \<open>i\<close>, the left one \<open>j1 = 2 * i + 1\<close> being below \<open>n\<close>.\<close>

definition downChild :: "fireHeap \<Rightarrow> nat \<Rightarrow> nat \<Rightarrow> nat" where
  "downChild h i n =
     (let j1 = 2 * i + 1 in if j1 + 1 < n \<and> heapLess h (j1 + 1) j1 then j1 + 1 else j1)"

function siftDown :: "fireHeap \<Rightarrow> nat \<Rightarrow> nat \<Rightarrow> fireHeap" where
  "siftDown h i n =
     (if 2 * i + 1 \<ge> n then h
      else let j = downChild h i n
           in if \<not> heapLess h j i then h else siftDown (heapSwap h i j) j n)"
  by pat_completeness auto
termination
  by (relation "measure (\<lambda>(h, i, n). n - i)") (auto simp: downChild_def Let_def split: if_splits)

declare siftUp.simps [simp del] siftDown.simps [simp del]

definition heapPush :: "fireItem \<Rightarrow> fireHeap \<Rightarrow> fireHeap" where
  "heapPush x h = siftUp (h @ [x]) (length h)"

definition heapPop :: "fireHeap \<Rightarrow> fireHeap" where
  "heapPop h = (let n = length h - 1 in take n (siftDown (heapSwap h 0 n) 0 n))"

text \<open>\<open>heap.Init\<close>: sift down every inner node, the last one first.\<close>

fun initFrom :: "nat \<Rightarrow> fireHeap \<Rightarrow> fireHeap" where
  "initFrom 0 h = h"
| "initFrom (Suc i) h = initFrom i (siftDown h i (length h))"

definition heapInit :: "fireHeap \<Rightarrow> fireHeap" where
  "heapInit h = initFrom (length h div 2) h"

section \<open>The heap order\<close>

definition parent :: "nat \<Rightarrow> nat" where
  "parent k = (k - 1) div 2"

definition ordAt :: "fireHeap \<Rightarrow> nat \<Rightarrow> bool" where
  "ordAt h k \<longleftrightarrow> fi_at (h ! parent k) \<le> fi_at (h ! k)"

text \<open>Order at every node of the prefix \<open>n\<close> whose parent is at least \<open>a\<close>.\<close>

definition heapFrom :: "nat \<Rightarrow> nat \<Rightarrow> fireHeap \<Rightarrow> bool" where
  "heapFrom a n h \<longleftrightarrow> (\<forall>k < n. 0 < k \<longrightarrow> a \<le> parent k \<longrightarrow> ordAt h k)"

definition isHeap :: "fireHeap \<Rightarrow> bool" where
  "isHeap h \<longleftrightarrow> heapFrom 0 (length h) h"

lemma parent_less: "0 < k \<Longrightarrow> parent k < k"
  by (auto simp: parent_def)

lemma parent_eq: "0 < k \<Longrightarrow> parent k = i \<longleftrightarrow> k = 2 * i + 1 \<or> k = 2 * i + 2"
  by (auto simp: parent_def)

lemma length_heapSwap [simp]: "length (heapSwap h i j) = length h"
  by (simp add: heapSwap_def)

lemma nth_heapSwap:
  assumes "i < length h" and "j < length h" and "k < length h"
  shows "heapSwap h i j ! k = (if k = j then h ! i else if k = i then h ! j else h ! k)"
  using assms by (auto simp: heapSwap_def nth_list_update)

lemma mset_heapSwap: "i < length h \<Longrightarrow> j < length h \<Longrightarrow> mset (heapSwap h i j) = mset h"
  by (simp add: heapSwap_def mset_swap)

lemma length_siftUp [simp]: "length (siftUp h j) = length h"
proof (induction h j rule: siftUp.induct)
  case (1 h j)
  then show ?case by (subst siftUp.simps) (simp add: Let_def)
qed

lemma downChild_bounds: "\<not> 2 * i + 1 \<ge> n \<Longrightarrow> i < downChild h i n \<and> downChild h i n < n"
  by (auto simp: downChild_def Let_def)

lemma siftDown_stop: "2 * i + 1 \<ge> n \<or> \<not> heapLess h (downChild h i n) i \<Longrightarrow> siftDown h i n = h"
  by (subst siftDown.simps) (auto simp: Let_def)

lemma siftDown_step:
  "\<not> 2 * i + 1 \<ge> n \<Longrightarrow> heapLess h (downChild h i n) i \<Longrightarrow>
   siftDown h i n = siftDown (heapSwap h i (downChild h i n)) (downChild h i n) n"
  by (subst siftDown.simps) (simp add: Let_def)

text \<open>Induction along the loop, with the two ways out of an iteration as its cases.\<close>

lemma siftDown_induct [case_names stop step]:
  assumes "\<And>h i n. 2 * i + 1 \<ge> n \<or> \<not> heapLess h (downChild h i n) i \<Longrightarrow> P h i n"
    and "\<And>h i n. \<lbrakk>\<not> 2 * i + 1 \<ge> n; heapLess h (downChild h i n) i;
           P (heapSwap h i (downChild h i n)) (downChild h i n) n\<rbrakk> \<Longrightarrow> P h i n"
  shows "P h i n"
proof (induction h i n rule: siftDown.induct)
  case (1 h i n)
  then show ?case using assms by blast
qed

lemma length_siftDown [simp]: "length (siftDown h i n) = length h"
  by (induction h i n rule: siftDown_induct) (simp_all add: siftDown_stop siftDown_step)

lemma mset_siftUp: "j < length h \<Longrightarrow> mset (siftUp h j) = mset h"
proof (induction h j rule: siftUp.induct)
  case (1 h j)
  then show ?case
    by (subst siftUp.simps) (auto simp: Let_def mset_heapSwap)
qed

lemma mset_siftDown: "n \<le> length h \<Longrightarrow> mset (siftDown h i n) = mset h"
proof (induction h i n rule: siftDown_induct)
  case (stop h i n)
  then show ?case by (simp add: siftDown_stop)
next
  case (step h i n)
  then show ?case
    using downChild_bounds [OF step(1), of h] by (simp add: siftDown_step mset_heapSwap)
qed

text \<open>\<open>siftDown\<close> leaves everything at and above the bound untouched.\<close>

lemma siftDown_above: "n \<le> k \<Longrightarrow> siftDown h i n ! k = h ! k"
proof (induction h i n rule: siftDown_induct)
  case (stop h i n)
  then show ?case by (simp add: siftDown_stop)
next
  case (step h i n)
  then show ?case
    using downChild_bounds [OF step(1), of h]
    by (simp add: siftDown_step heapSwap_def nth_list_update)
qed

text \<open>The order holds everywhere but at \<open>j\<close>, and \<open>j\<close>'s children respect its parent.\<close>

definition upHole :: "nat \<Rightarrow> fireHeap \<Rightarrow> bool" where
  "upHole j h \<longleftrightarrow> (\<forall>k < length h. 0 < k \<longrightarrow> k \<noteq> j \<longrightarrow> ordAt h k) \<and>
     (\<forall>k < length h. 0 < k \<longrightarrow> 0 < j \<longrightarrow> parent k = j \<longrightarrow> fi_at (h ! parent j) \<le> fi_at (h ! k))"

lemma upHole_swap:
  assumes hole: "upHole j h" and j: "j < length h" "0 < j" and less: "heapLess h j (parent j)"
  shows "upHole (parent j) (heapSwap h (parent j) j)"
proof -
  let ?i = "parent j" and ?g = "heapSwap h (parent j) j"
  have i: "?i < j" "?i < length h" using j parent_less [of j] by auto
  note g = nth_heapSwap [OF i(2) j(1)]
  have lt: "fi_at (h ! j) < fi_at (h ! ?i)" using less by (simp add: heapLess_def)
  have "ordAt ?g k" if k: "k < length h" "0 < k" "k \<noteq> ?i" for k
  proof -
    have pk: "parent k < length h" using k parent_less [of k] by auto
    consider "k = j" | "k \<noteq> j" "parent k = j" | "k \<noteq> j" "parent k = ?i" | "k \<noteq> j" "parent k \<noteq> j" "parent k \<noteq> ?i"
      by blast
    then show ?thesis
    proof cases
      case 1
      then show ?thesis using g [of j] g [of ?i] i j lt by (simp add: ordAt_def)
    next
      case 2
      then show ?thesis using g [OF k(1)] g [of j] k j hole by (auto simp: ordAt_def upHole_def)
    next
      case 3
      then have "fi_at (h ! ?i) \<le> fi_at (h ! k)" using hole k by (auto simp: ordAt_def upHole_def)
      with 3 show ?thesis using g [OF k(1)] g [of ?i] k i lt by (simp add: ordAt_def)
    next
      case 4
      then show ?thesis using g [OF k(1)] g [OF pk] k hole by (auto simp: ordAt_def upHole_def)
    qed
  qed
  moreover have "fi_at (?g ! parent ?i) \<le> fi_at (?g ! k)"
    if k: "k < length h" "0 < k" "0 < ?i" "parent k = ?i" for k
  proof -
    have ppi: "parent ?i < ?i" using parent_less [OF k(3)] .
    have a: "fi_at (h ! parent ?i) \<le> fi_at (h ! ?i)"
      using hole i k by (auto simp: ordAt_def upHole_def)
    have "k \<noteq> ?i" using k parent_less [of k] by auto
    have "parent ?i \<noteq> j" using ppi i by linarith
    have gp: "?g ! parent ?i = h ! parent ?i"
      using g [of "parent ?i"] ppi i \<open>parent ?i \<noteq> j\<close> by auto
    show ?thesis
    proof (cases "k = j")
      case True
      then show ?thesis using a gp g [OF j(1)] by simp
    next
      case False
      then have "fi_at (h ! ?i) \<le> fi_at (h ! k)" using hole k by (auto simp: ordAt_def upHole_def)
      then show ?thesis using a gp g [OF k(1)] False \<open>k \<noteq> ?i\<close> by simp
    qed
  qed
  ultimately show ?thesis by (simp add: upHole_def)
qed

lemma upHole_done:
  assumes "upHole j h" and "j < length h" and "j = 0 \<or> \<not> heapLess h j (parent j)"
  shows "isHeap h"
  using assms by (auto simp: isHeap_def heapFrom_def upHole_def ordAt_def heapLess_def)

lemma isHeap_siftUp: "upHole j h \<Longrightarrow> j < length h \<Longrightarrow> isHeap (siftUp h j)"
proof (induction h j rule: siftUp.induct)
  case (1 h j)
  show ?case
  proof (cases "parent j = j \<or> \<not> heapLess h j (parent j)")
    case True
    moreover have "parent j = j \<Longrightarrow> j = 0" using parent_less [of j] by (cases j) auto
    ultimately have "isHeap h" using upHole_done "1.prems" by blast
    with True show ?thesis by (subst siftUp.simps) (simp add: Let_def parent_def)
  next
    case False
    then have j: "0 < j" by (cases j) (auto simp: parent_def)
    have "isHeap (siftUp (heapSwap h (parent j) j) (parent j))"
      using "1.IH" [OF refl] False upHole_swap [OF "1.prems" j] parent_less [OF j] "1.prems"
      by (auto simp: parent_def)
    with False show ?thesis by (subst siftUp.simps) (simp add: Let_def parent_def)
  qed
qed

text \<open>The order holds from \<open>a\<close> on but below \<open>i\<close>, and \<open>i\<close>'s children respect its parent.\<close>

definition downHole :: "nat \<Rightarrow> nat \<Rightarrow> nat \<Rightarrow> fireHeap \<Rightarrow> bool" where
  "downHole a i n h \<longleftrightarrow>
     (\<forall>k < n. 0 < k \<longrightarrow> a \<le> parent k \<longrightarrow> parent k \<noteq> i \<longrightarrow> ordAt h k) \<and>
     (\<forall>k < n. 0 < k \<longrightarrow> parent k = i \<longrightarrow> 0 < i \<longrightarrow> a \<le> parent i \<longrightarrow> fi_at (h ! parent i) \<le> fi_at (h ! k))"

lemma downHole_done:
  assumes "downHole a i n h"
    and "\<And>k. k < n \<Longrightarrow> 0 < k \<Longrightarrow> parent k = i \<Longrightarrow> fi_at (h ! i) \<le> fi_at (h ! k)"
  shows "heapFrom a n h"
  using assms by (auto simp: heapFrom_def downHole_def ordAt_def)

lemma downHole_swap:
  assumes hole: "downHole a i n h" and n: "n \<le> length h" and a: "a \<le> i"
    and j: "j < n" "0 < j" "parent j = i" and less: "heapLess h j i"
    and least: "\<And>k. k < n \<Longrightarrow> 0 < k \<Longrightarrow> parent k = i \<Longrightarrow> fi_at (h ! j) \<le> fi_at (h ! k)"
  shows "downHole a j n (heapSwap h i j)"
proof -
  let ?g = "heapSwap h i j"
  have ij: "i < j" using j parent_less [of j] by simp
  have i: "i < length h" "j < length h" using ij j n by auto
  note g = nth_heapSwap [OF i]
  have lt: "fi_at (h ! j) < fi_at (h ! i)" using less by (simp add: heapLess_def)
  have "ordAt ?g k" if k: "k < n" "0 < k" "a \<le> parent k" "parent k \<noteq> j" for k
  proof -
    have kl: "k < length h" "parent k < length h" using k n parent_less [of k] by auto
    consider "k = j" | "k = i" | "k \<noteq> j" "k \<noteq> i" "parent k = i" | "k \<noteq> j" "k \<noteq> i" "parent k \<noteq> i"
      by blast
    then show ?thesis
    proof cases
      case 1
      then show ?thesis using g [of j] g [of i] i ij j lt by (simp add: ordAt_def)
    next
      case 2
      then have "fi_at (h ! parent i) \<le> fi_at (h ! j)" using hole j k by (auto simp: downHole_def)
      moreover have "parent i \<noteq> i" "parent i \<noteq> j" using 2 k parent_less [of i] by auto
      ultimately show ?thesis using 2 g [of i] g [OF kl(2)] i ij by (simp add: ordAt_def)
    next
      case 3
      then show ?thesis using least [of k] k g [OF kl(1)] g [of i] i ij by (simp add: ordAt_def)
    next
      case 4
      then show ?thesis using hole k g [OF kl(1)] g [OF kl(2)] by (auto simp: ordAt_def downHole_def)
    qed
  qed
  moreover have "fi_at (?g ! parent j) \<le> fi_at (?g ! k)" if k: "k < n" "0 < k" "parent k = j" for k
  proof -
    have "k \<noteq> j" "k \<noteq> i" "j < k" using k ij parent_less [of k] by auto
    moreover have "ordAt h k" using hole k ij a by (auto simp: downHole_def)
    ultimately show ?thesis using g [of i] g [of k] k n i ij j by (simp add: ordAt_def)
  qed
  ultimately show ?thesis by (simp add: downHole_def)
qed

lemma downChild_least:
  assumes "\<not> 2 * i + 1 \<ge> n"
  shows "0 < downChild h i n" and "parent (downChild h i n) = i"
    and "\<And>k. k < n \<Longrightarrow> 0 < k \<Longrightarrow> parent k = i \<Longrightarrow> fi_at (h ! downChild h i n) \<le> fi_at (h ! k)"
proof -
  show "0 < downChild h i n" and "parent (downChild h i n) = i"
    by (auto simp: downChild_def Let_def parent_def)
  show "fi_at (h ! downChild h i n) \<le> fi_at (h ! k)" if "k < n" "0 < k" "parent k = i" for k
  proof -
    from that have "k = 2 * i + 1 \<or> k = 2 * i + 2" by (simp add: parent_eq)
    then show ?thesis using that by (auto simp: downChild_def Let_def heapLess_def)
  qed
qed

lemma heapFrom_siftDown:
  "downHole a i n h \<Longrightarrow> n \<le> length h \<Longrightarrow> a \<le> i \<Longrightarrow> heapFrom a n (siftDown h i n)"
proof (induction h i n rule: siftDown_induct)
  case (stop h i n)
  have "fi_at (h ! i) \<le> fi_at (h ! k)" if k: "k < n" "0 < k" "parent k = i" for k
  proof (cases "2 * i + 1 \<ge> n")
    case True
    with k show ?thesis by (auto simp: parent_eq)
  next
    case False
    with stop(1) have "fi_at (h ! i) \<le> fi_at (h ! downChild h i n)" by (auto simp: heapLess_def)
    also have "\<dots> \<le> fi_at (h ! k)" by (rule downChild_least(3) [OF False k])
    finally show ?thesis .
  qed
  then have "heapFrom a n h" using downHole_done [OF stop(2)] by blast
  then show ?case using stop(1) by (simp add: siftDown_stop)
next
  case (step h i n)
  note c = downChild_least [OF step(1), where h = h] downChild_bounds [OF step(1), where h = h]
  have "downHole a (downChild h i n) n (heapSwap h i (downChild h i n))"
    by (rule downHole_swap) (use step c in auto)
  then show ?case using step c by (simp add: siftDown_step)
qed

section \<open>The operations keep the order and the contents\<close>

lemma isHeap_heapPush: "isHeap h \<Longrightarrow> isHeap (heapPush x h)"
proof -
  assume h: "isHeap h"
  have "upHole (length h) (h @ [x])"
    unfolding upHole_def
  proof (intro conjI allI impI)
    fix k assume k: "k < length (h @ [x])" "0 < k" "k \<noteq> length h"
    then have "k < length h" "parent k < length h" using parent_less [of k] by auto
    then show "ordAt (h @ [x]) k" using h k by (simp add: isHeap_def heapFrom_def ordAt_def nth_append)
  next
    fix k assume "k < length (h @ [x])" "0 < k" "0 < length h" "parent k = length h"
    then show "fi_at ((h @ [x]) ! parent (length h)) \<le> fi_at ((h @ [x]) ! k)"
      using parent_less [of k] by auto
  qed
  then show ?thesis by (simp add: heapPush_def isHeap_siftUp)
qed

lemma mset_heapPush: "mset (heapPush x h) = mset h + {#x#}"
  by (simp add: heapPush_def mset_siftUp)

lemma heapFrom_take: "heapFrom a n h \<Longrightarrow> n \<le> length h \<Longrightarrow> heapFrom a n (take n h)"
  unfolding heapFrom_def ordAt_def
proof (intro allI impI)
  fix k assume h: "\<forall>k<n. 0 < k \<longrightarrow> a \<le> parent k \<longrightarrow> fi_at (h ! parent k) \<le> fi_at (h ! k)"
    and k: "k < n" "0 < k" "a \<le> parent k"
  then have "parent k < n" using parent_less [of k] by simp
  with h k show "fi_at (take n h ! parent k) \<le> fi_at (take n h ! k)" by simp
qed

lemma isHeap_heapPop: "isHeap h \<Longrightarrow> h \<noteq> [] \<Longrightarrow> isHeap (heapPop h)"
proof -
  assume h: "isHeap h" "h \<noteq> []"
  let ?n = "length h - 1" and ?g = "heapSwap h 0 (length h - 1)"
  have "downHole 0 0 ?n ?g"
    unfolding downHole_def
  proof (intro conjI allI impI)
    fix k assume k: "k < ?n" "0 < k" "0 \<le> parent k" "parent k \<noteq> 0"
    then have "?g ! k = h ! k" and "?g ! parent k = h ! parent k"
      using parent_less [of k] h by (auto simp: heapSwap_def nth_list_update)
    then show "ordAt ?g k" using h k by (auto simp: isHeap_def heapFrom_def ordAt_def)
  qed simp
  then have "heapFrom 0 ?n (siftDown ?g 0 ?n)" by (rule heapFrom_siftDown) auto
  then have "heapFrom 0 ?n (heapPop h)"
    using heapFrom_take [of 0 ?n "siftDown ?g 0 ?n"] by (simp add: heapPop_def Let_def)
  moreover have "length (heapPop h) = ?n" using h by (simp add: heapPop_def Let_def)
  ultimately show ?thesis by (simp add: isHeap_def)
qed

lemma mset_heapPop: "h \<noteq> [] \<Longrightarrow> mset (heapPop h) = mset h - {#hd h#}"
proof -
  assume ne: "h \<noteq> []"
  let ?n = "length h - 1" and ?s = "siftDown (heapSwap h 0 (length h - 1)) 0 (length h - 1)"
  have last: "?s ! ?n = hd h"
    using ne by (simp add: siftDown_above nth_heapSwap hd_conv_nth)
  have "?s = take ?n ?s @ [?s ! ?n]"
    using ne by (metis Suc_pred' length_greater_0_conv length_heapSwap length_siftDown lessI
        order_refl take_Suc_conv_app_nth take_all_iff)
  then have "mset ?s = mset (take ?n ?s) + {#hd h#}" using last by (metis mset.simps mset_append union_code)
  moreover have "mset ?s = mset h" using ne by (simp add: mset_siftDown mset_heapSwap)
  ultimately have "mset h - {#hd h#} = mset (take ?n ?s)" by (metis add_diff_cancel_right')
  then show ?thesis by (simp add: heapPop_def Let_def)
qed

lemma length_initFrom [simp]: "length (initFrom i h) = length h"
  by (induction i h rule: initFrom.induct) auto

lemma initFrom_heap: "heapFrom i (length h) h \<Longrightarrow> heapFrom 0 (length h) (initFrom i h)"
proof (induction i h rule: initFrom.induct)
  case (2 i h)
  have "downHole i i (length h) h"
    using "2.prems" parent_less [of i] by (auto simp: downHole_def heapFrom_def)
  then have "heapFrom i (length h) (siftDown h i (length h))" by (rule heapFrom_siftDown) auto
  then show ?case using "2.IH" by simp
qed simp

lemma isHeap_heapInit: "isHeap (heapInit h)"
proof -
  have "heapFrom (length h div 2) (length h) h" by (auto simp: heapFrom_def parent_def)
  then show ?thesis by (simp add: heapInit_def isHeap_def initFrom_heap)
qed

lemma mset_initFrom: "mset (initFrom i h) = mset h"
  by (induction i h rule: initFrom.induct) (auto simp: mset_siftDown)

lemma mset_heapInit: "mset (heapInit h) = mset h"
  by (simp add: heapInit_def mset_initFrom)

lemma isHeap_root: "isHeap h \<Longrightarrow> k < length h \<Longrightarrow> fi_at (h ! 0) \<le> fi_at (h ! k)"
proof (induction k rule: less_induct)
  case (less k)
  show ?case
  proof (cases "k = 0")
    case False
    then have "fi_at (h ! 0) \<le> fi_at (h ! parent k)" using less parent_less [of k] by simp
    also have "\<dots> \<le> fi_at (h ! k)" using less.prems False by (simp add: isHeap_def heapFrom_def ordAt_def)
    finally show ?thesis .
  qed simp
qed

section \<open>The interface\<close>

text \<open>Taking the first item until the queue is empty, or \<open>n\<close> times.\<close>

primrec popAll :: "('q \<Rightarrow> 'i option) \<Rightarrow> ('q \<Rightarrow> 'q) \<Rightarrow> nat \<Rightarrow> 'q \<Rightarrow> 'i list" where
  "popAll peek pop 0 q = []"
| "popAll peek pop (Suc n) q =
     (case peek q of None \<Rightarrow> [] | Some x \<Rightarrow> x # popAll peek pop n (pop q))"

locale timer_queue =
  fixes push :: "'i \<Rightarrow> 'q \<Rightarrow> 'q"
    and pop :: "'q \<Rightarrow> 'q"
    and peek :: "'q \<Rightarrow> 'i option"
    and items :: "'q \<Rightarrow> 'i multiset"
    and due :: "'i \<Rightarrow> int"
    and ok :: "'q \<Rightarrow> bool"
  assumes items_push: "ok q \<Longrightarrow> items (push x q) = items q + {#x#}"
    and ok_push: "ok q \<Longrightarrow> ok (push x q)"
    and ok_pop: "ok q \<Longrightarrow> peek q \<noteq> None \<Longrightarrow> ok (pop q)"
    and peek_None: "ok q \<Longrightarrow> peek q = None \<longleftrightarrow> items q = {#}"
    and peek_Some: "ok q \<Longrightarrow> peek q = Some x \<Longrightarrow> x \<in># items q \<and> items (pop q) = items q - {#x#}"
    and peek_first: "ok q \<Longrightarrow> peek q = Some x \<Longrightarrow> y \<in># items q \<Longrightarrow> due x \<le> due y"
begin

definition dueBy :: "int \<Rightarrow> 'q \<Rightarrow> 'i multiset" where
  "dueBy t q = filter_mset (\<lambda>x. due x \<le> t) (items q)"

text \<open>When the first item is not due, nothing is.\<close>

lemma nothing_due:
  assumes "ok q" and "\<And>x. peek q = Some x \<Longrightarrow> t < due x"
  shows "dueBy t q = {#}"
proof (cases "peek q")
  case None
  then show ?thesis using assms(1) peek_None by (simp add: dueBy_def)
next
  case (Some x)
  then have "\<forall>y \<in># items q. t < due y"
    using assms peek_first by (metis order_less_le_trans)
  then have "filter_mset (\<lambda>y. due y \<le> t) (items q) = filter_mset (\<lambda>_. False) (items q)"
    by (intro filter_mset_cong refl) force
  then show ?thesis by (simp add: dueBy_def)
qed

lemma dueBy_pop:
  assumes "ok q" and "peek q = Some x" and "due x \<le> t"
  shows "dueBy t q = dueBy t (pop q) + {#x#}"
  using assms peek_Some [OF assms(1,2)] by (simp add: dueBy_def)

lemma dueBy_push_later: "ok q \<Longrightarrow> t < due x \<Longrightarrow> dueBy t (push x q) = dueBy t q"
  by (simp add: dueBy_def items_push)

lemma fold_push: "ok q \<Longrightarrow> ok (fold push xs q) \<and> items (fold push xs q) = items q + mset xs"
  by (induction xs arbitrary: q) (simp_all add: ok_push items_push)

lemma popAll_items: "ok q \<Longrightarrow> size (items q) \<le> n \<Longrightarrow> mset (popAll peek pop n q) = items q"
proof (induction n arbitrary: q)
  case (Suc n)
  show ?case
  proof (cases "peek q")
    case None
    then have "items q = {#}" using peek_None [OF Suc.prems(1)] by blast
    with None show ?thesis by simp
  next
    case (Some x)
    note x = peek_Some [OF Suc.prems(1) Some]
    have "size (items (pop q)) \<le> n" using x Suc.prems(2) by (simp add: size_Diff_singleton)
    then have "mset (popAll peek pop n (pop q)) = items (pop q)"
      using Suc.IH ok_pop [OF Suc.prems(1)] Some by simp
    then show ?thesis using x Some by simp
  qed
qed simp

lemma popAll_sorted: "ok q \<Longrightarrow> size (items q) \<le> n \<Longrightarrow> sorted (map due (popAll peek pop n q))"
proof (induction n arbitrary: q)
  case (Suc n)
  show ?case
  proof (cases "peek q")
    case (Some x)
    note x = peek_Some [OF Suc.prems(1) Some]
    have le: "size (items (pop q)) \<le> n" using x Suc.prems(2) by (simp add: size_Diff_singleton)
    have ok: "ok (pop q)" using ok_pop [OF Suc.prems(1)] Some by simp
    have "set (popAll peek pop n (pop q)) \<subseteq> set_mset (items q)"
      using popAll_items [OF ok le] x by (metis diff_subset_eq_self mset_subset_eqD set_mset_mset subsetI)
    then have "\<forall>y \<in> set (popAll peek pop n (pop q)). due x \<le> due y"
      using peek_first [OF Suc.prems(1) Some] by blast
    then show ?thesis using Suc.IH [OF ok le] Some by simp
  qed simp
qed simp

end

interpretation fire_queue: timer_queue heapPush heapPop heapPeek "mset :: fireItem list \<Rightarrow> _" fi_at isHeap
proof
  fix q x y
  assume q: "isHeap q"
  show "mset (heapPush x q) = mset q + {#x#}" by (rule mset_heapPush)
  show "isHeap (heapPush x q)" using q by (rule isHeap_heapPush)
  show "isHeap (heapPop q)" if "heapPeek q \<noteq> None"
    using that q isHeap_heapPop by (cases q) (auto simp: heapPeek_def)
  show "heapPeek q = None \<longleftrightarrow> mset q = {#}" by (cases q) (auto simp: heapPeek_def)
  show "x \<in># mset q \<and> mset (heapPop q) = mset q - {#x#}" if "heapPeek q = Some x"
    using that mset_heapPop [of q] by (cases q) (auto simp: heapPeek_def)
  show "fi_at x \<le> fi_at y" if "heapPeek q = Some x" and "y \<in># mset q"
  proof -
    from that obtain k where k: "k < length q" "y = q ! k" by (auto simp: in_set_conv_nth)
    moreover have "x = q ! 0" using that by (cases q) (auto simp: heapPeek_def)
    ultimately show ?thesis using isHeap_root [OF q] by simp
  qed
qed

text \<open>
  C25. The heap of timers is a priority queue: pushing items in any order and popping until nothing is
  left gives back exactly the items pushed, each as often as it was pushed, and their times come
  out as the sorted list of the times put in.
\<close>

theorem heap_sorts_timers:
  "mset (popAll heapPeek heapPop (length xs) (fold heapPush xs [])) = mset xs \<and>
   map fi_at (popAll heapPeek heapPop (length xs) (fold heapPush xs [])) = sort (map fi_at xs)"
proof -
  have "isHeap []" by (simp add: isHeap_def heapFrom_def)
  then have q: "isHeap (fold heapPush xs [])" "mset (fold heapPush xs []) = mset xs"
    using fire_queue.fold_push by auto
  then have "size (mset (fold heapPush xs [])) \<le> length xs" by simp
  note all = fire_queue.popAll_items [OF q(1) this] fire_queue.popAll_sorted [OF q(1) this]
  have "mset (map fi_at (popAll heapPeek heapPop (length xs) (fold heapPush xs []))) = mset (map fi_at xs)"
    using all(1) q(2) by simp
  then show ?thesis using all q(2) by (metis properties_for_sort)
qed

end
