(* ===== verification/Sched.thy ===== *)
theory Sched
  imports Wire Fire_Heap
begin

unbundle bit_operations_syntax

text \<open>
  The local scheduler, \<open>agent/internal/sched\<close>: the cached schedule and its file
  (\<open>store.go\<close>), the deterministic jitter (\<open>jitter.go\<close>), the misfire policy (\<open>misfire.go\<close>)
  and the \<open>Scheduler\<close> (\<open>sched.go\<close>): synchronising a document, catching up after downtime,
  rebuilding the heap and firing what is due.

  The cron library and the time zone database are the argument \<open>cron_lib\<close>, SHA-1 the
  argument \<open>sha1\<close>. Each method runs with its own clock reading \<open>now\<close>. The outcome of every
  write of \<open>schedule.json\<close> is taken from \<open>sv_faults\<close> (\<open>True\<close>: that write fails, the
  empty list: writes succeed), and what leaves the scheduler, a run handed to \<open>RunFunc\<close> or an
  audited skip, is appended to \<open>sv_out\<close>.
\<close>

section \<open>The schedule\<close>

record entry =
  en_EntryID :: string
  en_Cron :: string
  en_TZ :: string
  en_Kind :: string
  en_Payload :: bytes
  en_JitterS :: int
  en_MisfireGraceS :: int
  en_Enabled :: bool

record document =
  doc_ScheduleVersion :: int
  doc_Entries :: "entry list"

record sched_state =
  st_ScheduleVersion :: int
  st_Entries :: "entry list"
  st_LastFired :: "string \<rightharpoonup> int"

definition emptyState :: sched_state where
  "emptyState = \<lparr>st_ScheduleVersion = 0, st_Entries = [], st_LastFired = Map.empty\<rparr>"

text \<open>What \<open>loadState\<close> can find at the path of the cache.\<close>

datatype sched_file = NoFile | Unreadable | Corrupt | Stored sched_state

text \<open>The state read, and whether an error is reported with it.\<close>

fun loadState :: "sched_file \<Rightarrow> sched_state \<times> bool" where
  "loadState NoFile = (emptyState, False)"
| "loadState Unreadable = (emptyState, True)"
| "loadState Corrupt = (emptyState, True)"
| "loadState (Stored st) = (st, False)"

section \<open>Jitter\<close>

definition MisfireJitterS :: int where
  "MisfireJitterS = 60"

definition byteOf :: "char \<Rightarrow> 8 word" where
  "byteOf c = of_nat (of_char c)"

text \<open>FNV-1 with 64 bits, as \<open>hash/fnv.New64\<close> computes it.\<close>

definition fnvWrite :: "64 word \<Rightarrow> bytes \<Rightarrow> 64 word" where
  "fnvWrite h bs = foldl (\<lambda>a c. (a * 1099511628211) XOR ucast (byteOf c)) h bs"

definition Jitter :: "string \<Rightarrow> string \<Rightarrow> int \<Rightarrow> duration" where
  "Jitter agentID entryID jitterS =
     (if jitterS \<le> 0 then 0
      else seconds (uint (fnvWrite (fnvWrite 14695981039346656037 agentID) entryID mod of_int jitterS)))"

section \<open>Misfire policy\<close>

definition maxScan :: nat where
  "maxScan = 20000"

definition fireSlack :: duration where
  "fireSlack = 60 * second"

datatype misfireAction = MisfireNone | MisfireRun | MisfireSkip

definition decideMisfire :: "gtime \<Rightarrow> gtime \<Rightarrow> int \<Rightarrow> misfireAction" where
  "decideMisfire missedAt now graceS =
     (if isZero missedAt then MisfireNone
      else if graceS \<le> 0 then MisfireSkip
      else if subT now missedAt \<le> seconds graceS then MisfireRun
      else MisfireSkip)"

fun missedLoop :: "(gtime \<Rightarrow> gtime) \<Rightarrow> gtime \<Rightarrow> nat \<Rightarrow> gtime \<Rightarrow> gtime \<Rightarrow> int \<Rightarrow> gtime \<times> int" where
  "missedLoop next now 0 t lst cnt = (lst, cnt)"
| "missedLoop next now (Suc i) t lst cnt =
     (let nx = next t
      in if isZero nx \<or> \<not> t < nx \<or> now < nx then (lst, cnt)
         else missedLoop next now i nx nx (cnt + 1))"

definition lastMissed :: "(gtime \<Rightarrow> gtime) \<Rightarrow> gtime \<Rightarrow> gtime \<Rightarrow> nat \<Rightarrow> gtime \<times> int" where
  "lastMissed next since now scanLimit = missedLoop next now scanLimit since zero_time 0"

section \<open>Job ids\<close>

definition schedNamespace :: "8 word list" where
  "schedNamespace = [0x06, 0xca, 0xde, 0xed, 0x8a, 0x30, 0x50, 0xab,
                     0x87, 0xf5, 0x7a, 0x27, 0xb0, 0x43, 0xba, 0x2d]"

type_synonym hasher = "8 word list \<Rightarrow> 8 word list"

definition slice :: "nat \<Rightarrow> nat \<Rightarrow> 'a list \<Rightarrow> 'a list" where
  "slice i j xs = take (j - i) (drop i xs)"

definition uuidV5 :: "hasher \<Rightarrow> 8 word list \<Rightarrow> string \<Rightarrow> string" where
  "uuidV5 sha1 ns name =
     (let u0 = take 16 (sha1 (ns @ map byteOf name));
          u = u0[6 := (u0 ! 6 AND 0x0f) OR 0x50, 8 := (u0 ! 8 AND 0x3f) OR 0x80]
      in hexOf (slice 0 4 u) @ ''-'' @ hexOf (slice 4 6 u) @ ''-'' @ hexOf (slice 6 8 u) @ ''-'' @
         hexOf (slice 8 10 u) @ ''-'' @ hexOf (slice 10 16 u))"

definition JobID :: "hasher \<Rightarrow> string \<Rightarrow> gtime \<Rightarrow> string" where
  "JobID sha1 entryID base = uuidV5 sha1 schedNamespace (entryID @ '':'' @ itoa (unix base))"

section \<open>The scheduler\<close>

text \<open>
  \<open>time.LoadLocation\<close> and the cron parser: a name of a zone, and a schedule as the function
  from a zone and an instant to the next activation (\<open>zero_time\<close> for none).
\<close>

record cron_lib =
  lib_loc :: "string \<Rightarrow> string + string"
  lib_cron :: "string \<Rightarrow> string + (string \<Rightarrow> gtime \<Rightarrow> gtime)"

text \<open>The documented contract of \<open>cron.Schedule.Next\<close>: later than its argument, or zero.\<close>

definition cron_law :: "cron_lib \<Rightarrow> bool" where
  "cron_law lib \<longleftrightarrow>
     (\<forall>spec sch loc t. lib_cron lib spec = Inr sch \<longrightarrow> sch loc t = zero_time \<or> t < sch loc t)"

datatype sched_error = BadTimezone string string | BadCron string string

datatype sched_event =
    Ran string entry gtime
  | MisfireSkipped string string int gtime int int

record scheduler =
  sv_agentID :: string
  sv_st :: sched_state
  sv_pq :: fireHeap
  sv_wake :: bool
  sv_file :: sched_file
  sv_faults :: "bool list"
  sv_out :: "sched_event list"

definition newScheduler :: "string \<Rightarrow> sched_file \<Rightarrow> bool list \<Rightarrow> scheduler" where
  "newScheduler agentID file faults =
     \<lparr>sv_agentID = agentID, sv_st = emptyState, sv_pq = [], sv_wake = False,
      sv_file = file, sv_faults = faults, sv_out = []\<rparr>"

definition Load :: "scheduler \<Rightarrow> scheduler" where
  "Load s = s\<lparr>sv_st := fst (loadState (sv_file s))\<rparr>"

text \<open>\<open>saveState\<close> writes a temporary file and renames it: a failure keeps the old file.\<close>

definition saveState :: "sched_state \<Rightarrow> scheduler \<Rightarrow> bool \<times> scheduler" where
  "saveState st s =
     (case sv_faults s of
        [] \<Rightarrow> (True, s\<lparr>sv_file := Stored st\<rparr>)
      | fault # rest \<Rightarrow>
          (if fault then (False, s\<lparr>sv_faults := rest\<rparr>)
           else (True, s\<lparr>sv_file := Stored st, sv_faults := rest\<rparr>)))"

definition schedule :: "cron_lib \<Rightarrow> entry \<Rightarrow> sched_error + (gtime \<Rightarrow> gtime)" where
  "schedule lib e =
     (case (if en_TZ e \<noteq> [] then lib_loc lib (en_TZ e) else Inr ''UTC'') of
        Inl err \<Rightarrow> Inl (BadTimezone (en_TZ e) err)
      | Inr loc \<Rightarrow>
          (case lib_cron lib (en_Cron e) of
             Inl err \<Rightarrow> Inl (BadCron (en_Cron e) err)
           | Inr sch \<Rightarrow> Inr (sch loc)))"

definition signal :: "scheduler \<Rightarrow> scheduler" where
  "signal s = s\<lparr>sv_wake := True\<rparr>"

datatype sync_error = SyncBadID string id_error | SyncNotSaved

fun firstBadID :: "entry list \<Rightarrow> sync_error option" where
  "firstBadID [] = None"
| "firstBadID (e # es) =
     (case CheckIdentifier ''entry_id'' (en_EntryID e) of
        Some (field, err) \<Rightarrow> Some (SyncBadID field err)
      | None \<Rightarrow> firstBadID es)"

fun splitEntries :: "cron_lib \<Rightarrow> entry list \<Rightarrow> entry list \<times> (string \<times> sched_error) list" where
  "splitEntries lib [] = ([], [])"
| "splitEntries lib (e # es) =
     (let (kept, rejected) = splitEntries lib es
      in case schedule lib e of
           Inl err \<Rightarrow> (kept, (en_EntryID e, err) # rejected)
         | Inr _ \<Rightarrow> (e # kept, rejected))"

definition carryFired :: "(string \<rightharpoonup> int) \<Rightarrow> gtime \<Rightarrow> entry list \<Rightarrow> (string \<rightharpoonup> int)" where
  "carryFired old now kept =
     foldl (\<lambda>m e. m(en_EntryID e \<mapsto>
              (case old (en_EntryID e) of Some prev \<Rightarrow> prev | None \<Rightarrow> unix now)))
       Map.empty kept"

record sync_result =
  sr_version :: int
  sr_rejected :: "(string \<times> sched_error) list"
  sr_error :: "sync_error option"

definition Sync :: "cron_lib \<Rightarrow> gtime \<Rightarrow> document \<Rightarrow> scheduler \<Rightarrow> sync_result \<times> scheduler" where
  "Sync lib now doc s =
     (case firstBadID (doc_Entries doc) of
        Some err \<Rightarrow>
          (\<lparr>sr_version = st_ScheduleVersion (sv_st s), sr_rejected = [], sr_error = Some err\<rparr>, s)
      | None \<Rightarrow>
          (let (kept, rejected) = splitEntries lib (doc_Entries doc);
               st = \<lparr>st_ScheduleVersion = doc_ScheduleVersion doc, st_Entries = kept,
                     st_LastFired = carryFired (st_LastFired (sv_st s)) now kept\<rparr>;
               (saved, s1) = saveState st (s\<lparr>sv_st := st\<rparr>)
           in if saved
              then (\<lparr>sr_version = doc_ScheduleVersion doc, sr_rejected = rejected, sr_error = None\<rparr>,
                    signal s1)
              else (\<lparr>sr_version = doc_ScheduleVersion doc, sr_rejected = rejected,
                     sr_error = Some SyncNotSaved\<rparr>, s1)))"

definition markFired :: "string \<Rightarrow> gtime \<Rightarrow> scheduler \<Rightarrow> scheduler" where
  "markFired entryID at s =
     (let st = (sv_st s)\<lparr>st_LastFired := (st_LastFired (sv_st s))(entryID \<mapsto> unix at)\<rparr>
      in snd (saveState st (s\<lparr>sv_st := st\<rparr>)))"

definition lastFired :: "string \<Rightarrow> scheduler \<Rightarrow> gtime option" where
  "lastFired entryID s = map_option ofUnix (st_LastFired (sv_st s) entryID)"

text \<open>\<open>entry\<close>: the first cached entry with the id, if it is enabled.\<close>

definition findEntry :: "string \<Rightarrow> scheduler \<Rightarrow> entry option" where
  "findEntry entryID s =
     (case find (\<lambda>e. en_EntryID e = entryID) (st_Entries (sv_st s)) of
        Some e \<Rightarrow> if en_Enabled e then Some e else None
      | None \<Rightarrow> None)"

definition itemFor :: "cron_lib \<Rightarrow> string \<Rightarrow> entry \<Rightarrow> gtime \<Rightarrow> fireItem option" where
  "itemFor lib agentID e now =
     (case schedule lib e of
        Inl _ \<Rightarrow> None
      | Inr next \<Rightarrow>
          (let base = next now
           in if isZero base then None
              else Some \<lparr>fi_entryID = en_EntryID e, fi_base = base,
                         fi_at = base + Jitter agentID (en_EntryID e) (en_JitterS e)\<rparr>))"

definition pushEntry :: "cron_lib \<Rightarrow> entry \<Rightarrow> gtime \<Rightarrow> scheduler \<Rightarrow> scheduler" where
  "pushEntry lib e now s =
     (case itemFor lib (sv_agentID s) e now of
        None \<Rightarrow> s
      | Some it \<Rightarrow> s\<lparr>sv_pq := heapPush it (sv_pq s)\<rparr>)"

definition popItem :: "scheduler \<Rightarrow> scheduler" where
  "popItem s = (if sv_pq s \<noteq> [] then s\<lparr>sv_pq := heapPop (sv_pq s)\<rparr> else s)"

definition tooLate :: "entry \<Rightarrow> fireItem \<Rightarrow> gtime \<Rightarrow> bool" where
  "tooLate e it now =
     (if subT now (fi_at it) \<le> fireSlack then False
      else decideMisfire (fi_base it) now (en_MisfireGraceS e) = MisfireSkip)"

text \<open>\<open>int64(d.Seconds())\<close>: whole seconds, towards zero.\<close>

definition wholeSeconds :: "duration \<Rightarrow> int" where
  "wholeSeconds d = sgn d * (\<bar>d\<bar> div second)"

definition emit :: "sched_event \<Rightarrow> scheduler \<Rightarrow> scheduler" where
  "emit ev s = s\<lparr>sv_out := sv_out s @ [ev]\<rparr>"

definition skipEvent :: "entry \<Rightarrow> int \<Rightarrow> gtime \<Rightarrow> gtime \<Rightarrow> sched_event" where
  "skipEvent e cnt base now =
     MisfireSkipped (en_EntryID e) (en_Kind e) cnt base (en_MisfireGraceS e)
       (wholeSeconds (subT now base))"

definition skipLate :: "entry \<Rightarrow> fireItem \<Rightarrow> gtime \<Rightarrow> scheduler \<Rightarrow> scheduler" where
  "skipLate e it now s = emit (skipEvent e 1 (fi_base it) now) (markFired (en_EntryID e) (fi_base it) s)"

definition dispatch :: "hasher \<Rightarrow> entry \<Rightarrow> gtime \<Rightarrow> scheduler \<Rightarrow> scheduler" where
  "dispatch sha1 e base s =
     emit (Ran (JobID sha1 (en_EntryID e) base) e base) (markFired (en_EntryID e) base s)"

text \<open>One iteration of \<open>fireDue\<close> for an item \<open>it\<close> whose time has come.\<close>

definition fireItem1 :: "cron_lib \<Rightarrow> hasher \<Rightarrow> gtime \<Rightarrow> fireItem \<Rightarrow> scheduler \<Rightarrow> scheduler" where
  "fireItem1 lib sha1 now it s =
     (let s1 = popItem s
      in case findEntry (fi_entryID it) s1 of
           None \<Rightarrow> s1
         | Some e \<Rightarrow>
             pushEntry lib e now
               (if tooLate e it now then skipLate e it now s1 else dispatch sha1 e (fi_base it) s1))"

text \<open>The loop, with fuel; \<open>None\<close> is a loop still running when the fuel is gone.\<close>

fun fireLoop :: "nat \<Rightarrow> cron_lib \<Rightarrow> hasher \<Rightarrow> gtime \<Rightarrow> scheduler \<Rightarrow> scheduler option" where
  "fireLoop 0 lib sha1 now s = None"
| "fireLoop (Suc fuel) lib sha1 now s =
     (case heapPeek (sv_pq s) of
        None \<Rightarrow> Some s
      | Some it \<Rightarrow>
          if now < fi_at it then Some s
          else fireLoop fuel lib sha1 now (fireItem1 lib sha1 now it s))"

definition fireDue :: "cron_lib \<Rightarrow> hasher \<Rightarrow> gtime \<Rightarrow> scheduler \<Rightarrow> scheduler option" where
  "fireDue lib sha1 now s = fireLoop (Suc (length (sv_pq s))) lib sha1 now s"

definition catchUpEntry :: "cron_lib \<Rightarrow> gtime \<Rightarrow> entry \<Rightarrow> scheduler \<Rightarrow> scheduler" where
  "catchUpEntry lib now e s =
     (if \<not> en_Enabled e then s
      else case schedule lib e of
             Inl _ \<Rightarrow> s
           | Inr next \<Rightarrow>
               (case lastFired (en_EntryID e) s of
                  None \<Rightarrow> markFired (en_EntryID e) now s
                | Some since \<Rightarrow>
                    (let (missedAt, cnt) = lastMissed next since now maxScan
                     in case decideMisfire missedAt now (en_MisfireGraceS e) of
                          MisfireNone \<Rightarrow> s
                        | MisfireRun \<Rightarrow>
                            s\<lparr>sv_pq := heapPush
                                \<lparr>fi_entryID = en_EntryID e, fi_base = missedAt,
                                 fi_at = now + Jitter (sv_agentID s) (en_EntryID e) MisfireJitterS\<rparr>
                                (sv_pq s)\<rparr>
                        | MisfireSkip \<Rightarrow>
                            emit (skipEvent e cnt missedAt now) (markFired (en_EntryID e) missedAt s))))"

definition catchUp :: "cron_lib \<Rightarrow> gtime \<Rightarrow> scheduler \<Rightarrow> scheduler" where
  "catchUp lib now s = fold (catchUpEntry lib now) (st_Entries (sv_st s)) s"

definition carriedItems :: "gtime \<Rightarrow> fireHeap \<Rightarrow> fireItem list" where
  "carriedItems now pq = filter (\<lambda>it. fi_base it < now) pq"

definition nextItems :: "cron_lib \<Rightarrow> string \<Rightarrow> gtime \<Rightarrow> entry list \<Rightarrow> fireItem list" where
  "nextItems lib agentID now es =
     List.map_filter (\<lambda>e. if en_Enabled e then itemFor lib agentID e now else None) es"

definition rebuild :: "cron_lib \<Rightarrow> gtime \<Rightarrow> scheduler \<Rightarrow> scheduler" where
  "rebuild lib now s =
     s\<lparr>sv_pq := heapInit (nextItems lib (sv_agentID s) now (st_Entries (sv_st s))
                          @ carriedItems now (sv_pq s))\<rparr>"

text \<open>
  \<open>Run\<close>: what happens before the loop (with the two clock readings it takes), and the three
  ways the loop moves: a wake-up, the timer of the first item, and a \<open>Sync\<close> from the command
  handler in between.
\<close>

definition runStart :: "cron_lib \<Rightarrow> gtime \<Rightarrow> gtime \<Rightarrow> scheduler \<Rightarrow> scheduler" where
  "runStart lib t0 t1 s = rebuild lib t1 (catchUp lib t0 (Load s))"

inductive sched_step :: "cron_lib \<Rightarrow> hasher \<Rightarrow> scheduler \<Rightarrow> scheduler \<Rightarrow> bool" for lib sha1 where
  step_wake: "sv_wake s \<Longrightarrow> sched_step lib sha1 s (rebuild lib now (s\<lparr>sv_wake := False\<rparr>))"
| step_timer: "heapPeek (sv_pq s) = Some it \<Longrightarrow> fi_at it \<le> now \<Longrightarrow> fireDue lib sha1 now s = Some s' \<Longrightarrow>
     sched_step lib sha1 s s'"
| step_sync: "sched_step lib sha1 s (snd (Sync lib now doc s))"

inductive sched_reach :: "cron_lib \<Rightarrow> hasher \<Rightarrow> scheduler \<Rightarrow> bool" for lib sha1 where
  reach_start: "sched_reach lib sha1 (runStart lib t0 t1 (newScheduler agentID file faults))"
| reach_step: "sched_reach lib sha1 s \<Longrightarrow> sched_step lib sha1 s s' \<Longrightarrow> sched_reach lib sha1 s'"

end
