(* ===== verification/Sched_Correct.thy ===== *)
theory Sched_Correct
  imports Sched
begin

text \<open>
  The scheduler does what it promises: frames of the operations; the loop of \<open>fireDue\<close>
  against the timer-queue interface; the heap order in every reachable state; what \<open>Sync\<close>
  keeps and rejects; the catch-up walk, the misfire policy and what \<open>catchUp\<close> owes; the shape
  of job ids; and an hourly schedule that the witnesses run on.
\<close>

section \<open>Frames\<close>

lemma saveState_frame [simp]:
  "sv_pq (snd (saveState st s)) = sv_pq s"
  "sv_out (snd (saveState st s)) = sv_out s"
  "sv_agentID (snd (saveState st s)) = sv_agentID s"
  "sv_st (snd (saveState st s)) = sv_st s"
  "sv_wake (snd (saveState st s)) = sv_wake s"
  by (auto simp: saveState_def split: list.splits)

lemma saveState_file:
  "sv_file (snd (saveState st s)) = (if fst (saveState st s) then Stored st else sv_file s)"
  by (auto simp: saveState_def split: list.splits)

lemma markFired_frame [simp]:
  "sv_pq (markFired i t s) = sv_pq s"
  "sv_out (markFired i t s) = sv_out s"
  "sv_agentID (markFired i t s) = sv_agentID s"
  "sv_wake (markFired i t s) = sv_wake s"
  "st_Entries (sv_st (markFired i t s)) = st_Entries (sv_st s)"
  "st_LastFired (sv_st (markFired i t s)) = (st_LastFired (sv_st s))(i \<mapsto> unix t)"
  by (simp_all add: markFired_def Let_def)

lemma emit_frame [simp]:
  "sv_pq (emit ev s) = sv_pq s" "sv_agentID (emit ev s) = sv_agentID s"
  "sv_st (emit ev s) = sv_st s" "sv_out (emit ev s) = sv_out s @ [ev]"
  by (simp_all add: emit_def)

lemma popItem_frame [simp]:
  "sv_st (popItem s) = sv_st s" "sv_agentID (popItem s) = sv_agentID s" "sv_out (popItem s) = sv_out s"
  by (simp_all add: popItem_def)

lemma pushEntry_frame [simp]:
  "sv_st (pushEntry lib e now s) = sv_st s" "sv_agentID (pushEntry lib e now s) = sv_agentID s"
  "sv_out (pushEntry lib e now s) = sv_out s"
  by (simp_all add: pushEntry_def split: option.splits)

lemma skipLate_frame [simp]:
  "sv_pq (skipLate e it now s) = sv_pq s" "sv_agentID (skipLate e it now s) = sv_agentID s"
  "st_Entries (sv_st (skipLate e it now s)) = st_Entries (sv_st s)"
  "sv_out (skipLate e it now s) = sv_out s @ [skipEvent e 1 (fi_base it) now]"
  by (simp_all add: skipLate_def)

lemma dispatch_frame [simp]:
  "sv_pq (dispatch sha1 e b s) = sv_pq s" "sv_agentID (dispatch sha1 e b s) = sv_agentID s"
  "st_Entries (sv_st (dispatch sha1 e b s)) = st_Entries (sv_st s)"
  "sv_out (dispatch sha1 e b s) = sv_out s @ [Ran (JobID sha1 (en_EntryID e) b) e b]"
  by (simp_all add: dispatch_def)

lemma findEntry_cong: "st_Entries (sv_st s) = st_Entries (sv_st s') \<Longrightarrow> findEntry i s = findEntry i s'"
  by (simp add: findEntry_def)

lemma findEntry_Some: "findEntry i s = Some e \<Longrightarrow> e \<in> set (st_Entries (sv_st s)) \<and> en_Enabled e \<and> en_EntryID e = i"
  by (auto simp: findEntry_def find_Some_iff split: option.splits if_splits)

section \<open>Jitter and the next item\<close>

lemma Jitter_bounds:
  assumes "js \<le> 9223372036"
  shows "0 \<le> Jitter a i js" and "0 < js \<Longrightarrow> Jitter a i js < js * second"
proof -
  let ?r = "uint (fnvWrite (fnvWrite 14695981039346656037 a) i mod of_int js)"
  have r: "0 \<le> ?r \<and> ?r < js" if "0 < js"
  proof -
    have "uint (of_int js :: 64 word) = js" using that assms by (simp add: uint_word_of_int_eq take_bit_int_eq_self_iff)
    then show ?thesis using that by (simp add: uint_mod)
  qed
  have s: "seconds ?r = ?r * second" if "0 < js"
    using r [OF that] assms by (simp add: seconds_small)
  show "0 \<le> Jitter a i js" using r s by (auto simp: Jitter_def second_def)
  show "0 < js \<Longrightarrow> Jitter a i js < js * second" using r s by (simp add: Jitter_def second_def)
qed

definition jitter_ok :: "scheduler \<Rightarrow> bool" where
  "jitter_ok s \<longleftrightarrow> list_all (\<lambda>e. en_JitterS e \<le> 9223372036) (st_Entries (sv_st s))"

lemma schedule_later:
  "cron_law lib \<Longrightarrow> schedule lib e = Inr next \<Longrightarrow> next t = zero_time \<or> t < next t"
  by (auto simp: schedule_def cron_law_def split: sum.splits)

lemma itemFor_later:
  assumes "cron_law lib" and "en_JitterS e \<le> 9223372036" and "itemFor lib a e now = Some it"
  shows "now < fi_base it" and "fi_base it \<le> fi_at it" and "fi_entryID it = en_EntryID e"
  using assms schedule_later [OF assms(1)] Jitter_bounds(1) [OF assms(2)]
  by (fastforce simp: itemFor_def Let_def isZero_def split: sum.splits if_splits)+

section \<open>Firing\<close>

text \<open>What one due item of an enabled entry makes the scheduler do.\<close>

definition fireEvent :: "hasher \<Rightarrow> gtime \<Rightarrow> scheduler \<Rightarrow> fireItem \<Rightarrow> sched_event" where
  "fireEvent sha1 now s it =
     (let e = the (findEntry (fi_entryID it) s)
      in if tooLate e it now then skipEvent e 1 (fi_base it) now
         else Ran (JobID sha1 (en_EntryID e) (fi_base it)) e (fi_base it))"

lemma isHeap_pushEntry: "isHeap (sv_pq s) \<Longrightarrow> isHeap (sv_pq (pushEntry lib e now s))"
  by (auto simp: pushEntry_def isHeap_heapPush split: option.splits)

lemma isHeap_popItem: "isHeap (sv_pq s) \<Longrightarrow> isHeap (sv_pq (popItem s))"
  by (auto simp: popItem_def intro: isHeap_heapPop)

lemma isHeap_fireItem1: "isHeap (sv_pq s) \<Longrightarrow> isHeap (sv_pq (fireItem1 lib sha1 now it s))"
  by (auto simp: fireItem1_def Let_def isHeap_popItem intro!: isHeap_pushEntry split: option.splits)

lemma dueBy_pushEntry:
  assumes "cron_law lib" and "en_JitterS e \<le> 9223372036" and "isHeap (sv_pq s)"
  shows "fire_queue.dueBy now (sv_pq (pushEntry lib e now s)) = fire_queue.dueBy now (sv_pq s)"
proof (cases "itemFor lib (sv_agentID s) e now")
  case (Some it)
  then have "now < fi_at it" using itemFor_later [OF assms(1,2) Some] by simp
  then show ?thesis using Some assms(3) by (simp add: pushEntry_def fire_queue.dueBy_push_later)
qed (simp add: pushEntry_def)

lemma fireItem1_step:
  fixes sha1 :: hasher
  assumes law: "cron_law lib" and ok: "jitter_ok s" and heap: "isHeap (sv_pq s)"
    and peek: "heapPeek (sv_pq s) = Some it" and due: "fi_at it \<le> now"
  defines "s' \<equiv> fireItem1 lib sha1 now it s"
  shows "fire_queue.dueBy now (sv_pq s) = fire_queue.dueBy now (sv_pq s') + {#it#}"
    and "st_Entries (sv_st s') = st_Entries (sv_st s)" and "sv_agentID s' = sv_agentID s"
    and "sv_out s' = sv_out s @ (if findEntry (fi_entryID it) s = None then [] else [fireEvent sha1 now s it])"
proof -
  have pop: "sv_pq (popItem s) = heapPop (sv_pq s)"
    using peek by (auto simp: popItem_def heapPeek_def)
  have find: "findEntry (fi_entryID it) (popItem s) = findEntry (fi_entryID it) s"
    by (rule findEntry_cong) simp
  have heap': "isHeap (heapPop (sv_pq s))" using isHeap_popItem [OF heap] pop by simp
  have "fire_queue.dueBy now (sv_pq s') = fire_queue.dueBy now (heapPop (sv_pq s))"
  proof (cases "findEntry (fi_entryID it) s")
    case None
    then show ?thesis by (simp add: s'_def fireItem1_def Let_def find pop)
  next
    case (Some e)
    then have "en_JitterS e \<le> 9223372036"
      using ok findEntry_Some [OF Some] by (simp add: jitter_ok_def list_all_iff)
    then show ?thesis
      using Some heap' by (simp add: s'_def fireItem1_def Let_def find pop dueBy_pushEntry [OF law])
  qed
  then show "fire_queue.dueBy now (sv_pq s) = fire_queue.dueBy now (sv_pq s') + {#it#}"
    using fire_queue.dueBy_pop [OF heap peek due] by simp
  show "st_Entries (sv_st s') = st_Entries (sv_st s)" and "sv_agentID s' = sv_agentID s"
    by (simp_all add: s'_def fireItem1_def Let_def split: option.splits)
  show "sv_out s' = sv_out s @ (if findEntry (fi_entryID it) s = None then [] else [fireEvent sha1 now s it])"
    by (auto simp: s'_def fireItem1_def Let_def find fireEvent_def split: option.splits)
qed

text \<open>What a finished \<open>fireDue\<close> has done, relative to the state it started in.\<close>

definition firedAll :: "hasher \<Rightarrow> gtime \<Rightarrow> scheduler \<Rightarrow> scheduler \<Rightarrow> bool" where
  "firedAll sha1 now s s' \<longleftrightarrow>
     isHeap (sv_pq s') \<and> filter (\<lambda>it. fi_at it \<le> now) (sv_pq s') = [] \<and>
     (\<exists>evs. sv_out s' = sv_out s @ evs \<and>
        mset evs = image_mset (fireEvent sha1 now s)
          {#it \<in># mset (sv_pq s). fi_at it \<le> now \<and> findEntry (fi_entryID it) s \<noteq> None#})"

lemma dueBy_empty: "fire_queue.dueBy now q = {#} \<longleftrightarrow> filter (\<lambda>it. fi_at it \<le> now) q = []"
  by (metis fire_queue.dueBy_def mset_filter mset_zero_iff)

lemma fireLoop_enough:
  assumes law: "cron_law lib"
  shows "jitter_ok s \<Longrightarrow> isHeap (sv_pq s) \<Longrightarrow> size (fire_queue.dueBy now (sv_pq s)) < fuel \<Longrightarrow>
    \<exists>s'. fireLoop fuel lib sha1 now s = Some s' \<and> firedAll sha1 now s s'"
proof (induction fuel arbitrary: s)
  case (Suc fuel)
  let ?due = "\<lambda>s. {#it \<in># mset (sv_pq s). fi_at it \<le> now \<and> findEntry (fi_entryID it) s \<noteq> None#}"
  have due_eq: "?due s = filter_mset (\<lambda>it. findEntry (fi_entryID it) s \<noteq> None) (fire_queue.dueBy now (sv_pq s))" for s
    by (simp add: fire_queue.dueBy_def filter_filter_mset conj_commute)
  show ?case
  proof (cases "\<exists>it. heapPeek (sv_pq s) = Some it \<and> fi_at it \<le> now")
    case False
    then have fin: "fireLoop (Suc fuel) lib sha1 now s = Some s"
      by (auto split: option.splits simp: not_le)
    have none: "fire_queue.dueBy now (sv_pq s) = {#}"
      using fire_queue.nothing_due [OF Suc.prems(2)] False by (meson not_le)
    then have "filter (\<lambda>it. fi_at it \<le> now) (sv_pq s) = []" by (simp only: dueBy_empty)
    then have "firedAll sha1 now s s"
      using Suc.prems(2) unfolding firedAll_def due_eq none by simp
    with fin show ?thesis by blast
  next
    case True
    then obtain it where it: "heapPeek (sv_pq s) = Some it" "fi_at it \<le> now" by blast
    let ?s1 = "fireItem1 lib sha1 now it s"
    note st = fireItem1_step [OF law Suc.prems(1,2) it, where ?sha1.0 = sha1]
    have find: "findEntry i ?s1 = findEntry i s" for i by (rule findEntry_cong) (rule st(2))
    have "jitter_ok ?s1" using Suc.prems(1) st(2) by (simp add: jitter_ok_def)
    moreover have "isHeap (sv_pq ?s1)" using Suc.prems(2) by (rule isHeap_fireItem1)
    moreover have "size (fire_queue.dueBy now (sv_pq ?s1)) < fuel"
      using Suc.prems(3) st(1) by simp
    ultimately obtain s' where s': "fireLoop fuel lib sha1 now ?s1 = Some s'" "firedAll sha1 now ?s1 s'"
      using Suc.IH by blast
    from s'(2) obtain evs where evs: "sv_out s' = sv_out ?s1 @ evs"
      "mset evs = image_mset (fireEvent sha1 now ?s1) (?due ?s1)" by (auto simp: firedAll_def)
    have ev1: "fireEvent sha1 now ?s1 = fireEvent sha1 now s"
      by (rule ext) (simp add: fireEvent_def find)
    let ?es = "if findEntry (fi_entryID it) s = None then [] else [fireEvent sha1 now s it]"
    have "mset evs = image_mset (fireEvent sha1 now s)
        (filter_mset (\<lambda>it. findEntry (fi_entryID it) s \<noteq> None) (fire_queue.dueBy now (sv_pq ?s1)))"
      using evs(2) unfolding ev1 due_eq by (simp only: find)
    then have "mset (?es @ evs) = image_mset (fireEvent sha1 now s) (?due s)"
      unfolding due_eq st(1) by simp
    moreover have "sv_out s' = sv_out s @ ?es @ evs" using evs(1) st(4) by simp
    ultimately have "firedAll sha1 now s s'" using s'(2) unfolding firedAll_def by blast
    moreover have "fireLoop (Suc fuel) lib sha1 now s = Some s'" using it s'(1) by simp
    ultimately show ?thesis by blast
  qed
qed simp

lemma fireDue_complete:
  assumes "cron_law lib" and "jitter_ok s" and "isHeap (sv_pq s)"
  shows "\<exists>s'. fireDue lib sha1 now s = Some s' \<and> firedAll sha1 now s s'"
proof -
  have "size (fire_queue.dueBy now (sv_pq s)) \<le> length (sv_pq s)"
    unfolding fire_queue.dueBy_def by (metis size_filter_mset_lesseq size_mset)
  then show ?thesis unfolding fireDue_def by (intro fireLoop_enough assms) simp
qed

section \<open>Reachable states\<close>

lemma isHeap_Nil [simp]: "isHeap []"
  by (simp add: isHeap_def heapFrom_def)

lemma isHeap_rebuild: "isHeap (sv_pq (rebuild lib now s))"
  by (simp add: rebuild_def isHeap_heapInit)

lemma fireLoop_heap: "fireLoop fuel lib sha1 now s = Some s' \<Longrightarrow> isHeap (sv_pq s) \<Longrightarrow> isHeap (sv_pq s')"
  by (induction fuel arbitrary: s) (auto split: option.splits if_splits dest: isHeap_fireItem1)

lemma Sync_frame [simp]:
  "sv_pq (snd (Sync lib now doc s)) = sv_pq s" "sv_out (snd (Sync lib now doc s)) = sv_out s"
  by (auto simp: Sync_def signal_def Let_def split: option.splits prod.splits)
    (metis saveState_frame snd_conv scheduler.select_convs scheduler.surjective scheduler.update_convs)+

lemma sched_step_heap: "sched_step lib sha1 s s' \<Longrightarrow> isHeap (sv_pq s) \<Longrightarrow> isHeap (sv_pq s')"
  by (induction rule: sched_step.induct) (auto simp: isHeap_rebuild fireDue_def simp del: fireLoop.simps dest: fireLoop_heap)

lemma sched_reach_heap: "sched_reach lib sha1 s \<Longrightarrow> isHeap (sv_pq s)"
  by (induction rule: sched_reach.induct) (auto simp: runStart_def isHeap_rebuild dest: sched_step_heap)

section \<open>Synchronising\<close>

lemma firstBadID_None: "firstBadID es = None \<longleftrightarrow> list_all (\<lambda>e. validId (en_EntryID e)) es"
proof (induction es)
  case (Cons e es)
  then show ?case
    using CheckIdentifier_None [of "''entry_id''" "en_EntryID e"]
    by (cases "CheckIdentifier ''entry_id'' (en_EntryID e)") auto
qed simp

lemma firstBadID_kind: "firstBadID es \<noteq> Some SyncNotSaved"
  by (induction es) (auto split: option.splits)

lemma splitEntries_spec:
  "splitEntries lib es =
     (filter (\<lambda>e. \<exists>n. schedule lib e = Inr n) es,
      map (\<lambda>e. (en_EntryID e, projl (schedule lib e))) (filter (\<lambda>e. \<exists>err. schedule lib e = Inl err) es))"
  by (induction es) (auto split: sum.splits)

lemma carryFired_spec:
  "carryFired old now es i =
     (if i \<in> en_EntryID ` set es then Some (case old i of Some p \<Rightarrow> p | None \<Rightarrow> unix now) else None)"
proof (induction es rule: rev_induct)
  case (snoc e es)
  then show ?case by (auto simp: carryFired_def)
qed (simp add: carryFired_def)

section \<open>The catch-up walk\<close>

text \<open>The walk goes on from \<open>t\<close>: there is a next fire, it is later, and it is not in the future.\<close>

definition fireIn :: "(gtime \<Rightarrow> gtime) \<Rightarrow> gtime \<Rightarrow> gtime \<Rightarrow> bool" where
  "fireIn next now t \<longleftrightarrow> \<not> isZero (next t) \<and> t < next t \<and> next t \<le> now"

lemma missedLoop_spec:
  "missedLoop next now k t lst c = (m, c') \<Longrightarrow>
   \<exists>n \<le> k. c' = c + int n \<and> (\<forall>i < n. fireIn next now ((next ^^ i) t)) \<and>
     m = (if n = 0 then lst else (next ^^ n) t) \<and> (n < k \<longrightarrow> \<not> fireIn next now ((next ^^ n) t))"
proof (induction k arbitrary: t lst c)
  case (Suc k)
  show ?case
  proof (cases "fireIn next now t")
    case True
    then have "missedLoop next now k (next t) (next t) (c + 1) = (m, c')"
      using Suc.prems by (simp add: fireIn_def Let_def split: if_splits)
    from Suc.IH [OF this] obtain n where n: "n \<le> k" "c' = c + 1 + int n"
      "\<forall>i < n. fireIn next now ((next ^^ i) (next t))" "m = (if n = 0 then next t else (next ^^ n) (next t))"
      "n < k \<longrightarrow> \<not> fireIn next now ((next ^^ n) (next t))" by blast
    have "fireIn next now ((next ^^ i) t)" if "i < Suc n" for i
      using that True n(3) by (cases i) (auto simp: funpow_swap1)
    then show ?thesis
      using n by (intro exI [of _ "Suc n"]) (auto simp: funpow_swap1)
  next
    case False
    then have "(lst, c) = (m, c')" using Suc.prems by (auto simp: fireIn_def Let_def split: if_splits)
    with False show ?thesis by (intro exI [of _ 0]) auto
  qed
qed simp

lemma fireIn_chain:
  assumes "\<forall>i < n. fireIn next now ((next ^^ i) t)" and "0 < n"
  shows "t < (next ^^ n) t" and "(next ^^ n) t \<le> now" and "\<not> isZero ((next ^^ n) t)"
proof -
  obtain k where n: "n = Suc k" using assms(2) by (cases n) auto
  then have "fireIn next now ((next ^^ k) t)" using assms(1) by simp
  then show "(next ^^ n) t \<le> now" and "\<not> isZero ((next ^^ n) t)" by (simp_all add: n fireIn_def)
  from assms(1) have "0 < n \<Longrightarrow> t < (next ^^ n) t"
  proof (induction n)
    case (Suc j)
    then have "fireIn next now ((next ^^ j) t)" by simp
    with Suc show ?case by (cases "j = 0") (auto simp: fireIn_def)
  qed simp
  with assms(2) show "t < (next ^^ n) t" by simp
qed

lemma lastMissed_spec:
  assumes "lastMissed next since now limit = (m, c)"
  shows "0 \<le> c \<and> c \<le> int limit \<and> (c = 0 \<longrightarrow> m = zero_time) \<and>
    (0 < c \<longrightarrow> since < m \<and> m \<le> now \<and> \<not> isZero m \<and> m = (next ^^ nat c) since) \<and>
    (c < int limit \<longrightarrow> \<not> fireIn next now (if c = 0 then since else m))"
proof -
  from missedLoop_spec [OF assms [unfolded lastMissed_def]]
  obtain n where n: "n \<le> limit" "c = int n" "\<forall>i < n. fireIn next now ((next ^^ i) since)"
    "m = (if n = 0 then zero_time else (next ^^ n) since)" "n < limit \<longrightarrow> \<not> fireIn next now ((next ^^ n) since)"
    by auto
  then show ?thesis using fireIn_chain [OF n(3)] by (auto split: if_splits)
qed

text \<open>A schedule that fires every \<open>d\<close>: the walk stops after \<open>scanLimit\<close> fires.\<close>

lemma missedLoop_regular:
  assumes "0 < d" and "t + int k * d \<le> now" and "zero_time < t"
  shows "missedLoop (\<lambda>t. t + d) now k t lst c = (if k = 0 then lst else t + int k * d, c + int k)"
  using assms
proof (induction k arbitrary: t lst c)
  case (Suc k)
  have "0 \<le> int k * d" using Suc.prems(1) by simp
  then have "t + d \<le> now" using Suc.prems(2) by (simp add: algebra_simps)
  then show ?case using Suc by (auto simp: isZero_def Let_def algebra_simps)
qed simp

section \<open>The misfire policy\<close>

lemma decideMisfire_cases:
  "decideMisfire m now g = MisfireRun \<longleftrightarrow> \<not> isZero m \<and> 0 < g \<and> subT now m \<le> seconds g"
  "decideMisfire m now g = MisfireSkip \<longleftrightarrow> \<not> isZero m \<and> (g \<le> 0 \<or> seconds g < subT now m)"
  by (auto simp: decideMisfire_def)

text \<open>A pending catch-up of an entry: inside its grace, and spread over a minute.\<close>

definition owedItem :: "gtime \<Rightarrow> entry list \<Rightarrow> fireItem \<Rightarrow> bool" where
  "owedItem now es it \<longleftrightarrow>
     (\<exists>e \<in> set es. en_Enabled e \<and> fi_entryID it = en_EntryID e \<and> 0 < en_MisfireGraceS e \<and>
        fi_base it \<le> now \<and> subT now (fi_base it) \<le> seconds (en_MisfireGraceS e) \<and>
        now \<le> fi_at it \<and> fi_at it < now + 60 * second)"

lemma catchUpEntry_items:
  assumes e: "e \<in> set es" and it: "it \<in> set (sv_pq (catchUpEntry lib now e s))"
  shows "it \<in> set (sv_pq s) \<or> owedItem now es it"
proof (rule ccontr)
  assume not: "\<not> ?thesis"
  have push: "set (heapPush x q) = insert x (set q)" for x q
    using mset_heapPush [of x q] by (metis add_mset_add_single set_mset_add_mset_insert set_mset_mset)
  have "en_Enabled e" using it not by (auto simp: catchUpEntry_def split: if_splits)
  with it not obtain nx since m c where n: "schedule lib e = Inr nx" "lastFired (en_EntryID e) s = Some since"
    "lastMissed nx since now maxScan = (m, c)"
    by (auto simp: catchUpEntry_def split: sum.splits option.splits prod.splits)
  have dm: "decideMisfire m now (en_MisfireGraceS e) = MisfireRun"
    using it not n \<open>en_Enabled e\<close> by (auto simp: catchUpEntry_def split: misfireAction.splits)
  then have "it = \<lparr>fi_entryID = en_EntryID e, fi_base = m,
      fi_at = now + Jitter (sv_agentID s) (en_EntryID e) MisfireJitterS\<rparr>"
    using it not n \<open>en_Enabled e\<close> by (auto simp: catchUpEntry_def push)
  moreover have "m \<le> now" using lastMissed_spec [OF n(3)] dm by (auto simp: decideMisfire_cases isZero_def)
  moreover have "0 \<le> Jitter (sv_agentID s) (en_EntryID e) MisfireJitterS"
    "Jitter (sv_agentID s) (en_EntryID e) MisfireJitterS < 60 * second"
    using Jitter_bounds [of MisfireJitterS] by (simp_all add: MisfireJitterS_def)
  ultimately have "owedItem now es it"
    using e dm \<open>en_Enabled e\<close> unfolding owedItem_def decideMisfire_cases by auto
  with not show False by blast
qed

lemma catchUpEntry_heap: "isHeap (sv_pq s) \<Longrightarrow> isHeap (sv_pq (catchUpEntry lib now e s))"
  by (auto simp: catchUpEntry_def isHeap_heapPush Let_def split: sum.splits option.splits prod.splits misfireAction.splits)

lemma catchUp_fold_items:
  "set xs \<subseteq> set es \<Longrightarrow> it \<in> set (sv_pq (fold (catchUpEntry lib now) xs s)) \<Longrightarrow>
   it \<in> set (sv_pq s) \<or> owedItem now es it"
proof (induction xs arbitrary: s)
  case (Cons x xs)
  then have "it \<in> set (sv_pq (catchUpEntry lib now x s)) \<or> owedItem now es it" by simp
  then show ?case using Cons.prems(1) catchUpEntry_items [of x es it] by auto
qed simp

lemma catchUpEntry_other:
  "en_EntryID e \<noteq> i \<Longrightarrow> lastFired i (catchUpEntry lib now e s) = lastFired i s"
  by (auto simp: catchUpEntry_def lastFired_def Let_def
      split: sum.splits option.splits prod.splits misfireAction.splits)

lemma catchUpEntry_keeps:
  "set (sv_pq s) \<subseteq> set (sv_pq (catchUpEntry lib now e s)) \<and>
   set (sv_out s) \<subseteq> set (sv_out (catchUpEntry lib now e s)) \<and>
   sv_agentID (catchUpEntry lib now e s) = sv_agentID s"
proof -
  have "set q \<subseteq> set (heapPush x q)" for x q
    using mset_heapPush [of x q] by (metis add_mset_add_single set_mset_add_mset_insert set_mset_mset subset_insertI)
  then show ?thesis
    by (auto simp: catchUpEntry_def Let_def split: sum.splits option.splits prod.splits misfireAction.splits)
qed

lemma catchUp_fold_keeps:
  "set (sv_pq s) \<subseteq> set (sv_pq (fold (catchUpEntry lib now) xs s)) \<and>
   set (sv_out s) \<subseteq> set (sv_out (fold (catchUpEntry lib now) xs s)) \<and>
   sv_agentID (fold (catchUpEntry lib now) xs s) = sv_agentID s"
proof (induction xs arbitrary: s)
  case (Cons x xs)
  show ?case using Cons.IH [of "catchUpEntry lib now x s"] catchUpEntry_keeps [of s lib now x] by auto
qed simp

lemma catchUp_fold_other:
  "i \<notin> en_EntryID ` set xs \<Longrightarrow> lastFired i (fold (catchUpEntry lib now) xs s) = lastFired i s"
  by (induction xs arbitrary: s) (auto simp: catchUpEntry_other)

text \<open>What one entry is owed once its missed fires are known.\<close>

definition settled :: "gtime \<Rightarrow> string \<Rightarrow> entry \<Rightarrow> gtime \<Rightarrow> gtime \<Rightarrow> int \<Rightarrow> scheduler \<Rightarrow> bool" where
  "settled now agentID e since m c s \<longleftrightarrow>
     (case decideMisfire m now (en_MisfireGraceS e) of
        MisfireNone \<Rightarrow> lastFired (en_EntryID e) s = Some since
      | MisfireRun \<Rightarrow> lastFired (en_EntryID e) s = Some since \<and>
          \<lparr>fi_entryID = en_EntryID e, fi_base = m, fi_at = now + Jitter agentID (en_EntryID e) MisfireJitterS\<rparr>
            \<in> set (sv_pq s)
      | MisfireSkip \<Rightarrow> lastFired (en_EntryID e) s = Some (ofUnix (unix m)) \<and>
          skipEvent e c m now \<in> set (sv_out s))"

lemma catchUpEntry_settled:
  assumes "en_Enabled e" and "schedule lib e = Inr nx" and "lastFired (en_EntryID e) s = Some since"
    and "lastMissed nx since now maxScan = (m, c)"
  shows "settled now (sv_agentID s) e since m c (catchUpEntry lib now e s)"
proof -
  have push: "x \<in> set (heapPush x q)" for x q
    using mset_heapPush [of x q] by (metis add_mset_add_single set_mset_add_mset_insert set_mset_mset insertI1)
  show ?thesis
    using assms by (auto simp: settled_def catchUpEntry_def lastFired_def push split: misfireAction.splits)
qed

lemma settled_mono:
  assumes "settled now a e since m c s" and "set (sv_pq s) \<subseteq> set (sv_pq s')"
    and "set (sv_out s) \<subseteq> set (sv_out s')" and "lastFired (en_EntryID e) s' = lastFired (en_EntryID e) s"
  shows "settled now a e since m c s'"
  using assms by (auto simp: settled_def split: misfireAction.splits)

lemma catchUp_fold_settled:
  assumes dist: "distinct (map en_EntryID es)" and e: "e \<in> set es" and en: "en_Enabled e"
    and sch: "schedule lib e = Inr nx" and since: "lastFired (en_EntryID e) s = Some since"
    and lm: "lastMissed nx since now maxScan = (m, c)"
  shows "settled now (sv_agentID s) e since m c (fold (catchUpEntry lib now) es s)"
proof -
  from e obtain as bs where es: "es = as @ e # bs" by (meson split_list)
  let ?s1 = "fold (catchUpEntry lib now) as s" and ?s2 = "catchUpEntry lib now e (fold (catchUpEntry lib now) as s)"
  have notin: "en_EntryID e \<notin> en_EntryID ` set as" "en_EntryID e \<notin> en_EntryID ` set bs"
    using dist es by auto
  have "lastFired (en_EntryID e) ?s1 = Some since" using catchUp_fold_other [OF notin(1)] since by simp
  from catchUpEntry_settled [OF en sch this lm]
  have "settled now (sv_agentID s) e since m c ?s2" using catchUp_fold_keeps [of s lib now as] by simp
  then have "settled now (sv_agentID s) e since m c (fold (catchUpEntry lib now) bs ?s2)"
    using catchUp_fold_keeps [of ?s2 lib now bs] catchUp_fold_other [OF notin(2)] by (blast intro: settled_mono)
  then show ?thesis by (simp add: es)
qed

section \<open>Job ids\<close>

lemma hexOf_idRunes: "set (hexOf bs) \<subseteq> Collect idRune - {CHR ''.''}"
proof -
  have "set ''0123456789abcdef'' \<subseteq> Collect idRune - {CHR ''.''}"
    by (simp add: idRune_def char_class_defs)
  then show ?thesis using set_hexOf by blast
qed

lemma uuidV5_shape:
  assumes "16 \<le> length (sha1 (ns @ map byteOf name))"
  shows "length (uuidV5 sha1 ns name) = 36" and "set (uuidV5 sha1 ns name) \<subseteq> Collect idRune - {CHR ''.''}"
proof -
  show "length (uuidV5 sha1 ns name) = 36"
    using assms by (simp add: uuidV5_def Let_def slice_def)
  have "CHR ''-'' \<in> Collect idRune - {CHR ''.''}" by (simp add: idRune_def)
  then show "set (uuidV5 sha1 ns name) \<subseteq> Collect idRune - {CHR ''.''}"
    using hexOf_idRunes by (auto simp: uuidV5_def Let_def dest: subsetD)
qed

lemma no_dot_validId:
  assumes "s \<noteq> []" and "length s \<le> 128" and "set s \<subseteq> Collect idRune - {CHR ''.''}"
  shows "validId s"
proof -
  have "CHR ''.'' \<notin> set s" using assms(3) by auto
  then have "splitOn CHR ''.'' s = [s]" by (rule splitOn_free)
  then show ?thesis using assms by (auto simp: validId_iff MaxIdentifierLen_def)
qed

section \<open>An hourly schedule\<close>

definition hourlyNext :: "gtime \<Rightarrow> gtime" where
  "hourlyNext t = (t div (3600 * second) + 1) * (3600 * second)"

definition hourlyLib :: cron_lib where
  "hourlyLib = \<lparr>lib_loc = Inr, lib_cron = (\<lambda>spec. if spec = ''@hourly'' then Inr (\<lambda>loc. hourlyNext) else Inl ''bad spec'')\<rparr>"

definition hourlyEntry :: entry where
  "hourlyEntry = \<lparr>en_EntryID = ''nightly'', en_Cron = ''@hourly'', en_TZ = [], en_Kind = ''script.run'',
     en_Payload = [], en_JitterS = 0, en_MisfireGraceS = 7200, en_Enabled = True\<rparr>"

definition hourlyFile :: sched_file where
  "hourlyFile = Stored \<lparr>st_ScheduleVersion = 3, st_Entries = [hourlyEntry], st_LastFired = [''nightly'' \<mapsto> 0]\<rparr>"

definition zeroHash :: hasher where
  "zeroHash bs = replicate 20 0"

lemma hourly_law: "cron_law hourlyLib"
proof -
  have "t < hourlyNext t" for t
  proof -
    have "t = (t div (3600 * second)) * (3600 * second) + t mod (3600 * second)"
      by (rule div_mult_mod_eq [symmetric])
    moreover have "t mod (3600 * second) < 3600 * second" by (simp add: second_def)
    ultimately show ?thesis unfolding hourlyNext_def by (simp add: distrib_right)
  qed
  then show ?thesis by (auto simp: cron_law_def hourlyLib_def)
qed

lemma missedLoop_pos:
  "0 < k \<Longrightarrow> missedLoop nx now k t lst c =
     (if fireIn nx now t then missedLoop nx now (k - 1) (nx t) (nx t) (c + 1) else (lst, c))"
  by (cases k) (auto simp: fireIn_def Let_def not_less)

lemma hourly_missed: "lastMissed hourlyNext 0 (3700 * second) maxScan = (3600 * second, 1)"
  by (simp add: lastMissed_def maxScan_def missedLoop_pos fireIn_def hourlyNext_def second_def isZero_def zero_time_def)

lemma hourly_schedule: "schedule hourlyLib hourlyEntry = Inr hourlyNext"
  by (simp add: schedule_def hourlyLib_def hourlyEntry_def)

lemma hourly_jitter: "Jitter ''a1'' ''nightly'' MisfireJitterS = 22 * second"
  by code_simp

definition hourlyStarted :: scheduler where
  "hourlyStarted =
     \<lparr>sv_agentID = ''a1'',
      sv_st = \<lparr>st_ScheduleVersion = 3, st_Entries = [hourlyEntry], st_LastFired = [''nightly'' \<mapsto> 0]\<rparr>,
      sv_pq = [\<lparr>fi_entryID = ''nightly'', fi_base = 3600 * second, fi_at = 3722 * second\<rparr>,
               \<lparr>fi_entryID = ''nightly'', fi_base = 7200 * second, fi_at = 7200 * second\<rparr>],
      sv_wake = False, sv_file = hourlyFile, sv_faults = [], sv_out = []\<rparr>"

lemma hourly_start:
  "runStart hourlyLib (3700 * second) (3700 * second) (newScheduler ''a1'' hourlyFile []) = hourlyStarted"
proof -
  have c: "catchUp hourlyLib (3700 * second) (Load (newScheduler ''a1'' hourlyFile [])) =
      hourlyStarted\<lparr>sv_pq := [\<lparr>fi_entryID = ''nightly'', fi_base = 3600 * second, fi_at = 3722 * second\<rparr>]\<rparr>"
    by (simp add: catchUp_def Load_def newScheduler_def hourlyFile_def catchUpEntry_def hourly_schedule
        lastFired_def ofUnix_def hourly_missed hourlyStarted_def)
      (simp add: hourlyEntry_def hourly_jitter decideMisfire_def isZero_def zero_time_def second_def
        subT_def seconds_def wrap64_def heapPush_def siftUp.simps)
  have i: "itemFor hourlyLib ''a1'' hourlyEntry (3700 * second) =
      Some \<lparr>fi_entryID = ''nightly'', fi_base = 7200 * second, fi_at = 7200 * second\<rparr>"
    by (simp add: itemFor_def hourly_schedule)
      (simp add: hourlyNext_def second_def isZero_def zero_time_def hourlyEntry_def Jitter_def)
  show ?thesis
    unfolding runStart_def c
    by (simp add: rebuild_def nextItems_def map_filter_simps carriedItems_def i hourlyStarted_def)
      (simp add: hourlyEntry_def second_def heapInit_def siftDown.simps downChild_def heapLess_def heapSwap_def)
qed


lemma hourly_item:
  "itemFor hourlyLib a hourlyEntry t =
     (if isZero (hourlyNext t) then None
      else Some \<lparr>fi_entryID = ''nightly'', fi_base = hourlyNext t, fi_at = hourlyNext t\<rparr>)"
  by (simp add: itemFor_def hourly_schedule) (simp add: hourlyEntry_def Jitter_def Let_def)

lemma hourly_find: "st_Entries (sv_st s) = [hourlyEntry] \<Longrightarrow> findEntry ''nightly'' s = Some hourlyEntry"
  by (simp add: findEntry_def) (simp add: hourlyEntry_def)

text \<open>One iteration of the loop for an hourly entry whose fire is not late.\<close>

lemma hourly_fire:
  assumes "st_Entries (sv_st s) = [hourlyEntry]" and "sv_pq s = it # q" and "fi_entryID it = ''nightly''"
    and "now - fi_at it \<le> 60 * second" and "\<not> isZero (hourlyNext now)"
  shows "sv_out (fireItem1 hourlyLib zeroHash now it s) =
      sv_out s @ [Ran (JobID zeroHash ''nightly'' (fi_base it)) hourlyEntry (fi_base it)]"
    and "sv_pq (fireItem1 hourlyLib zeroHash now it s) =
      heapPush \<lparr>fi_entryID = ''nightly'', fi_base = hourlyNext now, fi_at = hourlyNext now\<rparr> (heapPop (it # q))"
    and "st_Entries (sv_st (fireItem1 hourlyLib zeroHash now it s)) = [hourlyEntry]"
proof -
  have "\<not> tooLate hourlyEntry it now"
    using assms(4) by (simp add: tooLate_def fireSlack_def subT_le_iff int64_def second_def)
  moreover have "findEntry ''nightly'' (popItem s) = Some hourlyEntry"
    using assms(1) by (intro hourly_find) simp
  moreover have "en_EntryID hourlyEntry = ''nightly''" by (simp add: hourlyEntry_def)
  ultimately show "sv_out (fireItem1 hourlyLib zeroHash now it s) =
      sv_out s @ [Ran (JobID zeroHash ''nightly'' (fi_base it)) hourlyEntry (fi_base it)]"
    and "sv_pq (fireItem1 hourlyLib zeroHash now it s) =
      heapPush \<lparr>fi_entryID = ''nightly'', fi_base = hourlyNext now, fi_at = hourlyNext now\<rparr> (heapPop (it # q))"
    and "st_Entries (sv_st (fireItem1 hourlyLib zeroHash now it s)) = [hourlyEntry]"
    using assms by (simp_all add: fireItem1_def Let_def pushEntry_def hourly_item popItem_def)
qed


abbreviation hourlyItem :: "int \<Rightarrow> fireItem" where
  "hourlyItem h \<equiv> \<lparr>fi_entryID = ''nightly'', fi_base = h * 3600 * second, fi_at = h * 3600 * second\<rparr>"

lemma hourlyNext_at: "hourlyNext (h * 3600 * second) = (h + 1) * 3600 * second"
  by (simp add: hourlyNext_def second_def)

lemma hourly_nonzero: "0 \<le> h \<Longrightarrow> \<not> isZero (h * 3600 * second)"
  by (simp add: isZero_def zero_time_def second_def)


lemma heapPop_two: "heapPop [x, y] = [y]"
  by (simp add: heapPop_def heapSwap_def siftDown_stop)

lemma heapPush_one: "heapPush x [y] = (if fi_at x < fi_at y then [x, y] else [y, x])"
proof -
  have "siftUp h 0 = h" for h by (subst siftUp.simps) simp
  then show ?thesis by (simp add: heapPush_def siftUp.simps [of _ "Suc 0"] heapLess_def heapSwap_def)
qed

lemma fireLoop_step:
  "sv_pq s = it # q \<Longrightarrow> fi_at it \<le> now \<Longrightarrow>
   fireLoop (Suc k) lib sha1 now s = fireLoop k lib sha1 now (fireItem1 lib sha1 now it s)"
  by (simp add: heapPeek_def)

lemma fireLoop_stop:
  "sv_pq s = it # q \<Longrightarrow> now < fi_at it \<Longrightarrow> fireLoop (Suc k) lib sha1 now s = Some s"
  by (simp add: heapPeek_def)

lemma hourly_catchUp_fire:
  "\<exists>s1. fireDue hourlyLib zeroHash (3722 * second) hourlyStarted = Some s1 \<and>
     sv_pq s1 = [hourlyItem 2, hourlyItem 2] \<and> st_Entries (sv_st s1) = [hourlyEntry] \<and>
     sv_out s1 = [Ran (JobID zeroHash ''nightly'' (3600 * second)) hourlyEntry (3600 * second)]"
proof -
  let ?it = "\<lparr>fi_entryID = ''nightly'', fi_base = 3600 * second, fi_at = 3722 * second\<rparr>"
  let ?s = "fireItem1 hourlyLib zeroHash (3722 * second) ?it hourlyStarted"
  have n: "hourlyNext (3722 * second) = 2 * 3600 * second" by (simp add: hourlyNext_def second_def)
  have s0: "st_Entries (sv_st hourlyStarted) = [hourlyEntry]" "sv_pq hourlyStarted = [?it, hourlyItem 2]"
    "sv_out hourlyStarted = []" by (simp_all add: hourlyStarted_def)
  have late: "3722 * second - fi_at ?it \<le> 60 * second" by (simp add: second_def)
  have nz: "\<not> isZero (hourlyNext (3722 * second))" unfolding n by (rule hourly_nonzero) simp
  note h = hourly_fire [OF s0(1,2) _ late nz, simplified fireItem.simps, OF refl]
  have q: "sv_pq ?s = [hourlyItem 2, hourlyItem 2]" unfolding h n heapPop_two heapPush_one by simp
  have "fireDue hourlyLib zeroHash (3722 * second) hourlyStarted = Some ?s"
    unfolding fireDue_def s0 by (simp add: heapPeek_def q s0) (simp add: second_def)
  then show ?thesis using q h s0 by simp
qed

lemma hourly_two_due:
  assumes "sv_pq s = [hourlyItem 2, hourlyItem 2]" and "st_Entries (sv_st s) = [hourlyEntry]"
  shows "\<exists>s2. fireDue hourlyLib zeroHash (7200 * second) s = Some s2 \<and>
     sv_out s2 = sv_out s @ replicate 2 (Ran (JobID zeroHash ''nightly'' (7200 * second)) hourlyEntry (7200 * second))"
proof -
  let ?s1 = "fireItem1 hourlyLib zeroHash (7200 * second) (hourlyItem 2) s"
  let ?s2 = "fireItem1 hourlyLib zeroHash (7200 * second) (hourlyItem 2) ?s1"
  have n: "hourlyNext (7200 * second) = 3 * 3600 * second" by (simp add: hourlyNext_def second_def)
  have late: "7200 * second - fi_at (hourlyItem 2) \<le> 60 * second" by (simp add: second_def)
  have nz: "\<not> isZero (hourlyNext (7200 * second))" unfolding n by (rule hourly_nonzero) simp
  note h1 = hourly_fire [OF assms(2,1) _ late nz, simplified fireItem.simps, OF refl]
  have q1: "sv_pq ?s1 = [hourlyItem 2, hourlyItem 3]"
    unfolding h1 n heapPop_two heapPush_one by (simp add: second_def)
  note h2 = hourly_fire [OF h1(3) q1 _ late nz, simplified fireItem.simps, OF refl]
  have q2: "sv_pq ?s2 = [hourlyItem 3, hourlyItem 3]" unfolding h2 n heapPop_two heapPush_one by simp
  have le: "fi_at (hourlyItem 2) \<le> 7200 * second" and gt: "7200 * second < fi_at (hourlyItem 3)"
    by (simp_all add: second_def)
  have "fireDue hourlyLib zeroHash (7200 * second) s = Some ?s2"
    unfolding fireDue_def assms list.size add_0 add_Suc
      fireLoop_step [OF assms(1) le] fireLoop_step [OF q1 le] fireLoop_stop [OF q2 gt] by (simp only: fireLoop_step [OF assms(1) le] fireLoop_step [OF q1 le] fireLoop_stop [OF q2 gt] add_Suc_right add_0_right)
  then show ?thesis using h1(1) h2(1) by (simp add: numeral_2_eq_2)
qed

lemma hourly_settled:
  "settled (3700 * second) ''a1'' hourlyEntry 0 (3600 * second) 1
     (catchUp hourlyLib (3700 * second) (hourlyStarted\<lparr>sv_pq := []\<rparr>))"
proof -
  let ?s = "hourlyStarted\<lparr>sv_pq := []\<rparr>"
  have "en_Enabled hourlyEntry" by (simp add: hourlyEntry_def)
  moreover have "lastFired (en_EntryID hourlyEntry) ?s = Some 0"
    by (simp add: hourlyStarted_def lastFired_def ofUnix_def hourlyEntry_def)
  ultimately show ?thesis
    using catchUp_fold_settled [of "[hourlyEntry]" hourlyEntry hourlyLib hourlyNext ?s 0 "3700 * second" "3600 * second" 1]
      hourly_schedule hourly_missed by (simp add: catchUp_def hourlyStarted_def)
qed

lemma hourly_reach: "sched_reach hourlyLib zeroHash hourlyStarted"
  by (metis hourly_start reach_start)

section \<open>Properties\<close>

text \<open>
  C9. The firing loop is total and exact. In every state the run loop can reach, \<open>fireDue\<close>
  returns, leaves the heap ordered with no item due, and has appended exactly one event per due
  item of an enabled entry: the run with the item's job id, or the audited skip when the item is
  more than the slack late and outside the grace.
\<close>

theorem fireDue_fires_exactly:
  assumes "sched_reach lib sha1 s" and "cron_law lib" and "jitter_ok s"
  shows "\<exists>s'. fireDue lib sha1 now s = Some s' \<and> firedAll sha1 now s s'"
  using fireDue_complete [OF assms(2,3) sched_reach_heap [OF assms(1)]] .

theorem fireDue_fires_exactly_witness:
  "\<exists>s'. fireDue hourlyLib zeroHash (3722 * second) hourlyStarted = Some s' \<and>
     firedAll zeroHash (3722 * second) hourlyStarted s'"
  by (rule fireDue_fires_exactly [OF hourly_reach hourly_law])
    (simp add: jitter_ok_def hourlyStarted_def, simp add: hourlyEntry_def)

text \<open>
  A synchronised document. One malformed entry id refuses the whole document and changes
  nothing. Otherwise the cache holds the document's version and exactly its schedulable entries,
  the rest are reported with their error, the last fire of an entry that was already known is
  kept and that of a new one is the present, and the file is replaced and the run loop woken
  exactly when the write succeeded.
\<close>

theorem Sync_applies:
  "let (r, s') = Sync lib now doc s; es = doc_Entries doc in
     if list_all (\<lambda>e. validId (en_EntryID e)) es
     then st_ScheduleVersion (sv_st s') = doc_ScheduleVersion doc \<and> sr_version r = doc_ScheduleVersion doc \<and>
       st_Entries (sv_st s') = filter (\<lambda>e. \<exists>n. schedule lib e = Inr n) es \<and>
       sr_rejected r = map (\<lambda>e. (en_EntryID e, projl (schedule lib e)))
         (filter (\<lambda>e. \<exists>err. schedule lib e = Inl err) es) \<and>
       (\<forall>i. st_LastFired (sv_st s') i =
         (if i \<in> en_EntryID ` set (st_Entries (sv_st s'))
          then Some (case st_LastFired (sv_st s) i of Some p \<Rightarrow> p | None \<Rightarrow> unix now) else None)) \<and>
       (if sr_error r = None then sv_file s' = Stored (sv_st s') \<and> sv_wake s'
        else sr_error r = Some SyncNotSaved \<and> sv_file s' = sv_file s \<and> sv_wake s' = sv_wake s)
     else s' = s \<and> sr_version r = st_ScheduleVersion (sv_st s) \<and> sr_error r \<noteq> None \<and> sr_error r \<noteq> Some SyncNotSaved"
proof (cases "firstBadID (doc_Entries doc)")
  case None
  then have ok: "list_all (\<lambda>e. validId (en_EntryID e)) (doc_Entries doc)" by (simp add: firstBadID_None)
  obtain kept rej where sp: "splitEntries lib (doc_Entries doc) = (kept, rej)" by (cases "splitEntries lib (doc_Entries doc)")
  define st where "st = \<lparr>st_ScheduleVersion = doc_ScheduleVersion doc, st_Entries = kept,
                     st_LastFired = carryFired (st_LastFired (sv_st s)) now kept\<rparr>"
  obtain ok' s1 where sv: "saveState st (s\<lparr>sv_st := st\<rparr>) = (ok', s1)" by (cases "saveState st (s\<lparr>sv_st := st\<rparr>)")
  have s1: "sv_st s1 = st" "sv_wake s1 = sv_wake s" "sv_file s1 = (if ok' then Stored st else sv_file s)"
    using saveState_frame [of st "s\<lparr>sv_st := st\<rparr>"] saveState_file [of st "s\<lparr>sv_st := st\<rparr>"] by (simp_all add: sv)
  have kr: "kept = filter (\<lambda>e. \<exists>n. schedule lib e = Inr n) (doc_Entries doc)"
    "rej = map (\<lambda>e. (en_EntryID e, projl (schedule lib e))) (filter (\<lambda>e. \<exists>err. schedule lib e = Inl err) (doc_Entries doc))"
    using sp by (simp_all add: splitEntries_spec)
  have sync: "Sync lib now doc s =
     (\<lparr>sr_version = doc_ScheduleVersion doc, sr_rejected = rej,
       sr_error = (if ok' then None else Some SyncNotSaved)\<rparr>, if ok' then signal s1 else s1)"
    using None sp sv by (simp add: Sync_def st_def)
  show ?thesis
    unfolding Let_def sync prod.case
    using ok s1 kr by (simp add: signal_def st_def carryFired_spec)
next
  case (Some err)
  then have "\<not> list_all (\<lambda>e. validId (en_EntryID e)) (doc_Entries doc)" by (metis firstBadID_None option.distinct(1))
  moreover have "err \<noteq> SyncNotSaved" using Some firstBadID_kind by metis
  ultimately show ?thesis using Some by (simp add: Sync_def)
qed



text \<open>
  Nothing else is owed: an item that catching up put into the heap belongs to an enabled
  entry with a positive grace, its fire is past and within that grace, and it starts within the
  next minute.
\<close>

theorem catchUp_owes_only:
  assumes "it \<in> set (sv_pq (catchUp lib now s))"
  shows "it \<in> set (sv_pq s) \<or> owedItem now (st_Entries (sv_st s)) it"
  using assms unfolding catchUp_def by (rule catchUp_fold_items [OF order_refl])

theorem catchUp_owes_only_witness:
  "\<exists>it. owedItem (3700 * second) [hourlyEntry] it"
proof -
  let ?s = "hourlyStarted\<lparr>sv_pq := []\<rparr>"
  have "settled (3700 * second) ''a1'' hourlyEntry 0 (3600 * second) 1 (catchUp hourlyLib (3700 * second) ?s)"
    by (rule hourly_settled)
  moreover have "decideMisfire (3600 * second) (3700 * second) (en_MisfireGraceS hourlyEntry) = MisfireRun"
    by (simp add: decideMisfire_def hourlyEntry_def isZero_def zero_time_def subT_def seconds_def wrap64_def second_def)
  ultimately obtain it where "it \<in> set (sv_pq (catchUp hourlyLib (3700 * second) ?s))"
    by (auto simp: settled_def)
  from catchUp_owes_only [OF this] show ?thesis by (auto simp: hourlyStarted_def)
qed

text \<open>
  The walk over missed fires. It counts consecutive activations after the last fire, returns
  the last of them, which is not in the future, and stops short of the scan limit only when
  there is no further activation up to the present.
\<close>

theorem lastMissed_walk:
  assumes "lastMissed nx since now limit = (m, c)"
  shows "0 \<le> c \<and> c \<le> int limit \<and> (c = 0 \<longrightarrow> m = zero_time) \<and>
    (0 < c \<longrightarrow> since < m \<and> m \<le> now \<and> \<not> isZero m \<and> m = (nx ^^ nat c) since) \<and>
    (c < int limit \<longrightarrow> \<not> fireIn nx now (if c = 0 then since else m))"
  by (rule lastMissed_spec [OF assms])

theorem lastMissed_walk_witness:
  "\<not> fireIn hourlyNext (3700 * second) (3600 * second) \<and> 3600 * second = (hourlyNext ^^ 1) 0"
  using lastMissed_walk [OF hourly_missed] by (auto simp: maxScan_def)

text \<open>
  The scan limit shows. For an entry that fires every \<open>d\<close> and was offline for more than
  20000 of its fires, the walk reports the 20000th missed fire, not the most recent one, however
  many follow it.
\<close>

theorem lastMissed_scan_limit:
  assumes "0 < d" and "zero_time < since" and "since + int (maxScan + k) * d \<le> now"
  shows "lastMissed (\<lambda>t. t + d) since now maxScan = (since + int maxScan * d, int maxScan)"
proof -
  have "0 \<le> int k * d" using assms(1) by simp
  then have "since + int maxScan * d \<le> now" using assms(3) by (simp add: algebra_simps)
  from missedLoop_regular [OF assms(1) this assms(2), of zero_time 0]
  show ?thesis by (simp add: lastMissed_def maxScan_def)
qed

theorem lastMissed_scan_limit_witness:
  "lastMissed (\<lambda>t. t + 60 * second) 0 (30000 * 60 * second) maxScan = (20000 * 60 * second, 20000) \<and>
   decideMisfire (20000 * 60 * second) (30000 * 60 * second) 3600 = MisfireSkip \<and>
   decideMisfire (30000 * 60 * second) (30000 * 60 * second) 3600 = MisfireRun"
  using lastMissed_scan_limit [of "60 * second" 0 10000 "30000 * 60 * second"]
  by (simp add: maxScan_def second_def zero_time_def decideMisfire_def isZero_def subT_def seconds_def wrap64_def)

text \<open>
  C39. Job ids of scheduled runs. With a hash of 20 bytes the id of a fire has 36 bytes and is a
  valid identifier, so the result subject built from it is a single well-formed subject.
\<close>

theorem JobID_identifier:
  assumes "\<And>bs. length (sha1 bs) = 20"
  shows "length (JobID sha1 entryID base) = 36 \<and> validId (JobID sha1 entryID base)"
proof -
  let ?n = "entryID @ '':'' @ itoa (unix base)"
  have "16 \<le> length (sha1 (schedNamespace @ map byteOf ?n))" using assms by simp
  note shape = uuidV5_shape [of sha1 schedNamespace ?n, OF this]
  then have "validId (uuidV5 sha1 schedNamespace ?n)" by (intro no_dot_validId) auto
  with shape(1) show ?thesis by (simp add: JobID_def)
qed

theorem JobID_identifier_witness: "validId (JobID zeroHash ''nightly'' (3600 * second))"
  using JobID_identifier [of zeroHash "''nightly''" "3600 * second"] by (simp add: zeroHash_def)

text \<open>
  The spread of one entry on one agent is a whole number of seconds below its
  \<open>jitter_s\<close>, for every value that \<open>time.Duration\<close> can hold in seconds.
\<close>

theorem Jitter_in_range:
  assumes "js \<le> 9223372036"
  shows "0 \<le> Jitter agentID entryID js \<and> (0 < js \<longrightarrow> Jitter agentID entryID js < js * second)"
  using Jitter_bounds [OF assms] by blast

theorem Jitter_in_range_witness: "0 \<le> Jitter ''a1'' ''nightly'' 60 \<and> Jitter ''a1'' ''nightly'' 60 < 60 * second"
  using Jitter_in_range [of 60 "''a1''" "''nightly''"] by simp

text \<open>
  One fire, two runs. An agent that starts after a missed hourly fire puts both the catch-up
  and the next regular fire into its heap; firing the catch-up then pushes the next regular fire
  a second time, so at that hour the same job id is handed to \<open>RunFunc\<close> twice.
\<close>

theorem catchup_dispatches_twice:
  "\<exists>s1 s2. fireDue hourlyLib zeroHash (3722 * second)
       (runStart hourlyLib (3700 * second) (3700 * second) (newScheduler ''a1'' hourlyFile [])) = Some s1 \<and>
     fireDue hourlyLib zeroHash (7200 * second) s1 = Some s2 \<and>
     count_list (sv_out s2) (Ran (JobID zeroHash ''nightly'' (7200 * second)) hourlyEntry (7200 * second)) = 2"
proof -
  obtain s1 where s1: "fireDue hourlyLib zeroHash (3722 * second) hourlyStarted = Some s1"
    "sv_pq s1 = [hourlyItem 2, hourlyItem 2]" "st_Entries (sv_st s1) = [hourlyEntry]"
    "sv_out s1 = [Ran (JobID zeroHash ''nightly'' (3600 * second)) hourlyEntry (3600 * second)]"
    using hourly_catchUp_fire by blast
  obtain s2 where s2: "fireDue hourlyLib zeroHash (7200 * second) s1 = Some s2"
    "sv_out s2 = sv_out s1 @ replicate 2 (Ran (JobID zeroHash ''nightly'' (7200 * second)) hourlyEntry (7200 * second))"
    using hourly_two_due [OF s1(2,3)] by blast
  have "3600 * second \<noteq> 7200 * second" by (simp add: second_def)
  then show ?thesis using s1(1,4) s2 unfolding hourly_start by (auto simp: numeral_2_eq_2)
qed

end
