(* ===== verification/Scripts.thy ===== *)
theory Scripts
  imports Sched "HOL-Library.List_Lexorder" "HOL-Library.Char_ord"
begin

text \<open>
  The script runner, \<open>agent/internal/scripts\<close>: job specs and results, the framing of output
  into numbered chunks (\<open>chunk.go\<close>), publishing (\<open>publish.go\<close>), the scrubbed environment
  (\<open>env.go\<close>), interpreters (\<open>interp*.go\<close>), staging (\<open>stage.go\<close>) and one run of a job from
  its first progress message to its audit event (\<open>runner.go\<close>).

  Everything a job publishes is appended to \<open>wd_out\<close>. The outcome of every publish of an
  output chunk is taken from \<open>wd_faults\<close> and that of every attempt to have a result
  acknowledged from \<open>wd_nacks\<close> (\<open>True\<close>: it fails; the empty list: it succeeds).
  What the operating system and the child process do in one run is the argument \<open>run_env\<close>.
\<close>

section \<open>Jobs, results and the events a job publishes\<close>

abbreviation (input) "StatusSucceeded \<equiv> ''succeeded''"
abbreviation (input) "StatusFailed \<equiv> ''failed''"
abbreviation (input) "StatusTimeout \<equiv> ''timeout''"
abbreviation (input) "StatusCancelled \<equiv> ''cancelled''"

abbreviation (input) "KindScriptRun \<equiv> ''script.run''"
abbreviation (input) "KindInventoryRefresh \<equiv> ''inventory.refresh''"
abbreviation (input) "KindPatchScan \<equiv> ''patch.scan''"
abbreviation (input) "KindPatchInstall \<equiv> ''patch.install''"
abbreviation (input) "KindAgentUpdate \<equiv> ''agent.update''"

abbreviation (input) "PhaseStarted \<equiv> ''started''"
abbreviation (input) "PhaseRunning \<equiv> ''running''"
abbreviation (input) "PhaseFinished \<equiv> ''finished''"

abbreviation (input) "StreamStdout \<equiv> ''stdout''"
abbreviation (input) "StreamStderr \<equiv> ''stderr''"

definition nl :: string where
  "nl = [CHR 0x0A]"

record jobSpec =
  js_JobID :: string
  js_Kind :: string
  js_Shell :: string
  js_Body :: string
  js_TimeoutS :: int
  js_Env :: "(string \<times> string) list"
  js_RequestedBy :: string
  js_EntryID :: string

record result =
  rs_Status :: string
  rs_ExitCode :: int
  rs_DurationMS :: int
  rs_Truncated :: bool
  rs_Installed :: "string list"
  rs_Failed :: "(string \<times> string) list"
  rs_RebootRequired :: bool
  rs_EntryID :: string
  rs_UpdatedTo :: string
  rs_Finalizing :: bool

text \<open>\<open>Result{Status: st, ExitCode: code}\<close>: every other field is its zero value.\<close>

definition mkResult :: "string \<Rightarrow> int \<Rightarrow> result" where
  "mkResult st code =
     \<lparr>rs_Status = st, rs_ExitCode = code, rs_DurationMS = 0, rs_Truncated = False,
      rs_Installed = [], rs_Failed = [], rs_RebootRequired = False, rs_EntryID = [],
      rs_UpdatedTo = [], rs_Finalizing = False\<rparr>"

record chunk =
  ck_JobID :: string
  ck_Stream :: string
  ck_Seq :: int
  ck_Data :: bytes
  ck_EOF :: bool
  ck_EntryID :: string

datatype detail = DStr string | DInt int | DBool bool | DList "string list" | DMap "(string \<times> string) list"

datatype job_event =
    EvProgress string int int string string
  | EvChunk chunk
  | EvResult string result bool
  | EvAudit string "(string \<times> detail) list"
  | EvRestart string
  | EvHandoff string

record world =
  wd_out :: "job_event list"
  wd_faults :: "bool list"
  wd_nacks :: "bool list"
  wd_seq :: int
  wd_bodies :: "string \<rightharpoonup> string"

definition put :: "job_event \<Rightarrow> world \<Rightarrow> world" where
  "put ev w = w\<lparr>wd_out := wd_out w @ [ev]\<rparr>"

definition auditEmit :: "string \<Rightarrow> (string \<times> detail) list \<Rightarrow> world \<Rightarrow> world" where
  "auditEmit event details w = put (EvAudit event details) w"

section \<open>Output chunks\<close>

definition MaxChunkBytes :: nat where
  "MaxChunkBytes = 256 * 1024"

definition MaxJobOutputBytes :: nat where
  "MaxJobOutputBytes = 8 * 1024 * 1024"

record chunkSink =
  cs_jobID :: string
  cs_entryID :: string
  cs_seq :: int
  cs_written :: nat
  cs_truncated :: bool
  cs_stopped :: bool

definition newChunkSink :: "string \<Rightarrow> string \<Rightarrow> chunkSink" where
  "newChunkSink jobID entryID =
     \<lparr>cs_jobID = jobID, cs_entryID = entryID, cs_seq = 0, cs_written = 0,
      cs_truncated = False, cs_stopped = False\<rparr>"

text \<open>\<open>publishChunk\<close>, the \<open>emit\<close> hook of the runner's sinks: whether the publish succeeded.\<close>

definition publishChunk :: "chunk \<Rightarrow> world \<Rightarrow> bool \<times> world" where
  "publishChunk c w =
     (case wd_faults w of
        [] \<Rightarrow> (True, put (EvChunk c) w)
      | fault # rest \<Rightarrow>
          (if fault then (False, w\<lparr>wd_faults := rest\<rparr>)
           else (True, put (EvChunk c) (w\<lparr>wd_faults := rest\<rparr>))))"

definition send :: "string \<Rightarrow> bytes \<Rightarrow> bool \<Rightarrow> chunkSink \<Rightarrow> world \<Rightarrow> bool \<times> chunkSink \<times> world" where
  "send stream bs eof s w =
     (let s1 = s\<lparr>cs_seq := cs_seq s + 1\<rparr>;
          (ok, w1) = publishChunk
            \<lparr>ck_JobID = cs_jobID s1, ck_Stream = stream, ck_Seq = cs_seq s1, ck_Data = bs,
             ck_EOF = eof, ck_EntryID = cs_entryID s1\<rparr> w
      in (ok, s1, w1))"

function writeLoop :: "string \<Rightarrow> bytes \<Rightarrow> chunkSink \<Rightarrow> world \<Rightarrow> bool \<times> chunkSink \<times> world" where
  "writeLoop stream p s w =
     (if p = [] then (True, s, w)
      else let n = min (length p) MaxChunkBytes;
               (ok, s1, w1) = send stream (take n p) False s w
           in if ok then writeLoop stream (drop n p) (s1\<lparr>cs_written := cs_written s1 + n\<rparr>) w1
              else (False, s1, w1))"
  by pat_completeness auto
termination
  by (relation "measure (\<lambda>(stream, p, s, w). length p)") (auto simp: MaxChunkBytes_def)

declare writeLoop.simps [simp del]

definition sinkWrite :: "string \<Rightarrow> bytes \<Rightarrow> chunkSink \<Rightarrow> world \<Rightarrow> bool \<times> chunkSink \<times> world" where
  "sinkWrite stream p s w =
     (if p = [] \<or> cs_truncated s \<or> cs_stopped s then (True, s, w)
      else let remaining = MaxJobOutputBytes - cs_written s
           in if remaining < length p
              then writeLoop stream (take remaining p) (s\<lparr>cs_truncated := True\<rparr>) w
              else writeLoop stream p s w)"

definition sinkEof :: "string \<Rightarrow> chunkSink \<Rightarrow> world \<Rightarrow> bool \<times> chunkSink \<times> world" where
  "sinkEof stream s w = send stream [] True s w"

definition sinkStop :: "chunkSink \<Rightarrow> chunkSink" where
  "sinkStop s = s\<lparr>cs_stopped := True\<rparr>"

definition isTruncated :: "chunkSink \<Rightarrow> bool" where
  "isTruncated s = cs_truncated s"

section \<open>Publishing\<close>

text \<open>\<open>Progress\<close> starts a sequence for one job; the function it returns is \<open>progress\<close>.\<close>

definition startProgress :: "world \<Rightarrow> world" where
  "startProgress w = w\<lparr>wd_seq := 0\<rparr>"

definition progress :: "string \<Rightarrow> int \<Rightarrow> string \<Rightarrow> string \<Rightarrow> world \<Rightarrow> world" where
  "progress jobID pct phase note w =
     put (EvProgress jobID (wd_seq w + 1) pct phase note) (w\<lparr>wd_seq := wd_seq w + 1\<rparr>)"

definition resultAttempts :: nat where
  "resultAttempts = 3"

text \<open>
  \<open>publishAck\<close> with the number of attempts left: whether the server acknowledged, and the
  outcomes that were not used.
\<close>

fun publishAck :: "nat \<Rightarrow> bool list \<Rightarrow> bool \<times> bool list" where
  "publishAck 0 nacks = (False, nacks)"
| "publishAck (Suc n) [] = (True, [])"
| "publishAck (Suc n) (nack # rest) = (if nack then publishAck n rest else (True, rest))"

definition publishResult :: "string \<Rightarrow> result \<Rightarrow> world \<Rightarrow> world" where
  "publishResult jobID res w =
     (let (acked, rest) = publishAck resultAttempts (wd_nacks w)
      in put (EvResult jobID res acked) (w\<lparr>wd_nacks := rest\<rparr>))"

definition PublishResult :: "jobSpec \<Rightarrow> result \<Rightarrow> world \<Rightarrow> world" where
  "PublishResult job res w = publishResult (js_JobID job) (res\<lparr>rs_EntryID := js_EntryID job\<rparr>) w"

text \<open>A failed write or end marker is logged, and the next one is still sent.\<close>

definition PublishStderr :: "jobSpec \<Rightarrow> string \<Rightarrow> world \<Rightarrow> world" where
  "PublishStderr job text w =
     (let (_, s1, w1) = sinkWrite StreamStderr text (newChunkSink (js_JobID job) (js_EntryID job)) w;
          (_, s2, w2) = sinkEof StreamStdout s1 w1;
          (_, s3, w3) = sinkEof StreamStderr s2 w2
      in w3)"

section \<open>The environment of a job\<close>

definition envAllowlist :: "string list" where
  "envAllowlist =
     [''PATH'', ''HOME'', ''USER'', ''LOGNAME'', ''LANG'', ''LC_ALL'', ''TZ'', ''SHELL'', ''TMPDIR'',
      ''TEMP'', ''TMP'', ''SystemRoot'', ''SystemDrive'', ''ComSpec'', ''PATHEXT'',
      ''windir'', ''USERPROFILE'', ''USERNAME'', ''PROGRAMFILES'', ''PROGRAMDATA'',
      ''APPDATA'', ''LOCALAPPDATA'', ''NUMBER_OF_PROCESSORS'', ''PROCESSOR_ARCHITECTURE'']"

definition envAllowed :: "string \<Rightarrow> bool" where
  "envAllowed k \<longleftrightarrow> toLower k \<in> toLower ` set envAllowlist"

text \<open>The map \<open>kept\<close> as a list of pairs with distinct names.\<close>

fun setKey :: "string \<Rightarrow> string \<Rightarrow> (string \<times> string) list \<Rightarrow> (string \<times> string) list" where
  "setKey k v [] = [(k, v)]"
| "setKey k v ((k', v') # kvs) = (if k' = k then (k, v) # kvs else (k', v') # setKey k v kvs)"

definition keepHost :: "string \<Rightarrow> (string \<times> string) list \<Rightarrow> (string \<times> string) list" where
  "keepHost kv kept =
     (case cutOn CHR ''='' kv of
        None \<Rightarrow> kept
      | Some (k, v) \<Rightarrow> if k = [] \<or> \<not> envAllowed k then kept else setKey k v kept)"

definition keepExtra :: "string \<times> string \<Rightarrow> (string \<times> string) list \<Rightarrow> (string \<times> string) list" where
  "keepExtra kv kept =
     (if fst kv = [] \<or> CHR ''='' \<in> set (fst kv) \<or> CHR 0x00 \<in> set (fst kv) then kept
      else setKey (fst kv) (snd kv) kept)"

definition keptEnv :: "string list \<Rightarrow> (string \<times> string) list \<Rightarrow> (string \<times> string) list" where
  "keptEnv hostEnv extra = fold keepExtra extra (fold keepHost hostEnv [])"

definition scrubEnv :: "string list \<Rightarrow> (string \<times> string) list \<Rightarrow> string list" where
  "scrubEnv hostEnv extra = sort (map (\<lambda>(k, v). k @ ''='' @ v) (keptEnv hostEnv extra))"

section \<open>Interpreters\<close>

datatype goos = Unix | Windows

record interp =
  ip_Shell :: string
  ip_Path :: string
  ip_Args :: "string list"
  ip_Ext :: string

definition Argv :: "interp \<Rightarrow> string \<Rightarrow> string list" where
  "Argv i scriptPath = (ip_Path i # ip_Args i) @ [scriptPath]"

record interp_spec =
  sp_candidates :: "string list"
  sp_args :: "string list"
  sp_ext :: string

fun defaultShell :: "goos \<Rightarrow> string" where
  "defaultShell Unix = ''bash''"
| "defaultShell Windows = ''powershell''"

definition psArgsWindows :: "string list" where
  "psArgsWindows = [''-NoProfile'', ''-NonInteractive'', ''-ExecutionPolicy'', ''Bypass'', ''-File'']"

definition psArgsUnix :: "string list" where
  "psArgsUnix = [''-NoProfile'', ''-NonInteractive'', ''-File'']"

fun interpTable :: "goos \<Rightarrow> (string \<times> interp_spec) list" where
  "interpTable Unix =
     [(''bash'', \<lparr>sp_candidates = [''bash'', ''sh''], sp_args = [], sp_ext = ''.sh''\<rparr>),
      (''sh'', \<lparr>sp_candidates = [''sh''], sp_args = [], sp_ext = ''.sh''\<rparr>),
      (''zsh'', \<lparr>sp_candidates = [''zsh''], sp_args = [], sp_ext = ''.sh''\<rparr>),
      (''python'', \<lparr>sp_candidates = [''python3'', ''python''], sp_args = [], sp_ext = ''.py''\<rparr>),
      (''pwsh'', \<lparr>sp_candidates = [''pwsh''], sp_args = psArgsUnix, sp_ext = ''.ps1''\<rparr>),
      (''powershell'', \<lparr>sp_candidates = [''pwsh'', ''powershell''], sp_args = psArgsUnix, sp_ext = ''.ps1''\<rparr>)]"
| "interpTable Windows =
     [(''powershell'', \<lparr>sp_candidates = [''powershell.exe'', ''pwsh.exe''], sp_args = psArgsWindows, sp_ext = ''.ps1''\<rparr>),
      (''pwsh'', \<lparr>sp_candidates = [''pwsh.exe'', ''powershell.exe''], sp_args = psArgsWindows, sp_ext = ''.ps1''\<rparr>),
      (''cmd'', \<lparr>sp_candidates = [''cmd.exe''], sp_args = [''/c''], sp_ext = ''.cmd''\<rparr>),
      (''python'', \<lparr>sp_candidates = [''python3.exe'', ''python.exe'', ''python3'', ''python''], sp_args = [], sp_ext = ''.py''\<rparr>),
      (''bash'', \<lparr>sp_candidates = [''bash.exe'', ''bash''], sp_args = [], sp_ext = ''.sh''\<rparr>),
      (''sh'', \<lparr>sp_candidates = [''sh.exe'', ''sh''], sp_args = [], sp_ext = ''.sh''\<rparr>)]"

definition canonicalShell :: "goos \<Rightarrow> string \<Rightarrow> string" where
  "canonicalShell os shell =
     (let s = toLower (trimSpace shell)
      in if s \<in> {[], ''auto'', ''default''} then defaultShell os
         else if s \<in> {''python3'', ''py''} then ''python''
         else if s = ''powershell.exe'' then ''powershell''
         else if s = ''pwsh.exe'' then ''pwsh''
         else if s \<in> {''cmd.exe'', ''bat'', ''batch''} then ''cmd''
         else s)"

text \<open>\<open>exec.LookPath\<close> is the argument \<open>look\<close>: \<open>None\<close> when nothing is found.\<close>

fun firstFound :: "(string \<Rightarrow> string option) \<Rightarrow> string list \<Rightarrow> string option" where
  "firstFound look [] = None"
| "firstFound look (c # cs) =
     (case look c of Some path \<Rightarrow> Some path | None \<Rightarrow> firstFound look cs)"

definition resolveWith :: "goos \<Rightarrow> string \<Rightarrow> (string \<Rightarrow> string option) \<Rightarrow> string + interp" where
  "resolveWith os shell look =
     (let name = canonicalShell os shell
      in case map_of (interpTable os) name of
           None \<Rightarrow> Inl (''unsupported shell '' @ shell)
         | Some sp \<Rightarrow>
             (case firstFound look (sp_candidates sp) of
                Some path \<Rightarrow> Inr \<lparr>ip_Shell = name, ip_Path = path, ip_Args = sp_args sp, ip_Ext = sp_ext sp\<rparr>
              | None \<Rightarrow> Inl (''no interpreter for '' @ name @ '' found in PATH (tried '' @
                          joinWith '', '' (sp_candidates sp) @ '')'')))"

section \<open>Staging\<close>

definition safeRune :: "char \<Rightarrow> char" where
  "safeRune r = (if isAlnum r \<or> r = CHR ''-'' \<or> r = CHR ''_'' \<or> r = CHR ''.'' then r else CHR ''_'')"

text \<open>Job ids are ASCII here, as \<open>wire.CheckIdentifier\<close> and \<open>sched.JobID\<close> make them.\<close>

definition safeName :: "string \<Rightarrow> string" where
  "safeName jobID =
     (let name = trimBy (\<lambda>c. c = CHR ''.'') (map safeRune jobID);
          name = (if name = [] then ''job'' else name)
      in if 96 < length name then take 96 name else name)"

text \<open>Errors of \<open>os.MkdirAll\<close>, \<open>os.Chmod\<close>, \<open>os.WriteFile\<close> and the second \<open>os.Chmod\<close>.\<close>

record stage_faults =
  sf_mkdir :: "string option"
  sf_chmodDir :: "string option"
  sf_writeFile :: "string option"
  sf_chmodFile :: "string option"

definition workDir :: "string \<Rightarrow> string \<Rightarrow> string" where
  "workDir base jobID = base @ ''/work/'' @ safeName jobID"

text \<open>A body on disk is an entry of \<open>wd_bodies\<close> under its directory.\<close>

definition stageScript ::
  "string \<Rightarrow> stage_faults \<Rightarrow> string \<Rightarrow> string \<Rightarrow> string \<Rightarrow> string \<Rightarrow> world \<Rightarrow> (string + string \<times> string) \<times> world"
where
  "stageScript tempDir sf stateDir jobID body ext w =
     (let dir = workDir (if stateDir = [] then tempDir else stateDir) jobID;
          script = dir @ ''/script'' @ ext;
          removed = w\<lparr>wd_bodies := (wd_bodies w)(dir := None)\<rparr>
      in case sf_mkdir sf of Some e \<Rightarrow> (Inl e, w)
         | None \<Rightarrow>
      (case sf_chmodDir sf of Some e \<Rightarrow> (Inl e, w)
         | None \<Rightarrow>
      (case sf_writeFile sf of Some e \<Rightarrow> (Inl e, removed)
         | None \<Rightarrow>
      (case sf_chmodFile sf of Some e \<Rightarrow> (Inl e, removed)
         | None \<Rightarrow> (Inr (dir, script), w\<lparr>wd_bodies := (wd_bodies w)(dir \<mapsto> body)\<rparr>)))))"

section \<open>The runner\<close>

definition DefaultTimeout :: duration where
  "DefaultTimeout = 300 * second"

definition MaxTimeout :: duration where
  "MaxTimeout = 24 * 3600 * second"

definition jobTimeout :: "int \<Rightarrow> duration" where
  "jobTimeout sec =
     (if sec \<le> 0 then DefaultTimeout
      else if seconds sec < MaxTimeout then seconds sec
      else MaxTimeout)"

text \<open>\<open>cmd.Wait\<close>: an \<open>exec.ExitError\<close> with its code, or another error.\<close>

datatype wait_error = ExitError int | WaitFailed

definition resultOf :: "wait_error option \<Rightarrow> string \<Rightarrow> result" where
  "resultOf waitErr reason =
     (let exit = (case waitErr of None \<Rightarrow> 0 | Some (ExitError c) \<Rightarrow> c | Some WaitFailed \<Rightarrow> -1)
      in if reason \<noteq> [] then mkResult reason (if exit = 0 then -1 else exit)
         else if exit \<noteq> 0 then mkResult StatusFailed exit
         else mkResult StatusSucceeded 0)"

text \<open>\<open>reasonBox.set\<close>: the first reason stays; whether this call set it.\<close>

definition reasonSet :: "string \<Rightarrow> string \<Rightarrow> bool \<times> string" where
  "reasonSet reason box = (if box \<noteq> [] then (False, box) else (True, reason))"

text \<open>
  The registry of running scripts, \<open>Runner.running\<close>, with each job's reason box; \<open>Cancel\<close>
  kills the process group the first time a reason is set.
\<close>

type_synonym running = "string \<rightharpoonup> string"

definition registerRun :: "string \<Rightarrow> running \<Rightarrow> running" where
  "registerRun jobID r = r(jobID \<mapsto> [])"

definition unregisterRun :: "string \<Rightarrow> running \<Rightarrow> running" where
  "unregisterRun jobID r = r(jobID := None)"

definition runnerCancel :: "string \<Rightarrow> running \<Rightarrow> bool \<times> running" where
  "runnerCancel jobID r =
     (case r jobID of
        None \<Rightarrow> (False, r)
      | Some box \<Rightarrow> (True, r(jobID \<mapsto> snd (reasonSet StatusCancelled box))))"

definition abort :: "jobSpec \<Rightarrow> string \<Rightarrow> chunkSink \<Rightarrow> world \<Rightarrow> result \<times> chunkSink \<times> world" where
  "abort job err s w =
     (let (_, s1, w1) = sinkWrite StreamStderr (''everwas-agent: '' @ err @ nl) s w
      in (mkResult StatusFailed (-1), s1, w1))"

text \<open>The two pumps: the blocks they read, in the order the sink's lock serves them.\<close>

fun pumpAll :: "(string \<times> bytes) list \<Rightarrow> chunkSink \<Rightarrow> world \<Rightarrow> chunkSink \<times> world" where
  "pumpAll [] s w = (s, w)"
| "pumpAll ((stream, p) # reads) s w =
     (let (_, s1, w1) = sinkWrite stream p s w in pumpAll reads s1 w1)"

datatype kill = KillTimeout | KillCancelled

fun killReason :: "kill \<Rightarrow> string" where
  "killReason KillTimeout = StatusTimeout"
| "killReason KillCancelled = StatusCancelled"

text \<open>
  What one run meets: the interpreter lookup, the errors of staging, of the pipes and of the
  start, the kills in the order they come (timer, context, \<open>Cancel\<close>), the blocks read before
  and after the pumps are abandoned, whether they drained in time, the result of \<open>Wait\<close>,
  whether the removal of the work directory fails, and the elapsed milliseconds.
\<close>

record run_env =
  re_os :: goos
  re_stateDir :: string
  re_tempDir :: string
  re_sha256 :: hasher
  re_look :: "string \<Rightarrow> string option"
  re_stage :: stage_faults
  re_pipes :: "string option"
  re_start :: "string option"
  re_kills :: "kill list"
  re_reads :: "(string \<times> bytes) list"
  re_drained :: bool
  re_late :: "(string \<times> bytes) list"
  re_wait :: "wait_error option"
  re_rmFails :: bool
  re_ms :: int

definition removeWork :: "run_env \<Rightarrow> string \<Rightarrow> world \<Rightarrow> world" where
  "removeWork env dir w = (if re_rmFails env then w else w\<lparr>wd_bodies := (wd_bodies w)(dir := None)\<rparr>)"

text \<open>From a started child to its result.\<close>

definition superviseRun :: "run_env \<Rightarrow> chunkSink \<Rightarrow> world \<Rightarrow> result \<times> chunkSink \<times> world" where
  "superviseRun env s w =
     (let reason = fold (\<lambda>k box. snd (reasonSet (killReason k) box)) (re_kills env) [];
          (s1, w1) = pumpAll (re_reads env) s w;
          (s2, w2) = (if re_drained env then (s1, w1) else pumpAll (re_late env) (sinkStop s1) w1)
      in (resultOf (re_wait env) reason, s2, w2))"

definition runExecute :: "run_env \<Rightarrow> jobSpec \<Rightarrow> chunkSink \<Rightarrow> world \<Rightarrow> result \<times> chunkSink \<times> world" where
  "runExecute env job s w0 =
     (let w = progress (js_JobID job) 0 PhaseStarted (js_Shell job) w0
      in if js_Body job = [] then abort job ''empty script body'' s w
         else case resolveWith (re_os env) (js_Shell job) (re_look env) of
           Inl err \<Rightarrow> abort job err s w
         | Inr ip \<Rightarrow>
             (case stageScript (re_tempDir env) (re_stage env) (re_stateDir env) (js_JobID job) (js_Body job) (ip_Ext ip) w of
                (Inl err, w1) \<Rightarrow> abort job (''stage script: '' @ err) s w1
              | (Inr (dir, script), w1) \<Rightarrow>
                  (let (res, s2, w2) =
                     (case re_pipes env of
                        Some err \<Rightarrow> abort job err s w1
                      | None \<Rightarrow>
                          (case re_start env of
                             Some err \<Rightarrow> abort job (''start '' @ ip_Path ip @ '': '' @ err) s w1
                           | None \<Rightarrow> superviseRun env s (progress (js_JobID job) 10 PhaseRunning (ip_Path ip) w1)))
                   in (res, s2, removeWork env dir w2))))"

definition Run :: "run_env \<Rightarrow> jobSpec \<Rightarrow> world \<Rightarrow> world" where
  "Run env job w =
     (let (res0, s1, w1) = runExecute env job (newChunkSink (js_JobID job) (js_EntryID job)) w;
          res = res0\<lparr>rs_DurationMS := re_ms env, rs_Truncated := isTruncated s1, rs_EntryID := js_EntryID job\<rparr>;
          (_, s2, w2) = sinkEof StreamStdout s1 w1;
          (_, s3, w3) = sinkEof StreamStderr s2 w2;
          w4 = progress (js_JobID job) 100 PhaseFinished (rs_Status res) w3;
          w5 = publishResult (js_JobID job) res w4
      in auditEmit ''script.executed''
           [(''job_id'', DStr (js_JobID job)), (''shell'', DStr (js_Shell job)),
            (''sha256'', DStr (hexOf (re_sha256 env (map byteOf (js_Body job))))),
            (''status'', DStr (rs_Status res)), (''exit_code'', DInt (rs_ExitCode res)),
            (''duration_ms'', DInt (rs_DurationMS res)), (''truncated'', DBool (rs_Truncated res)),
            (''requested_by'', DStr (js_RequestedBy job))] w5)"

end
