(* ===== verification/Scripts_Correct.thy ===== *)
theory Scripts_Correct
  imports Scripts
begin

text \<open>
  The script runner is correct: the contract of a job handler (one terminal result per job,
  attributed to its schedule entry) as the locale \<open>job_handler\<close>, which every kind of job
  interprets; the framing of output into numbered chunks under the cap; the staged body is gone
  when the job ends; the scrubbed environment; directory names; timeouts; interpreters.
\<close>

section \<open>The contract of a job handler\<close>

fun isResult :: "job_event \<Rightarrow> bool" where
  "isResult (EvResult j r a) = True"
| "isResult ev = False"

definition quiet :: "job_event list \<Rightarrow> bool" where
  "quiet evs \<longleftrightarrow> list_all (\<lambda>ev. \<not> isResult ev) evs"

lemma quiet_simps [simp]:
  "quiet []" "quiet (ev # evs) \<longleftrightarrow> \<not> isResult ev \<and> quiet evs" "quiet (xs @ ys) \<longleftrightarrow> quiet xs \<and> quiet ys"
  by (auto simp: quiet_def)

lemma quiet_chunks [simp]: "quiet (map EvChunk cs)"
  by (induction cs) auto

definition terminal :: "string \<Rightarrow> bool" where
  "terminal st \<longleftrightarrow> st \<in> {StatusSucceeded, StatusFailed, StatusTimeout, StatusCancelled}"

text \<open>The results among the events, with the job each is published for.\<close>

fun resultsOf :: "job_event list \<Rightarrow> (string \<times> result) list" where
  "resultsOf [] = []"
| "resultsOf (EvResult j r a # evs) = (j, r) # resultsOf evs"
| "resultsOf (ev # evs) = resultsOf evs"

lemma resultsOf_append [simp]: "resultsOf (xs @ ys) = resultsOf xs @ resultsOf ys"
  by (induction xs rule: resultsOf.induct) auto

lemma resultsOf_quiet [simp]: "quiet evs \<Longrightarrow> resultsOf evs = []"
  by (induction evs rule: resultsOf.induct) auto

text \<open>The events of one job: a single result, terminal and attributed, among quiet ones.\<close>

definition reportsOnce :: "jobSpec \<Rightarrow> job_event list \<Rightarrow> bool" where
  "reportsOnce spec evs \<longleftrightarrow>
     (\<exists>pre r acked post. evs = pre @ EvResult (js_JobID spec) r acked # post \<and> quiet pre \<and> quiet post \<and>
        rs_EntryID r = js_EntryID spec \<and> terminal (rs_Status r))"

lemma reportsOnce_results:
  "reportsOnce spec evs \<Longrightarrow>
   \<exists>r. resultsOf evs = [(js_JobID spec, r)] \<and> rs_EntryID r = js_EntryID spec \<and> terminal (rs_Status r)"
  by (auto simp: reportsOnce_def)

lemma reportsOnce_quiet: "quiet xs \<Longrightarrow> reportsOnce spec evs \<Longrightarrow> reportsOnce spec (xs @ evs)"
  unfolding reportsOnce_def by (metis append_assoc quiet_simps(3))

lemma reportsOnce_quiet_right: "reportsOnce spec evs \<Longrightarrow> quiet ys \<Longrightarrow> reportsOnce spec (evs @ ys)"
  unfolding reportsOnce_def by (metis append_Cons append_assoc quiet_simps(3))

locale job_handler =
  fixes handle :: "jobSpec \<Rightarrow> world \<Rightarrow> world"
  assumes reports: "\<exists>evs. wd_out (handle spec w) = wd_out w @ evs \<and> reportsOnce spec evs"
begin

lemma one_result:
  "\<exists>r. resultsOf (wd_out (handle spec w)) = resultsOf (wd_out w) @ [(js_JobID spec, r)] \<and>
     rs_EntryID r = js_EntryID spec \<and> terminal (rs_Status r)"
  using reports [of spec w] reportsOnce_results by fastforce

text \<open>Jobs one after the other: one result each, in their order and attributed.\<close>

lemma handle_all:
  "map (\<lambda>(j, r). (j, rs_EntryID r)) (resultsOf (wd_out (fold handle specs w))) =
   map (\<lambda>(j, r). (j, rs_EntryID r)) (resultsOf (wd_out w)) @ map (\<lambda>spec. (js_JobID spec, js_EntryID spec)) specs"
proof (induction specs arbitrary: w)
  case (Cons spec specs)
  obtain r where "resultsOf (wd_out (handle spec w)) = resultsOf (wd_out w) @ [(js_JobID spec, r)]"
    "rs_EntryID r = js_EntryID spec"
    using one_result by blast
  then show ?case by (simp add: Cons.IH)
qed simp

end

section \<open>Events of the publishing operations\<close>

text \<open>\<open>grows w w'\<close>: \<open>w'\<close> extends the events of \<open>w\<close> by quiet ones and keeps the bodies.\<close>

definition grows :: "world \<Rightarrow> world \<Rightarrow> bool" where
  "grows w w' \<longleftrightarrow> (\<exists>evs. wd_out w' = wd_out w @ evs \<and> quiet evs) \<and> wd_bodies w' = wd_bodies w"

lemma grows_refl [simp, intro]: "grows w w"
  by (auto simp: grows_def)

lemma grows_trans [trans]: "grows w1 w2 \<Longrightarrow> grows w2 w3 \<Longrightarrow> grows w1 w3"
  unfolding grows_def by (metis append_assoc quiet_simps(3))

lemma put_simps [simp]:
  "wd_out (put ev w) = wd_out w @ [ev]" "wd_bodies (put ev w) = wd_bodies w"
  "wd_faults (put ev w) = wd_faults w" "wd_nacks (put ev w) = wd_nacks w" "wd_seq (put ev w) = wd_seq w"
  by (simp_all add: put_def)

lemma grows_put [inv_intros]: "\<not> isResult ev \<Longrightarrow> grows w (put ev w)"
  by (auto simp: grows_def)

lemma grows_progress [inv_intros]: "grows w (progress j pct ph note w)"
  by (auto simp: grows_def progress_def)

lemma grows_startProgress [inv_intros]: "grows w (startProgress w)"
  by (auto simp: grows_def startProgress_def)

lemma grows_auditEmit [inv_intros]: "grows w (auditEmit ev ds w)"
  by (auto simp: grows_def auditEmit_def)

text \<open>\<open>chunky w w'\<close>: \<open>w'\<close> extends the events of \<open>w\<close> by output chunks and keeps the bodies.\<close>

definition chunky :: "world \<Rightarrow> world \<Rightarrow> bool" where
  "chunky w w' \<longleftrightarrow> (\<exists>cs. wd_out w' = wd_out w @ map EvChunk cs) \<and> wd_bodies w' = wd_bodies w"

lemma chunky_refl [simp, intro]: "chunky w w"
  by (auto simp: chunky_def intro: exI [of _ "[]"])

lemma chunky_trans [trans]: "chunky w1 w2 \<Longrightarrow> chunky w2 w3 \<Longrightarrow> chunky w1 w3"
  unfolding chunky_def by (metis append_assoc map_append)

lemma chunky_grows: "chunky w w' \<Longrightarrow> grows w w'"
  by (auto simp: chunky_def grows_def)

lemma chunky_publishChunk: "publishChunk c w = (ok, w') \<Longrightarrow> chunky w w'"
  by (auto simp: publishChunk_def chunky_def split: list.splits if_splits intro: exI [of _ "[]"] exI [of _ "[c]"])

lemma chunky_send: "send st bs e s w = (ok, s', w') \<Longrightarrow> chunky w w'"
  by (auto simp: send_def dest: chunky_publishChunk split: prod.splits)

lemma chunky_writeLoop: "writeLoop st p s w = (ok, s', w') \<Longrightarrow> chunky w w'"
proof (induction st p s w rule: writeLoop.induct)
  case (1 st p s w)
  show ?case
  proof (cases "p = []")
    case True
    then show ?thesis using "1.prems" by (auto simp: writeLoop.simps)
  next
    case False
    let ?n = "min (length p) MaxChunkBytes"
    obtain ok1 s1 w1 where snd1: "send st (take ?n p) False s w = (ok1, s1, w1)" by (metis prod_cases3)
    then have g: "chunky w w1" by (rule chunky_send)
    show ?thesis
    proof (cases ok1)
      case True
      then have "writeLoop st (drop ?n p) (s1\<lparr>cs_written := cs_written s1 + ?n\<rparr>) w1 = (ok, s', w')"
        using "1.prems" False snd1 by (simp add: writeLoop.simps [of st p] Let_def)
      from "1.IH" [OF False refl snd1 [symmetric] refl refl True this] g show ?thesis
        by (rule chunky_trans [rotated])
    next
      case False
      then show ?thesis using "1.prems" \<open>p \<noteq> []\<close> snd1 g by (simp add: writeLoop.simps [of st p] Let_def)
    qed
  qed
qed

lemma chunky_sinkWrite: "sinkWrite st p s w = (ok, s', w') \<Longrightarrow> chunky w w'"
  by (auto simp: sinkWrite_def Let_def dest: chunky_writeLoop split: if_splits)

lemma chunky_sinkEof: "sinkEof st s w = (ok, s', w') \<Longrightarrow> chunky w w'"
  by (auto simp: sinkEof_def dest: chunky_send)

lemma chunky_PublishStderr: "chunky w (PublishStderr job t w)"
  unfolding PublishStderr_def
  by (auto split: prod.splits dest!: chunky_sinkWrite chunky_sinkEof intro: chunky_trans)

lemma chunky_pumpAll: "pumpAll reads s w = (s', w') \<Longrightarrow> chunky w w'"
  by (induction reads s w rule: pumpAll.induct)
    (auto split: prod.splits dest!: chunky_sinkWrite intro: chunky_trans)

lemmas grows_sinkWrite = chunky_sinkWrite [THEN chunky_grows]
  and grows_sinkEof = chunky_sinkEof [THEN chunky_grows]
  and grows_pumpAll = chunky_pumpAll [THEN chunky_grows]
  and grows_PublishStderr [inv_intros] = chunky_PublishStderr [THEN chunky_grows]

lemma grows_abort: "abort job err s w = (r, s', w') \<Longrightarrow> grows w w' \<and> terminal (rs_Status r)"
  by (auto simp: abort_def terminal_def mkResult_def split: prod.splits dest: grows_sinkWrite)

lemma publishResult_out:
  "\<exists>acked. wd_out (publishResult j r w) = wd_out w @ [EvResult j r acked] \<and> wd_bodies (publishResult j r w) = wd_bodies w"
  by (auto simp: publishResult_def split: prod.splits)

lemma PublishResult_reports:
  assumes "terminal (rs_Status r)"
  shows "\<exists>evs. wd_out (PublishResult spec r w) = wd_out w @ evs \<and> reportsOnce spec evs"
proof -
  let ?r = "r\<lparr>rs_EntryID := js_EntryID spec\<rparr>"
  obtain acked where "wd_out (PublishResult spec r w) = wd_out w @ [EvResult (js_JobID spec) ?r acked]"
    using publishResult_out by (metis PublishResult_def)
  moreover have "reportsOnce spec [EvResult (js_JobID spec) ?r acked]"
    unfolding reportsOnce_def
    by (rule exI [of _ "[]"], rule exI [of _ ?r], rule exI [of _ acked], rule exI [of _ "[]"]) (simp add: assms)
  ultimately show ?thesis by blast
qed

text \<open>How a handler's events are put together: quiet ones, the report, quiet ones.\<close>

lemma reports_after:
  assumes "grows w w1" and "\<exists>evs. wd_out w2 = wd_out w1 @ evs \<and> reportsOnce spec evs"
  shows "\<exists>evs. wd_out w2 = wd_out w @ evs \<and> reportsOnce spec evs"
  using assms reportsOnce_quiet unfolding grows_def by (metis append_assoc)

lemma reports_before:
  assumes "\<exists>evs. wd_out w1 = wd_out w @ evs \<and> reportsOnce spec evs" and "grows w1 w2"
  shows "\<exists>evs. wd_out w2 = wd_out w @ evs \<and> reportsOnce spec evs"
  using assms reportsOnce_quiet_right unfolding grows_def by (metis append_assoc)

section \<open>A run ends with its result, and its body is gone\<close>

lemma kills_terminal:
  "box = [] \<or> terminal box \<Longrightarrow>
   fold (\<lambda>k b. snd (reasonSet (killReason k) b)) ks box = [] \<or>
   terminal (fold (\<lambda>k b. snd (reasonSet (killReason k) b)) ks box)"
proof (induction ks arbitrary: box)
  case (Cons k ks)
  have "snd (reasonSet (killReason k) box) = [] \<or> terminal (snd (reasonSet (killReason k) box))"
    using Cons.prems by (cases k) (auto simp: reasonSet_def terminal_def)
  then show ?case using Cons.IH by simp
qed simp

lemma resultOf_terminal: "reason = [] \<or> terminal reason \<Longrightarrow> terminal (rs_Status (resultOf e reason))"
  by (auto simp: resultOf_def mkResult_def Let_def terminal_def)

lemma superviseRun_grows: "superviseRun env s w = (r, s', w') \<Longrightarrow> grows w w' \<and> terminal (rs_Status r)"
  unfolding superviseRun_def
  by (auto simp: Let_def split: prod.splits if_splits dest!: grows_pumpAll
      intro!: resultOf_terminal kills_terminal intro: grows_trans)

definition baseDir :: "run_env \<Rightarrow> string" where
  "baseDir env = (if re_stateDir env = [] then re_tempDir env else re_stateDir env)"

lemma runExecute_spec:
  assumes "runExecute env job s w = (r, s', w')"
  shows "(\<exists>evs. wd_out w' = wd_out w @ evs \<and> quiet evs) \<and> terminal (rs_Status r) \<and>
    (\<not> re_rmFails env \<longrightarrow> wd_bodies w (workDir (baseDir env) (js_JobID job)) = None \<longrightarrow> wd_bodies w' = wd_bodies w)"
proof -
  let ?w0 = "progress (js_JobID job) 0 PhaseStarted (js_Shell job) w"
  let ?dir = "workDir (baseDir env) (js_JobID job)"
  have g0: "grows w ?w0" by (rule grows_progress)
  have quietly: ?thesis if "grows ?w0 w'" "terminal (rs_Status r)"
    using grows_trans [OF g0 that(1)] that(2) by (simp add: grows_def)
  have aborted: ?thesis if "abort job e s w1 = (r, s', w')" "grows ?w0 w1" for e w1
    using grows_abort [OF that(1)] grows_trans [OF that(2)] quietly by blast
  show ?thesis
  proof (cases "js_Body job = []")
    case True
    then show ?thesis using assms aborted by (simp add: runExecute_def Let_def)
  next
    case False
    show ?thesis
    proof (cases "resolveWith (re_os env) (js_Shell job) (re_look env)")
      case (Inl e)
      then show ?thesis using assms False aborted by (simp add: runExecute_def Let_def)
    next
      case (Inr ip)
      let ?st = "stageScript (re_tempDir env) (re_stage env) (re_stateDir env) (js_JobID job) (js_Body job) (ip_Ext ip) ?w0"
      note unfold = assms [unfolded runExecute_def Let_def] False Inr
      have staged: "snd ?st = ?w0 \<and> isl (fst ?st) \<or>
          snd ?st = ?w0\<lparr>wd_bodies := (wd_bodies ?w0)(?dir := None)\<rparr> \<and> isl (fst ?st) \<or>
          snd ?st = ?w0\<lparr>wd_bodies := (wd_bodies ?w0)(?dir \<mapsto> js_Body job)\<rparr> \<and> (\<exists>sc. fst ?st = Inr (?dir, sc))"
        by (auto simp: stageScript_def Let_def baseDir_def split: option.splits)
      then consider (same) e where "?st = (Inl e, ?w0)"
        | (gone) e where "?st = (Inl e, ?w0\<lparr>wd_bodies := (wd_bodies ?w0)(?dir := None)\<rparr>)"
        | (ok) sc where "?st = (Inr (?dir, sc), ?w0\<lparr>wd_bodies := (wd_bodies ?w0)(?dir \<mapsto> js_Body job)\<rparr>)"
        by (metis isl_def prod.collapse)
      then show ?thesis
      proof cases
        case same
        then have "abort job (''stage script: '' @ e) s ?w0 = (r, s', w')" using unfold by simp
        then show ?thesis using aborted by blast
      next
        case gone
        then have "abort job (''stage script: '' @ e) s (?w0\<lparr>wd_bodies := (wd_bodies ?w0)(?dir := None)\<rparr>) = (r, s', w')"
          using unfold by simp
        from grows_abort [OF this] show ?thesis
          using g0 by (fastforce simp: grows_def fun_upd_idem_iff)
      next
        case ok
        let ?w1 = "?w0\<lparr>wd_bodies := (wd_bodies ?w0)(?dir \<mapsto> js_Body job)\<rparr>"
        obtain w2 where w2: "grows ?w1 w2" "terminal (rs_Status r)" "w' = removeWork env ?dir w2"
          using unfold ok
          by (auto split: option.splits prod.splits dest!: grows_abort superviseRun_grows
              intro: grows_trans [OF grows_progress])
        then show ?thesis
          using g0 by (auto simp: grows_def removeWork_def fun_upd_idem_iff)
      qed
    qed
  qed
qed

lemma Run_reports: "\<exists>evs. wd_out (Run env job w) = wd_out w @ evs \<and> reportsOnce job evs"
proof -
  obtain r s1 w1 where ex: "runExecute env job (newChunkSink (js_JobID job) (js_EntryID job)) w = (r, s1, w1)"
    by (metis prod_cases3)
  obtain ok2 s2 w2 where e2: "sinkEof StreamStdout s1 w1 = (ok2, s2, w2)" by (metis prod_cases3)
  obtain ok3 s3 w3 where e3: "sinkEof StreamStderr s2 w2 = (ok3, s3, w3)" by (metis prod_cases3)
  let ?r = "r\<lparr>rs_DurationMS := re_ms env, rs_Truncated := isTruncated s1, rs_EntryID := js_EntryID job\<rparr>"
  let ?w4 = "progress (js_JobID job) 100 PhaseFinished (rs_Status ?r) w3"
  obtain acked where out: "wd_out (Run env job w) = wd_out ?w4 @ [EvResult (js_JobID job) ?r acked] @
      [EvAudit ''script.executed''
        [(''job_id'', DStr (js_JobID job)), (''shell'', DStr (js_Shell job)),
         (''sha256'', DStr (hexOf (re_sha256 env (map byteOf (js_Body job))))),
         (''status'', DStr (rs_Status ?r)), (''exit_code'', DInt (rs_ExitCode ?r)),
         (''duration_ms'', DInt (rs_DurationMS ?r)), (''truncated'', DBool (rs_Truncated ?r)),
         (''requested_by'', DStr (js_RequestedBy job))]]"
    using publishResult_out [of "js_JobID job" ?r ?w4]
    by (auto simp: Run_def ex e2 e3 auditEmit_def)
  have "grows w1 ?w4"
    by (rule grows_trans [OF grows_trans [OF grows_sinkEof [OF e2] grows_sinkEof [OF e3]] grows_progress])
  then obtain evs where evs: "wd_out ?w4 = wd_out w @ evs" "quiet evs" and t: "terminal (rs_Status r)"
    using runExecute_spec [OF ex] by (auto simp: grows_def)
  from evs t out show ?thesis unfolding reportsOnce_def by force
qed

interpretation script_run: job_handler "Run env" for env
  by unfold_locales (rule Run_reports)

section \<open>Framing\<close>

text \<open>The chunks among the events, and their bytes with the stream each belongs to.\<close>

fun chunksOf :: "job_event list \<Rightarrow> chunk list" where
  "chunksOf [] = []"
| "chunksOf (EvChunk c # evs) = c # chunksOf evs"
| "chunksOf (ev # evs) = chunksOf evs"

lemma chunksOf_append [simp]: "chunksOf (xs @ ys) = chunksOf xs @ chunksOf ys"
  by (induction xs rule: chunksOf.induct) auto

lemma chunksOf_map [simp]: "chunksOf (map EvChunk cs) = cs"
  by (induction cs) auto

definition tagged :: "(string \<times> bytes) list \<Rightarrow> (string \<times> char) list" where
  "tagged reads = concat (map (\<lambda>(st, p). map (Pair st) p) reads)"

lemma tagged_simps [simp]:
  "tagged [] = []" "tagged ((st, p) # reads) = map (Pair st) p @ tagged reads" "tagged (xs @ ys) = tagged xs @ tagged ys"
  by (simp_all add: tagged_def)

definition chunkReads :: "chunk list \<Rightarrow> (string \<times> bytes) list" where
  "chunkReads cs = map (\<lambda>c. (ck_Stream c, ck_Data c)) cs"

fun numbered :: "string \<Rightarrow> string \<Rightarrow> int \<Rightarrow> chunk list \<Rightarrow> bool" where
  "numbered j e n [] = True"
| "numbered j e n (c # cs) \<longleftrightarrow>
     ck_JobID c = j \<and> ck_EntryID c = e \<and> ck_Seq c = n + 1 \<and> numbered j e (n + 1) cs"

lemma numbered_append [simp]: "numbered j e n (xs @ ys) \<longleftrightarrow> numbered j e n xs \<and> numbered j e (n + int (length xs)) ys"
  by (induction xs arbitrary: n) (auto simp: algebra_simps)

definition dataChunk :: "chunk \<Rightarrow> bool" where
  "dataChunk c \<longleftrightarrow> \<not> ck_EOF c \<and> ck_Data c \<noteq> [] \<and> length (ck_Data c) \<le> MaxChunkBytes"

text \<open>
  What a stretch of framing did to a working sink: data chunks with consecutive numbers that
  carry exactly \<open>bytes\<close>.
\<close>

definition framed :: "(string \<times> char) list \<Rightarrow> chunkSink \<Rightarrow> world \<Rightarrow> chunkSink \<Rightarrow> world \<Rightarrow> bool" where
  "framed bs s w s' w' \<longleftrightarrow>
     (\<exists>cs. w' = w\<lparr>wd_out := wd_out w @ map EvChunk cs\<rparr> \<and>
        numbered (cs_jobID s) (cs_entryID s) (cs_seq s) cs \<and> list_all dataChunk cs \<and>
        tagged (chunkReads cs) = bs \<and> cs_seq s' = cs_seq s + int (length cs)) \<and>
     cs_jobID s' = cs_jobID s \<and> cs_entryID s' = cs_entryID s \<and>
     cs_written s' = cs_written s + length bs \<and> cs_stopped s' = cs_stopped s"

lemma framed_refl: "framed [] s w s w"
  unfolding framed_def by (intro conjI exI [of _ "[]"]) (auto simp: chunkReads_def)

lemma framed_trans:
  assumes "framed b1 s w s1 w1" and "framed b2 s1 w1 s2 w2"
  shows "framed (b1 @ b2) s w s2 w2"
proof -
  from assms obtain c1 c2 where c:
    "w1 = w\<lparr>wd_out := wd_out w @ map EvChunk c1\<rparr>" "w2 = w1\<lparr>wd_out := wd_out w1 @ map EvChunk c2\<rparr>"
    "numbered (cs_jobID s) (cs_entryID s) (cs_seq s) c1" "numbered (cs_jobID s1) (cs_entryID s1) (cs_seq s1) c2"
    "list_all dataChunk c1" "list_all dataChunk c2" "tagged (chunkReads c1) = b1" "tagged (chunkReads c2) = b2"
    "cs_seq s1 = cs_seq s + int (length c1)" "cs_seq s2 = cs_seq s1 + int (length c2)"
    unfolding framed_def by blast
  then show ?thesis
    using assms unfolding framed_def
    by (intro conjI exI [of _ "c1 @ c2"]) (auto simp: chunkReads_def)
qed

lemma send_ok:
  "wd_faults w = [] \<Longrightarrow> send st bs e s w =
     (True, s\<lparr>cs_seq := cs_seq s + 1\<rparr>,
      put (EvChunk \<lparr>ck_JobID = cs_jobID s, ck_Stream = st, ck_Seq = cs_seq s + 1, ck_Data = bs,
                    ck_EOF = e, ck_EntryID = cs_entryID s\<rparr>) w)"
  by (simp add: send_def publishChunk_def)

lemma framed_send:
  assumes "wd_faults w = []" and "p \<noteq> []" and "length p \<le> MaxChunkBytes"
    and "send st p False s w = (ok, s1, w1)"
  shows "framed (map (Pair st) p) s w (s1\<lparr>cs_written := cs_written s1 + length p\<rparr>) w1"
  using assms unfolding framed_def
  by (intro conjI exI [of _ "[\<lparr>ck_JobID = cs_jobID s, ck_Stream = st, ck_Seq = cs_seq s + 1,
        ck_Data = p, ck_EOF = False, ck_EntryID = cs_entryID s\<rparr>]"])
    (auto simp: send_ok put_def dataChunk_def chunkReads_def)

lemma framed_writeLoop:
  "wd_faults w = [] \<Longrightarrow> writeLoop st p s w = (ok, s', w') \<Longrightarrow>
   framed (map (Pair st) p) s w s' w' \<and> cs_truncated s' = cs_truncated s"
proof (induction st p s w rule: writeLoop.induct)
  case (1 st p s w)
  show ?case
  proof (cases "p = []")
    case True
    then show ?thesis using "1.prems" by (auto simp: writeLoop.simps framed_refl)
  next
    case False
    let ?n = "min (length p) MaxChunkBytes"
    obtain ok1 s1 w1 where snd1: "send st (take ?n p) False s w = (ok1, s1, w1)" by (metis prod_cases3)
    then have ok1: ok1 and w1: "wd_faults w1 = []" and tr: "cs_truncated s1 = cs_truncated s"
      using "1.prems"(1) by (auto simp: send_ok)
    let ?s2 = "s1\<lparr>cs_written := cs_written s1 + ?n\<rparr>"
    have rest: "writeLoop st (drop ?n p) ?s2 w1 = (ok, s', w')"
      using "1.prems"(2) False snd1 ok1 by (simp add: writeLoop.simps [of st p] Let_def)
    have "0 < ?n" using False by (simp add: MaxChunkBytes_def)
    then have f1: "framed (map (Pair st) (take ?n p)) s w ?s2 w1"
      using framed_send [OF "1.prems"(1) _ _ snd1] False by simp
    from "1.IH" [OF False refl snd1 [symmetric] refl refl ok1 w1 rest]
    have "framed (map (Pair st) (drop ?n p)) ?s2 w1 s' w'" and "cs_truncated s' = cs_truncated s" using tr by simp_all
    with framed_trans [OF f1] show ?thesis by (metis append_take_drop_id map_append)
  qed
qed

text \<open>A working sink, and the flag that says bytes were dropped.\<close>

definition sinkOK :: "chunkSink \<Rightarrow> bool" where
  "sinkOK s \<longleftrightarrow> cs_written s \<le> MaxJobOutputBytes \<and> (cs_truncated s \<longrightarrow> cs_written s = MaxJobOutputBytes)"

lemma framed_sinkWrite:
  assumes f: "wd_faults w = []" and s: "sinkOK s" "\<not> cs_stopped s" and wr: "sinkWrite st p s w = (ok, s', w')"
  defines "room \<equiv> MaxJobOutputBytes - cs_written s"
  shows "framed (take room (map (Pair st) p)) s w s' w' \<and> sinkOK s' \<and>
    (cs_truncated s' \<longleftrightarrow> cs_truncated s \<or> room < length p)"
proof (cases "p = [] \<or> cs_truncated s")
  case True
  then have "s' = s" "w' = w" using wr s by (auto simp: sinkWrite_def)
  then show ?thesis using True s framed_refl [of s w] by (auto simp: sinkOK_def room_def)
next
  case False
  show ?thesis
  proof (cases "room < length p")
    case True
    then have "writeLoop st (take room p) (s\<lparr>cs_truncated := True\<rparr>) w = (ok, s', w')"
      using wr False s by (simp add: sinkWrite_def room_def)
    from framed_writeLoop [OF f this] have "framed (map (Pair st) (take room p)) s w s' w'" "cs_truncated s'"
      by (simp_all add: framed_def)
    then show ?thesis using True s by (auto simp: sinkOK_def room_def framed_def take_map)
  next
    case ge: False
    then have "writeLoop st p s w = (ok, s', w')" using wr False s by (simp add: sinkWrite_def room_def)
    from framed_writeLoop [OF f this] show ?thesis
      using ge False s by (auto simp: sinkOK_def room_def framed_def)
  qed
qed

lemma framed_faults: "framed bs s w s' w' \<Longrightarrow> wd_faults w' = wd_faults w"
  by (auto simp: framed_def)

lemma framed_pumpAll:
  "wd_faults w = [] \<Longrightarrow> sinkOK s \<Longrightarrow> \<not> cs_stopped s \<Longrightarrow> pumpAll reads s w = (s', w') \<Longrightarrow>
   framed (take (MaxJobOutputBytes - cs_written s) (tagged reads)) s w s' w' \<and> sinkOK s' \<and>
   (cs_truncated s' \<longleftrightarrow> cs_truncated s \<or> MaxJobOutputBytes - cs_written s < length (tagged reads))"
proof (induction reads arbitrary: s w)
  case (Cons rd reads)
  obtain st p where rd: "rd = (st, p)" by (cases rd)
  obtain ok s1 w1 where wr: "sinkWrite st p s w = (ok, s1, w1)" by (metis prod_cases3)
  let ?room = "MaxJobOutputBytes - cs_written s" and ?room1 = "MaxJobOutputBytes - cs_written s1"
  from framed_sinkWrite [OF Cons.prems(1,2,3) wr]
  have f1: "framed (take ?room (map (Pair st) p)) s w s1 w1" and ok1: "sinkOK s1"
    and t1: "cs_truncated s1 \<longleftrightarrow> cs_truncated s \<or> ?room < length p" by auto
  have "\<not> cs_stopped s1" and w1: "wd_faults w1 = []" and wr1: "cs_written s1 = cs_written s + min ?room (length p)"
    using f1 Cons.prems framed_faults [OF f1] by (auto simp: framed_def min.commute)
  from Cons.IH [OF w1 ok1 this(1)] Cons.prems(4) rd wr
  have f2: "framed (take ?room1 (tagged reads)) s1 w1 s' w'" and "sinkOK s'"
    and t2: "cs_truncated s' \<longleftrightarrow> cs_truncated s1 \<or> ?room1 < length (tagged reads)" by auto
  moreover have "?room1 = ?room - length p" using wr1 by auto
  moreover have "sinkOK s" by (rule Cons.prems)
  ultimately show ?case
    using framed_trans [OF f1 f2] t1 t2 wr1 rd by (auto simp: sinkOK_def)
qed (simp add: framed_refl)

lemma pumpAll_stopped: "cs_stopped s \<Longrightarrow> pumpAll reads s w = (s, w)"
  by (induction reads) (auto simp: sinkWrite_def)

section \<open>The output of one run\<close>

text \<open>The child process is started: a body, an interpreter, and no error before the start.\<close>

definition childStarts :: "run_env \<Rightarrow> jobSpec \<Rightarrow> bool" where
  "childStarts env job \<longleftrightarrow>
     js_Body job \<noteq> [] \<and> \<not> isl (resolveWith (re_os env) (js_Shell job) (re_look env)) \<and>
     re_stage env = \<lparr>sf_mkdir = None, sf_chmodDir = None, sf_writeFile = None, sf_chmodFile = None\<rparr> \<and>
     re_pipes env = None \<and> re_start env = None"

definition eofChunk :: "jobSpec \<Rightarrow> string \<Rightarrow> int \<Rightarrow> chunk" where
  "eofChunk job stream n =
     \<lparr>ck_JobID = js_JobID job, ck_Stream = stream, ck_Seq = n, ck_Data = [], ck_EOF = True,
      ck_EntryID = js_EntryID job\<rparr>"

text \<open>Output that reached the server: all of it up to the cap, numbered, and closed.\<close>

definition outputComplete :: "run_env \<Rightarrow> jobSpec \<Rightarrow> job_event list \<Rightarrow> bool" where
  "outputComplete env job evs \<longleftrightarrow>
     (\<exists>cs r acked.
        chunksOf evs = cs @ [eofChunk job StreamStdout (int (length cs) + 1), eofChunk job StreamStderr (int (length cs) + 2)] \<and>
        numbered (js_JobID job) (js_EntryID job) 0 cs \<and> list_all dataChunk cs \<and>
        tagged (chunkReads cs) = take MaxJobOutputBytes (tagged (re_reads env)) \<and>
        EvResult (js_JobID job) r acked \<in> set evs \<and>
        (rs_Truncated r \<longleftrightarrow> MaxJobOutputBytes < length (tagged (re_reads env))))"

lemma superviseRun_framed:
  assumes "wd_faults w = []" and "sinkOK s" and "\<not> cs_stopped s" and "superviseRun env s w = (r, s', w')"
  shows "\<exists>s1. framed (take (MaxJobOutputBytes - cs_written s) (tagged (re_reads env))) s w s1 w' \<and>
    (s' = s1 \<or> s' = sinkStop s1) \<and>
    (cs_truncated s1 \<longleftrightarrow> cs_truncated s \<or> MaxJobOutputBytes - cs_written s < length (tagged (re_reads env)))"
proof -
  obtain s1 w1 where p: "pumpAll (re_reads env) s w = (s1, w1)" by (cases "pumpAll (re_reads env) s w")
  have "w' = w1 \<and> (s' = s1 \<or> s' = sinkStop s1)"
    using assms(4) p pumpAll_stopped [of "sinkStop s1"]
    by (auto simp: superviseRun_def Let_def sinkStop_def split: if_splits)
  then show ?thesis using framed_pumpAll [OF assms(1-3) p] by blast
qed

lemma stageScript_ok:
  "stageScript tmp \<lparr>sf_mkdir = None, sf_chmodDir = None, sf_writeFile = None, sf_chmodFile = None\<rparr> sd j b ext w =
     (let dir = workDir (if sd = [] then tmp else sd) j
      in (Inr (dir, dir @ ''/script'' @ ext), w\<lparr>wd_bodies := (wd_bodies w)(dir \<mapsto> b)\<rparr>))"
  by (simp add: stageScript_def Let_def)

lemma runExecute_framed:
  assumes st: "childStarts env job" and f: "wd_faults w = []"
    and ex: "runExecute env job (newChunkSink (js_JobID job) (js_EntryID job)) w = (r, s', w')"
  shows "\<exists>pre cs. wd_out w' = wd_out w @ pre @ map EvChunk cs \<and> chunksOf pre = [] \<and> wd_faults w' = [] \<and>
    numbered (js_JobID job) (js_EntryID job) 0 cs \<and> list_all dataChunk cs \<and>
    tagged (chunkReads cs) = take MaxJobOutputBytes (tagged (re_reads env)) \<and>
    cs_seq s' = int (length cs) \<and> cs_jobID s' = js_JobID job \<and> cs_entryID s' = js_EntryID job \<and>
    (cs_truncated s' \<longleftrightarrow> MaxJobOutputBytes < length (tagged (re_reads env)))"
proof -
  let ?s = "newChunkSink (js_JobID job) (js_EntryID job)"
  obtain ip where ip: "resolveWith (re_os env) (js_Shell job) (re_look env) = Inr ip"
    using st by (auto simp: childStarts_def isl_def sum.case_eq_if) (metis sum.exhaust_sel sum.disc(2))
  let ?w0 = "progress (js_JobID job) 0 PhaseStarted (js_Shell job) w"
  let ?dir = "workDir (baseDir env) (js_JobID job)"
  let ?w1 = "progress (js_JobID job) 10 PhaseRunning (ip_Path ip)
      (?w0\<lparr>wd_bodies := (wd_bodies ?w0)(?dir \<mapsto> js_Body job)\<rparr>)"
  obtain s2 w2 where sv: "superviseRun env ?s ?w1 = (r, s2, w2)" and s': "s' = s2" and w': "w' = removeWork env ?dir w2"
    using ex st ip by (auto simp: runExecute_def childStarts_def Let_def stageScript_ok baseDir_def split: prod.splits)
  have "wd_faults ?w1 = []" using f by (simp add: progress_def)
  moreover have "sinkOK ?s" "\<not> cs_stopped ?s" by (simp_all add: sinkOK_def newChunkSink_def)
  ultimately obtain s1 where s1:
    "framed (take MaxJobOutputBytes (tagged (re_reads env))) ?s ?w1 s1 w2" "s2 = s1 \<or> s2 = sinkStop s1"
    "cs_truncated s1 \<longleftrightarrow> MaxJobOutputBytes < length (tagged (re_reads env))"
    using superviseRun_framed [OF _ _ _ sv] by (auto simp: newChunkSink_def)
  from s1(1) obtain cs where cs: "w2 = ?w1\<lparr>wd_out := wd_out ?w1 @ map EvChunk cs\<rparr>"
    "numbered (js_JobID job) (js_EntryID job) 0 cs" "list_all dataChunk cs"
    "tagged (chunkReads cs) = take MaxJobOutputBytes (tagged (re_reads env))" "cs_seq s1 = int (length cs)"
    "cs_jobID s1 = js_JobID job" "cs_entryID s1 = js_EntryID job"
    by (auto simp: framed_def newChunkSink_def)
  let ?pre = "[EvProgress (js_JobID job) (wd_seq w + 1) 0 PhaseStarted (js_Shell job),
      EvProgress (js_JobID job) (wd_seq w + 2) 10 PhaseRunning (ip_Path ip)]"
  have "wd_out w' = wd_out w @ ?pre @ map EvChunk cs" "wd_faults w' = []"
    using cs(1) w' f by (auto simp: progress_def removeWork_def)
  moreover have "chunksOf ?pre = []" by simp
  ultimately show ?thesis
    using cs s1 s' by (intro exI [of _ ?pre] exI [of _ cs]) (auto simp: sinkStop_def)
qed

lemma Run_output:
  assumes st: "childStarts env job" and f: "wd_faults w = []"
  shows "\<exists>evs. wd_out (Run env job w) = wd_out w @ evs \<and> outputComplete env job evs"
proof -
  obtain r s1 w1 where ex: "runExecute env job (newChunkSink (js_JobID job) (js_EntryID job)) w = (r, s1, w1)"
    by (metis prod_cases3)
  obtain pre cs where o: "wd_out w1 = wd_out w @ pre @ map EvChunk cs" "chunksOf pre = []" "wd_faults w1 = []"
    "numbered (js_JobID job) (js_EntryID job) 0 cs" "list_all dataChunk cs"
    "tagged (chunkReads cs) = take MaxJobOutputBytes (tagged (re_reads env))"
    "cs_seq s1 = int (length cs)" "cs_jobID s1 = js_JobID job" "cs_entryID s1 = js_EntryID job"
    "cs_truncated s1 \<longleftrightarrow> MaxJobOutputBytes < length (tagged (re_reads env))"
    using runExecute_framed [OF st f ex] by blast
  let ?e1 = "eofChunk job StreamStdout (int (length cs) + 1)" and ?e2 = "eofChunk job StreamStderr (int (length cs) + 2)"
  let ?r = "r\<lparr>rs_DurationMS := re_ms env, rs_Truncated := isTruncated s1, rs_EntryID := js_EntryID job\<rparr>"
  obtain s2 w2 where e2: "sinkEof StreamStdout s1 w1 = (True, s2, w2)" "wd_out w2 = wd_out w1 @ [EvChunk ?e1]"
    "wd_faults w2 = []" "cs_seq s2 = int (length cs) + 1" "cs_jobID s2 = js_JobID job" "cs_entryID s2 = js_EntryID job"
    using o by (simp add: sinkEof_def send_ok eofChunk_def)
  obtain s3 w3 where e3: "sinkEof StreamStderr s2 w2 = (True, s3, w3)" "wd_out w3 = wd_out w2 @ [EvChunk ?e2]"
    using e2 by (simp add: sinkEof_def send_ok eofChunk_def)
  let ?w4 = "progress (js_JobID job) 100 PhaseFinished (rs_Status ?r) w3"
  obtain acked where out: "wd_out (publishResult (js_JobID job) ?r ?w4) = wd_out ?w4 @ [EvResult (js_JobID job) ?r acked]"
    using publishResult_out by blast
  define evs where "evs = drop (length (wd_out w)) (wd_out (Run env job w))"
  obtain ds where "wd_out (Run env job w) = wd_out w @ pre @ map EvChunk cs @ [EvChunk ?e1, EvChunk ?e2,
      EvProgress (js_JobID job) (wd_seq w3 + 1) 100 PhaseFinished (rs_Status ?r),
      EvResult (js_JobID job) ?r acked, EvAudit ''script.executed'' ds]"
    using out o(1) e2(2) e3(2) by (simp add: Run_def ex e2(1) e3(1) auditEmit_def progress_def)
  then show ?thesis
    unfolding outputComplete_def using o by (auto simp: isTruncated_def)
qed

lemma Run_bodies:
  assumes "\<not> re_rmFails env" and "wd_bodies w (workDir (baseDir env) (js_JobID job)) = None"
  shows "wd_bodies (Run env job w) = wd_bodies w"
proof -
  obtain r s1 w1 where ex: "runExecute env job (newChunkSink (js_JobID job) (js_EntryID job)) w = (r, s1, w1)"
    by (metis prod_cases3)
  obtain ok2 s2 w2 where e2: "sinkEof StreamStdout s1 w1 = (ok2, s2, w2)" by (metis prod_cases3)
  obtain ok3 s3 w3 where e3: "sinkEof StreamStderr s2 w2 = (ok3, s3, w3)" by (metis prod_cases3)
  have "wd_bodies w3 = wd_bodies w1" using grows_sinkEof [OF e2] grows_sinkEof [OF e3] by (simp add: grows_def)
  moreover have "wd_bodies w1 = wd_bodies w" using runExecute_spec [OF ex] assms by blast
  ultimately show ?thesis
    using publishResult_out by (simp add: Run_def ex e2 e3 auditEmit_def progress_def)
qed

section \<open>The environment\<close>

lemma map_of_setKey: "map_of (setKey k v kvs) = (map_of kvs)(k \<mapsto> v)"
  by (induction k v kvs rule: setKey.induct) (auto simp: fun_eq_iff)

lemma fst_setKey: "fst ` set (setKey k v kvs) = insert k (fst ` set kvs)"
  by (induction k v kvs rule: setKey.induct) auto

lemma distinct_setKey: "distinct (map fst kvs) \<Longrightarrow> distinct (map fst (setKey k v kvs))"
proof (induction k v kvs rule: setKey.induct)
  case (2 k v k' v' kvs)
  then show ?case using fst_setKey [of k v kvs] by (auto simp: image_iff)
qed simp

text \<open>The value of a name: the extra, if there is one under a usable name, else the last of the host.\<close>

definition envValue :: "string list \<Rightarrow> (string \<times> string) list \<Rightarrow> string \<Rightarrow> string option" where
  "envValue hostEnv extra k =
     (if k \<noteq> [] \<and> CHR ''='' \<notin> set k \<and> CHR 0x00 \<notin> set k \<and> k \<in> fst ` set extra then map_of extra k
      else if k \<noteq> [] \<and> envAllowed k then map_of (rev (List.map_filter (cutOn CHR ''='') hostEnv)) k
      else None)"

lemma map_filter_snoc: "List.map_filter f (xs @ [x]) = List.map_filter f xs @ (case f x of None \<Rightarrow> [] | Some y \<Rightarrow> [y])"
  by (simp add: List.map_filter_def split: option.splits)

lemma hostEnv_lookup:
  "map_of (fold keepHost hostEnv []) k = (if k \<noteq> [] \<and> envAllowed k then
     map_of (rev (List.map_filter (cutOn CHR ''='') hostEnv)) k else None)"
proof (induction hostEnv rule: rev_induct)
  case (snoc kv hostEnv)
  then show ?case
    by (cases "cutOn CHR ''='' kv") (auto simp: keepHost_def map_filter_snoc map_of_setKey)
qed (simp add: List.map_filter_def)

lemma extraEnv_lookup:
  "distinct (map fst extra) \<Longrightarrow> map_of (fold keepExtra extra kept) k =
     (if k \<noteq> [] \<and> CHR ''='' \<notin> set k \<and> CHR 0x00 \<notin> set k \<and> k \<in> fst ` set extra then map_of extra k
      else map_of kept k)"
proof (induction extra rule: rev_induct)
  case (snoc kv extra)
  then have "map_of extra (fst kv) = None" by (auto simp: map_of_eq_None_iff)
  with snoc show ?case
    by (cases kv) (auto simp: keepExtra_def map_of_setKey map_add_def split: option.splits)
qed simp

lemma keptEnv_lookup: "distinct (map fst extra) \<Longrightarrow> map_of (keptEnv hostEnv extra) k = envValue hostEnv extra k"
  by (simp add: keptEnv_def envValue_def extraEnv_lookup hostEnv_lookup)

lemma keptEnv_distinct: "distinct (map fst (keptEnv hostEnv extra))"
proof -
  have h: "distinct (map fst (fold keepHost hostEnv kvs))" if "distinct (map fst kvs)" for kvs
    using that by (induction hostEnv arbitrary: kvs) (auto simp: keepHost_def distinct_setKey split: option.splits)
  have "distinct (map fst (fold keepExtra extra kvs))" if "distinct (map fst kvs)" for kvs
    using that by (induction extra arbitrary: kvs) (auto simp: keepExtra_def distinct_setKey)
  with h show ?thesis by (simp add: keptEnv_def)
qed

lemma envValue_name: "envValue hostEnv extra k = Some v \<Longrightarrow> k \<noteq> [] \<and> CHR ''='' \<notin> set k"
proof -
  have "CHR ''='' \<notin> set k" if "map_of (rev (List.map_filter (cutOn CHR ''='') hostEnv)) k = Some v" for k v
    using map_of_SomeD [OF that] by (auto simp: List.map_filter_def dest: cutOn_Some)
  then show "envValue hostEnv extra k = Some v \<Longrightarrow> k \<noteq> [] \<and> CHR ''='' \<notin> set k"
    by (auto simp: envValue_def split: if_splits)
qed

lemma line_inj:
  assumes "CHR ''='' \<notin> set k" and "CHR ''='' \<notin> set k'" and "k @ ''='' @ v = k' @ ''='' @ v'"
  shows "k = k' \<and> v = v'"
proof -
  have "cutOn CHR ''='' (k @ ''='' @ v) = cutOn CHR ''='' (k' @ ''='' @ v')" using assms(3) by (rule arg_cong)
  then show ?thesis using cutOn_intro [OF assms(1)] cutOn_intro [OF assms(2)] by simp
qed

section \<open>Directory names\<close>

lemma safeRune_ok: "isAlnum (safeRune c) \<or> safeRune c \<in> {CHR ''-'', CHR ''_'', CHR ''.''}"
  by (simp add: safeRune_def)

lemma idRune_safe: "idRune c \<Longrightarrow> safeRune c = c"
  by (auto simp: idRune_def safeRune_def)

lemma validId_trim: "validId j \<Longrightarrow> trimBy (\<lambda>c. c = CHR ''.'') j = j"
proof (rule trimBy_id)
  assume v: "validId j"
  have "\<not> (hd j = CHR ''.'')" if ne: "j \<noteq> []"
  proof
    assume "hd j = CHR ''.''"
    then obtain t where "j = CHR ''.'' # t" using ne by (cases j) auto
    then have "[] \<in> set (splitOn CHR ''.'' j)" by simp
    with v show False by (simp add: validId_iff)
  qed
  moreover have "\<not> (last j = CHR ''.'')" if ne: "j \<noteq> []"
  proof
    assume "last j = CHR ''.''"
    then obtain t where "j = t @ CHR ''.'' # []" using ne by (metis append_butlast_last_id)
    then have "[] \<in> set (splitOn CHR ''.'' j)" using splitOn_append [of "CHR ''.''" t "[]"] by simp
    with v show False by (simp add: validId_iff)
  qed
  ultimately show "j = [] \<or> hd j \<noteq> CHR ''.'' \<and> last j \<noteq> CHR ''.''" by blast
qed

lemma map_safeRune_valid: "validId j \<Longrightarrow> map safeRune j = j"
  by (rule map_idI) (auto simp: validId_iff intro: idRune_safe)

lemma safeName_valid: "validId j \<Longrightarrow> safeName j = (if 96 < length j then take 96 j else j)"
  by (auto simp: safeName_def map_safeRune_valid validId_trim validId_iff Let_def)

lemma firstFound_split:
  "firstFound look cs = Some path \<Longrightarrow>
   \<exists>pre c post. cs = pre @ c # post \<and> list_all (\<lambda>x. look x = None) pre \<and> look c = Some path"
proof (induction cs)
  case (Cons c cs)
  show ?case
  proof (cases "look c")
    case None
    with Cons obtain pre c' post where "cs = pre @ c' # post" "list_all (\<lambda>x. look x = None) pre" "look c' = Some path"
      by auto
    with None show ?thesis by (intro exI [of _ "c # pre"]) auto
  next
    case (Some p)
    then have "c # cs = [] @ c # cs \<and> list_all (\<lambda>x. look x = None) [] \<and> look c = Some path"
      using Cons.prems by simp
    then show ?thesis by blast
  qed
qed simp

section \<open>Properties\<close>

definition demoHash :: hasher where
  "demoHash bs = replicate 32 0"

definition demoEnv :: run_env where
  "demoEnv =
     \<lparr>re_os = Unix, re_stateDir = ''/var/lib/everwas'', re_tempDir = ''/tmp'', re_sha256 = demoHash,
      re_look = (\<lambda>c. if c = ''sh'' then Some ''/bin/sh'' else None),
      re_stage = \<lparr>sf_mkdir = None, sf_chmodDir = None, sf_writeFile = None, sf_chmodFile = None\<rparr>,
      re_pipes = None, re_start = None, re_kills = [KillTimeout, KillCancelled],
      re_reads = [(''stdout'', ''hi''), (''stderr'', ''no'')], re_drained = False,
      re_late = [(''stdout'', ''late'')], re_wait = Some (ExitError (-1)), re_rmFails = False, re_ms = 12\<rparr>"

definition demoJob :: jobSpec where
  "demoJob = \<lparr>js_JobID = ''j1'', js_Kind = ''script.run'', js_Shell = ''auto'', js_Body = ''echo hi'',
     js_TimeoutS = 60, js_Env = [], js_RequestedBy = ''ops'', js_EntryID = ''nightly''\<rparr>"

definition emptyWorld :: world where
  "emptyWorld = \<lparr>wd_out = [], wd_faults = [], wd_nacks = [], wd_seq = 0, wd_bodies = Map.empty\<rparr>"

lemma demo_starts: "childStarts demoEnv demoJob"
proof -
  have "canonicalShell Unix ''auto'' = ''bash''"
    by (simp add: canonicalShell_def Let_def trimBy_def trimLeftBy_def trimRightBy_def isSpace_def toLower_def
        lowerChar_def isUpper_def)
  then show ?thesis by (simp add: childStarts_def demoEnv_def demoJob_def resolveWith_def Let_def)
qed

text \<open>
  C8. The output of a script reaches the server whole. When the child was started and no publish
  failed, the chunks of the run carry exactly the bytes the pumps read, in their order and on
  their streams, up to the cap of 8 MiB; they are numbered from 1 without a gap, none is empty or
  above 256 KiB, the two end markers come last even when a reader was abandoned, and the result
  says truncated exactly when bytes were dropped.
\<close>

theorem Run_output_complete:
  assumes "childStarts env job" and "wd_faults w = []"
  shows "\<exists>evs. wd_out (Run env job w) = wd_out w @ evs \<and> outputComplete env job evs"
  by (rule Run_output [OF assms])

theorem Run_output_complete_witness:
  "\<exists>evs. wd_out (Run demoEnv demoJob emptyWorld) = evs \<and> outputComplete demoEnv demoJob evs"
  using Run_output_complete [OF demo_starts, of emptyWorld] by (simp add: emptyWorld_def)

text \<open>
  A script run publishes one result, whatever happens. On every path, from an empty body to
  a killed process and with any publish failing, a run hands over exactly one result, under the
  job's id and its schedule entry, with one of the four terminal statuses.
\<close>

theorem Run_publishes_one_result:
  "\<exists>r. resultsOf (wd_out (Run env job w)) = resultsOf (wd_out w) @ [(js_JobID job, r)] \<and>
     rs_EntryID r = js_EntryID job \<and> rs_Status r \<in> {StatusSucceeded, StatusFailed, StatusTimeout, StatusCancelled}"
  using script_run.one_result [of env job w] by (simp add: terminal_def)

text \<open>
  No body stays behind. A run that can remove its directory leaves the staged bodies on disk
  exactly as it found them, on the failing paths too.
\<close>

theorem Run_removes_body:
  assumes "\<not> re_rmFails env" and "wd_bodies w (workDir (baseDir env) (js_JobID job)) = None"
  shows "wd_bodies (Run env job w) = wd_bodies w"
  by (rule Run_bodies [OF assms])

theorem Run_removes_body_witness: "wd_bodies (Run demoEnv demoJob emptyWorld) = Map.empty"
  using Run_removes_body [of demoEnv emptyWorld demoJob] by (simp add: demoEnv_def emptyWorld_def)

text \<open>
  The environment of a job is exactly the allowed part of the host's, overridden by the
  server's extras under usable names: sorted, without a repeated line, and nothing else.
\<close>

theorem scrubEnv_exact:
  assumes "distinct (map fst extra)"
  shows "sorted (scrubEnv hostEnv extra) \<and> distinct (scrubEnv hostEnv extra) \<and>
    set (scrubEnv hostEnv extra) = {k @ ''='' @ v | k v. envValue hostEnv extra k = Some v}"
proof -
  let ?kept = "keptEnv hostEnv extra" and ?line = "\<lambda>(k, v). k @ ''='' @ v"
  have name: "CHR ''='' \<notin> set k" if "(k, v) \<in> set ?kept" for k v
    using that envValue_name keptEnv_lookup [OF assms] keptEnv_distinct by (metis map_of_is_SomeI)
  have "inj_on ?line (set ?kept)"
  proof (rule inj_onI, clarify)
    fix k v k' v'
    assume "(k, v) \<in> set ?kept" "(k', v') \<in> set ?kept" "k @ ''='' @ v = k' @ ''='' @ v'"
    then show "k = k' \<and> v = v'" using line_inj name by blast
  qed
  moreover have "distinct ?kept" using keptEnv_distinct by (metis distinct_map)
  ultimately have "distinct (map ?line ?kept)" by (simp add: distinct_map)
  moreover have "set (map ?line ?kept) = {k @ ''='' @ v | k v. envValue hostEnv extra k = Some v}"
  proof -
    have "(k, v) \<in> set ?kept \<longleftrightarrow> envValue hostEnv extra k = Some v" for k v
      using keptEnv_lookup [OF assms] map_of_eq_Some_iff [OF keptEnv_distinct] by metis
    then show ?thesis by auto
  qed
  ultimately show ?thesis by (simp add: scrubEnv_def)
qed

theorem scrubEnv_exact_witness:
  "set (scrubEnv [''PATH=/bin'', ''SECRET=x''] [(''PATH'', ''/opt'')]) =
     {k @ ''='' @ v | k v. envValue [''PATH=/bin'', ''SECRET=x''] [(''PATH'', ''/opt'')] k = Some v}"
  using scrubEnv_exact [of "[(''PATH'', ''/opt'')]" "[''PATH=/bin'', ''SECRET=x'']"] by simp

text \<open>
  Names are folded when the host's environment is filtered but not when the extras override
  it: a server's PATH and a Windows host's Path are both kept, the host's last, and of names
  equal up to case it is the last one that a Windows process sees.
\<close>

theorem scrubEnv_case_clash:
  "scrubEnv [''Path=C:bin''] [(''PATH'', ''C:tool'')] = [''PATH=C:tool'', ''Path=C:bin'']"
  by code_simp

text \<open>
  Work directories. The name made from a job id is a non-empty path component of at most 96
  bytes of letters, digits, dash, underscore and dot that does not begin with a dot; and a valid
  identifier of at most 96 bytes names its own directory, so two such jobs never share one.
\<close>

theorem safeName_component:
  "list_all (\<lambda>c. isAlnum c \<or> c \<in> {CHR ''-'', CHR ''_'', CHR ''.''}) (safeName j) \<and>
   safeName j \<noteq> [] \<and> length (safeName j) \<le> 96 \<and> hd (safeName j) \<noteq> CHR ''.'' \<and>
   (validId j \<and> length j \<le> 96 \<longrightarrow> safeName j = j)"
proof -
  let ?t = "trimBy (\<lambda>c. c = CHR ''.'') (map safeRune j)"
  let ?n = "if ?t = [] then ''job'' else ?t"
  have sub: "set ?t \<subseteq> safeRune ` set j" using set_trimBy by fastforce
  have all: "list_all (\<lambda>c. isAlnum c \<or> c \<in> {CHR ''-'', CHR ''_'', CHR ''.''}) ?n"
    using sub safeRune_ok by (fastforce simp: list_all_iff isAlnum_def isLower_def)
  have hd: "hd ?n \<noteq> CHR ''.''" using trimBy_ends(1) [of "\<lambda>c. c = CHR ''.''" "map safeRune j"] by auto
  have ne: "?n \<noteq> []" by simp
  have sn: "safeName j = take 96 ?n" by (simp add: safeName_def Let_def)
  have "list_all (\<lambda>c. isAlnum c \<or> c \<in> {CHR ''-'', CHR ''_'', CHR ''.''}) (take 96 ?n)"
    using all by (rule list_all_take)
  moreover have "take 96 ?n \<noteq> []" "length (take 96 ?n) \<le> 96" "hd (take 96 ?n) = hd ?n"
    using ne by (simp_all only: hd_take) (auto simp: take_eq_Nil)
  ultimately show ?thesis using hd safeName_valid [of j] unfolding sn by auto
qed

theorem safeName_component_witness: "safeName ''job-7.a'' = ''job-7.a'' \<and> safeName ''..'' \<noteq> []"
proof -
  have "validId ''job-7.a''" by code_simp
  then show ?thesis using safeName_component [of "''job-7.a''"] safeName_component [of "''..''"] by simp
qed

text \<open>
  The timeout of a script is positive and at most a day, and the server's own value when that
  is below a day, for every value that a duration can hold in seconds.
\<close>

theorem jobTimeout_clamped:
  assumes "sec \<le> 9223372036"
  shows "0 < jobTimeout sec \<and> jobTimeout sec \<le> MaxTimeout \<and>
    (0 < sec \<and> sec \<le> 86400 \<longrightarrow> jobTimeout sec = sec * second)"
proof (cases "0 < sec")
  case True
  then have "seconds sec = sec * second" using assms by (intro seconds_small) simp
  then show ?thesis using True by (auto simp: jobTimeout_def MaxTimeout_def second_def)
qed (simp add: jobTimeout_def MaxTimeout_def DefaultTimeout_def second_def)

theorem jobTimeout_clamped_witness: "jobTimeout 90 = 90 * second"
  using jobTimeout_clamped [of 90] by simp

text \<open>
  Beyond that range the clamp fails: the product with a second wraps around, a negative
  duration passes the comparison with the maximum, and the job is killed as timed out at once.
\<close>

theorem jobTimeout_overflow: "jobTimeout 9223372037 < 0"
  by (simp add: jobTimeout_def seconds_def wrap64_def MaxTimeout_def second_def)

text \<open>
  An interpreter is only ever the first candidate of the shell's table row that the host has,
  with that row's arguments before the script and its extension.
\<close>

theorem resolveWith_first:
  assumes "resolveWith os shell look = Inr ip"
  shows "\<exists>sp pre c post. (canonicalShell os shell, sp) \<in> set (interpTable os) \<and>
    sp_candidates sp = pre @ c # post \<and> list_all (\<lambda>x. look x = None) pre \<and> look c = Some (ip_Path ip) \<and>
    Argv ip script = ip_Path ip # sp_args sp @ [script] \<and> ip_Ext ip = sp_ext sp"
proof -
  from assms obtain sp path where sp: "map_of (interpTable os) (canonicalShell os shell) = Some sp"
    "firstFound look (sp_candidates sp) = Some path"
    "ip = \<lparr>ip_Shell = canonicalShell os shell, ip_Path = path, ip_Args = sp_args sp, ip_Ext = sp_ext sp\<rparr>"
    by (auto simp: resolveWith_def Let_def split: option.splits)
  from firstFound_split [OF sp(2)] map_of_SomeD [OF sp(1)] sp(3) show ?thesis
    by (fastforce simp: Argv_def)
qed

theorem resolveWith_first_witness:
  "\<exists>sp. (''bash'', sp) \<in> set (interpTable Unix) \<and> sp_ext sp = ''.sh''"
proof -
  have r: "resolveWith Unix ''bash'' (\<lambda>c. if c = ''sh'' then Some ''/bin/sh'' else None) =
      Inr \<lparr>ip_Shell = ''bash'', ip_Path = ''/bin/sh'', ip_Args = [], ip_Ext = ''.sh''\<rparr>" by code_simp
  have "canonicalShell Unix ''bash'' = ''bash''" by code_simp
  then show ?thesis using resolveWith_first [OF r, of "''s''"] by auto
qed

end
