(* ===== verification/Job_Registry.thy ===== *)
theory Job_Registry
  imports Scripts_Correct
begin

text \<open>
  The registry of running jobs, \<open>agent/internal/jobs/inflight.go\<close>: worker slots, the handles of
  running jobs, the bounded set of finished ids, cancellation and shutdown.

  The critical sections of the source are functions on the record \<open>registry\<close>; \<open>reserve\<close> is
  their composition when nothing else runs. The goroutines that interleave them (callers blocked
  for a slot, jobs running, releases half done) are the record \<open>job_system\<close>, and \<open>job_step\<close> is
  the relation that lets any of them take its next critical section.

  A context is the number of the base context it derives from; \<open>rg_dead\<close> holds the cancelled
  ones. The \<open>slots\<close> channel is its number of tokens, the \<open>WaitGroup\<close> its counter.
\<close>

section \<open>The registry\<close>

definition maxConcurrentJobs :: nat where
  "maxConcurrentJobs = 3"

definition recentlyDoneCap :: nat where
  "recentlyDoneCap = 1024"

datatype reserve_error = ErrJobRunning | ErrJobDone | ErrStopping

record jobHandle =
  jh_spec :: jobSpec
  jh_kind :: string
  jh_base :: nat
  jh_cancelled :: bool

record registry =
  rg_inflight :: "(string \<times> jobHandle) list"
  rg_done :: "string list"
  rg_doneOrder :: "string list"
  rg_slots :: nat
  rg_base :: nat
  rg_dead :: "nat list"
  rg_stopping :: bool
  rg_wg :: nat

text \<open>\<open>ensure\<close>: the registry as it is first built.\<close>

definition newRegistry :: registry where
  "newRegistry = \<lparr>rg_inflight = [], rg_done = [], rg_doneOrder = [], rg_slots = 0, rg_base = 0,
     rg_dead = [], rg_stopping = False, rg_wg = 0\<rparr>"

definition startJobs :: "registry \<Rightarrow> registry" where
  "startJobs r =
     (if rg_stopping r \<or> rg_base r \<in> set (rg_dead r)
      then r\<lparr>rg_base := rg_base r + 1, rg_stopping := False\<rparr> else r)"

text \<open>\<open>reserve\<close>: the check before the wait, and the registration under the lock after it.\<close>

definition reserveCheck :: "string \<Rightarrow> registry \<Rightarrow> reserve_error + nat" where
  "reserveCheck jobID r =
     (if rg_stopping r then Inl ErrStopping
      else if map_of (rg_inflight r) jobID \<noteq> None then Inl ErrJobRunning
      else Inr (rg_base r))"

definition takeSlot :: "registry \<Rightarrow> registry" where
  "takeSlot r = r\<lparr>rg_slots := rg_slots r + 1\<rparr>"

definition freeSlot :: "registry \<Rightarrow> registry" where
  "freeSlot r = r\<lparr>rg_slots := rg_slots r - 1\<rparr>"

definition reserveCommit :: "jobSpec \<Rightarrow> nat \<Rightarrow> registry \<Rightarrow> (reserve_error + unit) \<times> registry" where
  "reserveCommit spec base r =
     (if rg_stopping r then (Inl ErrStopping, r)
      else if map_of (rg_inflight r) (js_JobID spec) \<noteq> None then (Inl ErrJobRunning, r)
      else if js_JobID spec \<in> set (rg_done r) then (Inl ErrJobDone, r)
      else (Inr (),
            r\<lparr>rg_inflight := (js_JobID spec, \<lparr>jh_spec = spec, jh_kind = js_Kind spec, jh_base = base,
                                 jh_cancelled = False\<rparr>) # rg_inflight r,
              rg_wg := rg_wg r + 1\<rparr>))"

text \<open>Whether a failed registration gives its slot back: not on the branch for a finished job.\<close>

fun returnsSlot :: "reserve_error \<Rightarrow> bool" where
  "returnsSlot ErrStopping = True"
| "returnsSlot ErrJobRunning = True"
| "returnsSlot ErrJobDone = False"

text \<open>\<open>reserve\<close> with nothing else running: \<open>None\<close> when it blocks for a slot.\<close>

definition reserve :: "jobSpec \<Rightarrow> registry \<Rightarrow> ((reserve_error + unit) \<times> registry) option" where
  "reserve spec r =
     (case reserveCheck (js_JobID spec) r of
        Inl e \<Rightarrow> Some (Inl e, r)
      | Inr base \<Rightarrow>
          if rg_slots r < maxConcurrentJobs
          then (case reserveCommit spec base (takeSlot r) of
                  (Inl e, r2) \<Rightarrow> Some (Inl e, if returnsSlot e then freeSlot r2 else r2)
                | (Inr _, r2) \<Rightarrow> Some (Inr (), r2))
          else if base \<in> set (rg_dead r) then Some (Inl ErrStopping, r)
          else None)"

text \<open>The release function: its locked part, and what follows it.\<close>

definition deleteJob :: "string \<Rightarrow> registry \<Rightarrow> registry" where
  "deleteJob jobID r = r\<lparr>rg_inflight := filter (\<lambda>h. fst h \<noteq> jobID) (rg_inflight r)\<rparr>"

definition releaseRest :: "registry \<Rightarrow> registry" where
  "releaseRest r = (freeSlot r)\<lparr>rg_wg := rg_wg r - 1\<rparr>"

definition release :: "string \<Rightarrow> registry \<Rightarrow> registry" where
  "release jobID r = releaseRest (deleteJob jobID r)"

definition markDone :: "string \<Rightarrow> registry \<Rightarrow> registry" where
  "markDone jobID r =
     (if jobID \<in> set (rg_done r) then r
      else let order = rg_doneOrder r @ [jobID];
               out = take (length order - recentlyDoneCap) order
           in r\<lparr>rg_done := filter (\<lambda>j. j \<notin> set out) (jobID # rg_done r),
                rg_doneOrder := drop (length order - recentlyDoneCap) order\<rparr>)"

definition alreadyDone :: "string \<Rightarrow> registry \<Rightarrow> bool" where
  "alreadyDone jobID r \<longleftrightarrow> jobID \<in> set (rg_done r)"

text \<open>\<open>CancelJob\<close> with the script runner's registry.\<close>

definition cancelHandle :: "string \<Rightarrow> registry \<Rightarrow> registry" where
  "cancelHandle jobID r =
     r\<lparr>rg_inflight := map (\<lambda>h. if fst h = jobID then (fst h, (snd h)\<lparr>jh_cancelled := True\<rparr>) else h) (rg_inflight r)\<rparr>"

definition CancelJob :: "string \<Rightarrow> registry \<Rightarrow> running \<Rightarrow> bool \<times> registry \<times> running" where
  "CancelJob jobID r run =
     (let (found, run') = runnerCancel jobID run
      in (found \<or> map_of (rg_inflight r) jobID \<noteq> None, cancelHandle jobID r, run'))"

definition RunningJobs :: "registry \<Rightarrow> string list" where
  "RunningJobs r = sort (map fst (rg_inflight r))"

definition reportInterruptedSpec :: "jobSpec \<Rightarrow> world \<Rightarrow> world" where
  "reportInterruptedSpec spec w =
     PublishResult spec (mkResult StatusCancelled (-1))
       (PublishStderr spec (''everwas-agent: the agent stopped before this job finished'' @ nl) w)"

definition bareSpec :: "string \<Rightarrow> jobSpec" where
  "bareSpec jobID = \<lparr>js_JobID = jobID, js_Kind = [], js_Shell = [], js_Body = [], js_TimeoutS = 0,
     js_Env = [], js_RequestedBy = [], js_EntryID = []\<rparr>"

definition specOf :: "registry \<Rightarrow> string \<Rightarrow> jobSpec" where
  "specOf r jobID = (case map_of (rg_inflight r) jobID of Some h \<Rightarrow> jh_spec h | None \<Rightarrow> bareSpec jobID)"

definition reportInterrupted :: "registry \<Rightarrow> string \<Rightarrow> world \<Rightarrow> world" where
  "reportInterrupted r jobID w = reportInterruptedSpec (specOf r jobID) w"

text \<open>
  \<open>drainJobs\<close>. The jobs get a grace period, then their contexts are cancelled, and what is left
  after a second period is reported. The arguments say whether the wait group reached zero in the
  first and in the second period, and what the registry was when each ended.
\<close>

definition stopAccepting :: "registry \<Rightarrow> registry" where
  "stopAccepting r = r\<lparr>rg_stopping := True\<rparr>"

definition stopBase :: "registry \<Rightarrow> registry" where
  "stopBase r = r\<lparr>rg_dead := rg_base r # rg_dead r\<rparr>"

definition reportRemaining :: "registry \<Rightarrow> world \<Rightarrow> world" where
  "reportRemaining r w = fold (reportInterrupted r) (RunningJobs r) w"

definition drainJobs :: "bool \<Rightarrow> bool \<Rightarrow> registry \<Rightarrow> world \<Rightarrow> world" where
  "drainJobs inGrace afterCancel rEnd w =
     (if inGrace \<or> afterCancel then w else reportRemaining rEnd w)"

section \<open>The goroutines\<close>

datatype origin = FromStream | FromScheduler | FromCommand

text \<open>
  Callers that passed the first check and wait for a slot, with the base context they saw;
  callers that hold a slot and have not registered; running jobs; jobs about to be deleted from
  the registry; the number of releases and of refused callers that have not yet given their slot
  back. The last three fields record the history: the jobs started, the ids that left the
  finished set, and the slots a refusal kept.
\<close>

record job_system =
  sy_reg :: registry
  sy_waiting :: "(jobSpec \<times> origin \<times> nat) list"
  sy_holding :: "(jobSpec \<times> origin \<times> nat) list"
  sy_running :: "(jobSpec \<times> origin) list"
  sy_releasing :: "jobSpec list"
  sy_freeing :: nat
  sy_returning :: nat
  sy_started :: "(string \<times> origin) list"
  sy_evicted :: "string list"
  sy_kept :: nat

definition newSystem :: job_system where
  "newSystem = \<lparr>sy_reg = newRegistry, sy_waiting = [], sy_holding = [], sy_running = [], sy_releasing = [],
     sy_freeing = 0, sy_returning = 0, sy_started = [], sy_evicted = [], sy_kept = 0\<rparr>"

definition evictedBy :: "string \<Rightarrow> registry \<Rightarrow> string list" where
  "evictedBy jobID r =
     (if jobID \<in> set (rg_done r) then []
      else take (length (rg_doneOrder r) + 1 - recentlyDoneCap) (rg_doneOrder r @ [jobID]))"

inductive job_step :: "job_system \<Rightarrow> job_system \<Rightarrow> bool" where
  job_enter: "reserveCheck (js_JobID spec) (sy_reg s) = Inr base \<Longrightarrow>
    job_step s (s\<lparr>sy_waiting := sy_waiting s @ [(spec, og, base)]\<rparr>)"
| job_acquire: "sy_waiting s = xs @ q # ys \<Longrightarrow> rg_slots (sy_reg s) < maxConcurrentJobs \<Longrightarrow>
    job_step s (s\<lparr>sy_waiting := xs @ ys, sy_holding := sy_holding s @ [q], sy_reg := takeSlot (sy_reg s)\<rparr>)"
| job_giveUp: "sy_waiting s = xs @ (spec, og, base) # ys \<Longrightarrow> base \<in> set (rg_dead (sy_reg s)) \<Longrightarrow>
    job_step s (s\<lparr>sy_waiting := xs @ ys\<rparr>)"
| job_commit: "sy_holding s = xs @ (spec, og, base) # ys \<Longrightarrow> reserveCommit spec base (sy_reg s) = (Inr u, r) \<Longrightarrow>
    job_step s (s\<lparr>sy_holding := xs @ ys, sy_reg := r, sy_running := sy_running s @ [(spec, og)],
      sy_started := sy_started s @ [(js_JobID spec, og)]\<rparr>)"
| job_refuse: "sy_holding s = xs @ (spec, og, base) # ys \<Longrightarrow> reserveCommit spec base (sy_reg s) = (Inl e, r) \<Longrightarrow>
    returnsSlot e \<Longrightarrow>
    job_step s (s\<lparr>sy_holding := xs @ ys, sy_reg := r, sy_returning := sy_returning s + 1\<rparr>)"
| job_refuseKept: "sy_holding s = xs @ (spec, og, base) # ys \<Longrightarrow> reserveCommit spec base (sy_reg s) = (Inl e, r) \<Longrightarrow>
    \<not> returnsSlot e \<Longrightarrow>
    job_step s (s\<lparr>sy_holding := xs @ ys, sy_reg := r, sy_kept := sy_kept s + 1\<rparr>)"
| job_returnSlot: "sy_returning s = Suc n \<Longrightarrow>
    job_step s (s\<lparr>sy_returning := n, sy_reg := freeSlot (sy_reg s)\<rparr>)"
| job_mark: "sy_running s = xs @ (spec, FromStream) # ys \<Longrightarrow>
    job_step s (s\<lparr>sy_running := xs @ ys, sy_releasing := sy_releasing s @ [spec],
      sy_reg := markDone (js_JobID spec) (sy_reg s),
      sy_evicted := sy_evicted s @ evictedBy (js_JobID spec) (sy_reg s)\<rparr>)"
| job_finish: "sy_running s = xs @ (spec, og) # ys \<Longrightarrow> og \<noteq> FromStream \<Longrightarrow>
    job_step s (s\<lparr>sy_running := xs @ ys, sy_releasing := sy_releasing s @ [spec]\<rparr>)"
| job_delete: "sy_releasing s = xs @ spec # ys \<Longrightarrow>
    job_step s (s\<lparr>sy_releasing := xs @ ys, sy_reg := deleteJob (js_JobID spec) (sy_reg s), sy_freeing := sy_freeing s + 1\<rparr>)"
| job_free: "sy_freeing s = Suc n \<Longrightarrow>
    job_step s (s\<lparr>sy_freeing := n, sy_reg := releaseRest (sy_reg s)\<rparr>)"
| job_cancel: "job_step s (s\<lparr>sy_reg := cancelHandle jobID (sy_reg s)\<rparr>)"
| job_stop: "job_step s (s\<lparr>sy_reg := stopAccepting (sy_reg s)\<rparr>)"
| job_stopBase: "job_step s (s\<lparr>sy_reg := stopBase (sy_reg s)\<rparr>)"
| job_restart: "job_step s (s\<lparr>sy_reg := startJobs (sy_reg s)\<rparr>)"

inductive job_reach :: "job_system \<Rightarrow> job_system \<Rightarrow> bool" for s0 where
  job_refl: "job_reach s0 s0"
| job_trans: "job_reach s0 s \<Longrightarrow> job_step s s' \<Longrightarrow> job_reach s0 s'"

section \<open>Slots and handles\<close>

text \<open>Every token in the slot channel is accounted for, and every handle is a live job.\<close>

definition liveIDs :: "job_system \<Rightarrow> string list" where
  "liveIDs s = map (js_JobID \<circ> fst) (sy_running s) @ map js_JobID (sy_releasing s)"

definition slotsInv :: "job_system \<Rightarrow> bool" where
  "slotsInv s \<longleftrightarrow>
     rg_slots (sy_reg s) = length (sy_holding s) + length (sy_running s) + length (sy_releasing s) +
       sy_freeing s + sy_returning s + sy_kept s \<and>
     rg_slots (sy_reg s) \<le> maxConcurrentJobs \<and>
     rg_wg (sy_reg s) = length (sy_running s) + length (sy_releasing s) + sy_freeing s \<and>
     mset (map fst (rg_inflight (sy_reg s))) = mset (liveIDs s) \<and> distinct (liveIDs s)"

lemma reserveCommit_Inl: "reserveCommit spec base r = (Inl e, r') \<Longrightarrow> r' = r"
  by (auto simp: reserveCommit_def split: if_splits)

lemma reserveCommit_Inr:
  assumes "reserveCommit spec base r = (Inr u, r')"
  shows "js_JobID spec \<notin> fst ` set (rg_inflight r)" and "js_JobID spec \<notin> set (rg_done r)" and "\<not> rg_stopping r"
    and "map fst (rg_inflight r') = js_JobID spec # map fst (rg_inflight r)" and "rg_wg r' = rg_wg r + 1"
    and "rg_slots r' = rg_slots r" and "rg_done r' = rg_done r" and "rg_doneOrder r' = rg_doneOrder r"
  using assms by (auto simp: reserveCommit_def map_of_eq_None_iff split: if_splits)

lemma markDone_frame [simp]:
  "rg_slots (markDone j r) = rg_slots r" "rg_wg (markDone j r) = rg_wg r" "rg_inflight (markDone j r) = rg_inflight r"
  by (simp_all add: markDone_def Let_def)

lemma cancelHandle_frame [simp]:
  "rg_slots (cancelHandle j r) = rg_slots r" "rg_wg (cancelHandle j r) = rg_wg r"
  "rg_done (cancelHandle j r) = rg_done r" "rg_doneOrder (cancelHandle j r) = rg_doneOrder r"
  "map fst (rg_inflight (cancelHandle j r)) = map fst (rg_inflight r)"
  by (auto simp: cancelHandle_def)

lemma cancelHandle_keys [simp]:
  "image_mset fst (mset (rg_inflight (cancelHandle j r))) = image_mset fst (mset (rg_inflight r))"
  by (metis cancelHandle_frame(5) mset_map)

lemma mset_filter_delete:
  assumes "mset xs = mset (as @ j # bs)" and "distinct (as @ j # bs)"
  shows "mset (filter (\<lambda>x. x \<noteq> j) xs) = mset (as @ bs)"
proof -
  have "mset (filter (\<lambda>x. x \<noteq> j) xs) = filter_mset (\<lambda>x. x \<noteq> j) (mset (as @ j # bs))"
    using assms(1) by (metis mset_filter)
  moreover have "filter (\<lambda>x. x \<noteq> j) as = as" "filter (\<lambda>x. x \<noteq> j) bs = bs"
    using assms(2) by (auto simp: filter_id_conv)
  then have "filter (\<lambda>x. x \<noteq> j) (as @ j # bs) = as @ bs" by simp
  ultimately show ?thesis by (metis mset_filter)
qed

lemma slotsInv_step: "job_step s s' \<Longrightarrow> slotsInv s \<Longrightarrow> slotsInv s'"
proof (induction rule: job_step.induct)
  case (job_commit s xs spec o' base ys u r)
  note c = reserveCommit_Inr [OF job_commit.hyps(2)]
  have "mset (map fst (rg_inflight (sy_reg s))) = mset (liveIDs s)" using job_commit.prems by (simp add: slotsInv_def)
  then have "js_JobID spec \<notin> set (liveIDs s)" using c(1) by (metis image_set set_mset_mset)
  then show ?case using job_commit c by (auto simp: slotsInv_def liveIDs_def)
next
  case (job_delete s xs spec ys)
  let ?j = "js_JobID spec" and ?as = "map (js_JobID \<circ> fst) (sy_running s) @ map js_JobID xs"
  have live: "liveIDs s = ?as @ ?j # map js_JobID ys" using job_delete.hyps by (simp add: liveIDs_def)
  have keys: "map fst (filter (\<lambda>h. fst h \<noteq> ?j) hs) = filter (\<lambda>x. x \<noteq> ?j) (map fst hs)" for hs :: "(string \<times> jobHandle) list"
    by (induction hs) auto
  have "mset (map fst (rg_inflight (sy_reg s))) = mset (?as @ ?j # map js_JobID ys)" "distinct (?as @ ?j # map js_JobID ys)"
    using job_delete.prems unfolding live [symmetric] slotsInv_def by blast+
  then have "mset (map fst (filter (\<lambda>h. fst h \<noteq> ?j) (rg_inflight (sy_reg s)))) = mset (?as @ map js_JobID ys)"
    unfolding keys by (rule mset_filter_delete)
  then show ?case
    using job_delete live by (auto simp: slotsInv_def deleteJob_def liveIDs_def)
qed (auto simp: slotsInv_def liveIDs_def takeSlot_def freeSlot_def releaseRest_def stopAccepting_def stopBase_def
    startJobs_def comp_def dest!: reserveCommit_Inl)

lemma slotsInv_new: "slotsInv newSystem"
  by (simp add: slotsInv_def newSystem_def newRegistry_def liveIDs_def)

lemma slotsInv_reach: "job_reach newSystem s \<Longrightarrow> slotsInv s"
  by (induction rule: job_reach.induct) (rule slotsInv_new, rule slotsInv_step)

section \<open>Finished jobs\<close>

text \<open>The finished set is the ids in \<open>doneOrder\<close>, at most the cap of them.\<close>

definition doneInv :: "registry \<Rightarrow> bool" where
  "doneInv r \<longleftrightarrow> set (rg_done r) = set (rg_doneOrder r) \<and> distinct (rg_doneOrder r) \<and>
     length (rg_doneOrder r) \<le> recentlyDoneCap"

lemma doneInv_update:
  "set ds = set os \<Longrightarrow> distinct os \<Longrightarrow> length os \<le> recentlyDoneCap \<Longrightarrow> doneInv (r\<lparr>rg_done := ds, rg_doneOrder := os\<rparr>)"
  by (simp add: doneInv_def)

lemma doneInv_markDone: "doneInv r \<Longrightarrow> doneInv (markDone j r)"
proof (cases "j \<in> set (rg_done r)")
  case False
  assume r: "doneInv r"
  let ?o = "rg_doneOrder r @ [j]" and ?k = "length (rg_doneOrder r @ [j]) - recentlyDoneCap"
  have d: "distinct ?o" using r False by (auto simp: doneInv_def)
  then have "set (take ?k ?o) \<inter> set (drop ?k ?o) = {}" by (rule set_take_disj_set_drop_if_distinct) simp
  moreover have "set ?o = set (take ?k ?o) \<union> set (drop ?k ?o)" by (metis append_take_drop_id set_append)
  ultimately have "set (filter (\<lambda>x. x \<notin> set (take ?k ?o)) (j # rg_done r)) = set (drop ?k ?o)"
    using r by (auto simp: doneInv_def simp del: take_append drop_append)
  moreover have "length (drop ?k ?o) \<le> recentlyDoneCap" "distinct (drop ?k ?o)" using d by (simp_all add: distinct_drop del: drop_append)
  moreover have "markDone j r = r\<lparr>rg_done := filter (\<lambda>x. x \<notin> set (take ?k ?o)) (j # rg_done r), rg_doneOrder := drop ?k ?o\<rparr>"
    using False by (simp only: markDone_def Let_def if_False)
  ultimately show ?thesis
    using doneInv_update by metis
qed (simp add: markDone_def)

lemma markDone_set:
  "doneInv r \<Longrightarrow> set (rg_done (markDone j r)) = insert j (set (rg_done r)) - set (evictedBy j r)"
  by (auto simp: markDone_def evictedBy_def Let_def)

lemma evictedBy_last: "doneInv r \<Longrightarrow> j \<notin> set (evictedBy j r)"
proof -
  assume r: "doneInv r"
  show ?thesis
  proof (cases "j \<in> set (rg_done r)")
    case False
    then have n: "j \<notin> set (rg_doneOrder r)" using r by (simp add: doneInv_def)
    have "length (rg_doneOrder r) + 1 - recentlyDoneCap \<le> length (rg_doneOrder r)" by (simp add: recentlyDoneCap_def)
    then show ?thesis using n by (auto simp: evictedBy_def dest: in_set_takeD)
  qed (simp add: evictedBy_def)
qed

text \<open>
  A job started from the stream is in the registry until it is in the finished set, and leaves
  that only by eviction; so it is started once while it is remembered.
\<close>

definition streamStarts :: "job_system \<Rightarrow> string list" where
  "streamStarts s = map fst (filter (\<lambda>x. snd x = FromStream) (sy_started s))"

definition onceInv :: "job_system \<Rightarrow> bool" where
  "onceInv s \<longleftrightarrow> doneInv (sy_reg s) \<and>
     (\<forall>j \<in> set (streamStarts s). (\<exists>spec. (spec, FromStream) \<in> set (sy_running s) \<and> js_JobID spec = j) \<or>
        j \<in> set (rg_done (sy_reg s)) \<or> j \<in> set (sy_evicted s)) \<and>
     (\<forall>j. j \<notin> set (sy_evicted s) \<longrightarrow> count_list (streamStarts s) j \<le> 1)"

lemma doneInv_cong: "rg_done r' = rg_done r \<Longrightarrow> rg_doneOrder r' = rg_doneOrder r \<Longrightarrow> doneInv r' = doneInv r"
  by (simp add: doneInv_def)

lemma onceInv_step: "job_step s s' \<Longrightarrow> slotsInv s \<Longrightarrow> onceInv s \<Longrightarrow> onceInv s'"
proof (induction rule: job_step.induct)
  case (job_commit s xs spec og base ys u r)
  note c = reserveCommit_Inr [OF job_commit.hyps(2)]
  have d: "doneInv r" using job_commit.prems c by (simp add: onceInv_def doneInv_def)
  have "mset (map fst (rg_inflight (sy_reg s))) = mset (liveIDs s)" using job_commit.prems by (simp add: slotsInv_def)
  then have nl: "js_JobID spec \<notin> set (liveIDs s)" using c(1) by (metis image_set set_mset_mset)
  have new: "js_JobID spec \<notin> set (streamStarts s) \<or> js_JobID spec \<in> set (sy_evicted s)"
    using job_commit.prems c(2) nl unfolding onceInv_def liveIDs_def by force
  show ?case
  proof (cases "og = FromStream")
    case True
    then show ?thesis using job_commit.prems d c new
      by (auto simp: onceInv_def streamStarts_def count_list_0_iff)
  next
    case False
    then show ?thesis using job_commit.prems d c by (auto simp: onceInv_def streamStarts_def)
  qed
next
  case (job_mark s xs spec ys)
  let ?r = "sy_reg s"
  have d: "doneInv ?r" using job_mark.prems by (simp add: onceInv_def)
  have in_done: "js_JobID spec \<in> set (rg_done (markDone (js_JobID spec) ?r))"
    using markDone_set [OF d] evictedBy_last [OF d] by auto
  show ?case
    using job_mark doneInv_markDone [OF d] markDone_set [OF d] in_done
    by (fastforce simp: onceInv_def streamStarts_def)
qed (auto simp: onceInv_def streamStarts_def takeSlot_def freeSlot_def releaseRest_def stopAccepting_def stopBase_def
    startJobs_def deleteJob_def doneInv_def dest!: reserveCommit_Inl)

lemma onceInv_reach: "job_reach newSystem s \<Longrightarrow> onceInv s"
proof (induction rule: job_reach.induct)
  case job_refl
  then show ?case by (simp add: onceInv_def newSystem_def newRegistry_def streamStarts_def doneInv_def)
next
  case (job_trans s s')
  then show ?case using onceInv_step slotsInv_reach by blast
qed

text \<open>Only a start beyond the cap makes room by forgetting one.\<close>

definition memoryInv :: "job_system \<Rightarrow> bool" where
  "memoryInv s \<longleftrightarrow>
     length (rg_doneOrder (sy_reg s)) + length (sy_evicted s) + length (filter (\<lambda>x. snd x = FromStream) (sy_running s))
       \<le> length (streamStarts s) \<and>
     (sy_evicted s \<noteq> [] \<longrightarrow> length (rg_doneOrder (sy_reg s)) = recentlyDoneCap)"

lemma markDone_length:
  assumes "doneInv r"
  shows "length (rg_doneOrder (markDone j r)) + length (evictedBy j r) \<le> length (rg_doneOrder r) + 1"
    and "evictedBy j r \<noteq> [] \<Longrightarrow> length (rg_doneOrder (markDone j r)) = recentlyDoneCap"
    and "length (rg_doneOrder r) = recentlyDoneCap \<Longrightarrow> length (rg_doneOrder (markDone j r)) = recentlyDoneCap"
  using assms by (auto simp: markDone_def evictedBy_def Let_def doneInv_def)

lemma memoryInv_step: "job_step s s' \<Longrightarrow> onceInv s \<Longrightarrow> memoryInv s \<Longrightarrow> memoryInv s'"
proof (induction rule: job_step.induct)
  case (job_commit s xs spec og base ys u r)
  then show ?case
    using reserveCommit_Inr [OF job_commit.hyps(2)] by (auto simp: memoryInv_def streamStarts_def)
next
  case (job_mark s xs spec ys)
  have d: "doneInv (sy_reg s)" using job_mark.prems by (simp add: onceInv_def)
  show ?case
    using job_mark markDone_length [OF d, of "js_JobID spec"] by (auto simp: memoryInv_def streamStarts_def)
qed (auto simp: memoryInv_def streamStarts_def takeSlot_def freeSlot_def releaseRest_def stopAccepting_def stopBase_def
    startJobs_def deleteJob_def dest!: reserveCommit_Inl)

lemma memoryInv_reach: "job_reach newSystem s \<Longrightarrow> memoryInv s"
proof (induction rule: job_reach.induct)
  case job_refl
  then show ?case by (simp add: memoryInv_def newSystem_def newRegistry_def streamStarts_def)
next
  case (job_trans s s')
  then show ?case using memoryInv_step onceInv_reach by blast
qed

section \<open>Slots that are not given back\<close>

lemma wedged_step:
  assumes "job_step s s'" and "slotsInv s" and "sy_kept s = maxConcurrentJobs"
  shows "sy_kept s' = maxConcurrentJobs \<and> sy_started s' = sy_started s"
  using assms by (induction rule: job_step.induct) (auto simp: slotsInv_def)

lemma wedged_reach:
  assumes "job_reach s s'" and "slotsInv s" and "sy_kept s = maxConcurrentJobs"
  shows "slotsInv s' \<and> sy_kept s' = maxConcurrentJobs \<and> sy_started s' = sy_started s"
  using assms(1)
proof (induction rule: job_reach.induct)
  case job_refl
  then show ?case using assms by simp
next
  case (job_trans sa s')
  then show ?case using wedged_step [OF job_trans.hyps(2)] slotsInv_step [OF job_trans.hyps(2)] by simp
qed

lemma wedged_idle: "slotsInv s \<Longrightarrow> sy_kept s = maxConcurrentJobs \<Longrightarrow> sy_running s = []"
  by (auto simp: slotsInv_def)

text \<open>The redelivery of a finished job to an idle registry: a slot is taken and stays taken.\<close>

lemma redelivery_keeps_slot:
  fixes spec :: jobSpec
  assumes "\<not> rg_stopping (sy_reg s)" and "js_JobID spec \<in> set (rg_done (sy_reg s))" and "rg_inflight (sy_reg s) = []"
    and "rg_slots (sy_reg s) < maxConcurrentJobs" and "sy_waiting s = []" and "sy_holding s = []"
  shows "job_reach s (s\<lparr>sy_reg := takeSlot (sy_reg s), sy_kept := sy_kept s + 1\<rparr>)"
proof -
  let ?q = "(spec, FromStream, rg_base (sy_reg s))"
  let ?s1 = "s\<lparr>sy_waiting := sy_waiting s @ [?q]\<rparr>"
  let ?s2 = "?s1\<lparr>sy_waiting := [] @ [], sy_holding := sy_holding ?s1 @ [?q], sy_reg := takeSlot (sy_reg ?s1)\<rparr>"
  let ?s3 = "?s2\<lparr>sy_holding := [] @ [], sy_reg := takeSlot (sy_reg s), sy_kept := sy_kept ?s2 + 1\<rparr>"
  have "job_step s ?s1" using assms by (intro job_enter) (simp add: reserveCheck_def)
  moreover have "job_step ?s1 ?s2" using assms by (intro job_acquire) auto
  moreover have "job_step ?s2 ?s3"
    using assms by (intro job_refuseKept [where e = ErrJobDone and base = "rg_base (sy_reg s)" and og = FromStream])
      (auto simp: reserveCommit_def takeSlot_def)
  ultimately have "job_reach s ?s3" by (meson job_reach.intros)
  moreover have "?s3 = s\<lparr>sy_reg := takeSlot (sy_reg s), sy_kept := sy_kept s + 1\<rparr>"
    using assms by (simp add: job_system.equality)
  ultimately show ?thesis by simp
qed

lemma job_reach_trans: "job_reach s1 s2 \<Longrightarrow> job_reach s0 s1 \<Longrightarrow> job_reach s0 s2"
  by (induction rule: job_reach.induct) (auto intro: job_trans)

text \<open>One job delivered and running; then finished and released.\<close>

definition runningOne :: "jobSpec \<Rightarrow> job_system" where
  "runningOne spec = newSystem\<lparr>sy_running := [(spec, FromStream)],
     sy_reg := newRegistry\<lparr>rg_slots := 1, rg_wg := 1,
       rg_inflight := [(js_JobID spec, \<lparr>jh_spec = spec, jh_kind = js_Kind spec, jh_base = 0, jh_cancelled = False\<rparr>)]\<rparr>,
     sy_started := [(js_JobID spec, FromStream)]\<rparr>"

definition afterOne :: "jobSpec \<Rightarrow> job_system" where
  "afterOne spec = newSystem\<lparr>sy_reg := newRegistry\<lparr>rg_done := [js_JobID spec], rg_doneOrder := [js_JobID spec]\<rparr>,
     sy_started := [(js_JobID spec, FromStream)]\<rparr>"

lemma reach_runningOne:
  fixes spec :: jobSpec
  shows "job_reach newSystem (runningOne spec)"
proof -
  let ?q = "(spec, FromStream, 0)" and ?j = "js_JobID spec"
  let ?r1 = "newRegistry\<lparr>rg_slots := 1\<rparr>"
  let ?s1 = "newSystem\<lparr>sy_waiting := [?q]\<rparr>" and ?s2 = "newSystem\<lparr>sy_holding := [?q], sy_reg := ?r1\<rparr>"
  have "job_step newSystem ?s1" using job_enter [of spec newSystem 0 FromStream]
    by (simp add: newSystem_def newRegistry_def reserveCheck_def)
  moreover have "job_step ?s1 ?s2" using job_acquire [of ?s1 "[]" ?q "[]"]
    by (simp add: newSystem_def newRegistry_def takeSlot_def maxConcurrentJobs_def)
  moreover have "job_step ?s2 (runningOne spec)"
    using job_commit [of ?s2 "[]" spec FromStream 0 "[]" "()" "sy_reg (runningOne spec)"]
    by (simp add: newSystem_def newRegistry_def reserveCommit_def runningOne_def)
  ultimately show ?thesis by (meson job_reach.intros)
qed

lemma reach_afterOne:
  fixes spec :: jobSpec
  shows "job_reach newSystem (afterOne spec)"
proof -
  let ?j = "js_JobID spec" and ?s3 = "runningOne spec"
  let ?r3 = "(sy_reg ?s3)\<lparr>rg_done := [?j], rg_doneOrder := [?j]\<rparr>"
  let ?s4 = "?s3\<lparr>sy_running := [], sy_releasing := [spec], sy_reg := ?r3\<rparr>"
  let ?s5 = "?s4\<lparr>sy_releasing := [], sy_reg := ?r3\<lparr>rg_inflight := []\<rparr>, sy_freeing := 1\<rparr>"
  have "job_step ?s3 ?s4" using job_mark [of ?s3 "[]" spec "[]"]
    by (simp add: runningOne_def newSystem_def newRegistry_def markDone_def evictedBy_def recentlyDoneCap_def Let_def)
  moreover have "job_step ?s4 ?s5" using job_delete [of ?s4 "[]" spec "[]"]
    by (simp add: runningOne_def newSystem_def newRegistry_def deleteJob_def)
  moreover have "job_step ?s5 (afterOne spec)" using job_free [of ?s5 0]
    by (simp add: runningOne_def newSystem_def newRegistry_def releaseRest_def freeSlot_def afterOne_def)
  ultimately show ?thesis using reach_runningOne by (meson job_reach.intros)
qed

definition wedged :: "jobSpec \<Rightarrow> job_system" where
  "wedged spec = (afterOne spec)\<lparr>sy_reg := (sy_reg (afterOne spec))\<lparr>rg_slots := 3\<rparr>, sy_kept := 3\<rparr>"

lemma reach_wedged: "job_reach (afterOne spec) (wedged spec)"
proof -
  let ?at = "\<lambda>n. (afterOne spec)\<lparr>sy_reg := (sy_reg (afterOne spec))\<lparr>rg_slots := n\<rparr>, sy_kept := n\<rparr>"
  have "job_reach (?at n) (?at (Suc n))" if "n < 3" for n
    using that redelivery_keeps_slot [of "?at n" spec]
    by (simp add: afterOne_def newSystem_def newRegistry_def takeSlot_def maxConcurrentJobs_def)
  then have "job_reach (?at 0) (?at 1)" "job_reach (?at 1) (?at 2)" "job_reach (?at 2) (?at 3)"
    by (fastforce simp: numeral_2_eq_2 numeral_3_eq_3)+
  then have "job_reach (?at 0) (?at 3)" by (blast intro: job_reach_trans)
  moreover have "?at 0 = afterOne spec" by (simp add: afterOne_def newSystem_def newRegistry_def)
  ultimately show ?thesis by (simp add: wedged_def)
qed

section \<open>Shutdown\<close>

text \<open>Every handle is filed under the id of its own spec.\<close>

definition handleInv :: "registry \<Rightarrow> bool" where
  "handleInv r \<longleftrightarrow> list_all (\<lambda>(j, h). js_JobID (jh_spec h) = j) (rg_inflight r)"

lemma handleInv_step: "job_step s s' \<Longrightarrow> handleInv (sy_reg s) \<Longrightarrow> handleInv (sy_reg s')"
  by (induction rule: job_step.induct)
    (auto simp: handleInv_def list_all_iff takeSlot_def freeSlot_def releaseRest_def stopAccepting_def stopBase_def
      startJobs_def deleteJob_def cancelHandle_def markDone_def Let_def reserveCommit_def split: if_splits)

lemma handleInv_reach: "job_reach newSystem s \<Longrightarrow> handleInv (sy_reg s)"
proof (induction rule: job_reach.induct)
  case job_refl
  then show ?case by (simp add: handleInv_def newSystem_def newRegistry_def)
next
  case (job_trans s s')
  then show ?case using handleInv_step by blast
qed

lemma specOf_id: "handleInv r \<Longrightarrow> js_JobID (specOf r j) = j"
  by (auto simp: specOf_def handleInv_def list_all_iff bareSpec_def dest: map_of_SomeD split: option.splits)

interpretation interrupted: job_handler reportInterruptedSpec
proof
  fix spec w
  show "\<exists>evs. wd_out (reportInterruptedSpec spec w) = wd_out w @ evs \<and> reportsOnce spec evs"
    unfolding reportInterruptedSpec_def
    by (rule reports_after [OF grows_PublishStderr PublishResult_reports]) (simp add: mkResult_def terminal_def)
qed

lemma reportRemaining_specs: "reportRemaining r w = fold reportInterruptedSpec (map (specOf r) (RunningJobs r)) w"
  by (simp add: reportRemaining_def fold_map comp_def reportInterrupted_def [abs_def])

section \<open>Properties\<close>

definition demoSpec :: jobSpec where
  "demoSpec = \<lparr>js_JobID = ''j1'', js_Kind = ''script.run'', js_Shell = [], js_Body = ''true'', js_TimeoutS = 0,
     js_Env = [], js_RequestedBy = [], js_EntryID = ''nightly''\<rparr>"

text \<open>
  C18. Bounded concurrency. However the goroutines interleave, at most three jobs hold a slot, no
  two running jobs have the same id, the registry holds exactly the running jobs, so each can be
  found to be cancelled or reported, and the wait group counts them and the releases under way.
\<close>

theorem jobs_bounded:
  assumes "job_reach newSystem s"
  shows "length (sy_running s) + length (sy_releasing s) \<le> 3 \<and> distinct (liveIDs s) \<and>
    set (map fst (rg_inflight (sy_reg s))) = set (liveIDs s) \<and>
    rg_wg (sy_reg s) = length (sy_running s) + length (sy_releasing s) + sy_freeing s"
proof -
  from slotsInv_reach [OF assms] have "mset (map fst (rg_inflight (sy_reg s))) = mset (liveIDs s)"
    by (simp add: slotsInv_def)
  then have "set (map fst (rg_inflight (sy_reg s))) = set (liveIDs s)" by (metis set_mset_mset)
  then show ?thesis using slotsInv_reach [OF assms] by (auto simp: slotsInv_def maxConcurrentJobs_def)
qed

theorem jobs_bounded_witness:
  "distinct (liveIDs (runningOne demoSpec)) \<and> length (sy_running (runningOne demoSpec)) + 0 \<le> 3"
  using jobs_bounded [OF reach_runningOne [of demoSpec]] by simp

text \<open>
  C19. A queued job runs once. Whatever is redelivered and however deliveries interleave, a job
  taken from the stream is started at most once as long as its id is remembered, and no id is
  forgotten before more than 1024 jobs were started from the stream.
\<close>

theorem stream_job_once:
  assumes "job_reach newSystem s"
  shows "(j \<notin> set (sy_evicted s) \<longrightarrow> count_list (streamStarts s) j \<le> 1) \<and>
    (sy_evicted s \<noteq> [] \<longrightarrow> 1024 < length (streamStarts s))"
proof -
  have "sy_evicted s \<noteq> [] \<longrightarrow> 1024 < length (streamStarts s)"
    using memoryInv_reach [OF assms] by (auto simp: memoryInv_def recentlyDoneCap_def neq_Nil_conv)
  then show ?thesis using onceInv_reach [OF assms] by (auto simp: onceInv_def)
qed

theorem stream_job_once_witness: "count_list (streamStarts (wedged demoSpec)) ''j1'' \<le> 1"
  using stream_job_once [OF job_reach_trans [OF reach_wedged reach_afterOne], of "''j1''" demoSpec]
  by (simp add: wedged_def afterOne_def newSystem_def)

text \<open>
  Slots that are never given back. The refusal of a job that already finished keeps the slot
  it took, so three redeliveries of finished jobs leave an agent on which no job of any kind is
  ever started again, not even after the consumer is restarted.
\<close>

theorem redelivery_wedges_agent:
  assumes "job_reach newSystem s" and "sy_kept s = maxConcurrentJobs" and "job_reach s s'"
  shows "sy_started s' = sy_started s \<and> sy_running s' = []"
proof -
  have "slotsInv s" using assms(1) by (rule slotsInv_reach)
  from wedged_reach [OF assms(3) this assms(2)] wedged_idle show ?thesis by blast
qed

theorem redelivery_wedges_agent_witness:
  "job_reach newSystem (wedged demoSpec) \<and> sy_started (wedged demoSpec) = [(''j1'', FromStream)] \<and>
   sy_started ((wedged demoSpec)\<lparr>sy_reg := startJobs (stopAccepting (sy_reg (wedged demoSpec)))\<rparr>) = [(''j1'', FromStream)]"
proof -
  let ?s = "wedged demoSpec"
  have r: "job_reach newSystem ?s" by (rule job_reach_trans [OF reach_wedged reach_afterOne])
  have k: "sy_kept ?s = maxConcurrentJobs" by (simp add: wedged_def maxConcurrentJobs_def)
  have "job_reach ?s (?s\<lparr>sy_reg := stopAccepting (sy_reg ?s)\<rparr>)" by (rule job_trans [OF job_refl job_stop])
  from job_trans [OF this job_restart]
  have "job_reach ?s (?s\<lparr>sy_reg := startJobs (stopAccepting (sy_reg ?s))\<rparr>)" by simp
  from redelivery_wedges_agent [OF r k this] r show ?thesis
    by (simp add: wedged_def afterOne_def newSystem_def demoSpec_def)
qed

text \<open>
  Nothing is left running on the server's books. When jobs outlive both shutdown periods,
  each job in the registry, and no other, gets exactly one result, in the order of the ids and
  attributed to its schedule entry.
\<close>

theorem drain_reports_every_job:
  assumes "job_reach newSystem s"
  defines "r \<equiv> sy_reg s"
  shows "map (\<lambda>(j, res). (j, rs_EntryID res)) (resultsOf (wd_out (drainJobs False False r w))) =
    map (\<lambda>(j, res). (j, rs_EntryID res)) (resultsOf (wd_out w)) @
    map (\<lambda>j. (j, js_EntryID (specOf r j))) (sort (liveIDs s))"
proof -
  have "mset (map fst (rg_inflight r)) = mset (liveIDs s)"
    using slotsInv_reach [OF assms(1)] by (simp add: slotsInv_def r_def)
  then have "RunningJobs r = sort (liveIDs s)" unfolding RunningJobs_def
    by (metis mset_sort properties_for_sort sorted_sort)
  then show ?thesis
    using interrupted.handle_all [of "map (specOf r) (RunningJobs r)" w] specOf_id [OF handleInv_reach [OF assms(1)]]
    by (simp add: drainJobs_def reportRemaining_specs r_def comp_def)
qed

theorem drain_reports_every_job_witness:
  "map (\<lambda>(j, res). (j, rs_EntryID res)) (resultsOf (wd_out (drainJobs False False (sy_reg (runningOne demoSpec)) emptyWorld))) =
   [(''j1'', ''nightly'')]"
  using drain_reports_every_job [OF reach_runningOne [of demoSpec], of emptyWorld]
  by (simp add: runningOne_def newSystem_def newRegistry_def liveIDs_def emptyWorld_def demoSpec_def specOf_def)

end
