(* ===== verification/Update_Verify.thy ===== *)
theory Update_Verify
  imports Sched
begin

text \<open>
  The signature checks of the self-update, \<open>agent/internal/update/verify.go\<close>: minisign public
  keys and signature files, the trusted keys of a build, and the checksum.

  Ed25519 verification and SHA-256 are arguments (\<open>ed\<close>, \<open>sha256\<close>); \<open>EmbeddedPublicKey\<close> and
  \<open>DevBuild\<close>, which the linker sets, are the arguments \<open>embedded\<close> and \<open>devBuild\<close>. Base64 is
  that of Go's \<open>StdEncoding\<close>. A length check of a Go array is a length of the model's list.
\<close>

section \<open>Base64\<close>

definition b64Alphabet :: string where
  "b64Alphabet = ''ABCDEFGHIJKLMNOPQRSTUVWXYZabcdefghijklmnopqrstuvwxyz0123456789+/''"

fun indexOf :: "'a \<Rightarrow> 'a list \<Rightarrow> nat option" where
  "indexOf x [] = None"
| "indexOf x (y # ys) = (if x = y then Some 0 else map_option Suc (indexOf x ys))"

definition b64Val :: "char \<Rightarrow> nat option" where
  "b64Val c = indexOf c b64Alphabet"

definition b64Byte :: "nat \<Rightarrow> char" where
  "b64Byte n = char_of (n mod 256)"

fun b64Quads :: "string \<Rightarrow> bytes option" where
  "b64Quads [] = Some []"
| "b64Quads (a # b # c # d # rest) =
     (case (b64Val a, b64Val b) of
        (Some x, Some y) \<Rightarrow>
          if c = CHR ''='' then
            (if d = CHR ''='' \<and> rest = [] then Some [b64Byte (x * 4 + y div 16)] else None)
          else (case b64Val c of
             None \<Rightarrow> None
           | Some z \<Rightarrow>
               if d = CHR ''='' then
                 (if rest = [] then Some [b64Byte (x * 4 + y div 16), b64Byte (y * 16 + z div 4)] else None)
               else (case b64Val d of
                  None \<Rightarrow> None
                | Some u \<Rightarrow> map_option (\<lambda>bs. b64Byte (x * 4 + y div 16) # b64Byte (y * 16 + z div 4) #
                                b64Byte (z * 64 + u) # bs) (b64Quads rest)))
      | _ \<Rightarrow> None)"
| "b64Quads _ = None"

text \<open>\<open>DecodeString\<close>: line breaks inside the text are skipped.\<close>

definition b64Decode :: "string \<Rightarrow> bytes option" where
  "b64Decode s = b64Quads (filter (\<lambda>c. c \<noteq> CHR 0x0A \<and> c \<noteq> CHR 0x0D) s)"

section \<open>Keys and signatures\<close>

definition algLen :: nat where "algLen = 2"
definition keyIDLen :: nat where "keyIDLen = 8"
definition publicKeySize :: nat where "publicKeySize = 32"
definition signatureSize :: nat where "signatureSize = 64"
definition pubKeyBodyLen :: nat where "pubKeyBodyLen = algLen + keyIDLen + publicKeySize"
definition sigBodyLen :: nat where "sigBodyLen = algLen + keyIDLen + signatureSize"

definition algEdDSA :: bytes where "algEdDSA = ''Ed''"
definition algHashedEdDSA :: bytes where "algHashedEdDSA = ''ED''"

datatype verify_error =
    ErrMalformedKey | ErrMalformedSignature | ErrUnsupportedAlg | ErrPrehashedSignature
  | ErrKeyIDMismatch | ErrBadSignature | ErrChecksumMismatch | ErrNoPublicKey | ErrNoTrustAnchor

record publicKey =
  pk_Algorithm :: bytes
  pk_KeyID :: bytes
  pk_Key :: bytes

record signature =
  sg_Algorithm :: bytes
  sg_KeyID :: bytes
  sg_Sig :: bytes
  sg_TrustedComment :: string
  sg_GlobalSig :: "bytes option"

definition nonEmptyLines :: "string \<Rightarrow> string list" where
  "nonEmptyLines s = filter (\<lambda>l. l \<noteq> []) (map (\<lambda>l. trimRightBy (\<lambda>c. c = CHR 0x0D) (trimSpace l)) (splitOn CHR 0x0A s))"

definition lastNonEmptyLine :: "string \<Rightarrow> string option" where
  "lastNonEmptyLine s = (case nonEmptyLines s of [] \<Rightarrow> None | ls \<Rightarrow> Some (last ls))"

definition ParsePublicKey :: "string \<Rightarrow> verify_error + publicKey" where
  "ParsePublicKey s =
     (case lastNonEmptyLine s of
        None \<Rightarrow> Inl ErrMalformedKey
      | Some body \<Rightarrow>
          (case b64Decode body of
             None \<Rightarrow> Inl ErrMalformedKey
           | Some raw \<Rightarrow>
               if length raw \<noteq> pubKeyBodyLen then Inl ErrMalformedKey
               else let pk = \<lparr>pk_Algorithm = take algLen raw, pk_KeyID = slice algLen (algLen + keyIDLen) raw,
                              pk_Key = drop (algLen + keyIDLen) raw\<rparr>
                    in if pk_Algorithm pk = algEdDSA \<or> pk_Algorithm pk = algHashedEdDSA then Inr pk
                       else Inl ErrUnsupportedAlg))"

text \<open>One line after the signature: a trusted comment, its signature, or something ignored.\<close>

definition sigLine :: "string \<Rightarrow> signature \<Rightarrow> verify_error + signature" where
  "sigLine l sig =
     (case cutPrefix ''trusted comment:'' l of
        Some rest \<Rightarrow> Inr (sig\<lparr>sg_TrustedComment := trimSpace rest\<rparr>)
      | None \<Rightarrow>
          if sg_TrustedComment sig \<noteq> [] \<and> sg_GlobalSig sig = None
          then (case b64Decode l of
                  None \<Rightarrow> Inl ErrMalformedSignature
                | Some g \<Rightarrow> if length g \<noteq> signatureSize then Inl ErrMalformedSignature
                            else Inr (sig\<lparr>sg_GlobalSig := Some g\<rparr>))
          else Inr sig)"

fun sigLines :: "string list \<Rightarrow> signature \<Rightarrow> verify_error + signature" where
  "sigLines [] sig = Inr sig"
| "sigLines (l # ls) sig = (case sigLine l sig of Inl e \<Rightarrow> Inl e | Inr sig' \<Rightarrow> sigLines ls sig')"

definition ParseSignature :: "bytes \<Rightarrow> verify_error + signature" where
  "ParseSignature b =
     (let lines = nonEmptyLines b
      in if length lines < 2 then Inl ErrMalformedSignature
         else case b64Decode (lines ! 1) of
           None \<Rightarrow> Inl ErrMalformedSignature
         | Some raw \<Rightarrow>
             if length raw \<noteq> sigBodyLen then Inl ErrMalformedSignature
             else sigLines (drop 2 lines)
                    \<lparr>sg_Algorithm = take algLen raw, sg_KeyID = slice algLen (algLen + keyIDLen) raw,
                     sg_Sig = drop (algLen + keyIDLen) raw, sg_TrustedComment = [], sg_GlobalSig = None\<rparr>)"

text \<open>\<open>ed25519.Verify(key, message, sig)\<close>.\<close>

type_synonym ed_verify = "bytes \<Rightarrow> bytes \<Rightarrow> bytes \<Rightarrow> bool"

definition VerifyParsed :: "ed_verify \<Rightarrow> publicKey \<Rightarrow> bytes \<Rightarrow> signature \<Rightarrow> verify_error option" where
  "VerifyParsed ed pub message sig =
     (if sg_Algorithm sig = algHashedEdDSA then Some ErrPrehashedSignature
      else if sg_Algorithm sig \<noteq> algEdDSA then Some ErrUnsupportedAlg
      else if sg_KeyID sig \<noteq> pk_KeyID pub then Some ErrKeyIDMismatch
      else if length (pk_Key pub) \<noteq> publicKeySize then Some ErrMalformedKey
      else if \<not> ed (pk_Key pub) message (sg_Sig sig) then Some ErrBadSignature
      else case sg_GlobalSig sig of
             None \<Rightarrow> None
           | Some g \<Rightarrow> if ed (pk_Key pub) (sg_Sig sig @ sg_TrustedComment sig) g then None
                       else Some ErrBadSignature)"

definition Verify :: "ed_verify \<Rightarrow> publicKey \<Rightarrow> bytes \<Rightarrow> bytes \<Rightarrow> verify_error option" where
  "Verify ed pub message sigBytes =
     (case ParseSignature sigBytes of Inl e \<Rightarrow> Some e | Inr sig \<Rightarrow> VerifyParsed ed pub message sig)"

fun verifyLoop :: "ed_verify \<Rightarrow> publicKey list \<Rightarrow> bytes \<Rightarrow> bytes \<Rightarrow> verify_error option \<Rightarrow> verify_error option" where
  "verifyLoop ed [] message sigBytes lst = lst"
| "verifyLoop ed (pub # pubs) message sigBytes lst =
     (case Verify ed pub message sigBytes of
        None \<Rightarrow> None
      | Some e \<Rightarrow> verifyLoop ed pubs message sigBytes
                   (if lst = None \<or> lst = Some ErrKeyIDMismatch then Some e else lst))"

definition VerifyAny :: "ed_verify \<Rightarrow> publicKey list \<Rightarrow> bytes \<Rightarrow> bytes \<Rightarrow> verify_error option" where
  "VerifyAny ed pubs message sigBytes =
     (if pubs = [] then Some ErrNoPublicKey else verifyLoop ed pubs message sigBytes None)"

fun collectKeys :: "string list \<Rightarrow> publicKey list \<Rightarrow> verify_error + publicKey list" where
  "collectKeys [] keys = Inr keys"
| "collectKeys (s # ss) keys =
     (if trimSpace s = [] then collectKeys ss keys
      else case ParsePublicKey s of
             Inl e \<Rightarrow> Inl e
           | Inr pk \<Rightarrow> if pk_KeyID pk \<in> pk_KeyID ` set keys then collectKeys ss keys
                       else collectKeys ss (keys @ [pk]))"

definition TrustedKeys :: "string \<Rightarrow> string \<Rightarrow> string list \<Rightarrow> verify_error + publicKey list" where
  "TrustedKeys embedded devBuild extra =
     (if trimSpace embedded = [] \<and> trimSpace devBuild \<noteq> ''true'' then Inl ErrNoTrustAnchor
      else case collectKeys (embedded # extra) [] of
             Inl e \<Rightarrow> Inl e
           | Inr keys \<Rightarrow> if keys = [] then Inl ErrNoPublicKey else Inr keys)"

definition VerifySHA256 :: "hasher \<Rightarrow> bytes \<Rightarrow> string \<Rightarrow> verify_error option" where
  "VerifySHA256 sha256 bs want =
     (let w = toLower (trimSpace want)
      in if w = [] then Some ErrChecksumMismatch
         else if hexOf (sha256 (map byteOf bs)) \<noteq> w then Some ErrChecksumMismatch
         else None)"

section \<open>Lemmas\<close>

text \<open>A signature file that a key accepts.\<close>

definition goodSignature :: "ed_verify \<Rightarrow> publicKey \<Rightarrow> bytes \<Rightarrow> bytes \<Rightarrow> bool" where
  "goodSignature ed pk message sigBytes \<longleftrightarrow>
     (case ParseSignature sigBytes of
        Inl _ \<Rightarrow> False
      | Inr sig \<Rightarrow> sg_Algorithm sig = ''Ed'' \<and> sg_KeyID sig = pk_KeyID pk \<and> length (pk_Key pk) = 32 \<and>
          ed (pk_Key pk) message (sg_Sig sig) \<and>
          (case sg_GlobalSig sig of None \<Rightarrow> True
           | Some g \<Rightarrow> ed (pk_Key pk) (sg_Sig sig @ sg_TrustedComment sig) g))"

lemma Verify_iff: "Verify ed pk message sigBytes = None \<longleftrightarrow> goodSignature ed pk message sigBytes"
  by (auto simp: Verify_def VerifyParsed_def goodSignature_def algEdDSA_def algHashedEdDSA_def publicKeySize_def
      split: sum.splits option.splits if_splits)

lemma verifyLoop_iff:
  "verifyLoop ed pubs message sigBytes lst = None \<longleftrightarrow>
   (\<exists>pk \<in> set pubs. goodSignature ed pk message sigBytes) \<or> (pubs = [] \<and> lst = None)"
proof (induction pubs arbitrary: lst)
  case (Cons pk pubs)
  show ?case
  proof (cases "Verify ed pk message sigBytes")
    case None
    then have "goodSignature ed pk message sigBytes" by (simp add: Verify_iff)
    with None show ?thesis by simp
  next
    case (Some e)
    then have "\<not> goodSignature ed pk message sigBytes" using Verify_iff by (metis option.distinct(1))
    then show ?thesis using Some Cons.IH by auto
  qed
qed simp

lemma collectKeys_spec:
  assumes "collectKeys ss keys = Inr ks" and "distinct (map pk_KeyID keys)"
  shows "(\<exists>more. ks = keys @ more \<and> (\<forall>pk \<in> set more. \<exists>s \<in> set ss. ParsePublicKey s = Inr pk)) \<and> distinct (map pk_KeyID ks)"
  using assms
proof (induction ss arbitrary: keys)
  case (Cons s ss)
  show ?case
  proof (cases "trimSpace s = []")
    case True
    then show ?thesis using Cons by force
  next
    case False
    with Cons.prems obtain pk where pk: "ParsePublicKey s = Inr pk" by (auto split: sum.splits)
    show ?thesis
    proof (cases "pk_KeyID pk \<in> pk_KeyID ` set keys")
      case True
      then show ?thesis using Cons False pk by force
    next
      case new: False
      then have "collectKeys ss (keys @ [pk]) = Inr ks" "distinct (map pk_KeyID (keys @ [pk]))"
        using Cons.prems False pk by auto
      from Cons.IH [OF this] obtain more where "ks = (keys @ [pk]) @ more"
        "\<forall>pk \<in> set more. \<exists>s \<in> set ss. ParsePublicKey s = Inr pk" "distinct (map pk_KeyID ks)" by blast
      then show ?thesis using pk by (intro conjI exI [of _ "pk # more"]) auto
    qed
  qed
qed simp

lemma TrustedKeys_spec:
  assumes "TrustedKeys embedded dev extra = Inr keys"
  shows "distinct (map pk_KeyID keys)" and "keys \<noteq> []"
    and "\<forall>pk \<in> set keys. \<exists>s \<in> set (embedded # extra). ParsePublicKey s = Inr pk"
    and "trimSpace embedded = [] \<Longrightarrow> trimSpace dev = ''true''"
    and "trimSpace embedded \<noteq> [] \<Longrightarrow> ParsePublicKey embedded = Inr (hd keys)"
proof -
  from assms have c: "collectKeys (embedded # extra) [] = Inr keys" and "keys \<noteq> []"
    by (auto simp: TrustedKeys_def split: if_splits sum.splits simp del: collectKeys.simps)
  then show "keys \<noteq> []" by simp
  from collectKeys_spec [OF c] show "distinct (map pk_KeyID keys)"
    and "\<forall>pk \<in> set keys. \<exists>s \<in> set (embedded # extra). ParsePublicKey s = Inr pk" by auto
  show "trimSpace embedded = [] \<Longrightarrow> trimSpace dev = ''true''"
    using assms by (auto simp: TrustedKeys_def split: if_splits)
  show "ParsePublicKey embedded = Inr (hd keys)" if ne: "trimSpace embedded \<noteq> []"
  proof -
    from c ne obtain pk where pk: "ParsePublicKey embedded = Inr pk" and rest: "collectKeys extra [pk] = Inr keys"
      by (auto split: sum.splits)
    from collectKeys_spec [OF rest] obtain more where "keys = [pk] @ more" by auto
    then show ?thesis using pk by simp
  qed
qed

section \<open>Properties\<close>

text \<open>
  What a signature check accepts. An artifact is accepted exactly when some trusted key
  accepts it: the signature file parses, its mode is the plain one, it names that key, Ed25519
  verifies the artifact's bytes under it, and, when the file carries a signature of the trusted
  comment, that verifies over the signature and the comment too.
\<close>

theorem VerifyAny_accepts:
  "VerifyAny ed keys message sigBytes = None \<longleftrightarrow> list_ex (\<lambda>pk. goodSignature ed pk message sigBytes) keys"
  by (auto simp: VerifyAny_def verifyLoop_iff list_ex_iff)

text \<open>
  C24. The trust anchor. A build that has an embedded key trusts it first and whatever the server
  sends beside it: every trusted key was parsed from the embedded key or from the request, no
  two have the same id, so a key of the request that carries the embedded key's id is ignored;
  and without an embedded key there are trusted keys only in a build marked for development.
\<close>

theorem TrustedKeys_anchored:
  assumes "TrustedKeys embedded devBuild extra = Inr keys"
  shows "(if trimSpace embedded = [] then trimSpace devBuild = ''true''
          else ParsePublicKey embedded = Inr (hd keys)) \<and>
    list_all (\<lambda>pk. \<exists>s \<in> set (embedded # extra). ParsePublicKey s = Inr pk) keys \<and>
    list_all (\<lambda>pk. pk_KeyID pk = pk_KeyID (hd keys) \<longrightarrow> pk = hd keys) keys"
proof -
  note k = TrustedKeys_spec [OF assms]
  have "inj_on pk_KeyID (set keys)" using k(1) by (simp add: distinct_map)
  then have "list_all (\<lambda>pk. pk_KeyID pk = pk_KeyID (hd keys) \<longrightarrow> pk = hd keys) keys"
    using k(2) by (auto simp: list_all_iff inj_on_def)
  with k show ?thesis by (auto simp: list_all_iff)
qed

definition demoKey :: string where
  "demoKey = ''RWQA'' @ replicate 52 CHR ''A''"

lemma b64_zeros: "b64Quads (replicate (4 * n) CHR ''A'') = Some (replicate (3 * n) CHR 0x00)"
proof (induction n)
  case (Suc n)
  have "b64Val CHR ''A'' = Some 0" by (simp add: b64Val_def b64Alphabet_def)
  moreover have "replicate (4 * Suc n) CHR ''A'' = CHR ''A'' # CHR ''A'' # CHR ''A'' # CHR ''A'' # replicate (4 * n) CHR ''A''"
    by (simp add: numeral_eq_Suc)
  moreover have "replicate (3 * Suc n) CHR 0x00 = CHR 0x00 # CHR 0x00 # CHR 0x00 # replicate (3 * n) CHR 0x00"
    by (simp add: numeral_eq_Suc)
  moreover have "b64Byte 0 = CHR 0x00" by (simp add: b64Byte_def char_of_def)
  ultimately show ?case using Suc by simp
qed simp

lemma demoKey_decoded: "b64Decode demoKey = Some (''Ed'' @ replicate 40 CHR 0x00)"
proof -
  have v: "b64Val CHR ''R'' = Some 17" "b64Val CHR ''W'' = Some 22" "b64Val CHR ''Q'' = Some 16" "b64Val CHR ''A'' = Some 0"
    by (simp_all add: b64Val_def b64Alphabet_def)
  have f: "filter (\<lambda>c. c \<noteq> CHR 0x0A \<and> c \<noteq> CHR 0x0D) demoKey = CHR ''R'' # CHR ''W'' # CHR ''Q'' # CHR ''A'' # replicate (4 * 13) CHR ''A''"
    by (simp add: demoKey_def)
  have r: "replicate 40 CHR 0x00 = CHR 0x00 # replicate (3 * 13) CHR 0x00" by (simp add: numeral_eq_Suc)
  have b: "b64Byte (17 * 4 + 22 div 16) = CHR ''E''" "b64Byte (22 * 16 + 16 div 4) = CHR ''d''"
    "b64Byte (16 * 64 + 0) = CHR 0x00" by code_simp+
  show ?thesis
    unfolding b64Decode_def f r b64Quads.simps v prod.case option.case b b64_zeros by simp
qed

lemma demoKey_line: "trimSpace demoKey = demoKey" "nonEmptyLines demoKey = [demoKey]"
proof -
  have no: "CHR 0x0A \<notin> set demoKey" by (simp add: demoKey_def)
  have ends: "demoKey \<noteq> []" "hd demoKey = CHR ''R''" "last demoKey = CHR ''A''" by (simp_all add: demoKey_def)
  show t: "trimSpace demoKey = demoKey" by (rule trimBy_id) (use ends in \<open>simp add: isSpace_def\<close>)
  have "dropWhile (\<lambda>c. c = CHR 0x0D) (rev demoKey) = rev demoKey"
    using ends by (subst dropWhile_eq_self_iff) (simp add: hd_rev)
  then have "trimRightBy (\<lambda>c. c = CHR 0x0D) demoKey = demoKey" by (simp add: trimRightBy_def)
  then show "nonEmptyLines demoKey = [demoKey]" using ends no by (simp add: nonEmptyLines_def splitOn_free t)
qed

theorem TrustedKeys_anchored_witness:
  "\<exists>keys. TrustedKeys demoKey [] [] = Inr keys \<and> ParsePublicKey demoKey = Inr (hd keys)"
proof -
  let ?pk = "\<lparr>pk_Algorithm = ''Ed'', pk_KeyID = replicate 8 CHR 0x00, pk_Key = replicate 32 CHR 0x00\<rparr>"
  have p: "ParsePublicKey demoKey = Inr ?pk"
    using demoKey_line
    by (simp add: ParsePublicKey_def lastNonEmptyLine_def demoKey_decoded pubKeyBodyLen_def algLen_def keyIDLen_def
        publicKeySize_def algEdDSA_def slice_def Let_def)
  then have t: "TrustedKeys demoKey [] [] = Inr [?pk]"
    using demoKey_line by (simp add: TrustedKeys_def demoKey_def)
  then show ?thesis using TrustedKeys_anchored [OF t] demoKey_line by (auto simp: demoKey_def)
qed

text \<open>
  The error that is reported. When no key accepts the signature file and two keys are
  trusted, an error of the first key other than a mismatch of ids hides the second's, and a
  mismatch is the one that is replaced, so it is reported only when every key mismatches.
\<close>

theorem VerifyAny_error_choice:
  "VerifyAny ed [k1, k2] message sigBytes =
     (case (Verify ed k1 message sigBytes, Verify ed k2 message sigBytes) of
        (None, _) \<Rightarrow> None
      | (_, None) \<Rightarrow> None
      | (Some e1, Some e2) \<Rightarrow> Some (if e1 = ErrKeyIDMismatch then e2 else e1))"
  by (auto simp: VerifyAny_def split: option.splits)

end
