(* ===== verification/Update_Tracker.thy ===== *)
theory Update_Tracker
  imports Update_Verify Scripts
begin

text \<open>
  The record of a self-update and the rollback decision, \<open>agent/internal/update/rollback.go\<close>,
  with the parts of \<open>swap.go\<close> that rollback uses.

  The state directory and the binaries are the record \<open>udisk\<close>: the state file, the health
  marker, the files shared with the external guard and the contents of the executables by path.
  Every file operation that can fail takes its outcome from \<open>ud_faults\<close> (\<open>True\<close>: it fails; the
  empty list: it succeeds), and a failed one leaves the file as it was. The clock is the
  argument \<open>now\<close>.
\<close>

section \<open>The disk\<close>

record update_state =
  us_PendingVersion :: string
  us_PreviousVersion :: string
  us_Target :: string
  us_Backup :: string
  us_SwappedAt :: gtime
  us_Starts :: "gtime list"
  us_Healthy :: bool
  us_HealthyAt :: gtime
  us_RolledBack :: bool
  us_Unproven :: bool
  us_Denied :: "string list"
  us_Finalizing :: bool
  us_FinalizerPID :: int
  us_FinalizeErr :: string
  us_FinalizedAt :: gtime

definition noState :: update_state where
  "noState = \<lparr>us_PendingVersion = [], us_PreviousVersion = [], us_Target = [], us_Backup = [],
     us_SwappedAt = zero_time, us_Starts = [], us_Healthy = False, us_HealthyAt = zero_time,
     us_RolledBack = False, us_Unproven = False, us_Denied = [], us_Finalizing = False,
     us_FinalizerPID = 0, us_FinalizeErr = [], us_FinalizedAt = zero_time\<rparr>"

definition statePending :: "update_state \<Rightarrow> bool" where
  "statePending st \<longleftrightarrow> us_PendingVersion st \<noteq> [] \<and> \<not> us_Healthy st"

datatype state_file = NoStateFile | UnreadableState | CorruptState | SavedState update_state

record probation =
  pb_version :: string
  pb_previous :: string
  pb_target :: string
  pb_backup :: string
  pb_swappedAt :: int
  pb_finalizing :: bool

record udisk =
  ud_state :: state_file
  ud_marker :: "(string \<times> gtime \<times> bool) option"
  ud_probation :: "probation option"
  ud_starts :: "string option"
  ud_denied :: "string option"
  ud_bin :: "string \<rightharpoonup> bytes"
  ud_faults :: "bool list"

datatype update_error =
    ErrState string | ErrFinalizePending string | ErrNoBackup string | ErrSwap string
  | ErrSameFilenames | ErrNoFinalizer | ErrChmod

definition fileOp :: "udisk \<Rightarrow> bool \<times> udisk" where
  "fileOp d = (case ud_faults d of [] \<Rightarrow> (True, d) | f # rest \<Rightarrow> (\<not> f, d\<lparr>ud_faults := rest\<rparr>))"

text \<open>A sequence of operations that stops at the first that fails, and names it.\<close>

fun fileOps :: "string list \<Rightarrow> udisk \<Rightarrow> string option \<times> udisk" where
  "fileOps [] d = (None, d)"
| "fileOps (o1 # os) d = (let (ok, d1) = fileOp d in if ok then fileOps os d1 else (Some o1, d1))"

section \<open>The tracker\<close>

definition CrashWindow :: duration where "CrashWindow = 120 * second"
definition CrashLimit :: nat where "CrashLimit = 2"
definition maxStartsTracked :: nat where "maxStartsTracked = 16"
definition maxDeniedTracked :: nat where "maxDeniedTracked = 32"

definition lastN :: "nat \<Rightarrow> 'a list \<Rightarrow> 'a list" where
  "lastN n xs = drop (length xs - n) xs"

fun loadTracker :: "state_file \<Rightarrow> update_error + update_state" where
  "loadTracker NoStateFile = Inr noState"
| "loadTracker UnreadableState = Inl (ErrState ''read'')"
| "loadTracker CorruptState = Inr noState"
| "loadTracker (SavedState st) = Inr st"

definition Save :: "update_state \<Rightarrow> udisk \<Rightarrow> update_error option \<times> udisk" where
  "Save st d =
     (case fileOps [''mkdir'', ''write'', ''rename''] d of
        (Some e, d1) \<Rightarrow> (Some (ErrState e), d1)
      | (None, d1) \<Rightarrow> (None, d1\<lparr>ud_state := SavedState st\<rparr>))"

definition removeProbation :: "udisk \<Rightarrow> update_error option \<times> udisk" where
  "removeProbation d = (let (ok, d1) = fileOp d
     in if ok then (None, d1\<lparr>ud_probation := None\<rparr>) else (Some (ErrState ''remove probation''), d1))"

definition removeStarts :: "udisk \<Rightarrow> update_error option \<times> udisk" where
  "removeStarts d = (let (ok, d1) = fileOp d
     in if ok then (None, d1\<lparr>ud_starts := None\<rparr>) else (Some (ErrState ''remove starts''), d1))"

text \<open>The two removals that end a probation, in their order.\<close>

definition removeGuardFiles :: "udisk \<Rightarrow> update_error option \<times> udisk" where
  "removeGuardFiles d =
     (case removeProbation d of (Some e, d1) \<Rightarrow> (Some e, d1) | (None, d1) \<Rightarrow> removeStarts d1)"

definition Clear :: "udisk \<Rightarrow> update_error option \<times> udisk" where
  "Clear d =
     (let (ok, d1) = fileOp d
      in if \<not> ok then (Some (ErrState ''remove state''), d1)
         else let (ok2, d2) = fileOp (d1\<lparr>ud_state := NoStateFile\<rparr>)
              in if \<not> ok2 then (Some (ErrState ''remove marker''), d2)
                 else removeGuardFiles (d2\<lparr>ud_marker := None\<rparr>))"

definition writeProbation :: "update_state \<Rightarrow> udisk \<Rightarrow> update_error option \<times> udisk" where
  "writeProbation st d =
     (case fileOps [''mkdir'', ''write probation'', ''rename probation''] d of
        (Some e, d1) \<Rightarrow> (Some (ErrState e), d1)
      | (None, d1) \<Rightarrow> (None, d1\<lparr>ud_probation := Some
          \<lparr>pb_version = us_PendingVersion st, pb_previous = us_PreviousVersion st, pb_target = us_Target st,
           pb_backup = us_Backup st, pb_swappedAt = unix (us_SwappedAt st), pb_finalizing = us_Finalizing st\<rparr>\<rparr>))"

definition saveAndProbation :: "update_state \<Rightarrow> udisk \<Rightarrow> update_error option \<times> udisk" where
  "saveAndProbation st d =
     (case Save st d of (Some e, d1) \<Rightarrow> (Some e, d1) | (None, d1) \<Rightarrow> writeProbation st d1)"

definition BeginUpdate ::
  "gtime \<Rightarrow> string \<Rightarrow> string \<Rightarrow> string \<Rightarrow> string \<Rightarrow> udisk \<Rightarrow> update_error option \<times> udisk" where
  "BeginUpdate now newVersion prevVersion target backup d =
     (case loadTracker (ud_state d) of
        Inl e \<Rightarrow> (Some e, d)
      | Inr prior \<Rightarrow>
          (let (ok1, d1) = fileOp d;
               d2 = (if ok1 then d1\<lparr>ud_marker := None\<rparr> else d1);
               (ok3, d3) = fileOp d2;
               d4 = (if ok3 then d3\<lparr>ud_starts := None\<rparr> else d3)
           in saveAndProbation
                (noState\<lparr>us_PendingVersion := newVersion, us_PreviousVersion := prevVersion, us_Target := target,
                         us_Backup := backup, us_SwappedAt := now, us_Denied := us_Denied prior\<rparr>) d4))"

definition BeginFinalize :: "int \<Rightarrow> udisk \<Rightarrow> update_error option \<times> udisk" where
  "BeginFinalize pid d =
     (case loadTracker (ud_state d) of
        Inl e \<Rightarrow> (Some e, d)
      | Inr st \<Rightarrow> saveAndProbation
          (st\<lparr>us_Finalizing := True, us_FinalizerPID := pid, us_FinalizeErr := [], us_FinalizedAt := zero_time\<rparr>) d)"

text \<open>The argument is the finalizer's own error, if it failed.\<close>

definition FinalizeOutcome :: "gtime \<Rightarrow> string option \<Rightarrow> udisk \<Rightarrow> update_error option \<times> udisk" where
  "FinalizeOutcome now failure d =
     (case loadTracker (ud_state d) of
        Inl e \<Rightarrow> (Some e, d)
      | Inr st0 \<Rightarrow>
          (let st = st0\<lparr>us_Finalizing := False, us_FinalizedAt := now,
                        us_FinalizeErr := (case failure of Some m \<Rightarrow> m | None \<Rightarrow> [])\<rparr>
           in case Save st d of
                (Some e, d1) \<Rightarrow> (Some e, d1)
              | (None, d1) \<Rightarrow> if failure \<noteq> None then removeProbation d1 else writeProbation st d1))"

definition externalStarts :: "udisk \<Rightarrow> gtime list" where
  "externalStarts d =
     (case ud_starts d of
        None \<Rightarrow> []
      | Some raw \<Rightarrow>
          lastN maxStartsTracked
            (List.map_filter (\<lambda>line. let l = trimSpace line in
                if l = [] then None else map_option ofUnix (parseInt64 l)) (splitOn CHR 0x0A raw)))"

fun addDenied :: "string list \<Rightarrow> string list \<Rightarrow> string list" where
  "addDenied [] out = out"
| "addDenied (v # vs) out =
     (let v' = trimSpace v in if v' = [] \<or> v' \<in> set out then addDenied vs out else addDenied vs (out @ [v']))"

definition Denied :: "udisk \<Rightarrow> string list" where
  "Denied d =
     (let st = (case loadTracker (ud_state d) of Inl _ \<Rightarrow> noState | Inr st \<Rightarrow> st);
          lines = (case ud_denied d of None \<Rightarrow> [] | Some raw \<Rightarrow> splitOn CHR 0x0A raw)
      in lastN maxDeniedTracked (addDenied (us_Denied st @ lines) []))"

definition IsDenied :: "string \<Rightarrow> udisk \<Rightarrow> bool" where
  "IsDenied version d \<longleftrightarrow> version \<noteq> [] \<and> version \<in> set (Denied d)"

definition Deny :: "string \<Rightarrow> udisk \<Rightarrow> update_error option \<times> udisk" where
  "Deny version d =
     (let v = trimSpace version
      in if v = [] then (None, d)
         else case fileOps [''mkdir'', ''open denylist'', ''append denylist''] d of
                (Some e, d1) \<Rightarrow> (Some (ErrState e), d1)
              | (None, d1) \<Rightarrow>
                  (None, d1\<lparr>ud_denied := Some ((case ud_denied d1 of None \<Rightarrow> [] | Some raw \<Rightarrow> raw) @ v @ [CHR 0x0A])\<rparr>))"

definition RecordStart :: "gtime \<Rightarrow> udisk \<Rightarrow> (update_error + update_state) \<times> udisk" where
  "RecordStart now d =
     (case loadTracker (ud_state d) of
        Inl e \<Rightarrow> (Inl e, d)
      | Inr st \<Rightarrow>
          if \<not> statePending st then (Inr st, d)
          else let st' = st\<lparr>us_Starts := lastN maxStartsTracked (us_Starts st @ [now])\<rparr>
               in case Save st' d of (Some e, d1) \<Rightarrow> (Inl e, d1) | (None, d1) \<Rightarrow> (Inr st', d1))"

definition markHealthy :: "gtime \<Rightarrow> bool \<Rightarrow> udisk \<Rightarrow> update_error option \<times> udisk" where
  "markHealthy now unproven d =
     (case loadTracker (ud_state d) of
        Inl e \<Rightarrow> (Some e, d)
      | Inr st \<Rightarrow>
          if us_Finalizing st then (Some (ErrFinalizePending (us_PendingVersion st)), d)
          else case fileOps [''mkdir'', ''write marker''] d of
            (Some e, d1) \<Rightarrow> (Some (ErrState e), d1)
          | (None, d1) \<Rightarrow>
              let d2 = d1\<lparr>ud_marker := Some (us_PendingVersion st, now, unproven)\<rparr>
              in if \<not> statePending st then (None, d2)
                 else case Save (st\<lparr>us_Healthy := True, us_HealthyAt := now, us_Unproven := unproven, us_Starts := []\<rparr>) d2 of
                   (Some e, d3) \<Rightarrow> (Some e, d3)
                 | (None, d3) \<Rightarrow> removeGuardFiles d3)"

definition MarkHealthy :: "gtime \<Rightarrow> udisk \<Rightarrow> update_error option \<times> udisk" where
  "MarkHealthy now d = markHealthy now False d"

definition MarkUnproven :: "gtime \<Rightarrow> udisk \<Rightarrow> update_error option \<times> udisk" where
  "MarkUnproven now d = markHealthy now True d"

definition countStarts :: "gtime list \<Rightarrow> gtime \<Rightarrow> nat" where
  "countStarts starts now = length (filter (\<lambda>s. s \<le> now \<and> subT now s \<le> CrashWindow) starts)"

definition shouldRollback :: "update_state \<Rightarrow> gtime list \<Rightarrow> gtime \<Rightarrow> bool" where
  "shouldRollback st external now =
     (if \<not> statePending st \<or> us_Backup st = [] \<or> us_Target st = [] then False
      else if us_RolledBack st then False
      else let n = countStarts (us_Starts st) now; e = countStarts external now
           in CrashLimit < (if n < e then e else n))"

fun BackupPath :: "goos \<Rightarrow> string \<Rightarrow> string" where
  "BackupPath Unix target = target @ ''.old''"
| "BackupPath Windows target =
     (if toLower (drop (length target - 4) target) = ''.exe'' then take (length target - 4) target else target) @ ''.old.exe''"

definition renameFile :: "string \<Rightarrow> string \<Rightarrow> udisk \<Rightarrow> bool \<times> udisk" where
  "renameFile src dst d =
     (let (ok, d1) = fileOp d
      in case ud_bin d1 src of
           None \<Rightarrow> (False, d1)
         | Some b \<Rightarrow> if ok then (True, d1\<lparr>ud_bin := (ud_bin d1)(src := None, dst \<mapsto> b)\<rparr>) else (False, d1))"

definition removeFile :: "string \<Rightarrow> udisk \<Rightarrow> udisk" where
  "removeFile path d = (let (ok, d1) = fileOp d in if ok then d1\<lparr>ud_bin := (ud_bin d1)(path := None)\<rparr> else d1)"

definition RestoreBackup :: "goos \<Rightarrow> string \<Rightarrow> udisk \<Rightarrow> update_error option \<times> udisk" where
  "RestoreBackup os target d =
     (let backup = BackupPath os target
      in if ud_bin d backup = None then (Some (ErrNoBackup backup), d)
         else let (ok, d1) = renameFile backup target d
              in if \<not> ok then (Some (ErrSwap ''restore backup''), d1)
                 else let (ok2, d2) = fileOp d1 in (if ok2 then None else Some ErrChmod, d2))"

definition finishRollback :: "update_state \<Rightarrow> udisk \<Rightarrow> update_error option \<times> udisk" where
  "finishRollback st d = (case Save st d of (Some e, d1) \<Rightarrow> (Some e, d1) | (None, d1) \<Rightarrow> removeGuardFiles d1)"

definition appendDenied :: "string list \<Rightarrow> string \<Rightarrow> string list" where
  "appendDenied denied version =
     (let v = trimSpace version
      in if v = [] \<or> v \<in> set denied then denied else lastN maxDeniedTracked (denied @ [v]))"

definition rolledBackState :: "update_state \<Rightarrow> update_state" where
  "rolledBackState st = st\<lparr>us_RolledBack := True, us_Healthy := False, us_PendingVersion := [], us_Starts := [],
     us_Denied := appendDenied (us_Denied st) (us_PendingVersion st)\<rparr>"

definition reconcileGuardRollback :: "udisk \<Rightarrow> (bool \<times> update_error option) \<times> udisk" where
  "reconcileGuardRollback d =
     (case loadTracker (ud_state d) of
        Inl e \<Rightarrow> ((False, Some e), d)
      | Inr st \<Rightarrow>
          if \<not> statePending st \<or> us_RolledBack st then ((False, None), d)
          else if ud_probation d \<noteq> None then ((False, None), d)
          else if \<not> IsDenied (us_PendingVersion st) d then ((False, None), d)
          else let (e, d1) = finishRollback (rolledBackState st) d in ((True, e), d1))"

text \<open>Whether the previous binary was restored, and the error reported beside it.\<close>

definition CheckAndRollback :: "goos \<Rightarrow> gtime \<Rightarrow> udisk \<Rightarrow> (bool \<times> update_error option) \<times> udisk" where
  "CheckAndRollback os now d =
     (case reconcileGuardRollback d of
        ((done, err), d1) \<Rightarrow>
          if done \<or> err \<noteq> None then ((False, err), d1)
          else case RecordStart now d1 of
            (Inl e, d2) \<Rightarrow> ((False, Some e), d2)
          | (Inr st, d2) \<Rightarrow>
              if \<not> shouldRollback st (externalStarts d2) now then ((False, None), d2)
              else case RestoreBackup os (us_Target st) d2 of
                (Some e, d3) \<Rightarrow>
                  (case finishRollback (st\<lparr>us_RolledBack := True, us_PendingVersion := []\<rparr>) d3 of
                     (Some e', d4) \<Rightarrow> ((False, Some e'), d4)
                   | (None, d4) \<Rightarrow> ((False, Some e), d4))
              | (None, d3) \<Rightarrow>
                  (case Deny (us_PendingVersion st) d3 of
                     (Some e, d4) \<Rightarrow> ((True, Some e), d4)
                   | (None, d4) \<Rightarrow> (let (e, d5) = finishRollback (rolledBackState st) d4 in ((True, e), d5))))"

record update_report =
  rp_Status :: string
  rp_Version :: string
  rp_Previous :: string
  rp_Since :: gtime
  rp_Denied :: "string list"
  rp_Terminal :: bool

definition Report :: "udisk \<Rightarrow> update_error option \<times> update_report" where
  "Report d =
     (case loadTracker (ud_state d) of
        Inl e \<Rightarrow> (Some e, \<lparr>rp_Status = ''idle'', rp_Version = [], rp_Previous = [], rp_Since = zero_time,
                            rp_Denied = [], rp_Terminal = True\<rparr>)
      | Inr st \<Rightarrow>
          (let rep = \<lparr>rp_Status = ''idle'', rp_Version = us_PendingVersion st, rp_Previous = us_PreviousVersion st,
                      rp_Since = us_SwappedAt st, rp_Denied = Denied d, rp_Terminal = True\<rparr>
           in (None,
               if us_Finalizing st then rep\<lparr>rp_Status := ''finalizing'', rp_Terminal := False\<rparr>
               else if us_FinalizeErr st \<noteq> [] then rep\<lparr>rp_Status := ''finalize_failed''\<rparr>
               else if us_RolledBack st then rep\<lparr>rp_Status := ''rolled_back''\<rparr>
               else if statePending st then rep\<lparr>rp_Status := ''probation'', rp_Terminal := False\<rparr>
               else if us_Healthy st \<and> us_Unproven st then rep\<lparr>rp_Status := ''unproven'', rp_Since := us_HealthyAt st\<rparr>
               else if us_Healthy st then rep\<lparr>rp_Status := ''healthy'', rp_Since := us_HealthyAt st\<rparr>
               else rep)))"

text \<open>
  The loop of \<open>Watch\<close> after the minimum probation, one element per iteration: the probe's answer
  (\<open>None\<close> without a probe), whether the context had ended when the probe failed, the clock, and
  whether the context ended in the wait that follows.
\<close>

record watch_tick =
  wk_probe :: "bool option"
  wk_endedEarly :: bool
  wk_now :: gtime
  wk_ended :: bool

datatype watch_end = WatchStopped | WatchMarked bool | WatchPending | WatchFailed update_error | WatchRunning

definition watchMark :: "gtime \<Rightarrow> bool \<Rightarrow> udisk \<Rightarrow> watch_end \<times> udisk" where
  "watchMark now unproven d =
     (case (if unproven then MarkUnproven now d else MarkHealthy now d) of
        (None, d1) \<Rightarrow> (WatchMarked unproven, d1)
      | (Some (ErrFinalizePending v), d1) \<Rightarrow> (WatchPending, d1)
      | (Some e, d1) \<Rightarrow> (WatchFailed e, d1))"

fun watchLoop :: "gtime \<Rightarrow> watch_tick list \<Rightarrow> udisk \<Rightarrow> watch_end \<times> udisk" where
  "watchLoop deadline [] d = (WatchRunning, d)"
| "watchLoop deadline (tick # ticks) d =
     (if wk_probe tick = Some True then watchMark (wk_now tick) False d
      else if wk_probe tick = Some False \<and> wk_endedEarly tick then (WatchStopped, d)
      else if \<not> wk_now tick < deadline then watchMark (wk_now tick) True d
      else if wk_ended tick then (WatchStopped, d)
      else watchLoop deadline ticks d)"

section \<open>Lemmas\<close>

lemma fileOp_ok [simp]: "ud_faults d = [] \<Longrightarrow> fileOp d = (True, d)"
  by (simp add: fileOp_def)

lemma fileOps_ok [simp]: "ud_faults d = [] \<Longrightarrow> fileOps os d = (None, d)"
  by (induction os) auto

lemma Save_ok [simp]: "ud_faults d = [] \<Longrightarrow> Save st d = (None, d\<lparr>ud_state := SavedState st\<rparr>)"
  by (simp add: Save_def)

lemma removeGuardFiles_ok [simp]:
  "ud_faults d = [] \<Longrightarrow> removeGuardFiles d = (None, d\<lparr>ud_probation := None, ud_starts := None\<rparr>)"
  by (simp add: removeGuardFiles_def removeProbation_def removeStarts_def)

lemma finishRollback_ok [simp]:
  "ud_faults d = [] \<Longrightarrow> finishRollback st d =
     (None, d\<lparr>ud_state := SavedState st, ud_probation := None, ud_starts := None\<rparr>)"
  by (simp add: finishRollback_def)

lemma RestoreBackup_ok:
  "ud_faults d = [] \<Longrightarrow> ud_bin d (BackupPath os t) = Some b \<Longrightarrow>
   RestoreBackup os t d = (None, d\<lparr>ud_bin := (ud_bin d)(BackupPath os t := None, t \<mapsto> b)\<rparr>)"
  by (simp add: RestoreBackup_def renameFile_def Let_def)

lemma Deny_ok:
  "ud_faults d = [] \<Longrightarrow> Deny v d = (None, if trimSpace v = [] then d else
     d\<lparr>ud_denied := Some ((case ud_denied d of None \<Rightarrow> [] | Some raw \<Rightarrow> raw) @ trimSpace v @ [CHR 0x0A])\<rparr>)"
  by (simp add: Deny_def Let_def)

lemma reconcile_probation:
  "loadTracker (ud_state d) = Inr st \<Longrightarrow> ud_probation d \<noteq> None \<Longrightarrow> reconcileGuardRollback d = ((False, None), d)"
  by (simp add: reconcileGuardRollback_def)

text \<open>The starts a launch is judged by: the agent's own count and the guard's, the larger one.\<close>

definition crashCount :: "gtime \<Rightarrow> update_state \<Rightarrow> udisk \<Rightarrow> nat" where
  "crashCount now st d =
     max (countStarts (lastN maxStartsTracked (us_Starts st @ [now])) now) (countStarts (externalStarts d) now)"

lemma shouldRollback_iff:
  "shouldRollback st ext now \<longleftrightarrow> statePending st \<and> us_Backup st \<noteq> [] \<and> us_Target st \<noteq> [] \<and> \<not> us_RolledBack st \<and>
     2 < max (countStarts (us_Starts st) now) (countStarts ext now)"
  by (auto simp: shouldRollback_def CrashLimit_def Let_def)

text \<open>An update on probation that can be rolled back, on a disk without faults.\<close>

definition onProbation :: "goos \<Rightarrow> update_state \<Rightarrow> bytes \<Rightarrow> udisk \<Rightarrow> bool" where
  "onProbation os st old d \<longleftrightarrow>
     ud_faults d = [] \<and> ud_state d = SavedState st \<and> statePending st \<and> \<not> us_RolledBack st \<and>
     ud_probation d \<noteq> None \<and> us_Backup st \<noteq> [] \<and> us_Target st \<noteq> [] \<and>
     ud_bin d (BackupPath os (us_Target st)) = Some old"

lemma CheckAndRollback_step:
  fixes now :: gtime
  assumes "onProbation os st old d"
  defines "st' \<equiv> st\<lparr>us_Starts := lastN maxStartsTracked (us_Starts st @ [now])\<rparr>"
  shows "CheckAndRollback os now d =
    (if 2 < crashCount now st d
     then ((True, None),
           (snd (Deny (us_PendingVersion st)
             (d\<lparr>ud_state := SavedState st', ud_bin := (ud_bin d)(BackupPath os (us_Target st) := None, us_Target st \<mapsto> old)\<rparr>)))
           \<lparr>ud_state := SavedState (rolledBackState st'), ud_probation := None, ud_starts := None\<rparr>)
     else ((False, None), d\<lparr>ud_state := SavedState st'\<rparr>))"
proof -
  from assms(1) have f: "ud_faults d = []" and st: "ud_state d = SavedState st" and pend: "statePending st"
    and p: "ud_probation d \<noteq> None" and old: "ud_bin d (BackupPath os (us_Target st)) = Some old"
    and ok: "\<not> us_RolledBack st" "us_Backup st \<noteq> []" "us_Target st \<noteq> []" by (auto simp: onProbation_def)
  have l: "loadTracker (ud_state d) = Inr st" using st by simp
  have rec: "RecordStart now d = (Inr st', d\<lparr>ud_state := SavedState st'\<rparr>)"
    using l pend f by (simp add: RecordStart_def st'_def Let_def)
  have ext: "externalStarts (d\<lparr>ud_state := SavedState st'\<rparr>) = externalStarts d" by (simp add: externalStarts_def)
  have fields: "us_Target st' = us_Target st" "us_PendingVersion st' = us_PendingVersion st"
    "statePending st' = statePending st" by (simp_all add: st'_def statePending_def)
  have sr: "shouldRollback st' (externalStarts d) now \<longleftrightarrow> 2 < crashCount now st d"
    using pend ok unfolding shouldRollback_iff crashCount_def fields by (simp add: st'_def)
  show ?thesis
    using f old
    by (simp add: CheckAndRollback_def reconcile_probation [OF l p] rec ext sr fields RestoreBackup_ok Deny_ok)
qed

lemma addDenied_set: "set (addDenied vs out) = set out \<union> {trimSpace v | v. v \<in> set vs \<and> trimSpace v \<noteq> []}"
proof (induction vs arbitrary: out)
  case (Cons v vs)
  then show ?case by (auto simp: Let_def)
qed simp

lemma lastN_all: "length xs \<le> n \<Longrightarrow> lastN n xs = xs"
  by (simp add: lastN_def)

definition deniedLines :: "udisk \<Rightarrow> string list" where
  "deniedLines d = (case loadTracker (ud_state d) of Inl _ \<Rightarrow> [] | Inr st \<Rightarrow> us_Denied st) @
     (case ud_denied d of None \<Rightarrow> [] | Some raw \<Rightarrow> splitOn CHR 0x0A raw)"

lemma Denied_eq: "Denied d = lastN maxDeniedTracked (addDenied (deniedLines d) [])"
  by (auto simp: Denied_def deniedLines_def Let_def noState_def split: sum.splits)

lemma watchMark_finalizing:
  "loadTracker (ud_state d) = Inr st \<Longrightarrow> us_Finalizing st \<Longrightarrow> watchMark now u d = (WatchPending, d)"
  by (simp add: watchMark_def MarkUnproven_def MarkHealthy_def markHealthy_def)

lemma watchMark_kind: "watchMark now u d = (WatchMarked b, d') \<Longrightarrow> b = u"
  by (auto simp: watchMark_def split: prod.splits option.splits update_error.splits)

section \<open>Properties\<close>

definition demoState :: update_state where
  "demoState = noState\<lparr>us_PendingVersion := ''1.1'', us_PreviousVersion := ''1.0'', us_Target := ''/agent'',
     us_Backup := ''/agent.old'', us_SwappedAt := 0, us_Starts := [second, 2 * second]\<rparr>"

definition demoDisk :: udisk where
  "demoDisk = \<lparr>ud_state = SavedState demoState, ud_marker = None,
     ud_probation = Some \<lparr>pb_version = ''1.1'', pb_previous = ''1.0'', pb_target = ''/agent'',
       pb_backup = ''/agent.old'', pb_swappedAt = 0, pb_finalizing = False\<rparr>,
     ud_starts = None, ud_denied = None, ud_bin = [''/agent'' \<mapsto> ''bad'', ''/agent.old'' \<mapsto> ''good''], ud_faults = []\<rparr>"

lemma demo_onProbation: "onProbation Unix demoState ''good'' demoDisk"
  by (simp add: onProbation_def demoDisk_def demoState_def statePending_def noState_def)



text \<open>
  The denylist. As long as the host has rolled back at most 32 versions, a version is refused
  exactly when it is on the list of the state file or on the one the guard appends to.
\<close>

theorem IsDenied_recorded:
  assumes "length (addDenied (deniedLines d) []) \<le> 32"
  shows "IsDenied v d \<longleftrightarrow> v \<noteq> [] \<and> v \<in> trimSpace ` set (deniedLines d)"
  using assms by (auto simp: IsDenied_def Denied_eq lastN_all maxDeniedTracked_def addDenied_set image_iff)

theorem IsDenied_recorded_witness:
  "IsDenied ''1.1'' (demoDisk\<lparr>ud_denied := Some (''1.1'' @ [CHR 0x0A])\<rparr>) \<longleftrightarrow>
     ''1.1'' \<in> trimSpace ` set [''1.1'', []]"
  using IsDenied_recorded [of "demoDisk\<lparr>ud_denied := Some (''1.1'' @ [CHR 0x0A])\<rparr>" "''1.1''"]
  by (simp add: deniedLines_def demoDisk_def demoState_def noState_def trimBy_def trimLeftBy_def trimRightBy_def
      isSpace_def Let_def)

definition deniedFile :: string where
  "deniedFile = concat (map (\<lambda>n. ''v'' @ itoa (int n) @ [CHR 0x0A]) [0..<33])"

text \<open>
  Beyond 32 versions the denylist forgets the newest first: the state file's versions are
  listed before the guard's file and the list is cut at its front. A host whose file holds 33
  versions rolls another one back, and that version is not denied.
\<close>

theorem denylist_forgets_newest:
  "let d' = snd (CheckAndRollback Unix (3 * second) (demoDisk\<lparr>ud_denied := Some deniedFile\<rparr>)) in
     fst (CheckAndRollback Unix (3 * second) (demoDisk\<lparr>ud_denied := Some deniedFile\<rparr>)) = (True, None) \<and>
     \<not> IsDenied ''1.1'' d'"
proof -
  let ?d = "demoDisk\<lparr>ud_denied := Some deniedFile\<rparr>"
  have on: "onProbation Unix demoState ''good'' ?d" using demo_onProbation by (simp add: onProbation_def)
  have crash: "2 < crashCount (3 * second) demoState ?d"
    by (simp add: crashCount_def demoState_def demoDisk_def countStarts_def lastN_def maxStartsTracked_def
        subT_def second_def CrashWindow_def externalStarts_def)
  have f: "ud_faults ?d = []" by (simp add: demoDisk_def)
  let ?d' = "snd (CheckAndRollback Unix (3 * second) ?d)"
  have v: "trimSpace ''1.1'' = ''1.1''" by code_simp
  have step: "fst (CheckAndRollback Unix (3 * second) ?d) = (True, None)"
    "loadTracker (ud_state ?d') = Inr (rolledBackState (demoState\<lparr>us_Starts := lastN maxStartsTracked (us_Starts demoState @ [3 * second])\<rparr>))"
    "ud_denied ?d' = Some (deniedFile @ ''1.1'' @ [CHR 0x0A])"
    using CheckAndRollback_step [OF on, of "3 * second"] crash f
    by (simp_all add: Deny_ok v) (simp add: demoState_def v)
  have "us_Denied (rolledBackState (demoState\<lparr>us_Starts := ss\<rparr>)) = [''1.1'']" for ss
    by (simp add: rolledBackState_def demoState_def noState_def appendDenied_def v lastN_def maxDeniedTracked_def)
  then have lines: "deniedLines ?d' = ''1.1'' # splitOn CHR 0x0A (deniedFile @ ''1.1'' @ [CHR 0x0A])"
    using step by (simp add: deniedLines_def)
  have "\<not> ''1.1'' \<in> set (lastN maxDeniedTracked (addDenied (''1.1'' # splitOn CHR 0x0A (deniedFile @ ''1.1'' @ [CHR 0x0A])) []))"
    by code_simp
  then show ?thesis using step(1) by (simp add: Let_def IsDenied_def Denied_eq lines)
qed

text \<open>
  Probation ends on evidence. The watch marks a build healthy only after the probe answered,
  and unproven only once the deadline passed; and while a finalizer has not reported it marks
  nothing and changes nothing on disk.
\<close>

theorem watch_needs_evidence:
  assumes "watchLoop deadline ticks d = (r, d')"
  shows "(r = WatchMarked False \<longrightarrow> list_ex (\<lambda>t. wk_probe t = Some True) ticks) \<and>
    (r = WatchMarked True \<longrightarrow> list_ex (\<lambda>t. deadline \<le> wk_now t) ticks) \<and>
    (\<forall>st. loadTracker (ud_state d) = Inr st \<longrightarrow> us_Finalizing st \<longrightarrow> d' = d)"
  using assms
proof (induction ticks)
  case (Cons t ticks)
  then show ?case
    by (auto split: if_splits simp: watchMark_finalizing dest: watchMark_kind)
qed simp

theorem watch_needs_evidence_witness:
  "list_ex (\<lambda>t. wk_probe t = Some True) [\<lparr>wk_probe = Some True, wk_endedEarly = False, wk_now = 5, wk_ended = False\<rparr>] \<and>
   fst (watchLoop 9 [\<lparr>wk_probe = Some True, wk_endedEarly = False, wk_now = 5, wk_ended = False\<rparr>] demoDisk) = WatchMarked False"
proof -
  let ?t = "\<lparr>wk_probe = Some True, wk_endedEarly = False, wk_now = 5, wk_ended = False\<rparr>"
  obtain d' where w: "watchLoop 9 [?t] demoDisk = (WatchMarked False, d')"
    by (simp add: watchMark_def MarkHealthy_def markHealthy_def demoDisk_def demoState_def noState_def statePending_def Let_def)
  from watch_needs_evidence [OF w] w show ?thesis by simp
qed

text \<open>
  A finalizer that failed leaves the update pending. Nothing was swapped and the guard's file
  is removed, yet the state still counts as on probation, so a later success of the probe records
  as healthy a version that was never installed.
\<close>

theorem failed_finalizer_stays_pending:
  assumes "ud_faults d = []" and "ud_state d = SavedState st" and "statePending st"
  shows "let d1 = snd (FinalizeOutcome t1 (Some msg) d); (err, d2) = MarkHealthy t2 d1 in
    ud_probation d1 = None \<and> ud_bin d1 = ud_bin d \<and>
    err = None \<and> ud_marker d2 = Some (us_PendingVersion st, t2, False)"
  using assms
  by (simp add: FinalizeOutcome_def removeProbation_def MarkHealthy_def markHealthy_def statePending_def Let_def)

theorem failed_finalizer_stays_pending_witness:
  "ud_marker (snd (MarkHealthy 7 (snd (FinalizeOutcome 5 (Some ''timeout'') demoDisk)))) = Some (''1.1'', 7, False)"
  using failed_finalizer_stays_pending [of demoDisk demoState 5 "''timeout''" 7]
  by (simp add: demoDisk_def demoState_def statePending_def noState_def Let_def split: prod.splits)

end
