(* ===== verification/Update_Apply.thy ===== *)
theory Update_Apply
  imports Update_Tracker
begin

text \<open>
  Applying a self-update: the swap of the binary (\<open>swap.go\<close>), the resumable download
  (\<open>download.go\<close>) and the pipeline \<open>Apply\<close> (\<open>update.go\<close>), on the disk of
  \<open>Update_Tracker\<close>.

  HTTP is the argument \<open>get\<close>: from a URL and the start of a range request to a response, or
  \<open>None\<close> when the request fails. Spawning the Windows finalizer is its outcome, a process id or
  nothing. Two names are the same file when they are the same path.
\<close>

section \<open>Swapping the binary\<close>

text \<open>
  A copy that cannot be opened leaves the destination; one that fails while copying is removed;
  one whose mode cannot be set is an error too, but stays.
\<close>

definition copyFile :: "string \<Rightarrow> string \<Rightarrow> udisk \<Rightarrow> bool \<times> udisk" where
  "copyFile src dst d =
     (let (opened, d1) = fileOp d
      in case ud_bin d1 src of
           None \<Rightarrow> (False, d1)
         | Some b \<Rightarrow>
             if \<not> opened then (False, d1)
             else let (copied, d2) = fileOp d1
                  in if \<not> copied then (False, d2\<lparr>ud_bin := (ud_bin d2)(dst := None)\<rparr>)
                     else fileOp (d2\<lparr>ud_bin := (ud_bin d2)(dst \<mapsto> b)\<rparr>))"

definition sameFile :: "string \<Rightarrow> string \<Rightarrow> udisk \<Rightarrow> bool" where
  "sameFile a b d \<longleftrightarrow> a = b \<and> ud_bin d a \<noteq> None"

record swap_result =
  sw_Target :: string
  sw_Backup :: string

definition Swap :: "goos \<Rightarrow> string \<Rightarrow> string \<Rightarrow> udisk \<Rightarrow> (update_error + swap_result) \<times> udisk" where
  "Swap os target staged d =
     (if target = [] \<or> staged = [] then (Inl (ErrSwap ''empty target or staged path''), d)
      else if sameFile target staged d then (Inl ErrSameFilenames, d)
      else let backup = BackupPath os target;
               tmp = target @ ''.new'';
               (copied, d1) = copyFile staged tmp d
           in if \<not> copied then (Inl (ErrSwap ''stage next to target''), d1)
              else let (aside, d3) = renameFile target backup (removeFile backup d1)
                   in if \<not> aside then (Inl (ErrSwap ''move current binary aside''), removeFile tmp d3)
                      else let (placed, d4) = renameFile tmp target d3
                           in if \<not> placed
                              then (Inl (ErrSwap ''move new binary into place''),
                                    removeFile tmp (snd (renameFile backup target d4)))
                              else (Inr \<lparr>sw_Target = target, sw_Backup = backup\<rparr>, d4))"

definition RemoveBackup :: "goos \<Rightarrow> string \<Rightarrow> udisk \<Rightarrow> udisk" where
  "RemoveBackup os target d = removeFile (BackupPath os target) d"

definition HasBackup :: "goos \<Rightarrow> string \<Rightarrow> udisk \<Rightarrow> bool" where
  "HasBackup os target d \<longleftrightarrow> ud_bin d (BackupPath os target) \<noteq> None"

fun NeedsFinalizer :: "goos \<Rightarrow> bool" where
  "NeedsFinalizer Unix = False"
| "NeedsFinalizer Windows = True"

section \<open>Downloading\<close>

datatype download_error = ErrDownload | ErrTooLarge | ErrNotHTTPS | ErrBadStatus | ErrEmptyResult

definition DefaultMaxBytes :: nat where
  "DefaultMaxBytes = 256 * 2 ^ 20"

record http_resp =
  hr_status :: nat
  hr_body :: bytes
  hr_readErr :: bool

type_synonym http_get = "string \<Rightarrow> nat option \<Rightarrow> http_resp option"

record downloader =
  dl_get :: http_get
  dl_maxBytes :: nat
  dl_insecure :: bool

definition maxBytes :: "downloader \<Rightarrow> nat" where
  "maxBytes dl = (if 0 < dl_maxBytes dl then dl_maxBytes dl else DefaultMaxBytes)"

definition usableURL :: "downloader \<Rightarrow> string \<Rightarrow> bool" where
  "usableURL dl url \<longleftrightarrow> dl_insecure dl \<or> cutPrefix ''https://'' (toLower url) \<noteq> None"

definition StagingDir :: "string \<Rightarrow> string" where
  "StagingDir stateDir = stateDir @ ''/staging''"

definition keepVersionRune :: "char \<Rightarrow> char" where
  "keepVersionRune r = (if isAlnum r \<or> r \<in> {CHR ''.'', CHR ''-'', CHR ''_'', CHR ''+''} then r else CHR ''_'')"

text \<open>Versions are ASCII here.\<close>

definition sanitizeVersion :: "string \<Rightarrow> string" where
  "sanitizeVersion v =
     (if v = [] then ''unknown''
      else let s = map keepVersionRune v in if 64 < length s then take 64 s else s)"

fun exeExt :: "goos \<Rightarrow> string" where
  "exeExt Unix = []"
| "exeExt Windows = ''.exe''"

definition StagedPath :: "goos \<Rightarrow> string \<Rightarrow> string \<Rightarrow> string" where
  "StagedPath os stateDir version = StagingDir stateDir @ ''/everwas-agent-'' @ sanitizeVersion version @ exeExt os"

text \<open>
  The part of \<open>Download\<close> after the response: \<open>base\<close> is what the part file keeps, the body is
  read up to one byte past the cap.
\<close>

definition receive :: "downloader \<Rightarrow> string \<Rightarrow> bytes \<Rightarrow> http_resp \<Rightarrow> udisk \<Rightarrow> (download_error + nat) \<times> udisk" where
  "receive dl dest base resp d =
     (let part = dest @ ''.part'';
          (opened, d1) = fileOp d
      in if \<not> opened then (Inl ErrDownload, d1)
         else let remaining = maxBytes dl - length base;
                  body = take (remaining + 1) (hr_body resp);
                  d2 = d1\<lparr>ud_bin := (ud_bin d1)(part \<mapsto> base @ body)\<rparr>
              in if hr_readErr resp then (Inl ErrDownload, d2)
                 else let (closed, d3) = fileOp d2
                      in if \<not> closed then (Inl ErrDownload, d3)
                         else if remaining < length body then (Inl ErrTooLarge, removeFile part d3)
                         else if length base + length body = 0 then (Inl ErrEmptyResult, removeFile part d3)
                         else let (renamed, d4) = renameFile part dest d3
                              in if \<not> renamed then (Inl ErrDownload, d4)
                                 else let (ok, d5) = fileOp d4
                                      in if ok then (Inr (length base + length body), d5) else (Inl ErrDownload, d5))"

definition Download :: "downloader \<Rightarrow> string \<Rightarrow> string \<Rightarrow> udisk \<Rightarrow> (download_error + nat) \<times> udisk" where
  "Download dl url dest d0 =
     (if \<not> usableURL dl url then (Inl ErrNotHTTPS, d0)
      else let (made, d) = fileOp d0
           in if \<not> made then (Inl ErrDownload, d)
              else let part = dest @ ''.part'';
                       size = (case ud_bin d part of None \<Rightarrow> 0 | Some b \<Rightarrow> length b);
                       stale = maxBytes dl < size;
                       d1 = (if stale then removeFile part d else d);
                       have = (if stale then 0 else size)
                   in case dl_get dl url (if 0 < have then Some have else None) of
                        None \<Rightarrow> (Inl ErrDownload, d1)
                      | Some resp \<Rightarrow>
                          if hr_status resp = 200 then receive dl dest [] resp d1
                          else if hr_status resp = 206 then
                            receive dl dest (if 0 < have then (case ud_bin d1 part of None \<Rightarrow> [] | Some b \<Rightarrow> b) else []) resp d1
                          else if hr_status resp = 416 then (Inl ErrDownload, removeFile part d1)
                          else (Inl ErrBadStatus, d1))"

definition Fetch :: "downloader \<Rightarrow> string \<Rightarrow> nat \<Rightarrow> download_error + bytes" where
  "Fetch dl url limit =
     (if \<not> usableURL dl url then Inl ErrNotHTTPS
      else case dl_get dl url None of
             None \<Rightarrow> Inl ErrDownload
           | Some resp \<Rightarrow>
               if hr_status resp \<noteq> 200 then Inl ErrBadStatus
               else if hr_readErr resp then Inl ErrDownload
               else let body = take (limit + 1) (hr_body resp)
                    in if limit < length body then Inl ErrTooLarge else Inr body)"

text \<open>Every file directly in the staging directory is removed.\<close>

definition inStaging :: "string \<Rightarrow> string \<Rightarrow> bool" where
  "inStaging stateDir path \<longleftrightarrow>
     (case cutPrefix (StagingDir stateDir @ ''/'') path of Some name \<Rightarrow> CHR ''/'' \<notin> set name | None \<Rightarrow> False)"

definition CleanStaging :: "string \<Rightarrow> udisk \<Rightarrow> udisk" where
  "CleanStaging stateDir d = d\<lparr>ud_bin := (\<lambda>p. if inStaging stateDir p then None else ud_bin d p)\<rparr>"

section \<open>Apply\<close>

record update_request =
  rq_Version :: string
  rq_ArtifactURL :: string
  rq_SHA256 :: string
  rq_Signature :: bytes
  rq_SignatureURL :: string
  rq_PublicKeys :: "string list"
  rq_Force :: bool

record update_result =
  ur_Version :: string
  ur_Target :: string
  ur_Backup :: string
  ur_StagedPath :: string
  ur_Bytes :: nat
  ur_Finalizing :: bool
  ur_FinalizerPID :: int
  ur_Status :: string

datatype step = StepValidate | StepKeys | StepDownload | StepChecksum | StepSignature | StepStage | StepSwap

datatype apply_cause =
    CauseMissing string
  | CauseDenied
  | CauseFinalizePending
  | CauseVerify verify_error
  | CauseDownload download_error
  | CauseTracker update_error
  | CauseRead

datatype apply_error = ErrAlreadyCurrent | StepError step apply_cause

record apply_env =
  ae_os :: goos
  ae_stateDir :: string
  ae_targetPath :: string
  ae_executable :: "string option"
  ae_current :: string
  ae_embedded :: string
  ae_devBuild :: string
  ae_ed :: ed_verify
  ae_sha256 :: hasher
  ae_dl :: downloader
  ae_now :: gtime
  ae_finalizer :: "int option"

definition maxSignatureBytes :: nat where
  "maxSignatureBytes = 8 * 1024"

definition discard :: "string \<Rightarrow> udisk \<Rightarrow> udisk" where
  "discard path d = (if path = [] then d else removeFile (path @ ''.part'') (removeFile path d))"

definition validateRequest :: "apply_env \<Rightarrow> update_request \<Rightarrow> udisk \<Rightarrow> apply_error option" where
  "validateRequest env req d =
     (if rq_Version req = [] then Some (StepError StepValidate (CauseMissing ''version''))
      else if rq_ArtifactURL req = [] then Some (StepError StepValidate (CauseMissing ''artifact URL''))
      else if rq_SHA256 req = [] then Some (StepError StepValidate (CauseMissing ''sha256''))
      else if rq_Signature req = [] \<and> rq_SignatureURL req = [] then Some (StepError StepValidate (CauseMissing ''signature''))
      else if ae_stateDir env = [] then Some (StepError StepValidate (CauseMissing ''state dir''))
      else if ae_current env \<noteq> [] \<and> rq_Version req = ae_current env then Some ErrAlreadyCurrent
      else if \<not> rq_Force req \<and> IsDenied (rq_Version req) d then Some (StepError StepValidate CauseDenied)
      else if (case loadTracker (ud_state d) of Inl _ \<Rightarrow> False | Inr prior \<Rightarrow> us_Finalizing prior) \<and> \<not> rq_Force req
      then Some (StepError StepValidate CauseFinalizePending)
      else None)"

definition applyTarget :: "apply_env \<Rightarrow> string option" where
  "applyTarget env = (if ae_targetPath env \<noteq> [] then Some (ae_targetPath env) else ae_executable env)"

text \<open>The checks on the staged artifact: what was read, and why it is refused.\<close>

definition checkArtifact :: "apply_env \<Rightarrow> update_request \<Rightarrow> publicKey list \<Rightarrow> bytes \<Rightarrow> apply_error option" where
  "checkArtifact env req keys body =
     (case VerifySHA256 (ae_sha256 env) body (rq_SHA256 req) of
        Some e \<Rightarrow> Some (StepError StepChecksum (CauseVerify e))
      | None \<Rightarrow>
          (case (if rq_Signature req = [] then Fetch (ae_dl env) (rq_SignatureURL req) maxSignatureBytes
                 else Inr (rq_Signature req)) of
             Inl e \<Rightarrow> Some (StepError StepSignature (CauseDownload e))
           | Inr sig \<Rightarrow>
               (case VerifyAny (ae_ed env) keys body sig of
                  Some e \<Rightarrow> Some (StepError StepSignature (CauseVerify e))
                | None \<Rightarrow> None)))"

text \<open>From a verified artifact to the swapped binary or the finalizer.\<close>

definition installStaged ::
  "apply_env \<Rightarrow> update_request \<Rightarrow> string \<Rightarrow> string \<Rightarrow> nat \<Rightarrow> udisk \<Rightarrow> (apply_error + update_result) \<times> udisk"
where
  "installStaged env req target staged n d =
     (let backup = BackupPath (ae_os env) target
      in case BeginUpdate (ae_now env) (rq_Version req) (ae_current env) target backup d of
           (Some e, d1) \<Rightarrow> (Inl (StepError StepStage (CauseTracker e)), discard staged d1)
         | (None, d1) \<Rightarrow>
             (case Swap (ae_os env) target staged d1 of
                (Inr sw, d2) \<Rightarrow>
                  (Inr \<lparr>ur_Version = rq_Version req, ur_Target = sw_Target sw, ur_Backup = sw_Backup sw,
                        ur_StagedPath = staged, ur_Bytes = n, ur_Finalizing = False, ur_FinalizerPID = 0,
                        ur_Status = ''applied''\<rparr>, CleanStaging (ae_stateDir env) d2)
              | (Inl e, d2) \<Rightarrow>
                  (case (if NeedsFinalizer (ae_os env) then ae_finalizer env else None) of
                     Some pid \<Rightarrow>
                       (Inr \<lparr>ur_Version = rq_Version req, ur_Target = target, ur_Backup = backup,
                             ur_StagedPath = staged, ur_Bytes = n, ur_Finalizing = True, ur_FinalizerPID = pid,
                             ur_Status = ''finalizing''\<rparr>, snd (BeginFinalize pid d2))
                   | None \<Rightarrow>
                       (Inl (StepError StepSwap (CauseTracker e)), discard staged (snd (Clear d2))))))"

definition Apply :: "apply_env \<Rightarrow> update_request \<Rightarrow> udisk \<Rightarrow> (apply_error + update_result) \<times> udisk" where
  "Apply env req d =
     (case validateRequest env req d of
        Some e \<Rightarrow> (Inl e, d)
      | None \<Rightarrow>
      (case applyTarget env of
        None \<Rightarrow> (Inl (StepError StepValidate (CauseMissing ''running binary'')), d)
      | Some target \<Rightarrow>
      (case TrustedKeys (ae_embedded env) (ae_devBuild env) (rq_PublicKeys req) of
        Inl e \<Rightarrow> (Inl (StepError StepKeys (CauseVerify e)), d)
      | Inr keys \<Rightarrow>
          (let staged = StagedPath (ae_os env) (ae_stateDir env) (rq_Version req)
           in case Download (ae_dl env) (rq_ArtifactURL req) staged d of
                (Inl e, d1) \<Rightarrow> (Inl (StepError StepDownload (CauseDownload e)), d1)
              | (Inr n, d1) \<Rightarrow>
                  (let (read, d2) = fileOp d1
                   in case (if read then ud_bin d2 staged else None) of
                        None \<Rightarrow> (Inl (StepError StepStage CauseRead), discard staged d2)
                      | Some body \<Rightarrow>
                          (case checkArtifact env req keys body of
                             Some e \<Rightarrow> (Inl e, discard staged d2)
                           | None \<Rightarrow> installStaged env req target staged n d2))))))"

section \<open>What the operations leave alone\<close>

lemma fileOp_frame:
  "fileOp d = (ok, d') \<Longrightarrow> ud_bin d' = ud_bin d \<and> ud_state d' = ud_state d \<and> ud_denied d' = ud_denied d"
  by (auto simp: fileOp_def split: list.splits)

lemma fileOps_frame: "fileOps os d = (e, d') \<Longrightarrow> ud_bin d' = ud_bin d \<and> ud_denied d' = ud_denied d"
  by (induction os arbitrary: d) (auto split: prod.splits if_splits dest: fileOp_frame)

lemma removeFile_other: "q \<noteq> p \<Longrightarrow> ud_bin (removeFile p d) q = ud_bin d q"
  by (auto simp: removeFile_def split: prod.splits dest: fileOp_frame)

lemma renameFile_spec:
  "renameFile a b d = (ok, d') \<Longrightarrow>
   (if ok then \<exists>c. ud_bin d a = Some c \<and> ud_bin d' = (ud_bin d)(a := None, b \<mapsto> c) else ud_bin d' = ud_bin d)"
  by (auto simp: renameFile_def Let_def split: prod.splits option.splits if_splits dest!: fileOp_frame)

lemma copyFile_spec:
  "copyFile src dst d = (ok, d') \<Longrightarrow>
   (\<forall>q. q \<noteq> dst \<longrightarrow> ud_bin d' q = ud_bin d q) \<and> (ok \<longrightarrow> ud_bin d src \<noteq> None \<and> ud_bin d' dst = ud_bin d src)"
  by (auto simp: copyFile_def Let_def split: prod.splits option.splits if_splits dest!: fileOp_frame)

lemma Save_frame: "Save st d = (e, d') \<Longrightarrow> ud_bin d' = ud_bin d"
  by (auto simp: Save_def simp del: fileOps.simps split: prod.splits option.splits dest!: fileOps_frame)

lemma writeProbation_frame: "writeProbation st d = (e, d') \<Longrightarrow> ud_bin d' = ud_bin d"
  by (auto simp: writeProbation_def simp del: fileOps.simps split: prod.splits option.splits dest!: fileOps_frame)

lemma saveAndProbation_frame: "saveAndProbation st d = (e, d') \<Longrightarrow> ud_bin d' = ud_bin d"
  by (auto simp: saveAndProbation_def split: prod.splits option.splits dest!: Save_frame writeProbation_frame)

lemma BeginUpdate_frame: "BeginUpdate now v pv t b d = (e, d') \<Longrightarrow> ud_bin d' = ud_bin d"
  by (auto simp: BeginUpdate_def Let_def split: prod.splits sum.splits if_splits dest!: saveAndProbation_frame fileOp_frame)

lemma BeginFinalize_frame: "ud_bin (snd (BeginFinalize pid d)) = ud_bin d"
  by (auto simp: BeginFinalize_def split: sum.splits)
    (metis prod.collapse saveAndProbation_frame)

lemma removeGuardFiles_frame: "removeGuardFiles d = (e, d') \<Longrightarrow> ud_bin d' = ud_bin d"
  by (auto simp: removeGuardFiles_def removeProbation_def removeStarts_def Let_def
      split: prod.splits option.splits if_splits dest!: fileOp_frame)

lemma Clear_frame: "Clear d = (e, d') \<Longrightarrow> ud_bin d' = ud_bin d"
  by (auto simp: Clear_def Let_def split: prod.splits if_splits dest!: fileOp_frame removeGuardFiles_frame)

lemma discard_other: "q \<noteq> p \<Longrightarrow> q \<noteq> p @ ''.part'' \<Longrightarrow> ud_bin (discard p d) q = ud_bin d q"
  by (simp add: discard_def removeFile_other)

lemma receive_other:
  "receive dl dest base resp d = (r, d') \<Longrightarrow> q \<noteq> dest \<Longrightarrow> q \<noteq> dest @ ''.part'' \<Longrightarrow> ud_bin d' q = ud_bin d q"
  by (auto simp: receive_def Let_def removeFile_other split: prod.splits if_splits
      dest!: fileOp_frame renameFile_spec)

lemma Download_other:
  "Download dl url dest d = (r, d') \<Longrightarrow> q \<noteq> dest \<Longrightarrow> q \<noteq> dest @ ''.part'' \<Longrightarrow> ud_bin d' q = ud_bin d q"
  by (auto simp: Download_def Let_def removeFile_other split: prod.splits if_splits option.splits
      dest!: fileOp_frame receive_other)

section \<open>The swap\<close>

lemma paths_apart: "BackupPath os t \<noteq> t" "t @ ''.new'' \<noteq> t" "BackupPath os t \<noteq> t @ ''.new''"
proof -
  show "t @ ''.new'' \<noteq> t" by simp
  show "BackupPath os t \<noteq> t"
  proof (cases os)
    case Windows
    have "length (BackupPath Windows t) > length t" by auto
    then show ?thesis using Windows by (metis nat_neq_iff)
  qed simp
  show "BackupPath os t \<noteq> t @ ''.new''"
  proof
    assume "BackupPath os t = t @ ''.new''"
    then have "last (BackupPath os t) = last (t @ ''.new'')" by simp
    then show False by (cases os) auto
  qed
qed

lemma Swap_spec:
  assumes sw: "Swap os target staged d = (r, d')" and st: "staged \<noteq> target @ ''.new''"
  shows "(\<forall>s. r = Inr s \<longrightarrow> ud_bin d staged \<noteq> None \<and> ud_bin d target \<noteq> None \<and> sw_Target s = target \<and>
      sw_Backup s = BackupPath os target \<and>
      ud_bin d' target = ud_bin d staged \<and> ud_bin d' (BackupPath os target) = ud_bin d target) \<and>
    (\<forall>e. r = Inl e \<longrightarrow> ud_bin d' target = ud_bin d target \<or>
      (ud_bin d' target = None \<and> ud_bin d' (BackupPath os target) = ud_bin d target))"
proof (cases "target = [] \<or> staged = [] \<or> sameFile target staged d")
  case True
  then show ?thesis using sw by (auto simp: Swap_def split: if_splits)
next
  case False
  let ?b = "BackupPath os target" and ?t = "target @ ''.new''"
  note ne = paths_apart(1) [of os target] paths_apart(2) [of target] paths_apart(3) [of os target]
  obtain ok1 d1 where c: "copyFile staged ?t d = (ok1, d1)" by (cases "copyFile staged ?t d")
  note c' = copyFile_spec [OF c]
  show ?thesis
  proof (cases ok1)
    case False
    then have "r = Inl (ErrSwap ''stage next to target'')" "d' = d1"
      using sw c \<open>\<not> (target = [] \<or> staged = [] \<or> sameFile target staged d)\<close> by (auto simp: Swap_def Let_def)
    then show ?thesis using c' ne by auto
  next
    case True
    let ?d2 = "removeFile ?b d1"
    obtain ok3 d3 where m: "renameFile target ?b ?d2 = (ok3, d3)" by (cases "renameFile target ?b ?d2")
    note m' = renameFile_spec [OF m]
    have t2: "ud_bin ?d2 target = ud_bin d target" "ud_bin ?d2 ?t = ud_bin d staged"
      using c' True ne by (auto simp: removeFile_other)
    note sw' = sw [unfolded Swap_def Let_def c] False True m
    show ?thesis
    proof (cases ok3)
      case no: False
      then have "r = Inl (ErrSwap ''move current binary aside'')" "d' = removeFile ?t d3" using sw' by auto
      then show ?thesis using m' no t2 ne by (auto simp: removeFile_other)
    next
      case ok: True
      obtain ok4 d4 where p: "renameFile ?t target d3 = (ok4, d4)" by (cases "renameFile ?t target d3")
      note p' = renameFile_spec [OF p]
      from m' ok obtain old where old: "ud_bin ?d2 target = Some old" "ud_bin d3 = (ud_bin ?d2)(target := None, ?b \<mapsto> old)" by auto
      have t3: "ud_bin d3 ?t = ud_bin d staged" "ud_bin d3 ?b = ud_bin d target" "ud_bin d3 target = None"
        using old t2 ne by auto
      show ?thesis
      proof (cases ok4)
        case True
        then have "r = Inr \<lparr>sw_Target = target, sw_Backup = ?b\<rparr>" "d' = d4" using sw' ok p by auto
        moreover have "ud_bin d target = Some old" using old t2 by simp
        ultimately show ?thesis using p' True t3 ne by auto
      next
        case bad: False
        then have r: "r = Inl (ErrSwap ''move new binary into place'')" "d' = removeFile ?t (snd (renameFile ?b target d4))"
          using sw' ok p by auto
        obtain ok5 d5 where u: "renameFile ?b target d4 = (ok5, d5)" by (cases "renameFile ?b target d4")
        note u' = renameFile_spec [OF u]
        show ?thesis using r u u' p' bad t3 ne by (auto simp: removeFile_other split: if_splits)
      qed
    qed
  qed
qed

section \<open>The pipeline\<close>

lemma sanitizeVersion_slash: "CHR ''/'' \<notin> set (sanitizeVersion v)"
proof -
  have "CHR ''/'' \<notin> set (map keepVersionRune v)" by (auto simp: keepVersionRune_def char_class_defs)
  then show ?thesis by (auto simp: sanitizeVersion_def Let_def dest: in_set_takeD)
qed

lemma staged_inStaging:
  "inStaging sd (StagedPath os sd v)" "inStaging sd (StagedPath os sd v @ ''.part'')"
proof -
  let ?n = "''everwas-agent-'' @ sanitizeVersion v @ exeExt os"
  have s: "StagedPath os sd v = (StagingDir sd @ ''/'') @ ?n" by (simp add: StagedPath_def)
  have "CHR ''/'' \<notin> set ?n" using sanitizeVersion_slash by (cases os) auto
  then show "inStaging sd (StagedPath os sd v)" "inStaging sd (StagedPath os sd v @ ''.part'')"
    unfolding inStaging_def s append_assoc [of "StagingDir sd @ ''/''" ?n] cutPrefix_append by simp_all
qed

text \<open>The artifact passed every check.\<close>

definition verified :: "apply_env \<Rightarrow> update_request \<Rightarrow> bytes \<Rightarrow> bool" where
  "verified env req body \<longleftrightarrow>
     (\<exists>keys sig. TrustedKeys (ae_embedded env) (ae_devBuild env) (rq_PublicKeys req) = Inr keys \<and>
        VerifySHA256 (ae_sha256 env) body (rq_SHA256 req) = None \<and>
        list_ex (\<lambda>pk. goodSignature (ae_ed env) pk body sig) keys)"

lemma checkArtifact_verified:
  assumes "checkArtifact env req keys body = None"
    and "TrustedKeys (ae_embedded env) (ae_devBuild env) (rq_PublicKeys req) = Inr keys"
  shows "verified env req body"
proof -
  from assms(1) obtain sig where "VerifySHA256 (ae_sha256 env) body (rq_SHA256 req) = None"
    "VerifyAny (ae_ed env) keys body sig = None"
    by (auto simp: checkArtifact_def split: option.splits sum.splits)
  then have "list_ex (\<lambda>pk. goodSignature (ae_ed env) pk body sig) keys"
    by (auto simp: VerifyAny_def verifyLoop_iff list_ex_iff split: if_splits)
  then show ?thesis using assms(2) \<open>VerifySHA256 _ body _ = None\<close> unfolding verified_def by blast
qed

text \<open>The previous binary is still there, in its place or set aside.\<close>

definition oldKept :: "goos \<Rightarrow> string \<Rightarrow> udisk \<Rightarrow> udisk \<Rightarrow> bool" where
  "oldKept os target d d' \<longleftrightarrow> ud_bin d' target = ud_bin d target \<or>
     (ud_bin d' target = None \<and> ud_bin d' (BackupPath os target) = ud_bin d target)"

lemma installStaged_spec:
  assumes ins: "installStaged env req target staged n d = (r, d')"
    and ap: "\<not> inStaging (ae_stateDir env) target" "\<not> inStaging (ae_stateDir env) (BackupPath (ae_os env) target)"
    and st: "staged = StagedPath (ae_os env) (ae_stateDir env) v" and new: "staged \<noteq> target @ ''.new''"
  shows "(\<forall>e. r = Inl e \<longrightarrow> oldKept (ae_os env) target d d') \<and>
    (\<forall>res. r = Inr res \<longrightarrow> ur_Version res = rq_Version req \<and> ur_Target res = target \<and>
      (if ur_Finalizing res then oldKept (ae_os env) target d d'
       else ud_bin d staged \<noteq> None \<and> ud_bin d' target = ud_bin d staged \<and>
         ud_bin d' (BackupPath (ae_os env) target) = ud_bin d target))"
proof -
  let ?b = "BackupPath (ae_os env) target"
  have apart: "target \<noteq> staged" "target \<noteq> staged @ ''.part''" "?b \<noteq> staged" "?b \<noteq> staged @ ''.part''"
    using ap staged_inStaging [of "ae_stateDir env" "ae_os env" v] st by auto
  obtain e1 d1 where b: "BeginUpdate (ae_now env) (rq_Version req) (ae_current env) target ?b d = (e1, d1)"
    by (cases "BeginUpdate (ae_now env) (rq_Version req) (ae_current env) target ?b d")
  have b': "ud_bin d1 = ud_bin d" by (rule BeginUpdate_frame [OF b])
  obtain sr d2 where s: "Swap (ae_os env) target staged d1 = (sr, d2)" by (cases "Swap (ae_os env) target staged d1")
  note s' = Swap_spec [OF s new]
  obtain e3 d3 where c: "Clear d2 = (e3, d3)" by (cases "Clear d2")
  have c': "ud_bin d3 = ud_bin d2" by (rule Clear_frame [OF c])
  show ?thesis
    using ins s' b b' s c c' apart ap
    by (auto simp: installStaged_def Let_def oldKept_def discard_other BeginFinalize_frame CleanStaging_def
        split: option.splits sum.splits if_splits)
qed

lemma Apply_spec:
  assumes ap: "Apply env req d = (r, d')" and t: "applyTarget env = Some target"
    and out: "\<not> inStaging (ae_stateDir env) target" "\<not> inStaging (ae_stateDir env) (BackupPath (ae_os env) target)"
    and new: "\<not> inStaging (ae_stateDir env) (target @ ''.new'')"
  shows "(\<forall>e. r = Inl e \<longrightarrow> oldKept (ae_os env) target d d') \<and>
    (\<forall>res. r = Inr res \<longrightarrow> ur_Version res = rq_Version req \<and> validateRequest env req d = None \<and>
      (if ur_Finalizing res then oldKept (ae_os env) target d d'
       else (\<exists>body. ud_bin d' target = Some body \<and> verified env req body) \<and>
         ud_bin d' (BackupPath (ae_os env) target) = ud_bin d target))"
proof -
  let ?b = "BackupPath (ae_os env) target" and ?s = "StagedPath (ae_os env) (ae_stateDir env) (rq_Version req)"
  have apart: "target \<noteq> ?s" "target \<noteq> ?s @ ''.part''" "?b \<noteq> ?s" "?b \<noteq> ?s @ ''.part''" "?s \<noteq> target @ ''.new''"
    using out new staged_inStaging [of "ae_stateDir env" "ae_os env" "rq_Version req"] by auto
  have same: "oldKept (ae_os env) target d d" by (simp add: oldKept_def)
  show ?thesis
  proof (cases "\<exists>keys. validateRequest env req d = None \<and>
      TrustedKeys (ae_embedded env) (ae_devBuild env) (rq_PublicKeys req) = Inr keys")
    case False
    then show ?thesis using ap t same by (auto simp: Apply_def split: option.splits sum.splits)
  next
    case True
    then obtain keys where v: "validateRequest env req d = None"
      and k: "TrustedKeys (ae_embedded env) (ae_devBuild env) (rq_PublicKeys req) = Inr keys" by blast
    obtain dr d1 where dl: "Download (ae_dl env) (rq_ArtifactURL req) ?s d = (dr, d1)"
      by (cases "Download (ae_dl env) (rq_ArtifactURL req) ?s d")
    obtain ok d2 where rd: "fileOp d1 = (ok, d2)" by (cases "fileOp d1")
    have kept: "ud_bin d2 target = ud_bin d target" "ud_bin d2 ?b = ud_bin d ?b" "ud_bin d1 target = ud_bin d target"
      using Download_other [OF dl] apart fileOp_frame [OF rd] by auto
    note ap' = ap [unfolded Apply_def Let_def] t v k dl rd
    show ?thesis
    proof (cases "\<exists>n body. dr = Inr n \<and> ok \<and> ud_bin d2 ?s = Some body \<and> checkArtifact env req keys body = None")
      case False
      then show ?thesis
        using ap' kept apart by (auto simp: oldKept_def discard_other split: sum.splits option.splits if_splits)
    next
      case True
      then obtain n body where n: "dr = Inr n" "ok" "ud_bin d2 ?s = Some body" "checkArtifact env req keys body = None" by blast
      then have ins: "installStaged env req target ?s n d2 = (r, d')" using ap' by simp
      have "verified env req body" by (rule checkArtifact_verified [OF n(4) k])
      then show ?thesis
        using installStaged_spec [OF ins out refl apart(5)] kept v n(3) by (auto simp: oldKept_def)
    qed
  qed
qed

lemma validateRequest_kind:
  "validateRequest env req d = Some e \<Longrightarrow> e = ErrAlreadyCurrent \<or> (\<exists>c. e = StepError StepValidate c)"
  by (auto simp: validateRequest_def split: if_splits)

section \<open>A resumed download\<close>

text \<open>A server that serves one artifact, whole or from an offset.\<close>

definition serves :: "downloader \<Rightarrow> string \<Rightarrow> bytes \<Rightarrow> bool" where
  "serves dl url body \<longleftrightarrow>
     dl_get dl url None = Some \<lparr>hr_status = 200, hr_body = body, hr_readErr = False\<rparr> \<and>
     (\<forall>n < length body. dl_get dl url (Some n) = Some \<lparr>hr_status = 206, hr_body = drop n body, hr_readErr = False\<rparr>)"

lemma receive_ok:
  assumes "ud_faults d = []" and "base @ hr_body resp = body" and "body \<noteq> []" and "length body \<le> maxBytes dl"
    and "\<not> hr_readErr resp"
  shows "receive dl dest base resp d =
    (Inr (length body), d\<lparr>ud_bin := (ud_bin d)(dest @ ''.part'' := None, dest \<mapsto> body)\<rparr>)"
proof -
  have "hr_body resp = drop (length base) body" "length base \<le> length body" using assms(2) by auto
  then show ?thesis using assms by (auto simp: receive_def renameFile_def Let_def)
qed

lemma Download_serves:
  assumes f: "ud_faults d = []" and u: "usableURL dl url" and s: "serves dl url body"
    and b: "body \<noteq> []" "length body \<le> maxBytes dl"
    and p: "ud_bin d (dest @ ''.part'') = None \<or> (\<exists>k < length body. ud_bin d (dest @ ''.part'') = Some (take k body))"
  shows "Download dl url dest d =
    (Inr (length body), d\<lparr>ud_bin := (ud_bin d)(dest @ ''.part'' := None, dest \<mapsto> body)\<rparr>)"
  using p
proof
  assume "ud_bin d (dest @ ''.part'') = None"
  then show ?thesis using f u s b receive_ok [OF f, of "[]" _ body dl dest]
    by (simp add: Download_def serves_def Let_def)
next
  assume "\<exists>k < length body. ud_bin d (dest @ ''.part'') = Some (take k body)"
  then obtain k where k: "k < length body" "ud_bin d (dest @ ''.part'') = Some (take k body)" by blast
  show ?thesis
  proof (cases "k = 0")
    case True
    then show ?thesis using k f u s b receive_ok [OF f, of "[]" _ body dl dest]
      by (simp add: Download_def serves_def Let_def)
  next
    case False
    have "dl_get dl url (Some k) = Some \<lparr>hr_status = 206, hr_body = drop k body, hr_readErr = False\<rparr>"
      using s k by (simp add: serves_def)
    then show ?thesis using k f u b False receive_ok [OF f, of "take k body" _ body dl dest]
      by (simp add: Download_def Let_def min_def)
  qed
qed

section \<open>A complete update\<close>

definition demoServer :: downloader where
  "demoServer = \<lparr>dl_get = (\<lambda>u r. Some (case r of None \<Rightarrow> \<lparr>hr_status = 200, hr_body = ''abc'', hr_readErr = False\<rparr>
       | Some n \<Rightarrow> \<lparr>hr_status = 206, hr_body = drop n ''abc'', hr_readErr = False\<rparr>)), dl_maxBytes = 100, dl_insecure = False\<rparr>"

lemma b64_zeros_append:
  "b64Quads (replicate (4 * n) CHR ''A'' @ s) = map_option (\<lambda>bs. replicate (3 * n) CHR 0x00 @ bs) (b64Quads s)"
proof (induction n)
  case (Suc n)
  have "b64Val CHR ''A'' = Some 0" by (simp add: b64Val_def b64Alphabet_def)
  moreover have "replicate (4 * Suc n) CHR ''A'' = CHR ''A'' # CHR ''A'' # CHR ''A'' # CHR ''A'' # replicate (4 * n) CHR ''A''"
    by (simp add: numeral_eq_Suc)
  moreover have "replicate (3 * Suc n) CHR 0x00 = CHR 0x00 # CHR 0x00 # CHR 0x00 # replicate (3 * n) CHR 0x00"
    by (simp add: numeral_eq_Suc)
  moreover have "b64Byte 0 = CHR 0x00" by (simp add: b64Byte_def char_of_def)
  ultimately show ?case using Suc by (cases "b64Quads s") auto
qed (simp add: option.map_ident)

definition demoSig :: string where
  "demoSig = ''RWQA'' @ replicate 92 CHR ''A'' @ ''AAA=''"

lemma demoSig_decoded: "b64Decode demoSig = Some (''Ed'' @ replicate 72 CHR 0x00)"
proof -
  have v: "b64Val CHR ''R'' = Some 17" "b64Val CHR ''W'' = Some 22" "b64Val CHR ''Q'' = Some 16" "b64Val CHR ''A'' = Some 0"
    by (simp_all add: b64Val_def b64Alphabet_def)
  have f: "filter (\<lambda>c. c \<noteq> CHR 0x0A \<and> c \<noteq> CHR 0x0D) demoSig =
      CHR ''R'' # CHR ''W'' # CHR ''Q'' # CHR ''A'' # (replicate (4 * 23) CHR ''A'' @ ''AAA='')"
    by (simp add: demoSig_def)
  have r: "replicate 72 CHR 0x00 = CHR 0x00 # (replicate (3 * 23) CHR 0x00 @ [CHR 0x00, CHR 0x00])" by (simp add: numeral_eq_Suc)
  have b: "b64Byte (17 * 4 + 22 div 16) = CHR ''E''" "b64Byte (22 * 16 + 16 div 4) = CHR ''d''"
    "b64Byte (16 * 64 + 0) = CHR 0x00" "b64Byte 0 = CHR 0x00" by code_simp+
  have t: "b64Quads ''AAA='' = Some [CHR 0x00, CHR 0x00]" by code_simp
  show ?thesis
    unfolding b64Decode_def f r b64Quads.simps v prod.case option.case b b64_zeros_append t by (simp add: b)
qed

definition demoSigFile :: bytes where
  "demoSigFile = ''c'' @ [CHR 0x0A] @ demoSig"

lemma demoSig_lines: "nonEmptyLines demoSigFile = [''c'', demoSig]"
proof -
  have no: "CHR 0x0A \<notin> set demoSig" by (simp add: demoSig_def)
  have ends: "demoSig \<noteq> []" "hd demoSig = CHR ''R''" "last demoSig = CHR ''=''" by (simp_all add: demoSig_def)
  have t: "trimSpace demoSig = demoSig" by (rule trimBy_id) (use ends in \<open>simp add: isSpace_def\<close>)
  have "dropWhile (\<lambda>c. c = CHR 0x0D) (rev demoSig) = rev demoSig"
    using ends by (subst dropWhile_eq_self_iff) (simp add: hd_rev)
  then have r: "trimRightBy (\<lambda>c. c = CHR 0x0D) demoSig = demoSig" by (simp add: trimRightBy_def)
  have s: "splitOn CHR 0x0A demoSigFile = [''c'', demoSig]"
    using splitOn_append [of "CHR 0x0A" "''c''" demoSig] no by (simp add: demoSigFile_def splitOn_free)
  have c: "trimRightBy (\<lambda>c. c = CHR 0x0D) (trimSpace ''c'') = ''c''" by code_simp
  show ?thesis using ends by (simp add: nonEmptyLines_def s c t r)
qed

lemma demoSig_parsed:
  "ParseSignature demoSigFile = Inr \<lparr>sg_Algorithm = ''Ed'', sg_KeyID = replicate 8 CHR 0x00,
     sg_Sig = replicate 64 CHR 0x00, sg_TrustedComment = [], sg_GlobalSig = None\<rparr>"
  by (simp add: ParseSignature_def demoSig_lines demoSig_decoded sigBodyLen_def algLen_def keyIDLen_def
      signatureSize_def slice_def Let_def)

definition goodEnv :: apply_env where
  "goodEnv = \<lparr>ae_os = Unix, ae_stateDir = ''/s'', ae_targetPath = ''/agent'', ae_executable = None,
     ae_current = ''1.0'', ae_embedded = demoKey, ae_devBuild = [], ae_ed = (\<lambda>k m s. True),
     ae_sha256 = (\<lambda>bs. [0]), ae_dl = demoServer, ae_now = 0, ae_finalizer = None\<rparr>"

definition goodReq :: update_request where
  "goodReq = \<lparr>rq_Version = ''2'', rq_ArtifactURL = ''https://x'', rq_SHA256 = ''00'', rq_Signature = demoSigFile,
     rq_SignatureURL = [], rq_PublicKeys = [], rq_Force = False\<rparr>"

definition goodDisk :: udisk where
  "goodDisk = \<lparr>ud_state = NoStateFile, ud_marker = None, ud_probation = None, ud_starts = None, ud_denied = None,
     ud_bin = [''/agent'' \<mapsto> ''old''], ud_faults = []\<rparr>"

lemma demoKey_trusted:
  "TrustedKeys demoKey [] [] = Inr [\<lparr>pk_Algorithm = ''Ed'', pk_KeyID = replicate 8 CHR 0x00, pk_Key = replicate 32 CHR 0x00\<rparr>]"
proof -
  have "ParsePublicKey demoKey = Inr \<lparr>pk_Algorithm = ''Ed'', pk_KeyID = replicate 8 CHR 0x00, pk_Key = replicate 32 CHR 0x00\<rparr>"
    using demoKey_line
    by (simp add: ParsePublicKey_def lastNonEmptyLine_def demoKey_decoded pubKeyBodyLen_def algLen_def keyIDLen_def
        publicKeySize_def algEdDSA_def slice_def Let_def)
  then show ?thesis using demoKey_line by (simp add: TrustedKeys_def demoKey_def)
qed

lemma goodStaged: "StagedPath Unix ''/s'' ''2'' = ''/s/staging/everwas-agent-2''"
  by code_simp

lemma goodDownload:
  "Download demoServer ''https://x'' ''/s/staging/everwas-agent-2'' goodDisk =
     (Inr 3, goodDisk\<lparr>ud_bin := [''/agent'' \<mapsto> ''old'', ''/s/staging/everwas-agent-2'' \<mapsto> ''abc'']\<rparr>)"
proof -
  have "Download demoServer ''https://x'' ''/s/staging/everwas-agent-2'' goodDisk =
    (Inr (length ''abc''), goodDisk\<lparr>ud_bin := (ud_bin goodDisk)(''/s/staging/everwas-agent-2'' @ ''.part'' := None, ''/s/staging/everwas-agent-2'' \<mapsto> ''abc'')\<rparr>)"
  proof (rule Download_serves)
    show "usableURL demoServer ''https://x''" by code_simp
    show "serves demoServer ''https://x'' ''abc''" by (simp add: serves_def demoServer_def)
    show "length ''abc'' \<le> maxBytes demoServer" by (simp add: maxBytes_def demoServer_def)
  qed (simp_all add: goodDisk_def)
  then show ?thesis by (simp add: goodDisk_def fun_upd_idem)
qed

lemma goodCheck:
  "checkArtifact goodEnv goodReq [\<lparr>pk_Algorithm = ''Ed'', pk_KeyID = replicate 8 CHR 0x00, pk_Key = replicate 32 CHR 0x00\<rparr>] ''abc'' = None"
proof -
  have "VerifySHA256 (\<lambda>bs. [0]) ''abc'' ''00'' = None" by code_simp
  moreover have "demoSigFile \<noteq> []" by (simp add: demoSigFile_def)
  ultimately show ?thesis
    by (simp add: checkArtifact_def goodEnv_def goodReq_def VerifyAny_def Verify_def demoSig_parsed VerifyParsed_def
        algEdDSA_def algHashedEdDSA_def publicKeySize_def)
qed

lemma goodInstall:
  "\<exists>res d'. installStaged goodEnv goodReq ''/agent'' ''/s/staging/everwas-agent-2'' 3
      (goodDisk\<lparr>ud_bin := [''/agent'' \<mapsto> ''old'', ''/s/staging/everwas-agent-2'' \<mapsto> ''abc'']\<rparr>) = (Inr res, d') \<and> \<not> ur_Finalizing res"
  by (simp add: installStaged_def goodEnv_def goodReq_def goodDisk_def BeginUpdate_def saveAndProbation_def
      writeProbation_def Swap_def sameFile_def copyFile_def removeFile_def renameFile_def Let_def)

lemma goodApply:
  "\<exists>res d'. Apply goodEnv goodReq goodDisk = (Inr res, d') \<and> \<not> ur_Finalizing res"
proof -
  have v: "validateRequest goodEnv goodReq goodDisk = None"
    by (simp add: validateRequest_def goodEnv_def goodReq_def goodDisk_def demoSigFile_def noState_def IsDenied_def
        Denied_def lastN_def)
  have t: "applyTarget goodEnv = Some ''/agent''" by (simp add: applyTarget_def goodEnv_def)
  have e: "ae_embedded goodEnv = demoKey" "ae_devBuild goodEnv = []" "rq_PublicKeys goodReq = []" "ae_os goodEnv = Unix"
    "ae_stateDir goodEnv = ''/s''" "rq_Version goodReq = ''2''" "ae_dl goodEnv = demoServer" "rq_ArtifactURL goodReq = ''https://x''"
    by (simp_all add: goodEnv_def goodReq_def)
  have f: "fileOp (goodDisk\<lparr>ud_bin := m\<rparr>) = (True, goodDisk\<lparr>ud_bin := m\<rparr>)" for m by (simp add: goodDisk_def)
  show ?thesis
    using goodInstall goodCheck
    by (simp add: Apply_def v t e demoKey_trusted goodStaged goodDownload f Let_def)
qed

lemma not_inStaging_agent: "\<not> inStaging ''/s'' ''/agent''" "\<not> inStaging ''/s'' ''/agent.old''" "\<not> inStaging ''/s'' ''/agent.new''"
  by (simp_all add: inStaging_def StagingDir_def cutPrefix_def)

section \<open>Properties\<close>

text \<open>
  C1. Only a verified artifact is installed. Whatever fails on the way, when \<open>Apply\<close> reports an
  update applied, the binary in place is an artifact whose checksum is the requested one and
  whose signature a trusted key accepts, and the previous binary is in the backup; on every
  error, and while a finalizer is still to act, the previous binary is in place or, at worst,
  set aside in the backup.
\<close>

theorem Apply_installs_only_verified:
  assumes "Apply env req d = (r, d')" and "applyTarget env = Some target"
    and "\<not> inStaging (ae_stateDir env) target" and "\<not> inStaging (ae_stateDir env) (BackupPath (ae_os env) target)"
    and "\<not> inStaging (ae_stateDir env) (target @ ''.new'')"
  shows "case r of
      Inl e \<Rightarrow> oldKept (ae_os env) target d d'
    | Inr res \<Rightarrow> ur_Version res = rq_Version req \<and>
        (if ur_Finalizing res then oldKept (ae_os env) target d d'
         else (\<exists>body. ud_bin d' target = Some body \<and> verified env req body) \<and>
           ud_bin d' (BackupPath (ae_os env) target) = ud_bin d target)"
  using Apply_spec [OF assms] by (auto split: sum.splits)

theorem Apply_installs_only_verified_witness:
  "\<exists>res d'. Apply goodEnv goodReq goodDisk = (Inr res, d') \<and> \<not> ur_Finalizing res \<and>
     (\<exists>body. ud_bin d' ''/agent'' = Some body \<and> verified goodEnv goodReq body) \<and> ud_bin d' ''/agent.old'' = Some ''old''"
proof -
  obtain res d' where a: "Apply goodEnv goodReq goodDisk = (Inr res, d')" "\<not> ur_Finalizing res" using goodApply by blast
  from Apply_installs_only_verified [OF a(1), of "''/agent''"] a show ?thesis
    by (simp add: applyTarget_def goodEnv_def not_inStaging_agent goodDisk_def)
qed

text \<open>
  A version that this host rolled back, or an update while a finalizer is outstanding, is
  refused before anything is fetched or written unless the request is forced.
\<close>

theorem Apply_refuses_denied:
  assumes "\<not> rq_Force req"
    and "IsDenied (rq_Version req) d \<or> (\<exists>st. loadTracker (ud_state d) = Inr st \<and> us_Finalizing st)"
  shows "\<exists>e. Apply env req d = (Inl e, d) \<and> (e = ErrAlreadyCurrent \<or> (\<exists>c. e = StepError StepValidate c))"
proof -
  have "validateRequest env req d \<noteq> None" using assms by (auto simp: validateRequest_def)
  then obtain e where "validateRequest env req d = Some e" by blast
  then show ?thesis using validateRequest_kind by (auto simp: Apply_def)
qed

theorem Apply_refuses_denied_witness:
  "\<exists>e. Apply goodEnv (goodReq\<lparr>rq_Version := ''1.1''\<rparr>)
     (demoDisk\<lparr>ud_state := SavedState (demoState\<lparr>us_Finalizing := True\<rparr>)\<rparr>) =
     (Inl e, demoDisk\<lparr>ud_state := SavedState (demoState\<lparr>us_Finalizing := True\<rparr>)\<rparr>)"
  using Apply_refuses_denied [of "goodReq\<lparr>rq_Version := ''1.1''\<rparr>"
      "demoDisk\<lparr>ud_state := SavedState (demoState\<lparr>us_Finalizing := True\<rparr>)\<rparr>" goodEnv]
  by (auto simp: goodReq_def)

text \<open>
  A resumed download is the artifact. From a server that serves the artifact whole and by
  range, with no partial file or with one that holds a proper prefix of it, a download without
  disk errors ends with exactly the artifact under its name and the partial file gone.
\<close>

theorem Download_resumes:
  assumes "ud_faults d = []" and "usableURL dl url" and "serves dl url body"
    and "body \<noteq> []" and "length body \<le> maxBytes dl"
    and "ud_bin d (dest @ ''.part'') = None \<or> (\<exists>k < length body. ud_bin d (dest @ ''.part'') = Some (take k body))"
  shows "Download dl url dest d =
    (Inr (length body), d\<lparr>ud_bin := (ud_bin d)(dest @ ''.part'' := None, dest \<mapsto> body)\<rparr>)"
  by (rule Download_serves [OF assms])

theorem Download_resumes_witness:
  "ud_bin (snd (Download demoServer ''https://x'' ''/s/f'' (demoDisk\<lparr>ud_bin := [''/s/f.part'' \<mapsto> ''ab'']\<rparr>))) ''/s/f'' = Some ''abc''"
proof -
  let ?d = "demoDisk\<lparr>ud_bin := [''/s/f.part'' \<mapsto> ''ab'']\<rparr>"
  have "Download demoServer ''https://x'' ''/s/f'' ?d =
    (Inr (length ''abc''), ?d\<lparr>ud_bin := (ud_bin ?d)(''/s/f'' @ ''.part'' := None, ''/s/f'' \<mapsto> ''abc'')\<rparr>)"
  proof (rule Download_resumes)
    show "usableURL demoServer ''https://x''" by code_simp
    show "serves demoServer ''https://x'' ''abc''" by (simp add: serves_def demoServer_def)
    show "length ''abc'' \<le> maxBytes demoServer" by (simp add: maxBytes_def demoServer_def)
    show "ud_bin ?d (''/s/f'' @ ''.part'') = None \<or>
        (\<exists>k < length ''abc''. ud_bin ?d (''/s/f'' @ ''.part'') = Some (take k ''abc''))"
      by (intro disjI2 exI [of _ 2]) simp
  qed (simp_all add: demoDisk_def)
  then show ?thesis by simp
qed

end
