(* ===== verification/Job_Handlers.thy ===== *)
theory Job_Handlers
  imports Job_Registry Update_Apply
begin

text \<open>
  What the agent does with a job, \<open>agent/internal/jobs\<close>: taking it from the queue
  (\<open>consumer.go\<close>), from the scheduler or from a panic (\<open>jobs.go\<close>), and the handlers of the job
  kinds: inventory refresh and unsupported kinds (\<open>jobs.go\<close>), patch scans and installs
  (\<open>patch_wire.go\<close>) and self-updates (\<open>update_wire.go\<close>).

  Decoding JSON is the argument \<open>json_lib\<close>; the package manager, the inventory and the update
  pipeline are the fields of \<open>job_env\<close>. An error is a value of \<open>job_error\<close>, with the classes
  that the source tells apart with \<open>errors.Is\<close>. The module is wired as the supervisor wires it:
  the script runner, the audit publisher and the log are present.
\<close>

section \<open>Errors\<close>

datatype job_error =
    JBusy string | JDeadline string | JCanceled string
  | JAlreadyCurrent | JVersionDenied | JFinalizePending | JOther string

fun errText :: "job_error \<Rightarrow> string" where
  "errText (JBusy m) = m"
| "errText (JDeadline m) = m"
| "errText (JCanceled m) = m"
| "errText JAlreadyCurrent = ''update: already running the requested version''"
| "errText JVersionDenied = ''update: this version was rolled back on this host''"
| "errText JFinalizePending = ''update: finalizer has not reported yet''"
| "errText (JOther m) = m"

section \<open>Patch jobs\<close>

record patch_state =
  ps_Backend :: string
  ps_Patches :: "(string \<times> bool) list"
  ps_RebootRequired :: bool

record install_result =
  ir_Installed :: "string list"
  ir_Failed :: "(string \<times> string) list"
  ir_RebootRequired :: bool

definition noPatchState :: patch_state where
  "noPatchState = \<lparr>ps_Backend = [], ps_Patches = [], ps_RebootRequired = False\<rparr>"

definition noInstall :: install_result where
  "noInstall = \<lparr>ir_Installed = [], ir_Failed = [], ir_RebootRequired = False\<rparr>"

text \<open>
  The dependencies of the patch handlers: the refresh of the patch state and the update backend
  (\<open>None\<close> when not wired); a backend's \<open>Install\<close> yields its progress, its result and an error.
\<close>

record patch_env =
  pe_refresh :: "(patch_state \<times> job_error option) option"
  pe_manager :: "(job_error + (string list \<Rightarrow> (int \<times> string \<times> string) list \<times> install_result \<times> job_error option)) option"
  pe_obj :: "string \<Rightarrow> (string list \<times> string list \<times> string list) option"
  pe_arr :: "string \<Rightarrow> string list option"
  pe_ms :: int

definition exitBusy :: int where
  "exitBusy = 75"

definition patchJobTimeout :: "jobSpec \<Rightarrow> duration" where
  "patchJobTimeout spec =
     (if 0 < js_TimeoutS spec then
        (if seconds (js_TimeoutS spec) < MaxTimeout then seconds (js_TimeoutS spec) else MaxTimeout)
      else if js_Kind spec = KindPatchInstall then 4 * 3600 * second
      else 30 * 60 * second)"

definition cleanIDs :: "string list \<Rightarrow> string list" where
  "cleanIDs raw = filter (\<lambda>i. i \<noteq> []) (map (\<lambda>i. trimSpace (trimSuffix [CHR 0x0D] i)) raw)"

fun firstNonEmpty :: "string list list \<Rightarrow> string list" where
  "firstNonEmpty [] = []"
| "firstNonEmpty (l # ls) = (if l \<noteq> [] then cleanIDs l else firstNonEmpty ls)"

definition ParsePatchIDs :: "patch_env \<Rightarrow> string \<Rightarrow> string list" where
  "ParsePatchIDs env body0 =
     (let body = trimSpace body0
      in if body = [] then []
         else if hd body = CHR ''{'' then
           (case pe_obj env body of None \<Rightarrow> [] | Some (u, i, p) \<Rightarrow> firstNonEmpty [u, i, p])
         else if hd body = CHR ''['' then
           (case pe_arr env body of None \<Rightarrow> [] | Some arr \<Rightarrow> cleanIDs arr)
         else cleanIDs (splitOn CHR 0x0A body))"

definition patchResult :: "job_error option \<Rightarrow> nat \<Rightarrow> result" where
  "patchResult err failed =
     (case err of
        Some (JBusy _) \<Rightarrow> mkResult StatusFailed exitBusy
      | Some (JDeadline _) \<Rightarrow> mkResult StatusTimeout (-1)
      | Some (JCanceled _) \<Rightarrow> mkResult StatusCancelled (-1)
      | Some _ \<Rightarrow> mkResult StatusFailed (-1)
      | None \<Rightarrow> if 0 < failed then mkResult StatusFailed (int failed) else mkResult StatusSucceeded 0)"

definition describeCounts :: "string list \<Rightarrow> string" where
  "describeCounts kinds =
     joinWith '', '' (map (\<lambda>k. itoa (int (count_list kinds k)) @ '' '' @ k) (sort (remdups kinds)))"

definition scanSummary :: "patch_state \<Rightarrow> job_error option \<Rightarrow> string" where
  "scanSummary st err =
     (case err of
        Some e \<Rightarrow> ''patch scan failed: '' @ errText e
      | None \<Rightarrow>
          (let kinds = map fst (ps_Patches st);
               unsupported = length (filter snd (ps_Patches st))
           in ''patch scan via '' @ ps_Backend st @ '': '' @ itoa (int (length kinds)) @ '' update(s) available'' @
              (if kinds \<noteq> [] then '' ('' @ describeCounts kinds @ '')'' else []) @
              (if 0 < unsupported then ''; '' @ itoa (int unsupported) @ '' cannot be installed by the agent'' else []) @
              (if ps_RebootRequired st then ''; a reboot is already pending'' else [])))"

definition installSummary :: "string list \<Rightarrow> install_result \<Rightarrow> job_error option \<Rightarrow> string" where
  "installSummary ids res err =
     ''patch install: '' @ itoa (int (length (ir_Installed res))) @ '' of '' @ itoa (int (length ids)) @
     '' requested update(s) installed'' @
     (if ir_Failed res \<noteq> []
      then ''; failed: '' @ joinWith ''; '' (sort (map (\<lambda>(i, reason). i @ '': '' @ reason) (ir_Failed res))) else []) @
     (if ir_RebootRequired res then ''; a reboot is required to finish'' else []) @
     (case err of Some e \<Rightarrow> ''; error: '' @ errText e | None \<Rightarrow> [])"

definition HandlePatchScan :: "patch_env \<Rightarrow> string \<Rightarrow> world \<Rightarrow> patch_state \<times> job_error option \<times> world" where
  "HandlePatchScan env jobID w =
     (case pe_refresh env of
        None \<Rightarrow> (noPatchState, Some (JOther ''patch scan is not wired: RefreshPatchState is nil''), w)
      | Some (st, err) \<Rightarrow> (st, err, progress jobID 10 PhaseRunning ''scanning for updates'' w))"

definition installNote :: "string \<Rightarrow> string \<Rightarrow> string" where
  "installNote phase updateID = (if updateID \<noteq> [] then phase @ '' '' @ updateID else phase)"

definition HandlePatchInstall ::
  "patch_env \<Rightarrow> string \<Rightarrow> string list \<Rightarrow> world \<Rightarrow> install_result \<times> job_error option \<times> world" where
  "HandlePatchInstall env jobID ids w =
     (if ids = [] then (noInstall, Some (JOther ''patch install job carried no update ids''), w)
      else case pe_manager env of
             None \<Rightarrow> (noInstall, Some (JOther ''patch install is not wired: Manager is nil''), w)
           | Some (Inl e) \<Rightarrow> (noInstall, Some e, w)
           | Some (Inr install) \<Rightarrow>
               (let w1 = progress jobID 5 PhaseRunning (''installing '' @ itoa (int (length ids)) @ '' update(s)'') w;
                    (steps, res, err) = install ids
                in (res, err, fold (\<lambda>(pct, ph, uid). progress jobID pct PhaseRunning (installNote ph uid)) steps w1)))"

definition patchExecute :: "patch_env \<Rightarrow> jobSpec \<Rightarrow> world \<Rightarrow> world" where
  "patchExecute env spec w0 =
     (let w = progress (js_JobID spec) 0 PhaseStarted (js_Kind spec) w0;
          (summary, err, failed, installed, w1) =
            (if js_Kind spec = KindPatchScan then
               (let (st, err, w1) = HandlePatchScan env (js_JobID spec) w
                in (scanSummary st err, err, 0, noInstall,
                    auditEmit ''patch.scanned''
                      [(''job_id'', DStr (js_JobID spec)), (''backend'', DStr (ps_Backend st)),
                       (''available'', DInt (int (length (ps_Patches st)))),
                       (''reboot_required'', DBool (ps_RebootRequired st)),
                       (''requested_by'', DStr (js_RequestedBy spec)), (''ok'', DBool (err = None))] w1))
             else if js_Kind spec = KindPatchInstall then
               (let ids = ParsePatchIDs env (js_Body spec);
                    (out, err, w1) = HandlePatchInstall env (js_JobID spec) ids w
                in (installSummary ids out err, err, length (ir_Failed out), out,
                    auditEmit ''patch.installed''
                      [(''job_id'', DStr (js_JobID spec)), (''requested'', DInt (int (length ids))),
                       (''installed'', DList (ir_Installed out)), (''failed'', DMap (ir_Failed out)),
                       (''reboot_required'', DBool (ir_RebootRequired out)),
                       (''requested_by'', DStr (js_RequestedBy spec))] w1))
             else (''patch handler cannot run job kind '' @ js_Kind spec,
                   Some (JOther (''patch handler cannot run job kind '' @ js_Kind spec)), 0, noInstall, w));
          res0 = (patchResult err failed)\<lparr>rs_DurationMS := pe_ms env\<rparr>;
          res = (if js_Kind spec = KindPatchInstall
                 then res0\<lparr>rs_Installed := ir_Installed installed, rs_Failed := ir_Failed installed,
                           rs_RebootRequired := ir_RebootRequired installed\<rparr> else res0);
          w2 = PublishStderr spec (''everwas-agent: '' @ summary @ nl) w1;
          w3 = progress (js_JobID spec) 100 PhaseFinished (rs_Status res) w2
      in PublishResult spec res w3)"

section \<open>Self-update jobs\<close>

text \<open>
  The dependencies of the update handler; the hooks are whether they are wired. The pipeline
  yields a result or an error, as \<open>update.Apply\<close> does.
\<close>

record update_env =
  ue_StateDir :: string
  ue_Version :: string
  ue_decode :: "string \<Rightarrow> string + update_request"
  ue_apply :: "update_request \<Rightarrow> job_error option \<times> update_result option"
  ue_Restart :: bool
  ue_Handoff :: bool
  ue_ms :: int

text \<open>The outcome of \<open>Update_Apply.Apply\<close> as the handler sees it.\<close>

definition applyOutcome :: "(apply_error + update_result) \<Rightarrow> job_error option \<times> update_result option" where
  "applyOutcome r =
     (case r of
        Inr res \<Rightarrow> (None, Some res)
      | Inl ErrAlreadyCurrent \<Rightarrow> (Some JAlreadyCurrent, None)
      | Inl (StepError _ CauseDenied) \<Rightarrow> (Some JVersionDenied, None)
      | Inl (StepError _ CauseFinalizePending) \<Rightarrow> (Some JFinalizePending, None)
      | Inl (StepError _ _) \<Rightarrow> (Some (JOther ''update failed''), None))"

definition updateReady :: "update_env \<Rightarrow> string option" where
  "updateReady env =
     (if ue_StateDir env = [] then Some ''self-update is not wired: no state dir''
      else if \<not> ue_Restart env then Some ''self-update is not wired: no restart hook''
      else None)"

definition updateOutcome ::
  "string \<Rightarrow> update_request \<Rightarrow> update_result option \<Rightarrow> job_error option \<Rightarrow> result \<times> string" where
  "updateOutcome current req out err =
     (case err of
        Some JAlreadyCurrent \<Rightarrow>
          ((mkResult StatusSucceeded 64)\<lparr>rs_UpdatedTo := current\<rparr>,
           ''agent update: already running '' @ current @ '', nothing to do'')
      | Some JVersionDenied \<Rightarrow>
          (mkResult StatusFailed 65,
           ''agent update refused: this host rolled '' @ rq_Version req @ '' back already; send force to override'')
      | Some JFinalizePending \<Rightarrow>
          (mkResult StatusFailed 66, ''agent update refused: a previous update is still finalizing'')
      | Some (JDeadline m) \<Rightarrow> (mkResult StatusTimeout (-1), ''agent update timed out: '' @ m)
      | Some (JCanceled m) \<Rightarrow> (mkResult StatusCancelled (-1), ''agent update cancelled'')
      | Some e \<Rightarrow> (mkResult StatusFailed (-1), ''agent update failed: '' @ errText e)
      | None \<Rightarrow>
          (case out of
             None \<Rightarrow> (mkResult StatusFailed (-1),
               ''agent update failed: the update pipeline reported neither a result nor an error'')
           | Some res \<Rightarrow>
               if ur_Finalizing res
               then ((mkResult StatusSucceeded 0)\<lparr>rs_UpdatedTo := ur_Version res, rs_Finalizing := True\<rparr>,
                     ''agent update staged '' @ ur_Version res @ ''; a helper process (pid '' @ itoa (ur_FinalizerPID res) @
                     '') completes the swap after this one exits, so the host is still on '' @ current @
                     '' until it reports back'')
               else ((mkResult StatusSucceeded 0)\<lparr>rs_UpdatedTo := ur_Version res\<rparr>,
                     ''agent update applied '' @ current @ '' -> '' @ ur_Version res @ ''; restarting'')))"

definition updateFinish ::
  "update_env \<Rightarrow> jobSpec \<Rightarrow> result \<Rightarrow> string \<Rightarrow> string \<Rightarrow> update_result option \<Rightarrow> world \<Rightarrow> world" where
  "updateFinish env spec res0 summary version out w =
     (let res = res0\<lparr>rs_DurationMS := ue_ms env\<rparr>;
          w1 = PublishStderr spec (''everwas-agent: '' @ summary @ nl) w;
          w2 = progress (js_JobID spec) 100 PhaseFinished (rs_Status res) w1;
          w3 = PublishResult spec res w2;
          w4 = auditEmit ''agent.updated''
                 [(''job_id'', DStr (js_JobID spec)), (''from_version'', DStr (ue_Version env)),
                  (''to_version'', DStr version), (''status'', DStr (rs_Status res)),
                  (''finalizing'', DBool (rs_Finalizing res)), (''requested_by'', DStr (js_RequestedBy spec)),
                  (''summary'', DStr summary)] w3
      in if out = None \<or> rs_Status res \<noteq> StatusSucceeded then w4
         else if rs_Finalizing res \<and> ue_Handoff env
         then put (EvHandoff (''update finalizer is waiting to swap to '' @ version)) w4
         else if \<not> rs_Finalizing res \<and> ue_Restart env then put (EvRestart (''updated to '' @ version)) w4
         else w4)"

definition updateExecute :: "update_env \<Rightarrow> jobSpec \<Rightarrow> world \<Rightarrow> world" where
  "updateExecute env spec w0 =
     (let w = progress (js_JobID spec) 0 PhaseStarted (js_Kind spec) w0
      in case ue_decode env (js_Body spec) of
           Inl e \<Rightarrow> updateFinish env spec (mkResult StatusFailed (-1)) (''agent update: bad request payload: '' @ e) [] None w
         | Inr req \<Rightarrow>
             (case updateReady env of
                Some e \<Rightarrow> updateFinish env spec (mkResult StatusFailed (-1)) (''agent update: '' @ e) (rq_Version req) None w
              | None \<Rightarrow>
                  (let w1 = progress (js_JobID spec) 10 PhaseRunning (''downloading '' @ rq_Version req) w;
                       (err, out) = ue_apply env req;
                       (res, summary) = updateOutcome (ue_Version env) req out err
                   in updateFinish env spec res summary (rq_Version req) out w1)))"

section \<open>Every kind of job\<close>

text \<open>
  What one job meets. \<open>je_refresh\<close> is the out-of-band inventory snapshot (\<open>None\<close>: not wired,
  \<open>Some err\<close>: its error, if any); \<open>je_panic\<close> is a panic of the handler, with what it had
  published by then.
\<close>

record job_env =
  je_version :: string
  je_run :: run_env
  je_refresh :: "job_error option option"
  je_refreshMs :: int
  je_patch :: patch_env
  je_update :: update_env
  je_panic :: "(job_event list \<times> string) option"

definition runInventoryRefresh :: "job_env \<Rightarrow> jobSpec \<Rightarrow> world \<Rightarrow> world" where
  "runInventoryRefresh env spec w0 =
     (let w = progress (js_JobID spec) 0 PhaseStarted (js_Kind spec) w0;
          res0 = (case je_refresh env of
                    None \<Rightarrow> mkResult StatusFailed (-1)
                  | Some (Some e) \<Rightarrow> mkResult StatusFailed (-1)
                  | Some None \<Rightarrow> mkResult StatusSucceeded 0);
          res = res0\<lparr>rs_DurationMS := je_refreshMs env\<rparr>
      in PublishResult spec res (progress (js_JobID spec) 100 PhaseFinished (rs_Status res) w))"

definition unsupportedJob :: "job_env \<Rightarrow> jobSpec \<Rightarrow> world \<Rightarrow> world" where
  "unsupportedJob env spec w0 =
     (let note = ''job kind '' @ js_Kind spec @ '' is not supported by agent '' @ je_version env;
          w1 = progress (js_JobID spec) 0 PhaseStarted (js_Kind spec) w0;
          w2 = PublishStderr spec (''everwas-agent: '' @ note @ nl) w1;
          w3 = progress (js_JobID spec) 100 PhaseFinished StatusFailed w2;
          w4 = PublishResult spec (mkResult StatusFailed (-1)) w3
      in auditEmit ''command.unsupported'' [(''job_id'', DStr (js_JobID spec)), (''kind'', DStr (js_Kind spec))] w4)"

definition jobExecute :: "job_env \<Rightarrow> jobSpec \<Rightarrow> world \<Rightarrow> world" where
  "jobExecute env spec w0 =
     (let w = startProgress w0
      in if js_Kind spec = KindScriptRun \<or> js_Kind spec = [] then Run (je_run env) spec w
         else if js_Kind spec = KindInventoryRefresh then runInventoryRefresh env spec w
         else if js_Kind spec = KindPatchScan \<or> js_Kind spec = KindPatchInstall then patchExecute (je_patch env) spec w
         else if js_Kind spec = KindAgentUpdate then updateExecute (je_update env) spec w
         else unsupportedJob env spec w)"

definition jobPanicked :: "jobSpec \<Rightarrow> string \<Rightarrow> world \<Rightarrow> world" where
  "jobPanicked spec cause w =
     (let w1 = PublishStderr spec (''everwas-agent: job failed with an internal error: '' @ cause @ nl) w;
          w2 = PublishResult spec (mkResult StatusFailed (-1)) w1
      in auditEmit ''job.panicked''
           [(''job_id'', DStr (js_JobID spec)), (''kind'', DStr (js_Kind spec)), (''panic'', DStr cause)] w2)"

definition runJob :: "job_env \<Rightarrow> jobSpec \<Rightarrow> world \<Rightarrow> world" where
  "runJob env spec w =
     (case je_panic env of
        None \<Rightarrow> jobExecute env spec w
      | Some (evs, cause) \<Rightarrow> jobPanicked spec cause (w\<lparr>wd_out := wd_out w @ evs\<rparr>))"

section \<open>Where jobs come from\<close>

text \<open>
  Decoding: an envelope's version and data, a job, and a job's fields read over a job already
  filled in (fields that are absent keep their value).
\<close>

record json_lib =
  jl_envelope :: "bytes \<Rightarrow> (int \<times> bytes) option"
  jl_job :: "bytes \<Rightarrow> string + jobSpec"
  jl_over :: "bytes \<Rightarrow> jobSpec \<Rightarrow> string + jobSpec"

definition commandData :: "json_lib \<Rightarrow> bytes \<Rightarrow> bytes" where
  "commandData jl raw =
     (case jl_envelope jl raw of
        Some (v, payload) \<Rightarrow> if 0 < v \<and> payload \<noteq> [] then payload else raw
      | None \<Rightarrow> raw)"

definition decodeJob :: "json_lib \<Rightarrow> bytes \<Rightarrow> string + jobSpec" where
  "decodeJob jl raw = jl_job jl (commandData jl raw)"

datatype msg_action = MsgAck | MsgNak | MsgTerm

text \<open>
  \<open>handleJob\<close>: what it tells the stream, the job it started, and the registry; \<open>None\<close> while it
  blocks for a slot with the message not yet answered.
\<close>

definition handleJob :: "json_lib \<Rightarrow> bytes \<Rightarrow> registry \<Rightarrow> (msg_action \<times> jobSpec option \<times> registry) option" where
  "handleJob jl raw r =
     (case decodeJob jl raw of
        Inl e \<Rightarrow> Some (MsgTerm, None, r)
      | Inr spec \<Rightarrow>
          if CheckIdentifier ''job_id'' (js_JobID spec) \<noteq> None then Some (MsgTerm, None, r)
          else case reserve spec r of
                 None \<Rightarrow> None
               | Some (Inl ErrJobDone, r') \<Rightarrow> Some (MsgAck, None, r')
               | Some (Inl ErrJobRunning, r') \<Rightarrow> Some (MsgAck, None, r')
               | Some (Inl ErrStopping, r') \<Rightarrow> Some (MsgNak, None, r')
               | Some (Inr _, r') \<Rightarrow> Some (MsgAck, Some spec, r'))"

text \<open>The goroutine of a job taken from the stream, and of one started by the scheduler.\<close>

definition streamJob :: "job_env \<Rightarrow> jobSpec \<Rightarrow> registry \<times> world \<Rightarrow> registry \<times> world" where
  "streamJob env spec rw =
     (release (js_JobID spec) (markDone (js_JobID spec) (fst rw)), runJob env spec (snd rw))"

definition scheduledSpec :: "json_lib \<Rightarrow> string \<Rightarrow> entry \<Rightarrow> jobSpec option" where
  "scheduledSpec jl jobID e =
     (let spec0 = (bareSpec [])\<lparr>js_Kind := en_Kind e\<rparr>
      in case (if en_Payload e \<noteq> [] then jl_over jl (en_Payload e) spec0 else Inr spec0) of
           Inl err \<Rightarrow> None
         | Inr s1 \<Rightarrow>
             (let s2 = s1\<lparr>js_JobID := jobID, js_EntryID := en_EntryID e\<rparr>;
                  s3 = (if js_Kind s2 = [] then s2\<lparr>js_Kind := en_Kind e\<rparr> else s2)
              in Some (if js_RequestedBy s3 = [] then s3\<lparr>js_RequestedBy := ''schedule:'' @ en_EntryID e\<rparr> else s3)))"

definition RunScheduled :: "job_env \<Rightarrow> json_lib \<Rightarrow> string \<Rightarrow> entry \<Rightarrow> registry \<times> world \<Rightarrow> (registry \<times> world) option" where
  "RunScheduled env jl jobID e rw =
     (case scheduledSpec jl jobID e of
        None \<Rightarrow> Some rw
      | Some spec \<Rightarrow>
          (case reserve spec (fst rw) of
             None \<Rightarrow> None
           | Some (Inl err, r) \<Rightarrow> Some (r, snd rw)
           | Some (Inr _, r) \<Rightarrow> Some (release (js_JobID spec) r, runJob env spec (snd rw))))"

section \<open>Every handler reports once\<close>

lemma patchResult_terminal: "terminal (rs_Status (patchResult err failed))"
  by (auto simp: patchResult_def mkResult_def terminal_def split: option.splits job_error.splits)

lemma updateOutcome_terminal: "updateOutcome cur req out err = (res, summary) \<Longrightarrow> terminal (rs_Status res)"
  by (auto simp: updateOutcome_def mkResult_def terminal_def split: option.splits job_error.splits if_splits)

lemma grows_fold_progress: "grows w (fold (\<lambda>(pct, ph, uid). progress j pct p (installNote ph uid)) steps w)"
proof (induction steps arbitrary: w)
  case (Cons a steps)
  obtain pct ph uid where "a = (pct, ph, uid)" by (cases a)
  then show ?case using grows_trans [OF grows_progress Cons.IH, of w j pct p "installNote ph uid"] by simp
qed simp

lemma grows_HandlePatchScan: "HandlePatchScan env j w = (st, err, w') \<Longrightarrow> grows w w'"
  by (auto simp: HandlePatchScan_def intro: grows_progress split: option.splits)

lemma grows_HandlePatchInstall: "HandlePatchInstall env j ids w = (res, err, w') \<Longrightarrow> grows w w'"
  by (auto simp: HandlePatchInstall_def Let_def split: option.splits sum.splits prod.splits if_splits
      intro!: grows_trans [OF grows_progress grows_fold_progress])

text \<open>The common end of a handler: output, the last progress, the result.\<close>

lemma reports_end:
  assumes "grows w w1" and "terminal (rs_Status res)"
  shows "\<exists>evs. wd_out (PublishResult spec res (progress j pct ph st w1)) = wd_out w @ evs \<and> reportsOnce spec evs"
  by (rule reports_after [OF grows_trans [OF assms(1) grows_progress] PublishResult_reports [OF assms(2)]])

interpretation patch_job: job_handler "patchExecute env" for env
proof
  fix spec w
  show "\<exists>evs. wd_out (patchExecute env spec w) = wd_out w @ evs \<and> reportsOnce spec evs"
    unfolding patchExecute_def Let_def
    by (auto split: prod.splits if_splits intro!: reports_end
        simp: patchResult_terminal
        intro: grows_trans [OF _ grows_PublishStderr] grows_trans [OF grows_progress]
          grows_trans [OF grows_HandlePatchScan grows_auditEmit] grows_trans [OF grows_HandlePatchInstall grows_auditEmit])
qed

text \<open>The end of an update job: its audited report, and then the exit, if any.\<close>

definition updateReport :: "update_env \<Rightarrow> jobSpec \<Rightarrow> result \<Rightarrow> string \<Rightarrow> string \<Rightarrow> world \<Rightarrow> world" where
  "updateReport env spec res summary version w =
     auditEmit ''agent.updated''
       [(''job_id'', DStr (js_JobID spec)), (''from_version'', DStr (ue_Version env)),
        (''to_version'', DStr version), (''status'', DStr (rs_Status res)),
        (''finalizing'', DBool (rs_Finalizing res)), (''requested_by'', DStr (js_RequestedBy spec)),
        (''summary'', DStr summary)]
       (PublishResult spec (res\<lparr>rs_DurationMS := ue_ms env\<rparr>)
         (progress (js_JobID spec) 100 PhaseFinished (rs_Status res)
           (PublishStderr spec (''everwas-agent: '' @ summary @ nl) w)))"

lemma updateFinish_cases:
  "updateFinish env spec res summary v out w =
     (let w4 = updateReport env spec res summary v w
      in if out = None \<or> rs_Status res \<noteq> StatusSucceeded then w4
         else if rs_Finalizing res \<and> ue_Handoff env
         then put (EvHandoff (''update finalizer is waiting to swap to '' @ v)) w4
         else if \<not> rs_Finalizing res \<and> ue_Restart env then put (EvRestart (''updated to '' @ v)) w4
         else w4)"
  by (simp add: updateFinish_def updateReport_def Let_def)

lemma updateReport_reports:
  assumes "grows w0 w" and "terminal (rs_Status res)"
  shows "\<exists>evs. wd_out (updateReport env spec res summary v w) = wd_out w0 @ evs \<and> reportsOnce spec evs"
  unfolding updateReport_def
  by (rule reports_before [OF reports_end [OF grows_trans [OF assms(1) grows_PublishStderr]] grows_auditEmit])
    (simp add: assms(2))

lemma updateFinish_reports:
  assumes "grows w0 w" and "terminal (rs_Status res)"
  shows "\<exists>evs. wd_out (updateFinish env spec res summary v out w) = wd_out w0 @ evs \<and> reportsOnce spec evs"
proof -
  note r = updateReport_reports [OF assms, where env = env and spec = spec and summary = summary and v = v]
  show ?thesis
    unfolding updateFinish_cases Let_def
    by (split if_split | intro conjI impI | rule r | (rule reports_before [OF r grows_put], simp))+
qed

interpretation update_job: job_handler "updateExecute env" for env
proof
  fix spec w
  have f: "terminal (rs_Status (mkResult StatusFailed (-1)))" by (simp add: mkResult_def terminal_def)
  show "\<exists>evs. wd_out (updateExecute env spec w) = wd_out w @ evs \<and> reportsOnce spec evs"
    unfolding updateExecute_def Let_def
    by (auto split: sum.splits option.splits prod.splits
        intro!: updateFinish_reports f grows_progress grows_trans [OF grows_progress grows_progress]
        dest: updateOutcome_terminal)
qed

interpretation inventory_job: job_handler "runInventoryRefresh env" for env
proof
  fix spec w
  show "\<exists>evs. wd_out (runInventoryRefresh env spec w) = wd_out w @ evs \<and> reportsOnce spec evs"
    unfolding runInventoryRefresh_def Let_def
    by (rule reports_end [OF grows_progress]) (auto simp: mkResult_def terminal_def split: option.splits)
qed

interpretation unsupported_job: job_handler "unsupportedJob env" for env
proof
  fix spec w
  show "\<exists>evs. wd_out (unsupportedJob env spec w) = wd_out w @ evs \<and> reportsOnce spec evs"
    unfolding unsupportedJob_def Let_def
    by (rule reports_before [OF reports_end [OF grows_trans [OF grows_progress grows_PublishStderr]] grows_auditEmit])
      (simp add: mkResult_def terminal_def)
qed

interpretation any_job: job_handler "jobExecute env" for env
proof
  fix spec w
  have s: "grows w (startProgress w)" by (rule grows_startProgress)
  show "\<exists>evs. wd_out (jobExecute env spec w) = wd_out w @ evs \<and> reportsOnce spec evs"
    unfolding jobExecute_def Let_def
    by (simp add: reports_after [OF s script_run.reports] reports_after [OF s inventory_job.reports]
        reports_after [OF s patch_job.reports] reports_after [OF s update_job.reports]
        reports_after [OF s unsupported_job.reports])
qed

interpretation panicked_job: job_handler "\<lambda>spec. jobPanicked spec cause" for cause
proof
  fix spec w
  show "\<exists>evs. wd_out (jobPanicked spec cause w) = wd_out w @ evs \<and> reportsOnce spec evs"
    unfolding jobPanicked_def Let_def
    by (rule reports_before [OF reports_after [OF grows_PublishStderr PublishResult_reports] grows_auditEmit])
      (simp add: mkResult_def terminal_def)
qed

lemma runJob_reports:
  assumes "\<And>evs cause. je_panic env = Some (evs, cause) \<Longrightarrow> quiet evs"
  shows "\<exists>evs. wd_out (runJob env spec w) = wd_out w @ evs \<and> reportsOnce spec evs"
proof (cases "je_panic env")
  case None
  then show ?thesis using any_job.reports by (simp add: runJob_def)
next
  case (Some p)
  obtain evs cause where p: "p = (evs, cause)" by (cases p)
  obtain evs' where "wd_out (jobPanicked spec cause (w\<lparr>wd_out := wd_out w @ evs\<rparr>)) = (wd_out w @ evs) @ evs'" "reportsOnce spec evs'"
    using panicked_job.reports [of spec cause "w\<lparr>wd_out := wd_out w @ evs\<rparr>"] by auto
  then show ?thesis using Some p assms reportsOnce_quiet by (auto simp: runJob_def)
qed

section \<open>The exit of an update job\<close>

fun isExit :: "job_event \<Rightarrow> bool" where
  "isExit (EvRestart m) = True"
| "isExit (EvHandoff m) = True"
| "isExit ev = False"

text \<open>\<open>stays w w'\<close>: \<open>w'\<close> extends the events of \<open>w\<close> without asking for an exit.\<close>

definition stays :: "world \<Rightarrow> world \<Rightarrow> bool" where
  "stays w w' \<longleftrightarrow> (\<exists>evs. wd_out w' = wd_out w @ evs \<and> list_all (\<lambda>ev. \<not> isExit ev) evs)"

lemma stays_refl [simp, intro]: "stays w w"
  by (auto simp: stays_def)

lemma stays_trans [trans]: "stays w1 w2 \<Longrightarrow> stays w2 w3 \<Longrightarrow> stays w1 w3"
  unfolding stays_def by (metis append_assoc list_all_append)

lemma stays_put: "\<not> isExit ev \<Longrightarrow> stays w (put ev w)"
  by (auto simp: stays_def)

lemma stays_progress: "stays w (progress j pct ph note w)"
  by (auto simp: stays_def progress_def)

lemma stays_auditEmit: "stays w (auditEmit ev ds w)"
  by (auto simp: stays_def auditEmit_def)

lemma stays_PublishResult: "stays w (PublishResult spec r w)"
  by (auto simp: stays_def PublishResult_def publishResult_def split: prod.splits)

lemma stays_PublishStderr: "stays w (PublishStderr job t w)"
proof -
  have "list_all (\<lambda>ev. \<not> isExit ev) (map EvChunk cs)" for cs by (induction cs) auto
  then show ?thesis using chunky_PublishStderr [of w job t] unfolding chunky_def stays_def by metis
qed

lemma stays_updateReport: "stays w (updateReport env spec res summary v w)"
  unfolding updateReport_def
  by (rule stays_trans [OF stays_trans [OF stays_trans [OF stays_PublishStderr stays_progress] stays_PublishResult] stays_auditEmit])

text \<open>
  An exit is asked for only after a report of success, as the last thing the job does, and by
  the route that fits.
\<close>

definition exitsLast :: "update_env \<Rightarrow> jobSpec \<Rightarrow> job_event list \<Rightarrow> bool" where
  "exitsLast env spec evs \<longleftrightarrow>
     list_all (\<lambda>ev. \<not> isExit ev) evs \<or>
     (\<exists>pre ex r acked. evs = pre @ [ex] \<and> list_all (\<lambda>ev. \<not> isExit ev) pre \<and>
        EvResult (js_JobID spec) r acked \<in> set pre \<and> rs_Status r = StatusSucceeded \<and>
        (if rs_Finalizing r then \<exists>m. ex = EvHandoff m else \<exists>m. ex = EvRestart m))"

lemma updateReport_events:
  assumes "stays w0 w"
  shows "\<exists>evs acked. wd_out (updateReport env spec res summary v w) = wd_out w0 @ evs \<and>
    list_all (\<lambda>ev. \<not> isExit ev) evs \<and>
    EvResult (js_JobID spec) (res\<lparr>rs_DurationMS := ue_ms env, rs_EntryID := js_EntryID spec\<rparr>) acked \<in> set evs"
proof -
  let ?w2 = "progress (js_JobID spec) 100 PhaseFinished (rs_Status res) (PublishStderr spec (''everwas-agent: '' @ summary @ nl) w)"
  have "stays w0 ?w2" by (rule stays_trans [OF stays_trans [OF assms stays_PublishStderr] stays_progress])
  then obtain e1 where e1: "wd_out ?w2 = wd_out w0 @ e1" "list_all (\<lambda>ev. \<not> isExit ev) e1" by (auto simp: stays_def)
  obtain acked where "wd_out (PublishResult spec (res\<lparr>rs_DurationMS := ue_ms env\<rparr>) ?w2) =
      wd_out ?w2 @ [EvResult (js_JobID spec) (res\<lparr>rs_DurationMS := ue_ms env, rs_EntryID := js_EntryID spec\<rparr>) acked]"
    using publishResult_out by (metis PublishResult_def)
  then show ?thesis using e1 by (auto simp: updateReport_def auditEmit_def)
qed

lemma updateFinish_exits:
  assumes "stays w0 w"
  shows "\<exists>evs. wd_out (updateFinish env spec res summary v out w) = wd_out w0 @ evs \<and> exitsLast env spec evs"
proof -
  obtain evs acked where e: "wd_out (updateReport env spec res summary v w) = wd_out w0 @ evs"
    "list_all (\<lambda>ev. \<not> isExit ev) evs"
    "EvResult (js_JobID spec) (res\<lparr>rs_DurationMS := ue_ms env, rs_EntryID := js_EntryID spec\<rparr>) acked \<in> set evs"
    using updateReport_events [OF assms] by blast
  let ?w4 = "updateReport env spec res summary v w" and ?r = "res\<lparr>rs_DurationMS := ue_ms env, rs_EntryID := js_EntryID spec\<rparr>"
  consider (no) "updateFinish env spec res summary v out w = ?w4"
    | (hand) m where "updateFinish env spec res summary v out w = put (EvHandoff m) ?w4" "rs_Status res = StatusSucceeded" "rs_Finalizing res"
    | (res) m where "updateFinish env spec res summary v out w = put (EvRestart m) ?w4" "rs_Status res = StatusSucceeded" "\<not> rs_Finalizing res"
    using updateFinish_cases [of env spec res summary v out w] unfolding Let_def by (metis (full_types))
  then show ?thesis
  proof cases
    case no
    then show ?thesis using e by (auto simp: exitsLast_def)
  next
    case hand
    then have "wd_out (updateFinish env spec res summary v out w) = wd_out w0 @ evs @ [EvHandoff m]" using e(1) by simp
    moreover have "exitsLast env spec (evs @ [EvHandoff m])"
      unfolding exitsLast_def using e hand by (intro disjI2 exI [of _ evs] exI [of _ "EvHandoff m"] exI [of _ ?r] exI [of _ acked]) simp
    ultimately show ?thesis by blast
  next
    case res
    then have "wd_out (updateFinish env spec res summary v out w) = wd_out w0 @ evs @ [EvRestart m]" using e(1) by simp
    moreover have "exitsLast env spec (evs @ [EvRestart m])"
      unfolding exitsLast_def using e res by (intro disjI2 exI [of _ evs] exI [of _ "EvRestart m"] exI [of _ ?r] exI [of _ acked]) simp
    ultimately show ?thesis by blast
  qed
qed

section \<open>Patch ids\<close>

text \<open>An id that survives the plain form: trimmed, not empty, and without a line break.\<close>

definition plainID :: "string \<Rightarrow> bool" where
  "plainID i \<longleftrightarrow> i \<noteq> [] \<and> \<not> isSpace (hd i) \<and> \<not> isSpace (last i) \<and> CHR 0x0A \<notin> set i"

lemma plainID_clean: "plainID i \<Longrightarrow> trimSpace (trimSuffix [CHR 0x0D] i) = i"
proof -
  assume i: "plainID i"
  then have "last i \<noteq> CHR 0x0D" by (auto simp: plainID_def isSpace_def)
  then have "trimSuffix [CHR 0x0D] i = i"
    using i by (cases i rule: rev_cases) (auto simp: trimSuffix_def cutPrefix_def plainID_def)
  then show ?thesis using i by (auto simp: plainID_def intro: trimBy_id)
qed

lemma cleanIDs_plain: "list_all plainID ids \<Longrightarrow> cleanIDs ids = ids"
  by (induction ids) (auto simp: cleanIDs_def plainID_clean, simp add: plainID_def)

lemma splitOn_join: "list_all (\<lambda>w. c \<notin> set w) ws \<Longrightarrow> ws \<noteq> [] \<Longrightarrow> splitOn c (joinWith [c] ws) = ws"
proof (induction ws)
  case (Cons w ws)
  show ?case
  proof (cases "ws = []")
    case True
    then show ?thesis using Cons.prems by (simp add: splitOn_free)
  next
    case False
    then show ?thesis
      using Cons splitOn_append [of c w "joinWith [c] ws"] by (simp add: joinWith_Cons splitOn_free)
  qed
qed simp

lemma joinWith_ends:
  assumes "ws \<noteq> []" and "list_all plainID ws"
  shows "joinWith sep ws \<noteq> []" and "hd (joinWith sep ws) = hd (hd ws)" and "last (joinWith sep ws) = last (last ws)"
proof -
  obtain w ws' where w: "ws = w # ws'" using assms(1) by (cases ws) auto
  then have ne: "w \<noteq> []" using assms(2) by (simp add: plainID_def)
  show "joinWith sep ws \<noteq> []" and "hd (joinWith sep ws) = hd (hd ws)"
    using w ne by (cases ws'; simp)+
  show "last (joinWith sep ws) = last (last ws)"
    using assms
  proof (induction ws)
    case (Cons a ws)
    then show ?case by (cases ws) (auto simp: plainID_def last_append joinWith_Cons)
  qed simp
qed


section \<open>Scheduled jobs\<close>

lemma scheduledSpec_ids: "scheduledSpec jl jobID e = Some spec \<Longrightarrow> js_JobID spec = jobID \<and> js_EntryID spec = en_EntryID e"
  by (auto simp: scheduledSpec_def Let_def split: sum.splits if_splits)

text \<open>Reserving and releasing leaves the registry as it was.\<close>

lemma reserve_release:
  assumes "reserve spec r = Some (Inr u, r1)"
  shows "release (js_JobID spec) r1 = r"
proof -
  from assms have none: "js_JobID spec \<notin> fst ` set (rg_inflight r)"
    and r1: "r1 = r\<lparr>rg_slots := rg_slots r + 1, rg_wg := rg_wg r + 1,
      rg_inflight := (js_JobID spec, \<lparr>jh_spec = spec, jh_kind = js_Kind spec, jh_base = rg_base r, jh_cancelled = False\<rparr>) # rg_inflight r\<rparr>"
    by (auto simp: reserve_def reserveCheck_def reserveCommit_def takeSlot_def map_of_eq_None_iff
        split: if_splits sum.splits prod.splits)
  have "filter (\<lambda>h. fst h \<noteq> js_JobID spec) (rg_inflight r) = rg_inflight r"
    using none by (force simp: filter_id_conv)
  then show ?thesis by (simp add: release_def releaseRest_def freeSlot_def deleteJob_def r1)
qed

lemma RunScheduled_started:
  assumes "scheduledSpec jl jobID e = Some spec" and "reserve spec r = Some (Inr u, r1)"
  shows "RunScheduled env jl jobID e (r, w) = Some (r, runJob env spec w)"
  using assms reserve_release [OF assms(2)] by (simp add: RunScheduled_def)

text \<open>A panic, if there is one, comes before the handler reported.\<close>

definition panicsEarly :: "job_env \<Rightarrow> bool" where
  "panicsEarly env \<longleftrightarrow> (case je_panic env of None \<Rightarrow> True | Some (evs, cause) \<Rightarrow> quiet evs)"

lemma runJob_result:
  assumes "panicsEarly env"
  shows "\<exists>res. resultsOf (wd_out (runJob env spec w)) = resultsOf (wd_out w) @ [(js_JobID spec, res)] \<and>
    rs_EntryID res = js_EntryID spec \<and> terminal (rs_Status res)"
proof -
  have q: "quiet evs" if "je_panic env = Some (evs, cause)" for evs cause using that assms by (simp add: panicsEarly_def)
  obtain evs where "wd_out (runJob env spec w) = wd_out w @ evs" "reportsOnce spec evs"
    using runJob_reports [of env spec w] q by blast
  then show ?thesis using reportsOnce_results [of spec evs] by auto
qed

section \<open>Properties\<close>


definition demoPatch :: patch_env where
  "demoPatch = \<lparr>pe_refresh = None, pe_manager = None, pe_obj = (\<lambda>b. None), pe_arr = (\<lambda>b. None), pe_ms = 4\<rparr>"

definition demoUpdate :: update_env where
  "demoUpdate = \<lparr>ue_StateDir = ''/s'', ue_Version = ''1.0'', ue_decode = (\<lambda>b. Inr goodReq),
     ue_apply = (\<lambda>req. applyOutcome (fst (Apply goodEnv req goodDisk))), ue_Restart = True, ue_Handoff = True, ue_ms = 9\<rparr>"

definition demoJobEnv :: job_env where
  "demoJobEnv = \<lparr>je_version = ''1.0'', je_run = demoEnv, je_refresh = None, je_refreshMs = 1, je_patch = demoPatch,
     je_update = demoUpdate, je_panic = Some ([], ''index out of range'')\<rparr>"


text \<open>
  The restart comes after the result. An update job asks the process to exit at most once, as
  its last act, only after it handed over a result that says succeeded, by a handoff when a
  finalizer is to complete the swap and by a restart otherwise.
\<close>

theorem update_exits_after_result:
  "\<exists>evs. wd_out (updateExecute env spec w) = wd_out w @ evs \<and> exitsLast env spec evs"
  unfolding updateExecute_def Let_def
  by (auto split: sum.splits option.splits prod.splits
      intro!: updateFinish_exits stays_progress stays_trans [OF stays_progress stays_progress])

text \<open>
  Approved updates survive the plain form. A body that lists trimmed ids one per line, and
  does not open like JSON, is read back as exactly those ids, spaces inside an id included.
\<close>

theorem ParsePatchIDs_lines:
  assumes "list_all plainID ids" and "ids \<noteq> []" and "hd (hd ids) \<noteq> CHR ''{''" and "hd (hd ids) \<noteq> CHR ''[''"
  shows "ParsePatchIDs env (joinWith [CHR 0x0A] ids) = ids"
proof -
  let ?b = "joinWith [CHR 0x0A] ids"
  note e = joinWith_ends [OF assms(2,1), of "[CHR 0x0A]"]
  have h: "plainID (hd ids)" "plainID (last ids)" using assms by (auto simp: list_all_iff)
  have "trimSpace ?b = ?b" by (rule trimBy_id) (use e h in \<open>simp add: plainID_def\<close>)
  moreover have "splitOn CHR 0x0A ?b = ids"
    by (rule splitOn_join) (use assms in \<open>auto simp: list_all_iff plainID_def\<close>)
  ultimately show ?thesis using e assms by (simp add: ParsePatchIDs_def cleanIDs_plain)
qed

theorem ParsePatchIDs_lines_witness:
  "ParsePatchIDs demoPatch (''macOS Sequoia 15.5'' @ [CHR 0x0A] @ ''Safari'') = [''macOS Sequoia 15.5'', ''Safari'']"
  using ParsePatchIDs_lines [of "[''macOS Sequoia 15.5'', ''Safari'']" demoPatch]
  by (simp add: plainID_def isSpace_def)

text \<open>
  What the stream is told. A message is terminated exactly when it cannot be decoded or its
  id cannot be used, given back exactly when the agent is stopping, and otherwise acknowledged;
  and an acknowledged message was either started now or is the copy of a job that is running or
  has run.
\<close>

theorem handleJob_answers:
  assumes "handleJob jl raw r = Some (act, started, r')"
  shows "case decodeJob jl raw of
      Inl e \<Rightarrow> act = MsgTerm \<and> started = None \<and> r' = r
    | Inr spec \<Rightarrow>
        if \<not> validId (js_JobID spec) then act = MsgTerm \<and> started = None \<and> r' = r
        else (case act of
            MsgTerm \<Rightarrow> False
          | MsgNak \<Rightarrow> started = None \<and> (rg_stopping r \<or> rg_base r \<in> set (rg_dead r))
          | MsgAck \<Rightarrow> (if started = None
              then js_JobID spec \<in> fst ` set (rg_inflight r) \<or> js_JobID spec \<in> set (rg_done r)
              else started = Some spec \<and> \<not> rg_stopping r \<and> rg_slots r < maxConcurrentJobs \<and>
                js_JobID spec \<notin> fst ` set (rg_inflight r) \<and> js_JobID spec \<notin> set (rg_done r)))"
proof (cases "decodeJob jl raw")
  case (Inl e)
  then show ?thesis using assms by (simp add: handleJob_def)
next
  case (Inr spec)
  show ?thesis
  proof (cases "validId (js_JobID spec)")
    case False
    then have "CheckIdentifier ''job_id'' (js_JobID spec) \<noteq> None" by (simp add: CheckIdentifier_None)
    then show ?thesis using assms Inr False by (simp add: handleJob_def)
  next
    case True
    then have c: "CheckIdentifier ''job_id'' (js_JobID spec) = None" by (simp add: CheckIdentifier_None)
    show ?thesis
      using assms Inr True c
      by (auto simp: handleJob_def reserve_def reserveCheck_def reserveCommit_def takeSlot_def map_of_eq_None_iff image_iff
          split: if_splits option.splits prod.splits sum.splits dest: map_of_SomeD)
  qed
qed

definition demoJson :: json_lib where
  "demoJson = \<lparr>jl_envelope = (\<lambda>b. None), jl_job = (\<lambda>b. Inr demoSpec), jl_over = (\<lambda>b s. Inr (s\<lparr>js_EntryID := ''other''\<rparr>))\<rparr>"

theorem handleJob_answers_witness:
  "\<exists>r'. handleJob demoJson ''{}'' newRegistry = Some (MsgAck, Some demoSpec, r') \<and>
     js_JobID demoSpec \<notin> set (rg_done newRegistry)"
proof -
  have "CheckIdentifier ''job_id'' ''j1'' = None" by code_simp
  then obtain r' where h: "handleJob demoJson ''{}'' newRegistry = Some (MsgAck, Some demoSpec, r')"
    by (auto simp: handleJob_def decodeJob_def commandData_def demoJson_def demoSpec_def reserve_def reserveCheck_def
        newRegistry_def maxConcurrentJobs_def reserveCommit_def takeSlot_def)
  have "validId (js_JobID demoSpec)" unfolding demoSpec_def by code_simp
  then show ?thesis using handleJob_answers [OF h] h
    by (simp add: decodeJob_def commandData_def demoJson_def)
qed


text \<open>
  A scheduled run is filed under its own schedule. Whatever the payload of the entry says,
  a run that is started reports under the id of the fire and the id of the entry, and leaves
  slots, handles and the wait group as it found them.
\<close>

theorem RunScheduled_attributed:
  assumes "panicsEarly env" and "scheduledSpec jl jobID e = Some spec" and "reserve spec r = Some (Inr u, r1)"
  shows "\<exists>w' res. RunScheduled env jl jobID e (r, w) = Some (r, w') \<and>
    resultsOf (wd_out w') = resultsOf (wd_out w) @ [(jobID, res)] \<and> rs_EntryID res = en_EntryID e"
  using RunScheduled_started [OF assms(2,3)] runJob_result [OF assms(1), of spec w] scheduledSpec_ids [OF assms(2)]
  by auto

definition demoEntry :: entry where
  "demoEntry = \<lparr>en_EntryID = ''nightly'', en_Cron = [], en_TZ = [], en_Kind = ''inventory.refresh'', en_Payload = ''{}'',
     en_JitterS = 0, en_MisfireGraceS = 0, en_Enabled = True\<rparr>"

lemma demo_scheduled:
  obtains spec r1 where "scheduledSpec demoJson ''j9'' demoEntry = Some spec" "reserve spec newRegistry = Some (Inr (), r1)"
  by (auto simp: scheduledSpec_def demoJson_def demoEntry_def bareSpec_def reserve_def reserveCheck_def newRegistry_def
      maxConcurrentJobs_def reserveCommit_def takeSlot_def)

lemma demo_panics: "panicsEarly demoJobEnv"
  by (simp add: panicsEarly_def demoJobEnv_def)

theorem RunScheduled_attributed_witness:
  "\<exists>w' res. RunScheduled demoJobEnv demoJson ''j9'' demoEntry (newRegistry, emptyWorld) = Some (newRegistry, w') \<and>
     resultsOf (wd_out w') = [(''j9'', res)] \<and> rs_EntryID res = ''nightly''"
proof -
  obtain spec r1 where "scheduledSpec demoJson ''j9'' demoEntry = Some spec" "reserve spec newRegistry = Some (Inr (), r1)"
    by (rule demo_scheduled)
  from RunScheduled_attributed [OF demo_panics this, of emptyWorld] show ?thesis
    by (simp add: emptyWorld_def demoEntry_def)
qed

text \<open>
  A fire that is dispatched twice runs twice: a scheduled run does not enter its id into the
  finished set, so a second dispatch under the same job id is executed and reported again.
\<close>

theorem scheduled_id_runs_again:
  assumes "panicsEarly env" and "scheduledSpec jl jobID e = Some spec" and "reserve spec r = Some (Inr u, r1)"
  shows "\<exists>w1 w2. RunScheduled env jl jobID e (r, w) = Some (r, w1) \<and> RunScheduled env jl jobID e (r, w1) = Some (r, w2) \<and>
    map fst (resultsOf (wd_out w2)) = map fst (resultsOf (wd_out w)) @ [jobID, jobID]"
proof -
  let ?w1 = "runJob env spec w"
  have "map fst (resultsOf (wd_out (runJob env spec w'))) = map fst (resultsOf (wd_out w')) @ [jobID]" for w'
    using runJob_result [OF assms(1), of spec w'] scheduledSpec_ids [OF assms(2)] by auto
  then show ?thesis using RunScheduled_started [OF assms(2,3)] by auto
qed

theorem scheduled_id_runs_again_witness:
  "\<exists>w1 w2. RunScheduled demoJobEnv demoJson ''j9'' demoEntry (newRegistry, emptyWorld) = Some (newRegistry, w1) \<and>
     RunScheduled demoJobEnv demoJson ''j9'' demoEntry (newRegistry, w1) = Some (newRegistry, w2) \<and>
     map fst (resultsOf (wd_out w2)) = [''j9'', ''j9'']"
proof -
  obtain spec r1 where "scheduledSpec demoJson ''j9'' demoEntry = Some spec" "reserve spec newRegistry = Some (Inr (), r1)"
    by (rule demo_scheduled)
  from scheduled_id_runs_again [OF demo_panics this, of emptyWorld] show ?thesis by (simp add: emptyWorld_def)
qed

end
