(* ===== verification/Shell.thy ===== *)
theory Shell
  imports Scripts
begin

text \<open>
  Interactive shell sessions, \<open>agent/internal/shell\<close>: byte-level flow control (\<open>flow.go\<close>), the
  buffer that bridges an outage (\<open>ring.go\<close>), one session (\<open>session.go\<close>) and the set of live
  sessions (\<open>shell.go\<close>).

  A session's record holds what the Go structure holds, with the channel \<open>gate\<close> as the
  number of the gate and the clock passed to the operations that read it. What the session sends to
  NATS, to its pseudo-terminal and to the audit log is appended to \<open>ss_out\<close>; \<open>ss_connected\<close>
  is what \<open>nc.IsConnected\<close> answers, and the outcome of every publish is taken from \<open>ss_faults\<close>
  (\<open>True\<close>: it fails; the empty list: it succeeds).
\<close>

section \<open>Flow control\<close>

definition MaxFrameBytes :: nat where
  "MaxFrameBytes = 32 * 1024"

definition PauseAbove :: int where
  "PauseAbove = 512 * 1024"

definition ResumeBelow :: int where
  "ResumeBelow = 256 * 1024"

text \<open>
  \<open>fc_gate\<close> is the gate the session is paused on; \<open>fc_gates\<close> counts the gates made so far, so
  that a goroutine that waits on one is not confused with one that waits on a later one.
\<close>

record flowController =
  fc_pauseAbove :: int
  fc_resumeBelow :: int
  fc_unacked :: int
  fc_paused :: bool
  fc_gate :: "nat option"
  fc_gates :: nat

definition newFlowControllerWith :: "int \<Rightarrow> int \<Rightarrow> flowController" where
  "newFlowControllerWith pauseAbove resumeBelow =
     \<lparr>fc_pauseAbove = pauseAbove, fc_resumeBelow = resumeBelow, fc_unacked = 0,
      fc_paused = False, fc_gate = None, fc_gates = 0\<rparr>"

definition newFlowController :: flowController where
  "newFlowController = newFlowControllerWith PauseAbove ResumeBelow"

definition flowSent :: "int \<Rightarrow> flowController \<Rightarrow> flowController" where
  "flowSent n f =
     (let f1 = f\<lparr>fc_unacked := fc_unacked f + n\<rparr>
      in if \<not> fc_paused f1 \<and> fc_unacked f1 > fc_pauseAbove f1
         then f1\<lparr>fc_paused := True, fc_gate := Some (fc_gates f1), fc_gates := fc_gates f1 + 1\<rparr>
         else f1)"

definition closeGate :: "flowController \<Rightarrow> flowController" where
  "closeGate f = f\<lparr>fc_paused := False, fc_gate := None\<rparr>"

definition flowAck :: "int \<Rightarrow> flowController \<Rightarrow> bool \<times> flowController" where
  "flowAck n f =
     (if n \<le> 0 then (False, f)
      else let f1 = f\<lparr>fc_unacked := max 0 (fc_unacked f - n)\<rparr>
           in if fc_paused f1 \<and> fc_unacked f1 \<le> fc_resumeBelow f1 then (True, closeGate f1)
              else (False, f1))"

definition flowRelease :: "flowController \<Rightarrow> flowController" where
  "flowRelease f = (if fc_paused f then closeGate f else f)"

text \<open>
  \<open>wait\<close> takes the gate under the lock and then blocks until that gate is closed: here the gate
  it took, and whether the gate is closed by now.
\<close>

definition waitGate :: "flowController \<Rightarrow> nat option" where
  "waitGate f = fc_gate f"

definition gateClosed :: "nat \<Rightarrow> flowController \<Rightarrow> bool" where
  "gateClosed g f \<longleftrightarrow> fc_gate f \<noteq> Some g"

section \<open>The disconnect buffer\<close>

definition RingBytes :: nat where
  "RingBytes = 256 * 1024"

record ring =
  rn_max :: nat
  rn_buf :: bytes
  rn_dropped :: bool

definition newRing :: "nat \<Rightarrow> ring" where
  "newRing m = \<lparr>rn_max = m, rn_buf = [], rn_dropped = False\<rparr>"

definition ringWrite :: "bytes \<Rightarrow> ring \<Rightarrow> ring" where
  "ringWrite p r =
     (if p = [] then r
      else if length p \<ge> rn_max r
      then r\<lparr>rn_buf := drop (length p - rn_max r) p, rn_dropped := True\<rparr>
      else let buf = rn_buf r @ p
           in if rn_max r < length buf
              then r\<lparr>rn_buf := drop (length buf - rn_max r) buf, rn_dropped := True\<rparr>
              else r\<lparr>rn_buf := buf\<rparr>)"

definition ringDrain :: "ring \<Rightarrow> (bytes \<times> bool) \<times> ring" where
  "ringDrain r = ((rn_buf r, rn_dropped r), r\<lparr>rn_buf := [], rn_dropped := False\<rparr>)"

section \<open>The environment of a shell\<close>

definition ptyEnv :: "string list \<Rightarrow> string list" where
  "ptyEnv base = filter (\<lambda>kv. take 5 kv \<noteq> ''TERM='') base @ [''TERM=xterm-256color'']"

section \<open>A session\<close>

abbreviation (input) "reasonExit \<equiv> ''exit''"
abbreviation (input) "reasonIdle \<equiv> ''idle''"
abbreviation (input) "reasonDisconnected \<equiv> ''disconnected''"
abbreviation (input) "reasonServerGone \<equiv> ''server_gone''"
abbreviation (input) "reasonRequested \<equiv> ''requested''"
abbreviation (input) "reasonShutdown \<equiv> ''shutdown''"

definition DefaultIdleTimeout :: duration where
  "DefaultIdleTimeout = 15 * 60 * second"

definition pingTimeout :: duration where
  "pingTimeout = 65 * second"

definition firstPingGrace :: duration where
  "firstPingGrace = 90 * second"

definition disconnectGrace :: duration where
  "disconnectGrace = 60 * second"

definition idleTimeout :: "int \<Rightarrow> duration" where
  "idleTimeout sec = (if sec \<le> 0 then DefaultIdleTimeout else seconds sec)"

datatype ctl_event = CtlGap string | CtlClosed string string int

text \<open>
  What a session does. \<open>SvOutFailed\<close> is the warning \<open>publishFrames\<close> logs when a publish fails,
  with the bytes it gives up; \<open>SvCtlFailed\<close> is the one of \<open>publishCtl\<close>.
\<close>

datatype shell_event =
    SvSubscribe string
  | SvUnsubscribe string
  | SvOut string bytes
  | SvOutFailed bytes
  | SvCtl string ctl_event
  | SvCtlFailed ctl_event
  | SvPtyStart string int int
  | SvPtyWrite bytes
  | SvPtyResize int int
  | SvPtyClose
  | SvPtyReap
  | SvAudit string "(string \<times> detail) list"

record session =
  ss_id :: string
  ss_agentID :: string
  ss_shellName :: string
  ss_requestedBy :: string
  ss_idleTimeout :: duration
  ss_flow :: flowController
  ss_buf :: ring
  ss_connected :: bool
  ss_faults :: "bool list"
  ss_cancelled :: bool
  ss_subs :: "string list"
  ss_startedAt :: gtime
  ss_lastInput :: gtime
  ss_lastPing :: gtime
  ss_sawPing :: bool
  ss_disconnectedAt :: gtime
  ss_bytesIn :: int
  ss_bytesOut :: int
  ss_closing :: bool
  ss_out :: "shell_event list"

definition sput :: "shell_event \<Rightarrow> session \<Rightarrow> session" where
  "sput ev s = s\<lparr>ss_out := ss_out s @ [ev]\<rparr>"

text \<open>\<open>nc.Publish\<close>: whether it succeeds.\<close>

definition tryPublish :: "session \<Rightarrow> bool \<times> session" where
  "tryPublish s =
     (case ss_faults s of
        [] \<Rightarrow> (True, s)
      | fault # rest \<Rightarrow> (\<not> fault, s\<lparr>ss_faults := rest\<rparr>))"

definition publishCtl :: "ctl_event \<Rightarrow> session \<Rightarrow> session" where
  "publishCtl ev s =
     (let (ok, s1) = tryPublish s
      in sput (if ok then SvCtl (ShellCtl (ss_agentID s1) (ss_id s1)) ev else SvCtlFailed ev) s1)"

definition publishFrame :: "nat \<Rightarrow> bytes \<Rightarrow> session \<Rightarrow> session" where
  "publishFrame n frame s =
     (let s1 = sput (SvOut (ShellOut (ss_agentID s) (ss_id s)) frame) s
      in s1\<lparr>ss_flow := flowSent (int n) (ss_flow s1), ss_bytesOut := ss_bytesOut s1 + int n\<rparr>)"

function publishFrames :: "bytes \<Rightarrow> session \<Rightarrow> session" where
  "publishFrames data s =
     (if data = [] then s
      else let n = min (length data) MaxFrameBytes; (ok, s1) = tryPublish s
           in if ok then publishFrames (drop n data) (publishFrame n (take n data) s1)
              else sput (SvOutFailed data) s1)"
  by pat_completeness auto
termination
  by (relation "measure (\<lambda>(data, s). length data)") (auto simp: MaxFrameBytes_def)

declare publishFrames.simps [simp del]

definition markDisconnected :: "gtime \<Rightarrow> session \<Rightarrow> session" where
  "markDisconnected clk s =
     (if isZero (ss_disconnectedAt s) then s\<lparr>ss_disconnectedAt := clk\<rparr> else s)"

definition flushLocked :: "session \<Rightarrow> session" where
  "flushLocked s =
     (let wasDown = \<not> isZero (ss_disconnectedAt s);
          s1 = s\<lparr>ss_disconnectedAt := zero_time\<rparr>
      in if \<not> wasDown then s1
         else let ((pending, dropped), buf) = ringDrain (ss_buf s1);
                  s2 = s1\<lparr>ss_buf := buf\<rparr>;
                  s3 = (if dropped then publishCtl (CtlGap (ss_id s2)) s2 else s2)
              in publishFrames pending s3)"

definition emitOut :: "gtime \<Rightarrow> bytes \<Rightarrow> session \<Rightarrow> session" where
  "emitOut clk data s =
     (if \<not> ss_connected s
      then let s1 = markDisconnected clk s in s1\<lparr>ss_buf := ringWrite data (ss_buf s1)\<rparr>
      else publishFrames data (flushLocked s))"

text \<open>The JSON decoders of the handlers: \<open>None\<close> is the error of \<open>json.Unmarshal\<close>.\<close>

record shell_json =
  sj_resize :: "bytes \<Rightarrow> (int \<times> int) option"
  sj_ctl :: "bytes \<Rightarrow> (int option \<times> string) option"

definition onInput :: "gtime \<Rightarrow> bytes \<Rightarrow> session \<Rightarrow> session" where
  "onInput clk data s =
     (if data = [] then s
      else sput (SvPtyWrite data)
             (s\<lparr>ss_lastInput := clk, ss_bytesIn := ss_bytesIn s + int (length data)\<rparr>))"

definition onResize :: "shell_json \<Rightarrow> bytes \<Rightarrow> session \<Rightarrow> session" where
  "onResize sj data s =
     (case sj_resize sj data of
        None \<Rightarrow> s
      | Some (cols, rows) \<Rightarrow> sput (SvPtyResize cols rows) s)"

definition onCtl :: "shell_json \<Rightarrow> gtime \<Rightarrow> bytes \<Rightarrow> session \<Rightarrow> session" where
  "onCtl sj clk data s =
     (case sj_ctl sj data of
        None \<Rightarrow> s
      | Some (ack, event) \<Rightarrow>
          (let s1 = (case ack of None \<Rightarrow> s | Some n \<Rightarrow> s\<lparr>ss_flow := snd (flowAck n (ss_flow s))\<rparr>)
           in if event = ''ping'' then s1\<lparr>ss_lastPing := clk, ss_sawPing := True\<rparr> else s1))"

definition unsubscribe :: "session \<Rightarrow> session" where
  "unsubscribe s = (fold (\<lambda>sub. sput (SvUnsubscribe sub)) (ss_subs s) s)\<lparr>ss_subs := []\<rparr>"

text \<open>
  \<open>close\<close>; the flag says whether this call was the one that tore the session down and so called
  \<open>onClose\<close>.
\<close>

definition closeSession :: "gtime \<Rightarrow> string \<Rightarrow> int \<Rightarrow> session \<Rightarrow> bool \<times> session" where
  "closeSession clk reason code s =
     (if ss_closing s then (False, s)
      else let s1 = publishCtl (CtlClosed (ss_id s) reason code) (s\<lparr>ss_closing := True\<rparr>);
               s2 = unsubscribe s1;
               s3 = sput SvPtyClose (s2\<lparr>ss_flow := flowRelease (ss_flow s2), ss_cancelled := True\<rparr>)
           in (True, sput (SvAudit ''shell.closed''
                 [(''session_id'', DStr (ss_id s3)), (''shell'', DStr (ss_shellName s3)),
                  (''requested_by'', DStr (ss_requestedBy s3)), (''reason'', DStr reason),
                  (''exit_code'', DInt code),
                  (''duration_s'', DInt (subT clk (ss_startedAt s3) div second)),
                  (''bytes_in'', DInt (ss_bytesIn s)), (''bytes_out'', DInt (ss_bytesOut s))]) s3))"

definition checkTimeouts :: "gtime \<Rightarrow> gtime \<Rightarrow> session \<Rightarrow> string option \<times> session" where
  "checkTimeouts clk now s =
     (let s1 = (if ss_connected s then flushLocked s else markDisconnected clk s);
          (since, deadline) =
            (if \<not> ss_sawPing s1 then (ss_startedAt s1, firstPingGrace) else (ss_lastPing s1, pingTimeout))
      in (if \<not> isZero (ss_disconnectedAt s1) \<and> subT now (ss_disconnectedAt s1) > disconnectGrace
          then Some reasonDisconnected
          else if subT now (ss_lastInput s1) > ss_idleTimeout s1 then Some reasonIdle
          else if subT now since > deadline then Some reasonServerGone
          else None, s1))"

text \<open>One tick of \<open>monitor\<close>: the flag says that the session was closed by it.\<close>

definition monitorTick :: "gtime \<Rightarrow> session \<Rightarrow> bool \<times> session" where
  "monitorTick now s =
     (case checkTimeouts now now s of
        (Some reason, s1) \<Rightarrow> closeSession now reason (- 1) s1
      | (None, s1) \<Rightarrow> (False, s1))"

section \<open>Starting a session\<close>

datatype shell_error =
    ShBadID string
  | ShShuttingDown
  | ShSessionExists
  | ShTooManySessions int
  | ShStart string

text \<open>
  What starting meets: the error of \<open>startPTY\<close>, and the error of each of the three subscriptions
  in turn (\<open>None\<close>: it succeeds; past the end of the list it succeeds too).
\<close>

record start_env =
  se_now :: gtime
  se_pty :: "string option"
  se_subs :: "string option list"
  se_connected :: bool

fun subscribeAll :: "string list \<Rightarrow> string option list \<Rightarrow> session \<Rightarrow> string option \<times> session" where
  "subscribeAll [] _ s = (None, s)"
| "subscribeAll (subj # rest) outcomes s =
     (case outcomes of
        Some e # _ \<Rightarrow> (Some e, s)
      | _ \<Rightarrow> subscribeAll rest (drop 1 outcomes)
               (sput (SvSubscribe subj) (s\<lparr>ss_subs := ss_subs s @ [subj]\<rparr>)))"

definition closeAndReap :: "session \<Rightarrow> session" where
  "closeAndReap s = sput SvPtyReap (sput SvPtyClose s)"

definition startSession :: "start_env \<Rightarrow> int \<Rightarrow> int \<Rightarrow> session \<Rightarrow> shell_error option \<times> session" where
  "startSession e cols rows s =
     (if \<not> validId (ss_id s) then (Some (ShBadID (ss_id s)), s)
      else case se_pty e of
        Some err \<Rightarrow> (Some (ShStart err), s)
      | None \<Rightarrow>
          (let s1 = sput (SvPtyStart (ss_shellName s) cols rows)
                 (s\<lparr>ss_flow := newFlowController, ss_buf := newRing RingBytes, ss_cancelled := False,
                    ss_startedAt := se_now e, ss_lastInput := se_now e,
                    ss_connected := se_connected e\<rparr>);
               (err, s2) = subscribeAll
                 [ShellIn (ss_agentID s1) (ss_id s1), ShellResize (ss_agentID s1) (ss_id s1),
                  ShellCtl (ss_agentID s1) (ss_id s1)] (se_subs e) s1
           in case err of
                Some m \<Rightarrow> (Some (ShStart m), closeAndReap ((unsubscribe s2)\<lparr>ss_cancelled := True\<rparr>))
              | None \<Rightarrow>
                  (None, sput (SvAudit ''shell.opened''
                     [(''session_id'', DStr (ss_id s2)), (''shell'', DStr (ss_shellName s2)),
                      (''requested_by'', DStr (ss_requestedBy s2)), (''cols'', DInt cols),
                      (''rows'', DInt rows)]) s2)))"

section \<open>The module: the set of live sessions\<close>

definition MaxSessions :: nat where
  "MaxSessions = 5"

record openSpec =
  os_SessionID :: string
  os_Shell :: string
  os_Cols :: int
  os_Rows :: int
  os_IdleTimeoutS :: int
  os_RequestedBy :: string

text \<open>
  \<open>sm_gone\<close> keeps the sessions that were torn down, and \<open>sm_failed\<close> those whose start failed
  half way: the module no longer holds them, but what they did has happened.
\<close>

record shellModule =
  sm_agentID :: string
  sm_maxSessions :: nat
  sm_sessions :: "(string \<times> session) list"
  sm_closed :: bool
  sm_gone :: "session list"
  sm_failed :: "session list"

definition newShell :: "string \<Rightarrow> shellModule" where
  "newShell agentID =
     \<lparr>sm_agentID = agentID, sm_maxSessions = MaxSessions, sm_sessions = [], sm_closed = False,
      sm_gone = [], sm_failed = []\<rparr>"

definition newSession :: "string \<Rightarrow> openSpec \<Rightarrow> session" where
  "newSession agentID spec =
     \<lparr>ss_id = os_SessionID spec, ss_agentID = agentID, ss_shellName = os_Shell spec,
      ss_requestedBy = os_RequestedBy spec, ss_idleTimeout = idleTimeout (os_IdleTimeoutS spec),
      ss_flow = newFlowController, ss_buf = newRing RingBytes, ss_connected = False,
      ss_faults = [], ss_cancelled = False, ss_subs = [], ss_startedAt = zero_time,
      ss_lastInput = zero_time, ss_lastPing = zero_time, ss_sawPing = False,
      ss_disconnectedAt = zero_time, ss_bytesIn = 0, ss_bytesOut = 0, ss_closing = False, ss_out = []\<rparr>"

definition OpenSession :: "start_env \<Rightarrow> openSpec \<Rightarrow> shellModule \<Rightarrow> shell_error option \<times> shellModule" where
  "OpenSession e spec m =
     (if \<not> validId (os_SessionID spec) then (Some (ShBadID (os_SessionID spec)), m)
      else if sm_closed m then (Some ShShuttingDown, m)
      else if map_of (sm_sessions m) (os_SessionID spec) \<noteq> None then (Some ShSessionExists, m)
      else if length (sm_sessions m) \<ge> sm_maxSessions m
      then (Some (ShTooManySessions (int (sm_maxSessions m))), m)
      else case startSession e (os_Cols spec) (os_Rows spec) (newSession (sm_agentID m) spec) of
             (Some err, s) \<Rightarrow> (Some err, m\<lparr>sm_failed := s # sm_failed m\<rparr>)
           | (None, s) \<Rightarrow> (None, m\<lparr>sm_sessions := (os_SessionID spec, s) # sm_sessions m\<rparr>))"

definition forget :: "string \<Rightarrow> shellModule \<Rightarrow> shellModule" where
  "forget sid m = m\<lparr>sm_sessions := filter (\<lambda>e. fst e \<noteq> sid) (sm_sessions m)\<rparr>"

text \<open>
  Running an operation of one live session; when the operation was the close that tore it down,
  \<open>onClose\<close> drops the session from the module.
\<close>

definition onSession :: "string \<Rightarrow> (session \<Rightarrow> bool \<times> session) \<Rightarrow> shellModule \<Rightarrow> shellModule" where
  "onSession sid f m =
     (case map_of (sm_sessions m) sid of
        None \<Rightarrow> m
      | Some s \<Rightarrow>
          (let (tornDown, s1) = f s
           in if tornDown then (forget sid m)\<lparr>sm_gone := s1 # sm_gone m\<rparr>
              else m\<lparr>sm_sessions := map (\<lambda>e. if fst e = sid then (sid, s1) else e) (sm_sessions m)\<rparr>))"

definition CloseShell :: "gtime \<Rightarrow> string \<Rightarrow> shellModule \<Rightarrow> bool \<times> shellModule" where
  "CloseShell clk sid m =
     (case map_of (sm_sessions m) sid of
        None \<Rightarrow> (False, m)
      | Some s \<Rightarrow> (True, onSession sid (closeSession clk reasonRequested (- 1)) m))"

definition CountShell :: "shellModule \<Rightarrow> nat" where
  "CountShell m = length (sm_sessions m)"

definition shutdownShell :: "gtime \<Rightarrow> shellModule \<Rightarrow> shellModule" where
  "shutdownShell clk m =
     fold (\<lambda>sid. onSession sid (closeSession clk reasonShutdown (- 1)))
       (map fst (sm_sessions m)) (m\<lparr>sm_closed := True\<rparr>)"

section \<open>The goroutines of a session\<close>

text \<open>
  Where \<open>pumpOutput\<close> is: at the top of its loop, waiting for a gate, in \<open>pty.Read\<close>, or returned.
  \<open>sy_read\<close> is everything it has read from the pseudo-terminal.
\<close>

datatype pump = AtTop | Blocked nat | Reading | Stopped

record shell_sys =
  sy_session :: session
  sy_pump :: pump
  sy_read :: bytes

definition pumpWait :: "shell_sys \<Rightarrow> shell_sys" where
  "pumpWait y = y\<lparr>sy_pump := (case waitGate (ss_flow (sy_session y)) of None \<Rightarrow> Reading | Some g \<Rightarrow> Blocked g)\<rparr>"

definition pumpRead :: "gtime \<Rightarrow> bytes \<Rightarrow> bool \<Rightarrow> shell_sys \<Rightarrow> shell_sys" where
  "pumpRead clk data failed y =
     y\<lparr>sy_session := (if data \<noteq> [] then emitOut clk data (sy_session y) else sy_session y),
       sy_pump := (if failed then Stopped else AtTop), sy_read := sy_read y @ data\<rparr>"

definition inSession :: "(session \<Rightarrow> session) \<Rightarrow> shell_sys \<Rightarrow> shell_sys" where
  "inSession f y = y\<lparr>sy_session := f (sy_session y)\<rparr>"

inductive shell_step :: "shell_json \<Rightarrow> shell_sys \<Rightarrow> shell_sys \<Rightarrow> bool" for sj where
  pump_wait: "sy_pump y = AtTop \<Longrightarrow> shell_step sj y (pumpWait y)"
| pump_wake: "sy_pump y = Blocked g \<Longrightarrow> gateClosed g (ss_flow (sy_session y)) \<Longrightarrow>
    shell_step sj y (y\<lparr>sy_pump := Reading\<rparr>)"
| pump_cancel: "sy_pump y = Blocked g \<Longrightarrow> ss_cancelled (sy_session y) \<Longrightarrow>
    shell_step sj y (y\<lparr>sy_pump := Stopped\<rparr>)"
| pump_read: "sy_pump y = Reading \<Longrightarrow> length data \<le> MaxFrameBytes \<Longrightarrow> \<not> isZero clk \<Longrightarrow>
    shell_step sj y (pumpRead clk data failed y)"
| input: "shell_step sj y (inSession (onInput clk data) y)"
| resize: "shell_step sj y (inSession (onResize sj data) y)"
| ctl: "shell_step sj y (inSession (onCtl sj clk data) y)"
| tick: "\<not> isZero now \<Longrightarrow> shell_step sj y (inSession (snd \<circ> monitorTick now) y)"
| close: "shell_step sj y (inSession (snd \<circ> closeSession clk reason code) y)"
| link: "shell_step sj y (inSession (\<lambda>s. s\<lparr>ss_connected := up, ss_faults := faults\<rparr>) y)"

inductive shell_reach :: "shell_json \<Rightarrow> shell_sys \<Rightarrow> bool" for sj where
  started: "startSession e cols rows (newSession agentID spec) = (None, s) \<Longrightarrow>
    shell_reach sj \<lparr>sy_session = s, sy_pump = AtTop, sy_read = []\<rparr>"
| stepped: "shell_reach sj y \<Longrightarrow> shell_step sj y y' \<Longrightarrow> shell_reach sj y'"

text \<open>\<open>monitor\<close> over the ticks it receives while nothing else happens in the session.\<close>

fun monitor :: "gtime list \<Rightarrow> session \<Rightarrow> session" where
  "monitor [] s = s"
| "monitor (now # ticks) s =
     (if ss_cancelled s then s
      else case checkTimeouts now now s of
             (Some _, _) \<Rightarrow> snd (monitorTick now s)
           | (None, s1) \<Rightarrow> monitor ticks s1)"

text \<open>
  A module as its callers and the goroutines of its sessions change it: commands open and close
  sessions, an operation runs in a live one, and the module shuts down.
\<close>

inductive session_op :: "shell_json \<Rightarrow> (session \<Rightarrow> bool \<times> session) \<Rightarrow> bool" for sj where
  op_emit: "session_op sj (Pair False \<circ> emitOut clk data)"
| op_input: "session_op sj (Pair False \<circ> onInput clk data)"
| op_resize: "session_op sj (Pair False \<circ> onResize sj data)"
| op_ctl: "session_op sj (Pair False \<circ> onCtl sj clk data)"
| op_link: "session_op sj (Pair False \<circ> (\<lambda>s. s\<lparr>ss_connected := up, ss_faults := faults\<rparr>))"
| op_tick: "session_op sj (monitorTick now)"
| op_exit: "session_op sj (closeSession clk reasonExit code)"

inductive shell_mod_reach :: "shell_json \<Rightarrow> string \<Rightarrow> shellModule \<Rightarrow> bool" for sj agentID where
  fresh: "shell_mod_reach sj agentID (newShell agentID)"
| opened: "shell_mod_reach sj agentID m \<Longrightarrow> OpenSession e spec m = (err, m') \<Longrightarrow> shell_mod_reach sj agentID m'"
| closed: "shell_mod_reach sj agentID m \<Longrightarrow> CloseShell clk sid m = (ok, m') \<Longrightarrow> shell_mod_reach sj agentID m'"
| running: "shell_mod_reach sj agentID m \<Longrightarrow> session_op sj f \<Longrightarrow> shell_mod_reach sj agentID (onSession sid f m)"
| stopped: "shell_mod_reach sj agentID m \<Longrightarrow> shell_mod_reach sj agentID (shutdownShell clk m)"

end
