(* ===== verification/Shell_Correct.thy ===== *)
theory Shell_Correct
  imports Shell
begin

text \<open>
  What the shell sessions of \<open>Shell\<close> guarantee: the bytes a session has in flight are bounded,
  its output is accounted for across outages, it is torn down once, its watchdog closes it exactly
  when it is stale, and the sessions of a module are few and isolated from each other.

  \<open>sound\<close> is the invariant of one session and its goroutines, proved step by step over
  \<open>shell_step\<close>; the locale \<open>session_operation\<close> is what the module asks of an operation that runs
  in a live session, interpreted for each of them.
\<close>

section \<open>Flow control\<close>

definition flowOK :: "flowController \<Rightarrow> bool" where
  "flowOK f \<longleftrightarrow> fc_pauseAbove f = PauseAbove \<and> fc_resumeBelow f = ResumeBelow \<and>
     0 \<le> fc_unacked f \<and> (fc_paused f \<longleftrightarrow> fc_gate f \<noteq> None) \<and>
     (\<forall>g. fc_gate f = Some g \<longrightarrow> g < fc_gates f) \<and>
     (\<not> fc_paused f \<longrightarrow> fc_unacked f \<le> PauseAbove) \<and>
     (fc_paused f \<longrightarrow> ResumeBelow < fc_unacked f)"

text \<open>From \<open>f\<close> to \<open>f'\<close> at most \<open>n\<close> bytes were sent, and no gate was closed and none opened again.\<close>

definition sentUpTo :: "nat \<Rightarrow> flowController \<Rightarrow> flowController \<Rightarrow> bool" where
  "sentUpTo n f f' \<longleftrightarrow> fc_unacked f \<le> fc_unacked f' \<and> fc_unacked f' \<le> fc_unacked f + int n \<and>
     fc_gates f \<le> fc_gates f' \<and> (\<forall>g < fc_gates f. fc_gate f' = Some g \<longleftrightarrow> fc_gate f = Some g)"

lemma sentUpTo_refl [simp]: "sentUpTo n f f"
  by (simp add: sentUpTo_def)

lemma sentUpTo_trans: "sentUpTo a f g \<Longrightarrow> sentUpTo b g h \<Longrightarrow> sentUpTo (a + b) f h"
  unfolding sentUpTo_def by (auto dest: order_less_le_trans)

lemma flowSent_sent: "flowOK f \<Longrightarrow> sentUpTo n f (flowSent (int n) f)"
  by (auto simp: flowSent_def sentUpTo_def flowOK_def Let_def)

lemma flowSent_ok: "flowOK f \<Longrightarrow> flowOK (flowSent (int n) f)"
  by (auto simp: flowSent_def flowOK_def Let_def PauseAbove_def ResumeBelow_def)

lemma flowAck_ok: "flowOK f \<Longrightarrow> flowOK (snd (flowAck n f))"
  by (auto simp: flowAck_def flowOK_def Let_def closeGate_def PauseAbove_def ResumeBelow_def)

lemma flowAck_less:
  "flowOK f \<Longrightarrow> fc_unacked (snd (flowAck n f)) \<le> fc_unacked f \<and> fc_gates (snd (flowAck n f)) = fc_gates f \<and>
     (fc_gate (snd (flowAck n f)) = fc_gate f \<or> fc_gate (snd (flowAck n f)) = None \<and> \<not> fc_paused (snd (flowAck n f)))"
  by (auto simp: flowAck_def flowOK_def Let_def closeGate_def)

section \<open>What the operations leave alone\<close>

named_theorems shell_frame \<open>fields of a session an operation does not change\<close>

lemma sput_fields [simp]:
  "ss_flow (sput ev s) = ss_flow s" "ss_buf (sput ev s) = ss_buf s"
  "ss_id (sput ev s) = ss_id s" "ss_agentID (sput ev s) = ss_agentID s"
  "ss_closing (sput ev s) = ss_closing s" "ss_disconnectedAt (sput ev s) = ss_disconnectedAt s"
  "ss_out (sput ev s) = ss_out s @ [ev]" "ss_subs (sput ev s) = ss_subs s"
  "ss_sawPing (sput ev s) = ss_sawPing s" "ss_lastPing (sput ev s) = ss_lastPing s"
  "ss_startedAt (sput ev s) = ss_startedAt s" "ss_lastInput (sput ev s) = ss_lastInput s"
  "ss_idleTimeout (sput ev s) = ss_idleTimeout s" "ss_cancelled (sput ev s) = ss_cancelled s"
  "ss_connected (sput ev s) = ss_connected s" "ss_bytesOut (sput ev s) = ss_bytesOut s"
  by (simp_all add: sput_def)

text \<open>Everything but the traffic: what publishing, flushing and marking an outage leave alone.\<close>

definition sameSession :: "session \<Rightarrow> session \<Rightarrow> bool" where
  "sameSession s s' \<longleftrightarrow> ss_id s' = ss_id s \<and> ss_agentID s' = ss_agentID s \<and>
     ss_closing s' = ss_closing s \<and> ss_subs s' = ss_subs s \<and> ss_sawPing s' = ss_sawPing s \<and>
     ss_lastPing s' = ss_lastPing s \<and> ss_startedAt s' = ss_startedAt s \<and>
     ss_lastInput s' = ss_lastInput s \<and> ss_idleTimeout s' = ss_idleTimeout s \<and>
     ss_cancelled s' = ss_cancelled s \<and> ss_connected s' = ss_connected s"

lemma sameSession_refl [simp]: "sameSession s s"
  by (simp add: sameSession_def)

lemma sameSession_trans: "sameSession a b \<Longrightarrow> sameSession b c \<Longrightarrow> sameSession a c"
  by (simp add: sameSession_def)

lemma tryPublish_fst_snd:
  "tryPublish s = (ok, s1) \<Longrightarrow> sameSession s s1 \<and> ss_out s1 = ss_out s \<and> ss_flow s1 = ss_flow s \<and>
     ss_buf s1 = ss_buf s \<and> ss_disconnectedAt s1 = ss_disconnectedAt s \<and> ss_bytesOut s1 = ss_bytesOut s"
  by (auto simp: tryPublish_def sameSession_def split: list.splits)

lemma publishCtl_eq:
  assumes "tryPublish s = (ok, s1)"
  shows "publishCtl ev s = sput (if ok then SvCtl (ShellCtl (ss_agentID s1) (ss_id s1)) ev else SvCtlFailed ev) s1"
  by (simp add: publishCtl_def assms)

lemma publishCtl_frame:
  "sameSession s (publishCtl ev s) \<and> ss_flow (publishCtl ev s) = ss_flow s \<and>
   ss_buf (publishCtl ev s) = ss_buf s \<and> ss_disconnectedAt (publishCtl ev s) = ss_disconnectedAt s \<and>
   (\<exists>k. ss_out (publishCtl ev s) = ss_out s @ [k] \<and> (k = SvCtl (ShellCtl (ss_agentID s) (ss_id s)) ev \<or> k = SvCtlFailed ev))"
proof -
  obtain ok s1 where t: "tryPublish s = (ok, s1)" by fastforce
  show ?thesis using tryPublish_fst_snd [OF t] by (simp add: publishCtl_eq [OF t] sameSession_def)
qed

lemma publishFrame_frame:
  "sameSession s (publishFrame n d s) \<and> ss_flow (publishFrame n d s) = flowSent (int n) (ss_flow s) \<and>
   ss_buf (publishFrame n d s) = ss_buf s \<and> ss_disconnectedAt (publishFrame n d s) = ss_disconnectedAt s \<and>
   ss_out (publishFrame n d s) = ss_out s @ [SvOut (ShellOut (ss_agentID s) (ss_id s)) d]"
  by (simp add: publishFrame_def sameSession_def Let_def sput_def)

text \<open>Induction over the frames of one call.\<close>

lemma publishFrames_ind:
  assumes "\<And>s. P [] s s"
    and "\<And>data s s1. data \<noteq> [] \<Longrightarrow> tryPublish s = (False, s1) \<Longrightarrow> P data s (sput (SvOutFailed data) s1)"
    and "\<And>data s s1 n r. data \<noteq> [] \<Longrightarrow> tryPublish s = (True, s1) \<Longrightarrow> n = min (length data) MaxFrameBytes \<Longrightarrow>
      P (drop n data) (publishFrame n (take n data) s1) r \<Longrightarrow> P data s r"
  shows "P data s (publishFrames data s)"
proof (induction data s rule: publishFrames.induct)
  case (1 data s)
  obtain ok s1 where t: "tryPublish s = (ok, s1)" by fastforce
  consider "data = []" | "data \<noteq> []" "ok" | "data \<noteq> []" "\<not> ok" by blast
  then show ?case
  proof cases
    case 1
    then show ?thesis using assms(1) by (simp add: publishFrames.simps)
  next
    case 2
    then have "publishFrames data s = publishFrames (drop (min (length data) MaxFrameBytes) data)
        (publishFrame (min (length data) MaxFrameBytes) (take (min (length data) MaxFrameBytes) data) s1)"
      by (subst publishFrames.simps) (simp add: t Let_def)
    then show ?thesis using 2 assms(3) [OF 2(1) _ refl] "1.IH" [OF 2(1) refl t [symmetric]] t by simp
  next
    case 3
    then show ?thesis using assms(2) t by (subst publishFrames.simps) simp
  qed
qed

lemma publishFrames_frame:
  "sameSession s (publishFrames data s) \<and> ss_buf (publishFrames data s) = ss_buf s \<and>
   ss_disconnectedAt (publishFrames data s) = ss_disconnectedAt s"
proof (induction rule: publishFrames_ind)
  case (2 data s s1)
  then show ?case using tryPublish_fst_snd [OF 2(2)] by (simp add: sameSession_def)
next
  case (3 data s s1 n r)
  then show ?case using tryPublish_fst_snd [OF 3(2)] publishFrame_frame [of s1 n "take n data"]
    by (simp add: sameSession_def)
qed simp

lemma publishFrames_flow:
  "flowOK (ss_flow s) \<longrightarrow> sentUpTo (length data) (ss_flow s) (ss_flow (publishFrames data s)) \<and>
   flowOK (ss_flow (publishFrames data s))"
proof (induction rule: publishFrames_ind)
  case (2 data s s1)
  then show ?case using tryPublish_fst_snd [OF 2(2)] by simp
next
  case (3 data s s1 n r)
  have f: "ss_flow (publishFrame n (take n data) s1) = flowSent (int n) (ss_flow s)"
    using tryPublish_fst_snd [OF 3(2)] publishFrame_frame [of s1 n "take n data"] by simp
  have "length data = n + length (drop n data)" using 3(3) by simp
  then show ?case
    using 3(4) f flowSent_ok [of "ss_flow s" n] flowSent_sent [of "ss_flow s" n] sentUpTo_trans by metis
qed simp

section \<open>Every byte is accounted for\<close>

definition carriesOutput :: "shell_event \<Rightarrow> bool" where
  "carriesOutput ev = (case ev of SvOut _ _ \<Rightarrow> True | SvOutFailed _ \<Rightarrow> True
     | SvCtl _ (CtlGap _) \<Rightarrow> True | SvCtlFailed (CtlGap _) \<Rightarrow> True | _ \<Rightarrow> False)"

text \<open>
  \<open>covers a sid evs bs\<close>: the events carry the bytes \<open>bs\<close> in order, each byte in a frame of
  at most \<open>MaxFrameBytes\<close> on the session's own subject, in a publish that failed and was logged, or
  lost where a gap was announced.
\<close>

inductive covers :: "string \<Rightarrow> string \<Rightarrow> shell_event list \<Rightarrow> bytes \<Rightarrow> bool" for a sid where
  nothing: "covers a sid [] []"
| frame: "covers a sid evs bs \<Longrightarrow> 0 < length d \<Longrightarrow> length d \<le> MaxFrameBytes \<Longrightarrow>
    covers a sid (evs @ [SvOut (ShellOut a sid) d]) (bs @ d)"
| failed: "covers a sid evs bs \<Longrightarrow> covers a sid (evs @ [SvOutFailed d]) (bs @ d)"
| gap: "covers a sid evs bs \<Longrightarrow> covers a sid (evs @ [SvCtl subj (CtlGap sid)]) (bs @ missing)"
| gap_failed: "covers a sid evs bs \<Longrightarrow> covers a sid (evs @ [SvCtlFailed (CtlGap sid)]) (bs @ missing)"
| other: "covers a sid evs bs \<Longrightarrow> \<not> carriesOutput ev \<Longrightarrow> covers a sid (evs @ [ev]) bs"

lemma covers_others:
  assumes "covers a sid evs bs" and "list_all (\<lambda>ev. \<not> carriesOutput ev) rest"
  shows "covers a sid (evs @ rest) bs"
  using assms(2)
proof (induction rest rule: rev_induct)
  case (snoc ev rest)
  then show ?case using covers.other [of a sid "evs @ rest" bs ev] by simp
qed (simp add: assms(1))

lemma ringWrite_keeps:
  "\<exists>d. rn_buf r @ p = d @ rn_buf (ringWrite p r) \<and> (d \<noteq> [] \<longrightarrow> rn_dropped (ringWrite p r)) \<and>
     (rn_dropped r \<longrightarrow> rn_dropped (ringWrite p r))"
proof -
  consider "p = []" | "p \<noteq> []" "rn_max r \<le> length p" | "p \<noteq> []" "length p < rn_max r" by linarith
  then show ?thesis
  proof cases
    case 2
    then show ?thesis
      by (intro exI [of _ "rn_buf r @ take (length p - rn_max r) p"]) (simp add: ringWrite_def)
  next
    case 3
    define b where "b = rn_buf r @ p"
    have "rn_buf (ringWrite p r) = drop (length b - rn_max r) b"
      and "rn_dropped (ringWrite p r) \<longleftrightarrow> rn_dropped r \<or> rn_max r < length b"
      using 3 by (auto simp: ringWrite_def Let_def b_def simp del: drop_append)
    then show ?thesis
      by (intro exI [of _ "take (length b - rn_max r) b"]) (simp add: b_def [symmetric])
  qed (simp add: ringWrite_def)
qed

lemma ringWrite_bounded:
  "length (rn_buf r) \<le> rn_max r \<Longrightarrow> length (rn_buf (ringWrite p r)) \<le> rn_max r \<and>
     rn_max (ringWrite p r) = rn_max r \<and> length (rn_buf (ringWrite p r)) \<le> length (rn_buf r) + length p"
  by (auto simp: ringWrite_def Let_def)

definition bufHeld :: "session \<Rightarrow> bool" where
  "bufHeld s \<longleftrightarrow> rn_max (ss_buf s) = RingBytes \<and> length (rn_buf (ss_buf s)) \<le> RingBytes \<and>
     (isZero (ss_disconnectedAt s) \<longrightarrow> rn_buf (ss_buf s) = [] \<and> \<not> rn_dropped (ss_buf s))"

definition delivered :: "bytes \<Rightarrow> session \<Rightarrow> bool" where
  "delivered rd s \<longleftrightarrow> (\<exists>bs missing. covers (ss_agentID s) (ss_id s) (ss_out s) bs \<and>
     rd = bs @ missing @ rn_buf (ss_buf s) \<and> (missing \<noteq> [] \<longrightarrow> rn_dropped (ss_buf s)))"

lemma publishFrames_covers:
  "covers (ss_agentID s) (ss_id s) (ss_out s) bs \<longrightarrow>
   covers (ss_agentID s) (ss_id s) (ss_out (publishFrames data s)) (bs @ data)"
proof (induction arbitrary: bs rule: publishFrames_ind)
  case (2 data s s1)
  then show ?case using tryPublish_fst_snd [OF 2(2)] by (simp add: covers.failed)
next
  case (3 data s s1 n r)
  have ok: "0 < length (take n data)" "length (take n data) \<le> MaxFrameBytes"
    using 3(1,3) by (auto simp: MaxFrameBytes_def)
  have f: "sameSession s (publishFrame n (take n data) s1)"
    "ss_out (publishFrame n (take n data) s1) = ss_out s @ [SvOut (ShellOut (ss_agentID s) (ss_id s)) (take n data)]"
    using tryPublish_fst_snd [OF 3(2)] publishFrame_frame [of s1 n "take n data"] by (simp_all add: sameSession_def)
  show ?case
    using 3(4) [of "bs @ take n data"] covers.frame [OF _ ok] f by (simp add: sameSession_def)
qed simp

lemma flushLocked_up: "isZero (ss_disconnectedAt s) \<Longrightarrow> flushLocked s = s"
  by (simp add: flushLocked_def isZero_def)

lemma flushLocked_down:
  assumes "\<not> isZero (ss_disconnectedAt s)"
  obtains s3 where "flushLocked s = publishFrames (rn_buf (ss_buf s)) s3" "sameSession s s3"
    "ss_flow s3 = ss_flow s" "ss_buf s3 = (ss_buf s)\<lparr>rn_buf := [], rn_dropped := False\<rparr>"
    "ss_disconnectedAt s3 = zero_time"
    "if rn_dropped (ss_buf s) then \<exists>k subj. ss_out s3 = ss_out s @ [k] \<and>
        (k = SvCtl subj (CtlGap (ss_id s)) \<or> k = SvCtlFailed (CtlGap (ss_id s)))
     else ss_out s3 = ss_out s"
proof -
  define s2 where "s2 = s\<lparr>ss_disconnectedAt := zero_time, ss_buf := (ss_buf s)\<lparr>rn_buf := [], rn_dropped := False\<rparr>\<rparr>"
  define s3 where "s3 = (if rn_dropped (ss_buf s) then publishCtl (CtlGap (ss_id s)) s2 else s2)"
  have "flushLocked s = publishFrames (rn_buf (ss_buf s)) s3"
    using assms by (simp add: flushLocked_def ringDrain_def s2_def s3_def Let_def)
  moreover have "sameSession s s3" "ss_flow s3 = ss_flow s" "ss_disconnectedAt s3 = zero_time"
    "ss_buf s3 = (ss_buf s)\<lparr>rn_buf := [], rn_dropped := False\<rparr>"
    using publishCtl_frame [of s2 "CtlGap (ss_id s)"] by (auto simp: s3_def s2_def sameSession_def)
  moreover have "if rn_dropped (ss_buf s) then \<exists>k subj. ss_out s3 = ss_out s @ [k] \<and>
        (k = SvCtl subj (CtlGap (ss_id s)) \<or> k = SvCtlFailed (CtlGap (ss_id s)))
     else ss_out s3 = ss_out s"
    using publishCtl_frame [of s2 "CtlGap (ss_id s)"] by (auto simp: s3_def s2_def)
  ultimately show ?thesis using that by blast
qed

lemma flushLocked_frame: "sameSession s (flushLocked s)"
proof (cases "isZero (ss_disconnectedAt s)")
  case False
  then show ?thesis by (rule flushLocked_down) (metis publishFrames_frame sameSession_trans)
qed (simp add: flushLocked_up)

lemma flushLocked_empties:
  "bufHeld s \<Longrightarrow> bufHeld (flushLocked s) \<and> isZero (ss_disconnectedAt (flushLocked s)) \<and>
     rn_buf (ss_buf (flushLocked s)) = [] \<and> \<not> rn_dropped (ss_buf (flushLocked s))"
proof (cases "isZero (ss_disconnectedAt s)")
  case False
  assume "bufHeld s"
  moreover from False obtain s3 where "flushLocked s = publishFrames (rn_buf (ss_buf s)) s3"
    "ss_buf s3 = (ss_buf s)\<lparr>rn_buf := [], rn_dropped := False\<rparr>" "ss_disconnectedAt s3 = zero_time"
    by (rule flushLocked_down) blast
  ultimately show ?thesis
    using publishFrames_frame [of s3 "rn_buf (ss_buf s)"] by (simp add: bufHeld_def isZero_def)
qed (simp add: flushLocked_up bufHeld_def)

lemma flushLocked_flow:
  "flowOK (ss_flow s) \<Longrightarrow> sentUpTo (length (rn_buf (ss_buf s))) (ss_flow s) (ss_flow (flushLocked s)) \<and>
   flowOK (ss_flow (flushLocked s))"
proof (cases "isZero (ss_disconnectedAt s)")
  case False
  assume "flowOK (ss_flow s)"
  with False show ?thesis by (metis flushLocked_down publishFrames_flow)
qed (simp add: flushLocked_up)

lemma flushLocked_delivered:
  assumes "bufHeld s" and "delivered rd s"
  shows "delivered rd (flushLocked s)"
proof (cases "isZero (ss_disconnectedAt s)")
  case False
  from assms(2) obtain bs missing where c: "covers (ss_agentID s) (ss_id s) (ss_out s) bs"
    and rd: "rd = bs @ missing @ rn_buf (ss_buf s)" and m: "missing \<noteq> [] \<Longrightarrow> rn_dropped (ss_buf s)"
    unfolding delivered_def by blast
  from False obtain s3 where s3: "flushLocked s = publishFrames (rn_buf (ss_buf s)) s3" "sameSession s s3"
    "if rn_dropped (ss_buf s) then \<exists>k subj. ss_out s3 = ss_out s @ [k] \<and>
        (k = SvCtl subj (CtlGap (ss_id s)) \<or> k = SvCtlFailed (CtlGap (ss_id s)))
     else ss_out s3 = ss_out s" by (rule flushLocked_down) blast
  have "covers (ss_agentID s) (ss_id s) (ss_out s3) (bs @ missing)"
    using s3(3) c m covers.gap [OF c, of _ missing] covers.gap_failed [OF c, of missing]
    by (cases "rn_dropped (ss_buf s)"; cases "missing = []") auto
  then have "covers (ss_agentID s3) (ss_id s3) (ss_out (flushLocked s)) rd"
    using publishFrames_covers [of s3 "bs @ missing" "rn_buf (ss_buf s)"] s3(1,2) rd
    by (simp add: sameSession_def)
  then show ?thesis
    using flushLocked_empties [OF assms(1)] flushLocked_frame [of s] s3(2)
    by (auto simp: delivered_def sameSession_def)
qed (use assms in \<open>simp add: flushLocked_up\<close>)

lemma markDisconnected_frame:
  "sameSession s (markDisconnected clk s) \<and> ss_flow (markDisconnected clk s) = ss_flow s \<and>
   ss_buf (markDisconnected clk s) = ss_buf s \<and> ss_out (markDisconnected clk s) = ss_out s \<and>
   (\<not> isZero clk \<longrightarrow> \<not> isZero (ss_disconnectedAt (markDisconnected clk s)))"
  by (auto simp: markDisconnected_def sameSession_def)

lemma markDisconnected_held:
  "bufHeld s \<Longrightarrow> delivered rd s \<Longrightarrow> \<not> isZero clk \<Longrightarrow>
   bufHeld (markDisconnected clk s) \<and> delivered rd (markDisconnected clk s)"
  using markDisconnected_frame [of s clk] by (auto simp: bufHeld_def delivered_def sameSession_def)

lemma publishFrames_delivered:
  assumes "delivered rd s" and "rn_buf (ss_buf s) = []" and "\<not> rn_dropped (ss_buf s)"
  shows "delivered (rd @ data) (publishFrames data s)"
  using assms publishFrames_covers [of s] publishFrames_frame [of s data]
  by (auto simp: delivered_def sameSession_def)

lemma emitOut_frame: "sameSession s (emitOut clk data s)"
  using publishFrames_frame [of "flushLocked s" data] flushLocked_frame [of s] markDisconnected_frame [of s clk]
  by (auto simp: emitOut_def Let_def sameSession_def)

lemma emitOut_delivered:
  assumes "bufHeld s" and "delivered rd s" and "\<not> isZero clk"
  shows "bufHeld (emitOut clk data s) \<and> delivered (rd @ data) (emitOut clk data s)"
proof (cases "ss_connected s")
  case True
  have "delivered (rd @ data) (publishFrames data (flushLocked s))"
    using publishFrames_delivered [OF flushLocked_delivered [OF assms(1,2)]] flushLocked_empties [OF assms(1)] by simp
  moreover have "bufHeld (publishFrames data (flushLocked s))"
    using flushLocked_empties [OF assms(1)] publishFrames_frame [of "flushLocked s" data] by (simp add: bufHeld_def)
  ultimately show ?thesis using True by (simp add: emitOut_def)
next
  case False
  define s1 where "s1 = markDisconnected clk s"
  have e: "emitOut clk data s = s1\<lparr>ss_buf := ringWrite data (ss_buf s1)\<rparr>"
    using False by (simp add: emitOut_def s1_def Let_def)
  have s1: "bufHeld s1" "delivered rd s1" "\<not> isZero (ss_disconnectedAt s1)"
    using markDisconnected_held [OF assms] markDisconnected_frame [of s clk] assms(3) by (simp_all add: s1_def)
  obtain d where d: "rn_buf (ss_buf s1) @ data = d @ rn_buf (ringWrite data (ss_buf s1))"
    "d \<noteq> [] \<longrightarrow> rn_dropped (ringWrite data (ss_buf s1))"
    "rn_dropped (ss_buf s1) \<longrightarrow> rn_dropped (ringWrite data (ss_buf s1))"
    using ringWrite_keeps by blast
  from s1(2) obtain bs missing where "covers (ss_agentID s1) (ss_id s1) (ss_out s1) bs"
    "rd = bs @ missing @ rn_buf (ss_buf s1)" "missing \<noteq> [] \<longrightarrow> rn_dropped (ss_buf s1)"
    unfolding delivered_def by blast
  then have "delivered (rd @ data) (emitOut clk data s)"
    unfolding delivered_def e using d by (intro exI [of _ bs] exI [of _ "missing @ d"]) auto
  moreover have "bufHeld (emitOut clk data s)"
    using s1 ringWrite_bounded [of "ss_buf s1" data] by (simp add: bufHeld_def e)
  ultimately show ?thesis by simp
qed

section \<open>The bytes in flight\<close>

text \<open>A pump that may read although the session is paused: it took no gate, or one closed since.\<close>

definition cleared :: "pump \<Rightarrow> flowController \<Rightarrow> bool" where
  "cleared p f \<longleftrightarrow> p = Reading \<or> (\<exists>g. p = Blocked g \<and> fc_gate f \<noteq> Some g)"

definition pending :: "session \<Rightarrow> int" where
  "pending s = fc_unacked (ss_flow s) + int (length (rn_buf (ss_buf s)))"

definition calm :: "pump \<Rightarrow> session \<Rightarrow> bool" where
  "calm p s \<longleftrightarrow> flowOK (ss_flow s) \<and> pending s \<le> PauseAbove + int RingBytes + int MaxFrameBytes \<and>
     (cleared p (ss_flow s) \<longrightarrow> pending s \<le> PauseAbove + int RingBytes) \<and>
     (\<forall>g. p = Blocked g \<longrightarrow> g < fc_gates (ss_flow s))"

lemma emitOut_pending:
  assumes "bufHeld s" and "flowOK (ss_flow s)"
  shows "flowOK (ss_flow (emitOut clk data s)) \<and> pending (emitOut clk data s) \<le> pending s + int (length data)"
proof (cases "ss_connected s")
  case True
  then show ?thesis
    using flushLocked_flow [OF assms(2)] publishFrames_flow [of "flushLocked s" data]
      flushLocked_empties [OF assms(1)] publishFrames_frame [of "flushLocked s" data]
    by (simp add: emitOut_def pending_def sentUpTo_def)
next
  case False
  then show ?thesis
    using assms ringWrite_bounded [of "ss_buf s" data] markDisconnected_frame [of s clk]
    by (simp add: emitOut_def pending_def bufHeld_def Let_def)
qed

lemma emitOut_calm:
  assumes "bufHeld s" and "calm Reading s" and "length data \<le> MaxFrameBytes" and "p = AtTop \<or> p = Stopped"
  shows "calm p (emitOut clk data s)"
  using emitOut_pending [OF assms(1), of clk data] assms(2-4) by (auto simp: calm_def cleared_def)

lemma flushLocked_calm:
  assumes "bufHeld s" and "calm p s"
  shows "calm p (flushLocked s)"
proof -
  from assms(2) have ok: "flowOK (ss_flow s)" by (simp add: calm_def)
  have "pending (flushLocked s) \<le> pending s"
    using flushLocked_flow [OF ok] flushLocked_empties [OF assms(1)] by (simp add: pending_def sentUpTo_def)
  moreover have "cleared p (ss_flow (flushLocked s)) \<Longrightarrow> cleared p (ss_flow s)"
    using flushLocked_flow [OF ok] assms(2) by (auto simp: cleared_def calm_def sentUpTo_def)
  ultimately show ?thesis
    using flushLocked_flow [OF ok] assms(2) by (auto simp: calm_def sentUpTo_def dest: order_less_le_trans)
qed

lemma unpaused_pending:
  "bufHeld s \<Longrightarrow> flowOK (ss_flow s) \<Longrightarrow> \<not> fc_paused (ss_flow s) \<Longrightarrow> pending s \<le> PauseAbove + int RingBytes"
  by (simp add: bufHeld_def flowOK_def pending_def)

lemma ack_calm:
  assumes "bufHeld s" and "calm p s"
  shows "calm p (s\<lparr>ss_flow := snd (flowAck n (ss_flow s))\<rparr>)"
proof -
  let ?t = "s\<lparr>ss_flow := snd (flowAck n (ss_flow s))\<rparr>"
  from assms(2) have ok: "flowOK (ss_flow s)" by (simp add: calm_def)
  have t: "bufHeld ?t" "flowOK (ss_flow ?t)" "pending ?t \<le> pending s"
    using assms(1) flowAck_ok [OF ok] flowAck_less [OF ok] by (simp_all add: bufHeld_def pending_def)
  have "cleared p (ss_flow ?t) \<Longrightarrow> pending ?t \<le> PauseAbove + int RingBytes"
    using unpaused_pending [OF t(1,2)] flowAck_less [OF ok, of n] assms(2) t(3)
    by (auto simp: calm_def cleared_def)
  then show ?thesis using t flowAck_less [OF ok, of n] assms(2) by (auto simp: calm_def)
qed

lemma calm_same:
  "ss_flow s' = ss_flow s \<Longrightarrow> ss_buf s' = ss_buf s \<Longrightarrow> calm p s' = calm p s"
  by (simp add: calm_def pending_def)

lemma calm_pump:
  "bufHeld s \<Longrightarrow> calm AtTop s \<Longrightarrow>
   calm (case waitGate (ss_flow s) of None \<Rightarrow> Reading | Some g \<Rightarrow> Blocked g) s"
  using unpaused_pending [of s]
  by (auto simp: calm_def cleared_def waitGate_def flowOK_def split: option.splits)

section \<open>A session is torn down once\<close>

definition finalEv :: "shell_event \<Rightarrow> bool" where
  "finalEv ev = (case ev of SvCtl _ (CtlClosed _ _ _) \<Rightarrow> True | SvCtlFailed (CtlClosed _ _ _) \<Rightarrow> True
     | SvPtyClose \<Rightarrow> True | SvAudit name _ \<Rightarrow> name = ''shell.closed'' | _ \<Rightarrow> False)"

lemma finalEv_simps [simp]:
  "\<not> finalEv (SvOut u d)" "\<not> finalEv (SvOutFailed d)" "\<not> finalEv (SvCtl u (CtlGap i))"
  "\<not> finalEv (SvCtlFailed (CtlGap i))" "\<not> finalEv (SvPtyWrite d)" "\<not> finalEv (SvPtyResize c r)"
  "\<not> finalEv (SvSubscribe u)" "\<not> finalEv (SvUnsubscribe u)" "\<not> finalEv (SvPtyStart n c r)"
  "finalEv SvPtyClose" "finalEv (SvCtl u (CtlClosed i why c))" "finalEv (SvCtlFailed (CtlClosed i why c))"
  "finalEv (SvAudit n a) \<longleftrightarrow> n = ''shell.closed''"
  by (simp_all add: finalEv_def)

text \<open>An operation that leaves the life of the session alone.\<close>

definition quietly :: "session \<Rightarrow> session \<Rightarrow> bool" where
  "quietly s s' \<longleftrightarrow> filter finalEv (ss_out s') = filter finalEv (ss_out s) \<and> ss_closing s' = ss_closing s \<and>
     ss_subs s' = ss_subs s \<and> ss_id s' = ss_id s \<and> ss_agentID s' = ss_agentID s \<and>
     (ss_cancelled s \<longrightarrow> ss_cancelled s')"

lemma quietly_refl [simp]: "quietly s s"
  by (simp add: quietly_def)

lemma quietly_trans: "quietly a b \<Longrightarrow> quietly b c \<Longrightarrow> quietly a c"
  by (simp add: quietly_def)

lemma quietly_same:
  "sameSession s s' \<Longrightarrow> filter finalEv (ss_out s') = filter finalEv (ss_out s) \<Longrightarrow> quietly s s'"
  by (simp add: quietly_def sameSession_def)

lemma publishFrames_final: "filter finalEv (ss_out (publishFrames data s)) = filter finalEv (ss_out s)"
proof (induction rule: publishFrames_ind)
  case (2 data s s1)
  then show ?case using tryPublish_fst_snd [OF 2(2)] by simp
next
  case (3 data s s1 n r)
  then show ?case using tryPublish_fst_snd [OF 3(2)] publishFrame_frame [of s1 n "take n data"] by simp
qed simp

lemma flushLocked_final: "filter finalEv (ss_out (flushLocked s)) = filter finalEv (ss_out s)"
proof (cases "isZero (ss_disconnectedAt s)")
  case False
  then obtain s3 where "flushLocked s = publishFrames (rn_buf (ss_buf s)) s3"
    "if rn_dropped (ss_buf s) then \<exists>k subj. ss_out s3 = ss_out s @ [k] \<and>
        (k = SvCtl subj (CtlGap (ss_id s)) \<or> k = SvCtlFailed (CtlGap (ss_id s)))
     else ss_out s3 = ss_out s" by (rule flushLocked_down) blast
  then show ?thesis using publishFrames_final [of "rn_buf (ss_buf s)" s3] by (auto split: if_splits)
qed (simp add: flushLocked_up)

lemma emitOut_quiet: "quietly s (emitOut clk data s)"
  using emitOut_frame [of s clk data] markDisconnected_frame [of s clk]
  by (intro quietly_same) (auto simp: emitOut_def Let_def publishFrames_final flushLocked_final)

lemma flushLocked_quiet: "quietly s (flushLocked s)"
  by (simp add: quietly_same flushLocked_frame flushLocked_final)

lemma markDisconnected_quiet: "quietly s (markDisconnected clk s)"
  using markDisconnected_frame [of s clk] by (simp add: quietly_same)

text \<open>An operation that publishes nothing and leaves the buffer and the link alone.\<close>

definition aside :: "session \<Rightarrow> session \<Rightarrow> bool" where
  "aside s s' \<longleftrightarrow> ss_buf s' = ss_buf s \<and> ss_disconnectedAt s' = ss_disconnectedAt s \<and>
     ss_id s' = ss_id s \<and> ss_agentID s' = ss_agentID s \<and>
     (\<exists>evs. ss_out s' = ss_out s @ evs \<and> list_all (\<lambda>ev. \<not> carriesOutput ev) evs)"

lemma aside_held: "aside s s' \<Longrightarrow> bufHeld s \<Longrightarrow> bufHeld s'"
  by (simp add: aside_def bufHeld_def)

lemma aside_delivered: "aside s s' \<Longrightarrow> delivered rd s \<Longrightarrow> delivered rd s'"
  unfolding aside_def delivered_def by (metis covers_others)

lemma handlers_aside:
  "aside s (onInput clk data s)" "aside s (onResize sj data s)" "aside s (onCtl sj clk data s)"
  "aside s (s\<lparr>ss_connected := up, ss_faults := faults\<rparr>)"
  by (auto simp: aside_def onInput_def onResize_def onCtl_def Let_def carriesOutput_def
      split: option.splits prod.splits)

lemma handlers_quiet:
  "quietly s (onInput clk data s)" "quietly s (onResize sj data s)" "quietly s (onCtl sj clk data s)"
  "quietly s (s\<lparr>ss_connected := up, ss_faults := faults\<rparr>)"
  by (auto simp: quietly_def onInput_def onResize_def onCtl_def Let_def
      split: option.splits prod.splits)

lemma fold_sput: "fold (\<lambda>x. sput (f x)) xs s = s\<lparr>ss_out := ss_out s @ map f xs\<rparr>"
  by (induction xs arbitrary: s) (simp_all add: sput_def)

lemma closeSession_live:
  assumes "\<not> ss_closing s"
  obtains t k a where "closeSession clk reason code s = (True, t)"
    "ss_out t = ss_out s @ [k] @ map SvUnsubscribe (ss_subs s) @ [SvPtyClose, SvAudit ''shell.closed'' a]"
    "k = SvCtl (ShellCtl (ss_agentID s) (ss_id s)) (CtlClosed (ss_id s) reason code) \<or>
     k = SvCtlFailed (CtlClosed (ss_id s) reason code)"
    "ss_closing t" "ss_cancelled t" "ss_subs t = []" "ss_buf t = ss_buf s" "ss_id t = ss_id s"
    "ss_agentID t = ss_agentID s" "ss_disconnectedAt t = ss_disconnectedAt s"
proof -
  define s1 where "s1 = publishCtl (CtlClosed (ss_id s) reason code) (s\<lparr>ss_closing := True\<rparr>)"
  obtain k where k: "ss_out s1 = ss_out s @ [k]"
    "k = SvCtl (ShellCtl (ss_agentID s) (ss_id s)) (CtlClosed (ss_id s) reason code) \<or>
     k = SvCtlFailed (CtlClosed (ss_id s) reason code)" and
    s1: "ss_closing s1" "ss_subs s1 = ss_subs s" "ss_buf s1 = ss_buf s" "ss_id s1 = ss_id s"
    "ss_agentID s1 = ss_agentID s" "ss_disconnectedAt s1 = ss_disconnectedAt s"
    using publishCtl_frame [of "s\<lparr>ss_closing := True\<rparr>" "CtlClosed (ss_id s) reason code"]
    by (auto simp: s1_def sameSession_def)
  show ?thesis
    using that [OF _ _ k(2)] assms s1 k(1)
    by (simp add: closeSession_def s1_def [symmetric] Let_def unsubscribe_def fold_sput)
qed

lemma closeSession_again: "ss_closing s \<Longrightarrow> closeSession clk reason code s = (False, s)"
  by (simp add: closeSession_def)

lemma closeSession_aside: "aside s (snd (closeSession clk reason code s))"
proof (cases "ss_closing s")
  case False
  then show ?thesis
    by (rule closeSession_live [where clk = clk and reason = reason and code = code])
      (auto simp: aside_def carriesOutput_def list_all_iff)
qed (simp add: closeSession_again aside_def)

definition torn :: "session \<Rightarrow> bool" where
  "torn s \<longleftrightarrow>
     (if ss_closing s
      then ss_subs s = [] \<and> ss_cancelled s \<and>
        (\<exists>k a r c. filter finalEv (ss_out s) = [k, SvPtyClose, SvAudit ''shell.closed'' a] \<and>
          (k = SvCtl (ShellCtl (ss_agentID s) (ss_id s)) (CtlClosed (ss_id s) r c) \<or>
           k = SvCtlFailed (CtlClosed (ss_id s) r c)))
      else filter finalEv (ss_out s) = [] \<and>
        ss_subs s = [ShellIn (ss_agentID s) (ss_id s), ShellResize (ss_agentID s) (ss_id s),
          ShellCtl (ss_agentID s) (ss_id s)])"

lemma quietly_torn: "quietly s s' \<Longrightarrow> torn s \<Longrightarrow> torn s'"
  by (auto simp: quietly_def torn_def)

lemma closeSession_torn: "torn s \<Longrightarrow> torn (snd (closeSession clk reason code s)) \<and> ss_closing (snd (closeSession clk reason code s))"
proof (cases "ss_closing s")
  case False
  assume "torn s"
  with False have none: "filter finalEv (ss_out s) = []" by (simp add: torn_def)
  from False obtain t k a where t: "closeSession clk reason code s = (True, t)"
    "ss_out t = ss_out s @ [k] @ map SvUnsubscribe (ss_subs s) @ [SvPtyClose, SvAudit ''shell.closed'' a]"
    "ss_closing t" "ss_cancelled t" "ss_subs t = []" "ss_id t = ss_id s" "ss_agentID t = ss_agentID s"
    and k: "k = SvCtl (ShellCtl (ss_agentID s) (ss_id s)) (CtlClosed (ss_id s) reason code) \<or>
      k = SvCtlFailed (CtlClosed (ss_id s) reason code)"
    by (rule closeSession_live [where clk = clk and reason = reason and code = code]) blast
  have "finalEv k" using k by auto
  then have "filter finalEv (ss_out t) = [k, SvPtyClose, SvAudit ''shell.closed'' a]"
    using none t(2) by (simp add: filter_map comp_def)
  then show ?thesis using t k by (auto simp: torn_def)
qed (simp add: closeSession_again)

section \<open>What holds of a running session\<close>

definition sound :: "shell_sys \<Rightarrow> bool" where
  "sound y \<longleftrightarrow> bufHeld (sy_session y) \<and> delivered (sy_read y) (sy_session y) \<and> torn (sy_session y) \<and>
     (\<not> ss_closing (sy_session y) \<longrightarrow> calm (sy_pump y) (sy_session y))"

lemma checkTimeouts_snd:
  "snd (checkTimeouts clk now s) = (if ss_connected s then flushLocked s else markDisconnected clk s)"
  by (simp add: checkTimeouts_def Let_def split: prod.splits)

lemma monitorTick_cases:
  obtains "monitorTick now s = (False, snd (checkTimeouts now now s))" "fst (checkTimeouts now now s) = None"
  | reason where "monitorTick now s = closeSession now reason (- 1) (snd (checkTimeouts now now s))"
      "fst (checkTimeouts now now s) = Some reason"
  by (cases "checkTimeouts now now s"; cases "fst (checkTimeouts now now s)") (auto simp: monitorTick_def)

lemma tick_state:
  assumes "bufHeld s" and "delivered rd s" and "torn s" and "\<not> isZero now"
  shows "bufHeld (snd (checkTimeouts now now s))" "delivered rd (snd (checkTimeouts now now s))"
    "quietly s (snd (checkTimeouts now now s))"
    "calm p s \<Longrightarrow> calm p (snd (checkTimeouts now now s))"
proof -
  let ?t = "snd (checkTimeouts now now s)"
  have "bufHeld ?t \<and> delivered rd ?t \<and> quietly s ?t \<and> (calm p s \<longrightarrow> calm p ?t)"
  proof (cases "ss_connected s")
    case True
    then show ?thesis
      using flushLocked_empties [OF assms(1)] flushLocked_delivered [OF assms(1,2)] flushLocked_quiet
        flushLocked_calm [OF assms(1)] by (simp add: checkTimeouts_snd)
  next
    case False
    have "calm p (markDisconnected now s) = calm p s"
      using markDisconnected_frame by (intro calm_same) simp_all
    with False show ?thesis
      using markDisconnected_held [OF assms(1,2,4)] markDisconnected_quiet by (simp add: checkTimeouts_snd)
  qed
  then show "bufHeld ?t" "delivered rd ?t" "quietly s ?t" "calm p s \<Longrightarrow> calm p ?t" by simp_all
qed

lemma close_sound:
  assumes "bufHeld s" and "delivered rd s" and "torn s"
  shows "sound \<lparr>sy_session = snd (closeSession clk reason code s), sy_pump = p, sy_read = rd\<rparr>"
  using assms closeSession_aside [of s clk reason code] closeSession_torn [OF assms(3), of clk reason code]
  by (simp add: sound_def aside_held aside_delivered)

lemma tick_sound:
  assumes "sound y" and "\<not> isZero now"
  shows "sound (inSession (snd \<circ> monitorTick now) y)"
proof -
  let ?s = "sy_session y" and ?t = "snd (checkTimeouts now now (sy_session y))"
  from assms(1) have s: "bufHeld ?s" "delivered (sy_read y) ?s" "torn ?s" by (simp_all add: sound_def)
  note t = tick_state [OF s assms(2)]
  have torn: "torn ?t" using quietly_torn [OF t(3) s(3)] .
  show ?thesis
  proof (rule monitorTick_cases [of now ?s])
    assume "monitorTick now ?s = (False, ?t)"
    then show ?thesis using t torn assms(1) by (auto simp: sound_def inSession_def quietly_def)
  next
    fix reason
    assume "monitorTick now ?s = closeSession now reason (- 1) ?t"
    then show ?thesis using close_sound [OF t(1,2) torn, of now reason "- 1" "sy_pump y"]
      by (simp add: inSession_def sound_def)
  qed
qed

lemma handler_sound:
  assumes "sound y" and "aside (sy_session y) (f (sy_session y))" and "quietly (sy_session y) (f (sy_session y))"
    and "calm (sy_pump y) (sy_session y) \<Longrightarrow> calm (sy_pump y) (f (sy_session y))"
  shows "sound (inSession f y)"
proof -
  from assms(1) have s: "bufHeld (sy_session y)" "delivered (sy_read y) (sy_session y)" "torn (sy_session y)"
    by (simp_all add: sound_def)
  show ?thesis
    using aside_held [OF assms(2) s(1)] aside_delivered [OF assms(2) s(2)] quietly_torn [OF assms(3) s(3)]
      assms(1,3,4) by (simp add: sound_def inSession_def quietly_def)
qed

lemma handlers_calm:
  "bufHeld s \<Longrightarrow> calm p s \<Longrightarrow> calm p (onCtl sj clk data s)"
  "calm p (onInput clk data s) = calm p s" "calm p (onResize sj data s) = calm p s"
  "calm p (s\<lparr>ss_connected := up, ss_faults := faults\<rparr>) = calm p s"
proof -
  assume s: "bufHeld s" "calm p s"
  show "calm p (onCtl sj clk data s)"
    using s ack_calm [OF s] calm_same [of "s\<lparr>ss_lastPing := clk, ss_sawPing := True\<rparr>" s]
      calm_same [of "s\<lparr>ss_flow := f, ss_lastPing := clk, ss_sawPing := True\<rparr>" "s\<lparr>ss_flow := f\<rparr>" for f]
    by (auto simp: onCtl_def Let_def split: option.splits)
qed (auto intro!: calm_same simp: onInput_def onResize_def split: option.splits)

lemma pumpRead_sound:
  assumes "sound y" and "sy_pump y = Reading" and "length data \<le> MaxFrameBytes" and "\<not> isZero clk"
  shows "sound (pumpRead clk data failed y)"
proof (cases "data = []")
  case True
  then show ?thesis using assms(1,2) by (auto simp: sound_def pumpRead_def calm_def cleared_def)
next
  case False
  let ?s = "sy_session y"
  have s: "bufHeld ?s" "delivered (sy_read y) ?s" "torn ?s" using assms(1) by (simp_all add: sound_def)
  have "\<not> ss_closing ?s \<Longrightarrow> calm (if failed then Stopped else AtTop) (emitOut clk data ?s)"
    using assms(1,2) emitOut_calm [OF s(1) _ assms(3)] by (simp add: sound_def)
  then show ?thesis
    using False emitOut_delivered [OF s(1,2) assms(4), of data] quietly_torn [OF emitOut_quiet s(3)]
      emitOut_frame [of ?s clk data]
    by (simp add: sound_def pumpRead_def sameSession_def)
qed

lemma step_sound: "shell_step sj y y' \<Longrightarrow> sound y \<Longrightarrow> sound y'"
proof (induction rule: shell_step.induct)
  case (pump_wait y)
  then show ?case using calm_pump [of "sy_session y"] by (simp add: sound_def pumpWait_def)
next
  case (pump_wake y g)
  then show ?case by (auto simp: sound_def calm_def cleared_def gateClosed_def)
next
  case (pump_cancel y g)
  then show ?case by (auto simp: sound_def calm_def cleared_def)
next
  case (pump_read y data clk failed)
  then show ?case by (simp add: pumpRead_sound)
next
  case (ctl y clk data)
  then show ?case
    by (intro handler_sound handlers_aside handlers_quiet handlers_calm) (simp_all add: sound_def)
next
  case (tick now y)
  then show ?case by (simp add: tick_sound)
next
  case (close y clk reason code)
  then show ?case
    using close_sound [of "sy_session y" "sy_read y" clk reason code "sy_pump y"]
    by (simp add: sound_def inSession_def)
qed (intro handler_sound handlers_aside handlers_quiet, simp_all add: handlers_calm)+

lemma subscribeAll_ok:
  "subscribeAll subjs outcomes s = (None, t) \<Longrightarrow>
   t = s\<lparr>ss_subs := ss_subs s @ subjs, ss_out := ss_out s @ map SvSubscribe subjs\<rparr>"
  by (induction subjs outcomes s rule: subscribeAll.induct) (auto simp: sput_def split: list.splits option.splits)

lemma startSession_ok:
  assumes "startSession e cols rows (newSession agentID spec) = (None, s)"
  shows "s = (newSession agentID spec)\<lparr>ss_startedAt := se_now e, ss_lastInput := se_now e,
      ss_connected := se_connected e,
      ss_subs := [ShellIn agentID (os_SessionID spec), ShellResize agentID (os_SessionID spec),
        ShellCtl agentID (os_SessionID spec)],
      ss_out := [SvPtyStart (os_Shell spec) cols rows, SvSubscribe (ShellIn agentID (os_SessionID spec)),
        SvSubscribe (ShellResize agentID (os_SessionID spec)), SvSubscribe (ShellCtl agentID (os_SessionID spec)),
        SvAudit ''shell.opened'' [(''session_id'', DStr (os_SessionID spec)), (''shell'', DStr (os_Shell spec)),
          (''requested_by'', DStr (os_RequestedBy spec)), (''cols'', DInt cols), (''rows'', DInt rows)]]\<rparr>" (is "s = ?s")
    and "validId (os_SessionID spec)"
proof -
  show "validId (os_SessionID spec)"
    using assms by (simp add: startSession_def newSession_def split: if_splits)
  then show "s = ?s"
    using assms
    by (auto simp: startSession_def newSession_def sput_def Let_def simp del: subscribeAll.simps
        dest!: subscribeAll_ok split: option.splits prod.splits)
qed

lemma started_sound:
  assumes "startSession e cols rows (newSession agentID spec) = (None, s)"
  shows "sound \<lparr>sy_session = s, sy_pump = AtTop, sy_read = []\<rparr>"
proof -
  have "covers agentID (os_SessionID spec) (ss_out s) []"
    using covers_others [OF covers.nothing] startSession_ok(1) [OF assms] by (simp add: carriesOutput_def)
  then show ?thesis
    using startSession_ok(1) [OF assms]
    by (auto simp: sound_def bufHeld_def delivered_def torn_def calm_def cleared_def pending_def flowOK_def
        newSession_def newRing_def newFlowController_def newFlowControllerWith_def PauseAbove_def)
qed

lemma shell_reach_sound: "shell_reach sj y \<Longrightarrow> sound y"
  by (induction rule: shell_reach.induct) (auto intro: started_sound step_sound)

section \<open>The timeouts of a session\<close>

definition stale :: "gtime \<Rightarrow> session \<Rightarrow> bool" where
  "stale now s \<longleftrightarrow> subT now (ss_lastInput s) > ss_idleTimeout s \<or>
     (if ss_sawPing s then subT now (ss_lastPing s) > pingTimeout
      else subT now (ss_startedAt s) > firstPingGrace)"

lemma flushLocked_up_again: "isZero (ss_disconnectedAt (flushLocked s))"
proof (cases "isZero (ss_disconnectedAt s)")
  case False
  then obtain s3 where "flushLocked s = publishFrames (rn_buf (ss_buf s)) s3" "ss_disconnectedAt s3 = zero_time"
    by (rule flushLocked_down) blast
  then show ?thesis using publishFrames_frame [of s3 "rn_buf (ss_buf s)"] by (simp add: isZero_def)
qed (simp add: flushLocked_up)

lemma checkTimeouts_connected:
  assumes "ss_connected s"
  shows "fst (checkTimeouts clk now s) = None \<longleftrightarrow> \<not> stale now s"
  using assms flushLocked_up_again [of s] flushLocked_frame [of s]
  by (auto simp: checkTimeouts_def Let_def stale_def sameSession_def split: if_splits)

lemma stale_same: "sameSession s s' \<Longrightarrow> stale now s' = stale now s"
  by (simp add: stale_def sameSession_def)

lemma closeSession_closing: "ss_closing (snd (closeSession clk reason code s))"
  by (cases "ss_closing s") (auto simp: closeSession_again elim: closeSession_live [of s clk reason code])

lemma monitor_iff:
  "ss_connected s \<Longrightarrow> \<not> ss_cancelled s \<Longrightarrow> \<not> ss_closing s \<Longrightarrow>
   ss_closing (monitor ticks s) \<longleftrightarrow> (\<exists>now \<in> set ticks. stale now s)"
proof (induction ticks arbitrary: s)
  case (Cons now ticks)
  obtain v s1 where c: "checkTimeouts now now s = (v, s1)" by fastforce
  have s1: "sameSession s s1"
    using checkTimeouts_snd [of now now s] c Cons.prems(1) flushLocked_frame [of s] by simp
  show ?case
  proof (cases v)
    case None
    then have "\<not> stale now s" using checkTimeouts_connected [OF Cons.prems(1), of now now] c by simp
    then show ?thesis
      using Cons.IH [of s1] Cons.prems s1 stale_same [OF s1] c None by (simp add: sameSession_def)
  next
    case (Some reason)
    then have "stale now s" using checkTimeouts_connected [OF Cons.prems(1), of now now] c by simp
    then show ?thesis using Some c Cons.prems closeSession_closing by (simp add: monitorTick_def)
  qed
qed simp

section \<open>Operations of a live session\<close>

text \<open>
  What the module relies on in an operation of a session: it keeps the session's identity and
  account, and reports that it tore the session down exactly when it did.
\<close>

locale session_operation =
  fixes f :: "session \<Rightarrow> bool \<times> session"
  assumes keeps_life: "torn s \<Longrightarrow> \<not> ss_closing s \<Longrightarrow> torn (snd (f s)) \<and> (fst (f s) \<longleftrightarrow> ss_closing (snd (f s)))"
    and keeps_name: "ss_id (snd (f s)) = ss_id s \<and> ss_agentID (snd (f s)) = ss_agentID s"

definition modOK :: "string \<Rightarrow> shellModule \<Rightarrow> bool" where
  "modOK agentID m \<longleftrightarrow> sm_agentID m = agentID \<and> sm_maxSessions m = MaxSessions \<and>
     length (sm_sessions m) \<le> MaxSessions \<and> distinct (map fst (sm_sessions m)) \<and>
     (\<forall>(sid, s) \<in> set (sm_sessions m). ss_id s = sid \<and> ss_agentID s = agentID \<and> validId sid \<and>
        torn s \<and> \<not> ss_closing s)"

lemma forget_ok: "modOK agentID m \<Longrightarrow> modOK agentID ((forget sid m)\<lparr>sm_gone := gone\<rparr>)"
  unfolding modOK_def forget_def
  by (auto simp: distinct_map_filter intro: order_trans [OF length_filter_le])

context session_operation
begin

lemma onSession_ok:
  assumes "modOK agentID m"
  shows "modOK agentID (onSession sid f m)"
proof (cases "map_of (sm_sessions m) sid")
  case None
  with assms show ?thesis by (simp add: onSession_def)
next
  case (Some s)
  then have s: "(sid, s) \<in> set (sm_sessions m)" by (simp add: map_of_SomeD)
  obtain td s1 where f: "f s = (td, s1)" by fastforce
  show ?thesis
  proof (cases td)
    case True
    then show ?thesis using Some f forget_ok [OF assms] by (simp add: onSession_def)
  next
    case False
    have "map fst (map (\<lambda>e. if fst e = sid then (sid, s1) else e) (sm_sessions m)) = map fst (sm_sessions m)"
      by simp
    then show ?thesis
      using Some f False assms s keeps_life [of s] keeps_name [of s]
      by (fastforce simp: onSession_def modOK_def simp del: map_map)
  qed
qed

end

lemma quietly_op:
  "(\<And>s. quietly s (g s)) \<Longrightarrow> session_operation (Pair False \<circ> g)"
  by unfold_locales (metis comp_apply fst_conv snd_conv quietly_def quietly_torn,
      metis comp_apply snd_conv quietly_def)

interpretation emitOut_op: session_operation "Pair False \<circ> emitOut clk data" for clk data
  by (rule quietly_op) (rule emitOut_quiet)

interpretation input_op: session_operation "Pair False \<circ> onInput clk data" for clk data
  by (rule quietly_op) (rule handlers_quiet)

interpretation resize_op: session_operation "Pair False \<circ> onResize sj data" for sj data
  by (rule quietly_op) (rule handlers_quiet)

interpretation ctl_op: session_operation "Pair False \<circ> onCtl sj clk data" for sj clk data
  by (rule quietly_op) (rule handlers_quiet)

interpretation link_op: session_operation "Pair False \<circ> (\<lambda>s. s\<lparr>ss_connected := up, ss_faults := faults\<rparr>)" for up faults
  by (rule quietly_op) (rule handlers_quiet)

lemma closeSession_life:
  assumes "torn s" and "\<not> ss_closing s"
  shows "torn (snd (closeSession clk reason code s)) \<and> fst (closeSession clk reason code s) \<and>
    ss_closing (snd (closeSession clk reason code s))"
  using closeSession_torn [OF assms(1), of clk reason code] assms(2)
  by (auto elim: closeSession_live [of s clk reason code])

lemma closeSession_name:
  "ss_id (snd (closeSession clk reason code s)) = ss_id s \<and> ss_agentID (snd (closeSession clk reason code s)) = ss_agentID s"
  using closeSession_aside [of s clk reason code] by (simp add: aside_def)

interpretation close_op: session_operation "closeSession clk reason code" for clk reason code
  by unfold_locales (simp_all add: closeSession_life closeSession_name)

lemma tick_quiet: "quietly s (snd (checkTimeouts clk now s))"
  using flushLocked_quiet markDisconnected_quiet by (simp add: checkTimeouts_snd)

interpretation tick_op: session_operation "monitorTick now" for now
proof unfold_locales
  fix s
  show "ss_id (snd (monitorTick now s)) = ss_id s \<and> ss_agentID (snd (monitorTick now s)) = ss_agentID s"
    using tick_quiet [of s now now]
    by (cases rule: monitorTick_cases [of now s]) (auto simp: quietly_def closeSession_name)
  assume "torn s" "\<not> ss_closing s"
  then have "torn (snd (checkTimeouts now now s))" "\<not> ss_closing (snd (checkTimeouts now now s))"
    using tick_quiet [of s now now] quietly_torn by (auto simp: quietly_def)
  then show "torn (snd (monitorTick now s)) \<and> (fst (monitorTick now s) \<longleftrightarrow> ss_closing (snd (monitorTick now s)))"
    by (cases rule: monitorTick_cases [of now s]) (simp_all add: closeSession_life)
qed

lemma session_op_ok: "session_op sj f \<Longrightarrow> modOK agentID m \<Longrightarrow> modOK agentID (onSession sid f m)"
  by (induction rule: session_op.induct)
    (rule emitOut_op.onSession_ok input_op.onSession_ok resize_op.onSession_ok ctl_op.onSession_ok
      link_op.onSession_ok tick_op.onSession_ok close_op.onSession_ok; assumption)+

lemma OpenSession_cases:
  assumes "OpenSession e spec m = (err, m')"
  obtains "m' = m" | s where "m' = m\<lparr>sm_failed := s # sm_failed m\<rparr>"
  | s where "m' = m\<lparr>sm_sessions := (os_SessionID spec, s) # sm_sessions m\<rparr>"
      "startSession e (os_Cols spec) (os_Rows spec) (newSession (sm_agentID m) spec) = (None, s)"
      "os_SessionID spec \<notin> fst ` set (sm_sessions m)" "length (sm_sessions m) < sm_maxSessions m"
  using assms
  by (auto simp: OpenSession_def map_of_eq_None_iff split: if_splits option.splits prod.splits)

lemma OpenSession_ok:
  assumes "modOK agentID m" and "OpenSession e spec m = (err, m')"
  shows "modOK agentID m'"
proof (cases rule: OpenSession_cases [OF assms(2)])
  case (3 s)
  have "torn s" using started_sound [OF 3(2)] by (simp add: sound_def)
  moreover have "ss_id s = os_SessionID spec" "ss_agentID s = sm_agentID m" "\<not> ss_closing s" "validId (os_SessionID spec)"
    using startSession_ok [OF 3(2)] by (simp_all add: newSession_def)
  ultimately show ?thesis using assms(1) 3(1,3,4) by (simp add: modOK_def)
qed (use assms(1) in \<open>simp_all add: modOK_def\<close>)

lemma CloseShell_ok: "modOK agentID m \<Longrightarrow> CloseShell clk sid m = (ok, m') \<Longrightarrow> modOK agentID m'"
  by (auto simp: CloseShell_def split: option.splits intro: close_op.onSession_ok)

lemma fold_ok: "modOK agentID m \<Longrightarrow> modOK agentID (fold (\<lambda>sid. onSession sid (closeSession clk reason code)) sids m)"
  by (induction sids arbitrary: m) (simp_all add: close_op.onSession_ok)

lemma shell_mod_reach_ok: "shell_mod_reach sj agentID m \<Longrightarrow> modOK agentID m"
proof (induction rule: shell_mod_reach.induct)
  case fresh
  then show ?case by (simp add: modOK_def newShell_def)
next
  case (stopped m clk)
  have "modOK agentID (m\<lparr>sm_closed := True\<rparr>)" using stopped by (simp add: modOK_def)
  then show ?case by (simp add: shutdownShell_def fold_ok)
qed (auto intro: OpenSession_ok CloseShell_ok session_op_ok)

lemma close_onSession:
  assumes "modOK agentID m" and "(sid, s) \<in> set (sm_sessions m)"
  shows "onSession sid (closeSession clk reason code) m =
    (forget sid m)\<lparr>sm_gone := snd (closeSession clk reason code s) # sm_gone m\<rparr>"
proof -
  have "map_of (sm_sessions m) sid = Some s" "torn s" "\<not> ss_closing s"
    using assms by (auto simp: modOK_def)
  then show ?thesis using closeSession_life [of s clk reason code]
    by (cases "closeSession clk reason code s") (simp add: onSession_def)
qed

lemma shutdown_fold:
  "modOK agentID m \<Longrightarrow> set sids \<subseteq> fst ` set (sm_sessions m) \<Longrightarrow> distinct sids \<Longrightarrow>
   m' = fold (\<lambda>sid. onSession sid (closeSession clk reason code)) sids m \<Longrightarrow>
   sm_sessions m' = filter (\<lambda>e. fst e \<notin> set sids) (sm_sessions m) \<and> sm_closed m' = sm_closed m \<and>
   set (sm_gone m) \<subseteq> set (sm_gone m') \<and>
   (\<forall>(sid, s) \<in> set (sm_sessions m). sid \<in> set sids \<longrightarrow> snd (closeSession clk reason code s) \<in> set (sm_gone m'))"
proof (induction sids arbitrary: m)
  case (Cons sid sids)
  from Cons.prems(2) obtain s where s: "(sid, s) \<in> set (sm_sessions m)" by auto
  define m1 where "m1 = onSession sid (closeSession clk reason code) m"
  have m1: "sm_sessions m1 = filter (\<lambda>e. fst e \<noteq> sid) (sm_sessions m)" "sm_closed m1 = sm_closed m"
    "sm_gone m1 = snd (closeSession clk reason code s) # sm_gone m"
    using close_onSession [OF Cons.prems(1) s] by (simp_all add: m1_def forget_def)
  have uniq: "\<And>t. (sid, t) \<in> set (sm_sessions m) \<Longrightarrow> t = s"
    using Cons.prems(1) s by (auto simp: modOK_def eq_key_imp_eq_value)
  have "modOK agentID m1" using Cons.prems(1) by (simp add: m1_def close_op.onSession_ok)
  moreover have "set sids \<subseteq> fst ` set (sm_sessions m1)"
    using Cons.prems(2,3) by (force simp: m1)
  moreover have "m' = fold (\<lambda>sid. onSession sid (closeSession clk reason code)) sids m1"
    using Cons.prems(4) by (simp add: m1_def)
  ultimately have ih: "sm_sessions m' = filter (\<lambda>e. fst e \<notin> set sids) (sm_sessions m1)"
    "sm_closed m' = sm_closed m1" "set (sm_gone m1) \<subseteq> set (sm_gone m')"
    "\<forall>(sid, s) \<in> set (sm_sessions m1). sid \<in> set sids \<longrightarrow> snd (closeSession clk reason code s) \<in> set (sm_gone m')"
    using Cons.IH [of m1] Cons.prems(3) by auto
  have "snd (closeSession clk reason code t) \<in> set (sm_gone m')"
    if "(i, t) \<in> set (sm_sessions m)" "i \<in> set (sid # sids)" for i t
    using that ih(3,4) uniq m1 by (cases "i = sid") fastforce+
  then show ?case using ih m1 by auto
qed simp

section \<open>Properties of shell sessions\<close>

definition demoOpen :: openSpec where
  "demoOpen = \<lparr>os_SessionID = ''s1'', os_Shell = ''bash'', os_Cols = 80, os_Rows = 24,
     os_IdleTimeoutS = 0, os_RequestedBy = ''ana''\<rparr>"

definition demoStart :: start_env where
  "demoStart = \<lparr>se_now = 0, se_pty = None, se_subs = [], se_connected = False\<rparr>"

definition demoShellJson :: shell_json where
  "demoShellJson = \<lparr>sj_resize = (\<lambda>_. None), sj_ctl = (\<lambda>_. Some (Some 5, ''ping''))\<rparr>"

definition demoSession :: session where
  "demoSession = snd (startSession demoStart 80 24 (newSession ''a1'' demoOpen))"

lemma demo_ids: "validId ''s1''" "validId ''a1''"
  by code_simp+

lemma demoSession_started: "startSession demoStart 80 24 (newSession ''a1'' demoOpen) = (None, demoSession)"
  by (simp add: demoSession_def startSession_def newSession_def demoOpen_def demoStart_def demo_ids Let_def)

lemmas demoSession_eq = startSession_ok(1) [OF demoSession_started, unfolded newSession_def, simplified]

lemma demo_opened: "OpenSession demoStart demoOpen (newShell ''a1'') = (None, (newShell ''a1'')\<lparr>sm_sessions := [(''s1'', demoSession)]\<rparr>)"
  using demoSession_started
  by (simp add: OpenSession_def newShell_def demoOpen_def demo_ids MaxSessions_def)

lemma demo_opened_reach: "shell_mod_reach demoShellJson ''a1'' ((newShell ''a1'')\<lparr>sm_sessions := [(''s1'', demoSession)]\<rparr>)"
  by (rule shell_mod_reach.opened [OF shell_mod_reach.fresh demo_opened])

definition demoSys :: shell_sys where
  "demoSys = pumpRead 5 ''hi'' False (pumpWait \<lparr>sy_session = demoSession, sy_pump = AtTop, sy_read = []\<rparr>)"

lemmas demo_eval = demoSys_def pumpRead_def pumpWait_def demoSession_eq demoStart_def demoOpen_def
  emitOut_def markDisconnected_def ringWrite_def newRing_def RingBytes_def isZero_def zero_time_def

lemma demoSys_reach: "shell_reach demoShellJson demoSys"
proof -
  let ?y = "\<lparr>sy_session = demoSession, sy_pump = AtTop, sy_read = []\<rparr>"
  have "shell_reach demoShellJson ?y" by (rule shell_reach.started [OF demoSession_started])
  then have "shell_reach demoShellJson (pumpWait ?y)"
    by (rule shell_reach.stepped) (simp add: shell_step.pump_wait)
  moreover have "sy_pump (pumpWait ?y) = Reading"
    by (simp add: demo_eval waitGate_def newFlowController_def newFlowControllerWith_def)
  ultimately show ?thesis
    unfolding demoSys_def
    by (intro shell_reach.stepped [OF _ shell_step.pump_read]) (simp_all add: MaxFrameBytes_def isZero_def zero_time_def)
qed

text \<open>
  C10. No byte of a shell session's output disappears silently. However reads, outages, reconnects,
  acknowledgements and timeouts interleave, everything read from the pseudo-terminal is, in order, in
  published frames of at most 32 KiB on the session's own subject, in a publish that failed and was
  logged, lost at a point where a gap event was announced, or still in the disconnect buffer; and
  bytes are missing in front of the buffer only when the buffer remembers that it dropped some.
\<close>

theorem shell_bytes_accounted:
  assumes "shell_reach sj y"
  shows "\<exists>bs missing. covers (ss_agentID (sy_session y)) (ss_id (sy_session y)) (ss_out (sy_session y)) bs \<and>
    sy_read y = bs @ missing @ rn_buf (ss_buf (sy_session y)) \<and>
    (missing \<noteq> [] \<longrightarrow> rn_dropped (ss_buf (sy_session y)))"
  using shell_reach_sound [OF assms] by (simp add: sound_def delivered_def)

theorem shell_bytes_accounted_witness:
  "sy_read demoSys = ''hi'' \<and> rn_buf (ss_buf (sy_session demoSys)) = ''hi'' \<and>
   (\<exists>bs missing. covers ''a1'' ''s1'' (ss_out (sy_session demoSys)) bs \<and> ''hi'' = bs @ missing @ ''hi'')"
proof -
  have r: "sy_read demoSys = ''hi''" "rn_buf (ss_buf (sy_session demoSys)) = ''hi''"
    "ss_agentID (sy_session demoSys) = ''a1''" "ss_id (sy_session demoSys) = ''s1''"
    by (simp_all add: demo_eval)
  show ?thesis using shell_bytes_accounted [OF demoSys_reach] unfolding r by auto
qed

text \<open>
  C11. Flow control bounds what a session has in flight. Until the session closes, at most 800 KiB
  (the pause threshold, one full disconnect buffer and one frame) are published and not acknowledged,
  whatever the server does; the buffer holds at most 256 KiB; reads are paused only while more than
  256 KiB are outstanding and run only while at most 512 KiB are.
\<close>

theorem shell_flow_bounded:
  assumes "shell_reach sj y" and "\<not> ss_closing (sy_session y)"
  shows "0 \<le> fc_unacked (ss_flow (sy_session y)) \<and>
    fc_unacked (ss_flow (sy_session y)) \<le> PauseAbove + int RingBytes + int MaxFrameBytes \<and>
    length (rn_buf (ss_buf (sy_session y))) \<le> RingBytes \<and>
    (if fc_paused (ss_flow (sy_session y)) then ResumeBelow < fc_unacked (ss_flow (sy_session y))
     else fc_unacked (ss_flow (sy_session y)) \<le> PauseAbove)"
  using shell_reach_sound [OF assms(1)] assms(2)
  by (auto simp: sound_def calm_def flowOK_def bufHeld_def pending_def)

theorem shell_flow_bounded_witness:
  "fc_unacked (ss_flow (sy_session demoSys)) \<le> 819200 \<and> \<not> ss_closing (sy_session demoSys)"
proof -
  have "\<not> ss_closing (sy_session demoSys)" by (simp add: demo_eval)
  then show ?thesis using shell_flow_bounded [OF demoSys_reach]
    by (simp add: PauseAbove_def RingBytes_def MaxFrameBytes_def)
qed

text \<open>
  C23. A session is torn down exactly once. Child exit, a timeout, a server request and shutdown may
  race: a session that is not closing has announced nothing final and listens on its three subjects;
  one that is closing has published one closed event, then closed its pseudo-terminal and written one
  audit record, in this order, and listens on nothing.
\<close>

theorem shell_closed_once:
  assumes "shell_reach sj y" and "s = sy_session y"
  shows "if ss_closing s
    then ss_subs s = [] \<and> ss_cancelled s \<and>
      (\<exists>k a r c. filter finalEv (ss_out s) = [k, SvPtyClose, SvAudit ''shell.closed'' a] \<and>
        (k = SvCtl (ShellCtl (ss_agentID s) (ss_id s)) (CtlClosed (ss_id s) r c) \<or>
         k = SvCtlFailed (CtlClosed (ss_id s) r c)))
    else filter finalEv (ss_out s) = [] \<and>
      ss_subs s = [ShellIn (ss_agentID s) (ss_id s), ShellResize (ss_agentID s) (ss_id s),
        ShellCtl (ss_agentID s) (ss_id s)]"
  using shell_reach_sound [OF assms(1)] unfolding sound_def torn_def assms(2) by blast

theorem shell_closed_once_witness:
  "filter finalEv (ss_out (sy_session demoSys)) = [] \<and>
   ss_subs (sy_session demoSys) = [ShellIn ''a1'' ''s1'', ShellResize ''a1'' ''s1'', ShellCtl ''a1'' ''s1'']"
proof -
  have r: "ss_agentID (sy_session demoSys) = ''a1''" "ss_id (sy_session demoSys) = ''s1''"
    "\<not> ss_closing (sy_session demoSys)" by (simp_all add: demo_eval)
  show ?thesis using shell_closed_once [OF demoSys_reach refl] by (simp add: r)
qed

text \<open>
  The watchdog closes exactly the sessions that went stale. While the link is up and nothing else
  arrives, the monitor closes the session if and only if one of its ticks comes more than the idle
  timeout after the last keystroke, or more than 65 seconds after the last ping, or, when no
  ping ever came, more than 90 seconds after the session started.
\<close>

theorem monitor_closes_stale:
  assumes "ss_connected s" and "\<not> ss_cancelled s" and "\<not> ss_closing s"
  shows "ss_closing (monitor ticks s) \<longleftrightarrow>
    (\<exists>now \<in> set ticks. subT now (ss_lastInput s) > ss_idleTimeout s \<or>
      (if ss_sawPing s then subT now (ss_lastPing s) > pingTimeout
       else subT now (ss_startedAt s) > firstPingGrace))"
  using monitor_iff [OF assms] by (simp add: stale_def)

theorem monitor_closes_stale_witness:
  "\<not> ss_closing (monitor [5 * second, 90 * second] (demoSession\<lparr>ss_connected := True\<rparr>)) \<and>
   ss_closing (monitor [5 * second, 91 * second] (demoSession\<lparr>ss_connected := True\<rparr>))"
proof -
  let ?s = "demoSession\<lparr>ss_connected := True\<rparr>"
  have s: "ss_connected ?s" "\<not> ss_cancelled ?s" "\<not> ss_closing ?s" "\<not> ss_sawPing ?s"
    "ss_lastInput ?s = 0" "ss_startedAt ?s = 0" "ss_idleTimeout ?s = DefaultIdleTimeout"
    by (simp_all add: demo_eval idleTimeout_def)
  show ?thesis
    using monitor_closes_stale [OF s(1-3), of "[5 * second, 90 * second]"]
      monitor_closes_stale [OF s(1-3), of "[5 * second, 91 * second]"] s(4-7)
    by (simp add: subT_def second_def firstPingGrace_def DefaultIdleTimeout_def)
qed

text \<open>
  Live sessions are few and cannot overhear each other. In every reachable state of the module
  at most five sessions are live, their ids differ, and no subject a live session listens on
  matches any subject of another live session: its input, its control channel, its resizes or its
  output.
\<close>

theorem shell_sessions_isolated:
  assumes "shell_mod_reach sj agentID m" and "validId agentID"
  shows "length (sm_sessions m) \<le> MaxSessions \<and> distinct (map fst (sm_sessions m)) \<and>
    (\<forall>(a, s) \<in> set (sm_sessions m). \<forall>(b, t) \<in> set (sm_sessions m). a \<noteq> b \<longrightarrow>
      (\<forall>pat \<in> set (ss_subs s). \<forall>subj \<in> {ShellIn agentID b, ShellResize agentID b, ShellCtl agentID b, ShellOut agentID b}.
         \<not> subjectMatches pat subj))"
proof -
  note ok = shell_mod_reach_ok [OF assms(1), unfolded modOK_def]
  have "\<not> subjectMatches pat subj"
    if s: "(a, s) \<in> set (sm_sessions m)" and "a \<noteq> b" and pat: "pat \<in> set (ss_subs s)"
      and "subj \<in> {ShellIn agentID b, ShellResize agentID b, ShellCtl agentID b, ShellOut agentID b}" for a s b pat subj
  proof -
    have a: "validId a" and p: "pat \<in> {ShellIn agentID a, ShellResize agentID a, ShellCtl agentID a}"
      using ok s pat by (auto simp: torn_def)
    have "subjectMatches pat subj \<longleftrightarrow> subj = pat"
      using session_subject_match [OF assms(2) a, of "''in''"]
        session_subject_match [OF assms(2) a, of "''ctl''"]
        session_subject_match [OF assms(2) a, of "''rsz''"]
      using p by (auto simp: plainToken_def subject_defs)
    moreover have "subj \<noteq> pat"
      using that(2,4) p by (auto simp: subject_defs)
    ultimately show ?thesis by simp
  qed
  then show ?thesis using ok by blast
qed

theorem shell_sessions_isolated_witness:
  "length (sm_sessions (snd (OpenSession demoStart demoOpen (newShell ''a1'')))) = 1 \<and>
   length (sm_sessions (snd (OpenSession demoStart demoOpen (newShell ''a1'')))) \<le> MaxSessions"
  using shell_sessions_isolated [OF demo_opened_reach demo_ids(2)] by (simp add: demo_opened)

text \<open>
  Shutting the module down closes every live session with the reason shutdown and leaves none,
  and from then on no session opens.
\<close>

theorem shutdown_closes_sessions:
  assumes "shell_mod_reach sj agentID m" and "m' = shutdownShell clk m"
  shows "sm_sessions m' = [] \<and>
    (\<forall>(sid, s) \<in> set (sm_sessions m). snd (closeSession clk reasonShutdown (- 1) s) \<in> set (sm_gone m')) \<and>
    (\<forall>e spec. validId (os_SessionID spec) \<longrightarrow> OpenSession e spec m' = (Some ShShuttingDown, m'))"
proof -
  have ok: "modOK agentID (m\<lparr>sm_closed := True\<rparr>)"
    using shell_mod_reach_ok [OF assms(1)] by (simp add: modOK_def)
  define m0 where "m0 = m\<lparr>sm_closed := True\<rparr>"
  have m0: "sm_sessions m0 = sm_sessions m" "sm_closed m0" by (simp_all add: m0_def)
  have "m' = fold (\<lambda>sid. onSession sid (closeSession clk reasonShutdown (- 1))) (map fst (sm_sessions m0)) m0"
    using assms(2) by (simp add: shutdownShell_def m0_def)
  moreover have "modOK agentID m0" "distinct (map fst (sm_sessions m0))"
    using ok by (simp_all add: m0_def modOK_def)
  ultimately have m': "sm_sessions m' = filter (\<lambda>e. fst e \<notin> set (map fst (sm_sessions m0))) (sm_sessions m0)"
    "sm_closed m' = sm_closed m0"
    "\<forall>(sid, s) \<in> set (sm_sessions m0). sid \<in> set (map fst (sm_sessions m0)) \<longrightarrow>
       snd (closeSession clk reasonShutdown (- 1) s) \<in> set (sm_gone m')"
    using shutdown_fold [of agentID m0 "map fst (sm_sessions m0)" m' clk reasonShutdown "- 1"] by simp_all
  have "sm_sessions m' = []" using m'(1) by (simp add: filter_empty_conv)
  moreover have "sm_closed m'" using m'(2) m0 by simp
  ultimately show ?thesis using m'(3) m0 by (force simp: OpenSession_def)
qed

theorem shutdown_closes_sessions_witness:
  "sm_sessions (shutdownShell 9 (snd (OpenSession demoStart demoOpen (newShell ''a1'')))) = [] \<and>
   OpenSession demoStart demoOpen (shutdownShell 9 (snd (OpenSession demoStart demoOpen (newShell ''a1'')))) =
     (Some ShShuttingDown, shutdownShell 9 (snd (OpenSession demoStart demoOpen (newShell ''a1''))))"
proof -
  have "validId (os_SessionID demoOpen)" using demo_ids by (simp add: demoOpen_def)
  then show ?thesis using shutdown_closes_sessions [OF demo_opened_reach refl, of 9] by (simp add: demo_opened)
qed

end
