(* ===== verification/Commands.thy ===== *)
theory Commands
  imports Job_Handlers Shell_Correct Sched_Correct
begin

text \<open>
  The command surface, \<open>agent/internal/jobs/commands.go\<close>: request and reply over core NATS. One
  handler per command over the module's parts: the shell sessions, the registry of jobs, the script
  runner, the scheduler and the credentials.

  \<open>cmd_state\<close> is the part of \<open>Module\<close> the handlers change; \<open>cs_jobs\<close> lists the goroutines
  started for update jobs and \<open>cs_sent\<close> the replies sent. \<open>cmd_env\<close> is what a handler meets: the
  JSON decoders (\<open>Inl\<close> is the error of \<open>json.Unmarshal\<close>), the clock, the cron library, and what
  is wired.
\<close>

section \<open>Replies\<close>

text \<open>The \<open>error\<close> field of a reply, as the case it reports.\<close>

datatype cmd_error =
    NoError
  | BadPayload string string
  | BadIdentifier string id_error
  | ShellRefused shell_error
  | NoSession
  | JobNotRunning
  | SyncFailed sync_error
  | EntriesRejected "(string \<times> sched_error) list"
  | UpdateNotWired string
  | JobRefused reserve_error
  | NoSecret
  | RotationNotWired
  | SecretNotPersisted string
  | UnknownCommand string
  | InternalError string

record reply =
  rp_Accepted :: bool
  rp_Error :: cmd_error
  rp_JobID :: string
  rp_SessionID :: string
  rp_ScheduleVersion :: int
  rp_Cancelled :: "bool option"
  rp_Rejected :: "(string \<times> sched_error) list"

definition accepted :: reply where
  "accepted = \<lparr>rp_Accepted = True, rp_Error = NoError, rp_JobID = [], rp_SessionID = [],
     rp_ScheduleVersion = 0, rp_Cancelled = None, rp_Rejected = []\<rparr>"

definition refused :: "cmd_error \<Rightarrow> reply" where
  "refused err = accepted\<lparr>rp_Accepted := False, rp_Error := err\<rparr>"

datatype payload = Pong string string nat | Answer reply

record cmd_state =
  cs_agentID :: string
  cs_version :: string
  cs_shell :: shellModule
  cs_reg :: registry
  cs_runs :: running
  cs_sched :: scheduler
  cs_world :: world
  cs_secret :: string
  cs_jobs :: "jobSpec list"
  cs_sent :: "payload list"

record cmd_env =
  ce_json :: json_lib
  ce_open :: "bytes \<Rightarrow> string + openSpec"
  ce_close :: "bytes \<Rightarrow> string + string"
  ce_cancel :: "bytes \<Rightarrow> string + (string \<times> string)"
  ce_doc :: "bytes \<Rightarrow> string + document"
  ce_upd :: "bytes \<Rightarrow> string + (string \<times> string)"
  ce_rotate :: "bytes \<Rightarrow> string + (string \<times> string)"
  ce_now :: gtime
  ce_start :: start_env
  ce_cron :: cron_lib
  ce_update :: update_env
  ce_persist :: "(string \<Rightarrow> string option) option"
  ce_panic :: "(cmd_state \<times> string) option"

record cmd_msg =
  mg_Subject :: string
  mg_Data :: bytes
  mg_Reply :: string

section \<open>The handlers\<close>

definition cmdAudit :: "string \<Rightarrow> (string \<times> detail) list \<Rightarrow> cmd_state \<Rightarrow> cmd_state" where
  "cmdAudit event details m = m\<lparr>cs_world := auditEmit event details (cs_world m)\<rparr>"

definition cmdShellOpen :: "cmd_env \<Rightarrow> bytes \<Rightarrow> cmd_state \<Rightarrow> reply \<times> cmd_state" where
  "cmdShellOpen env data m =
     (case ce_open env data of
        Inl e \<Rightarrow> (refused (BadPayload ''shell.open'' e), m)
      | Inr spec \<Rightarrow>
          (case OpenSession (ce_start env) spec (cs_shell m) of
             (Some err, sh) \<Rightarrow>
               ((refused (ShellRefused err))\<lparr>rp_SessionID := os_SessionID spec\<rparr>, m\<lparr>cs_shell := sh\<rparr>)
           | (None, sh) \<Rightarrow> (accepted\<lparr>rp_SessionID := os_SessionID spec\<rparr>, m\<lparr>cs_shell := sh\<rparr>)))"

definition cmdShellClose :: "cmd_env \<Rightarrow> bytes \<Rightarrow> cmd_state \<Rightarrow> reply \<times> cmd_state" where
  "cmdShellClose env data m =
     (case ce_close env data of
        Inl e \<Rightarrow> (refused (BadPayload ''shell.close'' e), m)
      | Inr sid \<Rightarrow>
          (let (ok, sh) = CloseShell (ce_now env) sid (cs_shell m)
           in if ok then (accepted\<lparr>rp_SessionID := sid\<rparr>, m\<lparr>cs_shell := sh\<rparr>)
              else ((refused NoSession)\<lparr>rp_SessionID := sid\<rparr>, m\<lparr>cs_shell := sh\<rparr>)))"

definition cmdJobCancel :: "cmd_env \<Rightarrow> bytes \<Rightarrow> cmd_state \<Rightarrow> reply \<times> cmd_state" where
  "cmdJobCancel env data m =
     (case ce_cancel env data of
        Inl e \<Rightarrow> (refused (BadPayload ''job.cancel'' e), m)
      | Inr (jobID, who) \<Rightarrow>
          (let (cancelled, r, runs) = CancelJob jobID (cs_reg m) (cs_runs m);
               m1 = m\<lparr>cs_reg := r, cs_runs := runs\<rparr>
           in if \<not> cancelled
              then ((refused JobNotRunning)\<lparr>rp_JobID := jobID, rp_Cancelled := Some False\<rparr>, m1)
              else (accepted\<lparr>rp_JobID := jobID, rp_Cancelled := Some True\<rparr>,
                    cmdAudit ''job.cancelled'' [(''job_id'', DStr jobID), (''requested_by'', DStr who)] m1)))"

definition cmdSchedSync :: "cmd_env \<Rightarrow> bytes \<Rightarrow> cmd_state \<Rightarrow> reply \<times> cmd_state" where
  "cmdSchedSync env data m =
     (case ce_doc env data of
        Inl e \<Rightarrow> (refused (BadPayload ''sched.sync'' e), m)
      | Inr doc \<Rightarrow>
          (let (res, sv) = Sync (ce_cron env) (ce_now env) doc (cs_sched m);
               m1 = m\<lparr>cs_sched := sv\<rparr>
           in case sr_error res of
                Some err \<Rightarrow>
                  ((refused (SyncFailed err))\<lparr>rp_ScheduleVersion := sr_version res, rp_Rejected := sr_rejected res\<rparr>, m1)
              | None \<Rightarrow>
                  (let m2 = cmdAudit ''schedule.synced''
                         [(''schedule_version'', DInt (sr_version res)),
                          (''entries'', DInt (int (length (doc_Entries doc)) - int (length (sr_rejected res)))),
                          (''rejected'', DInt (int (length (sr_rejected res))))] m1
                   in if sr_rejected res \<noteq> []
                      then ((refused (EntriesRejected (sr_rejected res)))\<lparr>rp_ScheduleVersion := sr_version res,
                              rp_Rejected := sr_rejected res\<rparr>, m2)
                      else (accepted\<lparr>rp_ScheduleVersion := sr_version res\<rparr>, m2))))"

text \<open>\<open>cmdAgentUpdate\<close>: \<open>None\<close> while it blocks for a worker slot, with the command unanswered.\<close>

definition updateSpec :: "string \<Rightarrow> jobSpec" where
  "updateSpec jobID = (bareSpec jobID)\<lparr>js_Kind := KindAgentUpdate\<rparr>"

definition cmdAgentUpdate :: "cmd_env \<Rightarrow> bytes \<Rightarrow> cmd_state \<Rightarrow> (reply \<times> cmd_state) option" where
  "cmdAgentUpdate env data m =
     (case ce_upd env data of
        Inl e \<Rightarrow> Some (refused (BadPayload ''agent.update'' e), m)
      | Inr (jobID, who) \<Rightarrow>
          (case CheckIdentifier ''job_id'' jobID of
             Some (field, err) \<Rightarrow> Some (refused (BadIdentifier field err), m)
           | None \<Rightarrow>
               (case updateReady (ce_update env) of
                  Some e \<Rightarrow> Some ((refused (UpdateNotWired e))\<lparr>rp_JobID := jobID\<rparr>, m)
                | None \<Rightarrow>
                    (case reserve (updateSpec jobID) (cs_reg m) of
                       None \<Rightarrow> None
                     | Some (Inl err, r) \<Rightarrow> Some ((refused (JobRefused err))\<lparr>rp_JobID := jobID\<rparr>, m\<lparr>cs_reg := r\<rparr>)
                     | Some (Inr _, r) \<Rightarrow>
                         Some (accepted\<lparr>rp_JobID := jobID\<rparr>,
                           m\<lparr>cs_reg := r,
                             cs_jobs := cs_jobs m @ [(updateSpec jobID)\<lparr>js_Body := data, js_RequestedBy := who\<rparr>]\<rparr>)))))"

text \<open>The goroutine of an accepted update.\<close>

definition updateJob :: "job_env \<Rightarrow> jobSpec \<Rightarrow> cmd_state \<Rightarrow> cmd_state" where
  "updateJob env spec m =
     m\<lparr>cs_jobs := remove1 spec (cs_jobs m), cs_world := runJob env spec (cs_world m),
       cs_reg := release (js_JobID spec) (cs_reg m)\<rparr>"

definition cmdRotateCreds :: "cmd_env \<Rightarrow> bytes \<Rightarrow> cmd_state \<Rightarrow> reply \<times> cmd_state" where
  "cmdRotateCreds env data m =
     (case ce_rotate env data of
        Inl e \<Rightarrow> (refused (BadPayload ''agent.rotate_creds'' e), m)
      | Inr (secret, who) \<Rightarrow>
          if secret = [] then (refused NoSecret, m)
          else (case ce_persist env of
                  None \<Rightarrow> (refused RotationNotWired, m)
                | Some persist \<Rightarrow>
                    (case persist secret of
                       Some e \<Rightarrow> (refused (SecretNotPersisted e), m)
                     | None \<Rightarrow> (accepted, cmdAudit ''agent.credentials_rotated'' [(''requested_by'', DStr who)]
                         (m\<lparr>cs_secret := secret\<rparr>)))))"

text \<open>\<open>rejectionSummary\<close>, with the text of each rejection as an argument.\<close>

definition rejectionSummary :: "(sched_error \<Rightarrow> string) \<Rightarrow> (string \<times> sched_error) list \<Rightarrow> string" where
  "rejectionSummary reason rejected =
     itoa (int (length rejected)) @ '' schedule entries cannot be scheduled and were dropped: '' @
     joinWith ''; '' (map (\<lambda>(entryID, e). entryID @ '': '' @ reason e) rejected)"

definition respondRaw :: "cmd_msg \<Rightarrow> payload \<Rightarrow> cmd_state \<Rightarrow> cmd_state" where
  "respondRaw msg p m = (if mg_Reply msg = [] then m else m\<lparr>cs_sent := cs_sent m @ [p]\<rparr>)"

definition respond :: "cmd_msg \<Rightarrow> reply \<times> cmd_state \<Rightarrow> cmd_state" where
  "respond msg rm = respondRaw msg (Answer (fst rm)) (snd rm)"

definition dispatchCommand :: "cmd_env \<Rightarrow> cmd_msg \<Rightarrow> cmd_state \<Rightarrow> cmd_state option" where
  "dispatchCommand env msg m =
     (let op = trimPrefix (''cmd.'' @ cs_agentID m @ ''.'') (mg_Subject msg);
          data = commandData (ce_json env) (mg_Data msg)
      in if op = ''ping'' then Some (respondRaw msg (Pong (cs_version m) (cs_agentID m) (CountShell (cs_shell m))) m)
         else if op = ''shell.open'' then Some (respond msg (cmdShellOpen env data m))
         else if op = ''shell.close'' then Some (respond msg (cmdShellClose env data m))
         else if op = ''job.cancel'' then Some (respond msg (cmdJobCancel env data m))
         else if op = ''sched.sync'' then Some (respond msg (cmdSchedSync env data m))
         else if op = ''agent.update'' then map_option (respond msg) (cmdAgentUpdate env data m)
         else if op = ''agent.rotate_creds'' then Some (respond msg (cmdRotateCreds env data m))
         else Some (respond msg (refused (UnknownCommand op), m)))"

text \<open>
  \<open>handleCommand\<close> with its recovery; \<open>ce_panic\<close> is a panic of the handler, with the state it
  left behind.
\<close>

definition handleCommand :: "cmd_env \<Rightarrow> cmd_msg \<Rightarrow> cmd_state \<Rightarrow> cmd_state option" where
  "handleCommand env msg m =
     (case ce_panic env of
        None \<Rightarrow> dispatchCommand env msg m
      | Some (m1, cause) \<Rightarrow> Some (respond msg (refused (InternalError cause), m1)))"

section \<open>What the handlers keep\<close>

lemma refused_simps [simp]:
  "\<not> rp_Accepted (refused e)" "rp_Accepted accepted"
  by (simp_all add: refused_def accepted_def)

lemma handlers_silent:
  "cs_sent (snd (cmdShellOpen env data m)) = cs_sent m"
  "cs_sent (snd (cmdShellClose env data m)) = cs_sent m"
  "cs_sent (snd (cmdJobCancel env data m)) = cs_sent m"
  "cs_sent (snd (cmdSchedSync env data m)) = cs_sent m"
  "cs_sent (snd (cmdRotateCreds env data m)) = cs_sent m"
  by (auto simp: cmdShellOpen_def cmdShellClose_def cmdJobCancel_def cmdSchedSync_def cmdRotateCreds_def
      cmdAudit_def Let_def split: sum.splits prod.splits option.splits)

lemma cmdAgentUpdate_silent: "cmdAgentUpdate env data m = Some (rep, m') \<Longrightarrow> cs_sent m' = cs_sent m"
  by (auto simp: cmdAgentUpdate_def split: sum.splits prod.splits option.splits)

lemma respond_sends:
  "mg_Reply msg \<noteq> [] \<Longrightarrow> cs_sent (snd rm) = cs_sent m \<Longrightarrow> \<exists>p. cs_sent (respond msg rm) = cs_sent m @ [p]"
  by (simp add: respond_def respondRaw_def)

lemma reserve_blocks:
  "reserve spec r = None \<longleftrightarrow> \<not> rg_stopping r \<and> map_of (rg_inflight r) (js_JobID spec) = None \<and>
     maxConcurrentJobs \<le> rg_slots r \<and> rg_base r \<notin> set (rg_dead r)"
  by (auto simp: reserve_def reserveCheck_def split: sum.splits prod.splits)

lemma cmdAgentUpdate_blocks:
  "cmdAgentUpdate env data m = None \<longleftrightarrow>
     (\<exists>jobID who. ce_upd env data = Inr (jobID, who) \<and> validId jobID \<and> updateReady (ce_update env) = None \<and>
        reserve (updateSpec jobID) (cs_reg m) = None)"
  by (auto simp: cmdAgentUpdate_def CheckIdentifier_def split: sum.splits prod.splits option.splits)

lemma cmdAgentUpdate_accepts:
  assumes "cmdAgentUpdate env data m = Some (rep, m')" and "rp_Accepted rep"
  obtains jobID who u where "ce_upd env data = Inr (jobID, who)" "validId jobID" "rp_JobID rep = jobID"
    "reserve (updateSpec jobID) (cs_reg m) = Some (Inr u, cs_reg m')"
    "cs_jobs m' = cs_jobs m @ [(updateSpec jobID)\<lparr>js_Body := data, js_RequestedBy := who\<rparr>]"
    "cs_world m' = cs_world m"
  using assms
  by (auto simp: cmdAgentUpdate_def CheckIdentifier_None accepted_def split: sum.splits prod.splits option.splits)

lemma updateSpec_id [simp]: "js_JobID (updateSpec j) = j" "js_EntryID (updateSpec j) = []"
  by (simp_all add: updateSpec_def bareSpec_def)

lemma reserve_registers: "reserve spec r = Some (Inr u, r') \<Longrightarrow> js_JobID spec \<in> fst ` set (rg_inflight r')"
  by (auto simp: reserve_def reserveCommit_def split: sum.splits prod.splits if_splits)

lemma Sync_clean:
  assumes "Sync lib now doc s = (res, s')" and "sr_error res = None" and "sr_rejected res = []"
  shows "st_Entries (sv_st s') = doc_Entries doc \<and> sr_version res = doc_ScheduleVersion doc \<and>
    st_ScheduleVersion (sv_st s') = doc_ScheduleVersion doc \<and> sv_file s' = Stored (sv_st s') \<and> sv_wake s' \<and>
    list_all (\<lambda>e. validId (en_EntryID e) \<and> (\<exists>n. schedule lib e = Inr n)) (doc_Entries doc)"
proof -
  have none: "firstBadID (doc_Entries doc) = None"
    using assms(1,2) by (auto simp: Sync_def split: option.splits)
  obtain kept rej where sp: "splitEntries lib (doc_Entries doc) = (kept, rej)" by fastforce
  define st where "st = \<lparr>st_ScheduleVersion = doc_ScheduleVersion doc, st_Entries = kept,
     st_LastFired = carryFired (st_LastFired (sv_st s)) now kept\<rparr>"
  obtain saved s1 where sv: "saveState st (s\<lparr>sv_st := st\<rparr>) = (saved, s1)" by fastforce
  have s1: "saved" "res = \<lparr>sr_version = doc_ScheduleVersion doc, sr_rejected = rej, sr_error = None\<rparr>" "s' = signal s1"
    using assms(1,2) none sp sv by (auto simp: Sync_def st_def [symmetric] split: if_splits)
  have "sv_st s1 = st" "sv_file s1 = Stored st"
    using saveState_frame [of st "s\<lparr>sv_st := st\<rparr>"] saveState_file [of st "s\<lparr>sv_st := st\<rparr>"] sv s1(1) by simp_all
  moreover have "list_all (\<lambda>e. \<exists>n. schedule lib e = Inr n) (doc_Entries doc)" "kept = doc_Entries doc"
  proof -
    have no: "\<nexists>err. schedule lib e = Inl err" if "e \<in> set (doc_Entries doc)" for e
      using sp assms(3) s1(2) that by (auto simp: splitEntries_spec filter_empty_conv)
    then have yes: "\<exists>n. schedule lib e = Inr n" if "e \<in> set (doc_Entries doc)" for e
      using that by (metis sumE)
    then show "list_all (\<lambda>e. \<exists>n. schedule lib e = Inr n) (doc_Entries doc)" by (simp add: list_all_iff)
    have "kept = filter (\<lambda>e. \<exists>n. schedule lib e = Inr n) (doc_Entries doc)" using sp by (simp add: splitEntries_spec)
    then show "kept = doc_Entries doc" using yes by (simp add: filter_id_conv)
  qed
  ultimately show ?thesis
    using s1 none by (auto simp: signal_def st_def firstBadID_None list_all_iff)
qed

section \<open>Properties of the commands\<close>

text \<open>
  A command is answered exactly once. Whatever the subject and the payload, and also when the
  handler panics before it answered, a request gets one reply; the only command that can be left
  unanswered is an update that waits for a worker slot while every slot is taken.
\<close>

theorem handleCommand_answers:
  assumes "mg_Reply msg \<noteq> []" and "\<forall>m1 cause. ce_panic env = Some (m1, cause) \<longrightarrow> cs_sent m1 = cs_sent m"
  shows "case handleCommand env msg m of
    Some m' \<Rightarrow> \<exists>p. cs_sent m' = cs_sent m @ [p]
  | None \<Rightarrow> trimPrefix (''cmd.'' @ cs_agentID m @ ''.'') (mg_Subject msg) = ''agent.update'' \<and>
      maxConcurrentJobs \<le> rg_slots (cs_reg m)"
proof (cases "ce_panic env")
  case None
  let ?op = "trimPrefix (''cmd.'' @ cs_agentID m @ ''.'') (mg_Subject msg)"
  let ?data = "commandData (ce_json env) (mg_Data msg)"
  note send = respond_sends [OF assms(1)]
  have upd: "case map_option (respond msg) (cmdAgentUpdate env ?data m) of
      Some m' \<Rightarrow> \<exists>p. cs_sent m' = cs_sent m @ [p] | None \<Rightarrow> maxConcurrentJobs \<le> rg_slots (cs_reg m)"
    using cmdAgentUpdate_silent [of env ?data m] send
    by (auto simp: cmdAgentUpdate_blocks reserve_blocks split: option.splits)
  then show ?thesis
    using None send [OF handlers_silent(1)] send [OF handlers_silent(2)] send [OF handlers_silent(3)]
      send [OF handlers_silent(4)] send [OF handlers_silent(5)] send [of "(refused (UnknownCommand ?op), m)" m] assms(1)
    by (auto simp: handleCommand_def dispatchCommand_def Let_def respondRaw_def split: option.splits)
next
  case (Some mc)
  then show ?thesis using assms respond_sends [OF assms(1), of "(refused (InternalError (snd mc)), fst mc)" m]
    by (cases mc) (simp add: handleCommand_def)
qed

definition demoCmdEnv :: cmd_env where
  "demoCmdEnv = \<lparr>ce_json = demoJson, ce_open = (\<lambda>b. Inr demoOpen), ce_close = (\<lambda>b. Inr ''s1''),
     ce_cancel = (\<lambda>b. Inr (''j1'', ''ana'')), ce_doc = (\<lambda>b. Inr \<lparr>doc_ScheduleVersion = 4, doc_Entries = []\<rparr>),
     ce_upd = (\<lambda>b. Inr (''u1'', ''ana'')), ce_rotate = (\<lambda>b. Inr (''s3cret'', ''ana'')), ce_now = 7,
     ce_start = demoStart, ce_cron = \<lparr>lib_loc = (\<lambda>z. Inl ''no zone''), lib_cron = (\<lambda>c. Inl ''no cron'')\<rparr>,
     ce_update = demoUpdate, ce_persist = None, ce_panic = None\<rparr>"

definition demoCmd :: cmd_state where
  "demoCmd = \<lparr>cs_agentID = ''a1'', cs_version = ''1.0'', cs_shell = newShell ''a1'', cs_reg = newRegistry,
     cs_runs = Map.empty, cs_sched = newScheduler ''a1'' NoFile [], cs_world = emptyWorld, cs_secret = ''old'',
     cs_jobs = [], cs_sent = []\<rparr>"

definition demoMsg :: "string \<Rightarrow> cmd_msg" where
  "demoMsg op = \<lparr>mg_Subject = ''cmd.a1.'' @ op, mg_Data = ''{}'', mg_Reply = ''_INBOX_a1.1''\<rparr>"

theorem handleCommand_answers_witness:
  "case handleCommand demoCmdEnv (demoMsg ''reboot'') demoCmd of
     Some m' \<Rightarrow> \<exists>p. cs_sent m' = [p]
   | None \<Rightarrow> maxConcurrentJobs \<le> rg_slots (cs_reg demoCmd)"
  using handleCommand_answers [of "demoMsg ''reboot''" demoCmdEnv demoCmd]
  by (auto simp: demoMsg_def demoCmdEnv_def demoCmd_def split: option.splits)

text \<open>
  C22. An accepted update reports. When the command answers accepted, one job under the requested id,
  which is a valid subject token, has been registered and started; when that job runs, whatever
  happens in it, it hands over exactly one terminal result under the id, and afterwards the registry
  is as it was before the command.
\<close>

theorem accepted_update_reports:
  assumes "cmdAgentUpdate env data m = Some (rep, m')" and "rp_Accepted rep" and "panicsEarly jenv"
  shows "\<exists>spec res. cs_jobs m' = cs_jobs m @ [spec] \<and> js_JobID spec = rp_JobID rep \<and> validId (rp_JobID rep) \<and>
    rp_JobID rep \<in> fst ` set (rg_inflight (cs_reg m')) \<and>
    resultsOf (wd_out (cs_world (updateJob jenv spec m'))) = resultsOf (wd_out (cs_world m)) @ [(rp_JobID rep, res)] \<and>
    rs_Status res \<in> {StatusSucceeded, StatusFailed, StatusTimeout, StatusCancelled} \<and>
    cs_reg (updateJob jenv spec m') = cs_reg m"
proof -
  obtain jobID who u where j: "validId jobID" "rp_JobID rep = jobID"
    "reserve (updateSpec jobID) (cs_reg m) = Some (Inr u, cs_reg m')"
    "cs_jobs m' = cs_jobs m @ [(updateSpec jobID)\<lparr>js_Body := data, js_RequestedBy := who\<rparr>]" "cs_world m' = cs_world m"
    using cmdAgentUpdate_accepts [OF assms(1,2)] by metis
  let ?spec = "(updateSpec jobID)\<lparr>js_Body := data, js_RequestedBy := who\<rparr>"
  obtain res where "resultsOf (wd_out (runJob jenv ?spec (cs_world m))) = resultsOf (wd_out (cs_world m)) @ [(jobID, res)]"
    "terminal (rs_Status res)"
    using runJob_result [OF assms(3), of ?spec "cs_world m"] by auto
  moreover have "jobID \<in> fst ` set (rg_inflight (cs_reg m'))" using reserve_registers [OF j(3)] by simp
  moreover have "release jobID (cs_reg m') = cs_reg m" using reserve_release [OF j(3)] by simp
  ultimately show ?thesis
    using j by (intro exI [of _ ?spec] exI [of _ res]) (auto simp: updateJob_def terminal_def)
qed

lemma demo_update_accepted:
  obtains m' where "cmdAgentUpdate demoCmdEnv ''{}'' demoCmd = Some (accepted\<lparr>rp_JobID := ''u1''\<rparr>, m')"
proof -
  have "CheckIdentifier ''job_id'' ''u1'' = None" by code_simp
  then show ?thesis
    using that by (auto simp: cmdAgentUpdate_def demoCmdEnv_def demoCmd_def demoUpdate_def updateReady_def
        reserve_def reserveCheck_def reserveCommit_def newRegistry_def takeSlot_def maxConcurrentJobs_def)
qed

theorem accepted_update_reports_witness:
  "\<exists>m' spec res. cmdAgentUpdate demoCmdEnv ''{}'' demoCmd = Some (accepted\<lparr>rp_JobID := ''u1''\<rparr>, m') \<and>
     resultsOf (wd_out (cs_world (updateJob demoJobEnv spec m'))) = [(''u1'', res)]"
proof -
  obtain m' where m': "cmdAgentUpdate demoCmdEnv ''{}'' demoCmd = Some (accepted\<lparr>rp_JobID := ''u1''\<rparr>, m')"
    by (rule demo_update_accepted)
  show ?thesis
    using accepted_update_reports [OF m' _ demo_panics] m'
    by (auto simp: demoCmd_def emptyWorld_def accepted_def)
qed

text \<open>
  Cancelling reaches the job and only it. The command is accepted exactly when the job is in the
  registry or in the script runner; then the job's context is cancelled and, for a script, its
  reason says cancelled unless one was already set, and no other job is touched.
\<close>

theorem cancel_reaches_job:
  assumes "ce_cancel env data = Inr (jobID, who)" and "cmdJobCancel env data m = (rep, m')"
  shows "rp_Accepted rep = (jobID \<in> fst ` set (rg_inflight (cs_reg m)) \<or> cs_runs m jobID \<noteq> None) \<and>
    (\<forall>h. (jobID, h) \<in> set (rg_inflight (cs_reg m')) \<longrightarrow> jh_cancelled h) \<and>
    (\<forall>box. cs_runs m jobID = Some box \<longrightarrow>
       cs_runs m' jobID = Some (if box = [] then StatusCancelled else box)) \<and>
    (\<forall>j. j \<noteq> jobID \<longrightarrow> cs_runs m' j = cs_runs m j \<and>
       map_of (rg_inflight (cs_reg m')) j = map_of (rg_inflight (cs_reg m)) j)"
proof -
  have other: "map_of (map (\<lambda>h. if fst h = jobID then (fst h, (snd h)\<lparr>jh_cancelled := True\<rparr>) else h) hs) j = map_of hs j"
    if "j \<noteq> jobID" for j and hs :: "(string \<times> jobHandle) list"
    using that by (induction hs) auto
  have "jh_cancelled h" if "(jobID, h) \<in> set (rg_inflight (cancelHandle jobID r))" for h r
    using that by (auto simp: cancelHandle_def split: if_splits)
  then show ?thesis
    using assms other
    by (auto simp: cmdJobCancel_def CancelJob_def runnerCancel_def reasonSet_def cancelHandle_def cmdAudit_def Let_def
        accepted_def refused_def map_of_eq_None_iff split: prod.splits if_splits option.splits)
qed

theorem cancel_reaches_job_witness:
  "rp_Accepted (fst (cmdJobCancel demoCmdEnv ''{}'' (demoCmd\<lparr>cs_runs := [''j1'' \<mapsto> []]\<rparr>))) \<and>
   cs_runs (snd (cmdJobCancel demoCmdEnv ''{}'' (demoCmd\<lparr>cs_runs := [''j1'' \<mapsto> []]\<rparr>))) ''j1'' = Some StatusCancelled"
proof -
  have c: "ce_cancel demoCmdEnv ''{}'' = Inr (''j1'', ''ana'')" by (simp add: demoCmdEnv_def)
  show ?thesis
    using cancel_reaches_job [OF c prod.collapse [symmetric], of "demoCmd\<lparr>cs_runs := [''j1'' \<mapsto> []]\<rparr>"] by simp
qed

text \<open>
  An accepted schedule is in force. When the server is told accepted, every entry of its document
  has a valid id and a schedule that parses, the scheduler holds exactly these entries under the
  document's version, the cache on disk says the same, and the run loop has been woken.
\<close>

theorem accepted_schedule_in_force:
  assumes "ce_doc env data = Inr doc" and "cmdSchedSync env data m = (rep, m')" and "rp_Accepted rep"
  shows "st_Entries (sv_st (cs_sched m')) = doc_Entries doc \<and> rp_ScheduleVersion rep = doc_ScheduleVersion doc \<and>
    st_ScheduleVersion (sv_st (cs_sched m')) = doc_ScheduleVersion doc \<and>
    sv_file (cs_sched m') = Stored (sv_st (cs_sched m')) \<and> sv_wake (cs_sched m') \<and>
    list_all (\<lambda>e. validId (en_EntryID e) \<and> (\<exists>n. schedule (ce_cron env) e = Inr n)) (doc_Entries doc)"
proof -
  obtain res sv where s: "Sync (ce_cron env) (ce_now env) doc (cs_sched m) = (res, sv)" by fastforce
  have "sr_error res = None" "sr_rejected res = []" "cs_sched m' = sv" "rp_ScheduleVersion rep = sr_version res"
    using assms s by (auto simp: cmdSchedSync_def cmdAudit_def Let_def accepted_def split: option.splits if_splits)
  then show ?thesis using Sync_clean [OF s] by simp
qed

theorem accepted_schedule_in_force_witness:
  "st_ScheduleVersion (sv_st (cs_sched (snd (cmdSchedSync demoCmdEnv ''{}'' demoCmd)))) = 4"
proof -
  have d: "ce_doc demoCmdEnv ''{}'' = Inr \<lparr>doc_ScheduleVersion = 4, doc_Entries = []\<rparr>" by (simp add: demoCmdEnv_def)
  moreover have "rp_Accepted (fst (cmdSchedSync demoCmdEnv ''{}'' demoCmd))"
    by (simp add: cmdSchedSync_def demoCmdEnv_def demoCmd_def Sync_def newScheduler_def saveState_def Let_def)
  ultimately show ?thesis using accepted_schedule_in_force [OF d prod.collapse [symmetric]] by simp
qed

text \<open>
  One update can hold up every command. With the worker slots taken, an update command for a
  new job blocks in the callback in which commands are delivered one after the other, so it is not
  answered and neither is any command behind it, the cancellation of a running job included.
\<close>

theorem update_command_blocks:
  assumes "ce_panic env = None" and "mg_Subject msg = Cmd (cs_agentID m) ''agent.update''"
    and "ce_upd env (commandData (ce_json env) (mg_Data msg)) = Inr (jobID, who)" and "validId jobID"
    and "updateReady (ce_update env) = None" and "maxConcurrentJobs \<le> rg_slots (cs_reg m)"
    and "jobID \<notin> fst ` set (rg_inflight (cs_reg m))"
    and "\<not> rg_stopping (cs_reg m)" and "rg_base (cs_reg m) \<notin> set (rg_dead (cs_reg m))"
  shows "handleCommand env msg m = None"
proof -
  have op: "trimPrefix (''cmd.'' @ cs_agentID m @ ''.'') (mg_Subject msg) = ''agent.update''"
    using assms(2) by (simp add: Cmd_def trimPrefix_def cutPrefix_def)
  have "reserve (updateSpec jobID) (cs_reg m) = None"
    using assms(6-9) by (simp add: reserve_blocks map_of_eq_None_iff)
  then have "cmdAgentUpdate env (commandData (ce_json env) (mg_Data msg)) m = None"
    using assms(3-5) by (auto simp: cmdAgentUpdate_blocks)
  then show ?thesis using assms(1) op by (simp add: handleCommand_def dispatchCommand_def Let_def)
qed

theorem update_command_blocks_witness:
  "handleCommand demoCmdEnv (demoMsg ''agent.update'') (demoCmd\<lparr>cs_reg := newRegistry\<lparr>rg_slots := 3\<rparr>\<rparr>) = None"
proof -
  have "validId ''u1''" by code_simp
  then show ?thesis
    by (intro update_command_blocks [where jobID = "''u1''" and who = "''ana''"])
      (simp_all add: demoCmdEnv_def demoMsg_def demoCmd_def Cmd_def demoUpdate_def updateReady_def newRegistry_def
        maxConcurrentJobs_def)
qed

end
