(* ===== verification/Patch_Ids.thy ===== *)
theory Patch_Ids
  imports Go_Base "HOL-Library.AList"
begin

text \<open>
  Which update ids reach a package manager, \<open>agent/internal/patch\<close>: the result of an install and the
  errors it records (\<open>patch.go\<close>), the grammar of names and versions and the install plans of apt, dnf
  and pacman (\<open>ids.go\<close>), the id forms (\<open>apt_parse.go\<close>, \<open>dnf_parse.go\<close>), and the checks before an
  install (\<open>self.go\<close>).

  Errors are values of \<open>patch_error\<close> in place of their text. A Go map is an association list in
  the order of insertion; what is proved of a loop over one does not depend on the order. A text
  is a list of bytes: the loops over runes reject every byte above 127, which the grammar does too.
\<close>

section \<open>Updates and results\<close>

abbreviation (input) "KindSecurity \<equiv> ''security''"
abbreviation (input) "KindFeature \<equiv> ''feature''"
abbreviation (input) "KindDefinition \<equiv> ''definition''"
abbreviation (input) "KindOther \<equiv> ''other''"
abbreviation (input) "SeverityCritical \<equiv> ''critical''"
abbreviation (input) "SeverityImportant \<equiv> ''important''"
abbreviation (input) "SeverityModerate \<equiv> ''moderate''"
abbreviation (input) "SeverityLow \<equiv> ''low''"
abbreviation (input) "SeverityUnknown \<equiv> ''unknown''"

record update =
  up_ID :: string
  up_Title :: string
  up_Kind :: string
  up_KBIDs :: "string list"
  up_Severity :: string
  up_SizeBytes :: int
  up_RebootLikely :: bool
  up_Unsupported :: bool
  up_Detail :: string

definition mkUpdate :: "string \<Rightarrow> string \<Rightarrow> string \<Rightarrow> string \<Rightarrow> bool \<Rightarrow> update" where
  "mkUpdate uid title kind severity reboot =
     \<lparr>up_ID = uid, up_Title = title, up_Kind = kind, up_KBIDs = [], up_Severity = severity,
      up_SizeBytes = 0, up_RebootLikely = reboot, up_Unsupported = False, up_Detail = []\<rparr>"

text \<open>The error of a command or of a context, as \<open>errors.Is\<close> tells it apart.\<close>

datatype cmd_err = DeadlineExceeded | Canceled | OtherErr string

datatype patch_error =
    BadForm string
  | NameEmpty
  | NameTooLong nat
  | NameStart string
  | NameByte string char
  | VersionEmpty
  | VersionTooLong nat
  | VersionDash string
  | VersionByte string char
  | NotOffered string
  | SelfPackage string
  | TimeoutTooShort int
  | Busy
  | CmdError cmd_err
  | CmdExit int string
  | LockHeld string
  | CtxDone cmd_err
  | ScanFailed patch_error
  | WrongVersion string string
  | NotOnDisk patch_error string
  | NotInstalled string
  | Refused string
  | OutcomeUnknown

record pkg_result =
  pr_Installed :: "string list"
  pr_Failed :: "(string \<times> patch_error) list"
  pr_RebootRequired :: bool

definition newInstallResult :: pkg_result where
  "newInstallResult = \<lparr>pr_Installed = [], pr_Failed = [], pr_RebootRequired = False\<rparr>"

definition failID :: "string \<Rightarrow> patch_error \<Rightarrow> pkg_result \<Rightarrow> pkg_result" where
  "failID uid e res =
     (if map_of (pr_Failed res) uid \<noteq> None then res
      else res\<lparr>pr_Failed := pr_Failed res @ [(uid, e)]\<rparr>)"

fun dedupeFrom :: "string list \<Rightarrow> string list \<Rightarrow> string list" where
  "dedupeFrom seen [] = []"
| "dedupeFrom seen (uid # ids) =
     (if uid = [] \<or> uid \<in> set seen then dedupeFrom seen ids
      else uid # dedupeFrom (uid # seen) ids)"

definition dedupeIDs :: "string list \<Rightarrow> string list" where
  "dedupeIDs ids = dedupeFrom [] ids"

section \<open>Names and versions\<close>

definition maxPkgTokenLen :: nat where
  "maxPkgTokenLen = 256"

definition nameAlnum :: "bool \<Rightarrow> char \<Rightarrow> bool" where
  "nameAlnum allowUpper c \<longleftrightarrow> isLower c \<or> isDigit c \<or> (allowUpper \<and> isUpper c)"

definition nameRest :: "bool \<Rightarrow> char \<Rightarrow> bool" where
  "nameRest allowUpper c \<longleftrightarrow> nameAlnum allowUpper c \<or>
     c \<in> {CHR ''@'', CHR ''.'', CHR ''_'', CHR ''+'', CHR ''-''}"

definition checkPkgName :: "string \<Rightarrow> bool \<Rightarrow> patch_error option" where
  "checkPkgName name allowUpper =
     (case name of
        [] \<Rightarrow> Some NameEmpty
      | c # cs \<Rightarrow>
          if length name > maxPkgTokenLen then Some (NameTooLong (length name))
          else if \<not> nameAlnum allowUpper c then Some (NameStart name)
          else map_option (NameByte name) (find (\<lambda>r. \<not> nameRest allowUpper r) cs))"

definition versionByte :: "char \<Rightarrow> bool" where
  "versionByte c \<longleftrightarrow> isAlnum c \<or>
     c \<in> {CHR ''.'', CHR '':'', CHR ''+'', CHR ''~'', CHR ''^'', CHR ''_'', CHR ''-''}"

definition checkPkgVersion :: "string \<Rightarrow> patch_error option" where
  "checkPkgVersion version =
     (if version = [] then Some VersionEmpty
      else if length version > maxPkgTokenLen then Some (VersionTooLong (length version))
      else if hd version = CHR ''-'' then Some (VersionDash version)
      else map_option (VersionByte version) (find (\<lambda>r. \<not> versionByte r) version))"

section \<open>The forms of an id\<close>

definition splitPkgVersionID :: "string \<Rightarrow> (string \<times> string) option" where
  "splitPkgVersionID uid =
     (case cutOn CHR ''='' uid of
        None \<Rightarrow> None
      | Some (name, version) \<Rightarrow> if name = [] \<or> version = [] then None else Some (name, version))"

definition dnfArches :: "string list" where
  "dnfArches = [''x86_64'', ''i686'', ''i386'', ''noarch'', ''aarch64'', ''armv7hl'', ''armv6hl'',
     ''ppc64le'', ''ppc64'', ''s390x'', ''riscv64'', ''src'']"

text \<open>\<open>strings.LastIndex\<close> with the parts on both sides of it.\<close>

definition cutLast :: "char \<Rightarrow> string \<Rightarrow> (string \<times> string) option" where
  "cutLast c s = map_option (\<lambda>(after, before). (rev before, rev after)) (cutOn c (rev s))"

definition splitNameArch :: "string \<Rightarrow> string \<times> string" where
  "splitNameArch token =
     (case cutLast CHR ''.'' token of
        None \<Rightarrow> (token, [])
      | Some (before, candidate) \<Rightarrow> if candidate \<in> set dnfArches then (before, candidate) else (token, []))"

record dnfEntry =
  de_Name :: string
  de_Arch :: string
  de_EVR :: string
  de_Repo :: string

definition nvra :: "dnfEntry \<Rightarrow> string" where
  "nvra e =
     (if de_Arch e = [] then de_Name e @ ''-'' @ de_EVR e
      else de_Name e @ ''-'' @ de_EVR e @ ''.'' @ de_Arch e)"

definition dnfID :: "dnfEntry \<Rightarrow> string" where
  "dnfID e =
     (if de_Arch e = [] then de_Name e @ ''='' @ de_EVR e
      else de_Name e @ ''.'' @ de_Arch e @ ''='' @ de_EVR e)"

definition dnfInstallSpec :: "string \<Rightarrow> patch_error + string" where
  "dnfInstallSpec uid =
     (case splitPkgVersionID uid of
        None \<Rightarrow> Inl (BadForm uid)
      | Some (left, evr) \<Rightarrow>
          (let (name, arch) = splitNameArch left
           in Inr (nvra \<lparr>de_Name = name, de_Arch = arch, de_EVR = evr, de_Repo = []\<rparr>)))"

section \<open>Install plans\<close>

definition offeredIDs :: "update list \<Rightarrow> string list" where
  "offeredIDs updates = map up_ID updates"

definition pacmanOfferedNames :: "update list \<Rightarrow> string list" where
  "pacmanOfferedNames updates = map fst (List.map_filter (splitPkgVersionID \<circ> up_ID) updates)"

text \<open>
  Each plan checks one id after the other. \<open>aptCheck\<close>, \<open>dnfCheck\<close> and \<open>pacmanCheck\<close> are the
  conditions of the three loops in their order; a refused id is recorded with its reason.
\<close>

definition aptCheck :: "string list \<Rightarrow> string \<Rightarrow> patch_error + (string \<times> string)" where
  "aptCheck offered uid =
     (case splitPkgVersionID uid of
        None \<Rightarrow> Inl (BadForm uid)
      | Some (name, version) \<Rightarrow>
          (case checkPkgName name False of
             Some e \<Rightarrow> Inl e
           | None \<Rightarrow>
               (case checkPkgVersion version of
                  Some e \<Rightarrow> Inl e
                | None \<Rightarrow> if uid \<notin> set offered then Inl (NotOffered uid) else Inr (name, version))))"

record apt_plan =
  ap_specs :: "string list"
  ap_want :: "(string \<times> string) list"
  ap_idByName :: "(string \<times> string) list"

definition aptKeep :: "string \<Rightarrow> string \<times> string \<Rightarrow> apt_plan \<Rightarrow> apt_plan" where
  "aptKeep uid nv p =
     p\<lparr>ap_specs := ap_specs p @ [fst nv @ ''='' @ snd nv],
       ap_want := AList.update (fst nv) (snd nv) (ap_want p),
       ap_idByName := AList.update (fst nv) uid (ap_idByName p)\<rparr>"

definition dnfCheck :: "string list \<Rightarrow> string \<Rightarrow> patch_error + string" where
  "dnfCheck offered uid =
     (case splitPkgVersionID uid of
        None \<Rightarrow> Inl (BadForm uid)
      | Some (left, evr) \<Rightarrow>
          (case checkPkgName (fst (splitNameArch left)) True of
             Some e \<Rightarrow> Inl e
           | None \<Rightarrow>
               (case checkPkgVersion evr of
                  Some e \<Rightarrow> Inl e
                | None \<Rightarrow> if uid \<notin> set offered then Inl (NotOffered uid) else dnfInstallSpec uid)))"

record dnf_plan =
  dp_specs :: "string list"
  dp_idBySpec :: "(string \<times> string) list"

definition dnfKeep :: "string \<Rightarrow> string \<Rightarrow> dnf_plan \<Rightarrow> dnf_plan" where
  "dnfKeep uid spec p =
     p\<lparr>dp_specs := dp_specs p @ [spec], dp_idBySpec := AList.update spec uid (dp_idBySpec p)\<rparr>"

definition pacmanCheck :: "string list \<Rightarrow> string \<Rightarrow> patch_error + string" where
  "pacmanCheck offeredNames uid =
     (case splitPkgVersionID uid of
        None \<Rightarrow> Inl (BadForm uid)
      | Some (name, version) \<Rightarrow>
          (case checkPkgName name False of
             Some e \<Rightarrow> Inl e
           | None \<Rightarrow>
               (case checkPkgVersion version of
                  Some e \<Rightarrow> Inl e
                | None \<Rightarrow> if name \<notin> set offeredNames then Inl (NotOffered name) else Inr name)))"

record pacman_plan =
  pp_names :: "string list"
  pp_idByName :: "(string \<times> string) list"

definition pacmanKeep :: "string \<Rightarrow> string \<Rightarrow> pacman_plan \<Rightarrow> pacman_plan" where
  "pacmanKeep uid name p =
     (if map_of (pp_idByName p) name \<noteq> None then p
      else p\<lparr>pp_names := pp_names p @ [name], pp_idByName := AList.update name uid (pp_idByName p)\<rparr>)"

text \<open>The loop over the requested ids.\<close>

fun planLoop ::
  "(string \<Rightarrow> patch_error + 'a) \<Rightarrow> (string \<Rightarrow> 'a \<Rightarrow> 'p \<Rightarrow> 'p) \<Rightarrow> string list \<Rightarrow> 'p \<times> pkg_result \<Rightarrow> 'p \<times> pkg_result" where
  "planLoop check keep [] pr = pr"
| "planLoop check keep (uid # ids) (p, res) =
     (case check uid of
        Inl e \<Rightarrow> planLoop check keep ids (p, failID uid e res)
      | Inr a \<Rightarrow> planLoop check keep ids (keep uid a p, res))"

definition aptInstallPlan :: "string list \<Rightarrow> string list \<Rightarrow> pkg_result \<Rightarrow> apt_plan \<times> pkg_result" where
  "aptInstallPlan ids offered res =
     planLoop (aptCheck offered) aptKeep ids (\<lparr>ap_specs = [], ap_want = [], ap_idByName = []\<rparr>, res)"

definition dnfInstallPlan :: "string list \<Rightarrow> string list \<Rightarrow> pkg_result \<Rightarrow> dnf_plan \<times> pkg_result" where
  "dnfInstallPlan ids offered res =
     planLoop (dnfCheck offered) dnfKeep ids (\<lparr>dp_specs = [], dp_idBySpec = []\<rparr>, res)"

definition pacmanInstallPlan :: "string list \<Rightarrow> string list \<Rightarrow> pkg_result \<Rightarrow> pacman_plan \<times> pkg_result" where
  "pacmanInstallPlan ids offeredNames res =
     planLoop (pacmanCheck offeredNames) pacmanKeep ids (\<lparr>pp_names = [], pp_idByName = []\<rparr>, res)"

section \<open>Before an install\<close>

definition MinInstallTimeout :: duration where
  "MinInstallTimeout = 30 * 60 * second"

definition selfPackageNames :: "string list" where
  "selfPackageNames = [''everwas-agent'', ''everwas'']"

definition packageNameOf :: "string \<Rightarrow> string" where
  "packageNameOf id0 =
     (let uid = trimSpace id0
      in if uid = [] then []
         else let left = (case cutOn CHR ''='' uid of Some (l, _) \<Rightarrow> l | None \<Rightarrow> uid);
                  name = fst (splitNameArch left)
              in trimSpace (if name \<noteq> [] then name else left))"

definition isSelfPackage :: "string \<Rightarrow> bool" where
  "isSelfPackage uid \<longleftrightarrow> packageNameOf uid \<noteq> [] \<and> toLower (packageNameOf uid) \<in> set selfPackageNames"

fun refuseSelfPackages :: "string list \<Rightarrow> pkg_result \<Rightarrow> string list \<times> pkg_result" where
  "refuseSelfPackages [] res = ([], res)"
| "refuseSelfPackages (uid # ids) res =
     (if isSelfPackage uid then refuseSelfPackages ids (failID uid (SelfPackage uid) res)
      else let (out, res1) = refuseSelfPackages ids res in (uid # out, res1))"

text \<open>\<open>checkInstallDeadline\<close> with the time left before the deadline, if there is one.\<close>

definition checkInstallDeadline :: "duration option \<Rightarrow> patch_error option" where
  "checkInstallDeadline left =
     (case left of
        None \<Rightarrow> None
      | Some remaining \<Rightarrow> if remaining < MinInstallTimeout then Some (TimeoutTooShort remaining) else None)"

definition prepareInstall ::
  "duration option \<Rightarrow> string list \<Rightarrow> pkg_result \<Rightarrow> (patch_error + string list) \<times> pkg_result" where
  "prepareInstall left ids res =
     (case checkInstallDeadline left of
        Some e \<Rightarrow> (Inl e, fold (\<lambda>uid. failID uid e) ids res)
      | None \<Rightarrow> (let (out, res1) = refuseSelfPackages ids res in (Inr out, res1)))"

section \<open>What the checks accept\<close>

lemma find_None_iff_all: "find P xs = None \<longleftrightarrow> list_all (\<lambda>x. \<not> P x) xs"
  by (auto simp: find_None_iff list_all_iff)

lemma checkPkgName_None:
  "checkPkgName name upper = None \<longleftrightarrow>
     name \<noteq> [] \<and> length name \<le> 256 \<and> nameAlnum upper (hd name) \<and> list_all (nameRest upper) (tl name)"
  by (cases name) (auto simp: checkPkgName_def maxPkgTokenLen_def find_None_iff_all)

lemma checkPkgVersion_None:
  "checkPkgVersion v = None \<longleftrightarrow> v \<noteq> [] \<and> length v \<le> 256 \<and> hd v \<noteq> CHR ''-'' \<and> list_all versionByte v"
  by (auto simp: checkPkgVersion_def maxPkgTokenLen_def find_None_iff_all)

text \<open>A word a package manager can only read as a package, never as an option or a second word.\<close>

definition plainByte :: "char \<Rightarrow> bool" where
  "plainByte c \<longleftrightarrow> \<not> isSpace c \<and> c \<notin> {CHR ''/'', CHR ''*'', CHR '';''}"

definition plainArg :: "string \<Rightarrow> bool" where
  "plainArg s \<longleftrightarrow> s \<noteq> [] \<and> isAlnum (hd s) \<and> list_all plainByte s"

lemma plainByte_simps [simp]: "plainByte CHR ''='' " "plainByte CHR ''-''" "plainByte CHR ''.''"
  by (simp_all add: plainByte_def isSpace_def)

lemma nameRest_plain: "nameRest upper c \<Longrightarrow> plainByte c \<and> c \<noteq> CHR ''=''"
  by (auto simp: plainByte_def nameRest_def nameAlnum_def char_class_defs)

lemma nameAlnum_rest: "nameAlnum upper c \<Longrightarrow> nameRest upper c \<and> isAlnum c"
  by (auto simp: nameRest_def nameAlnum_def isAlnum_def)

lemma versionByte_plain: "versionByte c \<Longrightarrow> plainByte c"
  by (auto simp: plainByte_def versionByte_def char_class_defs)

lemma name_plain:
  assumes "checkPkgName name upper = None"
  shows "plainArg name" and "list_all (nameRest upper) name" and "CHR ''='' \<notin> set name"
proof -
  from assms obtain c cs where n: "name = c # cs" and c: "nameAlnum upper c" and cs: "list_all (nameRest upper) cs"
    by (cases name) (auto simp: checkPkgName_None)
  show r: "list_all (nameRest upper) name" using n c cs nameAlnum_rest by simp
  then have "list_all plainByte name" by (rule list.pred_mono_strong) (simp add: nameRest_plain)
  then show "plainArg name" using n c nameAlnum_rest by (simp add: plainArg_def)
  from r have "list_all (\<lambda>c. c \<noteq> CHR ''='') name" by (rule list.pred_mono_strong) (simp add: nameRest_plain)
  then show "CHR ''='' \<notin> set name" by (auto simp: list_all_iff)
qed

lemma plainArg_append: "plainArg s \<Longrightarrow> list_all plainByte t \<Longrightarrow> plainArg (s @ t)"
  by (simp add: plainArg_def)

lemma version_bytes: "checkPkgVersion v = None \<Longrightarrow> list_all plainByte v"
  using versionByte_plain list.pred_mono_strong by (metis checkPkgVersion_None)

lemma splitPkgVersionID_Some:
  "splitPkgVersionID uid = Some (n, v) \<longleftrightarrow> uid = n @ CHR ''='' # v \<and> n \<noteq> [] \<and> v \<noteq> [] \<and> CHR ''='' \<notin> set n"
proof
  assume "splitPkgVersionID uid = Some (n, v)"
  then have "cutOn CHR ''='' uid = Some (n, v)" "n \<noteq> []" "v \<noteq> []"
    by (auto simp: splitPkgVersionID_def split: option.splits if_splits)
  then show "uid = n @ CHR ''='' # v \<and> n \<noteq> [] \<and> v \<noteq> [] \<and> CHR ''='' \<notin> set n" using cutOn_Some by blast
next
  assume "uid = n @ CHR ''='' # v \<and> n \<noteq> [] \<and> v \<noteq> [] \<and> CHR ''='' \<notin> set n"
  then show "splitPkgVersionID uid = Some (n, v)" by (simp add: splitPkgVersionID_def cutOn_intro)
qed

lemma aptCheck_Inr:
  "aptCheck offered uid = Inr (n, v) \<longleftrightarrow>
     splitPkgVersionID uid = Some (n, v) \<and> checkPkgName n False = None \<and> checkPkgVersion v = None \<and> uid \<in> set offered"
  by (auto simp: aptCheck_def split: option.splits)

text \<open>
  An id with the architecture that a scan adds to the name of a foreign package is never accepted:
  the colon is not in the grammar of names.
\<close>

lemma multiarch_refused:
  assumes "splitPkgVersionID uid = Some (n, v)" and "CHR '':'' \<in> set n"
  shows "\<exists>e. aptCheck offered uid = Inl e"
proof -
  have "checkPkgName n False \<noteq> None"
  proof
    assume "checkPkgName n False = None"
    then have "list_all (nameRest False) n" by (rule name_plain(2))
    then show False using assms(2) by (auto simp: list_all_iff nameRest_def nameAlnum_def char_class_defs)
  qed
  then show ?thesis using assms(1) by (auto simp: aptCheck_def)
qed

lemma pacmanCheck_Inr:
  "pacmanCheck offered uid = Inr n \<Longrightarrow>
     \<exists>v. splitPkgVersionID uid = Some (n, v) \<and> checkPkgName n False = None \<and> n \<in> set offered"
  by (auto simp: pacmanCheck_def split: option.splits prod.splits if_splits)

lemma dnfArches_plain: "a \<in> set dnfArches \<Longrightarrow> list_all plainByte a"
  by (auto simp: dnfArches_def plainByte_def isSpace_def)

lemma splitNameArch_arch: "splitNameArch t = (n, a) \<Longrightarrow> a = [] \<and> n = t \<or> a \<in> set dnfArches"
  by (auto simp: splitNameArch_def split: option.splits prod.splits if_splits)

lemma dnfCheck_Inr:
  assumes "dnfCheck offered uid = Inr spec"
  shows "uid \<in> set offered" and "dnfInstallSpec uid = Inr spec" and "plainArg spec"
    and "\<exists>left evr. splitPkgVersionID uid = Some (left, evr) \<and> checkPkgName (fst (splitNameArch left)) True = None"
proof -
  from assms obtain left evr where s: "splitPkgVersionID uid = Some (left, evr)"
    and n: "checkPkgName (fst (splitNameArch left)) True = None" and v: "checkPkgVersion evr = None"
    and i: "uid \<in> set offered" "dnfInstallSpec uid = Inr spec"
    by (auto simp: dnfCheck_def split: option.splits prod.splits if_splits)
  obtain name arch where na: "splitNameArch left = (name, arch)" by fastforce
  have "plainArg (name @ ''-'' @ evr)"
    using name_plain(1) n version_bytes [OF v] na
    by (intro plainArg_append) auto
  moreover have "arch = [] \<or> list_all plainByte arch"
    using splitNameArch_arch [OF na] dnfArches_plain by blast
  ultimately show "plainArg spec"
    using i(2) s na plainArg_append [of "name @ ''-'' @ evr" "''.'' @ arch"]
    by (auto simp: dnfInstallSpec_def nvra_def split: if_splits)
  show "uid \<in> set offered" "dnfInstallSpec uid = Inr spec" using i by simp_all
  show "\<exists>left evr. splitPkgVersionID uid = Some (left, evr) \<and> checkPkgName (fst (splitNameArch left)) True = None"
    using s n by blast
qed

section \<open>The plan of an install\<close>

lemma failID_dom [simp]: "fst ` set (pr_Failed (failID uid e res)) = insert uid (fst ` set (pr_Failed res))"
  by (auto simp: failID_def map_of_eq_None_iff image_iff)

lemma failID_installed [simp]:
  "pr_Installed (failID uid e res) = pr_Installed res" "pr_RebootRequired (failID uid e res) = pr_RebootRequired res"
  by (simp_all add: failID_def)

text \<open>
  What the install of a backend relies on in its plan: the words for the package manager are plain,
  and an id whose key is new is filed under that key.
\<close>

locale install_planner =
  fixes check :: "string \<Rightarrow> patch_error + 'a"
    and keep :: "string \<Rightarrow> 'a \<Rightarrow> 'p \<Rightarrow> 'p"
    and words :: "'p \<Rightarrow> string list"
    and filed :: "'p \<Rightarrow> (string \<times> string) list"
    and word :: "'a \<Rightarrow> string"
    and key :: "'a \<Rightarrow> string"
  assumes words_keep: "set (words (keep uid a p)) \<subseteq> insert (word a) (set (words p))"
    and word_plain: "check uid = Inr a \<Longrightarrow> plainArg (word a)"
    and filed_new: "key a \<notin> fst ` set (filed p) \<Longrightarrow> filed (keep uid a p) = filed p @ [(key a, uid)]"
    and words_filed: "words p = [] \<longleftrightarrow> filed p = [] \<Longrightarrow> words (keep uid a p) = [] \<longleftrightarrow> filed (keep uid a p) = []"
begin

lemma loop_words:
  "planLoop check keep ids (p, res) = (p', res') \<Longrightarrow> x \<in> set (words p') \<Longrightarrow>
   x \<in> set (words p) \<or> (\<exists>uid \<in> set ids. \<exists>a. check uid = Inr a \<and> x = word a)"
proof (induction ids arbitrary: p res)
  case (Cons uid ids)
  then show ?case using words_keep by (fastforce split: sum.splits)
qed simp

lemma loop_plain:
  assumes "planLoop check keep ids (p, res) = (p', res')" and "words p = []"
  shows "list_all plainArg (words p')"
  using loop_words [OF assms(1)] assms(2) word_plain by (fastforce simp: list_all_iff)

lemma loop_failed:
  "planLoop check keep ids (p, res) = (p', res') \<Longrightarrow>
   fst ` set (pr_Failed res') = fst ` set (pr_Failed res) \<union> {uid \<in> set ids. \<exists>e. check uid = Inl e} \<and>
   pr_Installed res' = pr_Installed res"
proof (induction ids arbitrary: p res)
  case (Cons uid ids)
  then show ?case by (auto split: sum.splits)
qed auto

text \<open>When the accepted ids have different keys, each is filed under its own.\<close>

lemma loop_filed:
  "planLoop check keep ids (p, res) = (p', res') \<Longrightarrow> distinct (map key (List.map_filter (\<lambda>uid. case check uid of Inr a \<Rightarrow> Some a | _ \<Rightarrow> None) ids)) \<Longrightarrow>
   fst ` set (filed p) \<inter> key ` {a. \<exists>uid \<in> set ids. check uid = Inr a} = {} \<Longrightarrow>
   filed p' = filed p @ List.map_filter (\<lambda>uid. case check uid of Inr a \<Rightarrow> Some (key a, uid) | _ \<Rightarrow> None) ids"
proof (induction ids arbitrary: p res)
  case (Cons uid ids)
  show ?case
  proof (cases "check uid")
    case (Inl e)
    then show ?thesis using Cons by (auto simp: List.map_filter_simps)
  next
    case (Inr a)
    have a: "key a \<notin> fst ` set (filed p)" using Cons.prems(3) Inr by fastforce
    have later: "key a \<noteq> key b" if "u \<in> set ids" "check u = Inr b" for u b
      using Cons.prems(2) Inr that by (force simp: List.map_filter_simps List.map_filter_def)
    have "filed p' = filed (keep uid a p) @ List.map_filter (\<lambda>uid. case check uid of Inr a \<Rightarrow> Some (key a, uid) | _ \<Rightarrow> None) ids"
      using Cons.prems Inr later filed_new [OF a]
      by (intro Cons.IH [of "keep uid a p" res]) (auto simp: List.map_filter_simps)
    then show ?thesis using Inr filed_new [OF a] by (simp add: List.map_filter_simps)
  qed
qed (simp add: List.map_filter_simps)

end

lemma update_new: "k \<notin> fst ` set al \<Longrightarrow> AList.update k v al = al @ [(k, v)]"
  by (induction al) auto

interpretation apt_planner: install_planner "aptCheck offered" aptKeep ap_specs ap_idByName
  "\<lambda>(n, v). n @ ''='' @ v" fst for offered
proof
  fix uid and a :: "string \<times> string" and p
  show "set (ap_specs (aptKeep uid a p)) \<subseteq> insert (case a of (n, v) \<Rightarrow> n @ ''='' @ v) (set (ap_specs p))"
    by (auto simp: aptKeep_def split: prod.splits)
  show "plainArg (case a of (n, v) \<Rightarrow> n @ ''='' @ v)" if "aptCheck offered uid = Inr a"
  proof -
    obtain n v where a: "a = (n, v)" by (cases a)
    have "checkPkgName n False = None" "checkPkgVersion v = None" using that a aptCheck_Inr by auto
    then show ?thesis using a name_plain(1) version_bytes by (auto intro!: plainArg_append)
  qed
  show "ap_idByName (aptKeep uid a p) = ap_idByName p @ [(fst a, uid)]" if "fst a \<notin> fst ` set (ap_idByName p)"
    using that by (simp add: aptKeep_def update_new)
  show "ap_specs (aptKeep uid a p) = [] \<longleftrightarrow> ap_idByName (aptKeep uid a p) = []"
    by (simp add: aptKeep_def update_nonempty)
qed

interpretation dnf_planner: install_planner "dnfCheck offered" dnfKeep dp_specs dp_idBySpec id id for offered
  using dnfCheck_Inr(3) by unfold_locales (auto simp: dnfKeep_def update_new update_nonempty)

interpretation pacman_planner: install_planner "pacmanCheck offered" pacmanKeep pp_names pp_idByName id id for offered
proof
  fix uid a p
  show "set (pp_names (pacmanKeep uid a p)) \<subseteq> insert (id a) (set (pp_names p))"
    by (auto simp: pacmanKeep_def)
  show "plainArg (id a)" if "pacmanCheck offered uid = Inr a"
    using pacmanCheck_Inr [OF that] name_plain(1) by auto
  show "pp_idByName (pacmanKeep uid a p) = pp_idByName p @ [(id a, uid)]" if "id a \<notin> fst ` set (pp_idByName p)"
    using that by (simp add: pacmanKeep_def update_new map_of_eq_None_iff)
  show "pp_names (pacmanKeep uid a p) = [] \<longleftrightarrow> pp_idByName (pacmanKeep uid a p) = []" if "pp_names p = [] \<longleftrightarrow> pp_idByName p = []"
    using that by (simp add: pacmanKeep_def update_nonempty)
qed

section \<open>The agent's own package\<close>

lemma refuseSelf_out:
  "refuseSelfPackages ids res = (out, res') \<Longrightarrow> out = filter (\<lambda>i. \<not> isSelfPackage i) ids \<and>
   fst ` set (pr_Failed res') = fst ` set (pr_Failed res) \<union> {i \<in> set ids. isSelfPackage i} \<and>
   pr_Installed res' = pr_Installed res"
proof (induction ids arbitrary: res out)
  case (Cons uid ids)
  then show ?case by (auto split: if_splits prod.splits)
qed auto

lemma toLower_id: "list_all (\<lambda>c. \<not> isUpper c) s \<Longrightarrow> toLower s = s"
  by (induction s) (auto simp: toLower_def lowerChar_def)

lemma packageNameOf_plain:
  assumes "splitPkgVersionID uid = Some (n, v)" and "plainArg n" and "fst (splitNameArch n) \<noteq> []"
    and "plainArg (fst (splitNameArch n))" and "v = [] \<or> \<not> isSpace (last v)"
  shows "packageNameOf uid = fst (splitNameArch n)"
proof -
  have uid: "uid = n @ CHR ''='' # v" "n \<noteq> []" "v \<noteq> []" "CHR ''='' \<notin> set n" using assms(1) by (auto simp: splitPkgVersionID_Some)
  have "\<not> isSpace (hd n)" using assms(2) by (cases n) (auto simp: plainArg_def plainByte_def)
  then have t: "trimSpace uid = uid" using uid assms(5) by (intro trimBy_id) (auto simp: hd_append)
  have "\<not> isSpace c" if "c \<in> set (fst (splitNameArch n))" for c
    using assms(4) that by (auto simp: plainArg_def plainByte_def list_all_iff)
  then have "trimSpace (fst (splitNameArch n)) = fst (splitNameArch n)"
    using assms(3) by (intro trimBy_id) auto
  then show ?thesis using t uid assms(3) cutOn_intro [of "CHR ''=''" n v] by (simp add: packageNameOf_def Let_def)
qed

lemma version_last: "checkPkgVersion v = None \<Longrightarrow> \<not> isSpace (last v)"
  using version_bytes [of v] by (auto simp: checkPkgVersion_None list_all_iff plainByte_def)

end
