(* ===== verification/Patch_Parse.thy ===== *)
theory Patch_Parse
  imports Patch_Ids
begin

text \<open>
  Reading the output of the package managers: \<open>agent/internal/patch/apt_parse.go\<close>,
  \<open>dnf_parse.go\<close> and \<open>pacman_parse.go\<close>.
\<close>

section \<open>Text\<close>

text \<open>\<open>strings.Lines\<close>, without the line ends, which every caller trims.\<close>

definition linesOf :: "string \<Rightarrow> string list" where
  "linesOf s = (let ls = splitOn CHR 0x0A s in if last ls = [] then butlast ls else ls)"

fun fieldsFrom :: "string \<Rightarrow> string \<Rightarrow> string list" where
  "fieldsFrom w [] = (if w = [] then [] else [w])"
| "fieldsFrom w (c # cs) =
     (if isSpace c then (if w = [] then fieldsFrom [] cs else w # fieldsFrom [] cs)
      else fieldsFrom (w @ [c]) cs)"

definition fieldsOf :: "string \<Rightarrow> string list" where
  "fieldsOf s = fieldsFrom [] s"

definition trimEOL :: "string \<Rightarrow> string" where
  "trimEOL s = trimRightBy (\<lambda>c. c = CHR 0x0D \<or> c = CHR 0x0A) s"

section \<open>apt\<close>

record aptInst =
  ai_Name :: string
  ai_OldVersion :: string
  ai_NewVersion :: string
  ai_Origins :: string
  ai_Arch :: string

text \<open>The three stages of \<open>parseAptInstLine\<close> after the name: old version, candidate, architecture.\<close>

definition aptOld :: "string \<Rightarrow> (string \<times> string) option" where
  "aptOld rest =
     (if hasPrefix rest ''['' then
        (case cutOn CHR '']'' (tl rest) of
           None \<Rightarrow> None
         | Some (old, after) \<Rightarrow> Some (trimSpace old, trimSpace after))
      else Some ([], rest))"

definition aptCandidate :: "string \<Rightarrow> (string \<times> string) option" where
  "aptCandidate rest =
     (case cutOn CHR ''('' rest of
        None \<Rightarrow> None
      | Some (_, inner) \<Rightarrow>
          (case cutLast CHR '')'' inner of
             None \<Rightarrow> None
           | Some (body, _) \<Rightarrow>
               (case cutOn CHR '' '' (trimSpace body) of
                  None \<Rightarrow> None
                | Some (version, after) \<Rightarrow> if version = [] then None else Some (version, trimSpace after))))"

definition aptArch :: "string \<Rightarrow> string \<times> string" where
  "aptArch after =
     (case cutLast CHR ''['' after of
        None \<Rightarrow> (trimSpace after, [])
      | Some (before, arch) \<Rightarrow> (trimSpace before, trimSpace (trimSuffix '']'' (trimSpace arch))))"

definition parseAptInstLine :: "string \<Rightarrow> aptInst option" where
  "parseAptInstLine line =
     (case cutPrefix ''Inst '' (trimSpace line) of
        None \<Rightarrow> None
      | Some rest \<Rightarrow>
          (case cutOn CHR '' '' (trimSpace rest) of
             None \<Rightarrow> None
           | Some (name, rest1) \<Rightarrow>
               if name = [] then None
               else (case aptOld (trimSpace rest1) of
                       None \<Rightarrow> None
                     | Some (old, rest2) \<Rightarrow>
                         (case aptCandidate rest2 of
                            None \<Rightarrow> None
                          | Some (version, after) \<Rightarrow>
                              (let (origins, arch) = aptArch after
                               in Some \<lparr>ai_Name = name, ai_OldVersion = old, ai_NewVersion = version,
                                        ai_Origins = origins, ai_Arch = arch\<rparr>)))))"

definition aptIsSecurityOrigin :: "string \<Rightarrow> bool" where
  "aptIsSecurityOrigin origins \<longleftrightarrow> containsSub (toLower origins) ''-security''"

definition aptRebootPrefixes :: "string list" where
  "aptRebootPrefixes = [''linux-image'', ''linux-generic'', ''linux-modules'', ''linux-headers'',
     ''linux-aws'', ''linux-azure'', ''linux-gcp'', ''linux-oracle'', ''linux-kvm'',
     ''linux-firmware'', ''linux-lowlatency'']"

definition aptRebootNames :: "string list" where
  "aptRebootNames = [''libc6'', ''libc-bin'', ''systemd'', ''udev'', ''dbus'', ''grub-common'', ''grub-pc'',
     ''grub-efi-amd64'', ''xserver-xorg-core'']"

definition aptRebootLikely :: "string \<Rightarrow> bool" where
  "aptRebootLikely name \<longleftrightarrow>
     (let base = (case cutOn CHR '':'' name of Some (b, _) \<Rightarrow> b | None \<Rightarrow> name)
      in base \<in> set aptRebootNames \<or> list_ex (hasPrefix base) aptRebootPrefixes)"

definition aptUpdate :: "aptInst \<Rightarrow> update" where
  "aptUpdate i =
     mkUpdate (ai_Name i @ ''='' @ ai_NewVersion i)
       (if ai_OldVersion i \<noteq> [] then ai_Name i @ '' '' @ ai_OldVersion i @ '' to '' @ ai_NewVersion i
        else ai_Name i @ '' '' @ ai_NewVersion i)
       (if aptIsSecurityOrigin (ai_Origins i) then KindSecurity else KindOther)
       SeverityUnknown (aptRebootLikely (ai_Name i))"

definition parseAptSimulate :: "string \<Rightarrow> update list" where
  "parseAptSimulate out = map aptUpdate (List.map_filter parseAptInstLine (linesOf out))"

definition aptTransientMarkers :: "string list" where
  "aptTransientMarkers = [''temporary failure resolving'', ''could not connect'', ''connection timed out'',
     ''connection failed'', ''failed to fetch'', ''hash sum mismatch'', ''file has unexpected size'',
     ''unable to connect'', ''503 service unavailable'', ''502 bad gateway'', ''could not resolve'']"

definition aptIsTransientUpdateError :: "string \<Rightarrow> bool" where
  "aptIsTransientUpdateError t \<longleftrightarrow> list_ex (containsSub (toLower t)) aptTransientMarkers"

definition aptLockMarkers :: "string list" where
  "aptLockMarkers = [''could not get lock'', ''unable to acquire the dpkg frontend lock'', ''dpkg frontend lock'',
     ''resource temporarily unavailable'', ''unable to lock the administration directory'',
     ''another process is using it'', ''is another process using it'']"

definition aptIsLockContention :: "string \<Rightarrow> bool" where
  "aptIsLockContention t \<longleftrightarrow> list_ex (containsSub (toLower t)) aptLockMarkers"

definition dpkgLine :: "string \<Rightarrow> (string \<times> string) list \<Rightarrow> (string \<times> string) list" where
  "dpkgLine line m =
     (case cutOn CHR 0x09 (trimEOL line) of
        None \<Rightarrow> m
      | Some (name, version) \<Rightarrow> if name = [] \<or> version = [] then m else AList.update name version m)"

definition parseDpkgVersions :: "string \<Rightarrow> (string \<times> string) list" where
  "parseDpkgVersions out = fold dpkgLine (linesOf out) []"

definition aptProgressPhase :: "string \<Rightarrow> string option" where
  "aptProgressPhase line =
     (if hasPrefix line ''Get:'' then Some ''download''
      else if hasPrefix line ''Unpacking '' \<or> hasPrefix line ''Preparing to unpack '' \<or> hasPrefix line ''Setting up ''
      then Some ''install'' else None)"

section \<open>dnf\<close>

definition dnfSkipPrefixes :: "string list" where
  "dnfSkipPrefixes = [''Last metadata expiration check'', ''Loaded plugins'', ''Dependencies resolved'', ''Security:'',
     ''Obsoleting Packages'', ''Updating Subscription Management'', ''Waiting for process with pid'']"

definition dnfSkipLine :: "string \<Rightarrow> bool" where
  "dnfSkipLine line \<longleftrightarrow> list_ex (hasPrefix line) dnfSkipPrefixes"

definition dnfEntryOf :: "string \<Rightarrow> string \<Rightarrow> string \<Rightarrow> dnfEntry" where
  "dnfEntryOf token evr repo =
     (let (name, arch) = splitNameArch token
      in \<lparr>de_Name = name, de_Arch = arch, de_EVR = evr, de_Repo = repo\<rparr>)"

text \<open>The loop of \<open>parseDNFCheckUpdate\<close>, with the name that waits for its other columns.\<close>

fun dnfLoop :: "string \<Rightarrow> string list \<Rightarrow> dnfEntry list" where
  "dnfLoop waiting [] = []"
| "dnfLoop waiting (raw # ls) =
     (let trimmed = trimSpace raw; fs = fieldsOf trimmed
      in if trimmed = [] then dnfLoop [] ls
         else if hasPrefix trimmed ''Obsoleting Packages'' then []
         else if dnfSkipLine trimmed then dnfLoop [] ls
         else if waiting \<noteq> [] \<and> length fs = 2 then dnfEntryOf waiting (fs ! 0) (fs ! 1) # dnfLoop [] ls
         else if length fs = 1 then
           dnfLoop (if containsSub (fs ! 0) ''.'' \<or> containsSub (fs ! 0) ''-'' then fs ! 0 else waiting) ls
         else if 3 \<le> length fs then dnfEntryOf (fs ! 0) (fs ! 1) (fs ! 2) # dnfLoop [] ls
         else dnfLoop [] ls)"

definition parseDNFCheckUpdate :: "string \<Rightarrow> dnfEntry list" where
  "parseDNFCheckUpdate out = dnfLoop [] (linesOf out)"

record dnfAdvisory =
  da_Severity :: string
  da_Security :: bool

definition dnfSeverityTokens :: "string list" where
  "dnfSeverityTokens = [SeverityCritical, SeverityImportant, SeverityModerate, SeverityLow]"

definition severityPart :: "string \<Rightarrow> string \<times> bool \<times> bool \<Rightarrow> string \<times> bool \<times> bool" where
  "severityPart part s =
     (let (severity, security, ok) = s;
          word = toLower (trimBy (\<lambda>c. c \<in> {CHR ''.'', CHR '','', CHR '':''}) part)
      in if word \<in> set dnfSeverityTokens then (word, security, True)
         else if word = ''sec'' \<or> word = ''security'' then (severity, True, True)
         else (severity, security, ok))"

definition dnfSeverityFromFields :: "string list \<Rightarrow> string \<times> bool \<times> bool" where
  "dnfSeverityFromFields fs =
     fold (\<lambda>f. fold severityPart (splitOn CHR ''/'' f)) fs (SeverityUnknown, False, False)"

definition severityRank :: "string \<Rightarrow> nat" where
  "severityRank s =
     (if s = SeverityCritical then 4 else if s = SeverityImportant then 3
      else if s = SeverityModerate then 2 else if s = SeverityLow then 1 else 0)"

text \<open>The package and the advisory of one line, if it is an advisory line.\<close>

definition advisoryLine :: "string \<Rightarrow> (string \<times> dnfAdvisory) option" where
  "advisoryLine raw =
     (let fs = fieldsOf (trimSpace raw)
      in if length fs < 2 then None
         else (case dnfSeverityFromFields (butlast fs) of
                 (severity, security, ok) \<Rightarrow>
                   if ok then Some (last fs, \<lparr>da_Severity = severity, da_Security = security\<rparr>) else None))"

definition mergeAdvisory :: "dnfAdvisory option \<Rightarrow> dnfAdvisory \<Rightarrow> dnfAdvisory" where
  "mergeAdvisory prior adv =
     (case prior of
        None \<Rightarrow> adv
      | Some p \<Rightarrow>
          \<lparr>da_Severity = (if severityRank (da_Severity p) \<ge> severityRank (da_Severity adv) then da_Severity p else da_Severity adv),
           da_Security = (da_Security p \<or> da_Security adv)\<rparr>)"

definition addAdvisory :: "string \<times> dnfAdvisory \<Rightarrow> (string \<times> dnfAdvisory) list \<Rightarrow> (string \<times> dnfAdvisory) list" where
  "addAdvisory pa m = AList.update (fst pa) (mergeAdvisory (map_of m (fst pa)) (snd pa)) m"

definition parseDNFUpdateinfo :: "string \<Rightarrow> (string \<times> dnfAdvisory) list" where
  "parseDNFUpdateinfo out = fold addAdvisory (List.map_filter advisoryLine (linesOf out)) []"

definition dnfRebootPrefixes :: "string list" where
  "dnfRebootPrefixes = [''kernel'', ''glibc'', ''systemd'', ''dbus'', ''linux-firmware'', ''microcode_ctl'',
     ''grub2'', ''shim'', ''openssl-libs'']"

definition dnfRebootLikely :: "string \<Rightarrow> bool" where
  "dnfRebootLikely name \<longleftrightarrow> list_ex (\<lambda>p. name = p \<or> hasPrefix name (p @ ''-'')) dnfRebootPrefixes"

definition stripZeroEpoch :: "string \<Rightarrow> string" where
  "stripZeroEpoch spec =
     (case cutSub ''-0:'' spec of None \<Rightarrow> spec | Some (name, rest) \<Rightarrow> name @ ''-'' @ rest)"

definition dnfPluginMissing :: "string \<Rightarrow> bool" where
  "dnfPluginMissing t \<longleftrightarrow>
     list_ex (containsSub (toLower t)) [''no such command'', ''unknown command'', ''command not found'']"

definition dnfUpdate :: "(string \<times> dnfAdvisory) list \<Rightarrow> dnfEntry \<Rightarrow> update" where
  "dnfUpdate advisories e =
     (let u = mkUpdate (dnfID e) (nvra e) KindOther SeverityUnknown (dnfRebootLikely (de_Name e))
      in case map_of advisories (nvra e) of
           None \<Rightarrow> u
         | Some adv \<Rightarrow>
             u\<lparr>up_Severity := da_Severity adv, up_Kind := (if da_Security adv then KindSecurity else up_Kind u)\<rparr>)"

definition dnfUpdates :: "dnfEntry list \<Rightarrow> (string \<times> dnfAdvisory) list \<Rightarrow> update list" where
  "dnfUpdates entries advisories = map (dnfUpdate advisories) entries"

definition dnfProgressPhase :: "string \<Rightarrow> string option" where
  "dnfProgressPhase line =
     (let trimmed = trimSpace line
      in if hasPrefix trimmed ''Downloading Packages'' \<or> hasPrefix trimmed ''Downloading'' then Some ''download''
         else if hasPrefix trimmed ''Installing '' \<or> hasPrefix trimmed ''Upgrading '' \<or>
           hasPrefix trimmed ''Verifying  '' \<or> hasPrefix trimmed ''Running scriptlet''
         then Some ''install'' else None)"

section \<open>pacman\<close>

definition pacmanRebootNames :: "string list" where
  "pacmanRebootNames = [''linux'', ''linux-lts'', ''linux-zen'', ''linux-hardened'', ''linux-firmware'', ''systemd'',
     ''glibc'', ''dbus'', ''nvidia'', ''nvidia-dkms'']"

definition pacmanLine :: "string \<Rightarrow> update option" where
  "pacmanLine raw =
     (let line = trimSpace raw; fs = fieldsOf line
      in if line = [] then None
         else if length fs < 4 \<or> fs ! 2 \<noteq> ''->'' then None
         else if 4 < length fs \<and> containsSub (toLower (fs ! 4)) ''ignored'' then None
         else if fs ! 0 = [] \<or> fs ! 3 = [] then None
         else Some (mkUpdate (fs ! 0 @ ''='' @ fs ! 3) (fs ! 0 @ '' '' @ fs ! 1 @ '' to '' @ fs ! 3)
                      KindOther SeverityUnknown (fs ! 0 \<in> set pacmanRebootNames)))"

definition parsePacmanQu :: "string \<Rightarrow> update list" where
  "parsePacmanQu out = List.map_filter pacmanLine (linesOf out)"

definition pacmanQueryLine :: "string \<Rightarrow> (string \<times> string) list \<Rightarrow> (string \<times> string) list" where
  "pacmanQueryLine raw m =
     (case cutOn CHR '' '' (trimSpace raw) of
        None \<Rightarrow> m
      | Some (name, version) \<Rightarrow> if name = [] then m else AList.update name (trimSpace version) m)"

definition parsePacmanQuery :: "string \<Rightarrow> (string \<times> string) list" where
  "parsePacmanQuery out = fold pacmanQueryLine (linesOf out) []"

section \<open>Reading back what apt prints\<close>

definition plainTok :: "string \<Rightarrow> bool" where
  "plainTok s \<longleftrightarrow> s \<noteq> [] \<and> list_all (\<lambda>c. \<not> isSpace c) s"

definition wfInst :: "aptInst \<Rightarrow> bool" where
  "wfInst i \<longleftrightarrow> plainTok (ai_Name i) \<and>
     (ai_OldVersion i = [] \<or> plainTok (ai_OldVersion i) \<and> CHR '']'' \<notin> set (ai_OldVersion i)) \<and>
     plainTok (ai_NewVersion i) \<and> plainTok (ai_Arch i) \<and> CHR ''['' \<notin> set (ai_Arch i) \<and>
     trimSpace (ai_Origins i) = ai_Origins i \<and> CHR 0x0A \<notin> set (ai_Origins i)"

definition aptInstLine :: "aptInst \<Rightarrow> string" where
  "aptInstLine i = ''Inst '' @ ai_Name i @ '' '' @
     (if ai_OldVersion i = [] then [] else ''['' @ ai_OldVersion i @ ''] '') @
     ''('' @ ai_NewVersion i @ '' '' @ ai_Origins i @ '' ['' @ ai_Arch i @ ''])''"

lemma plainTok_D: "plainTok s \<Longrightarrow> s \<noteq> [] \<and> \<not> isSpace (hd s) \<and> \<not> isSpace (last s) \<and> CHR '' '' \<notin> set s \<and> CHR 0x0A \<notin> set s \<and> trimSpace s = s"
proof -
  assume a: "plainTok s"
  then have "\<forall>c \<in> set s. \<not> isSpace c" "s \<noteq> []" by (auto simp: plainTok_def list_all_iff)
  moreover have "isSpace CHR '' ''" "isSpace CHR 0x0A" by (simp_all add: isSpace_def)
  ultimately show ?thesis using trimBy_id [of s isSpace] by auto
qed

lemma trim_tok: "plainTok s \<Longrightarrow> \<not> isSpace d \<Longrightarrow> trimSpace (s @ mid @ [d]) = s @ mid @ [d]"
  by (rule trimBy_id) (auto dest: plainTok_D simp: hd_append)

lemma trim_id2: "\<not> isSpace c \<Longrightarrow> \<not> isSpace d \<Longrightarrow> trimSpace (c # mid @ [d]) = c # mid @ [d]"
  by (rule trimBy_id) auto

lemma trim_space_Cons: "isSpace c \<Longrightarrow> trimSpace (c # s) = trimSpace s"
  by (simp add: trimBy_def trimLeftBy_def)

lemma cutLast_intro: "c \<notin> set t \<Longrightarrow> cutLast c (s @ c # t) = Some (s, t)"
  using cutOn_intro [of c "rev t" "rev s"] by (simp add: cutLast_def)

lemma notSpace [simp]: "\<not> isSpace CHR ''I''" "\<not> isSpace CHR ''[''" "\<not> isSpace CHR '']''" "\<not> isSpace CHR ''(''" "\<not> isSpace CHR '')''" "isSpace CHR '' ''"
  by (simp_all add: isSpace_def)

declare trimSuffix_append [simp]

lemma aptArch_print:
  assumes "plainTok a" "CHR ''['' \<notin> set a" "trimSpace og = og"
  shows "aptArch (trimSpace (og @ '' ['' @ a @ '']'')) = (og, a)"
proof -
  have a: "trimSpace a = a" using assms(1) plainTok_D by blast
  have arch: "trimSpace (a @ '']'') = a @ '']''" using trim_tok [OF assms(1), of "CHR '']''" "[]"] by simp
  have suf: "trimSuffix '']'' (a @ '']'') = a" using trimSuffix_append [of "'']''" a] by simp
  show ?thesis
  proof (cases "og = []")
    case True
    have "trimSpace (og @ '' ['' @ a @ '']'') = [] @ CHR ''['' # (a @ '']'')"
      using True trim_id2 [of "CHR ''[''" "CHR '']''" a] by (simp add: trim_space_Cons)
    then show ?thesis using True cutLast_intro [of "CHR ''[''" "a @ '']''" "[]"] assms(2) arch a suf
      by (simp add: aptArch_def)
  next
    case False
    then have "\<not> isSpace (hd og) \<and> \<not> isSpace (last og)" using trimBy_ends [of isSpace og] assms(3) by simp
    then have "trimSpace (og @ '' ['' @ a @ '']'') = (og @ '' '') @ CHR ''['' # (a @ '']'')"
      using False by (subst trimBy_id) (auto simp: hd_append)
    moreover have "trimSpace (og @ '' '') = og"
      using assms(3) False \<open>\<not> isSpace (hd og) \<and> \<not> isSpace (last og)\<close>
      by (cases og) (auto simp: trimBy_def trimLeftBy_def trimRightBy_def dropWhile_append hd_rev split: if_splits)
    ultimately show ?thesis using cutLast_intro [of "CHR ''[''" "a @ '']''" "og @ '' ''"] assms(2) arch a suf
      by (simp add: aptArch_def)
  qed
qed

lemma aptCandidate_print:
  assumes "plainTok v" "plainTok a" "CHR ''['' \<notin> set a" "trimSpace og = og"
  shows "aptCandidate (''('' @ v @ '' '' @ og @ '' ['' @ a @ ''])'') = Some (v, trimSpace (og @ '' ['' @ a @ '']''))"
proof -
  let ?body = "v @ '' '' @ og @ '' ['' @ a @ '']''"
  have "trimSpace ?body = ?body" using trim_tok [OF assms(1), of "CHR '']''" "'' '' @ og @ '' ['' @ a"] by simp
  moreover have "cutLast CHR '')'' (?body @ '')'') = Some (?body, [])" using cutLast_intro [of "CHR '')''" "[]" ?body] by simp
  moreover have "cutOn CHR '' '' ?body = Some (v, og @ '' ['' @ a @ '']'')"
    using cutOn_intro [of "CHR '' ''" v] plainTok_D [OF assms(1)] by simp
  ultimately show ?thesis using plainTok_D [OF assms(1)] by (simp add: aptCandidate_def)
qed

lemma aptOld_print:
  assumes "old = [] \<or> plainTok old \<and> CHR '']'' \<notin> set old"
  shows "aptOld ((if old = [] then [] else ''['' @ old @ ''] '') @ ''('' @ rest @ '')'') = Some (old, ''('' @ rest @ '')'')"
proof (cases "old = []")
  case True
  then show ?thesis by (simp add: aptOld_def hasPrefix_def)
next
  case False
  then have "cutOn CHR '']'' (old @ CHR '']'' # '' ('' @ rest @ '')'') = Some (old, '' ('' @ rest @ '')'')"
    using assms by (intro cutOn_intro) simp
  moreover have "trimSpace ('' ('' @ rest @ '')'') = ''('' @ rest @ '')''"
    using trim_id2 [of "CHR ''(''" "CHR '')''" rest] by (simp add: trim_space_Cons)
  ultimately show ?thesis using False assms plainTok_D [of old] by (simp add: aptOld_def hasPrefix_def)
qed

lemma parseAptInstLine_print:
  assumes "wfInst i"
  shows "parseAptInstLine (aptInstLine i) = Some i"
proof -
  have n: "plainTok (ai_Name i)" and w: "plainTok (ai_NewVersion i)" "plainTok (ai_Arch i)" "CHR ''['' \<notin> set (ai_Arch i)" "trimSpace (ai_Origins i) = ai_Origins i"
    and old: "ai_OldVersion i = [] \<or> plainTok (ai_OldVersion i) \<and> CHR '']'' \<notin> set (ai_OldVersion i)"
    using assms by (auto simp: wfInst_def)
  let ?cand = "ai_NewVersion i @ '' '' @ ai_Origins i @ '' ['' @ ai_Arch i @ '']''"
  let ?tail = "(if ai_OldVersion i = [] then [] else ''['' @ ai_OldVersion i @ ''] '') @ ''('' @ ?cand @ '')''"
  have line: "aptInstLine i = ''Inst '' @ (ai_Name i @ '' '' @ ?tail)" by (simp add: aptInstLine_def)
  have t1: "trimSpace (aptInstLine i) = aptInstLine i" unfolding line by (rule trimBy_id) (simp add: hd_append)
  have t2: "trimSpace (ai_Name i @ '' '' @ ?tail) = ai_Name i @ '' '' @ ?tail"
    using plainTok_D [OF n] by (intro trimBy_id) (auto simp: hd_append)
  have t3: "trimSpace ?tail = ?tail" by (rule trimBy_id) (simp add: hd_append)
  have c: "cutOn CHR '' '' (ai_Name i @ '' '' @ ?tail) = Some (ai_Name i, ?tail)"
    using cutOn_intro [of "CHR '' ''" "ai_Name i"] plainTok_D [OF n] by simp
  have p: "cutPrefix ''Inst '' (aptInstLine i) = Some (ai_Name i @ '' '' @ ?tail)" unfolding line by (rule cutPrefix_append)
  have cand: "aptCandidate (''('' @ ?cand @ '')'') = Some (ai_NewVersion i, trimSpace (ai_Origins i @ '' ['' @ ai_Arch i @ '']''))"
    using aptCandidate_print [OF w] by simp
  show ?thesis
    unfolding parseAptInstLine_def t1 p option.case t2 c prod.case t3 aptOld_print [OF old] cand aptArch_print [OF w(2-4)]
    using plainTok_D [OF n] by simp
qed

lemma linesOf_print:
  "list_all (\<lambda>l. CHR 0x0A \<notin> set l) ls \<Longrightarrow> linesOf (concat (map (\<lambda>l. l @ [CHR 0x0A]) ls)) = ls"
proof -
  have "list_all (\<lambda>l. CHR 0x0A \<notin> set l) ls \<Longrightarrow> splitOn CHR 0x0A (concat (map (\<lambda>l. l @ [CHR 0x0A]) ls)) = ls @ [[]]"
    by (induction ls) (auto simp: splitOn_append splitOn_free)
  then show "list_all (\<lambda>l. CHR 0x0A \<notin> set l) ls \<Longrightarrow> ?thesis" by (simp add: linesOf_def)
qed

section \<open>dnf ids and advisories\<close>

lemma cutLast_Some: "cutLast c s = Some (a, b) \<Longrightarrow> s = a @ c # b"
  by (auto simp: cutLast_def dest!: cutOn_Some) (metis append.assoc append_Cons append_Nil rev.simps(2) rev_append rev_rev_ident)

lemma splitNameArch_join:
  "splitNameArch t = (n, a) \<Longrightarrow> t = (if a = [] then n else n @ ''.'' @ a)"
  by (auto simp: splitNameArch_def dnfArches_def dest: cutLast_Some split: option.splits if_splits)

lemma fieldsFrom_nonempty: "f \<in> set (fieldsFrom w s) \<Longrightarrow> f \<noteq> []"
  by (induction w s rule: fieldsFrom.induct) (auto split: if_splits)

lemma field_nonempty: "i < length (fieldsOf s) \<Longrightarrow> fieldsOf s ! i \<noteq> []"
  using fieldsFrom_nonempty nth_mem by (metis fieldsOf_def)

text \<open>An entry of the scan is made from a token that is not empty and a version that is not.\<close>

lemma dnfLoop_entries:
  "e \<in> set (dnfLoop waiting ls) \<Longrightarrow> \<exists>token evr repo. e = dnfEntryOf token evr repo \<and> token \<noteq> [] \<and> evr \<noteq> []"
proof (induction ls arbitrary: waiting)
  case (Cons raw ls)
  let ?fs = "fieldsOf (trimSpace raw)"
  have ne: "?fs ! i \<noteq> []" if "i < length ?fs" for i using that by (rule field_nonempty)
  have "(\<exists>w. e \<in> set (dnfLoop w ls)) \<or> (waiting \<noteq> [] \<and> length ?fs = 2 \<and> e = dnfEntryOf waiting (?fs ! 0) (?fs ! 1)) \<or>
      (3 \<le> length ?fs \<and> e = dnfEntryOf (?fs ! 0) (?fs ! 1) (?fs ! 2))"
    using Cons.prems by (auto simp: Let_def split: if_splits)
  then show ?case
  proof (elim disjE conjE exE)
    fix w assume "e \<in> set (dnfLoop w ls)"
    then show ?thesis by (rule Cons.IH)
  next
    assume "waiting \<noteq> []" "length ?fs = 2" "e = dnfEntryOf waiting (?fs ! 0) (?fs ! 1)"
    then show ?thesis using ne [of 0] by force
  next
    assume "3 \<le> length ?fs" "e = dnfEntryOf (?fs ! 0) (?fs ! 1) (?fs ! 2)"
    then show ?thesis using ne [of 0] ne [of 1] by force
  qed
qed simp

lemma dnfID_spec:
  assumes "token \<noteq> []" and "evr \<noteq> []" and "CHR ''='' \<notin> set (de_Name (dnfEntryOf token evr repo))"
  shows "dnfInstallSpec (dnfID (dnfEntryOf token evr repo)) = Inr (nvra (dnfEntryOf token evr repo))"
proof -
  obtain n a where na: "splitNameArch token = (n, a)" by fastforce
  have t: "token = (if a = [] then n else n @ ''.'' @ a)" using splitNameArch_join [OF na] .
  have "CHR ''='' \<notin> set a" using splitNameArch_arch [OF na] by (auto simp: dnfArches_def)
  then have eq: "CHR ''='' \<notin> set token" using assms(3) t na by (auto simp: dnfEntryOf_def split: if_splits)
  have "dnfID (dnfEntryOf token evr repo) = token @ CHR ''='' # evr"
    using t na by (auto simp: dnfEntryOf_def dnfID_def)
  moreover have "splitPkgVersionID (token @ CHR ''='' # evr) = Some (token, evr)"
    using assms eq by (simp add: splitPkgVersionID_Some)
  ultimately show ?thesis using na by (simp add: dnfInstallSpec_def dnfEntryOf_def nvra_def)
qed

lemma mergeAdvisory_rank:
  "severityRank (da_Severity (mergeAdvisory p a)) =
     (case p of None \<Rightarrow> severityRank (da_Severity a) | Some q \<Rightarrow> max (severityRank (da_Severity q)) (severityRank (da_Severity a)))"
  "da_Security (mergeAdvisory p a) = ((case p of None \<Rightarrow> False | Some q \<Rightarrow> da_Security q) \<or> da_Security a)"
  by (auto simp: mergeAdvisory_def split: option.splits)

text \<open>The advisories of one package, in the order of their lines.\<close>

definition advisoriesFor :: "string \<Rightarrow> (string \<times> dnfAdvisory) list \<Rightarrow> dnfAdvisory list" where
  "advisoriesFor pkg as = map snd (filter (\<lambda>pa. fst pa = pkg) as)"

definition worstOf :: "dnfAdvisory option \<Rightarrow> dnfAdvisory list \<Rightarrow> dnfAdvisory option" where
  "worstOf p as = fold (\<lambda>a p. Some (mergeAdvisory p a)) as p"

lemma fold_addAdvisory:
  "map_of (fold addAdvisory as m) pkg = worstOf (map_of m pkg) (advisoriesFor pkg as)"
proof (induction as arbitrary: m)
  case (Cons pa as)
  show ?case unfolding fold_simps comp_def Cons
    by (auto simp: addAdvisory_def advisoriesFor_def worstOf_def update_conv)
qed (simp add: worstOf_def advisoriesFor_def)

lemma worstOf_Some:
  "\<exists>w. worstOf (Some p) as = Some w \<and>
     severityRank (da_Severity w) = Max (severityRank ` da_Severity ` set (p # as)) \<and>
     (da_Security w \<longleftrightarrow> (\<exists>a \<in> set (p # as). da_Security a))"
proof (induction as arbitrary: p)
  case (Cons a as)
  obtain w where w: "worstOf (Some (mergeAdvisory (Some p) a)) as = Some w"
    "severityRank (da_Severity w) = Max (severityRank ` da_Severity ` set (mergeAdvisory (Some p) a # as))"
    "da_Security w \<longleftrightarrow> (\<exists>a \<in> set (mergeAdvisory (Some p) a # as). da_Security a)" using Cons by blast
  have "Max (severityRank ` da_Severity ` set (mergeAdvisory (Some p) a # as)) = Max (severityRank ` da_Severity ` set (p # a # as))"
    by (cases "as = []") (auto simp: mergeAdvisory_rank Max_insert max.assoc)
  with w show ?case by (auto simp: worstOf_def mergeAdvisory_rank)
qed (simp add: worstOf_def)

section \<open>Properties\<close>

text \<open>
  What apt's simulation prints is read back as it is: for a list of upgrades, each printed as
  an Inst line, the scan is the list of their updates, in order.\<close>

theorem apt_scan_roundtrip:
  assumes "list_all wfInst is"
  shows "parseAptSimulate (concat (map (\<lambda>i. aptInstLine i @ [CHR 0x0A]) is)) = map aptUpdate is"
proof -
  have "CHR 0x0A \<notin> set (aptInstLine i)" if "wfInst i" for i
    using that plainTok_D by (auto simp: wfInst_def aptInstLine_def)
  then have "list_all (\<lambda>l. CHR 0x0A \<notin> set l) (map aptInstLine is)" using assms by (auto simp: list_all_iff)
  then have "linesOf (concat (map (\<lambda>l. l @ [CHR 0x0A]) (map aptInstLine is))) = map aptInstLine is" by (rule linesOf_print)
  then have l: "linesOf (concat (map (\<lambda>i. aptInstLine i @ [CHR 0x0A]) is)) = map aptInstLine is" by (simp add: comp_def)
  have "List.map_filter parseAptInstLine (map aptInstLine is) = is"
    using assms by (induction "is") (auto simp: List.map_filter_simps parseAptInstLine_print)
  then show ?thesis by (simp add: parseAptSimulate_def l)
qed

definition demoInst :: aptInst where
  "demoInst = \<lparr>ai_Name = ''libc6'', ai_OldVersion = ''2.31-13'', ai_NewVersion = ''2.31-13+deb11u5'',
     ai_Origins = ''Debian:11/stable, Debian-Security:11/oldstable'', ai_Arch = ''amd64''\<rparr>"

theorem apt_scan_roundtrip_witness:
  "parseAptSimulate (aptInstLine demoInst @ [CHR 0x0A]) =
     [mkUpdate ''libc6=2.31-13+deb11u5'' ''libc6 2.31-13 to 2.31-13+deb11u5'' ''security'' ''unknown'' True]"
proof -
  have "wfInst demoInst" "aptUpdate demoInst = mkUpdate ''libc6=2.31-13+deb11u5'' ''libc6 2.31-13 to 2.31-13+deb11u5'' ''security'' ''unknown'' True"
    by code_simp+
  then show ?thesis using apt_scan_roundtrip [of "[demoInst]"] by simp
qed

text \<open>
  The id under which the dnf scan reports an update names the same package back: dnf is asked
  for exactly the package that the scan listed, dots in the name and the architecture included.\<close>

theorem dnf_id_roundtrip:
  assumes "e \<in> set (parseDNFCheckUpdate out)" and "CHR ''='' \<notin> set (de_Name e)"
  shows "dnfInstallSpec (dnfID e) = Inr (nvra e)"
  using dnfLoop_entries [of e "[]" "linesOf out"] assms dnfID_spec by (auto simp: parseDNFCheckUpdate_def)

definition demoCheckUpdate :: string where
  "demoCheckUpdate = ''python3.11-libs.x86_64  3.11.9-1  base'' @ [CHR 0x0A]"

theorem dnf_id_roundtrip_witness:
  "dnfInstallSpec ''python3.11-libs.x86_64=3.11.9-1'' = Inr ''python3.11-libs-3.11.9-1.x86_64''"
proof -
  let ?e = "\<lparr>de_Name = ''python3.11-libs'', de_Arch = ''x86_64'', de_EVR = ''3.11.9-1'', de_Repo = ''base''\<rparr>"
  have "parseDNFCheckUpdate demoCheckUpdate = [?e]" by code_simp
  then show ?thesis using dnf_id_roundtrip [of ?e demoCheckUpdate] by (simp add: dnfID_def nvra_def)
qed

text \<open>
  Of the advisories that dnf lists for one package the worst severity is kept, and the package
  counts as a security update exactly when one of them says so; a package with none is not listed.\<close>

theorem updateinfo_keeps_worst:
  "(case advisoriesFor pkg (List.map_filter advisoryLine (linesOf out)) of
      [] \<Rightarrow> map_of (parseDNFUpdateinfo out) pkg = None
    | as \<Rightarrow> \<exists>w. map_of (parseDNFUpdateinfo out) pkg = Some w \<and>
        severityRank (da_Severity w) = Max (severityRank ` da_Severity ` set as) \<and>
        (da_Security w \<longleftrightarrow> (\<exists>a \<in> set as. da_Security a)))"
proof (cases "advisoriesFor pkg (List.map_filter advisoryLine (linesOf out))")
  case Nil
  then show ?thesis by (simp add: parseDNFUpdateinfo_def fold_addAdvisory worstOf_def)
next
  case (Cons a as)
  have "worstOf None (a # as) = worstOf (Some a) as" by (simp add: worstOf_def mergeAdvisory_def)
  then show ?thesis using worstOf_Some [of a as] Cons by (simp add: parseDNFUpdateinfo_def fold_addAdvisory)
qed

end
