(* ===== verification/Patch_Install.thy ===== *)
theory Patch_Install
  imports Patch_Parse "HOL-Library.List_Lexorder" "HOL-Library.Char_ord"
begin

text \<open>
  Scanning and installing with apt, dnf and pacman: \<open>agent/internal/patch/apt_linux.go\<close>,
  \<open>dnf_linux.go\<close>, \<open>pacman_linux.go\<close>, with the outcome of a command (\<open>exec.go\<close>) and the
  install gate (\<open>patch.go\<close>).

  The host is the argument \<open>host\<close>: what a command prints and how it exits, whether a wait
  completes and what the clock shows, each as a function of everything done so far, so that two
  runs of one command may differ. What the agent does is a list of events: commands, waits and
  progress ticks. A loop over a Go map is modelled in the order of insertion, which only the
  order of the results depends on.
\<close>

section \<open>Commands\<close>

record cmdResult =
  cr_Stdout :: string
  cr_Stderr :: string
  cr_ExitCode :: int
  cr_Err :: "cmd_err option"

definition cmdOK :: "cmdResult \<Rightarrow> bool" where
  "cmdOK r \<longleftrightarrow> cr_Err r = None \<and> cr_ExitCode r = 0"

definition combined :: "cmdResult \<Rightarrow> string" where
  "combined r = trimSpace (trimSpace (cr_Stdout r) @ [CHR 0x0A] @ trimSpace (cr_Stderr r))"

definition tailOf :: "cmdResult \<Rightarrow> nat \<Rightarrow> string" where
  "tailOf r n =
     (let ls = splitOn CHR 0x0A (trimRightBy (\<lambda>c. c = CHR 0x0A) (combined r));
          kept = (if n < length ls then drop (length ls - n) ls else ls)
      in trimSpace (joinWith [CHR 0x0A] kept))"

text \<open>How waiting for a process ended.\<close>

datatype wait_end = WaitOK | WaitExit int | WaitError string

text \<open>\<open>finish\<close>: the context's error, if it is done, explains a failed wait.\<close>

definition finish :: "cmd_err option \<Rightarrow> string \<Rightarrow> string \<Rightarrow> wait_end \<Rightarrow> cmdResult" where
  "finish ctxErr out err w =
     (case w of
        WaitOK \<Rightarrow> \<lparr>cr_Stdout = out, cr_Stderr = err, cr_ExitCode = 0, cr_Err = None\<rparr>
      | WaitExit code \<Rightarrow>
          (if ctxErr \<noteq> None then \<lparr>cr_Stdout = out, cr_Stderr = err, cr_ExitCode = -1, cr_Err = ctxErr\<rparr>
           else \<lparr>cr_Stdout = out, cr_Stderr = err, cr_ExitCode = code, cr_Err = None\<rparr>)
      | WaitError e \<Rightarrow>
          \<lparr>cr_Stdout = out, cr_Stderr = err, cr_ExitCode = -1,
           cr_Err = (if ctxErr \<noteq> None then ctxErr else Some (OtherErr e))\<rparr>)"

section \<open>The environment of a package manager\<close>

definition pkgEnvAllowlist :: "string list" where
  "pkgEnvAllowlist =
     [''PATH'', ''HOME'', ''USER'', ''LOGNAME'', ''LANG'', ''LC_ALL'', ''TZ'', ''TMPDIR'',
      ''http_proxy'', ''https_proxy'', ''ftp_proxy'', ''no_proxy'',
      ''HTTP_PROXY'', ''HTTPS_PROXY'', ''FTP_PROXY'', ''NO_PROXY'',
      ''TEMP'', ''TMP'', ''SystemRoot'', ''SystemDrive'', ''ComSpec'', ''PATHEXT'',
      ''windir'', ''USERPROFILE'', ''USERNAME'', ''PROGRAMFILES'', ''PROGRAMDATA'',
      ''APPDATA'', ''LOCALAPPDATA'', ''NUMBER_OF_PROCESSORS'', ''PROCESSOR_ARCHITECTURE'']"

definition pkgEnvAllowed :: "string \<Rightarrow> bool" where
  "pkgEnvAllowed k \<longleftrightarrow> toLower k \<in> toLower ` set pkgEnvAllowlist"

definition pkgKeepHost :: "string \<Rightarrow> (string \<times> string) list \<Rightarrow> (string \<times> string) list" where
  "pkgKeepHost kv kept =
     (case cutOn CHR ''='' kv of
        None \<Rightarrow> kept
      | Some (k, v) \<Rightarrow> if k = [] \<or> \<not> pkgEnvAllowed k then kept else AList.update k v kept)"

definition pkgKeepExtra :: "string \<times> string \<Rightarrow> (string \<times> string) list \<Rightarrow> (string \<times> string) list" where
  "pkgKeepExtra kv kept =
     (if fst kv = [] \<or> CHR ''='' \<in> set (fst kv) \<or> CHR 0x00 \<in> set (fst kv) then kept
      else AList.update (fst kv) (snd kv) kept)"

definition pkgKeptEnv :: "string list \<Rightarrow> (string \<times> string) list \<Rightarrow> (string \<times> string) list" where
  "pkgKeptEnv hostEnv extra = fold pkgKeepExtra extra (fold pkgKeepHost hostEnv [])"

definition pkgScrubEnv :: "string list \<Rightarrow> (string \<times> string) list \<Rightarrow> string list" where
  "pkgScrubEnv hostEnv extra = sort (map (\<lambda>(k, v). k @ ''='' @ v) (pkgKeptEnv hostEnv extra))"

definition noninteractiveEnv :: "(string \<times> string) list \<Rightarrow> (string \<times> string) list" where
  "noninteractiveEnv extra =
     fold (\<lambda>(k, v). AList.update k v) extra
       [(''DEBIAN_FRONTEND'', ''noninteractive''), (''LC_ALL'', ''C''), (''LANG'', ''C''), (''PAGER'', ''cat''), (''TERM'', ''dumb'')]"

text \<open>
  \<open>scopeCommand\<close>, given whether the agent is root, whether systemd runs the host, and where
  \<open>systemd-run\<close> is.
\<close>

definition scopeCommand :: "bool \<Rightarrow> bool \<Rightarrow> string option \<Rightarrow> string \<Rightarrow> string list \<Rightarrow> string \<times> string list \<times> bool" where
  "scopeCommand root systemd path name args =
     (case path of
        Some p \<Rightarrow>
          if root \<and> systemd
          then (p, [''--scope'', ''--quiet'', ''--collect'', ''--description=Everwas patch transaction'', ''--'', name] @ args, True)
          else (name, args, False)
      | None \<Rightarrow> (name, args, False))"

section \<open>Progress\<close>

definition pctOf :: "int \<Rightarrow> int \<Rightarrow> int" where
  "pctOf seen tot =
     (if tot \<le> 0 then 10 else 10 + 80 * (if tot < seen then tot else seen) div tot)"

section \<open>The host\<close>

datatype pkg_event =
    Cmd "string list"
  | Slept duration
  | Tick string int

type_synonym trace = "pkg_event list"

record host =
  h_run :: "trace \<Rightarrow> string list \<Rightarrow> cmdResult"
  h_slept :: "trace \<Rightarrow> duration \<Rightarrow> bool"
  h_now :: "trace \<Rightarrow> gtime"
  h_left :: "duration option"
  h_ctxErr :: "trace \<Rightarrow> cmd_err"
  h_exists :: "trace \<Rightarrow> string \<Rightarrow> bool"
  h_have :: "string \<Rightarrow> bool"
  h_release :: "string + string"
  h_statErr :: "trace \<Rightarrow> string \<Rightarrow> (bool \<times> string) option"

definition runCmd :: "host \<Rightarrow> string list \<Rightarrow> trace \<Rightarrow> cmdResult \<times> trace" where
  "runCmd h argv tr = (h_run h tr argv, tr @ [Cmd argv])"

definition sleepCtx :: "host \<Rightarrow> duration \<Rightarrow> trace \<Rightarrow> bool \<times> trace" where
  "sleepCtx h d tr = (h_slept h tr d, tr @ [Slept d])"

text \<open>
  The ticks of a run: \<open>OnLine\<close> is called for every line of the output, with the number of
  install lines seen.
\<close>

fun ticksOf :: "(string \<Rightarrow> string option) \<Rightarrow> int \<Rightarrow> int \<Rightarrow> string list \<Rightarrow> trace" where
  "ticksOf phaseOf tot seen [] = []"
| "ticksOf phaseOf tot seen (line # ls) =
     (case phaseOf line of
        None \<Rightarrow> ticksOf phaseOf tot seen ls
      | Some phase \<Rightarrow>
          (let seen1 = (if phase = ''install'' then seen + 1 else seen)
           in Tick phase (pctOf seen1 tot) # ticksOf phaseOf tot seen1 ls))"

definition runInstallCmd ::
  "host \<Rightarrow> (string \<Rightarrow> string option) \<Rightarrow> nat \<Rightarrow> string list \<Rightarrow> trace \<Rightarrow> cmdResult \<times> trace" where
  "runInstallCmd h phaseOf tot argv tr =
     (let (r, tr1) = runCmd h argv tr
      in (r, tr1 @ ticksOf phaseOf (int tot) 0 (linesOf (cr_Stdout r))))"

section \<open>The frame of an install\<close>

text \<open>\<open>installGate\<close>: whether the gate was free, and the gate.\<close>

definition gateAcquire :: "bool \<Rightarrow> bool \<times> bool" where
  "gateAcquire held = (\<not> held, True)"

definition gateRelease :: "bool \<Rightarrow> bool" where
  "gateRelease held = False"

type_synonym outcome = "pkg_result \<times> patch_error option \<times> trace"

text \<open>
  The first lines of the three \<open>Install\<close> methods, which are the same, around the rest of the
  method; \<open>None\<close> is an install that never returns.
\<close>

definition installFrame ::
  "host \<Rightarrow> (string list \<Rightarrow> pkg_result \<Rightarrow> trace \<Rightarrow> outcome option) \<Rightarrow> string list \<Rightarrow> bool \<Rightarrow> trace \<Rightarrow> (bool \<times> outcome) option" where
  "installFrame h rest ids0 held tr =
     (let ids = dedupeIDs ids0; res = newInstallResult
      in if ids = [] then Some (held, res, None, tr)
         else (case prepareInstall (h_left h) ids res of
                 (Inl e, res1) \<Rightarrow> Some (held, res1, Some e, tr)
               | (Inr ids1, res1) \<Rightarrow>
                   if ids1 = [] then Some (held, res1, None, tr)
                   else (let (free, held1) = gateAcquire held
                         in if \<not> free then Some (held1, res1, Some Busy, tr)
                            else map_option (\<lambda>out. (gateRelease held1, out)) (rest ids1 res1 tr))))"

section \<open>apt\<close>

definition aptUpdateAttempts :: nat where
  "aptUpdateAttempts = 3"

definition aptLockBudget :: duration where
  "aptLockBudget = 10 * 60 * second"

definition rebootRequiredFlag :: string where
  "rebootRequiredFlag = ''/var/run/reboot-required''"

text \<open>The loop of \<open>refresh\<close> with the attempts left after this one and the wait before the next.\<close>

fun aptRefreshFrom :: "host \<Rightarrow> nat \<Rightarrow> duration \<Rightarrow> trace \<Rightarrow> patch_error option \<times> trace" where
  "aptRefreshFrom h left backoff tr =
     (let (r, tr1) = runCmd h [''apt-get'', ''update''] tr;
          e = (case cr_Err r of Some m \<Rightarrow> CmdError m | None \<Rightarrow> CmdExit (cr_ExitCode r) (tailOf r 5))
      in if cmdOK r then (None, tr1)
         else if \<not> aptIsTransientUpdateError (combined r) then (Some e, tr1)
         else (case left of
                 0 \<Rightarrow> (Some e, tr1)
               | Suc left1 \<Rightarrow>
                   (let (slept, tr2) = sleepCtx h backoff tr1
                    in if slept then aptRefreshFrom h left1 (2 * backoff) tr2
                       else (Some (CtxDone (h_ctxErr h tr2)), tr2))))"

definition aptRefresh :: "host \<Rightarrow> trace \<Rightarrow> patch_error option \<times> trace" where
  "aptRefresh h tr = aptRefreshFrom h (aptUpdateAttempts - 1) (3 * second) tr"

definition aptScan :: "host \<Rightarrow> trace \<Rightarrow> (patch_error + update list) \<times> trace" where
  "aptScan h tr =
     (let (_, tr1) = aptRefresh h tr;
          (r, tr2) = runCmd h [''apt-get'', ''-s'', ''-o'', ''Debug::NoLocking=1'', ''dist-upgrade''] tr1
      in (case cr_Err r of
            Some m \<Rightarrow> (Inl (CmdError m), tr2)
          | None \<Rightarrow>
              if cr_ExitCode r \<noteq> 0 then (Inl (CmdExit (cr_ExitCode r) (tailOf r 5)), tr2)
              else (Inr (parseAptSimulate (cr_Stdout r)), tr2)))"

definition aptNextBackoff :: "duration \<Rightarrow> duration" where
  "aptNextBackoff d = (if d < 60 * second then 2 * d else d)"

partial_function (option) aptRunLoop ::
  "host \<Rightarrow> string list \<Rightarrow> nat \<Rightarrow> gtime \<Rightarrow> duration \<Rightarrow> trace \<Rightarrow> (cmdResult \<times> patch_error option \<times> trace) option" where
  "aptRunLoop h args tot deadline backoff tr =
     (let (r, tr1) = runInstallCmd h aptProgressPhase tot (''apt-get'' # args) tr
      in if cmdOK r then Some (r, None, tr1)
         else (case cr_Err r of
                 Some m \<Rightarrow> Some (r, Some (CmdError m), tr1)
               | None \<Rightarrow>
                   if \<not> aptIsLockContention (combined r) then Some (r, Some (CmdExit (cr_ExitCode r) (tailOf r 8)), tr1)
                   else if deadline < h_now h tr1 then Some (r, Some (LockHeld (tailOf r 3)), tr1)
                   else (let (slept, tr2) = sleepCtx h backoff tr1
                         in if slept then aptRunLoop h args tot deadline (aptNextBackoff backoff) tr2
                            else Some (r, Some (CtxDone (h_ctxErr h tr2)), tr2))))"

declare aptRunLoop.simps [code]

definition aptRunInstall ::
  "host \<Rightarrow> string list \<Rightarrow> nat \<Rightarrow> trace \<Rightarrow> (cmdResult \<times> patch_error option \<times> trace) option" where
  "aptRunInstall h args tot tr = aptRunLoop h args tot (h_now h tr + aptLockBudget) (10 * second) tr"

definition aptInstalledVersions :: "host \<Rightarrow> (string \<times> string) list \<Rightarrow> trace \<Rightarrow> (string \<times> string) list \<times> trace" where
  "aptInstalledVersions h want tr =
     (let (r, tr1) = runCmd h ([''dpkg-query'', ''-W'', ''-f'', ''${Package}'' @ [CHR 0x09] @ ''${Version}'' @ [CHR 0x0A]] @ map fst want) tr
      in (parseDpkgVersions (cr_Stdout r), tr1))"

definition aptAttribute ::
  "(string \<times> string) list \<Rightarrow> (string \<times> string) list \<Rightarrow> patch_error option \<Rightarrow> string \<Rightarrow> string \<times> string \<Rightarrow> pkg_result \<Rightarrow> pkg_result" where
  "aptAttribute idByName installed runErr tl0 nv res =
     (let (name, version) = nv; uid = (case map_of idByName name of Some i \<Rightarrow> i | None \<Rightarrow> [])
      in case map_of installed name of
           Some got \<Rightarrow>
             if got = version then res\<lparr>pr_Installed := pr_Installed res @ [uid]\<rparr>
             else failID uid (WrongVersion got version) res
         | None \<Rightarrow>
             (case runErr of
                Some e \<Rightarrow> failID uid (NotOnDisk e name) res
              | None \<Rightarrow> failID uid (NotInstalled tl0) res))"

definition attributeAptResult ::
  "(string \<times> string) list \<Rightarrow> (string \<times> string) list \<Rightarrow> (string \<times> string) list \<Rightarrow> patch_error option \<Rightarrow> string \<Rightarrow> pkg_result \<Rightarrow> pkg_result" where
  "attributeAptResult want idByName installed runErr tl0 res =
     fold (aptAttribute idByName installed runErr tl0) want res"

definition aptInstallArgs :: "string list" where
  "aptInstallArgs = [''-y'', ''-o'', ''Dpkg::Options::=--force-confdef'', ''-o'', ''Dpkg::Options::=--force-confold'', ''install'', ''--'']"

definition aptInstallRest :: "host \<Rightarrow> string list \<Rightarrow> pkg_result \<Rightarrow> trace \<Rightarrow> outcome option" where
  "aptInstallRest h ids res tr =
     (case aptScan h tr of
        (Inl e, tr1) \<Rightarrow> Some (res, Some (ScanFailed e), tr1)
      | (Inr available, tr1) \<Rightarrow>
          (let (plan, res1) = aptInstallPlan ids (offeredIDs available) res
           in if ap_specs plan = [] then Some (res1, None, tr1)
              else (case aptRunInstall h (aptInstallArgs @ ap_specs plan) (length (ap_specs plan)) tr1 of
                      None \<Rightarrow> None
                    | Some (r, runErr, tr2) \<Rightarrow>
                        (let (installed, tr3) = aptInstalledVersions h (ap_want plan) tr2;
                             res2 = attributeAptResult (ap_want plan) (ap_idByName plan) installed runErr (tailOf r 3) res1;
                             res3 = res2\<lparr>pr_RebootRequired := h_exists h tr3 rebootRequiredFlag\<rparr>
                         in Some (res3, if runErr \<noteq> None \<and> pr_Installed res3 = [] then runErr else None, tr3)))))"

definition aptInstall :: "host \<Rightarrow> string list \<Rightarrow> bool \<Rightarrow> trace \<Rightarrow> (bool \<times> outcome) option" where
  "aptInstall h = installFrame h (aptInstallRest h)"

definition aptRebootRequired :: "host \<Rightarrow> trace \<Rightarrow> bool" where
  "aptRebootRequired h tr = h_exists h tr rebootRequiredFlag"

section \<open>dnf\<close>

definition dnfCommand :: "string \<Rightarrow> string" where
  "dnfCommand bin = (if bin = [] then ''dnf'' else bin)"

definition dnfAdvisories :: "host \<Rightarrow> string \<Rightarrow> trace \<Rightarrow> (string \<times> dnfAdvisory) list \<times> trace" where
  "dnfAdvisories h bin tr =
     (let (r, tr1) = runCmd h [dnfCommand bin, ''-q'', ''updateinfo'', ''list'', ''--with-cve''] tr
      in if cr_Err r \<noteq> None \<or> (cr_ExitCode r \<noteq> 0 \<and> cr_ExitCode r \<noteq> 100) then ([], tr1)
         else (parseDNFUpdateinfo (cr_Stdout r), tr1))"

definition dnfScan :: "host \<Rightarrow> string \<Rightarrow> trace \<Rightarrow> (patch_error + update list) \<times> trace" where
  "dnfScan h bin tr =
     (let (r, tr1) = runCmd h [dnfCommand bin, ''-q'', ''check-update''] tr
      in (case cr_Err r of
            Some m \<Rightarrow> (Inl (CmdError m), tr1)
          | None \<Rightarrow>
              if cr_ExitCode r = 0 then (Inr [], tr1)
              else if cr_ExitCode r = 100 then
                (let (advisories, tr2) = dnfAdvisories h bin tr1
                 in (Inr (dnfUpdates (parseDNFCheckUpdate (cr_Stdout r)) advisories), tr2))
              else (Inl (CmdExit (cr_ExitCode r) (tailOf r 5)), tr1)))"

definition dnfInstalledSpecs :: "host \<Rightarrow> string list \<Rightarrow> trace \<Rightarrow> (string \<Rightarrow> bool) \<times> trace" where
  "dnfInstalledSpecs h specs tr =
     (if \<not> h_have h ''rpm'' then (\<lambda>spec. spec \<in> set specs, tr)
      else (let (r, tr1) = runCmd h ([''rpm'', ''-q'', ''--qf'', ''%{NAME}-%{EVR}.%{ARCH}'' @ [CHR 0x0A]] @ specs) tr;
                found = map trimSpace (linesOf (cr_Stdout r))
            in (\<lambda>spec. spec \<in> set specs \<and> (spec \<in> set found \<or> stripZeroEpoch spec \<in> set found), tr1)))"

definition dnfRebootRequired :: "host \<Rightarrow> string \<Rightarrow> trace \<Rightarrow> (patch_error + bool) \<times> trace" where
  "dnfRebootRequired h bin tr =
     (let (r, tr1) = runCmd h [dnfCommand bin, ''needs-restarting'', ''-r''] tr
      in if cr_Err r = None \<and> \<not> dnfPluginMissing (combined r) then (Inr (cr_ExitCode r = 1), tr1)
         else if h_have h ''needs-restarting'' then
           (let (r2, tr2) = runCmd h [''needs-restarting'', ''-r''] tr1
            in if cr_Err r2 = None then (Inr (cr_ExitCode r2 = 1), tr2)
               else (Inl (CmdError (OtherErr (tailOf r2 2))), tr2))
         else (Inl (CmdError (OtherErr (tailOf r 2))), tr1))"

text \<open>The flag of \<open>RebootRequired\<close> with its error dropped, as the installs read it.\<close>

definition rebootFlag :: "patch_error + bool \<Rightarrow> bool" where
  "rebootFlag r = (case r of Inl _ \<Rightarrow> False | Inr b \<Rightarrow> b)"

definition dnfAttribute :: "(string \<Rightarrow> bool) \<Rightarrow> cmdResult \<Rightarrow> string \<times> string \<Rightarrow> pkg_result \<Rightarrow> pkg_result" where
  "dnfAttribute installed r si res =
     (let (spec, uid) = si
      in if installed spec then res\<lparr>pr_Installed := pr_Installed res @ [uid]\<rparr>
         else if cr_ExitCode r = 0 then failID uid (NotInstalled []) res
         else failID uid (CmdExit (cr_ExitCode r) (tailOf r 6)) res)"

definition dnfInstallRest :: "host \<Rightarrow> string \<Rightarrow> string list \<Rightarrow> pkg_result \<Rightarrow> trace \<Rightarrow> outcome option" where
  "dnfInstallRest h bin ids res tr =
     (case dnfScan h bin tr of
        (Inl e, tr1) \<Rightarrow> Some (res, Some (ScanFailed e), tr1)
      | (Inr available, tr1) \<Rightarrow>
          (let (plan, res1) = dnfInstallPlan ids (offeredIDs available) res
           in if dp_specs plan = [] then Some (res1, None, tr1)
              else (let (r, tr2) = runInstallCmd h dnfProgressPhase (length (dp_specs plan))
                                     ([dnfCommand bin, ''-y'', ''install'', ''--''] @ dp_specs plan) tr1;
                        (reboot, tr3) = dnfRebootRequired h bin tr2;
                        res2 = res1\<lparr>pr_RebootRequired := rebootFlag reboot\<rparr>
                    in (case cr_Err r of
                          Some m \<Rightarrow> Some (fold (\<lambda>(_, uid). failID uid (CmdError m)) (dp_idBySpec plan) res2,
                                          Some (CmdError m), tr3)
                        | None \<Rightarrow>
                            (let (installed, tr4) = dnfInstalledSpecs h (dp_specs plan) tr3;
                                 res3 = fold (dnfAttribute installed r) (dp_idBySpec plan) res2
                             in Some (res3,
                                      if cr_ExitCode r \<noteq> 0 \<and> pr_Installed res3 = [] then Some (CmdExit (cr_ExitCode r) (tailOf r 8)) else None,
                                      tr4))))))"

definition dnfInstall :: "host \<Rightarrow> string \<Rightarrow> string list \<Rightarrow> bool \<Rightarrow> trace \<Rightarrow> (bool \<times> outcome) option" where
  "dnfInstall h bin = installFrame h (dnfInstallRest h bin)"

section \<open>pacman\<close>

definition pacmanScan :: "host \<Rightarrow> trace \<Rightarrow> (patch_error + update list) \<times> trace" where
  "pacmanScan h tr =
     (let (r, tr1) = runCmd h [''pacman'', ''-Qu''] tr
      in (case cr_Err r of
            Some m \<Rightarrow> (Inl (CmdError m), tr1)
          | None \<Rightarrow>
              if cr_ExitCode r \<noteq> 0 \<and> trimSpace (cr_Stdout r) = [] then (Inr [], tr1)
              else (Inr (parsePacmanQu (cr_Stdout r)), tr1)))"

definition pacmanInstalledVersions :: "host \<Rightarrow> string list \<Rightarrow> trace \<Rightarrow> (string \<times> string) list \<times> trace" where
  "pacmanInstalledVersions h names tr =
     (let (r, tr1) = runCmd h ([''pacman'', ''-Q''] @ names) tr
      in (parsePacmanQuery (cr_Stdout r), tr1))"

definition pacmanPhase :: "string \<Rightarrow> string option" where
  "pacmanPhase line = Some (if containsSub line ''downloading'' then ''download'' else ''install'')"

text \<open>
  \<open>h_release\<close> is the kernel's release from \<open>uname\<close>; \<open>h_statErr\<close> the error of \<open>stat\<close>, with
  whether it says that the file does not exist.
\<close>

definition pacmanRebootRequired :: "host \<Rightarrow> trace \<Rightarrow> patch_error + bool" where
  "pacmanRebootRequired h tr =
     (case h_release h of
        Inl m \<Rightarrow> Inl (CmdError (OtherErr m))
      | Inr raw \<Rightarrow>
          (let release = trimRightBy (\<lambda>c. c = CHR 0x00) raw
           in if release = [] then Inl (CmdError (OtherErr ''empty kernel release''))
              else (case h_statErr h tr (''/usr/lib/modules/'' @ release) of
                      None \<Rightarrow> Inr False
                    | Some (notExist, m) \<Rightarrow> if notExist then Inr True else Inl (CmdError (OtherErr m)))))"

definition pacmanAttribute ::
  "(string \<times> string) list \<Rightarrow> (string \<times> string) list \<Rightarrow> cmdResult \<Rightarrow> string \<times> string \<Rightarrow> pkg_result \<Rightarrow> pkg_result" where
  "pacmanAttribute before after r ni res =
     (let (name, uid) = ni;
          old = (case map_of before name of Some v \<Rightarrow> v | None \<Rightarrow> [])
      in case map_of after name of
           Some got \<Rightarrow>
             if got \<noteq> old \<or> (cr_Err r = None \<and> cr_ExitCode r = 0) then res\<lparr>pr_Installed := pr_Installed res @ [uid]\<rparr>
             else (case cr_Err r of
                     Some m \<Rightarrow> failID uid (CmdError m) res
                   | None \<Rightarrow> failID uid (CmdExit (cr_ExitCode r) (tailOf r 6)) res)
         | None \<Rightarrow>
             (case cr_Err r of
                Some m \<Rightarrow> failID uid (CmdError m) res
              | None \<Rightarrow> failID uid (CmdExit (cr_ExitCode r) (tailOf r 6)) res))"

definition pacmanInstallRest :: "host \<Rightarrow> string list \<Rightarrow> pkg_result \<Rightarrow> trace \<Rightarrow> outcome option" where
  "pacmanInstallRest h ids res tr =
     (case pacmanScan h tr of
        (Inl e, tr1) \<Rightarrow> Some (res, Some (ScanFailed e), tr1)
      | (Inr available, tr1) \<Rightarrow>
          (let (before, tr2) = pacmanInstalledVersions h [] tr1;
               (plan, res1) = pacmanInstallPlan ids (pacmanOfferedNames available) res
           in if pp_names plan = [] then Some (res1, None, tr2)
              else (let (r, tr3) = runInstallCmd h pacmanPhase (length (pp_names plan))
                                     ([''pacman'', ''-S'', ''--noconfirm'', ''--needed'', ''--''] @ pp_names plan) tr2;
                        runErr = map_option CmdError (cr_Err r);
                        (after, tr4) = pacmanInstalledVersions h (pp_names plan) tr3;
                        res2 = fold (pacmanAttribute before after r) (pp_idByName plan) res1;
                        res3 = res2\<lparr>pr_RebootRequired := rebootFlag (pacmanRebootRequired h tr4)\<rparr>
                    in Some (res3, if runErr \<noteq> None \<and> pr_Installed res3 = [] then runErr else None, tr4))))"

definition pacmanInstall :: "host \<Rightarrow> string list \<Rightarrow> bool \<Rightarrow> trace \<Rightarrow> (bool \<times> outcome) option" where
  "pacmanInstall h = installFrame h (pacmanInstallRest h)"

end
