(* ===== verification/Patch_Correct.thy ===== *)
theory Patch_Correct
  imports Patch_Install
begin

text \<open>
  What the installs of \<open>Patch_Install\<close> guarantee: the commands they run and the words they hand
  to the package managers, that each id is accounted for, that they return and free the gate, and
  what their results rest on. The plans of the three backends meet the interface
  \<open>install_planner\<close>, their installs the interface \<open>booking_install\<close>.
\<close>

section \<open>Every id is booked once\<close>

text \<open>
  \<open>booked res S\<close>: the ids of \<open>S\<close>, and no others, are in the result, each either installed or
  failed and each once.
\<close>

definition booked :: "pkg_result \<Rightarrow> string set \<Rightarrow> bool" where
  "booked res S \<longleftrightarrow> distinct (pr_Installed res @ map fst (pr_Failed res)) \<and>
     set (pr_Installed res) \<union> fst ` set (pr_Failed res) = S"

lemma booked_new: "booked newInstallResult {}"
  by (simp add: booked_def newInstallResult_def)

lemma booked_fail: "booked res S \<Longrightarrow> uid \<notin> S \<Longrightarrow> booked (failID uid e res) (insert uid S)"
  by (auto simp: booked_def failID_def map_of_eq_None_iff)

lemma booked_install: "booked res S \<Longrightarrow> uid \<notin> S \<Longrightarrow> booked (res\<lparr>pr_Installed := pr_Installed res @ [uid]\<rparr>) (insert uid S)"
  by (auto simp: booked_def)

lemma booked_reboot [simp]: "booked (res\<lparr>pr_RebootRequired := b\<rparr>) S = booked res S"
  by (simp add: booked_def)

text \<open>A loop whose step books the id of each element.\<close>

lemma booked_fold:
  assumes step: "\<And>x res S. x \<in> set xs \<Longrightarrow> booked res S \<Longrightarrow> uidOf x \<notin> S \<Longrightarrow> booked (f x res) (insert (uidOf x) S)"
    and "booked res S" and "distinct (map uidOf xs)" and "S \<inter> uidOf ` set xs = {}"
  shows "booked (fold f xs res) (S \<union> uidOf ` set xs)"
  using assms
proof (induction xs arbitrary: res S)
  case (Cons x xs)
  have "booked (f x res) (insert (uidOf x) S)" using Cons.prems by simp
  then have "booked (fold f xs (f x res)) (insert (uidOf x) S \<union> uidOf ` set xs)"
    using Cons.prems by (intro Cons.IH) auto
  then show ?case by simp
qed simp

lemma booked_refuseSelf:
  "refuseSelfPackages ids res = (out, res') \<Longrightarrow> booked res S \<Longrightarrow> distinct ids \<Longrightarrow> S \<inter> set ids = {} \<Longrightarrow>
   booked res' (S \<union> {i \<in> set ids. isSelfPackage i})"
proof (induction ids arbitrary: res S out)
  case (Cons uid ids)
  have eq: "insert uid S \<union> {i \<in> set ids. isSelfPackage i} = S \<union> {i \<in> set (uid # ids). isSelfPackage i}"
    if "isSelfPackage uid" using that by auto
  show ?case
  proof (cases "isSelfPackage uid")
    case True
    then show ?thesis using Cons.prems Cons.IH [of _ _ "insert uid S"] booked_fail eq by auto
  next
    case False
    then have "{i \<in> set (uid # ids). isSelfPackage i} = {i \<in> set ids. isSelfPackage i}" by auto
    then show ?thesis using Cons False by (auto split: prod.splits)
  qed
qed auto

lemma booked_planLoop:
  "planLoop check keep ids (p, res) = (p', res') \<Longrightarrow> booked res S \<Longrightarrow> distinct ids \<Longrightarrow> S \<inter> set ids = {} \<Longrightarrow>
   booked res' (S \<union> {uid \<in> set ids. \<exists>e. check uid = Inl e})"
proof (induction ids arbitrary: p res S)
  case (Cons uid ids)
  show ?case
  proof (cases "check uid")
    case (Inl e)
    have "insert uid S \<union> {u \<in> set ids. \<exists>e. check u = Inl e} = S \<union> {u \<in> set (uid # ids). \<exists>e. check u = Inl e}"
      using Inl by auto
    moreover have "booked res' (insert uid S \<union> {u \<in> set ids. \<exists>e. check u = Inl e})"
      using Cons.prems Inl booked_fail by (intro Cons.IH [of p "failID uid e res"]) auto
    ultimately show ?thesis by simp
  next
    case (Inr a)
    then have "{u \<in> set (uid # ids). \<exists>e. check u = Inl e} = {u \<in> set ids. \<exists>e. check u = Inl e}" by auto
    then show ?thesis using Cons Inr by auto
  qed
qed auto

lemma planLoop_inv:
  assumes "planLoop check keep ids (p, res) = (p', res')" and "I p" and "\<And>uid a p. uid \<in> set ids \<Longrightarrow> check uid = Inr a \<Longrightarrow> I p \<Longrightarrow> I (keep uid a p)"
  shows "I p'"
  using assms
proof (induction ids arbitrary: p res)
  case (Cons uid ids)
  then show ?case by (cases "check uid") auto
qed simp

lemma dedupeFrom_props:
  "distinct (dedupeFrom seen ids) \<and> set (dedupeFrom seen ids) = set ids - set seen - {[]}"
  by (induction seen ids rule: dedupeFrom.induct) auto

lemma dedupeIDs_set [simp]: "set (dedupeIDs ids) = set ids - {[]}" "distinct (dedupeIDs ids)"
  by (simp_all add: dedupeIDs_def dedupeFrom_props)

text \<open>
  What every backend owes: whatever the rest of its \<open>Install\<close> is given, it books each of the ids
  once, unless the scan before the install fails.
\<close>

locale booking_install =
  fixes h :: host and rest :: "string list \<Rightarrow> pkg_result \<Rightarrow> trace \<Rightarrow> outcome option"
    and apart :: "string list \<Rightarrow> bool"
  assumes rest_books: "rest ids res tr = Some (res', err, tr') \<Longrightarrow> apart ids \<Longrightarrow> \<nexists>e. err = Some (ScanFailed e) \<Longrightarrow>
      booked res S \<Longrightarrow> distinct ids \<Longrightarrow> S \<inter> set ids = {} \<Longrightarrow> booked res' (S \<union> set ids)"
    and apart_filter: "apart ids \<Longrightarrow> set ids' \<subseteq> set ids \<Longrightarrow> apart ids'"
begin

lemma frame_books:
  assumes run: "installFrame h rest ids held tr = Some (held', res, err, tr')" and ap: "apart ids"
    and ok: "err \<noteq> Some Busy" "\<nexists>e. err = Some (ScanFailed e)"
  shows "booked res (set ids - {[]})"
proof (cases "dedupeIDs ids = []")
  case True
  then have none: "set ids - {[]} = {}" using dedupeIDs_set(1) [of ids] by simp
  show ?thesis unfolding none using run True booked_new by (auto simp: installFrame_def)
next
  case ne: False
  show ?thesis
  proof (cases "checkInstallDeadline (h_left h)")
    case (Some e)
    have "booked (fold (\<lambda>uid. failID uid e) (dedupeIDs ids) newInstallResult) ({} \<union> (\<lambda>i. i) ` set (dedupeIDs ids))"
      using booked_fail booked_new by (intro booked_fold) auto
    then show ?thesis using run ne Some by (auto simp: installFrame_def prepareInstall_def Let_def)
  next
    case None
    obtain out res1 where r: "refuseSelfPackages (dedupeIDs ids) newInstallResult = (out, res1)" by fastforce
    have out: "out = filter (\<lambda>i. \<not> isSelfPackage i) (dedupeIDs ids)" using refuseSelf_out [OF r] by simp
    have b: "booked res1 {i \<in> set (dedupeIDs ids). isSelfPackage i}"
      using booked_refuseSelf [OF r booked_new] by simp
    have all: "{i \<in> set (dedupeIDs ids). isSelfPackage i} \<union> set out = set ids - {[]}" using out by auto
    show ?thesis
    proof (cases "out = []")
      case True
      then show ?thesis using run ne None r b all by (simp add: installFrame_def prepareInstall_def Let_def)
    next
      case False
      then have "\<not> held" and rest: "rest out res1 tr = Some (res, err, tr')"
        using run ne None r ok(1) by (auto simp: installFrame_def prepareInstall_def gateAcquire_def Let_def split: if_splits)
      have "apart out" using ap apart_filter [of ids out] out by auto
      then show ?thesis
        using rest_books [OF rest _ ok(2) b] out all by auto
    qed
  qed
qed

end


definition acceptedBy :: "(string \<Rightarrow> patch_error + 'a) \<Rightarrow> string list \<Rightarrow> string set" where
  "acceptedBy check ids = {uid \<in> set ids. \<not> isl (check uid)}"

lemma acceptedBy_iff: "uid \<in> acceptedBy check ids \<longleftrightarrow> uid \<in> set ids \<and> (\<exists>a. check uid = Inr a)"
  by (cases "check uid") (auto simp: acceptedBy_def)

context install_planner
begin

lemma loop_filed_ids:
  assumes "planLoop check keep ids (p, res) = (p', res')" and "filed p = []" and "distinct ids"
    and ap: "\<And>i j a b. i \<in> set ids \<Longrightarrow> j \<in> set ids \<Longrightarrow> check i = Inr a \<Longrightarrow> check j = Inr b \<Longrightarrow> key a = key b \<Longrightarrow> i = j"
  shows "distinct (map snd (filed p'))" and "snd ` set (filed p') = acceptedBy check ids"
proof -
  let ?acc = "\<lambda>uid. case check uid of Inr a \<Rightarrow> Some (key a, uid) | _ \<Rightarrow> None"
  let ?right = "\<lambda>uid. case check uid of Inr a \<Rightarrow> Some a | _ \<Rightarrow> None"
  have right: "set (List.map_filter ?right xs) = {a. \<exists>u \<in> set xs. check u = Inr a}" for xs
    by (induction xs) (auto simp: List.map_filter_simps split: sum.splits)
  have keys: "distinct (map key (List.map_filter ?right ids))"
    using assms(3) ap
  proof (induction ids)
    case (Cons i ids)
    then have IH: "distinct (map key (List.map_filter ?right ids))" by simp
    show ?case
    proof (cases "check i")
      case (Inr a)
      have "key a \<noteq> key b" if "u \<in> set ids" "check u = Inr b" for u b
        using Cons.prems(1) Cons.prems(2) [of i u a b] Inr that by auto
      then have "key a \<notin> key ` set (List.map_filter ?right ids)" unfolding right by auto
      then show ?thesis using IH Inr by (simp add: List.map_filter_simps)
    qed (use IH in \<open>simp add: List.map_filter_simps\<close>)
  qed (simp add: List.map_filter_simps)
  have f: "filed p' = List.map_filter ?acc ids"
    using loop_filed [OF assms(1) keys] assms(2) by simp
  show "snd ` set (filed p') = acceptedBy check ids"
  proof -
    have "snd ` set (List.map_filter ?acc xs) = {u \<in> set xs. \<exists>a. check u = Inr a}" for xs
      by (induction xs) (auto simp: List.map_filter_simps split: sum.splits)
    then show ?thesis unfolding f by (auto simp: acceptedBy_iff)
  qed
  have "distinct (map snd (List.map_filter ?acc ids)) \<and> snd ` set (List.map_filter ?acc ids) \<subseteq> set ids"
    using assms(3)
  proof (induction ids)
    case (Cons i ids)
    then show ?case by (cases "check i") (auto simp: List.map_filter_simps)
  qed (simp add: List.map_filter_simps)
  then show "distinct (map snd (filed p'))" unfolding f by simp
qed

lemma loop_words_filed:
  "planLoop check keep ids (p, res) = (p', res') \<Longrightarrow> words p = [] \<longleftrightarrow> filed p = [] \<Longrightarrow> words p' = [] \<longleftrightarrow> filed p' = []"
  using planLoop_inv [of check keep ids p res p' res' "\<lambda>p. words p = [] \<longleftrightarrow> filed p = []"] words_filed by blast

text \<open>The plan books what it refuses and files the rest.\<close>

lemma plan_books:
  assumes "planLoop check keep ids (p, res) = (p', res')" and "booked res S" and "distinct ids" and "S \<inter> set ids = {}"
  shows "booked res' (S \<union> (set ids - acceptedBy check ids))"
proof -
  have "{uid \<in> set ids. \<exists>e. check uid = Inl e} = set ids - acceptedBy check ids"
  proof -
    have "(\<exists>e. check uid = Inl e) \<longleftrightarrow> \<not> (\<exists>a. check uid = Inr a)" for uid by (cases "check uid") auto
    then show ?thesis by (auto simp: acceptedBy_iff)
  qed
  then show ?thesis using booked_planLoop [OF assms] by simp
qed

end

text \<open>No two ids name one package, and no two ids one dnf package specification.\<close>

definition namesApart :: "string list \<Rightarrow> bool" where
  "namesApart ids \<longleftrightarrow>
     list_all (\<lambda>i. list_all (\<lambda>j. splitPkgVersionID i \<noteq> None \<and>
       map_option fst (splitPkgVersionID i) = map_option fst (splitPkgVersionID j) \<longrightarrow> i = j) ids) ids"

definition specsApart :: "string list \<Rightarrow> bool" where
  "specsApart ids \<longleftrightarrow>
     list_all (\<lambda>i. list_all (\<lambda>j. splitPkgVersionID i \<noteq> None \<and> dnfInstallSpec i = dnfInstallSpec j \<longrightarrow> i = j) ids) ids"

lemma apart_subset:
  "namesApart ids \<Longrightarrow> set ids' \<subseteq> set ids \<Longrightarrow> namesApart ids'"
  "specsApart ids \<Longrightarrow> set ids' \<subseteq> set ids \<Longrightarrow> specsApart ids'"
  unfolding namesApart_def specsApart_def list_all_iff by blast+

lemma aptAttribute_books:
  "booked res S \<Longrightarrow> the (map_of byName (fst nv)) \<notin> S \<Longrightarrow> map_of byName (fst nv) \<noteq> None \<Longrightarrow>
   booked (aptAttribute byName installed runErr tl0 nv res) (insert (the (map_of byName (fst nv))) S)"
  by (auto simp: aptAttribute_def booked_fail booked_install split: option.splits prod.splits)

lemma dnfAttribute_books:
  "booked res S \<Longrightarrow> snd si \<notin> S \<Longrightarrow> booked (dnfAttribute installed r si res) (insert (snd si) S)"
  by (auto simp: dnfAttribute_def booked_fail booked_install split: prod.splits)

lemma pacmanAttribute_books:
  "booked res S \<Longrightarrow> snd ni \<notin> S \<Longrightarrow> booked (pacmanAttribute before after r ni res) (insert (snd ni) S)"
  by (auto simp: pacmanAttribute_def booked_fail booked_install Let_def split: option.splits prod.splits)

lemma aptPlan_keys:
  assumes "aptInstallPlan ids offered res = (plan, res')"
  shows "map fst (ap_want plan) = map fst (ap_idByName plan) \<and> distinct (map fst (ap_idByName plan))"
proof -
  have keep: "map fst (ap_want (aptKeep uid a p)) = map fst (ap_idByName (aptKeep uid a p)) \<and>
      distinct (map fst (ap_idByName (aptKeep uid a p)))"
    if "map fst (ap_want p) = map fst (ap_idByName p) \<and> distinct (map fst (ap_idByName p))" for uid a p
    using that by (auto simp: aptKeep_def update_keys)
  show ?thesis
    by (rule planLoop_inv [OF assms [unfolded aptInstallPlan_def]]) (use keep in auto)
qed

lemma namesApart_D:
  "namesApart ids \<Longrightarrow> i \<in> set ids \<Longrightarrow> j \<in> set ids \<Longrightarrow> splitPkgVersionID i = Some (n, v) \<Longrightarrow>
   splitPkgVersionID j = Some (n, w) \<Longrightarrow> i = j"
  by (auto simp: namesApart_def list_all_iff)

lemma specsApart_D:
  assumes "specsApart ids" "i \<in> set ids" "j \<in> set ids" "dnfInstallSpec i = Inr s" "dnfInstallSpec j = Inr s"
  shows "i = j"
proof -
  have "splitPkgVersionID i \<noteq> None" using assms(4) by (auto simp: dnfInstallSpec_def split: option.splits)
  then show ?thesis using assms by (auto simp: specsApart_def list_all_iff)
qed

lemma fold_snd_books:
  assumes "\<And>x res S. x \<in> set filed \<Longrightarrow> booked res S \<Longrightarrow> snd x \<notin> S \<Longrightarrow> booked (f x res) (insert (snd x) S)"
    and "booked res S" and "distinct (map snd filed)" and "snd ` set filed = A" and "S \<inter> A = {}"
  shows "booked (fold f filed res) (S \<union> A)"
  using booked_fold [of filed snd f res S] assms by auto

lemma aptRest_books:
  assumes run: "aptInstallRest h ids res tr = Some (res', err, tr')" and ap: "namesApart ids"
    and ok: "\<nexists>e. err = Some (ScanFailed e)" and S: "booked res S" "distinct ids" "S \<inter> set ids = {}"
  shows "booked res' (S \<union> set ids)"
proof -
  obtain available tr1 where scan: "aptScan h tr = (Inr available, tr1)"
    using run ok by (auto simp: aptInstallRest_def split: prod.splits sum.splits)
  let ?check = "aptCheck (offeredIDs available)"
  obtain plan res1 where plan: "aptInstallPlan ids (offeredIDs available) res = (plan, res1)" by fastforce
  note loop = plan [unfolded aptInstallPlan_def]
  have apart: "i = j" if "i \<in> set ids" "j \<in> set ids" "?check i = Inr a" "?check j = Inr b" "fst a = fst b" for i j a b
    using that namesApart_D [OF ap that(1,2)] by (cases a; cases b) (auto simp: aptCheck_Inr)
  have filed: "distinct (map snd (ap_idByName plan))" "snd ` set (ap_idByName plan) = acceptedBy ?check ids"
    using apt_planner.loop_filed_ids [OF loop _ S(2)] apart by auto
  have b1: "booked res1 (S \<union> (set ids - acceptedBy ?check ids))" using apt_planner.plan_books [OF loop S] .
  have acc: "acceptedBy ?check ids \<subseteq> set ids" by (auto simp: acceptedBy_iff)
  then have whole: "(S \<union> (set ids - acceptedBy ?check ids)) \<union> acceptedBy ?check ids = S \<union> set ids" by auto
  note keys = aptPlan_keys [OF plan]
  let ?uid = "\<lambda>nv :: string \<times> string. the (map_of (ap_idByName plan) (fst nv))"
  have uids: "map ?uid (ap_want plan) = map snd (ap_idByName plan)"
  proof -
    have "map ?uid (ap_want plan) = map (\<lambda>k. the (map_of (ap_idByName plan) k)) (map fst (ap_idByName plan))"
      using keys by (metis (no_types, lifting) comp_apply list.map_comp list.map_cong0)
    also have "\<dots> = map snd (ap_idByName plan)" using keys by (auto simp: map_of_is_SomeI)
    finally show ?thesis .
  qed
  show ?thesis
  proof (cases "ap_specs plan = []")
    case True
    then have "acceptedBy ?check ids = {}" using apt_planner.loop_words_filed [OF loop] filed(2) by simp
    then show ?thesis using run scan plan True b1 by (simp add: aptInstallRest_def)
  next
    case False
    then obtain r runErr tr2 where r: "aptRunInstall h (aptInstallArgs @ ap_specs plan) (length (ap_specs plan)) tr1 = Some (r, runErr, tr2)"
      using run scan plan by (auto simp: aptInstallRest_def split: option.splits)
    obtain installed tr3 where i: "aptInstalledVersions h (ap_want plan) tr2 = (installed, tr3)" by fastforce
    have "booked (attributeAptResult (ap_want plan) (ap_idByName plan) installed runErr (tailOf r 3) res1)
       ((S \<union> (set ids - acceptedBy ?check ids)) \<union> ?uid ` set (ap_want plan))"
      unfolding attributeAptResult_def
    proof (rule booked_fold [OF _ b1])
      fix x res S assume "x \<in> set (ap_want plan)" "booked res S" "?uid x \<notin> S"
      moreover have "map_of (ap_idByName plan) (fst x) \<noteq> None"
        using calculation(1) keys by (metis image_eqI list.set_map map_of_eq_None_iff)
      ultimately show "booked (aptAttribute (ap_idByName plan) installed runErr (tailOf r 3) x res) (insert (?uid x) S)"
        by (intro aptAttribute_books)
    next
      show "distinct (map ?uid (ap_want plan))" using uids filed by simp
      show "(S \<union> (set ids - acceptedBy ?check ids)) \<inter> ?uid ` set (ap_want plan) = {}"
        using uids filed(2) S(3) acc by (metis (no_types, lifting) Diff_disjoint Int_Un_distrib2 list.set_map sup_bot_right Int_commute inf.absorb_iff2 Int_assoc inf_bot_left)
    qed
    moreover have "?uid ` set (ap_want plan) = acceptedBy ?check ids" using uids filed(2) by (metis list.set_map)
    ultimately have "booked (attributeAptResult (ap_want plan) (ap_idByName plan) installed runErr (tailOf r 3) res1) (S \<union> set ids)"
      by (simp only: whole)
    then show ?thesis using run scan plan False r i
      by (auto simp: aptInstallRest_def Let_def)
  qed
qed


lemma dnfRest_books:
  assumes run: "dnfInstallRest h bin ids res tr = Some (res', err, tr')" and ap: "specsApart ids"
    and ok: "\<nexists>e. err = Some (ScanFailed e)" and S: "booked res S" "distinct ids" "S \<inter> set ids = {}"
  shows "booked res' (S \<union> set ids)"
proof -
  obtain available tr1 where scan: "dnfScan h bin tr = (Inr available, tr1)"
    using run ok by (auto simp: dnfInstallRest_def split: prod.splits sum.splits)
  let ?check = "dnfCheck (offeredIDs available)"
  obtain plan res1 where plan: "dnfInstallPlan ids (offeredIDs available) res = (plan, res1)" by fastforce
  note loop = plan [unfolded dnfInstallPlan_def]
  have filed: "distinct (map snd (dp_idBySpec plan))" "snd ` set (dp_idBySpec plan) = acceptedBy ?check ids"
    using dnf_planner.loop_filed_ids [OF loop _ S(2)] specsApart_D [OF ap] dnfCheck_Inr(2) by auto
  have acc: "acceptedBy ?check ids \<subseteq> set ids" by (auto simp: acceptedBy_iff)
  then have whole: "(S \<union> (set ids - acceptedBy ?check ids)) \<union> acceptedBy ?check ids = S \<union> set ids" by auto
  have b1: "booked res1 (S \<union> (set ids - acceptedBy ?check ids))" using dnf_planner.plan_books [OF loop S] .
  have all: "booked (fold f (dp_idBySpec plan) (res1\<lparr>pr_RebootRequired := b\<rparr>)) (S \<union> set ids)"
    if "\<And>x res S. booked res S \<Longrightarrow> snd x \<notin> S \<Longrightarrow> booked (f x res) (insert (snd x) S)" for f b
  proof -
    have "booked (fold f (dp_idBySpec plan) (res1\<lparr>pr_RebootRequired := b\<rparr>)) ((S \<union> (set ids - acceptedBy ?check ids)) \<union> acceptedBy ?check ids)"
      using S(3) acc by (intro fold_snd_books [OF that _ filed]) (auto simp: b1)
    then show ?thesis by (simp only: whole)
  qed
  show ?thesis
  proof (cases "dp_specs plan = []")
    case True
    then have "acceptedBy ?check ids = {}" using dnf_planner.loop_words_filed [OF loop] filed(2) by simp
    then show ?thesis using run scan plan True b1 by (simp add: dnfInstallRest_def)
  next
    case False
    have "booked (fold (\<lambda>(_, uid). failID uid (CmdError m)) (dp_idBySpec plan) (res1\<lparr>pr_RebootRequired := b\<rparr>)) (S \<union> set ids)" for m b
      by (rule all) (auto simp: booked_fail split: prod.splits)
    moreover have "booked (fold (dnfAttribute installed r) (dp_idBySpec plan) (res1\<lparr>pr_RebootRequired := b\<rparr>)) (S \<union> set ids)" for installed r b
      by (rule all) (rule dnfAttribute_books)
    ultimately show ?thesis using run scan plan False
      by (auto simp: dnfInstallRest_def Let_def split: prod.splits option.splits)
  qed
qed

lemma pacmanRest_books:
  assumes run: "pacmanInstallRest h ids res tr = Some (res', err, tr')" and ap: "namesApart ids"
    and ok: "\<nexists>e. err = Some (ScanFailed e)" and S: "booked res S" "distinct ids" "S \<inter> set ids = {}"
  shows "booked res' (S \<union> set ids)"
proof -
  obtain available tr1 where scan: "pacmanScan h tr = (Inr available, tr1)"
    using run ok by (auto simp: pacmanInstallRest_def split: prod.splits sum.splits)
  let ?check = "pacmanCheck (pacmanOfferedNames available)"
  obtain plan res1 where plan: "pacmanInstallPlan ids (pacmanOfferedNames available) res = (plan, res1)" by fastforce
  note loop = plan [unfolded pacmanInstallPlan_def]
  have apart: "i = j" if "i \<in> set ids" "j \<in> set ids" "?check i = Inr a" "?check j = Inr b" "id a = id b" for i j a b
    using that namesApart_D [OF ap that(1,2)] pacmanCheck_Inr by (metis id_apply)
  have filed: "distinct (map snd (pp_idByName plan))" "snd ` set (pp_idByName plan) = acceptedBy ?check ids"
    using pacman_planner.loop_filed_ids [OF loop _ S(2)] apart by auto
  have acc: "acceptedBy ?check ids \<subseteq> set ids" by (auto simp: acceptedBy_iff)
  then have whole: "(S \<union> (set ids - acceptedBy ?check ids)) \<union> acceptedBy ?check ids = S \<union> set ids" by auto
  have b1: "booked res1 (S \<union> (set ids - acceptedBy ?check ids))" using pacman_planner.plan_books [OF loop S] .
  show ?thesis
  proof (cases "pp_names plan = []")
    case True
    then have "acceptedBy ?check ids = {}" using pacman_planner.loop_words_filed [OF loop] filed(2) by simp
    then show ?thesis using run scan plan True b1 by (auto simp: pacmanInstallRest_def split: prod.splits)
  next
    case False
    have "booked (fold (pacmanAttribute before after r) (pp_idByName plan) res1) ((S \<union> (set ids - acceptedBy ?check ids)) \<union> acceptedBy ?check ids)"
      for before after r
      using S(3) acc by (intro fold_snd_books [OF pacmanAttribute_books b1 filed]) auto
    then have "booked (fold (pacmanAttribute before after r) (pp_idByName plan) res1) (S \<union> set ids)" for before after r
      by (simp only: whole)
    then show ?thesis using run scan plan False
      by (auto simp: pacmanInstallRest_def Let_def split: prod.splits)
  qed
qed

interpretation apt_books: booking_install h "aptInstallRest h" namesApart for h
  using aptRest_books apart_subset(1) by unfold_locales blast+

interpretation dnf_books: booking_install h "dnfInstallRest h bin" specsApart for h bin
  using dnfRest_books apart_subset(2) by unfold_locales blast+

interpretation pacman_books: booking_install h "pacmanInstallRest h" namesApart for h
  using pacmanRest_books apart_subset(1) by unfold_locales blast+

section \<open>The commands of an install\<close>

definition isCmd :: "pkg_event \<Rightarrow> bool" where
  "isCmd e = (case e of Cmd _ \<Rightarrow> True | _ \<Rightarrow> False)"

lemma ticks_no_cmd: "Cmd argv \<notin> set (ticksOf phaseOf tot seen ls)"
  by (induction phaseOf tot seen ls rule: ticksOf.induct) (auto simp: Let_def split: option.splits)

lemma ticks_no_isCmd: "filter isCmd (ticksOf phaseOf tot seen ls) = []"
  using ticks_no_cmd by (auto simp: filter_empty_conv isCmd_def split: pkg_event.splits)

text \<open>The events of a run, with only the given commands among them.\<close>

definition onlyRuns :: "trace \<Rightarrow> (string list \<Rightarrow> bool) \<Rightarrow> trace \<Rightarrow> bool" where
  "onlyRuns tr ok tr' \<longleftrightarrow> (\<exists>evs. tr' = tr @ evs \<and> (\<forall>argv. Cmd argv \<in> set evs \<longrightarrow> ok argv))"

lemma onlyRuns_refl: "onlyRuns tr ok tr"
  by (simp add: onlyRuns_def)

lemma onlyRuns_trans: "onlyRuns tr1 ok tr2 \<Longrightarrow> onlyRuns tr2 ok tr3 \<Longrightarrow> onlyRuns tr1 ok tr3"
  by (auto simp: onlyRuns_def)

lemma onlyRuns_mono: "onlyRuns tr ok tr' \<Longrightarrow> (\<And>argv. ok argv \<Longrightarrow> ok' argv) \<Longrightarrow> onlyRuns tr ok' tr'"
  by (auto simp: onlyRuns_def)

lemma runCmd_runs: "runCmd h argv tr = (r, tr') \<Longrightarrow> ok argv \<Longrightarrow> onlyRuns tr ok tr'"
  by (auto simp: runCmd_def onlyRuns_def)

lemma runInstallCmd_runs: "runInstallCmd h ph n argv tr = (r, tr') \<Longrightarrow> ok argv \<Longrightarrow> onlyRuns tr ok tr'"
  by (auto simp: runInstallCmd_def runCmd_def onlyRuns_def ticks_no_cmd)

lemma sleepCtx_runs: "sleepCtx h d tr = (b, tr') \<Longrightarrow> onlyRuns tr ok tr'"
  by (auto simp: sleepCtx_def onlyRuns_def)

lemmas run_intros = onlyRuns_refl runCmd_runs runInstallCmd_runs sleepCtx_runs

lemma installFrame_cases:
  assumes "installFrame h rest ids held tr = Some (held', res, err, tr')"
  obtains "tr' = tr"
  | out res1 where "out = filter (\<lambda>i. \<not> isSelfPackage i) (dedupeIDs ids)" "rest out res1 tr = Some (res, err, tr')"
proof (cases "dedupeIDs ids = [] \<or> checkInstallDeadline (h_left h) \<noteq> None")
  case True
  then show thesis using assms that(1) by (auto simp: installFrame_def prepareInstall_def Let_def split: if_splits)
next
  case False
  obtain out res1 where r: "refuseSelfPackages (dedupeIDs ids) newInstallResult = (out, res1)" by fastforce
  then have "out = filter (\<lambda>i. \<not> isSelfPackage i) (dedupeIDs ids)" using refuseSelf_out by blast
  then show thesis using assms False r that
    by (auto simp: installFrame_def prepareInstall_def gateAcquire_def Let_def split: if_splits option.splits)
qed

subsection \<open>apt\<close>

lemma aptRefreshFrom_runs:
  "aptRefreshFrom h left backoff tr = (e, tr') \<Longrightarrow> onlyRuns tr (\<lambda>argv. argv = [''apt-get'', ''update'']) tr'"
proof (induction left arbitrary: backoff tr)
  case 0
  then show ?case by (auto simp: Let_def intro: run_intros split: prod.splits if_splits)
next
  case (Suc left)
  obtain r tr1 where r: "runCmd h [''apt-get'', ''update''] tr = (r, tr1)" by fastforce
  obtain b tr2 where s: "sleepCtx h backoff tr1 = (b, tr2)" by fastforce
  let ?ok = "\<lambda>argv. argv = [''apt-get'', ''update'']"
  have "onlyRuns tr ?ok tr1" using r by (auto intro: run_intros)
  moreover have "onlyRuns tr1 ?ok tr2" using s by (rule sleepCtx_runs)
  moreover have "tr' = tr1 \<or> tr' = tr2 \<or> aptRefreshFrom h left (2 * backoff) tr2 = (e, tr')"
    using Suc.prems r s by (auto simp: Let_def split: if_splits)
  ultimately show ?case using Suc.IH onlyRuns_trans by blast
qed

declare aptRefreshFrom.simps [simp del]

definition aptSimulate :: "string list" where
  "aptSimulate = [''apt-get'', ''-s'', ''-o'', ''Debug::NoLocking=1'', ''dist-upgrade'']"

lemma aptScan_runs:
  assumes "aptScan h tr = (r, tr')"
  shows "onlyRuns tr (\<lambda>argv. argv = [''apt-get'', ''update''] \<or> argv = aptSimulate) tr'"
    and "r = Inr ups \<Longrightarrow> \<exists>tr0. tr' = tr0 @ [Cmd aptSimulate] \<and> ups = parseAptSimulate (cr_Stdout (h_run h tr0 aptSimulate))"
proof -
  obtain e tr1 where t: "aptRefresh h tr = (e, tr1)" by fastforce
  have tr': "tr' = tr1 @ [Cmd aptSimulate]"
    using assms t by (auto simp: aptScan_def aptSimulate_def runCmd_def split: option.splits if_splits)
  have "onlyRuns tr (\<lambda>argv. argv = [''apt-get'', ''update''] \<or> argv = aptSimulate) tr1"
    using onlyRuns_mono [OF aptRefreshFrom_runs [OF t [unfolded aptRefresh_def]]] by simp
  moreover have "onlyRuns tr1 (\<lambda>argv. argv = [''apt-get'', ''update''] \<or> argv = aptSimulate) tr'"
    using tr' by (auto simp: onlyRuns_def)
  ultimately show "onlyRuns tr (\<lambda>argv. argv = [''apt-get'', ''update''] \<or> argv = aptSimulate) tr'"
    by (rule onlyRuns_trans)
  show "\<exists>tr0. tr' = tr0 @ [Cmd aptSimulate] \<and> ups = parseAptSimulate (cr_Stdout (h_run h tr0 aptSimulate))" if "r = Inr ups"
    using assms t that tr' by (auto simp: aptScan_def aptSimulate_def runCmd_def split: option.splits if_splits)
qed

lemma aptRunLoop_runs:
  assumes "aptRunLoop h args tot deadline backoff tr = Some y"
  shows "onlyRuns tr (\<lambda>argv. argv = ''apt-get'' # args) (snd (snd y))"
proof (rule aptRunLoop.raw_induct [where P = "\<lambda>h args tot deadline backoff tr y. onlyRuns tr (\<lambda>argv. argv = ''apt-get'' # args) (snd (snd y))", OF _ assms])
  fix loop :: "host \<Rightarrow> string list \<Rightarrow> nat \<Rightarrow> gtime \<Rightarrow> duration \<Rightarrow> trace \<Rightarrow> (cmdResult \<times> patch_error option \<times> trace) option"
    and h args tot deadline backoff tr y
  assume IH: "\<And>h args tot deadline backoff tr y. loop h args tot deadline backoff tr = Some y \<Longrightarrow>
      onlyRuns tr (\<lambda>argv. argv = ''apt-get'' # args) (snd (snd y))"
  assume body: "(let (r, tr1) = runInstallCmd h aptProgressPhase tot (''apt-get'' # args) tr
      in if cmdOK r then Some (r, None, tr1)
         else (case cr_Err r of
                 Some m \<Rightarrow> Some (r, Some (CmdError m), tr1)
               | None \<Rightarrow>
                   if \<not> aptIsLockContention (combined r) then Some (r, Some (CmdExit (cr_ExitCode r) (tailOf r 8)), tr1)
                   else if deadline < h_now h tr1 then Some (r, Some (LockHeld (tailOf r 3)), tr1)
                   else (let (slept, tr2) = sleepCtx h backoff tr1
                         in if slept then loop h args tot deadline (aptNextBackoff backoff) tr2
                            else Some (r, Some (CtxDone (h_ctxErr h tr2)), tr2)))) = Some y"
  let ?ok = "\<lambda>argv. argv = ''apt-get'' # args"
  obtain q tr1 where q: "runInstallCmd h aptProgressPhase tot (''apt-get'' # args) tr = (q, tr1)" by fastforce
  obtain b tr2 where s: "sleepCtx h backoff tr1 = (b, tr2)" by fastforce
  have one: "onlyRuns tr ?ok tr1" using q by (auto intro: run_intros)
  have two: "onlyRuns tr ?ok tr2" by (rule onlyRuns_trans [OF one sleepCtx_runs [OF s]])
  have "snd (snd y) = tr1 \<or> snd (snd y) = tr2 \<or> onlyRuns tr2 ?ok (snd (snd y))"
  proof (cases "cmdOK q \<or> cr_Err q \<noteq> None \<or> \<not> aptIsLockContention (combined q) \<or> deadline < h_now h tr1")
    case True
    then show ?thesis using body unfolding q by (auto split: if_splits option.splits)
  next
    case False
    then have "(if b then loop h args tot deadline (aptNextBackoff backoff) tr2 else Some (q, Some (CtxDone (h_ctxErr h tr2)), tr2)) = Some y"
      using body unfolding q by (simp add: s)
    then show ?thesis using IH by (cases b) auto
  qed
  then show "onlyRuns tr ?ok (snd (snd y))" using one two onlyRuns_trans [OF two] by (elim disjE) simp_all
qed


subsection \<open>Waiting for the dpkg lock\<close>

text \<open>
  What the waits rely on: the clock does not run backwards, and a wait that completes takes at
  least its time.
\<close>

definition steadyClock :: "host \<Rightarrow> bool" where
  "steadyClock h \<longleftrightarrow>
     (\<forall>tr e. h_now h tr \<le> h_now h (tr @ [e])) \<and>
     (\<forall>tr d. h_slept h tr d \<longrightarrow> h_now h tr + d \<le> h_now h (tr @ [Slept d]))"

lemma clock_append: "steadyClock h \<Longrightarrow> h_now h tr \<le> h_now h (tr @ evs)"
proof (induction evs rule: rev_induct)
  case (snoc e evs)
  then have "h_now h (tr @ evs) \<le> h_now h ((tr @ evs) @ [e])" unfolding steadyClock_def by blast
  with snoc show ?case by simp
qed simp

text \<open>The time that \<open>n\<close> waits take, from the given first wait.\<close>

fun lockWaits :: "nat \<Rightarrow> duration \<Rightarrow> duration" where
  "lockWaits 0 d = 0"
| "lockWaits (Suc n) d = d + lockWaits n (aptNextBackoff d)"

lemma aptRunLoop_ends:
  assumes clock: "steadyClock h" and "deadline < h_now h tr + lockWaits n backoff"
  shows "\<exists>r e evs. aptRunLoop h args tot deadline backoff tr = Some (r, e, tr @ evs) \<and> length (filter isCmd evs) \<le> Suc n"
  using assms(2)
proof (induction n arbitrary: backoff tr)
  case 0
  obtain r evs where r: "runInstallCmd h aptProgressPhase tot (''apt-get'' # args) tr = (r, tr @ evs)" "length (filter isCmd evs) = 1"
    by (simp add: runInstallCmd_def runCmd_def ticks_no_isCmd isCmd_def)
  have "deadline < h_now h (tr @ evs)" using 0 clock_append [OF clock, of tr evs] by simp
  then show ?case using r by (subst aptRunLoop.simps) (auto split: option.splits)
next
  case (Suc n)
  obtain r evs where r: "runInstallCmd h aptProgressPhase tot (''apt-get'' # args) tr = (r, tr @ evs)" "length (filter isCmd evs) = 1"
    by (simp add: runInstallCmd_def runCmd_def ticks_no_isCmd isCmd_def)
  let ?tr1 = "tr @ evs"
  obtain b where s: "sleepCtx h backoff ?tr1 = (b, ?tr1 @ [Slept backoff])" by (simp add: sleepCtx_def)
  show ?case
  proof (cases "cmdOK r \<or> cr_Err r \<noteq> None \<or> \<not> aptIsLockContention (combined r) \<or> deadline < h_now h ?tr1 \<or> \<not> b")
    case True
    then show ?thesis using r s by (subst aptRunLoop.simps) (auto simp: isCmd_def split: option.splits)
  next
    case False
    then have "h_slept h ?tr1 backoff" using s by (simp add: sleepCtx_def)
    then have "h_now h ?tr1 + backoff \<le> h_now h (?tr1 @ [Slept backoff])" using clock unfolding steadyClock_def by blast
    then have "deadline < h_now h (?tr1 @ [Slept backoff]) + lockWaits n (aptNextBackoff backoff)"
      using Suc.prems clock_append [OF clock, of tr evs] by simp
    from Suc.IH [OF this] obtain r2 e2 evs2 where
      "aptRunLoop h args tot deadline (aptNextBackoff backoff) (?tr1 @ [Slept backoff]) = Some (r2, e2, (?tr1 @ [Slept backoff]) @ evs2)"
      "length (filter isCmd evs2) \<le> Suc n" by blast
    then show ?thesis using False r s by (subst aptRunLoop.simps) (auto simp: isCmd_def)
  qed
qed

lemma lockWaits_budget: "aptLockBudget < lockWaits 10 (10 * second)"
  by (simp add: aptLockBudget_def second_def aptNextBackoff_def eval_nat_numeral)

lemma aptRunInstall_ends:
  assumes "steadyClock h"
  shows "\<exists>r e evs. aptRunInstall h args tot tr = Some (r, e, tr @ evs) \<and> length (filter isCmd evs) \<le> 11"
  using aptRunLoop_ends [OF assms, of "h_now h tr + aptLockBudget" tr 10 "10 * second"] lockWaits_budget
  by (simp add: aptRunInstall_def)

lemma aptInstallRest_returns: "steadyClock h \<Longrightarrow> aptInstallRest h ids res tr \<noteq> None"
proof -
  assume "steadyClock h"
  then have ends: "aptRunInstall h args tot tr = None \<Longrightarrow> False" for args tot tr using aptRunInstall_ends [of h args tot tr] by auto
  show ?thesis by (auto simp: aptInstallRest_def Let_def dest: ends split: prod.splits sum.splits option.splits)
qed

lemma rest_returns: "dnfInstallRest h bin ids res tr \<noteq> None" "pacmanInstallRest h ids res tr \<noteq> None"
  by (auto simp: dnfInstallRest_def pacmanInstallRest_def Let_def split: prod.splits sum.splits option.splits)

lemma installFrame_gate:
  assumes "\<And>ids res tr. rest ids res tr \<noteq> None"
  shows "\<exists>out. installFrame h rest ids held tr = Some (held, out)"
proof -
  have "\<exists>out. map_option (\<lambda>out. (gateRelease True, out)) (rest ids1 res1 tr) = Some (False, out)" for ids1 res1
    using assms [of ids1 res1 tr] by (auto simp: gateRelease_def)
  then show ?thesis
    by (cases held) (auto simp: installFrame_def gateAcquire_def Let_def split: prod.splits sum.splits)
qed

definition dpkgQuery :: "string list" where
  "dpkgQuery = [''dpkg-query'', ''-W'', ''-f'', ''${Package}'' @ [CHR 0x09] @ ''${Version}'' @ [CHR 0x0A]]"

text \<open>The specs of a plan are ids that apt offers, and the names it asks dpkg for are plain.\<close>

lemma aptPlan_words:
  assumes "aptInstallPlan ids offered res = (plan, res')"
  shows "s \<in> set (ap_specs plan) \<Longrightarrow> s \<in> set ids \<and> s \<in> set offered \<and> plainArg s"
    and "n \<in> fst ` set (ap_want plan) \<Longrightarrow> plainArg n"
proof -
  note loop = assms [unfolded aptInstallPlan_def]
  show "s \<in> set ids \<and> s \<in> set offered \<and> plainArg s" if s: "s \<in> set (ap_specs plan)"
  proof -
    obtain uid n v where u: "uid \<in> set ids" "aptCheck offered uid = Inr (n, v)" "s = n @ ''='' @ v"
      using apt_planner.loop_words [OF loop s] by auto
    then have "s = uid" "uid \<in> set offered" by (auto simp: aptCheck_Inr splitPkgVersionID_Some)
    moreover have "plainArg s" using apt_planner.loop_plain [OF loop] s by (simp add: list_all_iff)
    ultimately show ?thesis using u by simp
  qed
  have "\<forall>n \<in> fst ` set (ap_want plan). plainArg n"
  proof (rule planLoop_inv [OF loop])
    fix uid a and p :: apt_plan assume a: "aptCheck offered uid = Inr a" and p: "\<forall>n \<in> fst ` set (ap_want p). plainArg n"
    have "plainArg (fst a)" using a name_plain(1) [of "fst a" False] aptCheck_Inr [of offered uid "fst a" "snd a"] by simp
    then show "\<forall>n \<in> fst ` set (ap_want (aptKeep uid a p)). plainArg n"
      using p by (simp add: aptKeep_def dom_update)
  qed simp
  then show "plainArg n" if "n \<in> fst ` set (ap_want plan)" using that by blast
qed

lemma onlyRuns_subset: "onlyRuns tr ok tr' \<Longrightarrow> Cmd argv \<in> set tr' \<Longrightarrow> Cmd argv \<in> set tr \<or> ok argv"
  by (auto simp: onlyRuns_def)

lemma aptInstallRest_runs:
  assumes run: "aptInstallRest h ids res tr = Some (res', err, tr')" and c: "Cmd argv \<in> set tr'" "Cmd argv \<notin> set tr"
  shows "argv = [''apt-get'', ''update''] \<or> argv = aptSimulate \<or>
    (\<exists>names. argv = dpkgQuery @ names \<and> list_all plainArg names) \<or>
    (\<exists>specs tr0 tr2. argv = ''apt-get'' # aptInstallArgs @ specs \<and> specs \<noteq> [] \<and> tr' = tr0 @ Cmd aptSimulate # tr2 \<and>
       (\<forall>s \<in> set specs. s \<in> set ids \<and> plainArg s \<and>
          s \<in> set (offeredIDs (parseAptSimulate (cr_Stdout (h_run h tr0 aptSimulate))))))"
proof (cases "argv = [''apt-get'', ''update''] \<or> argv = aptSimulate")
  case other: False
  obtain r1 tr1 where scan: "aptScan h tr = (r1, tr1)" by fastforce
  have c1: "Cmd argv \<notin> set tr1" using onlyRuns_subset [OF aptScan_runs(1) [OF scan]] c(2) other by blast
  then obtain ups where r1: "r1 = Inr ups" using run scan c(1)
    by (cases r1) (auto simp: aptInstallRest_def)
  obtain tr0 where tr0: "tr1 = tr0 @ [Cmd aptSimulate]" "ups = parseAptSimulate (cr_Stdout (h_run h tr0 aptSimulate))"
    using aptScan_runs(2) [OF scan r1] by blast
  obtain plan res1 where plan: "aptInstallPlan ids (offeredIDs ups) res = (plan, res1)" by fastforce
  have ne: "ap_specs plan \<noteq> []" using run scan r1 plan c(1) c1 by (auto simp: aptInstallRest_def split: if_splits)
  then obtain r e tr2 where r: "aptRunInstall h (aptInstallArgs @ ap_specs plan) (length (ap_specs plan)) tr1 = Some (r, e, tr2)"
    using run scan r1 plan by (auto simp: aptInstallRest_def split: option.splits)
  have tr': "tr' = tr2 @ [Cmd (dpkgQuery @ map fst (ap_want plan))]"
    using run scan r1 plan ne r
    by (auto simp: aptInstallRest_def aptInstalledVersions_def runCmd_def dpkgQuery_def Let_def)
  have two: "onlyRuns tr1 (\<lambda>a. a = ''apt-get'' # aptInstallArgs @ ap_specs plan) tr2"
    using aptRunLoop_runs [OF r [unfolded aptRunInstall_def]] by simp
  then obtain evs where evs: "tr2 = tr1 @ evs" by (auto simp: onlyRuns_def)
  consider "argv = dpkgQuery @ map fst (ap_want plan)" | "argv = ''apt-get'' # aptInstallArgs @ ap_specs plan"
    using c(1) c1 tr' onlyRuns_subset [OF two] by auto
  then show ?thesis
  proof cases
    case 1
    then show ?thesis using aptPlan_words(2) [OF plan] by (auto simp: list_all_iff)
  next
    case 2
    have "tr' = tr0 @ Cmd aptSimulate # (evs @ [Cmd (dpkgQuery @ map fst (ap_want plan))])" using tr' evs tr0 by simp
    moreover have "\<forall>s \<in> set (ap_specs plan). s \<in> set ids \<and> plainArg s \<and>
        s \<in> set (offeredIDs (parseAptSimulate (cr_Stdout (h_run h tr0 aptSimulate))))"
      using aptPlan_words(1) [OF plan] tr0(2) by blast
    ultimately show ?thesis using 2 ne by blast
  qed
qed auto

lemma aptAttribute_installed:
  "i \<in> set (pr_Installed (aptAttribute byName installed runErr tl0 (n, v) res)) \<longleftrightarrow>
   i \<in> set (pr_Installed res) \<or> (map_of installed n = Some v \<and> i = (case map_of byName n of Some u \<Rightarrow> u | None \<Rightarrow> []))"
  by (auto simp: aptAttribute_def Let_def split: option.splits if_splits)

lemma attributeAptResult_installed:
  "i \<in> set (pr_Installed (attributeAptResult want byName installed runErr tl0 res)) \<longleftrightarrow>
   i \<in> set (pr_Installed res) \<or>
   (\<exists>n v. (n, v) \<in> set want \<and> map_of installed n = Some v \<and> i = (case map_of byName n of Some u \<Rightarrow> u | None \<Rightarrow> []))"
  unfolding attributeAptResult_def
proof (induction want arbitrary: res)
  case (Cons nv want)
  obtain n v where nv: "nv = (n, v)" by (cases nv)
  show ?case using Cons [of "aptAttribute byName installed runErr tl0 nv res"]
    by (auto simp: nv aptAttribute_installed)
qed simp


subsection \<open>dnf\<close>

definition dnfCheckUpdate :: "string \<Rightarrow> string list" where
  "dnfCheckUpdate bin = [dnfCommand bin, ''-q'', ''check-update'']"

definition dnfQueries :: "string \<Rightarrow> string list list" where
  "dnfQueries bin = [dnfCheckUpdate bin, [dnfCommand bin, ''-q'', ''updateinfo'', ''list'', ''--with-cve''],
     [dnfCommand bin, ''needs-restarting'', ''-r''], [''needs-restarting'', ''-r'']]"

definition rpmQuery :: "string list" where
  "rpmQuery = [''rpm'', ''-q'', ''--qf'', ''%{NAME}-%{EVR}.%{ARCH}'' @ [CHR 0x0A]]"

lemma offeredIDs_Nil: "offeredIDs [] = []"
  by (simp add: offeredIDs_def)

lemma dnfUpdates_ids: "offeredIDs (dnfUpdates es adv) = map dnfID es"
  by (auto simp: offeredIDs_def dnfUpdates_def dnfUpdate_def mkUpdate_def Let_def split: option.splits)

lemma dnfPlan_words:
  assumes "dnfInstallPlan ids offered res = (plan, res')" and s: "s \<in> set (dp_specs plan)"
  shows "plainArg s \<and> (\<exists>uid \<in> set ids. uid \<in> set offered \<and> dnfInstallSpec uid = Inr s)"
proof -
  note loop = assms(1) [unfolded dnfInstallPlan_def]
  obtain uid where "uid \<in> set ids" "dnfCheck offered uid = Inr s" using dnf_planner.loop_words [OF loop s] by auto
  then show ?thesis using dnfCheck_Inr by blast
qed

lemma dnfScan_runs:
  assumes "dnfScan h bin tr = (r, tr')"
  shows "\<exists>evs. tr' = tr @ Cmd (dnfCheckUpdate bin) # evs" and "onlyRuns tr (\<lambda>argv. argv \<in> set (dnfQueries bin)) tr'"
    and "r = Inr ups \<Longrightarrow> set (offeredIDs ups) \<subseteq> dnfID ` set (parseDNFCheckUpdate (cr_Stdout (h_run h tr (dnfCheckUpdate bin))))"
  using assms
  by (auto simp: dnfScan_def dnfAdvisories_def runCmd_def dnfCheckUpdate_def dnfQueries_def onlyRuns_def dnfUpdates_ids offeredIDs_Nil
        split: option.splits if_splits prod.splits)

lemma dnfRebootRequired_runs:
  "dnfRebootRequired h bin tr = (b, tr') \<Longrightarrow> onlyRuns tr (\<lambda>argv. argv \<in> set (dnfQueries bin)) tr'"
  by (auto simp: dnfRebootRequired_def runCmd_def dnfQueries_def onlyRuns_def split: if_splits)

lemma dnfInstallRest_runs:
  assumes run: "dnfInstallRest h bin ids res tr = Some (res', err, tr')" and c: "Cmd argv \<in> set tr'" "Cmd argv \<notin> set tr"
  shows "argv \<in> set (dnfQueries bin) \<or>
    (\<exists>specs. (argv = [dnfCommand bin, ''-y'', ''install'', ''--''] @ specs \<or> argv = rpmQuery @ specs) \<and> specs \<noteq> [] \<and>
       (\<forall>s \<in> set specs. plainArg s \<and> (\<exists>uid \<in> set ids. dnfInstallSpec uid = Inr s \<and>
          uid \<in> dnfID ` set (parseDNFCheckUpdate (cr_Stdout (h_run h tr (dnfCheckUpdate bin)))))))"
proof (cases "argv \<in> set (dnfQueries bin)")
  case other: False
  obtain r1 tr1 where scan: "dnfScan h bin tr = (r1, tr1)" by fastforce
  have c1: "Cmd argv \<notin> set tr1" using onlyRuns_subset [OF dnfScan_runs(2) [OF scan]] c(2) other by blast
  then obtain ups where r1: "r1 = Inr ups" using run scan c(1) by (cases r1) (auto simp: dnfInstallRest_def)
  obtain plan res1 where plan: "dnfInstallPlan ids (offeredIDs ups) res = (plan, res1)" by fastforce
  have ne: "dp_specs plan \<noteq> []" using run scan r1 plan c(1) c1 by (auto simp: dnfInstallRest_def split: if_splits)
  let ?args = "[dnfCommand bin, ''-y'', ''install'', ''--''] @ dp_specs plan"
  obtain r tr2 where r: "runInstallCmd h dnfProgressPhase (length (dp_specs plan)) ?args tr1 = (r, tr2)" by fastforce
  obtain b tr3 where b: "dnfRebootRequired h bin tr2 = (b, tr3)" by fastforce
  have "Cmd argv \<in> set tr3 \<or> argv = rpmQuery @ dp_specs plan"
    using run scan r1 plan ne r b c(1)
    by (auto simp: dnfInstallRest_def dnfInstalledSpecs_def runCmd_def rpmQuery_def Let_def split: option.splits if_splits)
  moreover have "Cmd argv \<in> set tr3 \<Longrightarrow> Cmd argv \<in> set tr2"
    using onlyRuns_subset [OF dnfRebootRequired_runs [OF b]] other by blast
  moreover have "Cmd argv \<in> set tr2 \<Longrightarrow> argv = ?args"
    using onlyRuns_subset [OF runInstallCmd_runs [OF r, of "\<lambda>a. a = ?args"]] c1 by blast
  moreover have "\<forall>s \<in> set (dp_specs plan). plainArg s \<and> (\<exists>uid \<in> set ids. dnfInstallSpec uid = Inr s \<and>
      uid \<in> dnfID ` set (parseDNFCheckUpdate (cr_Stdout (h_run h tr (dnfCheckUpdate bin)))))"
    using dnfPlan_words [OF plan] dnfScan_runs(3) [OF scan r1] by blast
  ultimately show ?thesis using ne by blast
qed simp

subsection \<open>pacman\<close>

lemma pacmanPlan_words:
  assumes "pacmanInstallPlan ids offered res = (plan, res')" and s: "n \<in> set (pp_names plan)"
  shows "plainArg n \<and> n \<in> set offered \<and> (\<exists>uid \<in> set ids. \<exists>v. splitPkgVersionID uid = Some (n, v))"
proof -
  note loop = assms(1) [unfolded pacmanInstallPlan_def]
  obtain uid where "uid \<in> set ids" "pacmanCheck offered uid = Inr n" using pacman_planner.loop_words [OF loop s] by auto
  then show ?thesis using pacmanCheck_Inr name_plain(1) by blast
qed

lemma pacmanInstallRest_runs:
  assumes run: "pacmanInstallRest h ids res tr = Some (res', err, tr')" and c: "Cmd argv \<in> set tr'" "Cmd argv \<notin> set tr"
  shows "argv = [''pacman'', ''-Qu''] \<or> argv = [''pacman'', ''-Q''] \<or>
    (\<exists>names. (argv = [''pacman'', ''-S'', ''--noconfirm'', ''--needed'', ''--''] @ names \<or> argv = [''pacman'', ''-Q''] @ names) \<and> names \<noteq> [] \<and>
       (\<forall>n \<in> set names. plainArg n \<and> n \<in> set (pacmanOfferedNames (parsePacmanQu (cr_Stdout (h_run h tr [''pacman'', ''-Qu''])))) \<and>
          (\<exists>uid \<in> set ids. \<exists>v. splitPkgVersionID uid = Some (n, v))))"
proof (cases "argv = [''pacman'', ''-Qu''] \<or> argv = [''pacman'', ''-Q'']")
  case other: False
  obtain r1 tr1 where scan: "pacmanScan h tr = (r1, tr1)" by fastforce
  have tr1: "tr1 = tr @ [Cmd [''pacman'', ''-Qu'']]"
    using scan by (auto simp: pacmanScan_def runCmd_def split: option.splits if_splits)
  obtain ups where r1: "r1 = Inr ups" using run scan c tr1 other by (cases r1) (auto simp: pacmanInstallRest_def)
  have ups: "set (pacmanOfferedNames ups) \<subseteq> set (pacmanOfferedNames (parsePacmanQu (cr_Stdout (h_run h tr [''pacman'', ''-Qu'']))))"
    using scan r1 by (auto simp: pacmanScan_def runCmd_def pacmanOfferedNames_def List.map_filter_simps split: option.splits if_splits)
  obtain plan res1 where plan: "pacmanInstallPlan ids (pacmanOfferedNames ups) res = (plan, res1)" by fastforce
  let ?tr2 = "tr1 @ [Cmd [''pacman'', ''-Q'']]"
  have ne: "pp_names plan \<noteq> []" using run scan r1 plan c tr1 other
    by (auto simp: pacmanInstallRest_def pacmanInstalledVersions_def runCmd_def Let_def split: if_splits)
  let ?args = "[''pacman'', ''-S'', ''--noconfirm'', ''--needed'', ''--''] @ pp_names plan"
  obtain r tr3 where r: "runInstallCmd h pacmanPhase (length (pp_names plan)) ?args ?tr2 = (r, tr3)" by fastforce
  have "Cmd argv \<in> set tr3 \<or> argv = [''pacman'', ''-Q''] @ pp_names plan"
    using run scan r1 plan ne r c(1)
    by (auto simp: pacmanInstallRest_def pacmanInstalledVersions_def runCmd_def Let_def)
  moreover have "Cmd argv \<in> set tr3 \<Longrightarrow> argv = ?args"
    using onlyRuns_subset [OF runInstallCmd_runs [OF r, of "\<lambda>a. a = ?args"]] c(2) tr1 other by auto
  ultimately show ?thesis using ne pacmanPlan_words [OF plan] ups by blast
qed auto

section \<open>Progress\<close>


lemma pctOf_bounds: "0 \<le> seen \<Longrightarrow> 10 \<le> pctOf seen tot \<and> pctOf seen tot \<le> 90"
proof (cases "tot \<le> 0")
  case False
  assume s: "0 \<le> seen"
  let ?m = "if tot < seen then tot else seen"
  have "0 \<le> 80 * ?m div tot" using s False by (intro pos_imp_zdiv_nonneg_iff [THEN iffD2]) auto
  moreover have "80 * ?m div tot \<le> 80 * tot div tot" using False by (intro zdiv_mono1) auto
  ultimately show ?thesis using False by (simp add: pctOf_def)
qed (simp add: pctOf_def)

lemma pctOf_mono: "s \<le> t \<Longrightarrow> pctOf s tot \<le> pctOf t tot"
proof (cases "tot \<le> 0")
  case False
  assume "s \<le> t"
  then have "80 * (if tot < s then tot else s) div tot \<le> 80 * (if tot < t then tot else t) div tot"
    using False by (intro zdiv_mono1) auto
  then show ?thesis using False by (simp add: pctOf_def)
qed (simp add: pctOf_def)

lemma ticks_sorted:
  "0 \<le> seen \<Longrightarrow> Tick ph p \<in> set (ticksOf phaseOf tot seen ls) \<Longrightarrow> pctOf seen tot \<le> p \<and> p \<le> 90"
proof (induction ls arbitrary: seen)
  case (Cons line ls)
  show ?case
  proof (cases "phaseOf line")
    case (Some ph')
    define seen1 where "seen1 = (if ph' = ''install'' then seen + 1 else seen)"
    have le: "pctOf seen tot \<le> pctOf seen1 tot" "0 \<le> seen1" "pctOf seen1 tot \<le> 90"
      using Cons.prems(1) pctOf_mono [of seen seen1 tot] pctOf_bounds [of seen1 tot] by (auto simp: seen1_def)
    consider "p = pctOf seen1 tot" | "Tick ph p \<in> set (ticksOf phaseOf tot seen1 ls)"
      using Cons.prems(2) Some by (auto simp: Let_def seen1_def)
    then show ?thesis using le Cons.IH [of seen1] by cases auto
  qed (use Cons in simp)
qed simp

definition printed :: "string \<Rightarrow> cmdResult" where
  "printed s = \<lparr>cr_Stdout = s, cr_Stderr = [], cr_ExitCode = 0, cr_Err = None\<rparr>"

fun slepts :: "trace \<Rightarrow> int" where
  "slepts [] = 0"
| "slepts (Slept d # tr) = max 0 d + slepts tr"
| "slepts (_ # tr) = slepts tr"

definition demoHost :: "duration option \<Rightarrow> host" where
  "demoHost left =
     \<lparr>h_run = (\<lambda>tr argv.
        if argv = aptSimulate then printed (''Inst bash [1] (2 Debian:12 [amd64])'' @ [CHR 0x0A])
        else if hd argv = ''dpkg-query'' then printed (''bash'' @ [CHR 0x09] @ ''2'' @ [CHR 0x0A])
        else if argv = dnfCheckUpdate [] then (printed (''bash.x86_64 5-1 base'' @ [CHR 0x0A]))\<lparr>cr_ExitCode := 100\<rparr>
        else if hd argv = ''rpm'' then printed (''bash-5-1.x86_64'' @ [CHR 0x0A])
        else if argv = [''pacman'', ''-Qu''] then printed (''bash 1 -> 2'' @ [CHR 0x0A])
        else if take 2 argv = [''pacman'', ''-Q''] then printed (''bash 2'' @ [CHR 0x0A])
        else printed []),
      h_slept = (\<lambda>tr d. True), h_now = slepts, h_left = left, h_ctxErr = (\<lambda>tr. Canceled),
      h_exists = (\<lambda>tr p. False), h_have = (\<lambda>b. True), h_release = Inr ''6.1'', h_statErr = (\<lambda>tr p. None)\<rparr>"

lemma demo_apt:
  "aptInstall (demoHost None) [''bash=2'', ''x''] False [] =
     Some (False, \<lparr>pr_Installed = [''bash=2''], pr_Failed = [(''x'', BadForm ''x'')], pr_RebootRequired = False\<rparr>, None,
           [Cmd [''apt-get'', ''update''], Cmd aptSimulate, Cmd (''apt-get'' # aptInstallArgs @ [''bash=2'']),
            Cmd (dpkgQuery @ [''bash''])])"
  by code_simp

lemma demo_dnf:
  "dnfInstall (demoHost None) [] [''bash.x86_64=5-1''] False [] =
     Some (False, \<lparr>pr_Installed = [''bash.x86_64=5-1''], pr_Failed = [], pr_RebootRequired = False\<rparr>, None,
           [Cmd (dnfCheckUpdate []), Cmd [''dnf'', ''-q'', ''updateinfo'', ''list'', ''--with-cve''],
            Cmd [''dnf'', ''-y'', ''install'', ''--'', ''bash-5-1.x86_64''], Cmd [''dnf'', ''needs-restarting'', ''-r''],
            Cmd (rpmQuery @ [''bash-5-1.x86_64''])])"
  by code_simp

lemma demo_pacman:
  "pacmanInstall (demoHost None) [''bash=2''] False [] =
     Some (False, \<lparr>pr_Installed = [''bash=2''], pr_Failed = [], pr_RebootRequired = False\<rparr>, None,
           [Cmd [''pacman'', ''-Qu''], Cmd [''pacman'', ''-Q''],
            Cmd [''pacman'', ''-S'', ''--noconfirm'', ''--needed'', ''--'', ''bash''], Cmd [''pacman'', ''-Q'', ''bash'']])"
  by code_simp

text \<open>What apt's result says is installed is what dpkg answered last.\<close>

lemma aptPlan_filed:
  assumes "aptInstallPlan ids offered res = (plan, res')" and "map_of (ap_idByName plan) n = Some u"
  shows "\<exists>v. map_of (ap_want plan) n = Some v \<and> splitPkgVersionID u = Some (n, v)"
proof -
  have "\<forall>n u. map_of (ap_idByName plan) n = Some u \<longrightarrow> (\<exists>v. map_of (ap_want plan) n = Some v \<and> splitPkgVersionID u = Some (n, v))"
  proof (rule planLoop_inv [OF assms(1) [unfolded aptInstallPlan_def]])
    fix uid a and p :: apt_plan assume a: "aptCheck offered uid = Inr a"
      and p: "\<forall>n u. map_of (ap_idByName p) n = Some u \<longrightarrow> (\<exists>v. map_of (ap_want p) n = Some v \<and> splitPkgVersionID u = Some (n, v))"
    have "splitPkgVersionID uid = Some (fst a, snd a)" using a aptCheck_Inr [of offered uid "fst a" "snd a"] by simp
    then show "\<forall>n u. map_of (ap_idByName (aptKeep uid a p)) n = Some u \<longrightarrow>
        (\<exists>v. map_of (ap_want (aptKeep uid a p)) n = Some v \<and> splitPkgVersionID u = Some (n, v))"
      using p by (simp add: aptKeep_def update_conv)
  qed simp
  then show ?thesis using assms(2) by blast
qed

lemma aptInstallRest_evidence:
  assumes run: "aptInstallRest h ids res tr = Some (res', err, tr')" and "i \<in> set (pr_Installed res')" "i \<notin> set (pr_Installed res)"
  shows "\<exists>tr0 names n v. tr' = tr0 @ [Cmd (dpkgQuery @ names)] \<and> splitPkgVersionID i = Some (n, v) \<and>
    map_of (parseDpkgVersions (cr_Stdout (h_run h tr0 (dpkgQuery @ names)))) n = Some v"
proof -
  obtain r1 tr1 where scan: "aptScan h tr = (r1, tr1)" by fastforce
  obtain ups where r1: "r1 = Inr ups" using run scan assms(2,3) by (cases r1) (auto simp: aptInstallRest_def)
  obtain plan res1 where plan: "aptInstallPlan ids (offeredIDs ups) res = (plan, res1)" by fastforce
  have i1: "pr_Installed res1 = pr_Installed res" using apt_planner.loop_failed [OF plan [unfolded aptInstallPlan_def]] by simp
  have ne: "ap_specs plan \<noteq> []" using run scan r1 plan i1 assms(2,3) by (auto simp: aptInstallRest_def split: if_splits)
  then obtain r e tr2 where r: "aptRunInstall h (aptInstallArgs @ ap_specs plan) (length (ap_specs plan)) tr1 = Some (r, e, tr2)"
    using run scan r1 plan by (auto simp: aptInstallRest_def split: option.splits)
  let ?q = "dpkgQuery @ map fst (ap_want plan)"
  let ?inst = "parseDpkgVersions (cr_Stdout (h_run h tr2 ?q))"
  have tr': "tr' = tr2 @ [Cmd ?q]" and res': "pr_Installed res' = pr_Installed (attributeAptResult (ap_want plan) (ap_idByName plan) ?inst e (tailOf r 3) res1)"
    using run scan r1 plan ne r
    by (auto simp: aptInstallRest_def aptInstalledVersions_def runCmd_def dpkgQuery_def Let_def)
  obtain n v where nv: "(n, v) \<in> set (ap_want plan)" "map_of ?inst n = Some v" "i = (case map_of (ap_idByName plan) n of Some u \<Rightarrow> u | None \<Rightarrow> [])"
    using assms(2,3) i1 unfolding res' attributeAptResult_installed by auto
  note keys = aptPlan_keys [OF plan]
  have "map_of (ap_idByName plan) n \<noteq> None" using nv(1) keys by (metis fst_conv image_eqI list.set_map map_of_eq_None_iff)
  then have "map_of (ap_idByName plan) n = Some i" using nv(3) by (auto split: option.splits)
  then obtain v' where v': "map_of (ap_want plan) n = Some v'" "splitPkgVersionID i = Some (n, v')" using aptPlan_filed [OF plan] by blast
  have "v' = v" using v'(1) nv(1) keys by (metis map_of_is_SomeI option.inject)
  then show ?thesis using tr' v'(2) nv(2) by blast
qed

lemma aptInstall_evidence:
  assumes run: "aptInstall h ids held tr = Some (held', res, err, tr')" and i: "i \<in> set (pr_Installed res)"
  shows "\<exists>tr0 names n v. tr' = tr0 @ [Cmd (dpkgQuery @ names)] \<and> splitPkgVersionID i = Some (n, v) \<and>
    map_of (parseDpkgVersions (cr_Stdout (h_run h tr0 (dpkgQuery @ names)))) n = Some v"
proof (cases "dedupeIDs ids = [] \<or> checkInstallDeadline (h_left h) \<noteq> None")
  case True
  have "pr_Installed (fold (\<lambda>uid. failID uid e) xs newInstallResult) = []" for e xs
    by (rule fold_invariant [where Q = "\<lambda>_. True" and P = "\<lambda>r. pr_Installed r = []"]) (auto simp: newInstallResult_def)
  then show ?thesis using run True i
    by (auto simp: aptInstall_def installFrame_def prepareInstall_def newInstallResult_def Let_def split: if_splits)
next
  case False
  obtain out res1 where r: "refuseSelfPackages (dedupeIDs ids) newInstallResult = (out, res1)" by fastforce
  have none: "pr_Installed res1 = []" using refuseSelf_out [OF r] by (simp add: newInstallResult_def)
  have "aptInstallRest h out res1 tr = Some (res, err, tr')"
    using run False r i none
    by (auto simp: aptInstall_def installFrame_def prepareInstall_def gateAcquire_def Let_def split: if_splits option.splits)
  then show ?thesis using aptInstallRest_evidence i none by auto
qed

section \<open>Properties\<close>

text \<open>
  C7. Everything an apt install runs: refreshing and simulating, one install command with fixed
  options, and a query of dpkg. The words of the install command stand behind the end of the
  options; each is one of the requested ids, offered by the simulation that this install ran, not
  the agent's own package, and starts with a letter or digit and has no white space.\<close>

theorem aptInstall_commands:
  assumes "aptInstall h ids held [] = Some (held', res, err, tr)" and "Cmd argv \<in> set tr"
  shows "argv = [''apt-get'', ''update''] \<or> argv = aptSimulate \<or>
    (\<exists>names. argv = dpkgQuery @ names \<and> list_all plainArg names) \<or>
    (\<exists>specs tr0 tr2. argv = ''apt-get'' # aptInstallArgs @ specs \<and> specs \<noteq> [] \<and> tr = tr0 @ Cmd aptSimulate # tr2 \<and>
       (\<forall>s \<in> set specs. s \<in> set ids \<and> \<not> isSelfPackage s \<and> plainArg s \<and>
          s \<in> set (offeredIDs (parseAptSimulate (cr_Stdout (h_run h tr0 aptSimulate))))))"
  using assms(1) [unfolded aptInstall_def]
proof (cases rule: installFrame_cases)
  case (2 out res1)
  have out: "s \<in> set out \<Longrightarrow> s \<in> set ids \<and> \<not> isSelfPackage s" for s using 2(1) by simp
  show ?thesis using aptInstallRest_runs [OF 2(2) assms(2)] out by simp blast
qed (use assms in simp)

theorem aptInstall_commands_witness:
  "\<exists>specs tr0 tr2. [''apt-get'', ''-y'', ''-o'', ''Dpkg::Options::=--force-confdef'', ''-o'', ''Dpkg::Options::=--force-confold'', ''install'', ''--'', ''bash=2''] =
     ''apt-get'' # aptInstallArgs @ specs \<and>
     (\<forall>s \<in> set specs. s \<in> set (offeredIDs (parseAptSimulate (cr_Stdout (h_run (demoHost None) tr0 aptSimulate)))))"
  using aptInstall_commands [OF demo_apt, of "''apt-get'' # aptInstallArgs @ [''bash=2'']"]
  by (auto simp: aptInstallArgs_def aptSimulate_def dpkgQuery_def)

text \<open>
  Everything a dnf install runs: its queries, one install command and the same words in a query
  of rpm. Each word names the package of a requested id that this install's own scan listed, and
  starts with a letter or digit and has no white space; the words stand behind the end of the options.\<close>

theorem dnfInstall_commands:
  assumes "dnfInstall h bin ids held [] = Some (held', res, err, tr)" and "Cmd argv \<in> set tr"
  shows "argv \<in> set (dnfQueries bin) \<or>
    (\<exists>specs. (argv = [dnfCommand bin, ''-y'', ''install'', ''--''] @ specs \<or> argv = rpmQuery @ specs) \<and> specs \<noteq> [] \<and>
       (\<forall>s \<in> set specs. plainArg s \<and> (\<exists>uid \<in> set ids. \<not> isSelfPackage uid \<and> dnfInstallSpec uid = Inr s \<and>
          uid \<in> dnfID ` set (parseDNFCheckUpdate (cr_Stdout (h_run h [] (dnfCheckUpdate bin)))))))"
  using assms(1) [unfolded dnfInstall_def]
proof (cases rule: installFrame_cases)
  case (2 out res1)
  have out: "s \<in> set out \<Longrightarrow> s \<in> set ids \<and> \<not> isSelfPackage s" for s using 2(1) by simp
  consider "argv \<in> set (dnfQueries bin)"
    | specs where "argv = [dnfCommand bin, ''-y'', ''install'', ''--''] @ specs \<or> argv = rpmQuery @ specs" "specs \<noteq> []"
        "\<forall>s \<in> set specs. plainArg s \<and> (\<exists>uid \<in> set out. dnfInstallSpec uid = Inr s \<and>
          uid \<in> dnfID ` set (parseDNFCheckUpdate (cr_Stdout (h_run h [] (dnfCheckUpdate bin)))))"
    using dnfInstallRest_runs [OF 2(2) assms(2)] by auto
  then show ?thesis
  proof cases
    case (2 specs)
    have "\<forall>s \<in> set specs. plainArg s \<and> (\<exists>uid \<in> set ids. \<not> isSelfPackage uid \<and> dnfInstallSpec uid = Inr s \<and>
        uid \<in> dnfID ` set (parseDNFCheckUpdate (cr_Stdout (h_run h [] (dnfCheckUpdate bin)))))"
      using 2(3) out by blast
    with 2(1,2) show ?thesis by blast
  qed simp
qed (use assms in simp)

theorem dnfInstall_commands_witness:
  "\<exists>uid \<in> set [''bash.x86_64=5-1'']. \<not> isSelfPackage uid \<and> dnfInstallSpec uid = Inr ''bash-5-1.x86_64''"
  using dnfInstall_commands [OF demo_dnf, of "[''dnf'', ''-y'', ''install'', ''--'', ''bash-5-1.x86_64'']"]
  by (auto simp: dnfQueries_def dnfCheckUpdate_def dnfCommand_def rpmQuery_def)

text \<open>
  Everything a pacman install runs: its queries, one install command and the same names in a
  query. Each name is that of a requested id which is not the agent's own package, has a pending
  update in this install's own scan, and starts with a letter or digit and has no white space.\<close>

theorem pacmanInstall_commands:
  assumes "pacmanInstall h ids held [] = Some (held', res, err, tr)" and "Cmd argv \<in> set tr"
  shows "argv = [''pacman'', ''-Qu''] \<or> argv = [''pacman'', ''-Q''] \<or>
    (\<exists>names. (argv = [''pacman'', ''-S'', ''--noconfirm'', ''--needed'', ''--''] @ names \<or> argv = [''pacman'', ''-Q''] @ names) \<and> names \<noteq> [] \<and>
       (\<forall>n \<in> set names. plainArg n \<and> n \<in> set (pacmanOfferedNames (parsePacmanQu (cr_Stdout (h_run h [] [''pacman'', ''-Qu''])))) \<and>
          (\<exists>uid \<in> set ids. \<not> isSelfPackage uid \<and> (\<exists>v. splitPkgVersionID uid = Some (n, v)))))"
  using assms(1) [unfolded pacmanInstall_def]
proof (cases rule: installFrame_cases)
  case (2 out res1)
  have out: "s \<in> set out \<Longrightarrow> s \<in> set ids \<and> \<not> isSelfPackage s" for s using 2(1) by simp
  consider "argv = [''pacman'', ''-Qu''] \<or> argv = [''pacman'', ''-Q'']"
    | names where "argv = [''pacman'', ''-S'', ''--noconfirm'', ''--needed'', ''--''] @ names \<or> argv = [''pacman'', ''-Q''] @ names" "names \<noteq> []"
        "\<forall>n \<in> set names. plainArg n \<and> n \<in> set (pacmanOfferedNames (parsePacmanQu (cr_Stdout (h_run h [] [''pacman'', ''-Qu''])))) \<and>
          (\<exists>uid \<in> set out. \<exists>v. splitPkgVersionID uid = Some (n, v))"
    using pacmanInstallRest_runs [OF 2(2) assms(2)] by auto
  then show ?thesis
  proof cases
    case (2 names)
    have "\<forall>n \<in> set names. plainArg n \<and> n \<in> set (pacmanOfferedNames (parsePacmanQu (cr_Stdout (h_run h [] [''pacman'', ''-Qu''])))) \<and>
        (\<exists>uid \<in> set ids. \<not> isSelfPackage uid \<and> (\<exists>v. splitPkgVersionID uid = Some (n, v)))"
      using 2(3) out by blast
    with 2(1,2) show ?thesis by blast
  qed blast
qed (use assms in simp)

theorem pacmanInstall_commands_witness:
  "''bash'' \<in> set (pacmanOfferedNames (parsePacmanQu (cr_Stdout (h_run (demoHost None) [] [''pacman'', ''-Qu'']))))"
  using pacmanInstall_commands [OF demo_pacman, of "[''pacman'', ''-S'', ''--noconfirm'', ''--needed'', ''--'', ''bash'']"]
  by auto




lemma slepts_append: "slepts (tr @ tr') = slepts tr + slepts tr'"
  by (induction tr rule: slepts.induct) auto

lemma slepts_nonneg: "0 \<le> slepts tr"
  by (induction tr rule: slepts.induct) auto

lemma demo_clock: "steadyClock (demoHost left)"
  using slepts_nonneg by (simp add: steadyClock_def demoHost_def slepts_append)


text \<open>
  Whatever apt's exit status was, the ids reported installed after an apt run are those whose
  wanted version dpkg has on disk.\<close>

theorem attribution_is_dpkg:
  "i \<in> set (pr_Installed (attributeAptResult want byName installed runErr tl0 res)) \<longleftrightarrow>
   i \<in> set (pr_Installed res) \<or>
   (\<exists>n v. (n, v) \<in> set want \<and> map_of installed n = Some v \<and> i = (case map_of byName n of Some u \<Rightarrow> u | None \<Rightarrow> []))"
  by (rule attributeAptResult_installed)

text \<open>
  An install whose deadline is less than half an hour away runs nothing at all: it returns the
  error, and every id is recorded as failed with it.\<close>

theorem short_deadline_runs_nothing:
  assumes "h_left h = Some d" and "d < 30 * 60 * second" and "dedupeIDs ids \<noteq> []"
  shows "\<exists>res. installFrame h rest ids held tr = Some (held, res, Some (TimeoutTooShort d), tr) \<and>
    pr_Installed res = [] \<and> distinct (map fst (pr_Failed res)) \<and> set (pr_Failed res) = {(i, TimeoutTooShort d) | i. i \<in> set ids \<and> i \<noteq> []}"
proof -
  let ?res = "fold (\<lambda>uid. failID uid (TimeoutTooShort d)) (dedupeIDs ids) newInstallResult"
  have "pr_Installed (fold (\<lambda>uid. failID uid e) xs res) = pr_Installed res \<and>
      pr_Failed (fold (\<lambda>uid. failID uid e) xs res) = pr_Failed res @ map (\<lambda>i. (i, e)) xs"
    if "distinct (map fst (pr_Failed res) @ xs)" for e xs res
    using that
  proof (induction xs arbitrary: res)
    case (Cons x xs)
    have new: "map_of (pr_Failed res) x = None" using Cons.prems by (auto simp: map_of_eq_None_iff)
    show ?case using Cons.IH [of "failID x e res"] Cons.prems new by (auto simp: failID_def)
  qed simp
  from this [of newInstallResult "dedupeIDs ids" "TimeoutTooShort d"]
  have "pr_Installed ?res = []" "pr_Failed ?res = map (\<lambda>i. (i, TimeoutTooShort d)) (dedupeIDs ids)"
    by (simp_all add: newInstallResult_def)
  moreover have "installFrame h rest ids held tr = Some (held, ?res, Some (TimeoutTooShort d), tr)"
    using assms by (simp add: installFrame_def prepareInstall_def checkInstallDeadline_def MinInstallTimeout_def)
  ultimately show ?thesis by (auto simp: comp_def)
qed

theorem short_deadline_runs_nothing_witness:
  "\<exists>res. aptInstall (demoHost (Some second)) [''bash=2''] False [] = Some (False, res, Some (TimeoutTooShort second), [])"
proof -
  have "dedupeIDs [''bash=2''] \<noteq> []" by code_simp
  then show ?thesis
    using short_deadline_runs_nothing [of "demoHost (Some second)" second "[''bash=2'']" "aptInstallRest (demoHost (Some second))" False "[]"]
    by (auto simp: aptInstall_def demoHost_def second_def)
qed

end
