(* ===== verification/Patch_Jobs.thy ===== *)
theory Patch_Jobs
  imports Job_Handlers Patch_Correct
begin

text \<open>
  A patch job on a host with apt: \<open>HandlePatchInstall\<close> of \<open>agent/internal/jobs/patch_wire.go\<close> over
  the \<open>Install\<close> of \<open>agent/internal/patch/apt_linux.go\<close>, and what the status of the job's result says
  about the host.
\<close>

section \<open>A backend as the handler calls it\<close>

text \<open>The classes of an install's error that \<open>patchResult\<close> tells apart with \<open>errors.Is\<close>.\<close>

fun asJobError :: "(patch_error \<Rightarrow> string) \<Rightarrow> patch_error \<Rightarrow> job_error" where
  "asJobError msg Busy = JBusy (msg Busy)"
| "asJobError msg (CmdError DeadlineExceeded) = JDeadline (msg (CmdError DeadlineExceeded))"
| "asJobError msg (CmdError Canceled) = JCanceled (msg (CmdError Canceled))"
| "asJobError msg (CtxDone DeadlineExceeded) = JDeadline (msg (CtxDone DeadlineExceeded))"
| "asJobError msg (CtxDone Canceled) = JCanceled (msg (CtxDone Canceled))"
| "asJobError msg (ScanFailed e) =
     (case asJobError msg e of
        JBusy _ \<Rightarrow> JBusy (msg (ScanFailed e))
      | JDeadline _ \<Rightarrow> JDeadline (msg (ScanFailed e))
      | JCanceled _ \<Rightarrow> JCanceled (msg (ScanFailed e))
      | _ \<Rightarrow> JOther (msg (ScanFailed e)))"
| "asJobError msg e = JOther (msg e)"

definition tickSteps :: "trace \<Rightarrow> (int \<times> string \<times> string) list" where
  "tickSteps evs = List.map_filter (\<lambda>e. case e of Tick phase pct \<Rightarrow> Some (pct, phase, []) | _ \<Rightarrow> None) evs"

text \<open>The progress, result and error that the handler sees of an install; \<open>msg\<close> is the text of an error.\<close>

definition asBackend :: "(patch_error \<Rightarrow> string) \<Rightarrow> outcome \<Rightarrow> (int \<times> string \<times> string) list \<times> install_result \<times> job_error option" where
  "asBackend msg out =
     (case out of (res, err, evs) \<Rightarrow>
        (tickSteps evs,
         \<lparr>ir_Installed = pr_Installed res, ir_Failed = map (\<lambda>(i, e). (i, msg e)) (pr_Failed res),
          ir_RebootRequired = pr_RebootRequired res\<rparr>,
         map_option (asJobError msg) err))"

section \<open>Success\<close>

lemma patchResult_succeeded:
  "rs_Status (patchResult err failed) = StatusSucceeded \<longleftrightarrow> err = None \<and> failed = 0"
  by (auto simp: patchResult_def mkResult_def split: option.splits job_error.splits)

text \<open>
  C13. A patch job on apt whose result is a success has installed everything it was asked for: every
  requested id is in the list of installed updates, and the last thing the install did was to ask
  dpkg, which answered with the version of the id.\<close>

theorem patch_success_is_installed:
  assumes "pe_manager env = Some (Inr install)" and "aptInstall h ids held [] = Some (held', out)" and "install ids = asBackend msg out"
    and "HandlePatchInstall env jobID ids w = (res, err, w')"
    and "rs_Status (patchResult err (length (ir_Failed res))) = StatusSucceeded" and "namesApart ids" and "i \<in> set ids" and "i \<noteq> []"
  shows "i \<in> set (ir_Installed res) \<and>
    (\<exists>tr0 names n v. snd (snd out) = tr0 @ [pkg_event.Cmd (dpkgQuery @ names)] \<and> splitPkgVersionID i = Some (n, v) \<and>
       map_of (parseDpkgVersions (cr_Stdout (h_run h tr0 (dpkgQuery @ names)))) n = Some v)"
proof -
  obtain r e tr where out: "out = (r, e, tr)" by (cases out)
  have ne: "ids \<noteq> []" using assms(7) by auto
  have res: "res = \<lparr>ir_Installed = pr_Installed r, ir_Failed = map (\<lambda>(i, e). (i, msg e)) (pr_Failed r), ir_RebootRequired = pr_RebootRequired r\<rparr>"
    and err: "err = map_option (asJobError msg) e"
    using assms(1,3,4) ne out by (auto simp: HandlePatchInstall_def asBackend_def Let_def)
  have ok: "e = None" "pr_Failed r = []" using assms(5) res err by (simp_all add: patchResult_succeeded)
  have "booked r (set ids - {[]})"
    using apt_books.frame_books [of h ids held "[]" held' r e tr] assms(2,6) out ok(1) by (simp add: aptInstall_def)
  then have "i \<in> set (pr_Installed r)" using assms(7,8) ok(2) by (auto simp: booked_def)
  moreover from this have "\<exists>tr0 names n v. tr = tr0 @ [pkg_event.Cmd (dpkgQuery @ names)] \<and> splitPkgVersionID i = Some (n, v) \<and>
       map_of (parseDpkgVersions (cr_Stdout (h_run h tr0 (dpkgQuery @ names)))) n = Some v"
    using aptInstall_evidence assms(2) out by blast
  ultimately show ?thesis using res out by simp
qed

definition demoPatchEnv :: patch_env where
  "demoPatchEnv = \<lparr>pe_refresh = None,
     pe_manager = Some (Inr (\<lambda>ids. case aptInstall (demoHost None) ids False [] of
        Some (_, out) \<Rightarrow> asBackend (\<lambda>_. []) out | None \<Rightarrow> ([], noInstall, None))),
     pe_obj = (\<lambda>_. None), pe_arr = (\<lambda>_. None), pe_ms = 0\<rparr>"

lemma demo_apt_ok:
  "aptInstall (demoHost None) [''bash=2''] False [] =
     Some (False, \<lparr>pr_Installed = [''bash=2''], pr_Failed = [], pr_RebootRequired = False\<rparr>, None,
           [pkg_event.Cmd [''apt-get'', ''update''], pkg_event.Cmd aptSimulate, pkg_event.Cmd (''apt-get'' # aptInstallArgs @ [''bash=2'']),
            pkg_event.Cmd (dpkgQuery @ [''bash''])])"
  by code_simp

theorem patch_success_is_installed_witness:
  "\<exists>res err w'. HandlePatchInstall demoPatchEnv ''j'' [''bash=2''] emptyWorld = (res, err, w') \<and> ''bash=2'' \<in> set (ir_Installed res)"
proof -
  obtain res err w' where h: "HandlePatchInstall demoPatchEnv ''j'' [''bash=2''] emptyWorld = (res, err, w')" by (metis prod_cases3)
  then have "rs_Status (patchResult err (length (ir_Failed res))) = StatusSucceeded"
    by (auto simp: HandlePatchInstall_def demoPatchEnv_def demo_apt_ok asBackend_def patchResult_succeeded Let_def)
  moreover have "namesApart [''bash=2'']" by (simp add: namesApart_def)
  ultimately show ?thesis
    using patch_success_is_installed [of demoPatchEnv _ "demoHost None" "[''bash=2'']" False, OF _ demo_apt_ok _ h, of _ "\<lambda>_. []" "''bash=2''"] h
    by (auto simp: demoPatchEnv_def demo_apt_ok)
qed

end
