(* ===== verification/Patch_Mac.thy ===== *)
theory Patch_Mac
  imports Patch_Correct
begin

text \<open>
  Updates of macOS: reading the listing of \<open>softwareupdate\<close>
  (\<open>agent/internal/patch/softwareupdate_parse.go\<close>) and installing with it
  (\<open>softwareupdate_darwin.go\<close>). Reading a size with a fraction, \<open>strconv.ParseFloat\<close> times the
  unit, is the argument \<open>fsize\<close>.
\<close>

section \<open>The listing\<close>

record macOSHost =
  mh_AppleSilicon :: bool
  mh_MajorVersion :: int

record suBlock =
  su_Label :: string
  su_Attrs :: "(string \<times> string) list"

definition detailAppleSilicon :: string where
  "detailAppleSilicon = ''requires MDM or a local admin session''"

definition detailMajorUpgrade :: string where
  "detailMajorUpgrade = ''major macOS upgrades are not installed by the agent''"

text \<open>\<open>strings.Split\<close> for a longer separator.\<close>

function splitSub :: "string \<Rightarrow> string \<Rightarrow> string list" where
  "splitSub sep s =
     (if sep = [] then [s]
      else (case cutSub sep s of None \<Rightarrow> [s] | Some (a, b) \<Rightarrow> a # splitSub sep b))"
  by pat_completeness auto

lemma cutSub_length: "cutSub sep s = Some (a, b) \<Longrightarrow> sep \<noteq> [] \<Longrightarrow> length b < length s"
proof (induction s arbitrary: a)
  case (Cons c cs)
  show ?case
  proof (cases "hasPrefix (c # cs) sep")
    case True
    then show ?thesis using Cons.prems by (cases sep) auto
  next
    case False
    then show ?thesis using Cons by (auto simp: less_SucI)
  qed
qed (simp split: if_splits)

termination splitSub
  by (relation "measure (length \<circ> snd)") (auto dest: cutSub_length)

declare splitSub.simps [simp del]

definition attrFrag :: "string \<Rightarrow> (string \<times> string) list \<times> string \<Rightarrow> (string \<times> string) list \<times> string" where
  "attrFrag frag0 s =
     (let (attrs, lastKey) = s;
          frag = trimSpace (trimSuffix '','' (trimSpace frag0));
          more0 = (if lastKey = [] then (attrs, lastKey)
                  else (AList.update lastKey ((case map_of attrs lastKey of Some v \<Rightarrow> v | None \<Rightarrow> []) @ '', '' @ frag) attrs, lastKey))
      in if frag = [] then (attrs, lastKey)
         else (case cutSub '': '' frag of
                 None \<Rightarrow> more0
               | Some (key, val) \<Rightarrow>
                   if (CHR '' '' \<in> set key \<or> CHR 0x09 \<in> set key) \<and> lastKey \<noteq> [] then more0
                   else (AList.update (trimSpace key) (trimSpace val) attrs, trimSpace key)))"

definition parseSoftwareUpdateAttrs :: "string \<Rightarrow> (string \<times> string) list" where
  "parseSoftwareUpdateAttrs line = fst (fold attrFrag (splitSub '', '' line) ([], []))"

definition cutSoftwareUpdateLabel :: "string \<Rightarrow> string option" where
  "cutSoftwareUpdateLabel line =
     (case cutPrefix ''* Label:'' line of
        Some rest \<Rightarrow> Some (trimSpace rest)
      | None \<Rightarrow> map_option trimSpace (cutPrefix ''*Label:'' line))"

text \<open>The state of the loop: the open block, the finished ones and the labels given up.\<close>

type_synonym su_state = "suBlock option \<times> suBlock list \<times> string list"

definition suFlush :: "su_state \<Rightarrow> su_state" where
  "suFlush s =
     (case s of
        (None, blocks, degraded) \<Rightarrow> s
      | (Some b, blocks, degraded) \<Rightarrow>
          if su_Attrs b = [] then (None, blocks, degraded @ [su_Label b]) else (None, blocks @ [b], degraded))"

definition suLine :: "string \<Rightarrow> su_state \<Rightarrow> su_state" where
  "suLine raw s =
     (let line = trimEOL raw; trimmed = trimSpace line
      in if trimmed = [] then s
         else (case cutSoftwareUpdateLabel trimmed of
                 Some label \<Rightarrow>
                   (let (_, blocks, degraded) = suFlush s
                    in if label = [] then (None, blocks, degraded @ [''(empty label)''])
                       else (Some \<lparr>su_Label = label, su_Attrs = []\<rparr>, blocks, degraded))
               | None \<Rightarrow>
                   (case s of
                      (None, _, _) \<Rightarrow> s
                    | (Some b, blocks, degraded) \<Rightarrow>
                        if line = trimmed then suFlush s
                        else (Some (b\<lparr>su_Attrs := fold (\<lambda>(k, v). AList.update k v) (parseSoftwareUpdateAttrs trimmed) (su_Attrs b)\<rparr>),
                              blocks, degraded))))"

definition splitSoftwareUpdateBlocks :: "string \<Rightarrow> suBlock list \<times> string list" where
  "splitSoftwareUpdateBlocks out = snd (suFlush (fold suLine (linesOf out) (None, [], [])))"

section \<open>Classification\<close>

definition macOSDefinitionPrefixes :: "string list" where
  "macOSDefinitionPrefixes = [''XProtect'', ''MRTConfigData'', ''Gatekeeper'', ''ConfigData'', ''XProtectPlistConfigData'']"

definition isMajorMacOSUpgrade :: "string \<Rightarrow> int \<Rightarrow> bool" where
  "isMajorMacOSUpgrade version runningMajor \<longleftrightarrow>
     (if runningMajor \<le> 0 then True
      else (case parseInt64 (trimSpace (case cutOn CHR ''.'' version of Some (hd0, _) \<Rightarrow> hd0 | None \<Rightarrow> version)) of
              None \<Rightarrow> True
            | Some major \<Rightarrow> runningMajor < major))"

definition classifySoftwareUpdate :: "string \<Rightarrow> string \<Rightarrow> string \<Rightarrow> macOSHost \<Rightarrow> string \<times> bool \<times> string" where
  "classifySoftwareUpdate label title version host0 =
     (let lowLabel = toLower label; lowTitle = toLower title;
          isOS = hasPrefix label ''macOS '' \<or> hasPrefix title ''macOS '';
          kind = (if containsSub lowTitle ''security response'' \<or> containsSub lowTitle ''security update'' \<or> containsSub lowLabel ''securityupd''
                  then KindSecurity
                  else if hasPrefix lowLabel ''safari'' \<or> hasPrefix lowTitle ''safari'' then KindSecurity
                  else if isOS then KindSecurity else KindOther)
      in if list_ex (hasPrefix label) macOSDefinitionPrefixes then (KindDefinition, False, [])
         else if \<not> isOS then (kind, False, [])
         else if isMajorMacOSUpgrade version (mh_MajorVersion host0) then (KindFeature, True, detailMajorUpgrade)
         else if mh_AppleSilicon host0 then (kind, True, detailAppleSilicon)
         else (kind, False, []))"

definition sizeUnits :: "(string \<times> int) list" where
  "sizeUnits =
     [(''KiB'', 1024), (''MiB'', 1024 * 1024), (''GiB'', 1024 * 1024 * 1024), (''KB'', 1024), (''MB'', 1024 * 1024),
      (''GB'', 1024 * 1024 * 1024), (''K'', 1024), (''M'', 1024 * 1024), (''G'', 1024 * 1024 * 1024), (''B'', 1)]"

definition cutSuffix :: "string \<Rightarrow> string \<Rightarrow> string option" where
  "cutSuffix q s = map_option rev (cutPrefix (rev q) (rev s))"

text \<open>\<open>fsize digits mul\<close>: the bytes of a size that is not a whole number, if it reads as one.\<close>

definition parseSizeDigits :: "(string \<Rightarrow> int \<Rightarrow> int option) \<Rightarrow> string \<Rightarrow> int \<Rightarrow> int" where
  "parseSizeDigits fsize digits mul =
     (case parseInt64 digits of
        Some n \<Rightarrow> wrap64 (n * mul)
      | None \<Rightarrow> (case fsize digits mul of Some b \<Rightarrow> b | None \<Rightarrow> 0))"

fun sizeWith :: "(string \<Rightarrow> int \<Rightarrow> int option) \<Rightarrow> (string \<times> int) list \<Rightarrow> string \<Rightarrow> int" where
  "sizeWith fsize [] fld = parseSizeDigits fsize fld 1"
| "sizeWith fsize ((suffix0, mul) # us) fld =
     (case cutSuffix suffix0 fld of
        Some digits \<Rightarrow> parseSizeDigits fsize (trimSpace digits) mul
      | None \<Rightarrow> sizeWith fsize us fld)"

definition parseSoftwareUpdateSize :: "(string \<Rightarrow> int \<Rightarrow> int option) \<Rightarrow> string \<Rightarrow> int" where
  "parseSoftwareUpdateSize fsize field0 =
     (let fld = trimSpace field0 in if fld = [] then 0 else sizeWith fsize sizeUnits fld)"

definition attrOf :: "suBlock \<Rightarrow> string \<Rightarrow> string" where
  "attrOf b k = (case map_of (su_Attrs b) k of Some v \<Rightarrow> v | None \<Rightarrow> [])"

definition suUpdate :: "(string \<Rightarrow> int \<Rightarrow> int option) \<Rightarrow> macOSHost \<Rightarrow> suBlock \<Rightarrow> update option" where
  "suUpdate fsize host0 b =
     (if su_Label b = [] \<or> su_Attrs b = [] then None
      else let version = attrOf b ''Version'';
               title0 = (if attrOf b ''Title'' = [] then su_Label b else attrOf b ''Title'');
               title = (if version \<noteq> [] \<and> \<not> containsSub title0 version then title0 @ '' '' @ version else title0);
               (kind, unsupported, detail) = classifySoftwareUpdate (su_Label b) title version host0
           in Some \<lparr>up_ID = su_Label b, up_Title = title, up_Kind = kind, up_KBIDs = [], up_Severity = SeverityUnknown,
                    up_SizeBytes = parseSoftwareUpdateSize fsize (attrOf b ''Size''),
                    up_RebootLikely = (toLower (attrOf b ''Action'') = ''restart''),
                    up_Unsupported = unsupported, up_Detail = detail\<rparr>)"

definition parseSoftwareUpdateList ::
  "(string \<Rightarrow> int \<Rightarrow> int option) \<Rightarrow> string \<Rightarrow> macOSHost \<Rightarrow> update list \<times> string list" where
  "parseSoftwareUpdateList fsize out host0 =
     (let (blocks, bad) = splitSoftwareUpdateBlocks out
      in (List.map_filter (suUpdate fsize host0) blocks,
          bad @ map su_Label (filter (\<lambda>b. suUpdate fsize host0 b = None) blocks)))"

definition parseSWVersMajor :: "string \<Rightarrow> int" where
  "parseSWVersMajor out0 =
     (let out = trimSpace out0; hd0 = (case cutOn CHR ''.'' out of Some (a, _) \<Rightarrow> a | None \<Rightarrow> out)
      in case parseInt64 hd0 of None \<Rightarrow> 0 | Some major \<Rightarrow> if major \<le> 0 then 0 else major)"

definition softwareUpdateFailureMarkers :: "string list" where
  "softwareUpdateFailureMarkers = [''failed to install'', ''could not be installed'', ''an error occurred'', ''not authorized'',
     ''authentication is required'', ''must be run as root'', ''no such update'', ''update not found'']"

definition softwareUpdateInstallFailed :: "string \<Rightarrow> bool" where
  "softwareUpdateInstallFailed t \<longleftrightarrow> list_ex (containsSub (toLower t)) softwareUpdateFailureMarkers"

section \<open>Scan and install\<close>

definition macHost :: "host \<Rightarrow> bool \<Rightarrow> trace \<Rightarrow> macOSHost \<times> trace" where
  "macHost h arm tr =
     (let (r, tr1) = runCmd h [''sw_vers'', ''-productVersion''] tr
      in (\<lparr>mh_AppleSilicon = arm, mh_MajorVersion = (if cmdOK r then parseSWVersMajor (cr_Stdout r) else 0)\<rparr>, tr1))"

definition macScan ::
  "host \<Rightarrow> (string \<Rightarrow> int \<Rightarrow> int option) \<Rightarrow> bool \<Rightarrow> trace \<Rightarrow> (patch_error + update list) \<times> trace" where
  "macScan h fsize arm tr =
     (let (r, tr1) = runCmd h [''softwareupdate'', ''--list''] tr
      in (case cr_Err r of
            Some m \<Rightarrow> (Inl (CmdError m), tr1)
          | None \<Rightarrow>
              (let (mh, tr2) = macHost h arm tr1;
                   (updates, degraded) = parseSoftwareUpdateList fsize (cr_Stdout r @ [CHR 0x0A] @ cr_Stderr r) mh
               in if updates = [] \<and> cr_ExitCode r \<noteq> 0 \<and> \<not> containsSub (combined r) ''No new software''
                  then (Inl (CmdExit (cr_ExitCode r) (tailOf r 5)), tr2)
                  else (Inr updates, tr2))))"

text \<open>
  The loop of \<open>Install\<close> over the ids, from the position \<open>i\<close> of \<open>n\<close>. The table \<open>byID\<close> holds the last
  update of each label; \<open>restart\<close> is \<open>restartNeeded\<close>. A tick carries its phase and percentage.
\<close>

fun macLoop ::
  "host \<Rightarrow> (string \<times> update) list \<Rightarrow> nat \<Rightarrow> nat \<Rightarrow> string list \<Rightarrow> pkg_result \<Rightarrow> bool \<Rightarrow> trace \<Rightarrow> pkg_result \<times> bool \<times> trace" where
  "macLoop h byID n i [] res restart tr = (res, restart, tr)"
| "macLoop h byID n i (uid # ids) res restart tr =
     (case map_of byID uid of
        None \<Rightarrow> macLoop h byID n (Suc i) ids (failID uid (NotOffered uid) res) restart tr
      | Some u \<Rightarrow>
          if up_Unsupported u then macLoop h byID n (Suc i) ids (failID uid (Refused (up_Detail u)) res) restart tr
          else let pct = pctOf (int i) (int n);
                   (r, tr1) = runCmd h [''softwareupdate'', ''--install'', uid, ''--no-restart''] (tr @ [Tick ''download'' pct]);
                   tr2 = tr1 @ map (\<lambda>_. Tick ''install'' pct) (linesOf (cr_Stdout r))
               in (case cr_Err r of
                     Some m \<Rightarrow> macLoop h byID n (Suc i) ids (failID uid (CmdError m) res) restart tr2
                   | None \<Rightarrow>
                       if cr_ExitCode r \<noteq> 0 then macLoop h byID n (Suc i) ids (failID uid (CmdExit (cr_ExitCode r) (tailOf r 5)) res) restart tr2
                       else if softwareUpdateInstallFailed (combined r)
                       then macLoop h byID n (Suc i) ids (failID uid (NotInstalled (tailOf r 3)) res) restart tr2
                       else macLoop h byID n (Suc i) ids (res\<lparr>pr_Installed := pr_Installed res @ [uid]\<rparr>) (restart \<or> up_RebootLikely u) tr2))"

definition macInstallRest ::
  "host \<Rightarrow> (string \<Rightarrow> int \<Rightarrow> int option) \<Rightarrow> bool \<Rightarrow> string list \<Rightarrow> pkg_result \<Rightarrow> trace \<Rightarrow> outcome option" where
  "macInstallRest h fsize arm ids res tr =
     (case macScan h fsize arm tr of
        (Inl e, tr1) \<Rightarrow> Some (res, Some (ScanFailed e), tr1)
      | (Inr available, tr1) \<Rightarrow>
          (let byID = fold (\<lambda>u. AList.update (up_ID u) u) available [];
               (res1, restart, tr2) = macLoop h byID (length ids) 0 ids res False tr1
           in Some (res1\<lparr>pr_RebootRequired := restart\<rparr>, None, tr2)))"

definition macInstall ::
  "host \<Rightarrow> (string \<Rightarrow> int \<Rightarrow> int option) \<Rightarrow> bool \<Rightarrow> string list \<Rightarrow> bool \<Rightarrow> trace \<Rightarrow> (bool \<times> outcome) option" where
  "macInstall h fsize arm = installFrame h (macInstallRest h fsize arm)"

text \<open>The flag that \<open>RebootRequired\<close> reads, after an install with the given result.\<close>

definition rebootPendingAfter :: "bool \<Rightarrow> pkg_result \<Rightarrow> bool" where
  "rebootPendingAfter pending res = (pending \<or> pr_RebootRequired res)"


section \<open>What an install does\<close>

lemma byID_lookup:
  "map_of (fold (\<lambda>u. AList.update (up_ID u) u) ups m) i = Some u \<Longrightarrow> map_of m i = Some u \<or> u \<in> set ups \<and> up_ID u = i"
proof (induction ups arbitrary: m)
  case (Cons x xs)
  then show ?case by (fastforce simp: update_conv split: if_splits)
qed simp

text \<open>The loop runs an install for an id only if the listing has it and does not rule it out.\<close>

lemma macLoop_runs:
  "macLoop h byID n i ids res restart tr = (res', restart', tr') \<Longrightarrow>
   onlyRuns tr (\<lambda>argv. \<exists>uid u. argv = [''softwareupdate'', ''--install'', uid, ''--no-restart''] \<and> uid \<in> set ids \<and>
     map_of byID uid = Some u \<and> \<not> up_Unsupported u) tr'"
proof (induction ids arbitrary: i res restart tr)
  case (Cons uid ids)
  let ?ok = "\<lambda>ids argv. \<exists>uid u. argv = [''softwareupdate'', ''--install'', uid, ''--no-restart''] \<and> uid \<in> set ids \<and>
     map_of byID uid = Some u \<and> \<not> up_Unsupported u"
  have mono: "onlyRuns t (?ok ids) tr' \<Longrightarrow> onlyRuns t (?ok (uid # ids)) tr'" for t
    by (erule onlyRuns_mono) auto
  show ?case
  proof (cases "map_of byID uid = None \<or> (\<exists>u. map_of byID uid = Some u \<and> up_Unsupported u)")
    case True
    then obtain res1 where "macLoop h byID n (Suc i) ids res1 restart tr = (res', restart', tr')"
      using Cons.prems by auto
    then show ?thesis using Cons.IH mono by blast
  next
    case False
    then obtain u where u: "map_of byID uid = Some u" "\<not> up_Unsupported u" by auto
    let ?pct = "pctOf (int i) (int n)" and ?argv = "[''softwareupdate'', ''--install'', uid, ''--no-restart'']"
    let ?tr0 = "tr @ [Tick ''download'' ?pct]"
    let ?r = "h_run h ?tr0 ?argv"
    let ?tr2 = "(?tr0 @ [Cmd ?argv]) @ map (\<lambda>_. Tick ''install'' ?pct) (linesOf (cr_Stdout ?r))"
    obtain res1 restart1 where "macLoop h byID n (Suc i) ids res1 restart1 ?tr2 = (res', restart', tr')"
      using Cons.prems u by (auto simp: runCmd_def Let_def split: option.splits if_splits)
    then have "onlyRuns ?tr2 (?ok (uid # ids)) tr'" using Cons.IH mono by blast
    moreover have "onlyRuns tr (?ok (uid # ids)) ?tr2" using u by (auto simp: onlyRuns_def)
    ultimately show ?thesis by (rule onlyRuns_trans [rotated])
  qed
qed (simp add: onlyRuns_refl)

lemma macLoop_books:
  "macLoop h byID n i ids res restart tr = (res', restart', tr') \<Longrightarrow> booked res S \<Longrightarrow> distinct ids \<Longrightarrow> S \<inter> set ids = {} \<Longrightarrow>
   booked res' (S \<union> set ids)"
proof (induction ids arbitrary: i res restart tr S)
  case (Cons uid ids)
  have "\<exists>res1 restart1 tr1. macLoop h byID n (Suc i) ids res1 restart1 tr1 = (res', restart', tr') \<and>
      ((\<exists>e. res1 = failID uid e res) \<or> res1 = res\<lparr>pr_Installed := pr_Installed res @ [uid]\<rparr>)"
    using Cons.prems(1) by (auto simp: runCmd_def Let_def split: option.splits if_splits)
  then obtain res1 restart1 tr1 where l: "macLoop h byID n (Suc i) ids res1 restart1 tr1 = (res', restart', tr')"
    and "(\<exists>e. res1 = failID uid e res) \<or> res1 = res\<lparr>pr_Installed := pr_Installed res @ [uid]\<rparr>" by blast
  then have "booked res1 (insert uid S)" using Cons.prems booked_fail booked_install by auto
  then have "booked res' (insert uid S \<union> set ids)" using Cons.prems by (intro Cons.IH [OF l]) auto
  then show ?case by simp
qed simp

definition suListing :: "host \<Rightarrow> trace \<Rightarrow> string" where
  "suListing h tr =
     (let r = h_run h tr [''softwareupdate'', ''--list''] in cr_Stdout r @ [CHR 0x0A] @ cr_Stderr r)"

lemma macScan_runs:
  assumes "macScan h fsize arm tr = (r, tr')"
  shows "onlyRuns tr (\<lambda>argv. argv = [''softwareupdate'', ''--list''] \<or> argv = [''sw_vers'', ''-productVersion'']) tr'"
    and "r = Inr ups \<Longrightarrow> ups = fst (parseSoftwareUpdateList fsize (suListing h tr) (fst (macHost h arm (tr @ [Cmd [''softwareupdate'', ''--list'']]))))"
proof -
  let ?r = "h_run h tr [''softwareupdate'', ''--list'']"
  obtain major where m: "macHost h arm (tr @ [Cmd [''softwareupdate'', ''--list'']]) =
      (\<lparr>mh_AppleSilicon = arm, mh_MajorVersion = major\<rparr>, tr @ [Cmd [''softwareupdate'', ''--list''], Cmd [''sw_vers'', ''-productVersion'']])"
    by (simp add: macHost_def runCmd_def)
  obtain u d where p: "parseSoftwareUpdateList fsize (cr_Stdout ?r @ [CHR 0x0A] @ cr_Stderr ?r) \<lparr>mh_AppleSilicon = arm, mh_MajorVersion = major\<rparr> = (u, d)" by fastforce
  show "onlyRuns tr (\<lambda>argv. argv = [''softwareupdate'', ''--list''] \<or> argv = [''sw_vers'', ''-productVersion'']) tr'"
    using assms p by (auto simp: macScan_def runCmd_def m onlyRuns_def split: option.splits if_splits)
  show "ups = fst (parseSoftwareUpdateList fsize (suListing h tr) (fst (macHost h arm (tr @ [Cmd [''softwareupdate'', ''--list'']]))))" if "r = Inr ups"
    using assms p that by (auto simp: macScan_def runCmd_def m suListing_def Let_def split: option.splits if_splits)
qed

interpretation mac_books: booking_install h "macInstallRest h fsize arm" "\<lambda>_. True" for h fsize arm
proof
  fix ids res tr res' err tr' S
  assume run: "macInstallRest h fsize arm ids res tr = Some (res', err, tr')" and ok: "\<nexists>e. err = Some (ScanFailed e)"
    and S: "booked res S" "distinct ids" "S \<inter> set ids = {}"
  then obtain ups tr1 where "macScan h fsize arm tr = (Inr ups, tr1)" by (auto simp: macInstallRest_def split: prod.splits sum.splits)
  then show "booked res' (S \<union> set ids)"
    using run macLoop_books [OF _ S] by (auto simp: macInstallRest_def Let_def split: prod.splits)
qed simp

text \<open>What the classification rules out.\<close>

lemma classify_unsupported:
  "classifySoftwareUpdate label title version host0 = (kind, unsupported, detail) \<Longrightarrow>
   unsupported \<longleftrightarrow> \<not> list_ex (hasPrefix label) macOSDefinitionPrefixes \<and> (hasPrefix label ''macOS '' \<or> hasPrefix title ''macOS '') \<and>
     (isMajorMacOSUpgrade version (mh_MajorVersion host0) \<or> mh_AppleSilicon host0)"
  by (auto simp: classifySoftwareUpdate_def Let_def split: if_splits)

lemma hasPrefix_hd: "hasPrefix s (c # p) \<Longrightarrow> s \<noteq> [] \<and> hd s = c"
  by (cases s) (auto simp: hasPrefix_def)

lemma suUpdate_os:
  assumes "suUpdate fsize host0 b = Some u" and "\<not> up_Unsupported u" and "hasPrefix (su_Label b) ''macOS ''"
  shows "up_ID u = su_Label b \<and> \<not> mh_AppleSilicon host0 \<and> \<not> isMajorMacOSUpgrade (attrOf b ''Version'') (mh_MajorVersion host0)"
proof -
  have "\<not> list_ex (hasPrefix (su_Label b)) macOSDefinitionPrefixes"
    using hasPrefix_hd [OF assms(3)] by (auto simp: macOSDefinitionPrefixes_def dest: hasPrefix_hd)
  then show ?thesis using assms
    by (auto simp: suUpdate_def Let_def split: if_splits prod.splits dest: classify_unsupported)
qed


lemma listed_os:
  assumes "u \<in> set (fst (parseSoftwareUpdateList fsize out host0))" and "\<not> up_Unsupported u" and "hasPrefix (up_ID u) ''macOS ''"
  shows "\<not> mh_AppleSilicon host0 \<and> 0 < mh_MajorVersion host0"
proof -
  obtain b where b: "suUpdate fsize host0 b = Some u"
    using assms(1) by (auto simp: parseSoftwareUpdateList_def List.map_filter_def split: prod.splits)
  then have "up_ID u = su_Label b" by (auto simp: suUpdate_def Let_def split: if_splits prod.splits)
  then show ?thesis using suUpdate_os [OF b assms(2)] assms(3) by (auto simp: isMajorMacOSUpgrade_def split: if_splits)
qed

section \<open>Properties\<close>

text \<open>
  Everything an install with softwareupdate runs: the listing, the version of the system, and
  installs of single labels, always without a restart. Each label was requested, is in the listing
  that this install read and is not ruled out there; and a system update is only ever installed
  on a Mac that is not Apple Silicon and whose version is known.\<close>

theorem macInstall_commands:
  assumes "macInstall h fsize arm ids held [] = Some (held', res, err, tr)" and "Cmd argv \<in> set tr"
  shows "argv = [''softwareupdate'', ''--list''] \<or> argv = [''sw_vers'', ''-productVersion''] \<or>
    (\<exists>u host0. argv = [''softwareupdate'', ''--install'', up_ID u, ''--no-restart''] \<and> up_ID u \<in> set ids \<and> \<not> isSelfPackage (up_ID u) \<and>
       host0 = fst (macHost h arm [Cmd [''softwareupdate'', ''--list'']]) \<and>
       u \<in> set (fst (parseSoftwareUpdateList fsize (suListing h []) host0)) \<and> \<not> up_Unsupported u \<and>
       (hasPrefix (up_ID u) ''macOS '' \<longrightarrow> \<not> mh_AppleSilicon host0 \<and> 0 < mh_MajorVersion host0))"
  using assms(1) [unfolded macInstall_def]
proof (cases rule: installFrame_cases)
  case (2 out res1)
  obtain r1 tr1 where scan: "macScan h fsize arm [] = (r1, tr1)" by fastforce
  note one = onlyRuns_subset [OF macScan_runs(1) [OF scan], of argv]
  show ?thesis
  proof (cases "argv = [''softwareupdate'', ''--list''] \<or> argv = [''sw_vers'', ''-productVersion'']")
    case other: False
    then have c1: "Cmd argv \<notin> set tr1" using one by auto
    then obtain ups where r1: "r1 = Inr ups" using 2(2) scan assms(2) by (cases r1) (auto simp: macInstallRest_def)
    have ups: "ups = fst (parseSoftwareUpdateList fsize (suListing h []) (fst (macHost h arm [Cmd [''softwareupdate'', ''--list'']])))"
      using macScan_runs(2) [OF scan r1] by simp
    let ?byID = "fold (\<lambda>u. AList.update (up_ID u) u) ups []"
    obtain res2 restart where loop: "macLoop h ?byID (length out) 0 out res1 False tr1 = (res2, restart, tr)"
      using 2(2) scan r1 by (auto simp: macInstallRest_def Let_def split: prod.splits)
    obtain uid u where u: "argv = [''softwareupdate'', ''--install'', uid, ''--no-restart'']" "uid \<in> set out" "map_of ?byID uid = Some u" "\<not> up_Unsupported u"
      using onlyRuns_subset [OF macLoop_runs [OF loop] assms(2)] c1 by blast
    then have "u \<in> set ups" "up_ID u = uid" using byID_lookup [of ups "[]" uid u] by auto
    then show ?thesis using u 2(1) ups listed_os [of u fsize "suListing h []"] by auto
  qed auto
qed (use assms in simp)

definition demoMac :: host where
  "demoMac = (demoHost None)\<lparr>h_run := (\<lambda>tr argv.
     if argv = [''softwareupdate'', ''--list'']
     then printed (''* Label: Safari17.5'' @ [CHR 0x0A, CHR 0x09] @ ''Title: Safari, Version: 17.5, Size: 128173KiB, Recommended: YES,'' @ [CHR 0x0A])
     else if argv = [''sw_vers'', ''-productVersion''] then printed (''15.5'' @ [CHR 0x0A]) else printed [])\<rparr>"

lemma demo_mac:
  "macInstall demoMac (\<lambda>_ _. None) True [''Safari17.5''] False [] =
     Some (False, \<lparr>pr_Installed = [''Safari17.5''], pr_Failed = [], pr_RebootRequired = False\<rparr>, None,
       [Cmd [''softwareupdate'', ''--list''], Cmd [''sw_vers'', ''-productVersion''], Tick ''download'' 10,
        Cmd [''softwareupdate'', ''--install'', ''Safari17.5'', ''--no-restart'']])"
  by code_simp

theorem macInstall_commands_witness:
  "\<exists>u. up_ID u = ''Safari17.5'' \<and> \<not> up_Unsupported u \<and>
     u \<in> set (fst (parseSoftwareUpdateList (\<lambda>_ _. None) (suListing demoMac []) (fst (macHost demoMac True [Cmd [''softwareupdate'', ''--list'']]))))"
  using macInstall_commands [OF demo_mac, of "[''softwareupdate'', ''--install'', ''Safari17.5'', ''--no-restart'']"] by auto

text \<open>Every id is accounted for, whatever the ids are.\<close>

lemma mac_install_accounts:
  "macInstall h fsize arm ids held tr = Some (held', res, err, tr') \<Longrightarrow> err \<noteq> Some Busy \<Longrightarrow> \<nexists>e. err = Some (ScanFailed e) \<Longrightarrow>
   booked res (set ids - {[]})"
  using mac_books.frame_books unfolding macInstall_def by blast

end
