(* ===== verification/Patch_WUA.thy ===== *)
theory Patch_WUA
  imports Patch_Correct
begin

text \<open>
  The Windows Update Agent: what a search result becomes (\<open>agent/internal/patch/wua_map.go\<close>), an
  install on the COM thread (\<open>wua_windows.go\<close>) and the hand-over between a caller and that thread
  (\<open>com.go\<close>).

  The answers of COM are the argument \<open>com_env\<close>. The callers, the COM thread and the gate form a
  transition system in which a caller may stop waiting at any moment.
\<close>

section \<open>Search results\<close>

record wuaFields =
  wf_UpdateID :: string
  wf_RevisionNumber :: int
  wf_Title :: string
  wf_MsrcSeverity :: string
  wf_KBIDs :: "string list"
  wf_Categories :: "string list"
  wf_MaxDownloadSize :: int
  wf_RebootBehavior :: int
  wf_EulaAccepted :: bool
  wf_CanRequestUserInput :: bool
  wf_Description :: string

definition detailUserInput :: string where
  "detailUserInput = ''requires user interaction, cannot be installed silently''"

definition mapMsrcSeverity :: "string \<Rightarrow> string" where
  "mapMsrcSeverity msrc =
     (let s = toLower (trimSpace msrc)
      in if s = ''critical'' then SeverityCritical else if s = ''important'' then SeverityImportant
         else if s = ''moderate'' then SeverityModerate else if s = ''low'' then SeverityLow else SeverityUnknown)"

definition wuaRebootLikely :: "int \<Rightarrow> bool" where
  "wuaRebootLikely behavior \<longleftrightarrow> behavior = 1 \<or> behavior = 2"

definition containsAny :: "string list \<Rightarrow> string list \<Rightarrow> bool" where
  "containsAny haystack needles \<longleftrightarrow> list_ex (\<lambda>h. h \<in> set needles) haystack"

definition wuaKind :: "string list \<Rightarrow> string \<Rightarrow> string" where
  "wuaKind categories title =
     (let lower = map toLower categories; low = toLower title
      in if containsAny lower [''definition updates'', ''definition update''] then KindDefinition
         else if containsAny lower [''security updates'', ''critical updates''] then KindSecurity
         else if containsAny lower [''feature packs'', ''upgrades'', ''service packs''] then KindFeature
         else if containsSub low ''security intelligence update'' \<or> containsSub low ''definition update'' \<or>
           containsSub low ''antimalware platform'' then KindDefinition
         else if containsSub low ''security update'' \<or> containsSub low ''security monthly'' then KindSecurity
         else if containsSub low ''feature update'' then KindFeature
         else KindOther)"

definition upperChar :: "char \<Rightarrow> char" where
  "upperChar c = (if isLower c then char_of ((of_char c :: nat) - 32) else c)"

definition normalizeKB :: "string \<Rightarrow> string" where
  "normalizeKB uid = (if hasPrefix (map upperChar uid) ''KB'' then ''KB'' @ drop 2 uid else ''KB'' @ uid)"

fun kbLoop :: "string list \<Rightarrow> string list \<Rightarrow> string list" where
  "kbLoop seen [] = []"
| "kbLoop seen (id0 # ids) =
     (let uid = trimSpace id0; kb = normalizeKB uid
      in if uid = [] \<or> kb \<in> set seen then kbLoop seen ids else kb # kbLoop (kb # seen) ids)"

definition normalizeKBIDs :: "string list \<Rightarrow> string list" where
  "normalizeKBIDs ids = kbLoop [] ids"

definition wuaUpdateFromFields :: "wuaFields \<Rightarrow> update" where
  "wuaUpdateFromFields f =
     \<lparr>up_ID = wf_UpdateID f, up_Title = trimSpace (wf_Title f), up_Kind = wuaKind (wf_Categories f) (wf_Title f),
      up_KBIDs = normalizeKBIDs (wf_KBIDs f), up_Severity = mapMsrcSeverity (wf_MsrcSeverity f),
      up_SizeBytes = wf_MaxDownloadSize f, up_RebootLikely = wuaRebootLikely (wf_RebootBehavior f),
      up_Unsupported = wf_CanRequestUserInput f,
      up_Detail = (if wf_CanRequestUserInput f then detailUserInput else [])\<rparr>"

definition wuaResultOK :: "int \<Rightarrow> bool" where
  "wuaResultOK code \<longleftrightarrow> code = 2 \<or> code = 3"

definition hexUpper :: "nat \<Rightarrow> char" where
  "hexUpper n = (if n < 10 then char_of (48 + n) else char_of (55 + n))"

definition hex8 :: "int \<Rightarrow> string" where
  "hex8 v = map (\<lambda>i. hexUpper (nat (v mod 2 ^ 32) div 16 ^ (7 - i) mod 16)) [0..<8]"

definition wuaResultText :: "int \<Rightarrow> int \<Rightarrow> string" where
  "wuaResultText code hresult =
     (let name = (if code = 0 then ''not started'' else if code = 1 then ''still in progress'' else if code = 2 then ''succeeded''
                  else if code = 3 then ''succeeded with errors'' else if code = 4 then ''failed''
                  else if code = 5 then ''aborted'' else ''unknown result'')
      in if hresult = 0 then name @ '' (code '' @ itoa code @ '')''
         else name @ '' (code '' @ itoa code @ '', hresult 0x'' @ hex8 hresult @ '')'')"

definition lowerTrim :: "string \<Rightarrow> string" where
  "lowerTrim s = toLower (trimSpace s)"

fun selectLoop :: "(string \<times> wuaFields) list \<Rightarrow> string list \<Rightarrow> wuaFields list \<times> string list" where
  "selectLoop byID [] = ([], [])"
| "selectLoop byID (uid # ids) =
     (let (matched, missing) = selectLoop byID ids
      in case map_of byID (toLower (trimSpace uid)) of
           None \<Rightarrow> (matched, uid # missing)
         | Some f \<Rightarrow> (f # matched, missing))"

definition wuaSelect :: "wuaFields list \<Rightarrow> string list \<Rightarrow> wuaFields list \<times> string list" where
  "wuaSelect found ids = selectLoop (fold (\<lambda>f. AList.update (toLower (wf_UpdateID f)) f) found []) ids"

section \<open>An install on the COM thread\<close>

text \<open>
  What COM answers: the errors of the calls that make the session, the installer, the batch and
  the downloader; the search, in which an item may be unreadable; accepting a licence and adding to the
  batch, for each update; the codes of the download and of the install.
\<close>

record com_env =
  ce_session :: "patch_error option"
  ce_installer :: "patch_error option"
  ce_busy :: bool
  ce_batch :: "patch_error option"
  ce_search :: "patch_error + wuaFields option list"
  ce_eula :: "string \<Rightarrow> patch_error option"
  ce_add :: "string \<Rightarrow> patch_error option"
  ce_downloader :: "patch_error option"
  ce_dlPut :: "patch_error option"
  ce_download :: "patch_error + (int \<times> int)"
  ce_put :: "patch_error option"
  ce_install :: "patch_error + (bool \<times> (int \<times> int) \<times> (nat \<Rightarrow> (int \<times> int) option))"

definition wuaScan :: "com_env \<Rightarrow> patch_error + update list" where
  "wuaScan env =
     (case ce_search env of
        Inl e \<Rightarrow> Inl e
      | Inr items \<Rightarrow> Inr (map wuaUpdateFromFields (List.map_filter id items)))"

text \<open>One item of the search: into the batch, refused, or skipped.\<close>

definition wuaPick :: "com_env \<Rightarrow> string list \<Rightarrow> wuaFields \<Rightarrow> string list \<times> pkg_result \<Rightarrow> string list \<times> pkg_result" where
  "wuaPick env ids f s =
     (let (ordered, res) = s; uid = wf_UpdateID f
      in if lowerTrim uid \<notin> lowerTrim ` set ids then s
         else if wf_CanRequestUserInput f then (ordered, failID uid (Refused detailUserInput) res)
         else (case (if wf_EulaAccepted f then None else ce_eula env uid) of
                 Some e \<Rightarrow> (ordered, failID uid e res)
               | None \<Rightarrow>
                   (case ce_add env uid of
                      Some e \<Rightarrow> (ordered, failID uid e res)
                    | None \<Rightarrow> (ordered @ [uid], res))))"

definition wuaMissing :: "string list \<Rightarrow> string \<Rightarrow> pkg_result \<Rightarrow> pkg_result" where
  "wuaMissing ordered uid res =
     (if lowerTrim uid \<in> lowerTrim ` set ordered then res else failID uid (NotOffered uid) res)"

definition wuaDownload :: "com_env \<Rightarrow> patch_error option" where
  "wuaDownload env =
     (case ce_downloader env of
        Some e \<Rightarrow> Some e
      | None \<Rightarrow>
          (case ce_dlPut env of
             Some e \<Rightarrow> Some e
           | None \<Rightarrow>
               (case ce_download env of
                  Inl e \<Rightarrow> Some e
                | Inr (code, hresult) \<Rightarrow> if wuaResultOK code then None else Some (NotInstalled (wuaResultText code hresult)))))"

fun recordOutcomes :: "(int \<times> int) \<Rightarrow> (nat \<Rightarrow> (int \<times> int) option) \<Rightarrow> nat \<Rightarrow> string list \<Rightarrow> pkg_result \<Rightarrow> pkg_result" where
  "recordOutcomes overall per i [] res = res"
| "recordOutcomes overall per i (uid # ids) res =
     (let (code, hresult) = (case per i of Some ch \<Rightarrow> ch | None \<Rightarrow> overall)
      in recordOutcomes overall per (Suc i) ids
           (if wuaResultOK code then res\<lparr>pr_Installed := pr_Installed res @ [uid]\<rparr>
            else failID uid (NotInstalled (wuaResultText code hresult)) res))"

definition wuaInstallBatch :: "com_env \<Rightarrow> string list \<Rightarrow> pkg_result \<Rightarrow> pkg_result \<times> patch_error option" where
  "wuaInstallBatch env ordered res =
     (case wuaDownload env of
        Some e \<Rightarrow> (fold (\<lambda>uid. failID uid e) ordered res, Some e)
      | None \<Rightarrow>
          (case ce_put env of
             Some e \<Rightarrow> (res, Some e)
           | None \<Rightarrow>
               (case ce_install env of
                  Inl e \<Rightarrow> (fold (\<lambda>uid. failID uid e) ordered res, Some e)
                | Inr (reboot, overall, per) \<Rightarrow>
                    (recordOutcomes overall per 0 ordered (res\<lparr>pr_RebootRequired := reboot\<rparr>), None))))"

definition wuaInstallWork :: "com_env \<Rightarrow> string list \<Rightarrow> pkg_result \<Rightarrow> pkg_result \<times> patch_error option" where
  "wuaInstallWork env ids res =
     (case ce_session env of
        Some e \<Rightarrow> (res, Some e)
      | None \<Rightarrow>
          (case ce_installer env of
             Some e \<Rightarrow> (res, Some e)
           | None \<Rightarrow>
               if ce_busy env then (res, Some Busy)
               else (case ce_batch env of
                       Some e \<Rightarrow> (res, Some e)
                     | None \<Rightarrow>
                         (case ce_search env of
                            Inl e \<Rightarrow> (res, Some e)
                          | Inr items \<Rightarrow>
                              (let (ordered, res1) = fold (wuaPick env ids) (List.map_filter id items) ([], res);
                                   res2 = fold (wuaMissing ordered) ids res1
                               in if ordered = [] then (res2, None) else wuaInstallBatch env ordered res2)))))"

section \<open>Callers and the COM thread\<close>

definition abandonedInstallResult :: "string list \<Rightarrow> pkg_result" where
  "abandonedInstallResult ids = fold (\<lambda>uid. failID uid OutcomeUnknown) ids newInstallResult"

type_synonym com_out = "pkg_result \<times> patch_error option"

text \<open>How \<open>comDo\<close> ended for its caller.\<close>

datatype com_end = NotStarted cmd_err | Completed | Abandoned cmd_err

text \<open>\<open>installViaCOM\<close> with the result of the closure: what the caller gets, and the gate as it leaves it.\<close>

definition installViaCOM :: "bool \<Rightarrow> com_end \<Rightarrow> string list \<Rightarrow> com_out \<Rightarrow> com_out \<times> bool" where
  "installViaCOM held end0 ids out =
     (let (free, held1) = gateAcquire held
      in if \<not> free then ((newInstallResult, Some Busy), held1)
         else (case end0 of
                 NotStarted e \<Rightarrow> ((newInstallResult, Some (CtxDone e)), gateRelease held1)
               | Abandoned e \<Rightarrow> ((abandonedInstallResult ids, Some (CtxDone e)), held1)
               | Completed \<Rightarrow> (out, gateRelease held1)))"

definition wuaInstall :: "duration option \<Rightarrow> com_env \<Rightarrow> com_end \<Rightarrow> string list \<Rightarrow> bool \<Rightarrow> com_out \<times> bool" where
  "wuaInstall left env end0 ids0 held =
     (let ids = dedupeIDs ids0
      in if ids = [] then ((newInstallResult, None), held)
         else (case prepareInstall left ids newInstallResult of
                 (Inl e, pre) \<Rightarrow> ((pre, Some e), held)
               | (Inr ids1, pre) \<Rightarrow>
                   if ids1 = [] then ((pre, None), held)
                   else (case installViaCOM held end0 ids1 (wuaInstallWork env ids1 newInstallResult) of
                           ((res, err), held1) \<Rightarrow> ((fold (\<lambda>(i, e). failID i e) (pr_Failed pre) res, err), held1))))"

text \<open>
  A call of \<open>installViaCOM\<close>: it holds the gate and offers its closure to the thread, waits for the
  result, or has returned. The thread runs an install or another call; it goes on with an install
  whose caller has returned.
\<close>

datatype com_call = Sending "string list" | Waiting "string list" | Returned "string list" com_out

datatype thread_job = InstallOf nat "string list" | OtherCall

record com_sys =
  cy_gate :: bool
  cy_thread :: "thread_job option"
  cy_calls :: "nat \<Rightarrow> com_call option"
  cy_done :: "nat \<Rightarrow> com_out option"

definition comStart :: com_sys where
  "comStart = \<lparr>cy_gate = False, cy_thread = None, cy_calls = (\<lambda>_. None), cy_done = (\<lambda>_. None)\<rparr>"

text \<open>\<open>work c ids\<close>: what the closure of the call \<open>c\<close> makes of its ids.\<close>

inductive com_step :: "(nat \<Rightarrow> string list \<Rightarrow> com_out) \<Rightarrow> com_sys \<Rightarrow> com_sys \<Rightarrow> bool" for work where
  admit: "cy_calls s c = None \<Longrightarrow> gateAcquire (cy_gate s) = (True, g) \<Longrightarrow>
    com_step work s (s\<lparr>cy_gate := g, cy_calls := (cy_calls s)(c \<mapsto> Sending ids)\<rparr>)"
| busy: "cy_calls s c = None \<Longrightarrow> gateAcquire (cy_gate s) = (False, g) \<Longrightarrow>
    com_step work s (s\<lparr>cy_gate := g, cy_calls := (cy_calls s)(c \<mapsto> Returned ids (newInstallResult, Some Busy))\<rparr>)"
| not_started: "cy_calls s c = Some (Sending ids) \<Longrightarrow>
    com_step work s (s\<lparr>cy_gate := gateRelease (cy_gate s), cy_calls := (cy_calls s)(c \<mapsto> Returned ids (newInstallResult, Some (CtxDone e)))\<rparr>)"
| handed_over: "cy_calls s c = Some (Sending ids) \<Longrightarrow> cy_thread s = None \<Longrightarrow>
    com_step work s (s\<lparr>cy_thread := Some (InstallOf c ids), cy_calls := (cy_calls s)(c \<mapsto> Waiting ids)\<rparr>)"
| finished: "cy_thread s = Some (InstallOf c ids) \<Longrightarrow>
    com_step work s (s\<lparr>cy_thread := None, cy_gate := gateRelease (cy_gate s), cy_done := (cy_done s)(c \<mapsto> work c ids)\<rparr>)"
| delivered: "cy_calls s c = Some (Waiting ids) \<Longrightarrow> cy_done s c = Some out \<Longrightarrow>
    com_step work s (s\<lparr>cy_calls := (cy_calls s)(c \<mapsto> Returned ids out)\<rparr>)"
| abandoned: "cy_calls s c = Some (Waiting ids) \<Longrightarrow> cy_done s c = None \<Longrightarrow>
    com_step work s (s\<lparr>cy_calls := (cy_calls s)(c \<mapsto> Returned ids (abandonedInstallResult ids, Some (CtxDone e)))\<rparr>)"
| other_start: "cy_thread s = None \<Longrightarrow> com_step work s (s\<lparr>cy_thread := Some OtherCall\<rparr>)"
| other_end: "cy_thread s = Some OtherCall \<Longrightarrow> com_step work s (s\<lparr>cy_thread := None\<rparr>)"

section \<open>One install at a time\<close>

text \<open>
  The gate is held exactly while one install is being handed over or runs on the thread, and
  every result a caller got is one of four: busy, not started, abandoned, or the closure's own.
\<close>

fun isSending :: "com_call option \<Rightarrow> bool" where
  "isSending (Some (Sending _)) = True"
| "isSending _ = False"

fun runs :: "thread_job option \<Rightarrow> nat \<Rightarrow> bool" where
  "runs (Some (InstallOf d _)) c = (d = c)"
| "runs _ c = False"

definition gateInv :: "com_sys \<Rightarrow> bool" where
  "gateInv s \<longleftrightarrow>
     (cy_gate s \<longleftrightarrow> (\<exists>c. isSending (cy_calls s c)) \<or> (\<exists>c. runs (cy_thread s) c)) \<and>
     (\<forall>c c'. isSending (cy_calls s c) \<longrightarrow> isSending (cy_calls s c') \<longrightarrow> c = c') \<and>
     (\<forall>c c'. isSending (cy_calls s c) \<longrightarrow> \<not> runs (cy_thread s) c')"

lemma gateInv_step: "com_step work s t \<Longrightarrow> gateInv s \<Longrightarrow> gateInv t"
proof (induction rule: com_step.induct)
  case (admit s c g ids)
  then show ?case by (auto simp: gateInv_def gateAcquire_def)
next
  case (busy s c g ids)
  then have "isSending (((cy_calls s)(c \<mapsto> Returned ids out)) d) = isSending (cy_calls s d)" "g = cy_gate s" for d out
    by (auto simp: gateAcquire_def)
  then show ?case using busy(3) by (simp add: gateInv_def del: fun_upd_apply)
next
  case (not_started s c ids e)
  have "isSending (cy_calls s c)" using not_started(1) by simp
  then have "\<not> isSending (cy_calls s d)" if "d \<noteq> c" for d using not_started(2) that unfolding gateInv_def by blast
  moreover have "\<not> runs (cy_thread s) d" for d
    using \<open>isSending (cy_calls s c)\<close> not_started(2) unfolding gateInv_def by blast
  ultimately show ?case by (simp add: gateInv_def gateRelease_def)
next
  case (handed_over s c ids)
  have "isSending (cy_calls s c)" using handed_over(1) by simp
  then have "cy_gate s" and "\<And>d. d \<noteq> c \<Longrightarrow> \<not> isSending (cy_calls s d)" using handed_over(3) unfolding gateInv_def by blast+
  moreover from this have "\<not> isSending (((cy_calls s)(c \<mapsto> Waiting ids)) d)" for d by simp
  ultimately show ?case by (simp add: gateInv_def del: fun_upd_apply)
next
  case (finished s c ids)
  have "runs (cy_thread s) c" using finished(1) by simp
  then have "\<not> isSending (cy_calls s d)" for d using finished(2) unfolding gateInv_def by blast
  then show ?case by (simp add: gateInv_def gateRelease_def)
next
  case (delivered s c ids out)
  then have "isSending (((cy_calls s)(c \<mapsto> Returned ids r)) d) = isSending (cy_calls s d)" for d r by simp
  then show ?case using delivered(3) by (simp add: gateInv_def del: fun_upd_apply)
next
  case (abandoned s c ids e)
  then have "isSending (((cy_calls s)(c \<mapsto> Returned ids r)) d) = isSending (cy_calls s d)" for d r by simp
  then show ?case using abandoned(3) by (simp add: gateInv_def del: fun_upd_apply)
qed (auto simp: gateInv_def)

text \<open>What a caller was told, and whether the closure had a part in it.\<close>

definition honest :: "(nat \<Rightarrow> string list \<Rightarrow> com_out) \<Rightarrow> nat \<Rightarrow> thread_job option \<Rightarrow> com_out option \<Rightarrow> string list \<Rightarrow> com_out \<Rightarrow> bool" where
  "honest work c th dn ids out \<longleftrightarrow>
     (out = (newInstallResult, Some Busy) \<or> (\<exists>e. out = (newInstallResult, Some (CtxDone e)))) \<and> dn = None \<and> \<not> runs th c \<or>
     (\<exists>e. out = (abandonedInstallResult ids, Some (CtxDone e))) \<and> (dn = Some (work c ids) \<or> th = Some (InstallOf c ids)) \<or>
     out = work c ids \<and> dn = Some out"

fun callOK :: "(nat \<Rightarrow> string list \<Rightarrow> com_out) \<Rightarrow> nat \<Rightarrow> thread_job option \<Rightarrow> com_out option \<Rightarrow> com_call option \<Rightarrow> bool" where
  "callOK work c th dn (Some (Waiting ids)) \<longleftrightarrow>
     (dn = None \<and> th = Some (InstallOf c ids)) \<or> (dn = Some (work c ids) \<and> \<not> runs th c)"
| "callOK work c th dn (Some (Returned ids out)) \<longleftrightarrow> honest work c th dn ids out \<and> (runs th c \<longrightarrow> dn = None \<and> th = Some (InstallOf c ids))"
| "callOK work c th dn _ \<longleftrightarrow> dn = None \<and> \<not> runs th c"

definition callsInv :: "(nat \<Rightarrow> string list \<Rightarrow> com_out) \<Rightarrow> com_sys \<Rightarrow> bool" where
  "callsInv work s \<longleftrightarrow> (\<forall>c. callOK work c (cy_thread s) (cy_done s c) (cy_calls s c))"

lemma callOK_idle: "\<not> runs th c \<Longrightarrow> \<not> runs th' c \<Longrightarrow> callOK work c th dn v = callOK work c th' dn v"
proof -
  assume r: "\<not> runs th c" "\<not> runs th' c"
  then have "th \<noteq> Some (InstallOf c ids)" "th' \<noteq> Some (InstallOf c ids)" for ids by auto
  with r show ?thesis by (cases "(work, c, th, dn, v)" rule: callOK.cases) (auto simp: honest_def)
qed

lemma callsInv_step: "com_step work s t \<Longrightarrow> callsInv work s \<Longrightarrow> callsInv work t"
proof (induction rule: com_step.induct)
  case (admit s c g ids)
  then have "callOK work c (cy_thread s) (cy_done s c) None" by (metis callsInv_def)
  then show ?case using admit by (auto simp: callsInv_def)
next
  case (busy s c g ids)
  then have "callOK work c (cy_thread s) (cy_done s c) None" by (metis callsInv_def)
  then show ?case using busy by (auto simp: callsInv_def honest_def)
next
  case (not_started s c ids e)
  then have "callOK work c (cy_thread s) (cy_done s c) (Some (Sending ids))" by (metis callsInv_def)
  then show ?case using not_started by (auto simp: callsInv_def honest_def)
next
  case (handed_over s c ids)
  have "callOK work c (cy_thread s) (cy_done s c) (Some (Sending ids))" using handed_over by (metis callsInv_def)
  moreover have "callOK work d (Some (InstallOf c ids)) (cy_done s d) (cy_calls s d)" if "d \<noteq> c" for d
    using handed_over that callOK_idle [of "cy_thread s" d "Some (InstallOf c ids)"] by (auto simp: callsInv_def)
  ultimately show ?case by (auto simp: callsInv_def)
next
  case (finished s c ids)
  have "callOK work d None (cy_done s d) (cy_calls s d)" if "d \<noteq> c" for d
    using finished that callOK_idle [of "cy_thread s" d None] by (auto simp: callsInv_def)
  moreover have "callOK work c (Some (InstallOf c ids)) (cy_done s c) (cy_calls s c)" using finished by (metis callsInv_def)
  then have "callOK work c None (Some (work c ids)) (cy_calls s c)"
    by (cases "(work, c, cy_thread s, cy_done s c, cy_calls s c)" rule: callOK.cases) (auto simp: honest_def)
  ultimately show ?case by (auto simp: callsInv_def)
next
  case (delivered s c ids out)
  then have "callOK work c (cy_thread s) (cy_done s c) (Some (Waiting ids))" by (metis callsInv_def)
  then show ?case using delivered by (auto simp: callsInv_def honest_def)
next
  case (abandoned s c ids e)
  then have "callOK work c (cy_thread s) (cy_done s c) (Some (Waiting ids))" by (metis callsInv_def)
  then show ?case using abandoned by (auto simp: callsInv_def honest_def)
next
  case (other_start s)
  then show ?case using callOK_idle [of "cy_thread s" _ "Some OtherCall"] by (auto simp: callsInv_def)
next
  case (other_end s)
  then show ?case using callOK_idle [of "cy_thread s" _ None] by (auto simp: callsInv_def)
qed

lemma com_reachable: "(com_step work)\<^sup>*\<^sup>* comStart s \<Longrightarrow> gateInv s \<and> callsInv work s"
proof (induction rule: rtranclp_induct)
  case base
  show ?case by (simp add: gateInv_def callsInv_def comStart_def)
qed (use gateInv_step callsInv_step in blast)


section \<open>What an install accounts for\<close>

text \<open>As long as nothing is installed, recording a failure again changes nothing.\<close>

lemma booked_fail_again:
  "booked res T \<Longrightarrow> pr_Installed res = [] \<Longrightarrow> booked (failID uid e res) (insert uid T)"
  by (auto simp: booked_def failID_def map_of_eq_None_iff insert_absorb image_iff split: if_splits)

lemma booked_abandoned: "distinct ids \<Longrightarrow> booked (abandonedInstallResult ids) (set ids)"
  using booked_fold [of ids "\<lambda>i. i" "\<lambda>uid. failID uid OutcomeUnknown" newInstallResult "{}"] booked_new booked_fail
  by (simp add: abandonedInstallResult_def)

text \<open>
  The search knows the requested updates by the ids that were sent: it lists no update twice, an
  update whose id differs from a requested one only in case or blanks is that one, and no two
  requested ids differ only so.
\<close>

definition sameSpelling :: "string list \<Rightarrow> wuaFields list \<Rightarrow> bool" where
  "sameSpelling ids fs \<longleftrightarrow>
     distinct (map wf_UpdateID fs) \<and> distinct (map lowerTrim ids) \<and>
     list_all (\<lambda>f. lowerTrim (wf_UpdateID f) \<in> lowerTrim ` set ids \<longrightarrow> wf_UpdateID f \<in> set ids) fs"

lemma wuaPick_loop:
  assumes "fold (wuaPick env ids) fs (ordered, res) = (ordered', res')"
    and "list_all (\<lambda>f. lowerTrim (wf_UpdateID f) \<in> lowerTrim ` set ids \<longrightarrow> wf_UpdateID f \<in> set ids) fs"
    and "distinct (map wf_UpdateID fs)" and "booked res T" and "pr_Installed res = []" and "distinct ordered"
    and "T \<inter> set ordered = {}" and "(T \<union> set ordered) \<inter> wf_UpdateID ` set fs = {}" and "T \<union> set ordered \<subseteq> set ids"
  shows "\<exists>T'. booked res' T' \<and> pr_Installed res' = [] \<and> distinct ordered' \<and> T' \<inter> set ordered' = {} \<and> T' \<union> set ordered' \<subseteq> set ids"
  using assms
proof (induction fs arbitrary: ordered res T)
  case (Cons f fs)
  obtain o1 r1 where s: "wuaPick env ids f (ordered, res) = (o1, r1)" by fastforce
  let ?u = "wf_UpdateID f"
  have new: "?u \<notin> T" "?u \<notin> set ordered" using Cons.prems(8) by auto
  have "o1 = ordered \<and> r1 = res \<or> ?u \<in> set ids \<and> (o1 = ordered \<and> (\<exists>e. r1 = failID ?u e res) \<or> o1 = ordered @ [?u] \<and> r1 = res)"
    using s Cons.prems(2) by (auto simp: wuaPick_def Let_def split: if_splits option.splits)
  then consider "o1 = ordered" "r1 = res" | e where "?u \<in> set ids" "o1 = ordered" "r1 = failID ?u e res"
    | "?u \<in> set ids" "o1 = ordered @ [?u]" "r1 = res" by blast
  then show ?case
  proof cases
    case 1
    then show ?thesis using Cons.prems s by (intro Cons.IH [of ordered res T]) auto
  next
    case 2
    then have "booked r1 (insert ?u T)" "pr_Installed r1 = []" using Cons.prems(4,5) new booked_fail by auto
    then show ?thesis using Cons.prems s 2 new by (intro Cons.IH [of ordered r1 "insert ?u T"]) auto
  next
    case 3
    then show ?thesis using Cons.prems s new by (intro Cons.IH [of "ordered @ [?u]" res T]) auto
  qed
qed auto

lemma wuaMissing_loop:
  "booked res T \<Longrightarrow> pr_Installed res = [] \<Longrightarrow>
   booked (fold (wuaMissing ordered) xs res) (T \<union> {u \<in> set xs. lowerTrim u \<notin> lowerTrim ` set ordered}) \<and>
   pr_Installed (fold (wuaMissing ordered) xs res) = []"
proof (induction xs arbitrary: res T)
  case (Cons x xs)
  show ?case
  proof (cases "lowerTrim x \<in> lowerTrim ` set ordered")
    case True
    then have "{u \<in> set (x # xs). lowerTrim u \<notin> lowerTrim ` set ordered} = {u \<in> set xs. lowerTrim u \<notin> lowerTrim ` set ordered}" by auto
    then show ?thesis using Cons True by (simp add: wuaMissing_def)
  next
    case False
    then have "T \<union> {u \<in> set (x # xs). lowerTrim u \<notin> lowerTrim ` set ordered} =
        insert x T \<union> {u \<in> set xs. lowerTrim u \<notin> lowerTrim ` set ordered}" by auto
    then show ?thesis
      using Cons.IH [of "failID x (NotOffered x) res" "insert x T"] Cons.prems False booked_fail_again by (simp add: wuaMissing_def)
  qed
qed simp

lemma recordOutcomes_books:
  "booked res T \<Longrightarrow> distinct ordered \<Longrightarrow> T \<inter> set ordered = {} \<Longrightarrow>
   booked (recordOutcomes overall per i ordered res) (T \<union> set ordered)"
proof (induction ordered arbitrary: res T i)
  case (Cons u us)
  obtain code hr where ch: "(case per i of Some ch \<Rightarrow> ch | None \<Rightarrow> overall) = (code, hr)" by fastforce
  let ?r = "if wuaResultOK code then res\<lparr>pr_Installed := pr_Installed res @ [u]\<rparr> else failID u (NotInstalled (wuaResultText code hr)) res"
  have "booked ?r (insert u T)" using Cons.prems booked_install booked_fail by simp
  then have "booked (recordOutcomes overall per (Suc i) us ?r) (insert u T \<union> set us)" using Cons.prems by (intro Cons.IH) auto
  then show ?case by (simp add: ch)
qed simp

lemma wuaWork_books:
  assumes "wuaInstallWork env ids newInstallResult = (res, None)"
    and spell: "\<And>items. ce_search env = Inr items \<Longrightarrow> sameSpelling ids (List.map_filter id items)" and "distinct ids"
  shows "booked res (set ids)"
proof -
  obtain items where items: "ce_search env = Inr items" and rest: "ce_session env = None" "ce_installer env = None" "\<not> ce_busy env" "ce_batch env = None"
    using assms(1) by (auto simp: wuaInstallWork_def split: option.splits if_splits sum.splits)
  let ?fs = "List.map_filter id items"
  obtain ordered res1 where pick: "fold (wuaPick env ids) ?fs ([], newInstallResult) = (ordered, res1)" by fastforce
  note sp = spell [OF items, unfolded sameSpelling_def]
  obtain T where T: "booked res1 T" "pr_Installed res1 = []" "distinct ordered" "T \<inter> set ordered = {}" "T \<union> set ordered \<subseteq> set ids"
    using wuaPick_loop [OF pick, of "{}"] sp booked_new by (auto simp: newInstallResult_def)
  have inj: "lowerTrim u \<in> lowerTrim ` set ordered \<longleftrightarrow> u \<in> set ordered" if "u \<in> set ids" for u
    using sp T(5) inj_on_image_mem_iff [of lowerTrim "set ids" u "set ordered"] that by (simp add: distinct_map)
  let ?res2 = "fold (wuaMissing ordered) ids res1"
  have b2: "booked ?res2 (T \<union> {u \<in> set ids. lowerTrim u \<notin> lowerTrim ` set ordered})"
    using wuaMissing_loop [OF T(1,2)] by blast
  have "T \<union> {u \<in> set ids. lowerTrim u \<notin> lowerTrim ` set ordered} = set ids - set ordered" using inj T(4,5) by auto
  with b2 have b2: "booked ?res2 (set ids - set ordered)" by simp
  show ?thesis
  proof (cases "ordered = []")
    case True
    then show ?thesis using assms(1) items rest pick b2 by (simp add: wuaInstallWork_def)
  next
    case False
    then obtain reboot overall per where "ce_install env = Inr (reboot, overall, per)"
      and res: "res = recordOutcomes overall per 0 ordered (?res2\<lparr>pr_RebootRequired := reboot\<rparr>)"
      using assms(1) items rest pick by (auto simp: wuaInstallWork_def wuaInstallBatch_def Let_def split: option.splits sum.splits)
    have "booked res ((set ids - set ordered) \<union> set ordered)"
      unfolding res using b2 T(3) by (intro recordOutcomes_books) auto
    moreover have "(set ids - set ordered) \<union> set ordered = set ids" using T(5) by auto
    ultimately show ?thesis by simp
  qed
qed

lemma booked_carry:
  "booked res S \<Longrightarrow> distinct (map fst fails) \<Longrightarrow> S \<inter> fst ` set fails = {} \<Longrightarrow>
   booked (fold (\<lambda>(i, e). failID i e) fails res) (S \<union> fst ` set fails)"
  using booked_fold [of fails fst "\<lambda>(i, e). failID i e" res S] booked_fail by (simp add: case_prod_beta)

section \<open>Properties\<close>

text \<open>
  C17. However callers come, give up and return, Windows Update runs one install at a time: while an
  install is on the COM thread the gate is held and no other call is past it, even when its caller
  has long returned; and the gate is held only while an install is under way. What a caller is
  told is true: busy or not started, and then its install never ran; that every outcome is
  unknown; or exactly what its own install produced.\<close>

theorem com_installs_serialised:
  assumes "(com_step work)\<^sup>*\<^sup>* comStart s"
  shows "(cy_gate s \<longleftrightarrow> (\<exists>c ids. cy_calls s c = Some (Sending ids)) \<or> (\<exists>c ids. cy_thread s = Some (InstallOf c ids))) \<and>
    (cy_thread s = Some (InstallOf c ids) \<longrightarrow> (\<forall>c' ids'. cy_calls s c' \<noteq> Some (Sending ids'))) \<and>
    (cy_calls s c = Some (Returned ids out) \<longrightarrow>
       (out = (newInstallResult, Some Busy) \<or> (\<exists>e. out = (newInstallResult, Some (CtxDone e)))) \<and>
         cy_done s c = None \<and> (\<forall>ids'. cy_thread s \<noteq> Some (InstallOf c ids')) \<or>
       (\<exists>e. out = (abandonedInstallResult ids, Some (CtxDone e))) \<or> out = work c ids)"
proof -
  note inv = com_reachable [OF assms]
  have snd: "isSending v \<longleftrightarrow> (\<exists>ids. v = Some (Sending ids))" for v by (cases v rule: isSending.cases) auto
  have run: "runs th c \<longleftrightarrow> (\<exists>ids. th = Some (InstallOf c ids))" for th c by (cases "(th, c)" rule: runs.cases) auto
  have "callOK work c (cy_thread s) (cy_done s c) (cy_calls s c)" using inv by (simp add: callsInv_def)
  then have "cy_calls s c = Some (Returned ids out) \<Longrightarrow> honest work c (cy_thread s) (cy_done s c) ids out" by simp
  then have three: "cy_calls s c = Some (Returned ids out) \<longrightarrow>
       (out = (newInstallResult, Some Busy) \<or> (\<exists>e. out = (newInstallResult, Some (CtxDone e)))) \<and>
         cy_done s c = None \<and> (\<forall>ids'. cy_thread s \<noteq> Some (InstallOf c ids')) \<or>
       (\<exists>e. out = (abandonedInstallResult ids, Some (CtxDone e))) \<or> out = work c ids"
    unfolding honest_def run by blast
  have one: "cy_gate s \<longleftrightarrow> (\<exists>c ids. cy_calls s c = Some (Sending ids)) \<or> (\<exists>c ids. cy_thread s = Some (InstallOf c ids))"
    using inv unfolding gateInv_def snd run by simp
  have "runs (cy_thread s) c \<Longrightarrow> \<not> isSending (cy_calls s c')" for c' using inv unfolding gateInv_def by blast
  then have two: "cy_thread s = Some (InstallOf c ids) \<longrightarrow> (\<forall>c' ids'. cy_calls s c' \<noteq> Some (Sending ids'))"
    by (metis isSending.simps(1) runs.simps(1))
  show ?thesis by (intro conjI one two three)
qed

definition demoWork :: "nat \<Rightarrow> string list \<Rightarrow> com_out" where
  "demoWork c ids = (newInstallResult, None)"

theorem com_installs_serialised_witness:
  "\<exists>s. (com_step demoWork)\<^sup>*\<^sup>* comStart s \<and> cy_gate s \<and>
     cy_calls s 0 = Some (Returned [''a''] (abandonedInstallResult [''a''], Some (CtxDone Canceled)))"
proof -
  let ?s1 = "comStart\<lparr>cy_gate := True, cy_calls := (cy_calls comStart)(0 \<mapsto> Sending [''a''])\<rparr>"
  let ?s2 = "?s1\<lparr>cy_thread := Some (InstallOf 0 [''a'']), cy_calls := (cy_calls ?s1)(0 \<mapsto> Waiting [''a''])\<rparr>"
  let ?s3 = "?s2\<lparr>cy_calls := (cy_calls ?s2)(0 \<mapsto> Returned [''a''] (abandonedInstallResult [''a''], Some (CtxDone Canceled)))\<rparr>"
  have "com_step demoWork comStart ?s1" by (rule admit) (simp_all add: comStart_def gateAcquire_def)
  moreover have "com_step demoWork ?s1 ?s2" by (rule handed_over) (simp_all add: comStart_def)
  moreover have "com_step demoWork ?s2 ?s3" by (rule abandoned) (simp_all add: comStart_def)
  ultimately have r: "(com_step demoWork)\<^sup>*\<^sup>* comStart ?s3" by (meson r_into_rtranclp rtranclp.rtrancl_into_rtrancl)
  moreover have "cy_gate ?s3" using com_installs_serialised [OF r] by simp
  ultimately show ?thesis by (intro exI [of _ ?s3]) simp
qed

text \<open>
  An install through Windows Update accounts for every id as well: when it completes without
  an error, and when its caller gives up waiting, each requested id is in the result exactly once,
  provided that the search spells the ids as they were sent. An id that differs in case is
  reported under the spelling of the search.\<close>

theorem wua_install_accounts:
  assumes "wuaInstall left env end0 ids False = ((res, err), held')"
    and "end0 = Completed \<and> err = None \<or> (\<exists>e. end0 = Abandoned e)"
    and spell: "\<And>items. ce_search env = Inr items \<Longrightarrow> sameSpelling (filter (\<lambda>i. \<not> isSelfPackage i) (dedupeIDs ids)) (List.map_filter id items)"
  shows "distinct (pr_Installed res @ map fst (pr_Failed res)) \<and> set (pr_Installed res) \<union> fst ` set (pr_Failed res) = set ids - {[]}"
proof -
  have "booked res (set ids - {[]})"
  proof (cases "dedupeIDs ids = []")
    case True
    then have none: "set ids - {[]} = {}" using dedupeIDs_set(1) [of ids] by simp
    show ?thesis unfolding none using assms(1) True booked_new by (simp add: wuaInstall_def)
  next
    case ne: False
    show ?thesis
    proof (cases "checkInstallDeadline left")
      case (Some e)
      have "booked (fold (\<lambda>uid. failID uid e) (dedupeIDs ids) newInstallResult) ({} \<union> (\<lambda>i. i) ` set (dedupeIDs ids))"
        using booked_fail booked_new by (intro booked_fold) auto
      then show ?thesis using assms(1) ne Some by (auto simp: wuaInstall_def prepareInstall_def Let_def)
    next
      case None
      obtain out pre where r: "refuseSelfPackages (dedupeIDs ids) newInstallResult = (out, pre)" by fastforce
      have out: "out = filter (\<lambda>i. \<not> isSelfPackage i) (dedupeIDs ids)" and inst: "pr_Installed pre = []"
        using refuseSelf_out [OF r] by (simp_all add: newInstallResult_def)
      have b: "booked pre {i \<in> set (dedupeIDs ids). isSelfPackage i}" using booked_refuseSelf [OF r booked_new] by simp
      have all: "set out \<union> {i \<in> set (dedupeIDs ids). isSelfPackage i} = set ids - {[]}" using out by auto
      show ?thesis
      proof (cases "out = []")
        case True
        then show ?thesis using assms(1) ne None r b all by (simp add: wuaInstall_def prepareInstall_def Let_def)
      next
        case False
        obtain r1 where r1: "booked r1 (set out)" and res: "res = fold (\<lambda>(i, e). failID i e) (pr_Failed pre) r1"
        proof (cases "wuaInstallWork env out newInstallResult")
          case (Pair w werr)
          show ?thesis
          proof (cases end0)
            case Completed
            then have "werr = None" "res = fold (\<lambda>(i, e). failID i e) (pr_Failed pre) w"
              using assms(1,2) ne None r False Pair by (auto simp: wuaInstall_def prepareInstall_def installViaCOM_def gateAcquire_def Let_def)
            then show ?thesis using that [of w] wuaWork_books [of env out w] Pair spell out by simp
          next
            case (Abandoned e)
            then show ?thesis using that [of "abandonedInstallResult out"] booked_abandoned [of out] assms(1) ne None r False out
              by (simp add: wuaInstall_def prepareInstall_def installViaCOM_def gateAcquire_def Let_def)
          qed (use assms(2) in auto)
        qed
        have "booked res (set out \<union> fst ` set (pr_Failed pre))"
          unfolding res using r1 b inst out by (intro booked_carry) (auto simp: booked_def)
        moreover have "fst ` set (pr_Failed pre) = {i \<in> set (dedupeIDs ids). isSelfPackage i}" using b inst by (simp add: booked_def)
        ultimately show ?thesis using all by simp
      qed
    qed
  qed
  then show ?thesis by (simp add: booked_def)
qed

definition demoCom :: com_env where
  "demoCom = \<lparr>ce_session = None, ce_installer = None, ce_busy = False, ce_batch = None,
     ce_search = Inr [Some \<lparr>wf_UpdateID = ''a-1'', wf_RevisionNumber = 1, wf_Title = ''t'', wf_MsrcSeverity = [], wf_KBIDs = [],
       wf_Categories = [], wf_MaxDownloadSize = 0, wf_RebootBehavior = 0, wf_EulaAccepted = True, wf_CanRequestUserInput = False, wf_Description = []\<rparr>],
     ce_eula = (\<lambda>_. None), ce_add = (\<lambda>_. None), ce_downloader = None, ce_dlPut = None, ce_download = Inr (2, 0), ce_put = None,
     ce_install = Inr (False, (2, 0), (\<lambda>i. Some (2, 0)))\<rparr>"

lemma demo_wua:
  "wuaInstall None demoCom Completed [''a-1'', ''b-2''] False =
     ((\<lparr>pr_Installed = [''a-1''], pr_Failed = [(''b-2'', NotOffered ''b-2'')], pr_RebootRequired = False\<rparr>, None), False)"
  by code_simp

lemma demo_spelling:
  "ce_search demoCom = Inr items \<Longrightarrow> sameSpelling (filter (\<lambda>i. \<not> isSelfPackage i) (dedupeIDs [''a-1'', ''b-2''])) (List.map_filter id items)"
proof -
  have "case ce_search demoCom of Inr items \<Rightarrow> sameSpelling (filter (\<lambda>i. \<not> isSelfPackage i) (dedupeIDs [''a-1'', ''b-2''])) (List.map_filter id items) | Inl _ \<Rightarrow> True"
    by code_simp
  then show "ce_search demoCom = Inr items \<Longrightarrow> ?thesis" by simp
qed

theorem wua_install_accounts_witness:
  "set [''a-1''] \<union> fst ` set [(''b-2'', NotOffered ''b-2'')] = set [''a-1'', ''b-2''] - {[]}"
  using wua_install_accounts [OF demo_wua _ demo_spelling] by simp

end
