(* ===== verification/Posture.thy ===== *)
theory Posture
  imports Go_Base "HOL-Library.List_Lexorder" "HOL-Library.Char_ord"
begin

text \<open>
  The security posture of the host, \<open>agent/internal/posture\<close>, and the system that provides its
  802.1X identity, \<open>agent/internal/winident\<close>: the four outcomes of a check and their wire form
  (\<open>posture.go\<close>), how a check is run and what becomes of a panic or a timeout, the goroutines of
  \<open>Run\<close> as a step relation, the checks of Linux and of Windows, and the decision to stand aside
  for Active Directory (\<open>defer.go\<close>).

  A tool of the host is an argument, \<open>tools\<close>: for a command it says that the command is not
  installed, or what it wrote and whether it failed. A Go map is an association list in the order
  of insertion.
\<close>

unbundle bit_operations_syntax

section \<open>Outcomes\<close>

type_synonym status = string
type_synonym category = string
type_synonym evidence = "(string \<times> string) list"

abbreviation (input) "Pass \<equiv> ''pass''"
abbreviation (input) "Fail \<equiv> ''fail''"
abbreviation (input) "NotApplicable \<equiv> ''not_applicable''"
abbreviation (input) "Unknown \<equiv> ''unknown''"
abbreviation (input) "CategoryEncryption \<equiv> ''encryption''"
abbreviation (input) "CategoryMalware \<equiv> ''malware''"
abbreviation (input) "CategoryFirewall \<equiv> ''firewall''"
abbreviation (input) "CategoryNetwork \<equiv> ''network''"

definition Assessed :: "status \<Rightarrow> bool" where
  "Assessed s \<longleftrightarrow> s = Pass \<or> s = Fail"

record check_result =
  res_Check :: string
  res_Category :: category
  res_Status :: status
  res_Detail :: string
  res_Evidence :: evidence
  res_Took :: duration
  res_TookMS :: int

definition mkCheckResult :: "string \<Rightarrow> status \<Rightarrow> string \<Rightarrow> evidence \<Rightarrow> check_result" where
  "mkCheckResult check st detail ev =
     \<lparr>res_Check = check, res_Category = [], res_Status = st, res_Detail = detail,
      res_Evidence = ev, res_Took = 0, res_TookMS = 0\<rparr>"

definition unknownResult :: "string \<Rightarrow> string \<Rightarrow> check_result" where
  "unknownResult check detail = mkCheckResult check Unknown detail []"

definition notApplicable :: "string \<Rightarrow> string \<Rightarrow> check_result" where
  "notApplicable check detail = mkCheckResult check NotApplicable detail []"

definition passResult :: "string \<Rightarrow> string \<Rightarrow> evidence \<Rightarrow> check_result" where
  "passResult check detail ev = mkCheckResult check Pass detail ev"

definition failResult :: "string \<Rightarrow> string \<Rightarrow> evidence \<Rightarrow> check_result" where
  "failResult check detail ev = mkCheckResult check Fail detail ev"

lemmas result_defs = mkCheckResult_def unknownResult_def notApplicable_def passResult_def failResult_def

text \<open>\<open>MarshalJSON\<close>: the three statuses of the wire, the reason apart; the encoder of
  \<open>encoding/json\<close> is the argument \<open>enc\<close>.\<close>

record wire_result =
  wr_Check :: string
  wr_Category :: category
  wr_Status :: string
  wr_Reason :: string
  wr_Detail :: string
  wr_Evidence :: evidence
  wr_TookMS :: int

definition wireStatus :: "status \<Rightarrow> string \<times> string" where
  "wireStatus st =
     (if st = NotApplicable then (''not_assessed'', ''not_applicable'')
      else if st = Unknown then (''not_assessed'', ''undetermined'')
      else (st, []))"

definition wireResult :: "check_result \<Rightarrow> wire_result" where
  "wireResult r =
     (let (st, reason) = wireStatus (res_Status r) in
      \<lparr>wr_Check = res_Check r, wr_Category = res_Category r, wr_Status = st, wr_Reason = reason,
       wr_Detail = res_Detail r, wr_Evidence = res_Evidence r, wr_TookMS = res_TookMS r\<rparr>)"

definition MarshalJSON :: "(wire_result \<Rightarrow> 'j) \<Rightarrow> check_result \<Rightarrow> 'j" where
  "MarshalJSON enc r = enc (wireResult r)"

section \<open>Running checks\<close>

text \<open>A check is its name, its category and what its \<open>Run\<close> does on this host: it returns a
  result or panics, the context may have ended by then, and it took some time.\<close>

datatype check_end = Answered check_result | Panicked

record check =
  ch_Name :: string
  ch_Category :: category
  ch_Run :: check_end
  ch_TimedOut :: bool
  ch_Took :: duration

definition runOne :: "check \<Rightarrow> check_result" where
  "runOne c =
     (let res = (case ch_Run c of
          Panicked \<Rightarrow> unknownResult (ch_Name c) ''the check failed to run''
        | Answered r0 \<Rightarrow>
            let r1 = (if res_Check r0 = [] then r0\<lparr>res_Check := ch_Name c\<rparr> else r0);
                r2 = r1\<lparr>res_Category := ch_Category c\<rparr>
            in if ch_TimedOut c \<and> \<not> Assessed (res_Status r2)
               then r2\<lparr>res_Detail := res_Detail r2 @ '' (timed out after 30s)''\<rparr> else r2)
      in res\<lparr>res_Took := ch_Took c, res_TookMS := ch_Took c div 1000000\<rparr>)"

text \<open>\<open>Run\<close>: one goroutine per check writes its own slot, in any order; when the wait group is
  empty the slots are sorted by name. \<open>sort.Slice\<close> promises a sorted permutation and nothing
  about equal names.\<close>

record run_state =
  slots :: "check_result list"
  pending :: "nat list"

definition zeroResult :: check_result where
  "zeroResult = mkCheckResult [] [] [] []"

definition runInit :: "check list \<Rightarrow> run_state" where
  "runInit cs = \<lparr>slots = replicate (length cs) zeroResult, pending = [0 ..< length cs]\<rparr>"

inductive run_step :: "check list \<Rightarrow> run_state \<Rightarrow> run_state \<Rightarrow> bool" for cs where
  finish: "i \<in> set (pending s) \<Longrightarrow> i < length cs \<Longrightarrow>
     run_step cs s (s\<lparr>slots := (slots s)[i := runOne (cs ! i)], pending := removeAll i (pending s)\<rparr>)"

definition sortSlice :: "check_result list \<Rightarrow> check_result list \<Rightarrow> bool" where
  "sortSlice xs ys \<longleftrightarrow> mset ys = mset xs \<and> sorted (map res_Check ys)"

inductive Run_returns :: "check list \<Rightarrow> check_result list \<Rightarrow> bool" for cs where
  returns: "(run_step cs)\<^sup>*\<^sup>* (runInit cs) s \<Longrightarrow> pending s = [] \<Longrightarrow> sortSlice (slots s) out \<Longrightarrow>
     Run_returns cs out"

text \<open>What \<open>Run\<close> computes: the results in the order of their names.\<close>

definition postureRun :: "check list \<Rightarrow> check_result list" where
  "postureRun cs = sort_key res_Check (map runOne cs)"

record summary =
  sum_Passed :: "string list"
  sum_Failed :: "string list"
  sum_NotAssessed :: "string list"
  sum_AssessedCount :: nat

fun summarizeFrom :: "summary \<Rightarrow> check_result list \<Rightarrow> summary" where
  "summarizeFrom s [] = s"
| "summarizeFrom s (r # rs) =
     summarizeFrom
       (if res_Status r = Pass then
          s\<lparr>sum_Passed := sum_Passed s @ [res_Check r], sum_AssessedCount := sum_AssessedCount s + 1\<rparr>
        else if res_Status r = Fail then
          s\<lparr>sum_Failed := sum_Failed s @ [res_Check r], sum_AssessedCount := sum_AssessedCount s + 1\<rparr>
        else s\<lparr>sum_NotAssessed := sum_NotAssessed s @ [res_Check r]\<rparr>) rs"

definition Summarize :: "check_result list \<Rightarrow> summary" where
  "Summarize rs =
     summarizeFrom \<lparr>sum_Passed = [], sum_Failed = [], sum_NotAssessed = [], sum_AssessedCount = 0\<rparr> rs"

text \<open>\<open>collectPosture\<close> of \<open>inventory/posture.go\<close>: no snapshot where the platform has no check.\<close>

definition collectPosture :: "check list \<Rightarrow> string + check_result list" where
  "collectPosture cs =
     (if cs = [] then Inl ''posture: no collector for this platform'' else Inr (postureRun cs))"

section \<open>The tools of the host\<close>

datatype tool_end = ToolMissing | ToolRan string bool

type_synonym tools = "string \<Rightarrow> string list \<Rightarrow> tool_end"

text \<open>\<open>output\<close>: the trimmed standard output, and whether there was an error.\<close>

definition toolOutput :: "tools \<Rightarrow> string \<Rightarrow> string list \<Rightarrow> string \<times> bool" where
  "toolOutput tools name args =
     (case tools name args of
        ToolMissing \<Rightarrow> ([], True)
      | ToolRan out failed \<Rightarrow> (trimSpace out, failed))"

definition powershell :: "tools \<Rightarrow> string \<Rightarrow> string \<times> bool" where
  "powershell tools expr =
     toolOutput tools ''powershell.exe''
       [''-NoProfile'', ''-NonInteractive'', ''-ExecutionPolicy'', ''Bypass'', ''-Command'', expr]"

section \<open>The checks of Linux\<close>

definition antivirusRun :: check_end where
  "antivirusRun = Answered (notApplicable ''antivirus'' ''resident antivirus is not part of the baseline on Linux'')"

text \<open>The tree of \<open>lsblk --json\<close>; reading it is the argument \<open>parse\<close>, the decoder of
  \<open>encoding/json\<close>.\<close>

datatype lsblkNode =
  LsblkNode (ln_Name: string) (ln_Type: string) (ln_Mountpoint: "string option") (ln_Children: "lsblkNode list")

definition mountedAtRoot :: "lsblkNode \<Rightarrow> bool" where
  "mountedAtRoot n \<longleftrightarrow> (case ln_Mountpoint n of None \<Rightarrow> False | Some mp \<Rightarrow> trimSpace mp = ''/'')"

fun rootIsEncrypted :: "lsblkNode list \<Rightarrow> lsblkNode list \<Rightarrow> bool \<times> bool" where
  "rootIsEncrypted [] ancestors = (False, False)"
| "rootIsEncrypted (LsblkNode nm ty mp ch # ns) ancestors =
     (if mountedAtRoot (LsblkNode nm ty mp ch) then
        (if ty = ''crypt'' then (True, True)
         else if list_ex (\<lambda>a. ln_Type a = ''crypt'') ancestors then (True, True)
         else (False, True))
      else (let (enc, ok) = rootIsEncrypted ch (ancestors @ [LsblkNode nm ty mp ch])
            in if ok then (enc, True) else rootIsEncrypted ns ancestors))"

definition diskEncryptionRun :: "(string \<Rightarrow> lsblkNode list option) \<Rightarrow> tools \<Rightarrow> check_end" where
  "diskEncryptionRun parse tools =
     (let name = ''disk-encryption''; (out, failed) = toolOutput tools ''lsblk'' [''--json'', ''-o'', ''NAME,TYPE,MOUNTPOINT'']
      in Answered
       (if failed then unknownResult name ''lsblk is unavailable, so the root device could not be traced''
        else (case parse out of
           None \<Rightarrow> unknownResult name ''lsblk output could not be parsed''
         | Some tree \<Rightarrow>
             let (encrypted, found) = rootIsEncrypted tree [] in
             if \<not> found then unknownResult name ''the root filesystem's backing device could not be identified''
             else if encrypted then passResult name ''the root filesystem is on an encrypted volume'' [(''mechanism'', ''luks'')]
             else failResult name ''the root filesystem is on unencrypted storage'' [])))"

definition isRule :: "string \<Rightarrow> bool" where
  "isRule line0 \<longleftrightarrow>
     (let line = trimSpace line0 in
      \<not> (line = [] \<or> line = ''}'' \<or> hasPrefix line ''table '' \<or> hasPrefix line ''chain ''
         \<or> hasPrefix line ''type '' \<or> hasPrefix line ''comment ''))"

definition hasRules :: "string \<Rightarrow> bool" where
  "hasRules ruleset \<longleftrightarrow> list_ex isRule (splitOn CHR 0x0A ruleset)"

definition firewallRun :: "tools \<Rightarrow> check_end" where
  "firewallRun tools =
     (let name = ''firewall'';
          (ufw, ufwErr) = toolOutput tools ''ufw'' [''status''];
          (fwd, fwdErr) = toolOutput tools ''firewall-cmd'' [''--state''];
          (nft, nftErr) = toolOutput tools ''nft'' [''list'', ''ruleset'']
      in Answered
       (if \<not> ufwErr then
          (if containsSub (toLower ufw) ''status: active''
           then passResult name ''ufw is active'' [(''backend'', ''ufw'')]
           else failResult name ''ufw is installed but inactive'' [(''backend'', ''ufw'')])
        else if \<not> fwdErr then
          (if trimSpace fwd = ''running''
           then passResult name ''firewalld is running'' [(''backend'', ''firewalld'')]
           else failResult name ''firewalld is installed but not running'' [(''backend'', ''firewalld'')])
        else if \<not> nftErr then
          (if hasRules nft
           then passResult name ''nftables has an active ruleset'' [(''backend'', ''nftables'')]
           else failResult name ''nftables is present with an empty ruleset'' [(''backend'', ''nftables'')])
        else unknownResult name ''no firewall tool could be queried on this machine''))"

section \<open>The identity source of Windows\<close>

record sources =
  src_DomainJoined :: bool
  src_EverwasCerts :: nat
  src_OtherClientCerts :: nat
  src_GroupPolicyProfile :: bool

definition ProvidedByUs :: "sources \<Rightarrow> bool" where
  "ProvidedByUs s \<longleftrightarrow> 0 < src_EverwasCerts s"

definition ProvidedByDirectory :: "sources \<Rightarrow> bool" where
  "ProvidedByDirectory s \<longleftrightarrow> 0 < src_OtherClientCerts s \<or> src_GroupPolicyProfile s"

definition issuedByUs :: "string \<Rightarrow> bool" where
  "issuedByUs issuer \<longleftrightarrow> containsSub issuer ''Device Issuing CA''"

definition tally :: "string \<Rightarrow> nat \<Rightarrow> nat \<Rightarrow> nat \<times> nat" where
  "tally issuer ours other = (if issuedByUs issuer then (ours + 1, other) else (ours, other + 1))"

fun tallyAll :: "string list \<Rightarrow> sources \<Rightarrow> sources" where
  "tallyAll [] s = s"
| "tallyAll (i # is) s =
     tallyAll is
       (if trimSpace i = [] then s
        else let (a, b) = tally i (src_EverwasCerts s) (src_OtherClientCerts s)
             in s\<lparr>src_EverwasCerts := a, src_OtherClientCerts := b\<rparr>)"

definition equalFold :: "string \<Rightarrow> string \<Rightarrow> bool" where
  "equalFold a b \<longleftrightarrow> toLower a = toLower b"

definition partOfDomainQuery :: string where
  \<open>partOfDomainQuery = ''(Get-CimInstance Win32_ComputerSystem).PartOfDomain''\<close>

definition issuersQuery :: string where
  \<open>issuersQuery =
     ''(Get-ChildItem Cert:'' @ [CHR 0x5C] @ ''LocalMachine'' @ [CHR 0x5C] @ ''My -EA SilentlyContinue |'' @
     '' Where-Object { $_.HasPrivateKey -and '' @
     ''   ($_.EnhancedKeyUsageList.ObjectId -contains "1.3.6.1.5.5.7.3.2") } |'' @
     '' ForEach-Object { $_.Issuer }) -join ";"''\<close>

definition policyQuery :: string where
  \<open>policyQuery =
     ''if (Test-Path "HKLM:'' @ [CHR 0x5C] @ ''SOFTWARE'' @ [CHR 0x5C] @ ''Policies'' @ [CHR 0x5C] @ ''Microsoft''
       @ [CHR 0x5C] @ ''Windows'' @ [CHR 0x5C] @ ''WiredL2'' @ [CHR 0x5C] @ ''GP_Policy") { "yes" } else { "no" }''\<close>

text \<open>\<open>detect\<close>: what was found, and whether it could be determined.\<close>

definition noSources :: sources where
  "noSources = \<lparr>src_DomainJoined = False, src_EverwasCerts = 0, src_OtherClientCerts = 0, src_GroupPolicyProfile = False\<rparr>"

definition detect :: "tools \<Rightarrow> sources \<times> bool" where
  "detect tools =
     (let (domain, err1) = powershell tools partOfDomainQuery in
      if err1 then (noSources, False)
      else let s1 = noSources\<lparr>src_DomainJoined := equalFold (trimSpace domain) ''True''\<rparr>;
               (issuers, err2) = powershell tools issuersQuery
        in if err2 then (s1, False)
           else let s2 = tallyAll (splitOn CHR '';'' (trimSpace issuers)) s1;
                    (gpo, err3) = powershell tools policyQuery
             in (if err3 then s2 else s2\<lparr>src_GroupPolicyProfile := equalFold (trimSpace gpo) ''yes''\<rparr>, True))"

datatype identity_mode = ModeAuto | ModeAlways | ModeNever

definition ParseMode :: "string \<Rightarrow> identity_mode \<times> string option" where
  "ParseMode s =
     (if s = [] \<or> s = ''auto'' then (ModeAuto, None)
      else if s = ''always'' then (ModeAlways, None)
      else if s = ''never'' then (ModeNever, None)
      else (ModeAuto, Some s))"

record decision =
  dec_Defer :: bool
  dec_Reason :: string
  dec_Warn :: bool

definition directoryReason :: "sources \<Rightarrow> string" where
  "directoryReason s =
     (if 0 < src_OtherClientCerts s \<and> src_GroupPolicyProfile s
      then ''this machine already has an 802.1X certificate and a Group Policy profile from elsewhere''
      else if src_GroupPolicyProfile s
      then ''a Group Policy 802.1X profile is already applied to this machine''
      else ''this machine already has an 802.1X certificate issued by another authority'')"

definition proceed :: decision where
  "proceed = \<lparr>dec_Defer = False, dec_Reason = [], dec_Warn = False\<rparr>"

definition Decide :: "sources \<Rightarrow> identity_mode \<Rightarrow> decision" where
  "Decide s m =
     (if m = ModeNever then
        (if ProvidedByUs s then
           \<lparr>dec_Defer = True,
            dec_Reason = ''configured not to provide a network identity, but this machine is '' @
              ''already using one from us: it will stop working when that certificate expires'',
            dec_Warn = True\<rparr>
         else \<lparr>dec_Defer = True, dec_Reason = ''configured not to provide a network identity'', dec_Warn = False\<rparr>)
      else if ProvidedByUs s then proceed
      else if m = ModeAlways then proceed
      else if ProvidedByDirectory s then \<lparr>dec_Defer = True, dec_Reason = directoryReason s, dec_Warn = False\<rparr>
      else proceed)"

section \<open>The checks of Windows\<close>

definition bitLockerQuery :: string where
  \<open>bitLockerQuery = ''(Get-BitLockerVolume -MountPoint $env:SystemDrive).ProtectionStatus''\<close>

definition winBitLockerRun :: "tools \<Rightarrow> check_end" where
  "winBitLockerRun tools =
     (let name = ''disk-encryption''; (out0, failed) = powershell tools bitLockerQuery; out = trimSpace out0
      in Answered
       (if failed then unknownResult name ''BitLocker status could not be read; the cmdlet may be unavailable on this edition''
        else if out = ''On'' \<or> out = ''1''
        then passResult name ''the system drive is protected by BitLocker'' [(''mechanism'', ''bitlocker'')]
        else if out = ''Off'' \<or> out = ''0'' then failResult name ''the system drive is not encrypted'' []
        else unknownResult name ''BitLocker reported an unrecognised protection status''))"

definition firewallQuery :: string where
  \<open>firewallQuery = ''(Get-NetFirewallProfile | ForEach-Object { "$($_.Name)=$($_.Enabled)" }) -join ";"''\<close>

definition setEvidence :: "string \<Rightarrow> string \<Rightarrow> evidence \<Rightarrow> evidence" where
  "setEvidence k v ev = (if k \<in> fst ` set ev then map (\<lambda>(a, b). if a = k then (a, v) else (a, b)) ev else ev @ [(k, v)])"

fun firewallParts :: "string list \<Rightarrow> evidence \<times> string list \<Rightarrow> evidence \<times> string list" where
  "firewallParts [] acc = acc"
| "firewallParts (p # ps) (ev, disabled) =
     (case cutOn CHR ''='' (trimSpace p) of
        None \<Rightarrow> firewallParts ps (ev, disabled)
      | Some (profile, state) \<Rightarrow>
          firewallParts ps
            (setEvidence (toLower profile) state ev,
             if equalFold state ''True'' then disabled else disabled @ [profile]))"

definition winFirewallRun :: "tools \<Rightarrow> check_end" where
  "winFirewallRun tools =
     (let name = ''firewall''; (out, failed) = powershell tools firewallQuery
      in Answered
       (if failed \<or> trimSpace out = [] then unknownResult name ''the firewall profiles could not be read''
        else let (ev, disabled) = firewallParts (splitOn CHR '';'' (trimSpace out)) ([], []) in
          if ev = [] then unknownResult name ''no firewall profiles were reported''
          else if disabled \<noteq> [] then
            failResult name (''the firewall is disabled for the '' @ joinWith '', '' disabled @ '' profile'') ev
          else passResult name ''the firewall is enabled for every network profile'' ev))"

definition antivirusQuery :: string where
  \<open>antivirusQuery =
     ''(Get-CimInstance -Namespace root/SecurityCenter2 -ClassName AntiVirusProduct |'' @
     '' ForEach-Object { "$($_.displayName)=$($_.productState)" }) -join ";"''\<close>

fun productStateLoop :: "int \<Rightarrow> string \<Rightarrow> int option" where
  "productStateLoop n [] = Some n"
| "productStateLoop n (r # rs) =
     (if \<not> isDigit r then None
      else productStateLoop (wrap64 (n * 10 + (int (of_char r) - 48))) rs)"

definition productStateEnabled :: "string \<Rightarrow> bool" where
  "productStateEnabled state =
     (case productStateLoop 0 (trimSpace state) of
        None \<Rightarrow> False
      | Some n \<Rightarrow> (drop_bit 8 n) AND 0x10 \<noteq> 0)"

fun antivirusParts :: "string list \<Rightarrow> evidence \<times> bool \<Rightarrow> evidence \<times> bool" where
  "antivirusParts [] acc = acc"
| "antivirusParts (p # ps) (ev, enabled) =
     (case cutOn CHR ''='' (trimSpace p) of
        None \<Rightarrow> antivirusParts ps (ev, enabled)
      | Some (product, state) \<Rightarrow>
          antivirusParts ps (setEvidence product state ev, enabled \<or> productStateEnabled state))"

definition winAntivirusRun :: "tools \<Rightarrow> check_end" where
  "winAntivirusRun tools =
     (let name = ''antivirus''; (out0, failed) = powershell tools antivirusQuery; out = trimSpace out0
      in Answered
       (if failed then unknownResult name ''the Security Center antivirus registration could not be read''
        else if out = [] then failResult name ''no antivirus product is registered with Windows Security Center'' []
        else let (ev, enabled) = antivirusParts (splitOn CHR '';'' out) ([], False) in
          if enabled then passResult name ''an antivirus product is registered and enabled'' ev
          else failResult name ''an antivirus product is registered but not enabled'' ev))"

definition identitySourceRun :: "tools \<Rightarrow> check_end" where
  "identitySourceRun tools =
     (let name = ''8021x-identity-source''; (s, known) = detect tools;
          ev = [(''domain_joined'', showBool (src_DomainJoined s)),
                (''everwas_certs'', itoa (int (src_EverwasCerts s))),
                (''other_client_certs'', itoa (int (src_OtherClientCerts s))),
                (''group_policy_8021x'', showBool (src_GroupPolicyProfile s))]
      in Answered
       (if \<not> known then unknownResult name ''could not determine which system provides this machine's 802.1X identity''
        else if ProvidedByUs s \<and> ProvidedByDirectory s then
          failResult name ''both Everwas and Active Directory are providing an 802.1X identity to this machine'' ev
        else if ProvidedByUs s then passResult name ''Everwas provides this machine's 802.1X identity'' ev
        else if ProvidedByDirectory s then passResult name ''Active Directory provides this machine's 802.1X identity'' ev
        else notApplicable name ''no 802.1X identity is configured on this machine''))"

section \<open>The lists of checks\<close>

text \<open>\<open>timing c\<close> says whether the context of the check named \<open>c\<close> had ended and how long it took.\<close>

definition mkCheck :: "(string \<Rightarrow> bool \<times> duration) \<Rightarrow> string \<Rightarrow> category \<Rightarrow> check_end \<Rightarrow> check" where
  "mkCheck timing name cat run =
     \<lparr>ch_Name = name, ch_Category = cat, ch_Run = run, ch_TimedOut = fst (timing name), ch_Took = snd (timing name)\<rparr>"

definition linuxChecks :: "(string \<Rightarrow> lsblkNode list option) \<Rightarrow> tools \<Rightarrow> (string \<Rightarrow> bool \<times> duration) \<Rightarrow> check list" where
  "linuxChecks parse tools timing =
     [mkCheck timing ''disk-encryption'' CategoryEncryption (diskEncryptionRun parse tools),
      mkCheck timing ''firewall'' CategoryFirewall (firewallRun tools),
      mkCheck timing ''antivirus'' CategoryMalware antivirusRun]"

definition windowsChecks :: "tools \<Rightarrow> (string \<Rightarrow> bool \<times> duration) \<Rightarrow> check list" where
  "windowsChecks tools timing =
     [mkCheck timing ''disk-encryption'' CategoryEncryption (winBitLockerRun tools),
      mkCheck timing ''firewall'' CategoryFirewall (winFirewallRun tools),
      mkCheck timing ''antivirus'' CategoryMalware (winAntivirusRun tools),
      mkCheck timing ''8021x-identity-source'' CategoryNetwork (identitySourceRun tools)]"

section \<open>Every interleaving gives the same result\<close>

inductive_simps run_step_iff: "run_step cs s s'"

definition run_inv :: "check list \<Rightarrow> run_state \<Rightarrow> bool" where
  "run_inv cs s \<longleftrightarrow> length (slots s) = length cs \<and> set (pending s) \<subseteq> {..<length cs} \<and>
     (\<forall>i < length cs. i \<notin> set (pending s) \<longrightarrow> slots s ! i = runOne (cs ! i))"

lemma run_inv_init: "run_inv cs (runInit cs)"
  by (auto simp: run_inv_def runInit_def)

lemma run_inv_step: "run_step cs s s' \<Longrightarrow> run_inv cs s \<Longrightarrow> run_inv cs s'"
  by (auto simp: run_inv_def run_step_iff nth_list_update)

lemma run_inv_reach: "(run_step cs)\<^sup>*\<^sup>* (runInit cs) s \<Longrightarrow> run_inv cs s"
  by (induction rule: rtranclp_induct) (auto simp: run_inv_init intro: run_inv_step)

lemma run_finished: "run_inv cs s \<Longrightarrow> pending s = [] \<Longrightarrow> slots s = map runOne cs"
  by (auto simp: run_inv_def intro: nth_equalityI)

lemma run_progress:
  assumes "run_inv cs s" and "pending s \<noteq> []"
  obtains s' where "run_step cs s s'" and "length (pending s') < length (pending s)"
proof -
  let ?i = "hd (pending s)"
  have i: "?i \<in> set (pending s)" using assms(2) by simp
  with assms(1) have "?i < length cs" by (auto simp: run_inv_def)
  from that [OF run_step.finish [OF i this]] show ?thesis
    using length_removeAll_less [OF i] by simp
qed

lemma run_finishes: "run_inv cs s \<Longrightarrow> \<exists>s'. (run_step cs)\<^sup>*\<^sup>* s s' \<and> pending s' = []"
proof (induction "length (pending s)" arbitrary: s rule: less_induct)
  case less
  show ?case
  proof (cases "pending s = []")
    case False
    with less.prems obtain s' where s': "run_step cs s s'" "length (pending s') < length (pending s)"
      by (rule run_progress)
    from less.hyps [OF s'(2) run_inv_step [OF s'(1) less.prems]] s'(1) show ?thesis
      by (meson converse_rtranclp_into_rtranclp)
  qed blast
qed

lemma sortSlice_unique:
  assumes "sortSlice xs ys" and "distinct (map res_Check xs)"
  shows "ys = sort_key res_Check xs"
proof -
  have m: "mset ys = mset xs" and s: "sorted (map res_Check ys)"
    using assms(1) by (auto simp: sortSlice_def)
  have d: "distinct (map res_Check ys)"
    using assms(2) m by (metis mset_eq_imp_distinct_iff mset_map)
  have "distinct (map res_Check (sort_key res_Check xs))"
    using assms(2) by (metis mset_eq_imp_distinct_iff mset_map mset_sort)
  moreover have "inj_on res_Check (set ys \<union> set (sort_key res_Check xs))"
    using d mset_eq_setD [OF m] by (simp add: distinct_map)
  moreover have "set ys = set (sort_key res_Check xs)" using mset_eq_setD [OF m] by simp
  ultimately show ?thesis
    using s d by (intro map_sorted_distinct_set_unique) auto
qed

lemma Run_returns_mset: "Run_returns cs out \<Longrightarrow> mset out = mset (map runOne cs)"
  by (erule Run_returns.cases) (simp add: sortSlice_def run_finished [OF run_inv_reach])

lemma postureRun_returns: "Run_returns cs (postureRun cs)"
proof -
  obtain s where s: "(run_step cs)\<^sup>*\<^sup>* (runInit cs) s" "pending s = []"
    using run_finishes [OF run_inv_init] by blast
  then show ?thesis
    by (intro Run_returns.returns [OF s])
       (simp add: sortSlice_def postureRun_def run_finished [OF run_inv_reach])
qed

text \<open>
  Whatever the order in which the goroutines of \<open>Run\<close> finish, the list it returns is the same:
  one result per check, in the order of their names, each the one \<open>runOne\<close> computes; and no state
  the goroutines can reach is stuck before all of them are done.
\<close>

theorem Run_deterministic:
  assumes "distinct (map (\<lambda>c. res_Check (runOne c)) cs)"
  shows "(\<forall>out. Run_returns cs out \<longleftrightarrow> out = postureRun cs) \<and>
    (\<forall>s. (run_step cs)\<^sup>*\<^sup>* (runInit cs) s \<and> pending s \<noteq> [] \<longrightarrow> (\<exists>s'. run_step cs s s'))"
proof -
  have "out = postureRun cs" if "Run_returns cs out" for out
    using that
  proof cases
    case (returns s)
    then have "slots s = map runOne cs" by (blast intro: run_finished run_inv_reach)
    with returns(3) assms show ?thesis
      by (auto simp: postureRun_def comp_def intro: sortSlice_unique)
  qed
  moreover have "\<exists>s'. run_step cs s s'" if "(run_step cs)\<^sup>*\<^sup>* (runInit cs) s" "pending s \<noteq> []" for s
    using run_progress [OF run_inv_reach [OF that(1)] that(2)] by blast
  ultimately show ?thesis using postureRun_returns by blast
qed

theorem Run_deterministic_witness:
  "Run_returns (linuxChecks (\<lambda>_. None) (\<lambda>_ _. ToolMissing) (\<lambda>_. (False, 1)))
     (postureRun (linuxChecks (\<lambda>_. None) (\<lambda>_ _. ToolMissing) (\<lambda>_. (False, 1)))) \<and>
   map res_Check (postureRun (linuxChecks (\<lambda>_. None) (\<lambda>_ _. ToolMissing) (\<lambda>_. (False, 1)))) =
     [''antivirus'', ''disk-encryption'', ''firewall'']"
  using Run_deterministic [of "linuxChecks (\<lambda>_. None) (\<lambda>_ _. ToolMissing) (\<lambda>_. (False, 1))"]
  by (simp add: linuxChecks_def mkCheck_def runOne_def diskEncryptionRun_def firewallRun_def antivirusRun_def
      toolOutput_def result_defs Let_def postureRun_def Assessed_def less_char_def less_eq_char_def)

section \<open>The encrypted root\<close>

text \<open>The paths from the top of the tree to each device, in the order the tree is printed.\<close>

fun devPaths :: "lsblkNode list \<Rightarrow> lsblkNode list \<Rightarrow> lsblkNode list list" where
  "devPaths anc [] = []"
| "devPaths anc (LsblkNode nm ty mp ch # ns) =
     (let p = anc @ [LsblkNode nm ty mp ch] in p # devPaths p ch @ devPaths anc ns)"

definition cryptOnPath :: "lsblkNode list \<Rightarrow> bool" where
  "cryptOnPath p \<longleftrightarrow> (\<exists>d \<in> set p. ln_Type d = ''crypt'')"

lemma find_append: "find P (xs @ ys) = (case find P xs of None \<Rightarrow> find P ys | Some x \<Rightarrow> Some x)"
  by (induction xs) auto

text \<open>
  \<open>rootIsEncrypted\<close> finds the first device mounted at the root, in the order of \<open>lsblk\<close>, and reports
  it encrypted exactly when it or a device above it is a crypt device; without such a device it
  reports that nothing was found.
\<close>

theorem rootIsEncrypted_spec:
  "rootIsEncrypted nodes anc =
     (case find (\<lambda>p. mountedAtRoot (last p)) (devPaths anc nodes) of
        None \<Rightarrow> (False, False)
      | Some p \<Rightarrow> (cryptOnPath p, True))"
  by (induction nodes anc rule: rootIsEncrypted.induct)
     (auto simp: Let_def find_append cryptOnPath_def list_ex_iff split: option.splits prod.splits)

section \<open>What could not be read never fails\<close>

definition unassessed :: "status \<Rightarrow> bool" where
  "unassessed st \<longleftrightarrow> st = NotApplicable \<or> st = Unknown"

lemma unassessedD:
  "unassessed st \<Longrightarrow> \<not> Assessed st \<and> st \<noteq> Pass \<and> st \<noteq> Fail \<and> fst (wireStatus st) = ''not_assessed''"
  by (auto simp: unassessed_def Assessed_def wireStatus_def)

text \<open>The contract of a check of this host: it answers under its own name with one of the four
  outcomes, and when no tool answers it gives no verdict.\<close>

locale posture_check =
  fixes name :: string and run :: "tools \<Rightarrow> check_end"
  assumes name_set: "name \<noteq> []"
    and answers: "\<exists>r. run tools = Answered r \<and> res_Check r = name \<and>
      res_Status r \<in> {Pass, Fail, NotApplicable, Unknown}"
    and blind: "(\<And>n a. snd (toolOutput tools n a)) \<Longrightarrow> run tools = Answered r \<Longrightarrow>
      unassessed (res_Status r)"
begin

lemma runOne_named:
  "res_Check (runOne (mkCheck timing name cat (run tools))) = name \<and>
   res_Category (runOne (mkCheck timing name cat (run tools))) = cat"
  using answers [of tools] name_set by (auto simp: runOne_def mkCheck_def Let_def)

lemma runOne_blind:
  assumes "\<And>n a. snd (toolOutput tools n a)"
  shows "unassessed (res_Status (runOne (mkCheck timing name cat (run tools))))"
proof -
  obtain r where r: "run tools = Answered r" using answers [of tools] by blast
  from blind [OF assms r] show ?thesis by (auto simp: r runOne_def mkCheck_def Let_def)
qed

end

lemma toolOutput_fails: "(\<And>n a. snd (toolOutput tools n a)) \<Longrightarrow> toolOutput tools n a = (out, failed) \<Longrightarrow> failed"
  by (drule meta_spec [where x = n], drule meta_spec [where x = a]) simp

lemma powershell_fails: "(\<And>n a. snd (toolOutput tools n a)) \<Longrightarrow> powershell tools q = (out, failed) \<Longrightarrow> failed"
  unfolding powershell_def by (rule toolOutput_fails)

lemma detect_fails:
  assumes "\<And>n a. snd (toolOutput tools n a)" and "detect tools = (s, known)"
  shows "\<not> known"
  using assms(2) powershell_fails [OF assms(1)] by (auto simp: detect_def split: prod.splits if_split_asm)

interpretation linux_disk: posture_check "''disk-encryption''" "diskEncryptionRun parse"
proof
  fix tools r
  assume a: "\<And>n a. snd (toolOutput tools n a)" and "diskEncryptionRun parse tools = Answered r"
  then show "unassessed (res_Status r)"
    by (auto simp: diskEncryptionRun_def Let_def result_defs unassessed_def split: prod.splits if_split_asm dest: toolOutput_fails [OF a])
qed (auto simp: diskEncryptionRun_def Let_def result_defs split: prod.splits option.splits)

interpretation linux_firewall: posture_check "''firewall''" firewallRun
proof
  fix tools r
  assume a: "\<And>n a. snd (toolOutput tools n a)" and "firewallRun tools = Answered r"
  then show "unassessed (res_Status r)"
    by (auto simp: firewallRun_def Let_def result_defs unassessed_def split: prod.splits if_split_asm dest: toolOutput_fails [OF a])
qed (auto simp: firewallRun_def Let_def result_defs split: prod.splits)

interpretation linux_antivirus: posture_check "''antivirus''" "\<lambda>_. antivirusRun"
  by unfold_locales (auto simp: antivirusRun_def result_defs unassessed_def)

interpretation win_bitlocker: posture_check "''disk-encryption''" winBitLockerRun
proof
  fix tools r
  assume a: "\<And>n a. snd (toolOutput tools n a)" and "winBitLockerRun tools = Answered r"
  then show "unassessed (res_Status r)"
    by (auto simp: winBitLockerRun_def Let_def result_defs unassessed_def split: prod.splits if_split_asm dest: powershell_fails [OF a])
qed (auto simp: winBitLockerRun_def Let_def result_defs split: prod.splits)

interpretation win_firewall: posture_check "''firewall''" winFirewallRun
proof
  fix tools r
  assume a: "\<And>n a. snd (toolOutput tools n a)" and "winFirewallRun tools = Answered r"
  then show "unassessed (res_Status r)"
    by (auto simp: winFirewallRun_def Let_def result_defs unassessed_def split: prod.splits if_split_asm dest: powershell_fails [OF a])
qed (auto simp: winFirewallRun_def Let_def result_defs split: prod.splits)

interpretation win_antivirus: posture_check "''antivirus''" winAntivirusRun
proof
  fix tools r
  assume a: "\<And>n a. snd (toolOutput tools n a)" and "winAntivirusRun tools = Answered r"
  then show "unassessed (res_Status r)"
    by (auto simp: winAntivirusRun_def Let_def result_defs unassessed_def split: prod.splits if_split_asm dest: powershell_fails [OF a])
qed (auto simp: winAntivirusRun_def Let_def result_defs split: prod.splits)

interpretation win_identity: posture_check "''8021x-identity-source''" identitySourceRun
proof
  fix tools r
  assume a: "\<And>n a. snd (toolOutput tools n a)" and "identitySourceRun tools = Answered r"
  then show "unassessed (res_Status r)"
    by (auto simp: identitySourceRun_def Let_def result_defs unassessed_def split: prod.splits if_split_asm dest: detect_fails [OF a])
qed (auto simp: identitySourceRun_def Let_def result_defs split: prod.splits)

lemmas check_names = linux_disk.runOne_named linux_firewall.runOne_named linux_antivirus.runOne_named
  win_bitlocker.runOne_named win_firewall.runOne_named win_antivirus.runOne_named win_identity.runOne_named

lemmas check_blind = linux_disk.runOne_blind linux_firewall.runOne_blind linux_antivirus.runOne_blind
  win_bitlocker.runOne_blind win_firewall.runOne_blind win_antivirus.runOne_blind win_identity.runOne_blind

lemma platform_names_distinct:
  "distinct (map (\<lambda>c. res_Check (runOne c)) (linuxChecks parse tools timing))"
  "distinct (map (\<lambda>c. res_Check (runOne c)) (windowsChecks tools timing))"
  by (simp_all add: linuxChecks_def windowsChecks_def check_names)

lemma summarizeFrom_exact:
  "sum_Passed (summarizeFrom s rs) = sum_Passed s @ map res_Check (filter (\<lambda>r. res_Status r = Pass) rs)"
  "sum_Failed (summarizeFrom s rs) = sum_Failed s @ map res_Check (filter (\<lambda>r. res_Status r = Fail) rs)"
  "sum_NotAssessed (summarizeFrom s rs) =
     sum_NotAssessed s @ map res_Check (filter (\<lambda>r. \<not> Assessed (res_Status r)) rs)"
  "sum_AssessedCount (summarizeFrom s rs) =
     sum_AssessedCount s + length (filter (\<lambda>r. Assessed (res_Status r)) rs)"
  by (induction s rs rule: summarizeFrom.induct) (auto simp: Assessed_def)

lemma Summarize_exact:
  "sum_Passed (Summarize rs) = map res_Check (filter (\<lambda>r. res_Status r = Pass) rs)"
  "sum_Failed (Summarize rs) = map res_Check (filter (\<lambda>r. res_Status r = Fail) rs)"
  "sum_NotAssessed (Summarize rs) = map res_Check (filter (\<lambda>r. \<not> Assessed (res_Status r)) rs)"
  "sum_AssessedCount (Summarize rs) = length (filter (\<lambda>r. Assessed (res_Status r)) rs)"
  by (simp_all add: Summarize_def summarizeFrom_exact)

text \<open>
  C40. On a host none of whose tools can be queried, every check of Linux and of Windows reports
  "not assessed" on the wire, in every interleaving of \<open>Run\<close>, and the summary counts no verdict and no
  failure.
\<close>

theorem no_tool_no_verdict:
  assumes "\<forall>n a. snd (toolOutput tools n a)"
    and "cs = linuxChecks parse tools timing \<or> cs = windowsChecks tools timing"
    and "Run_returns cs out"
  shows "(\<forall>r \<in> set out. wr_Status (wireResult r) = ''not_assessed'') \<and>
    sum_Failed (Summarize out) = [] \<and> sum_AssessedCount (Summarize out) = 0 \<and>
    length (sum_NotAssessed (Summarize out)) = length cs"
proof -
  have blind: "\<And>n a. snd (toolOutput tools n a)" using assms(1) by blast
  have *: "unassessed (res_Status r)" if "r \<in> set (map runOne cs)" for r
    using that assms(2) check_blind [OF blind] by (auto simp: linuxChecks_def windowsChecks_def)
  have "set out = set (map runOne cs)" and len: "length out = length cs"
    using Run_returns_mset [OF assms(3)] mset_eq_setD mset_eq_length by (metis, metis length_map)
  with * have **: "\<not> Assessed (res_Status r) \<and> res_Status r \<noteq> Fail \<and> fst (wireStatus (res_Status r)) = ''not_assessed''"
    if "r \<in> set out" for r
    using that unassessedD by blast
  then have "filter (\<lambda>r. Assessed (res_Status r)) out = []" and "filter (\<lambda>r. res_Status r = Fail) out = []"
    and "filter (\<lambda>r. \<not> Assessed (res_Status r)) out = out"
    by (simp_all add: filter_empty_conv filter_id_conv)
  moreover have "\<forall>r \<in> set out. wr_Status (wireResult r) = ''not_assessed''"
    using ** by (simp add: wireResult_def Let_def case_prod_beta)
  ultimately show ?thesis using len by (simp add: Summarize_exact)
qed

theorem no_tool_no_verdict_witness:
  "sum_Failed (Summarize (postureRun (windowsChecks (\<lambda>_ _. ToolMissing) (\<lambda>_. (True, 5))))) = [] \<and>
   length (sum_NotAssessed (Summarize (postureRun (windowsChecks (\<lambda>_ _. ToolMissing) (\<lambda>_. (True, 5)))))) = 4"
  using no_tool_no_verdict [OF _ _ postureRun_returns,
      of "\<lambda>_ _. ToolMissing" "windowsChecks (\<lambda>_ _. ToolMissing) (\<lambda>_. (True, 5))" "\<lambda>_. None" "\<lambda>_. (True, 5)"]
  by (simp add: toolOutput_def windowsChecks_def)

definition answeredWith :: "check \<Rightarrow> status \<Rightarrow> bool" where
  "answeredWith c st \<longleftrightarrow> (case ch_Run c of Answered r \<Rightarrow> res_Status r = st | Panicked \<Rightarrow> False)"

definition resultName :: "check \<Rightarrow> string" where
  "resultName c = (case ch_Run c of
     Answered r \<Rightarrow> if res_Check r = [] then ch_Name c else res_Check r | Panicked \<Rightarrow> ch_Name c)"

lemma runOne_name: "res_Check (runOne c) = resultName c"
  by (auto simp: runOne_def resultName_def Let_def result_defs split: check_end.splits)

lemma runOne_status:
  "res_Status (runOne c) = Pass \<longleftrightarrow> answeredWith c Pass"
  "res_Status (runOne c) = Fail \<longleftrightarrow> answeredWith c Fail"
  by (auto simp: runOne_def answeredWith_def Let_def result_defs split: check_end.splits)

lemma Run_returns_filter:
  "Run_returns cs out \<Longrightarrow>
   mset (map res_Check (filter P out)) = mset (map resultName (filter (\<lambda>c. P (runOne c)) cs))"
  using Run_returns_mset [of cs out]
  by (simp add: mset_filter filter_mset_image_mset multiset.map_comp comp_def runOne_name)

text \<open>
  The summary of a run is exact: a check is listed as failed exactly when it answered with the
  verdict fail, as passed exactly when it answered with the verdict pass, a panic and every other
  answer count as not assessed, and each result is listed once.
\<close>

theorem summary_exact:
  assumes "Run_returns cs out"
  shows "mset (sum_Failed (Summarize out)) = mset (map resultName (filter (\<lambda>c. answeredWith c Fail) cs)) \<and>
    mset (sum_Passed (Summarize out)) = mset (map resultName (filter (\<lambda>c. answeredWith c Pass) cs)) \<and>
    mset (sum_NotAssessed (Summarize out)) =
      mset (map resultName (filter (\<lambda>c. \<not> answeredWith c Pass \<and> \<not> answeredWith c Fail) cs)) \<and>
    sum_AssessedCount (Summarize out) = length (sum_Passed (Summarize out)) + length (sum_Failed (Summarize out))"
proof -
  have len: "length (filter (\<lambda>r. Assessed (res_Status r)) out) =
      length (filter (\<lambda>r. res_Status r = Pass) out) + length (filter (\<lambda>r. res_Status r = Fail) out)"
    by (induction out) (auto simp: Assessed_def)
  show ?thesis
    by (simp add: Summarize_exact Run_returns_filter [OF assms] runOne_status Assessed_def len [unfolded Assessed_def] del: mset_map)
qed

theorem summary_exact_witness:
  "sum_Failed (Summarize (postureRun [mkCheck (\<lambda>_. (False, 1)) ''a'' [] Panicked,
      mkCheck (\<lambda>_. (False, 1)) ''b'' [] (Answered (failResult [] [] []))])) = [''b'']"
  using summary_exact [OF postureRun_returns, of "[mkCheck (\<lambda>_. (False, 1)) ''a'' [] Panicked,
      mkCheck (\<lambda>_. (False, 1)) ''b'' [] (Answered (failResult [] [] []))]"]
  by (simp add: mkCheck_def answeredWith_def resultName_def result_defs)

section \<open>What a failure rests on\<close>

lemma toolOutput_trimmed: "toolOutput tools n a = (out, b) \<Longrightarrow> trimSpace out = out"
  by (auto simp: toolOutput_def split: tool_end.splits)

lemma diskEncryption_fail:
  "(case diskEncryptionRun parse tools of Answered r \<Rightarrow> res_Status r = Fail | Panicked \<Rightarrow> False) \<longleftrightarrow>
   (\<exists>out tree p. toolOutput tools ''lsblk'' [''--json'', ''-o'', ''NAME,TYPE,MOUNTPOINT''] = (out, False) \<and>
      parse out = Some tree \<and> find (\<lambda>p. mountedAtRoot (last p)) (devPaths [] tree) = Some p \<and> \<not> cryptOnPath p)"
  by (cases "toolOutput tools ''lsblk'' [''--json'', ''-o'', ''NAME,TYPE,MOUNTPOINT'']")
     (auto simp: diskEncryptionRun_def Let_def result_defs rootIsEncrypted_spec split: option.splits)

lemma firewall_fail:
  "(case firewallRun tools of Answered r \<Rightarrow> res_Status r = Fail | Panicked \<Rightarrow> False) \<longleftrightarrow>
   (case toolOutput tools ''ufw'' [''status''] of
      (out, False) \<Rightarrow> \<not> containsSub (toLower out) ''status: active''
    | (_, True) \<Rightarrow>
      (case toolOutput tools ''firewall-cmd'' [''--state''] of
         (out, False) \<Rightarrow> out \<noteq> ''running''
       | (_, True) \<Rightarrow>
         (case toolOutput tools ''nft'' [''list'', ''ruleset''] of
            (out, False) \<Rightarrow> (\<forall>line \<in> set (splitOn CHR 0x0A out). \<not> isRule line)
          | (_, True) \<Rightarrow> False)))"
proof -
  obtain o1 b1 o2 b2 o3 b3 where o: "toolOutput tools ''ufw'' [''status''] = (o1, b1)"
    "toolOutput tools ''firewall-cmd'' [''--state''] = (o2, b2)"
    "toolOutput tools ''nft'' [''list'', ''ruleset''] = (o3, b3)" by (metis surj_pair)
  then show ?thesis using toolOutput_trimmed [OF o(2)]
    by (simp add: firewallRun_def Let_def result_defs hasRules_def list_ex_iff split: bool.split)
qed

text \<open>
  A failure on Linux is always a finding: the disk check fails exactly when \<open>lsblk\<close> answered, its
  output was read, and the first device mounted at the root has no crypt device on its path; the
  firewall check fails exactly when the first of ufw, firewalld and nftables that answers without
  an error reports an inactive firewall.
\<close>

theorem linux_fail_exact:
  "(answeredWith (mkCheck timing ''disk-encryption'' CategoryEncryption (diskEncryptionRun parse tools)) Fail \<longleftrightarrow>
      (\<exists>out tree p. toolOutput tools ''lsblk'' [''--json'', ''-o'', ''NAME,TYPE,MOUNTPOINT''] = (out, False) \<and>
         parse out = Some tree \<and> find (\<lambda>p. mountedAtRoot (last p)) (devPaths [] tree) = Some p \<and> \<not> cryptOnPath p)) \<and>
   (answeredWith (mkCheck timing ''firewall'' CategoryFirewall (firewallRun tools)) Fail \<longleftrightarrow>
      (case toolOutput tools ''ufw'' [''status''] of
         (out, False) \<Rightarrow> \<not> containsSub (toLower out) ''status: active''
       | (_, True) \<Rightarrow>
         (case toolOutput tools ''firewall-cmd'' [''--state''] of
            (out, False) \<Rightarrow> out \<noteq> ''running''
          | (_, True) \<Rightarrow>
            (case toolOutput tools ''nft'' [''list'', ''ruleset''] of
               (out, False) \<Rightarrow> (\<forall>line \<in> set (splitOn CHR 0x0A out). \<not> isRule line)
             | (_, True) \<Rightarrow> False))))"
  using diskEncryption_fail [of parse tools] firewall_fail [of tools]
  by (simp add: answeredWith_def mkCheck_def)

theorem linux_fail_exact_witness:
  "answeredWith (mkCheck (\<lambda>_. (False, 1)) ''firewall'' CategoryFirewall
     (firewallRun (\<lambda>n a. if n = ''ufw'' then ToolRan ''Status: inactive'' False else ToolMissing))) Fail"
  using linux_fail_exact [of "\<lambda>_. (False, 1)" "\<lambda>_. None" "\<lambda>n a. if n = ''ufw'' then ToolRan ''Status: inactive'' False else ToolMissing"]
  by (simp add: toolOutput_def trimBy_def trimLeftBy_def trimRightBy_def toLower_def lowerChar_def char_class_defs
      containsSub_def hasPrefix_def)

text \<open>
  A product state Security Center reports that cannot be parsed reads as a failed antivirus check,
  although the comment of \<open>productStateEnabled\<close> says the caller reports unknown: a product whose state
  has a character that is no digit fails the machine.
\<close>

theorem unread_product_state_fails:
  assumes "powershell tools antivirusQuery = (out, False)" and "CHR '';'' \<notin> set out"
    and "cutOn CHR ''='' out = Some (product, state)" and "\<exists>c \<in> set (trimSpace state). \<not> isDigit c"
  shows "winAntivirusRun tools =
     Answered (failResult ''antivirus'' ''an antivirus product is registered but not enabled'' [(product, state)])"
proof -
  have none: "productStateLoop n s = None" if "\<exists>c \<in> set s. \<not> isDigit c" for n s
    using that by (induction n s rule: productStateLoop.induct) auto
  have tr: "trimSpace out = out"
    using assms(1) by (auto simp: powershell_def toolOutput_def split: tool_end.splits)
  have "out \<noteq> []" using assms(3) by auto
  then show ?thesis
    using assms tr none [OF assms(4)]
    by (simp add: winAntivirusRun_def splitOn_free productStateEnabled_def setEvidence_def Let_def)
qed

theorem unread_product_state_fails_witness:
  "winAntivirusRun (\<lambda>_ _. ToolRan ''Defender=0x61100'' False) =
     Answered (failResult ''antivirus'' ''an antivirus product is registered but not enabled'' [(''Defender'', ''0x61100'')])"
  using unread_product_state_fails [of "\<lambda>_ _. ToolRan ''Defender=0x61100'' False" "''Defender=0x61100''" "''Defender''" "''0x61100''"]
  by (simp add: powershell_def toolOutput_def trimBy_def trimLeftBy_def trimRightBy_def char_class_defs)

text \<open>A check that panicked loses its category, which a policy is written against.\<close>

lemma panicked_loses_category: "ch_Run c = Panicked \<Longrightarrow> res_Category (runOne c) = []"
  by (simp add: runOne_def Let_def result_defs)

section \<open>Standing aside\<close>

text \<open>When the agent stands aside: by the operator's choice, or for a directory on a machine it
  does not serve yet.\<close>

lemma Decide_defer:
  "dec_Defer (Decide s m) \<longleftrightarrow> m = ModeNever \<or> m = ModeAuto \<and> \<not> ProvidedByUs s \<and> ProvidedByDirectory s"
  "dec_Warn (Decide s m) \<longleftrightarrow> m = ModeNever \<and> ProvidedByUs s"
  by (cases m; simp add: Decide_def proceed_def)+

lemma detect_counts:
  assumes "detect tools = (s, True)"
  shows "\<exists>issuers. powershell tools issuersQuery = (issuers, False) \<and>
    src_EverwasCerts s = length (filter issuedByUs (filter (\<lambda>i. trimSpace i \<noteq> []) (splitOn CHR '';'' (trimSpace issuers)))) \<and>
    src_OtherClientCerts s =
      length (filter (\<lambda>i. \<not> issuedByUs i) (filter (\<lambda>i. trimSpace i \<noteq> []) (splitOn CHR '';'' (trimSpace issuers))))"
proof -
  have ta: "src_EverwasCerts (tallyAll is s0) = src_EverwasCerts s0 + length (filter issuedByUs (filter (\<lambda>i. trimSpace i \<noteq> []) is))"
    "src_OtherClientCerts (tallyAll is s0) =
       src_OtherClientCerts s0 + length (filter (\<lambda>i. \<not> issuedByUs i) (filter (\<lambda>i. trimSpace i \<noteq> []) is))" for "is" s0
    by (induction "is" s0 rule: tallyAll.induct) (auto simp: tally_def Let_def)
  show ?thesis
    using assms by (auto simp: detect_def ta noSources_def Let_def split: prod.splits if_split_asm)
qed

end
