(* ===== verification/Go_Float.thy ===== *)
theory Go_Float
  imports Complex_Main Go_Base "HOL-Library.Log_Nat"
begin

text \<open>
  The \<open>float64\<close> arithmetic of the agent: the result of an operation is the exact rational rounded to
  53 significant bits, to the nearest and on a tie to the even one (\<open>f64\<close>). Overflow to infinity and
  subnormal numbers are left out: every value of the agent's computations lies between \<open>2^-64\<close> and
  \<open>2^64\<close>. What the proofs use is that rounding is monotone and exact on what 53 bits can hold.
\<close>

definition ilog2 :: "rat \<Rightarrow> int" where
  "ilog2 q =
     (let (a, b) = quotient_of q; k = int (floorlog 2 (nat a)) - int (floorlog 2 (nat b))
      in if 2 powi k \<le> q then k else k - 1)"

definition roundEven :: "rat \<Rightarrow> int" where
  "roundEven x =
     (let n = \<lfloor>x\<rfloor>; r = x - of_int n
      in if r < 1 / 2 then n else if 1 / 2 < r then n + 1 else if even n then n else n + 1)"

definition f64 :: "rat \<Rightarrow> rat" where
  "f64 q =
     (if q = 0 then 0
      else let u = 2 powi (ilog2 \<bar>q\<bar> - 52) in sgn q * (of_int (roundEven (\<bar>q\<bar> / u)) * u))"

section \<open>Rounding to an integer\<close>

lemma roundEven_bounds: "\<lfloor>x\<rfloor> \<le> roundEven x" "roundEven x \<le> \<lfloor>x\<rfloor> + 1"
  by (auto simp: roundEven_def Let_def)

lemma roundEven_of_int [simp]: "roundEven (of_int n) = n"
  by (simp add: roundEven_def)

lemma roundEven_mono:
  assumes "x \<le> y" shows "roundEven x \<le> roundEven y"
proof (cases "\<lfloor>x\<rfloor> = \<lfloor>y\<rfloor>")
  case True
  have "x - of_int \<lfloor>y\<rfloor> \<le> y - of_int \<lfloor>y\<rfloor>" using assms by simp
  with True show ?thesis by (auto simp: roundEven_def Let_def)
next
  case False
  with floor_mono [OF assms] have "\<lfloor>x\<rfloor> + 1 \<le> \<lfloor>y\<rfloor>" by simp
  with roundEven_bounds(2) [of x] roundEven_bounds(1) [of y] show ?thesis by linarith
qed

section \<open>The binade of a number\<close>

lemma pow2_pos: "(0 :: rat) < 2 powi k"
  by simp

lemma pow2_le_iff: "(2 :: rat) powi k \<le> 2 powi l \<longleftrightarrow> k \<le> l"
  by (metis linorder_not_le one_less_numeral_iff order_less_imp_le power_int_increasing power_int_strict_increasing semiring_norm(76))

lemma pow2_less_iff: "(2 :: rat) powi k < 2 powi l \<longleftrightarrow> k < l"
  using pow2_le_iff [of l k] by linarith

lemma pow2_add: "(2 :: rat) powi (k + l) = 2 powi k * 2 powi l"
  by (simp add: power_int_add)

lemma pow2_diff: "(2 :: rat) powi (k - l) = 2 powi k / 2 powi l"
  by (simp add: power_int_diff)

lemma pow2_nat: "0 \<le> k \<Longrightarrow> (2 :: rat) powi k = of_int (2 ^ nat k)"
  by (simp add: power_int_def)

lemma floorlog_powi:
  assumes "0 < (n :: nat)"
  shows "2 powi (int (floorlog 2 n) - 1) \<le> (of_nat n :: rat)" "(of_nat n :: rat) < 2 powi int (floorlog 2 n)"
proof -
  have b: "2 ^ (floorlog 2 n - 1) \<le> n" "n < 2 ^ floorlog 2 n" and "0 < floorlog 2 n"
    using floorlog_bounds [of n 2] assms by (auto simp: floorlog_def)
  then have "int (floorlog 2 n) - 1 = int (floorlog 2 n - 1)" by simp
  moreover have "(2 :: rat) ^ (floorlog 2 n - 1) \<le> of_nat n" "(of_nat n :: rat) < 2 ^ floorlog 2 n"
    using b by (metis of_nat_le_iff of_nat_numeral of_nat_power, metis of_nat_less_iff of_nat_numeral of_nat_power)
  ultimately show "2 powi (int (floorlog 2 n) - 1) \<le> (of_nat n :: rat)" "(of_nat n :: rat) < 2 powi int (floorlog 2 n)"
    by (simp_all only: power_int_of_nat)
qed

lemma ilog2_bounds:
  assumes "0 < q"
  shows "2 powi ilog2 q \<le> q" "q < 2 powi (ilog2 q + 1)"
proof -
  obtain a b where ab: "quotient_of q = (a, b)" by fastforce
  then have q: "q = of_int a / of_int b" and b: "0 < b" by (auto intro: quotient_of_div quotient_of_denom_pos)
  with assms have a: "0 < a" by (simp add: zero_less_divide_iff)
  let ?k = "int (floorlog 2 (nat a))" and ?l = "int (floorlog 2 (nat b))"
  have A: "2 powi (?k - 1) \<le> (of_int a :: rat)" "(of_int a :: rat) < 2 powi ?k"
    and B: "2 powi (?l - 1) \<le> (of_int b :: rat)" "(of_int b :: rat) < 2 powi ?l"
    using floorlog_powi [of "nat a"] floorlog_powi [of "nat b"] a b by simp_all
  have "q < 2 powi ?k / 2 powi (?l - 1)"
    unfolding q using A(2) B a b pow2_pos by (intro frac_less) auto
  also have "2 powi ?k / 2 powi (?l - 1) = (2 :: rat) powi (?k - (?l - 1))"
    by (simp only: pow2_diff)
  also have "?k - (?l - 1) = ?k - ?l + 1" by simp
  finally have hi: "q < 2 powi (?k - ?l + 1)" .
  have "2 powi (?k - 1 - ?l) = (2 powi (?k - 1) / 2 powi ?l :: rat)"
    by (simp only: pow2_diff)
  also have "\<dots> \<le> q"
    unfolding q using A B a b pow2_pos by (intro frac_le) auto
  also have "?k - 1 - ?l = ?k - ?l - 1" by simp
  finally have lo: "2 powi (?k - ?l - 1) \<le> q" .
  show "2 powi ilog2 q \<le> q" "q < 2 powi (ilog2 q + 1)"
    using hi lo by (auto simp: ilog2_def ab Let_def)
qed

lemma ilog2_unique:
  assumes "2 powi k \<le> q" and "q < 2 powi (k + 1)"
  shows "ilog2 q = k"
proof -
  have "0 < q" using assms(1) pow2_pos [of k] by linarith
  then have "2 powi k < (2 powi (ilog2 q + 1) :: rat)" "2 powi ilog2 q < (2 powi (k + 1) :: rat)"
    using assms ilog2_bounds [of q] by linarith+
  then show ?thesis by (simp add: pow2_less_iff)
qed

lemma ilog2_mono: "0 < p \<Longrightarrow> p \<le> q \<Longrightarrow> ilog2 p \<le> ilog2 q"
proof -
  assume "0 < p" "p \<le> q"
  then have "2 powi ilog2 p < (2 powi (ilog2 q + 1) :: rat)"
    using ilog2_bounds [of p] ilog2_bounds [of q] by linarith
  then show ?thesis by (simp add: pow2_less_iff)
qed

section \<open>Rounding to 53 bits\<close>

definition ulp :: "rat \<Rightarrow> rat" where
  "ulp q = 2 powi (ilog2 q - 52)"

lemma ulp_pos: "0 < ulp q"
  by (simp add: ulp_def)

lemma f64_pos: "0 < q \<Longrightarrow> f64 q = of_int (roundEven (q / ulp q)) * ulp q"
  by (simp add: f64_def ulp_def Let_def)

lemma f64_0 [simp]: "f64 0 = 0"
  by (simp add: f64_def)

lemma scaled_bounds:
  assumes "0 < q" shows "2 ^ 52 \<le> q / ulp q" "q / ulp q < 2 ^ 53"
proof -
  have "2 powi ilog2 q = 2 ^ 52 * ulp q" "2 powi (ilog2 q + 1) = 2 ^ 53 * ulp q"
    using pow2_add [of 52 "ilog2 q - 52"] pow2_add [of 53 "ilog2 q - 52"] by (simp_all add: ulp_def algebra_simps)
  with ilog2_bounds [OF assms] show "2 ^ 52 \<le> q / ulp q" "q / ulp q < 2 ^ 53"
    using ulp_pos [of q] by (simp_all add: field_simps)
qed

lemma pow2_ulp: "2 powi ilog2 q = 2 ^ 52 * ulp q" "2 powi (ilog2 q + 1) = 2 ^ 53 * ulp q"
  using pow2_add [of 52 "ilog2 q - 52"] pow2_add [of 53 "ilog2 q - 52"] by (simp_all add: ulp_def algebra_simps)

lemma f64_binade:
  assumes "0 < q" shows "2 powi ilog2 q \<le> f64 q" "f64 q \<le> 2 powi (ilog2 q + 1)"
proof -
  let ?n = "roundEven (q / ulp q)"
  have "roundEven (of_int (2 ^ 52)) \<le> ?n" "?n \<le> roundEven (of_int (2 ^ 53))"
    using scaled_bounds [OF assms] by (auto intro!: roundEven_mono)
  then have "of_int (2 ^ 52) \<le> (of_int ?n :: rat)" "(of_int ?n :: rat) \<le> of_int (2 ^ 53)"
    by (simp_all only: roundEven_of_int of_int_le_iff)
  then show "2 powi ilog2 q \<le> f64 q" "f64 q \<le> 2 powi (ilog2 q + 1)"
    using ulp_pos [of q] by (simp_all add: f64_pos [OF assms] pow2_ulp)
qed

lemma f64_nonneg: "0 \<le> q \<Longrightarrow> 0 \<le> f64 q"
proof (cases "q = 0")
  case False
  assume "0 \<le> q"
  with False have "2 powi ilog2 q \<le> f64 q" by (intro f64_binade) simp
  then show ?thesis using pow2_pos [of "ilog2 q"] by linarith
qed simp

lemma f64_mono:
  assumes "0 \<le> p" and "p \<le> q" shows "f64 p \<le> f64 q"
proof (cases "p = 0")
  case True with assms show ?thesis by (simp add: f64_nonneg)
next
  case False
  with assms have p: "0 < p" and q: "0 < q" by auto
  show ?thesis
  proof (cases "ilog2 p = ilog2 q")
    case True
    then have "ulp p = ulp q" by (simp add: ulp_def)
    moreover have "roundEven (p / ulp q) \<le> roundEven (q / ulp q)"
      using assms(2) ulp_pos [of q] by (intro roundEven_mono) (simp add: divide_right_mono)
    ultimately show ?thesis using ulp_pos [of q] by (simp add: f64_pos p q)
  next
    case False
    with ilog2_mono [OF p assms(2)] have "2 powi (ilog2 p + 1) \<le> (2 powi ilog2 q :: rat)"
      by (simp add: pow2_le_iff)
    with f64_binade(2) [OF p] f64_binade(1) [OF q] show ?thesis by linarith
  qed
qed

text \<open>A whole number of at most 53 bits times a power of two is itself.\<close>

lemma f64_exact:
  assumes "0 \<le> m" and "m < 2 ^ 53"
  shows "f64 (of_int m * 2 powi e) = of_int m * 2 powi e"
proof (cases "m = 0")
  case False
  let ?q = "of_int m * 2 powi e :: rat"
  have q: "0 < ?q" using False assms(1) by simp
  define d where "d = ilog2 ?q - 52 - e"
  have "2 ^ 52 * ulp ?q \<le> ?q" using ilog2_bounds(1) [OF q] by (simp add: pow2_ulp)
  moreover have u: "ulp ?q = 2 powi d * 2 powi e" by (simp add: ulp_def d_def pow2_add [symmetric])
  ultimately have "2 ^ 52 * 2 powi d * 2 powi e \<le> (of_int m :: rat) * 2 powi e" by (simp add: mult.assoc)
  then have "2 ^ 52 * 2 powi d \<le> (of_int m :: rat)" by simp
  also have "(of_int m :: rat) < of_int (2 ^ 53)" using assms(2) of_int_less_iff by blast
  also have "(of_int (2 ^ 53) :: rat) = 2 ^ 52 * 2 powi 1" by simp
  finally have "(2 powi d :: rat) < 2 powi 1" by simp
  then have "d \<le> 0" by (simp only: pow2_less_iff)
  then have *: "?q / ulp ?q = of_int (m * 2 ^ nat (- d))"
    using pow2_nat [of "- d"] by (simp add: u power_int_minus field_simps)
  have "f64 ?q = ?q / ulp ?q * ulp ?q"
    unfolding f64_pos [OF q] * roundEven_of_int ..
  then show ?thesis using ulp_pos [of ?q] by simp
qed simp

lemma f64_int: "0 \<le> n \<Longrightarrow> n < 2 ^ 53 \<Longrightarrow> f64 (of_int n) = of_int n"
  using f64_exact [of n 0] by simp

end
