(* ===== verification/Cert_Life.thy ===== *)
theory Cert_Life
  imports Go_Float
begin

text \<open>
  How far the device's network certificate is through its life: \<open>Material\<close>, \<open>Phase\<close>, \<open>renewalOffset\<close>,
  \<open>PhaseAt\<close> and \<open>DueForRenewal\<close> of \<open>agent/internal/netcert/netcert.go\<close>. A nil \<open>*Material\<close> is \<open>None\<close>. The
  arithmetic is that of \<open>float64\<close>, of theory Go_Float; SHA-256 is the argument \<open>sha\<close>.
\<close>

section \<open>The life of a certificate\<close>

record material =
  mat_CertPath :: string
  mat_KeyPath :: string
  mat_ChainPath :: string
  mat_NotAfter :: gtime
  mat_NotBefore :: gtime
  mat_Serial :: string
  mat_Issued :: bool

definition RenewAt :: rat where "RenewAt = 1 / 2"

definition UrgentAt :: rat where "UrgentAt = 7 / 8"

definition RenewJitter :: rat where "RenewJitter = f64 (1 / 20)"

datatype phase = PhaseFresh | PhaseDue | PhaseUrgent | PhaseExpired

fun phaseString :: "phase \<Rightarrow> string" where
  "phaseString PhaseFresh = ''fresh''"
| "phaseString PhaseDue = ''due''"
| "phaseString PhaseUrgent = ''urgent''"
| "phaseString PhaseExpired = ''expired''"

text \<open>\<open>Duration.Seconds\<close>: the whole seconds and the rest, each a \<open>float64\<close>.\<close>

definition durSeconds :: "duration \<Rightarrow> rat" where
  "durSeconds d =
     (let sec = sgn d * (\<bar>d\<bar> div second); nsec = sgn d * (\<bar>d\<bar> mod second)
      in f64 (f64 (of_int sec) + f64 (f64 (of_int nsec) / 1000000000)))"

definition beUint32 :: "8 word list \<Rightarrow> int" where
  "beUint32 bs = foldl (\<lambda>n b. 256 * n + uint b) 0 (take 4 bs)"

definition renewalOffset :: "(string \<Rightarrow> 8 word list) \<Rightarrow> string \<Rightarrow> rat" where
  "renewalOffset sha256 devid =
     (let n = beUint32 (sha256 devid)
      in f64 (f64 (f64 (of_int n) / f64 4294967295) * RenewJitter))"

definition PhaseAt :: "(string \<Rightarrow> 8 word list) \<Rightarrow> material option \<Rightarrow> gtime \<Rightarrow> string \<Rightarrow> phase" where
  "PhaseAt sha256 mo now devid =
     (case mo of
        None \<Rightarrow> PhaseExpired
      | Some m \<Rightarrow>
          let life = subT (mat_NotAfter m) (mat_NotBefore m) in
          if life \<le> 0 then PhaseExpired
          else if \<not> now < mat_NotAfter m then PhaseExpired
          else if now < mat_NotBefore m then PhaseDue
          else let elapsed = f64 (durSeconds (subT now (mat_NotBefore m)) / durSeconds life) in
            if UrgentAt \<le> elapsed then PhaseUrgent
            else if f64 (RenewAt + renewalOffset sha256 devid) \<le> elapsed then PhaseDue
            else PhaseFresh)"

text \<open>\<open>time.Duration(float64(life)*RenewAt)\<close>: the conversion to an integer drops the fraction.\<close>

definition DueForRenewal :: "material option \<Rightarrow> gtime \<Rightarrow> bool" where
  "DueForRenewal mo now =
     (case mo of
        None \<Rightarrow> True
      | Some m \<Rightarrow>
          let life = subT (mat_NotAfter m) (mat_NotBefore m) in
          if life \<le> 0 then True
          else if now < mat_NotBefore m then True
          else \<lfloor>f64 (f64 (of_int life) * RenewAt)\<rfloor> \<le> subT now (mat_NotBefore m))"

section \<open>Seconds as floats\<close>

lemma durSeconds_nonneg_def:
  "0 \<le> d \<Longrightarrow> durSeconds d = f64 (f64 (of_int (d div second)) + f64 (f64 (of_int (d mod second)) / 1000000000))"
  by (cases "d = 0") (simp_all add: durSeconds_def sgn_if)

lemma nsec_le_1: "0 \<le> n \<Longrightarrow> n \<le> second \<Longrightarrow> f64 (f64 (of_int n) / 1000000000) \<le> 1"
proof -
  assume n: "0 \<le> n" "n \<le> second"
  then have "f64 (of_int n) = of_int n" by (intro f64_int) (auto simp: second_def)
  with n have "f64 (f64 (of_int n) / 1000000000) \<le> f64 (of_int 1)"
    by (intro f64_mono) (auto simp: second_def)
  also have "f64 (of_int 1) = 1" using f64_int [of 1] by simp
  finally show ?thesis .
qed

lemma f64_div_mono: "0 \<le> a \<Longrightarrow> a \<le> b \<Longrightarrow> f64 (f64 (of_int a) / 1000000000) \<le> f64 (f64 (of_int b) / 1000000000)"
  by (intro f64_mono) (auto intro!: divide_right_mono f64_mono f64_nonneg)

lemma durSeconds_mono:
  assumes "0 \<le> d" and "d \<le> d'" and "d' < 2 ^ 63" shows "durSeconds d \<le> durSeconds d'"
proof -
  let ?f = "\<lambda>d. f64 (of_int (d div second)) + f64 (f64 (of_int (d mod second)) / 1000000000)"
  have s: "0 < second" "d div second \<le> d' div second" "0 \<le> d div second"
    using assms by (auto simp: second_def zdiv_mono1)
  have small: "d' div second < 2 ^ 53" using assms(3) by (simp add: second_def)
  have "?f d \<le> ?f d'"
  proof (cases "d div second = d' div second")
    case True
    then have "d mod second \<le> d' mod second" using assms(2) by (simp add: minus_div_mult_eq_mod [symmetric])
    then show ?thesis using True s by (simp add: f64_div_mono)
  next
    case False
    with s have lt: "d div second + 1 \<le> d' div second" by simp
    have "f64 (f64 (of_int (d mod second)) / 1000000000) \<le> 1" using s by (intro nsec_le_1) (auto intro: less_imp_le)
    moreover have "0 \<le> f64 (f64 (of_int (d' mod second)) / 1000000000)"
      using s by (auto intro!: f64_nonneg divide_nonneg_pos)
    moreover have "f64 (of_int (d div second)) + 1 \<le> f64 (of_int (d' div second))"
      using s lt small by (simp add: f64_int)
    ultimately show ?thesis by linarith
  qed
  moreover have "0 \<le> ?f d" using s assms by (auto intro!: add_nonneg_nonneg f64_nonneg divide_nonneg_pos)
  ultimately show ?thesis using assms by (simp add: durSeconds_nonneg_def f64_mono)
qed

text \<open>A whole number of eighths of a second is exact.\<close>

lemma f64_eighths: "0 \<le> k \<Longrightarrow> k < 2 ^ 53 \<Longrightarrow> f64 (of_int k / 8) = of_int k / 8"
  using f64_exact [of k "- 3"] by (simp add: power_int_def power_divide)

lemma durSeconds_eighths:
  assumes "0 \<le> n" and "n < 2 ^ 53"
  shows "durSeconds (n * 125000000) = of_int n / 8"
proof -
  have d: "n * 125000000 div second = n div 8" "n * 125000000 mod second = 125000000 * (n mod 8)"
    using mult_mod_right [of 125000000 n 8] by (simp_all add: second_def mult.commute)
  have r: "0 \<le> n mod 8" "n mod 8 < 8" by simp_all
  then have "f64 (of_int (125000000 * (n mod 8))) = of_int (125000000 * (n mod 8))" by (intro f64_int) auto
  then have "f64 (of_int (125000000 * (n mod 8))) / 1000000000 = of_int (n mod 8) / 8" by simp
  then have frac: "f64 (f64 (of_int (125000000 * (n mod 8))) / 1000000000) = of_int (n mod 8) / 8"
    using f64_eighths [OF r(1)] r(2) by simp
  have sec: "f64 (of_int (n div 8)) = of_int (n div 8)" using assms by (intro f64_int) auto
  have "(of_int n :: rat) = of_int (8 * (n div 8) + n mod 8)" by simp
  then have total: "(of_int (n div 8) + of_int (n mod 8) / 8 :: rat) = of_int n / 8"
    by (simp only: of_int_add of_int_mult of_int_numeral) simp
  have "durSeconds (n * 125000000) = f64 (of_int n / 8)"
    using assms durSeconds_nonneg_def [of "n * 125000000"] by (simp only: d frac sec total)
  then show ?thesis by (simp only: f64_eighths [OF assms])
qed

section \<open>The phases only move forward\<close>

fun phaseRank :: "phase \<Rightarrow> nat" where
  "phaseRank PhaseFresh = 0"
| "phaseRank PhaseDue = 1"
| "phaseRank PhaseUrgent = 2"
| "phaseRank PhaseExpired = 3"

lemma subT_range: "subT t u < 2 ^ 63" "- (2 ^ 63) \<le> subT t u"
  by (auto simp: subT_def)

lemma subT_mono: "t \<le> t' \<Longrightarrow> subT t u \<le> subT t' u"
  by (auto simp: subT_def)

lemma subT_pos_iff: "0 \<le> subT t u \<longleftrightarrow> u \<le> t" "subT t u \<le> 0 \<longleftrightarrow> t \<le> u"
  by (auto simp: subT_def)

definition lifeShare :: "material \<Rightarrow> gtime \<Rightarrow> rat" where
  "lifeShare m now = f64 (durSeconds (subT now (mat_NotBefore m)) / durSeconds (subT (mat_NotAfter m) (mat_NotBefore m)))"

lemma durSeconds_nonneg: "0 \<le> d \<Longrightarrow> 0 \<le> durSeconds d"
  by (auto simp: durSeconds_nonneg_def second_def intro!: f64_nonneg add_nonneg_nonneg divide_nonneg_pos)

lemma lifeShare_mono:
  assumes "mat_NotBefore m \<le> now" and "now \<le> now'" and "mat_NotBefore m \<le> mat_NotAfter m"
  shows "lifeShare m now \<le> lifeShare m now'"
  using assms
  by (auto simp: lifeShare_def subT_pos_iff
      intro!: f64_mono divide_right_mono durSeconds_mono subT_mono subT_range divide_nonneg_nonneg durSeconds_nonneg)

lemma PhaseAt_cases:
  "PhaseAt sha (Some m) now devid =
     (if mat_NotAfter m \<le> mat_NotBefore m \<or> mat_NotAfter m \<le> now then PhaseExpired
      else if now < mat_NotBefore m then PhaseDue
      else if UrgentAt \<le> lifeShare m now then PhaseUrgent
      else if f64 (RenewAt + renewalOffset sha devid) \<le> lifeShare m now then PhaseDue
      else PhaseFresh)"
  by (auto simp: PhaseAt_def lifeShare_def subT_pos_iff Let_def)

text \<open>Certificate times are whole seconds.\<close>

definition wholeSeconds :: "material \<Rightarrow> bool" where
  "wholeSeconds m \<longleftrightarrow> second dvd mat_NotBefore m \<and> second dvd mat_NotAfter m \<and>
     mat_NotBefore m < mat_NotAfter m \<and> mat_NotAfter m - mat_NotBefore m < 2 ^ 63"

lemma wholeSeconds_life:
  assumes "wholeSeconds m"
  obtains n where "mat_NotAfter m - mat_NotBefore m = 8 * n * 125000000" "0 < n" "8 * n * 125000000 < 2 ^ 63"
    "subT (mat_NotAfter m) (mat_NotBefore m) = 8 * n * 125000000"
proof -
  have "second dvd mat_NotAfter m - mat_NotBefore m" using assms by (simp add: wholeSeconds_def)
  then obtain n where n: "mat_NotAfter m - mat_NotBefore m = second * n" ..
  with assms have "0 < n" "n * 1000000000 < 2 ^ 63" by (auto simp: wholeSeconds_def second_def zero_less_mult_iff)
  moreover from this have "subT (mat_NotAfter m) (mat_NotBefore m) = 8 * n * 125000000"
    using n by (auto simp: subT_def second_def)
  ultimately show ?thesis using n that [of n] by (auto simp: second_def)
qed

lemma f64_7_8 [simp]: "f64 (7 / 8) = 7 / 8"
  using f64_exact [of 7 "- 3"] by (simp add: power_int_def power_divide)

lemma f64_1_2 [simp]: "f64 (1 / 2) = 1 / 2"
  using f64_exact [of 1 "- 1"] by (simp add: power_int_def power_divide)

lemma lifeShare_eighths:
  assumes "wholeSeconds m" and "0 \<le> k" and "k \<le> 8"
    and "8 * (now - mat_NotBefore m) = k * (mat_NotAfter m - mat_NotBefore m)"
  shows "lifeShare m now = f64 (of_int k / 8)"
proof -
  obtain n where n: "mat_NotAfter m - mat_NotBefore m = 8 * n * 125000000" "0 < n" "8 * n * 125000000 < 2 ^ 63"
    "subT (mat_NotAfter m) (mat_NotBefore m) = 8 * n * 125000000" using assms(1) by (rule wholeSeconds_life)
  have e: "now - mat_NotBefore m = k * n * 125000000" using assms(4) n(1) by simp
  have kn: "0 \<le> k * n" "k * n \<le> 8 * n" using assms(2,3) n(2) by (auto intro: mult_right_mono)
  with n(3) e have s: "subT now (mat_NotBefore m) = k * n * 125000000" by (auto simp: subT_def)
  have "k * n < 2 ^ 53" "8 * n < 2 ^ 53" using kn n(3) by auto
  then have ds: "durSeconds (k * n * 125000000) = of_int (k * n) / 8" "durSeconds (8 * n * 125000000) = of_int (8 * n) / 8"
    using durSeconds_eighths [of "k * n"] durSeconds_eighths [of "8 * n"] kn n(2) by auto
  have "(of_int (k * n) / 8 :: rat) / (of_int (8 * n) / 8) = of_int k / 8" using n(2) by simp
  then show ?thesis by (simp only: lifeShare_def s n(4) ds)
qed

lemma lifeShare_half:
  assumes "wholeSeconds m" and "mat_NotBefore m \<le> now"
    and "2 * (now - mat_NotBefore m) \<le> mat_NotAfter m - mat_NotBefore m"
  shows "lifeShare m now \<le> 1 / 2"
proof -
  obtain n where n: "mat_NotAfter m - mat_NotBefore m = 8 * n * 125000000" "0 < n"
    using assms(1) by (rule wholeSeconds_life)
  have "lifeShare m now \<le> lifeShare m (mat_NotBefore m + 4 * n * 125000000)"
    using assms n by (intro lifeShare_mono) auto
  also have "\<dots> = f64 (of_int 4 / 8)" using assms(1) n by (intro lifeShare_eighths) auto
  finally show ?thesis by simp
qed

lemma lifeShare_urgent:
  assumes "wholeSeconds m" and "7 * (mat_NotAfter m - mat_NotBefore m) \<le> 8 * (now - mat_NotBefore m)"
  shows "UrgentAt \<le> lifeShare m now"
proof -
  obtain n where n: "mat_NotAfter m - mat_NotBefore m = 8 * n * 125000000" "0 < n"
    using assms(1) by (rule wholeSeconds_life)
  have "lifeShare m (mat_NotBefore m + 7 * n * 125000000) = f64 (of_int 7 / 8)"
    using assms(1) n by (intro lifeShare_eighths) auto
  moreover have "lifeShare m (mat_NotBefore m + 7 * n * 125000000) \<le> lifeShare m now"
    using assms n by (intro lifeShare_mono) auto
  ultimately show ?thesis by (simp add: UrgentAt_def)
qed

lemma DueForRenewal_half:
  assumes "0 < mat_NotAfter m - mat_NotBefore m" and "mat_NotAfter m - mat_NotBefore m < 2 ^ 53"
  shows "DueForRenewal (Some m) now \<longleftrightarrow>
    now < mat_NotBefore m \<or> mat_NotAfter m - mat_NotBefore m \<le> 2 * (now - mat_NotBefore m) + 1"
proof -
  let ?l = "mat_NotAfter m - mat_NotBefore m"
  have l: "subT (mat_NotAfter m) (mat_NotBefore m) = ?l" using assms by (auto simp: subT_def)
  have "f64 (of_int ?l) = of_int ?l" using assms by (intro f64_int) auto
  moreover have "f64 (of_int ?l * (1 / 2)) = of_int ?l * (1 / 2)"
    using f64_exact [of ?l "- 1"] assms by (simp add: power_int_def)
  moreover have "\<lfloor>(of_int ?l :: rat) * (1 / 2)\<rfloor> = ?l div 2"
    using floor_divide_of_int_eq [of ?l 2, where 'a = rat] by simp
  ultimately have "\<lfloor>f64 (f64 (of_int ?l) * RenewAt)\<rfloor> = ?l div 2" by (simp only: RenewAt_def)
  then show ?thesis using assms by (auto simp: DueForRenewal_def l Let_def subT_def)
qed

text \<open>
  While a certificate is in its validity window its phase only moves forward, from fresh over due
  and urgent to expired; it has expired exactly from \<open>NotAfter\<close> on; at seven eighths of its life it is
  urgent whatever the device's jitter; and whenever it is urgent, renewal is due. The times of a
  certificate are whole seconds, and its life is below \<open>2^53\<close> nanoseconds, which is 104 days.
\<close>

theorem phases_forward:
  assumes "wholeSeconds m" and "mat_NotAfter m - mat_NotBefore m < 2 ^ 53"
    and "mat_NotBefore m \<le> now" and "now \<le> now'"
  shows "phaseRank (PhaseAt sha (Some m) now devid) \<le> phaseRank (PhaseAt sha (Some m) now' devid) \<and>
    (PhaseAt sha (Some m) now devid = PhaseExpired \<longleftrightarrow> mat_NotAfter m \<le> now) \<and>
    (7 * (mat_NotAfter m - mat_NotBefore m) \<le> 8 * (now - mat_NotBefore m) \<longrightarrow>
      2 \<le> phaseRank (PhaseAt sha (Some m) now devid)) \<and>
    (2 \<le> phaseRank (PhaseAt sha (Some m) now devid) \<longrightarrow> DueForRenewal (Some m) now)"
proof -
  have w: "mat_NotBefore m < mat_NotAfter m" using assms(1) by (simp add: wholeSeconds_def)
  have "lifeShare m now \<le> lifeShare m now'" using assms w by (intro lifeShare_mono) auto
  then have "phaseRank (PhaseAt sha (Some m) now devid) \<le> phaseRank (PhaseAt sha (Some m) now' devid)"
    using assms w by (auto simp: PhaseAt_cases)
  moreover have "PhaseAt sha (Some m) now devid = PhaseExpired \<longleftrightarrow> mat_NotAfter m \<le> now"
    using assms w by (auto simp: PhaseAt_cases)
  moreover have "2 \<le> phaseRank (PhaseAt sha (Some m) now devid)"
    if "7 * (mat_NotAfter m - mat_NotBefore m) \<le> 8 * (now - mat_NotBefore m)"
    using lifeShare_urgent [OF assms(1) that] assms(3) by (auto simp: PhaseAt_cases)
  moreover have "DueForRenewal (Some m) now" if r: "2 \<le> phaseRank (PhaseAt sha (Some m) now devid)"
  proof (rule ccontr)
    assume "\<not> DueForRenewal (Some m) now"
    then have "2 * (now - mat_NotBefore m) \<le> mat_NotAfter m - mat_NotBefore m" "now < mat_NotAfter m"
      using assms w DueForRenewal_half [of m now] by auto
    with lifeShare_half [OF assms(1,3)] r assms(3) w show False
      by (auto simp: PhaseAt_cases UrgentAt_def split: if_splits)
  qed
  ultimately show ?thesis by blast
qed

definition exampleMaterial :: material where
  "exampleMaterial = \<lparr>mat_CertPath = [], mat_KeyPath = [], mat_ChainPath = [],
     mat_NotAfter = 7776000 * second, mat_NotBefore = 0, mat_Serial = ''1f'', mat_Issued = False\<rparr>"

theorem phases_forward_witness:
  "2 \<le> phaseRank (PhaseAt (\<lambda>_. []) (Some exampleMaterial) (7000000 * second) ''d1'') \<and>
   DueForRenewal (Some exampleMaterial) (7000000 * second)"
  using phases_forward [of exampleMaterial "7000000 * second" "7000000 * second" "\<lambda>_. []" "''d1''"]
  by (simp add: exampleMaterial_def wholeSeconds_def second_def)

section \<open>The jitter\<close>

lemma f64_idem: "0 \<le> q \<Longrightarrow> f64 (f64 q) = f64 q"
proof (cases "q = 0")
  case False
  assume "0 \<le> q"
  with False have q: "0 < q" by simp
  let ?n = "roundEven (q / ulp q)"
  have f: "f64 q = of_int ?n * 2 powi (ilog2 q - 52)" by (simp add: f64_pos [OF q] ulp_def)
  have "roundEven (of_int (2 ^ 52)) \<le> ?n" "?n \<le> roundEven (of_int (2 ^ 53))"
    using scaled_bounds [OF q] by (auto intro!: roundEven_mono)
  then have n: "2 ^ 52 \<le> ?n" "?n \<le> 2 ^ 53" by (simp_all only: roundEven_of_int)
  show ?thesis
  proof (cases "?n = 2 ^ 53")
    case True
    then have "f64 q = of_int 1 * 2 powi (ilog2 q + 1)" using pow2_add [of 53 "ilog2 q - 52"]
      by (simp add: f add.commute algebra_simps)
    then show ?thesis using f64_exact [of 1 "ilog2 q + 1"] by simp
  next
    case False
    with n f f64_exact [of ?n "ilog2 q - 52"] show ?thesis by simp
  qed
qed simp

lemma beUint32_range: "0 \<le> beUint32 bs" "beUint32 bs \<le> 4294967295"
proof -
  have nn: "0 \<le> foldl (\<lambda>n b. 256 * n + uint b) k (xs :: 8 word list)" if "0 \<le> k" for k xs
    using that by (induction xs arbitrary: k) auto
  have up: "foldl (\<lambda>n b. 256 * n + uint b) k (xs :: 8 word list) < (k + 1) * 256 ^ length xs" for k xs
  proof (induction xs arbitrary: k)
    case (Cons b xs)
    have "uint b < 256" using uint_lt2p [of b] by simp
    then have "(256 * k + uint b + 1) * 256 ^ length xs \<le> (256 * (k + 1)) * 256 ^ length xs"
      by (intro mult_right_mono) auto
    with Cons.IH [of "256 * k + uint b"] have
      "foldl (\<lambda>n b. 256 * n + uint b) (256 * k + uint b) xs < (256 * (k + 1)) * 256 ^ length xs" by (rule less_le_trans)
    then show ?case by (simp add: algebra_simps)
  qed simp
  show "0 \<le> beUint32 bs" by (simp add: beUint32_def nn)
  have "256 ^ length (take 4 bs) \<le> (256 :: int) ^ 4" by (intro power_increasing) auto
  with up [of 0 "take 4 bs"] show "beUint32 bs \<le> 4294967295" by (simp add: beUint32_def)
qed

lemma RenewJitter_nonneg: "0 \<le> RenewJitter"
  by (auto simp: RenewJitter_def intro: f64_nonneg)

lemma renewalOffset_bounds: "0 \<le> renewalOffset sha devid" "renewalOffset sha devid \<le> RenewJitter"
proof -
  let ?n = "beUint32 (sha devid)"
  have e: "f64 (of_int ?n) = of_int ?n" "f64 4294967295 = 4294967295"
    using beUint32_range [of "sha devid"] f64_int [of ?n] f64_int [of 4294967295] by simp_all
  have "0 \<le> (of_int ?n :: rat)" "(of_int ?n :: rat) \<le> of_int 4294967295"
    using beUint32_range [of "sha devid"] by (simp_all only: of_int_0_le_iff of_int_le_iff)
  then have r: "0 \<le> (of_int ?n / 4294967295 :: rat)" "(of_int ?n / 4294967295 :: rat) \<le> 1" by simp_all
  have one: "f64 1 = 1" using f64_int [of 1] by simp
  have s: "0 \<le> f64 (of_int ?n / 4294967295)" "f64 (of_int ?n / 4294967295) \<le> 1"
    using f64_nonneg [OF r(1)] f64_mono [OF r] one by simp_all
  have o: "renewalOffset sha devid = f64 (f64 (of_int ?n / 4294967295) * RenewJitter)"
    by (simp add: renewalOffset_def e Let_def)
  show "0 \<le> renewalOffset sha devid" unfolding o using s RenewJitter_nonneg by (auto intro: f64_nonneg)
  have "f64 (f64 (of_int ?n / 4294967295) * RenewJitter) \<le> f64 RenewJitter"
    using s RenewJitter_nonneg by (intro f64_mono) (auto simp: mult_left_le_one_le)
  also have "\<dots> = RenewJitter" by (simp add: RenewJitter_def f64_idem)
  finally show "renewalOffset sha devid \<le> RenewJitter" unfolding o .
qed

text \<open>The largest hash reaches the bound, which the comment of \<open>renewalOffset\<close> excludes.\<close>

lemma renewalOffset_reaches_bound: "renewalOffset (\<lambda>_. replicate 32 255) devid = RenewJitter"
proof -
  have "take 4 (replicate 32 (255 :: 8 word)) = [255, 255, 255, 255]" by (simp add: numeral_eq_Suc)
  then have "beUint32 (replicate 32 255) = 4294967295" by (simp add: beUint32_def)
  moreover have "f64 4294967295 = 4294967295" "f64 1 = 1" using f64_int [of 4294967295] f64_int [of 1] by simp_all
  ultimately show ?thesis by (simp add: renewalOffset_def RenewJitter_def f64_idem Let_def)
qed

text \<open>
  \<open>Ensure\<close> renews at half the life for every device alike: with a life below 104 days renewal is due
  exactly from the middle of the life on. The jitter, which stays within \<open>RenewJitter\<close>, moves only the
  phase that is reported: at half the life a device whose offset is at least 1/32 is reported
  fresh while its renewal is due. The spread that the jitter promises is not applied to the renewals.
\<close>

theorem renewal_ignores_jitter:
  assumes "wholeSeconds m" and "mat_NotAfter m - mat_NotBefore m < 2 ^ 53"
    and "mat_NotBefore m \<le> now" and "now < mat_NotAfter m"
  shows "(DueForRenewal (Some m) now \<longleftrightarrow> mat_NotAfter m - mat_NotBefore m \<le> 2 * (now - mat_NotBefore m)) \<and>
    0 \<le> renewalOffset sha devid \<and> renewalOffset sha devid \<le> RenewJitter \<and>
    (2 * (now - mat_NotBefore m) = mat_NotAfter m - mat_NotBefore m \<and> 1 / 32 \<le> renewalOffset sha devid \<longrightarrow>
      PhaseAt sha (Some m) now devid = PhaseFresh \<and> DueForRenewal (Some m) now)"
proof -
  obtain n where n: "mat_NotAfter m - mat_NotBefore m = 8 * n * 125000000" using assms(1) by (rule wholeSeconds_life)
  have even: "2 * l \<le> 2 * k + 1 \<longleftrightarrow> 2 * l \<le> 2 * k" for k l :: int by presburger
  have "DueForRenewal (Some m) now \<longleftrightarrow> 2 * (4 * n * 125000000) \<le> 2 * (now - mat_NotBefore m) + 1"
    using assms DueForRenewal_half [of m now] n by (simp add: wholeSeconds_def)
  then have due: "DueForRenewal (Some m) now \<longleftrightarrow> mat_NotAfter m - mat_NotBefore m \<le> 2 * (now - mat_NotBefore m)"
    unfolding even n by simp
  have "PhaseAt sha (Some m) now devid = PhaseFresh"
    if h: "2 * (now - mat_NotBefore m) = mat_NotAfter m - mat_NotBefore m" "1 / 32 \<le> renewalOffset sha devid"
  proof -
    have "lifeShare m now = f64 (of_int 4 / 8)" using assms(1) h(1) by (intro lifeShare_eighths) auto
    then have share: "lifeShare m now = 1 / 2" by simp
    have "f64 (17 / 32) = 17 / 32" using f64_exact [of 17 "- 5"] by (simp add: power_int_def power_divide)
    then have "17 / 32 \<le> f64 (RenewAt + renewalOffset sha devid)"
      using f64_mono [of "17 / 32" "RenewAt + renewalOffset sha devid"] h(2) by (simp add: RenewAt_def)
    then show ?thesis using assms by (simp add: PhaseAt_cases share UrgentAt_def wholeSeconds_def)
  qed
  then show ?thesis using due renewalOffset_bounds by auto
qed

theorem renewal_ignores_jitter_witness:
  "PhaseAt (\<lambda>_. replicate 32 255) (Some exampleMaterial) (3888000 * second) ''d1'' = PhaseFresh \<and>
   DueForRenewal (Some exampleMaterial) (3888000 * second)"
proof -
  have "f64 (1 / 32) = 1 / 32" using f64_exact [of 1 "- 5"] by (simp add: power_int_def power_divide)
  then have "1 / 32 \<le> RenewJitter" using f64_mono [of "1 / 32" "1 / 20"] by (simp add: RenewJitter_def)
  then show ?thesis
    using renewal_ignores_jitter [of exampleMaterial "3888000 * second" "\<lambda>_. replicate 32 255" "''d1''"]
    by (simp add: exampleMaterial_def wholeSeconds_def second_def renewalOffset_reaches_bound)
qed

end
