(* ===== verification/Net_Cert.thy ===== *)
theory Net_Cert
  imports Cert_Life
begin

text \<open>
  Obtaining and holding the device's network certificate, \<open>agent/internal/netcert\<close>: what is written
  where (\<open>Save\<close>, \<open>saveAll\<close>, \<open>Load\<close> of \<open>netcert.go\<close>; the machine stores of \<open>certstore_windows.go\<close>), the
  renewal key on Unix and on Windows (\<open>key.go\<close>, \<open>key_other.go\<close>, \<open>key_windows.go\<close>), the request to the
  server and \<open>Ensure\<close> (\<open>request.go\<close>), and \<open>Presence\<close>.

  \<open>device\<close> is what a renewal can change: the files of the state directory by path, the key
  containers of the provider with the public key each holds, and the three machine stores. PEM,
  X.509, SHA-1 and SHA-256 are the argument \<open>lib\<close>; what the disk, the key provider, the stores and the
  server do during one call of \<open>Ensure\<close> is the argument \<open>env\<close>, so that every failure is a case.
\<close>

section \<open>The device and its surroundings\<close>

record crt =
  crt_Raw :: bytes
  crt_Subject :: string
  crt_CommonName :: string
  crt_RawSubject :: bytes
  crt_RawIssuer :: bytes
  crt_NotBefore :: gtime
  crt_NotAfter :: gtime
  crt_Serial :: int
  crt_Pub :: string

record cert_lib =
  cl_blocks :: "string \<Rightarrow> (string \<times> bytes) list"
  cl_parse :: "bytes \<Rightarrow> crt option"
  cl_signedBy :: "bytes \<Rightarrow> bytes \<Rightarrow> bool"
  cl_sha256 :: "string \<Rightarrow> 8 word list"
  cl_sha1 :: "bytes \<Rightarrow> 8 word list"

record device =
  dv_files :: "string \<Rightarrow> bytes option"
  dv_keys :: "string \<Rightarrow> string option"
  dv_My :: "(bytes \<times> string) list"
  dv_CA :: "bytes list"
  dv_Root :: "bytes list"

datatype netcert_error =
    ErrNoCertificate
  | ErrNotConfigured
  | CertUnreadable
  | CertMalformed
  | MkdirFailed
  | WriteFailed string
  | KeyFailed
  | CsrFailed
  | RequestFailed bool
  | RequestRefused
  | BadStatus int
  | BadResponse
  | Incomplete
  | StoreFailed
  | ChainMalformed

datatype write_end = WriteOK | OpenFails | WriteCut nat
datatype cng_end = CngFails | CngUnreadable string | CngMade string
datatype add_end = AddOK | AddFails | BindFails
datatype http_end = HttpFailed bool | HttpStatus int string

record cert_request =
  cq_AgentID :: string
  cq_AgentSecret :: string
  cq_CsrPEM :: bytes

record cert_env =
  ce_readFails :: bool
  ce_mkdirFails :: bool
  ce_keyWrite :: write_end
  ce_syncFails :: bool
  ce_chainWrite :: write_end
  ce_certWrite :: write_end
  ce_keyPair :: "(string \<times> bytes) option"
  ce_cng :: cng_end
  ce_csr :: "string \<Rightarrow> bytes option"
  ce_server :: "string \<Rightarrow> cert_request \<Rightarrow> http_end"
  ce_decode :: "string \<Rightarrow> (string \<times> string) option"
  ce_openMyFails :: bool
  ce_addMy :: add_end
  ce_chainFails :: "bytes \<Rightarrow> bool"
  ce_keepsCert :: "bytes \<Rightarrow> bool"
  ce_keepsKey :: "string \<Rightarrow> bool"
  ce_keepsFile :: bool

section \<open>Files\<close>

definition netPath :: "string \<Rightarrow> string \<Rightarrow> string" where
  "netPath dir name = dir @ ''/'' @ name"

abbreviation keyFileName :: string where "keyFileName \<equiv> ''network.key''"
abbreviation certFileName :: string where "certFileName \<equiv> ''network.crt''"
abbreviation chainFileName :: string where "chainFileName \<equiv> ''network-chain.pem''"

text \<open>Writing a file truncates it first: a failed write leaves a part of the data.\<close>

fun writeAt :: "write_end \<Rightarrow> string \<Rightarrow> bytes \<Rightarrow> device \<Rightarrow> bool \<times> device" where
  "writeAt WriteOK path data d = (True, d\<lparr>dv_files := (dv_files d)(path \<mapsto> data)\<rparr>)"
| "writeAt OpenFails path data d = (False, d)"
| "writeAt (WriteCut n) path data d = (False, d\<lparr>dv_files := (dv_files d)(path \<mapsto> take n data)\<rparr>)"

definition writeKey :: "cert_env \<Rightarrow> string \<Rightarrow> bytes \<Rightarrow> device \<Rightarrow> netcert_error option \<times> device" where
  "writeKey env path pemBytes d =
     (let (ok, d1) = writeAt (ce_keyWrite env) path pemBytes d
      in if \<not> ok then (Some (WriteFailed path), d1)
         else if ce_syncFails env then (Some (WriteFailed path), d1) else (None, d1))"

definition parseCert :: "cert_lib \<Rightarrow> string \<Rightarrow> netcert_error + crt" where
  "parseCert lib certPEM =
     (case cl_blocks lib certPEM of
        [] \<Rightarrow> Inl CertMalformed
      | (ty, der) # _ \<Rightarrow> (case cl_parse lib der of None \<Rightarrow> Inl CertMalformed | Some c \<Rightarrow> Inr c))"

text \<open>\<open>%x\<close> of a number: lower case, no leading zeros.\<close>

fun hexNat :: "nat \<Rightarrow> string" where
  "hexNat n = (if n < 16 then [hexDigit n] else hexNat (n div 16) @ [hexDigit (n mod 16)])"

declare hexNat.simps [simp del]

definition serialHex :: "crt \<Rightarrow> string" where
  "serialHex c = (if crt_Serial c < 0 then CHR ''-'' # hexNat (nat (- crt_Serial c)) else hexNat (nat (crt_Serial c)))"

definition materialOf :: "string \<Rightarrow> crt \<Rightarrow> material" where
  "materialOf dir c =
     \<lparr>mat_CertPath = netPath dir certFileName, mat_KeyPath = netPath dir keyFileName,
      mat_ChainPath = netPath dir chainFileName, mat_NotAfter = crt_NotAfter c,
      mat_NotBefore = crt_NotBefore c, mat_Serial = serialHex c, mat_Issued = False\<rparr>"

definition netSave :: "cert_lib \<Rightarrow> cert_env \<Rightarrow> string \<Rightarrow> string \<Rightarrow> string \<Rightarrow> device \<Rightarrow> (netcert_error + material) \<times> device" where
  "netSave lib env dir certPEM chainPEM d =
     (case parseCert lib certPEM of
        Inl e \<Rightarrow> (Inl e, d)
      | Inr cert \<Rightarrow>
          let (ok1, d1) = writeAt (ce_chainWrite env) (netPath dir chainFileName) chainPEM d in
          if \<not> ok1 then (Inl (WriteFailed (netPath dir chainFileName)), d1)
          else let (ok2, d2) = writeAt (ce_certWrite env) (netPath dir certFileName) certPEM d1 in
            if \<not> ok2 then (Inl (WriteFailed (netPath dir certFileName)), d2)
            else (Inr (materialOf dir cert), d2))"

definition saveAll :: "cert_lib \<Rightarrow> cert_env \<Rightarrow> string \<Rightarrow> bytes \<Rightarrow> string \<Rightarrow> string \<Rightarrow> device \<Rightarrow> (netcert_error + material) \<times> device" where
  "saveAll lib env dir keyPEM certPEM chainPEM d =
     (if ce_mkdirFails env then (Inl MkdirFailed, d)
      else (case writeKey env (netPath dir keyFileName) keyPEM d of
         (Some e, d1) \<Rightarrow> (Inl e, d1)
       | (None, d1) \<Rightarrow> netSave lib env dir certPEM chainPEM d1))"

definition netLoad :: "cert_lib \<Rightarrow> cert_env \<Rightarrow> string \<Rightarrow> device \<Rightarrow> netcert_error + material" where
  "netLoad lib env dir d =
     (case dv_files d (netPath dir certFileName) of
        None \<Rightarrow> Inl ErrNoCertificate
      | Some raw \<Rightarrow>
          if ce_readFails env then Inl CertUnreadable
          else (case parseCert lib raw of Inl e \<Rightarrow> Inl e | Inr cert \<Rightarrow> Inr (materialOf dir cert)))"

section \<open>The machine stores of Windows\<close>

definition keyContainerPrefix :: string where
  "keyContainerPrefix = ''everwas-8021x-''"

definition keyContainerName :: "cert_lib \<Rightarrow> string \<Rightarrow> string \<Rightarrow> string" where
  "keyContainerName lib deviceID predecessorSerial =
     keyContainerPrefix @ hexOf (take 16 (cl_sha256 lib (deviceID @ [CHR 0x00] @ predecessorSerial)))"

definition createCNGKey :: "cert_env \<Rightarrow> string \<Rightarrow> device \<Rightarrow> (netcert_error + string) \<times> device" where
  "createCNGKey env name d =
     (case ce_cng env of
        CngFails \<Rightarrow> (Inl KeyFailed, d)
      | CngUnreadable pub \<Rightarrow> (Inl KeyFailed, d\<lparr>dv_keys := (dv_keys d)(name \<mapsto> pub)\<rparr>)
      | CngMade pub \<Rightarrow> (Inr pub, d\<lparr>dv_keys := (dv_keys d)(name \<mapsto> pub)\<rparr>))"

definition deleteCNGKey :: "cert_env \<Rightarrow> string \<Rightarrow> device \<Rightarrow> device" where
  "deleteCNGKey env name d =
     (if ce_keepsKey env name then d else d\<lparr>dv_keys := (dv_keys d)(name := None)\<rparr>)"

text \<open>\<open>CERT_STORE_ADD_REPLACE_EXISTING\<close> replaces the same certificate, and its properties with it; the
  binding to the key container is a property set afterwards.\<close>

definition addToMy :: "cert_env \<Rightarrow> bytes \<Rightarrow> string \<Rightarrow> device \<Rightarrow> netcert_error option \<times> device" where
  "addToMy env der container d =
     (case ce_addMy env of
        AddFails \<Rightarrow> (Some StoreFailed, d)
      | BindFails \<Rightarrow> (Some StoreFailed, d\<lparr>dv_My := filter (\<lambda>e. fst e \<noteq> der) (dv_My d) @ [(der, [])]\<rparr>)
      | AddOK \<Rightarrow> (None, d\<lparr>dv_My := filter (\<lambda>e. fst e \<noteq> der) (dv_My d) @ [(der, container)]\<rparr>))"

fun installChain :: "cert_lib \<Rightarrow> cert_env \<Rightarrow> crt \<Rightarrow> (string \<times> bytes) list \<Rightarrow> device \<Rightarrow> netcert_error option \<times> device" where
  "installChain lib env leaf [] d = (None, d)"
| "installChain lib env leaf ((ty, der) # bs) d =
     (if ty \<noteq> ''CERTIFICATE'' then installChain lib env leaf bs d
      else (case cl_parse lib der of
         None \<Rightarrow> (Some ChainMalformed, d)
       | Some c \<Rightarrow>
           if crt_Raw c = crt_Raw leaf then installChain lib env leaf bs d
           else if ce_chainFails env der then (Some StoreFailed, d)
           else installChain lib env leaf bs
             (if cl_signedBy lib der der
              then d\<lparr>dv_Root := filter (\<lambda>e. e \<noteq> der) (dv_Root d) @ [der]\<rparr>
              else d\<lparr>dv_CA := filter (\<lambda>e. e \<noteq> der) (dv_CA d) @ [der]\<rparr>)))"

definition superseded :: "cert_lib \<Rightarrow> crt \<Rightarrow> bytes \<times> string \<Rightarrow> bool" where
  "superseded lib keep e \<longleftrightarrow>
     (case cl_parse lib (fst e) of
        None \<Rightarrow> False
      | Some c \<Rightarrow> crt_Subject c = crt_Subject keep \<and> crt_Raw c \<noteq> crt_Raw keep)"

definition sweepOne :: "cert_env \<Rightarrow> bytes \<times> string \<Rightarrow> device \<Rightarrow> device" where
  "sweepOne env e d =
     (let d1 = (if ce_keepsCert env (fst e) then d else d\<lparr>dv_My := removeAll e (dv_My d)\<rparr>)
      in if hasPrefix (snd e) keyContainerPrefix then deleteCNGKey env (snd e) d1 else d1)"

definition sweepSuperseded :: "cert_lib \<Rightarrow> cert_env \<Rightarrow> crt \<Rightarrow> device \<Rightarrow> device" where
  "sweepSuperseded lib env keep d = fold (sweepOne env) (filter (superseded lib keep) (dv_My d)) d"

definition firstCert :: "cert_lib \<Rightarrow> string \<Rightarrow> (bytes \<times> crt) option" where
  "firstCert lib certPEM =
     (case cl_blocks lib certPEM of
        [] \<Rightarrow> None
      | (ty, der) # _ \<Rightarrow>
          if ty \<noteq> ''CERTIFICATE'' then None
          else (case cl_parse lib der of None \<Rightarrow> None | Some c \<Rightarrow> Some (der, c)))"

definition installCertificate :: "cert_lib \<Rightarrow> cert_env \<Rightarrow> string \<Rightarrow> string \<Rightarrow> string \<Rightarrow> device \<Rightarrow> netcert_error option \<times> device" where
  "installCertificate lib env container certPEM chainPEM d =
     (case firstCert lib certPEM of
        None \<Rightarrow> (Some CertMalformed, d)
      | Some (leafDER, leaf) \<Rightarrow>
          if ce_openMyFails env then (Some StoreFailed, d)
          else (case addToMy env leafDER container d of
             (Some e, d1) \<Rightarrow> (Some e, d1)
           | (None, d1) \<Rightarrow>
               (case installChain lib env leaf (cl_blocks lib chainPEM) d1 of
                  (Some e, d2) \<Rightarrow> (Some e, d2)
                | (None, d2) \<Rightarrow> (None, sweepSuperseded lib env leaf d2))))"

section \<open>The renewal key\<close>

record deviceKey =
  dk_signer :: string
  dk_save :: "string \<Rightarrow> string \<Rightarrow> device \<Rightarrow> (netcert_error + material) \<times> device"
  dk_discard :: "device \<Rightarrow> device"

type_synonym keyMaker =
  "cert_lib \<Rightarrow> cert_env \<Rightarrow> string \<Rightarrow> string \<Rightarrow> string \<Rightarrow> device \<Rightarrow> (netcert_error + deviceKey) \<times> device"

definition newDeviceKeyUnix :: keyMaker where
  "newDeviceKeyUnix lib env dir deviceID predecessorSerial d =
     (case ce_keyPair env of
        None \<Rightarrow> (Inl KeyFailed, d)
      | Some (pub, keyPEM) \<Rightarrow>
          (Inr \<lparr>dk_signer = pub, dk_save = saveAll lib env dir keyPEM, dk_discard = (\<lambda>d. d)\<rparr>, d))"

definition saveWindows :: "cert_lib \<Rightarrow> cert_env \<Rightarrow> string \<Rightarrow> string \<Rightarrow> string \<Rightarrow> string \<Rightarrow> device \<Rightarrow> (netcert_error + material) \<times> device" where
  "saveWindows lib env dir name certPEM chainPEM d =
     (case installCertificate lib env name certPEM chainPEM d of
        (Some e, d1) \<Rightarrow> (Inl e, d1)
      | (None, d1) \<Rightarrow>
          (case netSave lib env dir certPEM chainPEM d1 of
             (Inl e, d2) \<Rightarrow> (Inl e, d2)
           | (Inr m, d2) \<Rightarrow>
               (Inr m, if ce_keepsFile env then d2
                       else d2\<lparr>dv_files := (dv_files d2)(netPath dir keyFileName := None)\<rparr>)))"

definition newDeviceKeyWindows :: keyMaker where
  "newDeviceKeyWindows lib env dir deviceID predecessorSerial d =
     (let name = keyContainerName lib deviceID predecessorSerial in
      case createCNGKey env name d of
        (Inl e, d1) \<Rightarrow> (Inl e, d1)
      | (Inr pub, d1) \<Rightarrow>
          (Inr \<lparr>dk_signer = pub, dk_save = saveWindows lib env dir name, dk_discard = deleteCNGKey env name\<rparr>, d1))"

section \<open>Request and Ensure\<close>

definition certPath :: string where
  "certPath = ''/api/v1/agents/certificate''"

definition Request :: "cert_env \<Rightarrow> string \<Rightarrow> string \<Rightarrow> string \<Rightarrow> bytes \<Rightarrow> netcert_error + string \<times> string" where
  "Request env serverURL agentID agentSecret csrPEM =
     (case ce_server env (trimRightBy (\<lambda>c. c = CHR ''/'') serverURL @ certPath)
             \<lparr>cq_AgentID = agentID, cq_AgentSecret = agentSecret, cq_CsrPEM = csrPEM\<rparr> of
        HttpFailed cancelled \<Rightarrow> Inl (RequestFailed cancelled)
      | HttpStatus code body \<Rightarrow>
          if code = 200 then
            (case ce_decode env body of
               None \<Rightarrow> Inl BadResponse
             | Some (certPEM, chainPEM) \<Rightarrow>
                 if certPEM = [] \<or> chainPEM = [] then Inl Incomplete else Inr (certPEM, chainPEM))
          else if code = 503 then Inl ErrNotConfigured
          else if code = 403 then Inl RequestRefused
          else Inl (BadStatus code))"

definition obtain_cert :: "keyMaker \<Rightarrow> cert_lib \<Rightarrow> cert_env \<Rightarrow> string \<Rightarrow> string \<Rightarrow> string \<Rightarrow> string \<Rightarrow> material option \<Rightarrow> device
    \<Rightarrow> (material option \<times> netcert_error option) \<times> device" where
  "obtain_cert mk lib env dir serverURL agentID agentSecret existing d =
     (case mk lib env dir agentID (case existing of Some m \<Rightarrow> mat_Serial m | None \<Rightarrow> []) d of
        (Inl e, d1) \<Rightarrow> ((None, Some e), d1)
      | (Inr key, d1) \<Rightarrow>
          (case ce_csr env (dk_signer key) of
             None \<Rightarrow> ((None, Some CsrFailed), dk_discard key d1)
           | Some csr \<Rightarrow>
               (case Request env serverURL agentID agentSecret csr of
                  Inl e \<Rightarrow> ((existing, Some e), dk_discard key d1)
                | Inr (certPEM, chainPEM) \<Rightarrow>
                    (case dk_save key certPEM chainPEM d1 of
                       (Inl e, d2) \<Rightarrow> ((None, Some e), dk_discard key d2)
                     | (Inr m, d2) \<Rightarrow> ((Some (m\<lparr>mat_Issued := True\<rparr>), None), d2)))))"

definition ensure :: "keyMaker \<Rightarrow> cert_lib \<Rightarrow> cert_env \<Rightarrow> string \<Rightarrow> string \<Rightarrow> string \<Rightarrow> string \<Rightarrow> gtime \<Rightarrow> device
    \<Rightarrow> (material option \<times> netcert_error option) \<times> device" where
  "ensure mk lib env dir serverURL agentID agentSecret now d =
     (case netLoad lib env dir d of
        Inl e \<Rightarrow>
          if e \<noteq> ErrNoCertificate then ((None, Some e), d)
          else obtain_cert mk lib env dir serverURL agentID agentSecret None d
      | Inr m \<Rightarrow>
          if \<not> DueForRenewal (Some m) now then ((Some m, None), d)
          else obtain_cert mk lib env dir serverURL agentID agentSecret (Some m) d)"

text \<open>The calls of \<open>Ensure\<close> the agent makes one after the other.\<close>

fun attempts :: "keyMaker \<Rightarrow> cert_lib \<Rightarrow> string \<Rightarrow> string \<Rightarrow> string \<Rightarrow> string \<Rightarrow> (cert_env \<times> gtime) list \<Rightarrow> device \<Rightarrow> device" where
  "attempts mk lib dir serverURL agentID agentSecret [] d = d"
| "attempts mk lib dir serverURL agentID agentSecret ((env, now) # es) d =
     attempts mk lib dir serverURL agentID agentSecret es
       (snd (ensure mk lib env dir serverURL agentID agentSecret now d))"

section \<open>Presence\<close>

definition PresenceUnix :: "cert_lib \<Rightarrow> cert_env \<Rightarrow> string \<Rightarrow> device \<Rightarrow> netcert_error + string" where
  "PresenceUnix lib env dir d = (case netLoad lib env dir d of Inl e \<Rightarrow> Inl e | Inr m \<Rightarrow> Inr [])"

fun firstSome :: "('a \<Rightarrow> 'b option) \<Rightarrow> 'a list \<Rightarrow> 'b option" where
  "firstSome f [] = None"
| "firstSome f (x # xs) = (case f x of None \<Rightarrow> firstSome f xs | Some y \<Rightarrow> Some y)"

definition storedDeviceCert :: "cert_lib \<Rightarrow> string \<Rightarrow> device \<Rightarrow> crt option" where
  "storedDeviceCert lib agentID d =
     firstSome (\<lambda>(der, container). case cl_parse lib der of
         None \<Rightarrow> None
       | Some c \<Rightarrow> if crt_CommonName c \<noteq> agentID \<or> container = [] then None else Some c) (dv_My d)"

definition issuerIn :: "cert_lib \<Rightarrow> crt \<Rightarrow> bytes list \<Rightarrow> crt option" where
  "issuerIn lib leaf store =
     firstSome (\<lambda>der. case cl_parse lib der of
         None \<Rightarrow> None
       | Some c \<Rightarrow> if crt_RawSubject c \<noteq> crt_RawIssuer leaf \<or> \<not> cl_signedBy lib (crt_Raw leaf) (crt_Raw c)
                   then None else Some c) store"

definition storedIssuerOf :: "cert_lib \<Rightarrow> crt \<Rightarrow> device \<Rightarrow> crt option" where
  "storedIssuerOf lib leaf d =
     (case issuerIn lib leaf (dv_CA d) of Some c \<Rightarrow> Some c | None \<Rightarrow> issuerIn lib leaf (dv_Root d))"

definition PresenceWindows :: "cert_lib \<Rightarrow> bool \<Rightarrow> string \<Rightarrow> device \<Rightarrow> netcert_error + string" where
  "PresenceWindows lib openFails agentID d =
     (if openFails then Inl StoreFailed
      else (case storedDeviceCert lib agentID d of
         None \<Rightarrow> Inl ErrNoCertificate
       | Some leaf \<Rightarrow>
           (case storedIssuerOf lib leaf d of
              None \<Rightarrow> Inl ChainMalformed
            | Some issuer \<Rightarrow> Inr (hexOf (cl_sha1 lib (crt_Raw issuer))))))"

text \<open>A library, an undisturbed call and a device for the witnesses: a certificate is its own PEM and
  its own public key.\<close>

definition exLib :: cert_lib where
  "exLib = \<lparr>cl_blocks = (\<lambda>s. if s = [] then [] else [(''CERTIFICATE'', s)]),
     cl_parse = (\<lambda>der. if der = ''bad'' then None
       else Some \<lparr>crt_Raw = der, crt_Subject = ''dev'', crt_CommonName = ''dev'', crt_RawSubject = [], crt_RawIssuer = [],
         crt_NotBefore = 0, crt_NotAfter = 0, crt_Serial = 31, crt_Pub = der\<rparr>),
     cl_signedBy = (\<lambda>_ _. False), cl_sha256 = (\<lambda>_. replicate 32 0), cl_sha1 = (\<lambda>_. [])\<rparr>"

definition exEnv :: "http_end \<Rightarrow> cert_env" where
  "exEnv answer = \<lparr>ce_readFails = False, ce_mkdirFails = False, ce_keyWrite = WriteOK, ce_syncFails = False,
     ce_chainWrite = WriteOK, ce_certWrite = WriteOK, ce_keyPair = Some (''p2'', ''p2''), ce_cng = CngMade ''p2'',
     ce_csr = Some, ce_server = (\<lambda>_ _. answer), ce_decode = (\<lambda>b. Some (b, ''chain'')), ce_openMyFails = False,
     ce_addMy = AddOK, ce_chainFails = (\<lambda>_. False), ce_keepsCert = (\<lambda>_. False), ce_keepsKey = (\<lambda>_. False),
     ce_keepsFile = False\<rparr>"

definition exDevice :: device where
  "exDevice = \<lparr>dv_files = [netPath ''d'' certFileName \<mapsto> ''p1'', netPath ''d'' keyFileName \<mapsto> ''p1''],
     dv_keys = Map.empty, dv_My = [], dv_CA = [], dv_Root = []\<rparr>"

lemma exLib_raw: "\<forall>der c. cl_parse exLib der = Some c \<longrightarrow> crt_Raw c = der"
  by (auto simp: exLib_def split: if_splits)

lemma exEnv_readable: "(exEnv answer)\<lparr>ce_readFails := False\<rparr> = exEnv answer"
  by (simp add: exEnv_def)

lemma materialOf_unissued: "(materialOf dir c)\<lparr>mat_Issued := False\<rparr> = materialOf dir c"
  by (simp add: materialOf_def)

lemmas ex_defs = exLib_def exEnv_def exDevice_def Request_def parseCert_def materialOf_def

section \<open>A renewal the server does not grant changes nothing\<close>

definition untouched :: "string set \<Rightarrow> device \<Rightarrow> device \<Rightarrow> bool" where
  "untouched names d d' \<longleftrightarrow> dv_files d' = dv_files d \<and> dv_My d' = dv_My d \<and> dv_CA d' = dv_CA d \<and>
     dv_Root d' = dv_Root d \<and> (\<forall>n. n \<notin> names \<longrightarrow> dv_keys d' n = dv_keys d n)"

lemma untouched_refl [simp]: "untouched names d d"
  by (simp add: untouched_def)

lemma untouched_trans: "untouched names d d' \<Longrightarrow> untouched names d' d'' \<Longrightarrow> untouched names d d''"
  by (auto simp: untouched_def)

text \<open>The serial of the certificate on disk, which a renewal replaces.\<close>

definition heldSerial :: "cert_lib \<Rightarrow> string \<Rightarrow> device \<Rightarrow> string" where
  "heldSerial lib dir d =
     (case dv_files d (netPath dir certFileName) of
        None \<Rightarrow> []
      | Some raw \<Rightarrow> (case parseCert lib raw of Inl e \<Rightarrow> [] | Inr c \<Rightarrow> serialHex c))"

lemma heldSerial_untouched: "untouched names d d' \<Longrightarrow> heldSerial lib dir d' = heldSerial lib dir d"
  by (simp add: untouched_def heldSerial_def)

lemma netLoad_held:
  "netLoad lib env dir d = Inr m \<Longrightarrow> mat_Serial m = heldSerial lib dir d"
  "netLoad lib env dir d = Inl ErrNoCertificate \<Longrightarrow> heldSerial lib dir d = []"
  by (auto simp: netLoad_def heldSerial_def materialOf_def parseCert_def split: option.splits sum.splits if_splits list.splits)

text \<open>What \<open>Ensure\<close> relies on in a key: making and discarding it touch at most the containers
  it names.\<close>

locale renewal_key =
  fixes mk :: keyMaker and containers :: "cert_lib \<Rightarrow> string \<Rightarrow> string \<Rightarrow> string set"
  assumes made: "mk lib env dir devid pred d = (r, d1) \<Longrightarrow> untouched (containers lib devid pred) d d1"
    and discarded: "mk lib env dir devid pred d = (Inr k, d1) \<Longrightarrow>
      untouched (containers lib devid pred) d2 (dk_discard k d2)"
begin

lemma obtain_refused:
  assumes "\<And>csr. \<exists>e. Request env url devid secret csr = Inl e"
  shows "untouched (containers lib devid (case existing of Some m \<Rightarrow> mat_Serial m | None \<Rightarrow> [])) d
    (snd (obtain_cert mk lib env dir url devid secret existing d))"
proof -
  obtain r d1 where mk: "mk lib env dir devid (case existing of Some m \<Rightarrow> mat_Serial m | None \<Rightarrow> []) d = (r, d1)"
    by fastforce
  show ?thesis
  proof (cases r)
    case (Inl e)
    with mk made [OF mk] show ?thesis by (simp add: obtain_cert_def)
  next
    case (Inr k)
    with mk have mk': "mk lib env dir devid (case existing of Some m \<Rightarrow> mat_Serial m | None \<Rightarrow> []) d = (Inr k, d1)" by simp
    have "snd (obtain_cert mk lib env dir url devid secret existing d) = dk_discard k d1"
      using assms by (auto simp: obtain_cert_def mk' split: option.splits sum.splits)
        (metis Inl_Inr_False)
    with untouched_trans [OF made [OF mk'] discarded [OF mk']] show ?thesis by simp
  qed
qed

lemma ensure_refused:
  assumes "\<And>csr. \<exists>e. Request env url devid secret csr = Inl e"
  shows "untouched (containers lib devid (heldSerial lib dir d)) d (snd (ensure mk lib env dir url devid secret now d))"
proof (cases "netLoad lib env dir d")
  case (Inl e)
  show ?thesis
  proof (cases "e = ErrNoCertificate")
    case True
    with Inl netLoad_held(2) obtain_refused [OF assms, of lib None] show ?thesis
      by (simp add: ensure_def)
  next
    case False
    with Inl show ?thesis by (simp add: ensure_def)
  qed
next
  case (Inr m)
  with netLoad_held(1) [OF Inr] obtain_refused [OF assms, of lib "Some m"] show ?thesis
    by (simp add: ensure_def)
qed

lemma attempts_refused:
  assumes "\<And>env now csr. (env, now) \<in> set es \<Longrightarrow> \<exists>e. Request env url devid secret csr = Inl e"
  shows "untouched (containers lib devid (heldSerial lib dir d)) d (attempts mk lib dir url devid secret es d)"
  using assms
proof (induction es arbitrary: d)
  case (Cons x es)
  obtain env now where x: "x = (env, now)" by fastforce
  let ?d = "snd (ensure mk lib env dir url devid secret now d)"
  have step: "untouched (containers lib devid (heldSerial lib dir d)) d ?d"
    using Cons.prems x by (intro ensure_refused) auto
  have "untouched (containers lib devid (heldSerial lib dir ?d)) ?d (attempts mk lib dir url devid secret es ?d)"
    using Cons.prems by (intro Cons.IH) auto
  with step show ?case unfolding x heldSerial_untouched [OF step] by (simp add: untouched_trans)
qed simp

end

interpretation unix_key: renewal_key newDeviceKeyUnix "\<lambda>_ _ _. {}"
  by unfold_locales (auto simp: newDeviceKeyUnix_def split: option.splits)

interpretation windows_key: renewal_key newDeviceKeyWindows "\<lambda>lib devid pred. {keyContainerName lib devid pred}"
  by unfold_locales
     (auto simp: newDeviceKeyWindows_def createCNGKey_def deleteCNGKey_def untouched_def Let_def
       split: cng_end.splits sum.splits prod.splits)

text \<open>
  C30. However often the server fails to issue a certificate, the device is left as it was: no file,
  no store changes, on Unix nothing at all, and on Windows at most one key container, always the
  same one, whose name is derived from the serial of the certificate the device holds.
\<close>

theorem refused_renewals_harmless:
  assumes "\<forall>(env, now) \<in> set es. \<forall>csr. \<exists>e. Request env url devid secret csr = Inl e"
  shows "untouched {} d (attempts newDeviceKeyUnix lib dir url devid secret es d) \<and>
    untouched {keyContainerName lib devid (heldSerial lib dir d)} d
      (attempts newDeviceKeyWindows lib dir url devid secret es d)"
  using assms unix_key.attempts_refused [of es] windows_key.attempts_refused [of es] by fast

theorem refused_renewals_harmless_witness:
  "untouched {} exDevice (attempts newDeviceKeyUnix exLib ''d'' ''https://h/'' ''a'' ''s''
     [(exEnv (HttpStatus 503 []), 5), (exEnv (HttpFailed True), 9)] exDevice)"
  using refused_renewals_harmless [of "[(exEnv (HttpStatus 503 []), 5), (exEnv (HttpFailed True), 9)]" "''https://h/''" "''a''" "''s''"
      exDevice exLib "''d''"]
  by (simp add: ex_defs)

section \<open>A renewal on Unix\<close>

lemma netSave_success:
  assumes "netSave lib env dir certPEM chainPEM d = (Inr m, d')"
  shows "\<exists>c. parseCert lib certPEM = Inr c \<and> m = materialOf dir c \<and>
    d' = d\<lparr>dv_files := (dv_files d)(netPath dir chainFileName \<mapsto> chainPEM, netPath dir certFileName \<mapsto> certPEM)\<rparr>"
  using assms
  by (cases "ce_chainWrite env"; cases "ce_certWrite env") (auto simp: netSave_def split: sum.splits)

lemma saveAll_success:
  assumes "saveAll lib env dir keyPEM certPEM chainPEM d = (Inr m, d')"
  shows "\<exists>c. parseCert lib certPEM = Inr c \<and> m = materialOf dir c \<and>
    d' = d\<lparr>dv_files := (dv_files d)(netPath dir keyFileName \<mapsto> keyPEM, netPath dir chainFileName \<mapsto> chainPEM,
       netPath dir certFileName \<mapsto> certPEM)\<rparr>"
  using assms
  by (cases "ce_keyWrite env") (auto simp: saveAll_def writeKey_def split: if_splits dest!: netSave_success)

lemma ensure_split:
  "ensure mk lib env dir url devid secret now d = (r, d') \<Longrightarrow>
   (\<exists>m. netLoad lib env dir d = Inr m \<and> \<not> DueForRenewal (Some m) now \<and> r = (Some m, None) \<and> d' = d) \<or>
   (\<exists>e. netLoad lib env dir d = Inl e \<and> e \<noteq> ErrNoCertificate \<and> r = (None, Some e) \<and> d' = d) \<or>
   (\<exists>existing. obtain_cert mk lib env dir url devid secret existing d = (r, d') \<and>
      (case existing of Some m \<Rightarrow> netLoad lib env dir d = Inr m \<and> DueForRenewal (Some m) now
       | None \<Rightarrow> netLoad lib env dir d = Inl ErrNoCertificate))"
  by (cases "netLoad lib env dir d") (auto simp: ensure_def split: if_splits intro: exI [of _ "Some _"] exI [of _ None])

lemma obtain_success:
  assumes "obtain_cert mk lib env dir url devid secret existing d = ((Some m, None), d')"
  obtains k d1 csr certPEM chainPEM m0 where
    "mk lib env dir devid (case existing of Some m \<Rightarrow> mat_Serial m | None \<Rightarrow> []) d = (Inr k, d1)"
    "ce_csr env (dk_signer k) = Some csr" "Request env url devid secret csr = Inr (certPEM, chainPEM)"
    "dk_save k certPEM chainPEM d1 = (Inr m0, d')" "m = m0\<lparr>mat_Issued := True\<rparr>"
  using assms by (auto simp: obtain_cert_def split: prod.splits sum.splits option.splits)

lemma netPath_eq [simp]: "netPath dir a = netPath dir b \<longleftrightarrow> a = b"
  by (simp add: netPath_def)

text \<open>
  When \<open>Ensure\<close> reports success on Unix the device holds what it reports: either a certificate that
  is not due, with nothing changed and nothing asked, or a certificate the server issued for the
  request of a fresh key, whose key, chain and certificate are the files now on disk, every other
  file being as before; and loading the directory gives the reported material back.
\<close>

theorem ensure_unix_success:
  assumes "ensure newDeviceKeyUnix lib env dir url devid secret now d = ((Some m, None), d')"
  shows "netLoad lib (env\<lparr>ce_readFails := False\<rparr>) dir d' = Inr (m\<lparr>mat_Issued := False\<rparr>) \<and>
    (if mat_Issued m then
       (\<exists>pub keyPEM csr certPEM chainPEM.
          ce_keyPair env = Some (pub, keyPEM) \<and> ce_csr env pub = Some csr \<and>
          Request env url devid secret csr = Inr (certPEM, chainPEM) \<and>
          d' = d\<lparr>dv_files := (dv_files d)(netPath dir keyFileName \<mapsto> keyPEM,
            netPath dir chainFileName \<mapsto> chainPEM, netPath dir certFileName \<mapsto> certPEM)\<rparr>)
     else d' = d \<and> \<not> DueForRenewal (Some m) now)"
  using ensure_split [OF assms]
proof (elim disjE exE conjE)
  fix m' assume *: "netLoad lib env dir d = Inr m'" "\<not> DueForRenewal (Some m') now" "(Some m, None) = (Some m', None)" "d' = d"
  then have "\<not> mat_Issued m" "netLoad lib (env\<lparr>ce_readFails := False\<rparr>) dir d = Inr m"
    by (auto simp: netLoad_def materialOf_def split: option.splits if_splits sum.splits)
  with * show ?thesis by simp
next
  fix existing assume "obtain_cert newDeviceKeyUnix lib env dir url devid secret existing d = ((Some m, None), d')"
  then show ?thesis
  proof (rule obtain_success)
    fix k d1 csr certPEM chainPEM m0
    assume *: "newDeviceKeyUnix lib env dir devid (case existing of Some m \<Rightarrow> mat_Serial m | None \<Rightarrow> []) d = (Inr k, d1)"
      "ce_csr env (dk_signer k) = Some csr" "Request env url devid secret csr = Inr (certPEM, chainPEM)"
      "dk_save k certPEM chainPEM d1 = (Inr m0, d')" "m = m0\<lparr>mat_Issued := True\<rparr>"
    then obtain pub keyPEM where k: "ce_keyPair env = Some (pub, keyPEM)" "dk_signer k = pub" "d1 = d"
      "saveAll lib env dir keyPEM certPEM chainPEM d = (Inr m0, d')"
      by (auto simp: newDeviceKeyUnix_def split: option.splits)
    from saveAll_success [OF k(4)] obtain c where "parseCert lib certPEM = Inr c" "m0 = materialOf dir c"
      "d' = d\<lparr>dv_files := (dv_files d)(netPath dir keyFileName \<mapsto> keyPEM, netPath dir chainFileName \<mapsto> chainPEM,
         netPath dir certFileName \<mapsto> certPEM)\<rparr>" by blast
    with * k show ?thesis by (auto simp: netLoad_def materialOf_def)
  qed
qed simp_all

theorem ensure_unix_success_witness:
  "netLoad exLib (exEnv (HttpStatus 200 ''c2''))
     ''d'' (snd (ensure newDeviceKeyUnix exLib (exEnv (HttpStatus 200 ''c2'')) ''d'' ''u'' ''a'' ''s'' 7 exDevice)) =
   Inr (materialOf ''d'' (the (cl_parse exLib ''c2'')))"
proof -
  let ?e = "exEnv (HttpStatus 200 ''c2'')"
  have "ensure newDeviceKeyUnix exLib ?e ''d'' ''u'' ''a'' ''s'' 7 exDevice =
    ((Some ((materialOf ''d'' (the (cl_parse exLib ''c2'')))\<lparr>mat_Issued := True\<rparr>), None),
     snd (ensure newDeviceKeyUnix exLib ?e ''d'' ''u'' ''a'' ''s'' 7 exDevice))"
    by (simp add: ensure_def netLoad_def obtain_cert_def newDeviceKeyUnix_def saveAll_def writeKey_def netSave_def
        DueForRenewal_def subT_def ex_defs)
  from ensure_unix_success [OF this] show ?thesis by (simp add: exEnv_readable materialOf_unissued)
qed

text \<open>
  A renewal can leave a working Unix device without its network identity: when the server answers
  200 with a certificate that does not parse, the key file has been overwritten before the
  certificate is read, so the certificate on disk, which was valid, no longer matches the key.
\<close>

theorem malformed_answer_breaks_key:
  assumes "dv_files d (netPath dir certFileName) = Some raw" and "parseCert lib raw = Inr c"
    and "dv_files d (netPath dir keyFileName) = Some oldKey" and "pubOf oldKey = crt_Pub c"
    and "\<not> ce_readFails env" and "DueForRenewal (Some (materialOf dir c)) now"
    and "ce_keyPair env = Some (pub, keyPEM)" and "pubOf keyPEM = pub" and "pub \<noteq> crt_Pub c"
    and "ce_csr env pub = Some csr" and "Request env url devid secret csr = Inr (certPEM, chainPEM)"
    and "parseCert lib certPEM = Inl e"
    and "\<not> ce_mkdirFails env" and "ce_keyWrite env = WriteOK" and "\<not> ce_syncFails env"
  shows "\<exists>d'. ensure newDeviceKeyUnix lib env dir url devid secret now d = ((None, Some e), d') \<and>
    dv_files d' (netPath dir certFileName) = Some raw \<and>
    dv_files d' (netPath dir keyFileName) = Some keyPEM \<and> pubOf keyPEM \<noteq> crt_Pub c"
  using assms
  by (simp add: ensure_def netLoad_def obtain_cert_def newDeviceKeyUnix_def saveAll_def writeKey_def netSave_def)

theorem malformed_answer_breaks_key_witness:
  "dv_files (snd (ensure newDeviceKeyUnix exLib (exEnv (HttpStatus 200 ''bad'')) ''d'' ''u'' ''a'' ''s'' 7 exDevice))
     (netPath ''d'' keyFileName) = Some ''p2''"
  using malformed_answer_breaks_key [of exDevice "''d''" "''p1''" exLib "the (cl_parse exLib ''p1'')" "''p1''" "\<lambda>k. k"
      "exEnv (HttpStatus 200 ''bad'')" 7 "''p2''" "''p2''" "''p2''" "''u''" "''a''" "''s''" "''bad''" "''chain''" CertMalformed]
  by (auto simp: ex_defs DueForRenewal_def subT_def)

section \<open>A damaged certificate file\<close>

text \<open>
  A certificate file that does not parse ends renewal for good, on both platforms: every later
  call of \<open>Ensure\<close> fails with the same error and changes nothing, whatever the server would issue. A
  write of the certificate that was cut short leaves such a file.
\<close>

theorem damaged_certificate_wedges:
  assumes "dv_files d (netPath dir certFileName) = Some raw" and "parseCert lib raw = Inl e"
  shows "attempts mk lib dir url devid secret es d = d \<and>
    (\<exists>e'. ensure mk lib env dir url devid secret now d = ((None, Some e'), d))"
proof -
  have ne: "e \<noteq> ErrNoCertificate" using assms(2) by (auto simp: parseCert_def split: list.splits option.splits)
  have s: "\<exists>e'. ensure mk lib env dir url devid secret now d = ((None, Some e'), d)" for env now
    using assms ne by (auto simp: ensure_def netLoad_def)
  have "attempts mk lib dir url devid secret es d = d"
  proof (induction es)
    case (Cons x es)
    obtain env now where "x = (env, now)" by fastforce
    with s [of env now] Cons show ?case by auto
  qed simp
  with s show ?thesis by blast
qed

theorem damaged_certificate_wedges_witness:
  "attempts newDeviceKeyWindows exLib ''d'' ''u'' ''a'' ''s'' [(exEnv (HttpStatus 200 ''c2''), 7)]
     (exDevice\<lparr>dv_files := [netPath ''d'' certFileName \<mapsto> ''bad'']\<rparr>) =
   exDevice\<lparr>dv_files := [netPath ''d'' certFileName \<mapsto> ''bad'']\<rparr>"
proof -
  let ?d = "exDevice\<lparr>dv_files := [netPath ''d'' certFileName \<mapsto> ''bad'']\<rparr>"
  have "dv_files ?d (netPath ''d'' certFileName) = Some ''bad''" "parseCert exLib ''bad'' = Inl CertMalformed"
    by (simp_all add: ex_defs)
  from damaged_certificate_wedges [OF this] show ?thesis by blast
qed

lemma cut_write_damages:
  assumes "ce_chainWrite env = WriteOK" and "ce_certWrite env = WriteCut n" and "parseCert lib certPEM = Inr c"
    and "parseCert lib (take n certPEM) = Inl e"
  shows "\<exists>d'. netSave lib env dir certPEM chainPEM d = (Inl (WriteFailed (netPath dir certFileName)), d') \<and>
    dv_files d' (netPath dir certFileName) = Some (take n certPEM)"
  using assms by (simp add: netSave_def)

section \<open>A renewal on Windows\<close>

lemma sweepOne_parts:
  "dv_My (sweepOne env e d) = filter (\<lambda>x. x \<noteq> e \<or> ce_keepsCert env (fst x)) (dv_My d)"
  "dv_keys (sweepOne env e d) =
     (\<lambda>n. if hasPrefix n keyContainerPrefix \<and> \<not> ce_keepsKey env n \<and> n = snd e then None else dv_keys d n)"
  "dv_files (sweepOne env e d) = dv_files d"
  by (auto simp: sweepOne_def deleteCNGKey_def Let_def removeAll_filter_not_eq fun_eq_iff
      intro!: filter_cong filter_True [symmetric])

lemma sweep_fold:
  "dv_My (fold (sweepOne env) es d) = filter (\<lambda>e. e \<notin> set es \<or> ce_keepsCert env (fst e)) (dv_My d)"
  "dv_keys (fold (sweepOne env) es d) =
     (\<lambda>n. if hasPrefix n keyContainerPrefix \<and> \<not> ce_keepsKey env n \<and> n \<in> snd ` set es then None else dv_keys d n)"
  "dv_files (fold (sweepOne env) es d) = dv_files d"
  by (induction es arbitrary: d) (auto simp: sweepOne_parts fun_eq_iff intro!: filter_cong)

lemma installChain_frame:
  "dv_My (snd (installChain lib env leaf bs d)) = dv_My d \<and> dv_keys (snd (installChain lib env leaf bs d)) = dv_keys d \<and>
   dv_files (snd (installChain lib env leaf bs d)) = dv_files d"
  by (induction lib env leaf bs d rule: installChain.induct) (auto split: option.splits)

lemma hasPrefix_container: "hasPrefix (keyContainerName lib devid pred) keyContainerPrefix"
  by (simp add: hasPrefix_def keyContainerName_def)

definition storedWith :: "bytes \<Rightarrow> string \<Rightarrow> (bytes \<times> string) list \<Rightarrow> (bytes \<times> string) list" where
  "storedWith der name es = filter (\<lambda>e. fst e \<noteq> der) es @ [(der, name)]"

lemma installCertificate_success:
  assumes "installCertificate lib env name certPEM chainPEM d = (None, d')"
  obtains der c where "firstCert lib certPEM = Some (der, c)"
    "dv_My d' = filter (\<lambda>e. superseded lib c e \<longrightarrow> ce_keepsCert env (fst e)) (storedWith der name (dv_My d))"
    "dv_keys d' = (\<lambda>n. if hasPrefix n keyContainerPrefix \<and> \<not> ce_keepsKey env n \<and>
        (\<exists>e \<in> set (storedWith der name (dv_My d)). superseded lib c e \<and> snd e = n) then None else dv_keys d n)"
    "dv_files d' = dv_files d"
proof -
  from assms obtain der c d1 d2 where *: "firstCert lib certPEM = Some (der, c)"
    "addToMy env der name d = (None, d1)" "installChain lib env c (cl_blocks lib chainPEM) d1 = (None, d2)"
    "d' = sweepSuperseded lib env c d2"
    by (auto simp: installCertificate_def split: option.splits prod.splits if_splits)
  then have d1: "d1 = d\<lparr>dv_My := storedWith der name (dv_My d)\<rparr>"
    by (auto simp: addToMy_def storedWith_def split: add_end.splits)
  have d2: "dv_My d2 = storedWith der name (dv_My d)" "dv_keys d2 = dv_keys d" "dv_files d2 = dv_files d"
    using installChain_frame [of lib env c "cl_blocks lib chainPEM" d1] by (simp_all add: *(3)) (simp_all add: d1)
  show ?thesis
    by (rule that [OF *(1)])
       (auto simp: *(4) sweepSuperseded_def sweep_fold d2 image_iff fun_eq_iff intro!: filter_cong)
qed

lemma saveWindows_success:
  assumes "saveWindows lib env dir name certPEM chainPEM d = (Inr m, d')"
  obtains der c where "firstCert lib certPEM = Some (der, c)" "m = materialOf dir c"
    "dv_My d' = filter (\<lambda>e. superseded lib c e \<longrightarrow> ce_keepsCert env (fst e)) (storedWith der name (dv_My d))"
    "dv_keys d' = (\<lambda>n. if hasPrefix n keyContainerPrefix \<and> \<not> ce_keepsKey env n \<and>
        (\<exists>e \<in> set (storedWith der name (dv_My d)). superseded lib c e \<and> snd e = n) then None else dv_keys d n)"
    "dv_files d' (netPath dir certFileName) = Some certPEM" "dv_files d' (netPath dir chainFileName) = Some chainPEM"
proof -
  from assms obtain d1 d2 where i: "installCertificate lib env name certPEM chainPEM d = (None, d1)"
    and s: "netSave lib env dir certPEM chainPEM d1 = (Inr m, d2)"
    and d': "d' = (if ce_keepsFile env then d2 else d2\<lparr>dv_files := (dv_files d2)(netPath dir keyFileName := None)\<rparr>)"
    by (auto simp: saveWindows_def split: option.splits prod.splits sum.splits)
  from i show ?thesis
  proof (rule installCertificate_success)
    fix der c
    assume c: "firstCert lib certPEM = Some (der, c)"
      "dv_My d1 = filter (\<lambda>e. superseded lib c e \<longrightarrow> ce_keepsCert env (fst e)) (storedWith der name (dv_My d))"
      "dv_keys d1 = (\<lambda>n. if hasPrefix n keyContainerPrefix \<and> \<not> ce_keepsKey env n \<and>
        (\<exists>e \<in> set (storedWith der name (dv_My d)). superseded lib c e \<and> snd e = n) then None else dv_keys d n)"
    from netSave_success [OF s] c(1) show ?thesis
      by (intro that [OF c(1)])
         (auto simp: d' c firstCert_def parseCert_def split: list.splits if_splits option.splits)
  qed
qed

lemma ensure_windows_issued:
  assumes "ensure newDeviceKeyWindows lib env dir url devid secret now d = ((Some m, None), d')" and "mat_Issued m"
  obtains pub csr certPEM chainPEM m0 where "ce_cng env = CngMade pub" "ce_csr env pub = Some csr"
    "Request env url devid secret csr = Inr (certPEM, chainPEM)"
    "saveWindows lib env dir (keyContainerName lib devid (heldSerial lib dir d)) certPEM chainPEM
       (d\<lparr>dv_keys := (dv_keys d)(keyContainerName lib devid (heldSerial lib dir d) \<mapsto> pub)\<rparr>) = (Inr m0, d')"
    "m = m0\<lparr>mat_Issued := True\<rparr>"
  using ensure_split [OF assms(1)]
proof (elim disjE exE conjE)
  fix m' assume "netLoad lib env dir d = Inr m'" "(Some m, None) = (Some m', None)"
  with assms(2) show thesis
    by (auto simp: netLoad_def materialOf_def split: option.splits if_splits sum.splits)
next
  fix existing
  assume o: "obtain_cert newDeviceKeyWindows lib env dir url devid secret existing d = ((Some m, None), d')"
    and ex: "case existing of Some m \<Rightarrow> netLoad lib env dir d = Inr m \<and> DueForRenewal (Some m) now
       | None \<Rightarrow> netLoad lib env dir d = Inl ErrNoCertificate"
  then have "(case existing of Some m \<Rightarrow> mat_Serial m | None \<Rightarrow> []) = heldSerial lib dir d"
    using netLoad_held by (cases existing) auto
  with o show thesis
    by (rule_tac obtain_success [OF o], rule_tac that)
       (auto simp: newDeviceKeyWindows_def createCNGKey_def Let_def split: cng_end.splits)
qed simp


text \<open>
  A renewal on Windows can destroy its own key while it reports success: when the store still holds
  a certificate of this device bound to the container of this renewal, as it does after an attempt
  whose files could not be written, the sweep of superseded certificates deletes the container that
  the certificate just installed is bound to.
\<close>

theorem sweep_deletes_new_key:
  assumes "ensure newDeviceKeyWindows lib env dir url devid secret now d = ((Some m, None), d')" and "mat_Issued m"
    and "name = keyContainerName lib devid (heldSerial lib dir d)" and "\<not> ce_keepsKey env name"
    and "(old, name) \<in> set (dv_My d)" and "cl_parse lib old = Some c0"
    and "\<forall>csr certPEM chainPEM der c. Request env url devid secret csr = Inr (certPEM, chainPEM) \<longrightarrow>
      firstCert lib certPEM = Some (der, c) \<longrightarrow> crt_Subject c = crt_Subject c0 \<and> crt_Raw c \<noteq> crt_Raw c0 \<and> der \<noteq> old"
    and "\<forall>der c. cl_parse lib der = Some c \<longrightarrow> crt_Raw c = der"
  shows "(\<exists>der. (der, name) \<in> set (dv_My d')) \<and> dv_keys d' name = None"
proof -
  from assms(1,2) obtain pub csr certPEM chainPEM m0 where p: 
    "Request env url devid secret csr = Inr (certPEM, chainPEM)"
    "saveWindows lib env dir name certPEM chainPEM (d\<lparr>dv_keys := (dv_keys d)(name \<mapsto> pub)\<rparr>) = (Inr m0, d')"
    unfolding assms(3) by (rule ensure_windows_issued)
  from p(2) obtain der c where c: "firstCert lib certPEM = Some (der, c)"
    "dv_My d' = filter (\<lambda>e. superseded lib c e \<longrightarrow> ce_keepsCert env (fst e)) (storedWith der name (dv_My d))"
    "dv_keys d' = (\<lambda>n. if hasPrefix n keyContainerPrefix \<and> \<not> ce_keepsKey env n \<and>
        (\<exists>e \<in> set (storedWith der name (dv_My d)). superseded lib c e \<and> snd e = n) then None
        else ((dv_keys d)(name \<mapsto> pub)) n)"
    by (rule saveWindows_success) (simp cong: if_cong)
  have s: "crt_Subject c = crt_Subject c0" "crt_Raw c \<noteq> crt_Raw c0" "der \<noteq> old"
    using assms(7) p(1) c(1) by blast+
  then have "superseded lib c (old, name)" using assms(6) by (auto simp: superseded_def)
  moreover have "\<not> superseded lib c (der, name)"
    using c(1) assms(8) by (auto simp: superseded_def firstCert_def split: list.splits if_splits option.splits)
  ultimately show ?thesis
    using assms(4,5) s(3) hasPrefix_container [of lib devid "heldSerial lib dir d"]
    by (force simp: c(2,3) storedWith_def assms(3))
qed

text \<open>The state an attempt leaves whose certificate could not be written to disk, and the next one.\<close>

definition exRetry :: "device" where
  "exRetry = snd (ensure newDeviceKeyWindows exLib ((exEnv (HttpStatus 200 ''c2''))\<lparr>ce_chainWrite := OpenFails\<rparr>)
     ''d'' ''u'' ''a'' ''s'' 7 exDevice)"

lemmas ex_windows = ensure_def netLoad_def obtain_cert_def newDeviceKeyWindows_def createCNGKey_def saveWindows_def
  installCertificate_def firstCert_def addToMy_def sweepSuperseded_def superseded_def sweepOne_def deleteCNGKey_def
  netSave_def DueForRenewal_def subT_def heldSerial_def

lemma exRetry_eq: "exRetry = exDevice\<lparr>dv_My := [(''c2'', keyContainerName exLib ''a'' (heldSerial exLib ''d'' exDevice))],
    dv_CA := [''chain'']\<rparr>"
  by (simp add: exRetry_def ex_windows ex_defs Let_def)

theorem sweep_deletes_new_key_witness:
  "dv_keys (snd (ensure newDeviceKeyWindows exLib (exEnv (HttpStatus 200 ''c3'')) ''d'' ''u'' ''a'' ''s'' 9 exRetry))
     (keyContainerName exLib ''a'' (heldSerial exLib ''d'' exRetry)) = None"
proof -
  let ?r = "ensure newDeviceKeyWindows exLib (exEnv (HttpStatus 200 ''c3'')) ''d'' ''u'' ''a'' ''s'' 9 exRetry"
  let ?m = "(materialOf ''d'' (the (cl_parse exLib ''c3'')))\<lparr>mat_Issued := True\<rparr>"
  have r: "?r = ((Some ?m, None), snd ?r)"
    unfolding exRetry_eq by (simp add: ex_windows ex_defs Let_def)
  have held: "heldSerial exLib ''d'' exRetry = heldSerial exLib ''d'' exDevice"
    by (simp add: exRetry_eq heldSerial_def)
  have mem: "(''c2'', keyContainerName exLib ''a'' (heldSerial exLib ''d'' exRetry)) \<in> set (dv_My exRetry)"
    unfolding held by (simp add: exRetry_eq)
  have keeps: "\<not> ce_keepsKey (exEnv (HttpStatus 200 ''c3'')) n" for n by (simp add: exEnv_def)
  have req: "\<forall>csr certPEM chainPEM der c. Request (exEnv (HttpStatus 200 ''c3'')) ''u'' ''a'' ''s'' csr = Inr (certPEM, chainPEM) \<longrightarrow>
      firstCert exLib certPEM = Some (der, c) \<longrightarrow> crt_Subject c = crt_Subject (the (cl_parse exLib ''c2'')) \<and>
      crt_Raw c \<noteq> crt_Raw (the (cl_parse exLib ''c2'')) \<and> der \<noteq> ''c2''"
    by (simp add: Request_def exEnv_def firstCert_def exLib_def)
  have "mat_Issued ?m" "cl_parse exLib ''c2'' = Some (the (cl_parse exLib ''c2''))" by (simp_all add: exLib_def)
  from sweep_deletes_new_key [OF r this(1) refl keeps mem this(2) req exLib_raw] show ?thesis by blast
qed


end
