(* ===== verification/Agent_Core.thy ===== *)
theory Agent_Core
  imports Update_Tracker Posture Net_Cert
begin

text \<open>
  The supervisor of the agent's tasks and the loops it runs, \<open>agent/internal/agentcore\<close>: restarts
  with backoff (\<open>supervise\<close>), credential renewal (\<open>renewLoop\<close>), the network certificate
  (\<open>netcertLoop\<close>), the probe of a fresh update, the record of protocol errors (\<open>linkhealth.go\<close>), what
  the device reports to hold (\<open>certreport.go\<close>, \<open>heartbeat.go\<close>); and from \<open>cli.go\<close> the certificate
  callback, the warning to the user and the exit codes.

  A loop that runs until shutdown is a function of the list of what happens to it; the events it
  logs, publishes or shows are the list it returns.
\<close>

section \<open>Supervision\<close>

definition initialBackoff :: duration where "initialBackoff = second"

definition maxBackoff :: duration where "maxBackoff = 60 * second"

datatype task_end = TaskNil | TaskErr string | TaskPanic string

text \<open>One life of a task: how it ended, for how long it ran, whether shutdown had begun by then, and
  whether it began during the pause before the restart. \<open>runRecovered\<close> makes a panic an error.\<close>

record task_life =
  tl_end :: task_end
  tl_ran :: duration
  tl_stopped :: bool
  tl_stoppedWaiting :: bool

fun runRecovered :: "task_end \<Rightarrow> string option" where
  "runRecovered TaskNil = None"
| "runRecovered (TaskErr e) = Some e"
| "runRecovered (TaskPanic r) = Some (''panic: '' @ r)"

datatype sup_event = TaskStopped | TaskDied "string option" duration

fun supervise :: "duration \<Rightarrow> task_life list \<Rightarrow> sup_event list" where
  "supervise backoff [] = []"
| "supervise backoff (l # ls) =
     (if tl_stopped l then [TaskStopped]
      else let b = (if maxBackoff < tl_ran l then initialBackoff else backoff)
        in TaskDied (runRecovered (tl_end l)) b #
           (if tl_stoppedWaiting l then [] else supervise (min (b * 2) maxBackoff) ls))"

section \<open>Credential renewal\<close>

datatype renew_end = RenewOK | RenewRefused | RenewFailed string

datatype renew_tick = RenewDone | RenewTick renew_end

datatype renew_event = CredentialRenewed | NeedsReenrolling | RenewRetry string

datatype loop_end = LoopCtx | LoopNil | LoopRunning

fun renewAttempt :: "renew_end \<Rightarrow> bool \<times> renew_event" where
  "renewAttempt RenewOK = (True, CredentialRenewed)"
| "renewAttempt RenewRefused = (False, NeedsReenrolling)"
| "renewAttempt (RenewFailed e) = (True, RenewRetry e)"

fun renewLoop :: "renew_tick list \<Rightarrow> renew_event list \<times> loop_end" where
  "renewLoop [] = ([], LoopRunning)"
| "renewLoop (RenewDone # ts) = ([], LoopCtx)"
| "renewLoop (RenewTick r # ts) =
     (let (more, ev) = renewAttempt r
      in if more then (let (evs, e) = renewLoop ts in (ev # evs, e)) else ([ev], LoopNil))"

text \<open>The renew task as \<open>Start\<close> runs it: a life per list of ticks, the next one started by \<open>supervise\<close>
  unless shutdown has begun.\<close>

fun renewLives :: "renew_tick list list \<Rightarrow> renew_event list" where
  "renewLives [] = []"
| "renewLives (ts # lives) =
     (case renewLoop ts of
        (evs, LoopCtx) \<Rightarrow> evs
      | (evs, _) \<Rightarrow> evs @ renewLives lives)"

section \<open>What the device reports to hold\<close>

record certReport =
  cr_serial :: string
  cr_notAfter :: gtime

definition noReport :: certReport where
  "noReport = \<lparr>cr_serial = [], cr_notAfter = zero_time\<rparr>"

definition reportSet :: "material option \<Rightarrow> certReport \<Rightarrow> certReport" where
  "reportSet mo c =
     (case mo of
        None \<Rightarrow> c\<lparr>cr_serial := [], cr_notAfter := zero_time\<rparr>
      | Some m \<Rightarrow> c\<lparr>cr_serial := mat_Serial m, cr_notAfter := mat_NotAfter m\<rparr>)"

definition reportGet :: "certReport \<Rightarrow> string \<times> gtime" where
  "reportGet c = (cr_serial c, cr_notAfter c)"

record beat =
  bt_Version :: string
  bt_UptimeS :: int
  bt_ScheduleVersion :: int
  bt_Seq :: nat
  bt_CertSerial :: string
  bt_CertNotAfter :: string

text \<open>\<open>publish\<close> of \<open>heartbeat.go\<close> up to the envelope; \<open>rfc3339\<close> is the format of the standard library.\<close>

definition mkBeat :: "(gtime \<Rightarrow> string) \<Rightarrow> string \<Rightarrow> duration \<Rightarrow> int \<Rightarrow> nat \<Rightarrow> string \<times> gtime \<Rightarrow> beat" where
  "mkBeat rfc3339 version uptime schedVersion seqno cert =
     (let b = \<lparr>bt_Version = version, bt_UptimeS = \<lfloor>durSeconds uptime\<rfloor>, bt_ScheduleVersion = schedVersion,
        bt_Seq = seqno, bt_CertSerial = [], bt_CertNotAfter = []\<rparr>
      in if fst cert \<noteq> [] then b\<lparr>bt_CertSerial := fst cert, bt_CertNotAfter := rfc3339 (snd cert)\<rparr> else b)"

definition heartbeatInterval :: duration where "heartbeatInterval = 30 * second"

definition heartbeatJitter :: duration where "heartbeatJitter = 3 * second"

text \<open>\<open>rand.N(2*jitter)\<close> gives a duration \<open>r\<close> with \<open>0 \<le> r < 2*jitter\<close>.\<close>

definition nextInterval :: "duration \<Rightarrow> duration" where
  "nextInterval r = heartbeatInterval - heartbeatJitter + r"

section \<open>The certificate loop\<close>

definition netcertCheckEvery :: duration where "netcertCheckEvery = 12 * 60 * 60 * second"

definition netcertUrgentEvery :: duration where "netcertUrgentEvery = 60 * 60 * second"

datatype cert_event =
    Observed "material option"
  | ServerNotIssuing
  | CertExpiring phase gtime netcert_error
  | WarnUser phase gtime
  | CertRetry netcert_error

record netcert_config =
  nc_agentID :: string
  nc_every :: duration
  nc_urgent :: duration
  nc_warnUser :: bool
  nc_observe :: bool

definition urgentPhase :: "phase \<Rightarrow> bool" where
  "urgentPhase p \<longleftrightarrow> p = PhaseUrgent \<or> p = PhaseExpired"

definition certAttempt :: "(string \<Rightarrow> 8 word list) \<Rightarrow> netcert_config \<Rightarrow> gtime \<Rightarrow> material option \<Rightarrow> netcert_error option
    \<Rightarrow> bool \<Rightarrow> duration \<times> bool \<times> cert_event list" where
  "certAttempt sha cfg now mo err reported =
     (let obs = (if nc_observe cfg then [Observed mo] else []);
          p = PhaseAt sha mo now (nc_agentID cfg);
          expires = (case mo of Some m \<Rightarrow> mat_NotAfter m | None \<Rightarrow> zero_time);
          wait = (if urgentPhase p then min (nc_every cfg) (nc_urgent cfg) else nc_every cfg)
      in case err of
        None \<Rightarrow> (wait, reported, obs)
      | Some e \<Rightarrow>
          if e = ErrNotConfigured then (nc_every cfg, True, obs @ (if reported then [] else [ServerNotIssuing]))
          else if e = RequestFailed True then (nc_every cfg, reported, obs)
          else if urgentPhase p then
            (wait, reported, obs @ [CertExpiring p expires e] @ (if nc_warnUser cfg then [WarnUser p expires] else []))
          else (wait, reported, obs @ [CertRetry e]))"

text \<open>\<open>netcertLoop\<close>: what each call of \<open>ensure\<close> returned and when, up to shutdown; with every attempt the
  pause that follows it.\<close>

fun netcertLoop :: "(string \<Rightarrow> 8 word list) \<Rightarrow> netcert_config \<Rightarrow> bool \<Rightarrow> (gtime \<times> material option \<times> netcert_error option) list
    \<Rightarrow> (cert_event list \<times> duration) list" where
  "netcertLoop sha cfg reported [] = []"
| "netcertLoop sha cfg reported ((now, mo, err) # rs) =
     (let (wait, reported', evs) = certAttempt sha cfg now mo err reported
      in (evs, wait) # netcertLoop sha cfg reported' rs)"

text \<open>The callback of \<open>cli.go\<close>: stand aside, or \<open>Ensure\<close>. \<open>policy\<close> is the effective setting, \<open>startMode\<close> the
  mode parsed at the start. The third component says whether standing aside has been logged.\<close>

datatype defer_event = DeferInfo string | DeferWarn string

definition ensureNetCert :: "tools \<Rightarrow> string \<Rightarrow> identity_mode \<Rightarrow> keyMaker \<Rightarrow> cert_lib \<Rightarrow> cert_env \<Rightarrow> string \<Rightarrow> string \<Rightarrow> string
    \<Rightarrow> string \<Rightarrow> gtime \<Rightarrow> bool \<Rightarrow> device \<Rightarrow> ((material option \<times> netcert_error option) \<times> device) \<times> bool \<times> defer_event list" where
  "ensureNetCert tools policy startMode mk lib env dir url devid secret now deferredOnce d =
     (let (mode0, mErr) = ParseMode policy; mode = (if mErr \<noteq> None then startMode else mode0);
          go = (ensure mk lib env dir url devid secret now d, deferredOnce, [])
      in case detect tools of
        (src, False) \<Rightarrow> go
      | (src, True) \<Rightarrow>
          let dec = Decide src mode in
          if dec_Defer dec then
            (((None, Some ErrNotConfigured), d), True,
             if deferredOnce then []
             else [if dec_Warn dec then DeferWarn (dec_Reason dec) else DeferInfo (dec_Reason dec)])
          else go)"

section \<open>Warning the user\<close>

definition tellUserEvery :: duration where "tellUserEvery = 24 * 60 * 60 * second"

text \<open>The stamp is the modification time of a file; the argument says whether it can be written.
  The result says whether the user was interrupted.\<close>

definition warnUserAboutCertificate :: "bool \<Rightarrow> gtime \<Rightarrow> gtime option \<Rightarrow> bool \<times> gtime option" where
  "warnUserAboutCertificate stampOK now stamp =
     (case stamp of
        Some t \<Rightarrow> if subT now t < tellUserEvery then (False, stamp) else (True, if stampOK then Some now else stamp)
      | None \<Rightarrow> (True, if stampOK then Some now else stamp))"

fun warnings :: "gtime list \<Rightarrow> gtime option \<Rightarrow> gtime list" where
  "warnings [] stamp = []"
| "warnings (now # ts) stamp =
     (let (shown, stamp') = warnUserAboutCertificate True now stamp
      in if shown then now # warnings ts stamp' else warnings ts stamp')"

section \<open>Protocol errors and the probe\<close>

text \<open>An error of the connection: whether it is the sentinel of this package, and its text.\<close>

type_synonym nats_error = "bool \<times> string"

record link_health =
  lh_violation :: "nats_error option"
  lh_at :: gtime
  lh_count :: nat

definition newLinkHealth :: link_health where
  "newLinkHealth = \<lparr>lh_violation = None, lh_at = zero_time, lh_count = 0\<rparr>"

definition isPermissionViolation :: "nats_error \<Rightarrow> bool" where
  "isPermissionViolation err \<longleftrightarrow> fst err \<or> containsSub (toLower (snd err)) ''permissions violation''"

definition RecordAsyncError :: "gtime \<Rightarrow> nats_error option \<Rightarrow> link_health \<Rightarrow> link_health" where
  "RecordAsyncError now err h =
     (case err of
        None \<Rightarrow> h
      | Some e \<Rightarrow>
          let h1 = h\<lparr>lh_count := lh_count h + 1\<rparr>
          in if isPermissionViolation e then h1\<lparr>lh_violation := Some e, lh_at := now\<rparr> else h1)"

definition recordAll :: "(gtime \<times> nats_error option) list \<Rightarrow> link_health \<Rightarrow> link_health" where
  "recordAll es h = fold (\<lambda>(now, err). RecordAsyncError now err) es h"

datatype probe_error = NotConnected | NoRoundTrip string | CannotAcceptJobs string | PermissionsViolation string

definition probe :: "bool \<Rightarrow> string option \<Rightarrow> string option \<Rightarrow> link_health option \<Rightarrow> probe_error option" where
  "probe isConnected flushErr readyErr link =
     (if \<not> isConnected then Some NotConnected
      else case flushErr of
        Some e \<Rightarrow> Some (NoRoundTrip e)
      | None \<Rightarrow>
          (case readyErr of
             Some e \<Rightarrow> Some (CannotAcceptJobs e)
           | None \<Rightarrow>
               (case link of
                  None \<Rightarrow> None
                | Some h \<Rightarrow> (case lh_violation h of Some e \<Rightarrow> Some (PermissionsViolation (snd e)) | None \<Rightarrow> None))))"

section \<open>Shutdown\<close>

record stopReason =
  sr_deaf :: bool
  sr_restart :: string
  sr_handoff :: string

definition askedToStop :: stopReason where
  "askedToStop = \<lparr>sr_deaf = False, sr_restart = [], sr_handoff = []\<rparr>"

datatype wake = WakeCtx | WakeDeaf | WakeRestart stopReason

definition waitForShutdown :: "bool \<Rightarrow> wake \<Rightarrow> stopReason" where
  "waitForShutdown ctxEnded w =
     (if ctxEnded then askedToStop
      else case w of
        WakeCtx \<Rightarrow> askedToStop
      | WakeDeaf \<Rightarrow> askedToStop\<lparr>sr_deaf := True\<rparr>
      | WakeRestart why \<Rightarrow> why)"

definition exitCodeFor :: "stopReason \<Rightarrow> int" where
  "exitCodeFor why =
     (if sr_deaf why then 11 else if sr_restart why \<noteq> [] then 10 else if sr_handoff why \<noteq> [] then 0 else 0)"

section \<open>The supervisor keeps every task alive\<close>

lemma supervise_quick:
  assumes "\<forall>l \<in> set ls. \<not> tl_stopped l \<and> \<not> tl_stoppedWaiting l \<and> tl_ran l \<le> maxBackoff"
  shows "supervise (min (2 ^ k * second) maxBackoff) ls =
    map (\<lambda>(i, l). TaskDied (runRecovered (tl_end l)) (min (2 ^ i * second) maxBackoff)) (enumerate k ls)"
  using assms
proof (induction ls arbitrary: k)
  case (Cons l ls)
  have "min (min (2 ^ k * second) maxBackoff * 2) maxBackoff = min (2 ^ Suc k * second) maxBackoff"
    by (auto simp: min_def maxBackoff_def second_def)
  with Cons.IH [of "Suc k"] Cons.prems show ?case by (simp add: Let_def)
qed simp

lemma supervise_alive:
  assumes "\<forall>l \<in> set ls. \<not> tl_stopped l \<and> \<not> tl_stoppedWaiting l" and "initialBackoff \<le> b" and "b \<le> maxBackoff"
  shows "length (supervise b ls) = length ls \<and>
    (\<forall>ev \<in> set (supervise b ls). \<exists>err d. ev = TaskDied err d \<and> initialBackoff \<le> d \<and> d \<le> maxBackoff)"
  using assms
proof (induction ls arbitrary: b)
  case (Cons l ls)
  have "0 < initialBackoff" "initialBackoff \<le> maxBackoff" by (simp_all add: initialBackoff_def maxBackoff_def second_def)
  with Cons.IH [of "min (b * 2) maxBackoff"] Cons.IH [of "min (initialBackoff * 2) maxBackoff"] Cons.prems show ?case
    by (auto simp: Let_def min_def)
qed simp

text \<open>
  C32. Until shutdown the supervisor restarts a task after every end of it, by an error, a panic or a plain
  return, with a pause between one second and one minute; while the task keeps dying within a minute
  the pause doubles from one second up to the minute.
\<close>

theorem supervise_restarts:
  assumes "\<forall>l \<in> set ls. \<not> tl_stopped l \<and> \<not> tl_stoppedWaiting l"
  shows "length (supervise initialBackoff ls) = length ls \<and>
    (\<forall>ev \<in> set (supervise initialBackoff ls). \<exists>err d. ev = TaskDied err d \<and> second \<le> d \<and> d \<le> 60 * second) \<and>
    ((\<forall>l \<in> set ls. tl_ran l \<le> maxBackoff) \<longrightarrow>
      supervise initialBackoff ls =
        map (\<lambda>(i, l). TaskDied (runRecovered (tl_end l)) (min (2 ^ i * second) (60 * second))) (enumerate 0 ls))"
proof -
  have "initialBackoff \<le> maxBackoff" by (simp add: initialBackoff_def maxBackoff_def second_def)
  with supervise_alive [OF assms, of initialBackoff] supervise_quick [of ls 0] assms show ?thesis
    by (auto simp: initialBackoff_def maxBackoff_def second_def min_def)
qed

theorem supervise_restarts_witness:
  "supervise initialBackoff [\<lparr>tl_end = TaskNil, tl_ran = 0, tl_stopped = False, tl_stoppedWaiting = False\<rparr>,
     \<lparr>tl_end = TaskPanic ''x'', tl_ran = 0, tl_stopped = False, tl_stoppedWaiting = False\<rparr>] =
   [TaskDied None second, TaskDied (Some ''panic: x'') (2 * second)]"
  using supervise_restarts [of "[\<lparr>tl_end = TaskNil, tl_ran = 0, tl_stopped = False, tl_stoppedWaiting = False\<rparr>,
     \<lparr>tl_end = TaskPanic ''x'', tl_ran = 0, tl_stopped = False, tl_stoppedWaiting = False\<rparr>]"]
  by (simp add: maxBackoff_def second_def)

text \<open>
  A refused renewal does not end renewing: \<open>renewLoop\<close> returns, which its comment calls terminal, and the
  supervisor takes the return for a death, so the credential is presented and refused again once in
  every later life of the task, for as long as the agent runs.
\<close>

theorem refusal_not_terminal:
  "renewLives (replicate k (RenewTick RenewRefused # ts)) = replicate k NeedsReenrolling \<and>
   supervise initialBackoff [\<lparr>tl_end = TaskNil, tl_ran = 12 * 60 * 60 * second, tl_stopped = False, tl_stoppedWaiting = False\<rparr>] =
     [TaskDied None second]"
  by (induction k) (simp_all add: maxBackoff_def initialBackoff_def second_def)

section \<open>Alarms about the certificate\<close>

lemma certAttempt_wait:
  "fst (certAttempt sha cfg now mo err reported) \<in> {nc_every cfg, min (nc_every cfg) (nc_urgent cfg)}"
  by (auto simp: certAttempt_def Let_def split: option.splits)

text \<open>
  Whoever is at the machine is interrupted exactly when an attempt failed for a reason other than a
  server that issues no certificates or a shutdown, and the certificate the device is said to hold is
  urgent or expired; only then, or while a held certificate is urgent, is the next attempt an hour away
  instead of twelve.
\<close>

theorem cert_alarm_exact:
  assumes "certAttempt sha cfg now mo err reported = (wait, reported', evs)"
    and "nc_every cfg = netcertCheckEvery" and "nc_urgent cfg = netcertUrgentEvery"
  shows "((\<exists>p t. WarnUser p t \<in> set evs) \<longleftrightarrow>
      nc_warnUser cfg \<and> err \<noteq> None \<and> err \<noteq> Some ErrNotConfigured \<and> err \<noteq> Some (RequestFailed True) \<and>
      urgentPhase (PhaseAt sha mo now (nc_agentID cfg))) \<and>
    (wait = netcertUrgentEvery \<longleftrightarrow>
      urgentPhase (PhaseAt sha mo now (nc_agentID cfg)) \<and> err \<noteq> Some ErrNotConfigured \<and> err \<noteq> Some (RequestFailed True))"
  using assms
  by (auto simp: certAttempt_def Let_def netcertCheckEvery_def netcertUrgentEvery_def second_def min_def
      split: option.splits if_splits)

definition exConfig :: netcert_config where
  "exConfig = \<lparr>nc_agentID = ''a'', nc_every = netcertCheckEvery, nc_urgent = netcertUrgentEvery, nc_warnUser = True, nc_observe = True\<rparr>"

theorem cert_alarm_exact_witness:
  "fst (certAttempt (\<lambda>_. []) exConfig 5 None (Some KeyFailed) False) = netcertUrgentEvery"
proof -
  let ?r = "certAttempt (\<lambda>_. []) exConfig 5 None (Some KeyFailed) False"
  have "?r = (fst ?r, fst (snd ?r), snd (snd ?r))" by simp
  from cert_alarm_exact [OF this] show ?thesis
    by (simp add: exConfig_def urgentPhase_def PhaseAt_def)
qed

text \<open>
  A failed renewal of a certificate that is not urgent is routine on Unix: the device keeps the
  certificate and reports its serial and expiry, nobody is interrupted, the failure is logged once and
  the next attempt is in twelve hours.
\<close>

theorem refused_renewal_routine:
  assumes "netLoad lib env dir d = Inr m" and "DueForRenewal (Some m) now"
    and "ce_keyPair env = Some (pub, keyPEM)" and "ce_csr env pub = Some csr"
    and "Request env url devid secret csr = Inl e" and "e \<noteq> ErrNotConfigured" and "e \<noteq> RequestFailed True"
    and "\<not> urgentPhase (PhaseAt sha (Some m) now (nc_agentID cfg))" and "nc_observe cfg"
  shows "\<exists>mo err d'. ensure newDeviceKeyUnix lib env dir url devid secret now d = ((mo, err), d') \<and> d' = d \<and>
    certAttempt sha cfg now mo err reported = (nc_every cfg, reported, [Observed (Some m), CertRetry e]) \<and>
    reportGet (reportSet mo c) = (mat_Serial m, mat_NotAfter m)"
  using assms
  by (simp add: ensure_def obtain_cert_def newDeviceKeyUnix_def certAttempt_def Let_def reportGet_def reportSet_def)

definition exLib90 :: cert_lib where
  "exLib90 = exLib\<lparr>cl_parse := (\<lambda>der. Some \<lparr>crt_Raw = der, crt_Subject = ''dev'', crt_CommonName = ''dev'',
     crt_RawSubject = [], crt_RawIssuer = [], crt_NotBefore = 0, crt_NotAfter = 7776000 * second, crt_Serial = 31, crt_Pub = der\<rparr>)\<rparr>"

definition exHeld :: material where
  "exHeld = materialOf ''d'' (the (cl_parse exLib90 ''p1''))"

lemma exHeld_facts:
  "\<not> ce_readFails env \<Longrightarrow> netLoad exLib90 env ''d'' exDevice = Inr exHeld" "wholeSeconds exHeld"
  "DueForRenewal (Some exHeld) (3888000 * second)"
  "\<not> urgentPhase (PhaseAt sha (Some exHeld) (3888000 * second) devid)"
proof -
  have t: "mat_NotAfter exHeld = 7776000 * second" "mat_NotBefore exHeld = 0"
    by (simp_all add: exHeld_def exLib90_def materialOf_def)
  show "netLoad exLib90 env ''d'' exDevice = Inr exHeld" if "\<not> ce_readFails env"
    using that by (simp add: netLoad_def exHeld_def exLib90_def ex_defs)
  show w: "wholeSeconds exHeld" by (simp add: wholeSeconds_def t second_def)
  show "DueForRenewal (Some exHeld) (3888000 * second)"
    using DueForRenewal_half [of exHeld "3888000 * second"] by (simp add: t second_def)
  have "lifeShare exHeld (3888000 * second) \<le> 1 / 2" using w by (intro lifeShare_half) (simp_all add: t second_def)
  then show "\<not> urgentPhase (PhaseAt sha (Some exHeld) (3888000 * second) devid)"
    by (simp add: urgentPhase_def PhaseAt_cases UrgentAt_def t second_def)
qed

theorem refused_renewal_routine_witness:
  "\<exists>mo err. fst (ensure newDeviceKeyUnix exLib90 (exEnv (HttpStatus 403 [])) ''d'' ''u'' ''a'' ''s'' (3888000 * second) exDevice) = (mo, err) \<and>
     certAttempt (\<lambda>_. []) exConfig (3888000 * second) mo err False = (netcertCheckEvery, False, [Observed (Some exHeld), CertRetry RequestRefused])"
proof -
  have "Request (exEnv (HttpStatus 403 [])) ''u'' ''a'' ''s'' ''p2'' = Inl RequestRefused"
    "ce_keyPair (exEnv (HttpStatus 403 [])) = Some (''p2'', ''p2'')" "ce_csr (exEnv (HttpStatus 403 [])) ''p2'' = Some ''p2''"
    by (simp_all add: ex_defs)
  from refused_renewal_routine [OF exHeld_facts(1) exHeld_facts(3) this(2,3,1), of "\<lambda>_. []" exConfig False noReport]
  show ?thesis using exHeld_facts(4) [of "\<lambda>_. []" "''a''"] by (auto simp: exConfig_def exEnv_def)
qed

text \<open>
  A key that cannot be made raises a false alarm: the device keeps its certificate, but the loop is
  handed no material, so it reports that the device holds nothing, calls the certificate expired,
  interrupts the user and tries again every hour.
\<close>

theorem key_failure_alarms:
  assumes "netLoad lib env dir d = Inr m" and "DueForRenewal (Some m) now" and "ce_keyPair env = None"
  shows "\<exists>mo err d'. ensure newDeviceKeyUnix lib env dir url devid secret now d = ((mo, err), d') \<and> d' = d \<and>
    certAttempt sha exConfig now mo err reported =
      (netcertUrgentEvery, reported,
       [Observed None, CertExpiring PhaseExpired zero_time KeyFailed, WarnUser PhaseExpired zero_time]) \<and>
    reportGet (reportSet mo c) = ([], zero_time)"
  using assms
  by (simp add: ensure_def obtain_cert_def newDeviceKeyUnix_def certAttempt_def Let_def reportGet_def reportSet_def
      PhaseAt_def urgentPhase_def exConfig_def netcertCheckEvery_def netcertUrgentEvery_def second_def)

theorem key_failure_alarms_witness:
  "\<exists>mo err. fst (ensure newDeviceKeyUnix exLib90 ((exEnv (HttpStatus 403 []))\<lparr>ce_keyPair := None\<rparr>) ''d'' ''u'' ''a'' ''s''
       (3888000 * second) exDevice) = (mo, err) \<and>
     snd (snd (certAttempt (\<lambda>_. []) exConfig (3888000 * second) mo err False)) =
       [Observed None, CertExpiring PhaseExpired zero_time KeyFailed, WarnUser PhaseExpired zero_time]"
proof -
  let ?e = "(exEnv (HttpStatus 403 []))\<lparr>ce_keyPair := None\<rparr>"
  have "netLoad exLib90 ?e ''d'' exDevice = Inr exHeld" "ce_keyPair ?e = None"
    by (simp_all add: exHeld_facts(1) exEnv_def)
  from key_failure_alarms [OF this(1) exHeld_facts(3) this(2), of "''u''" "''a''" "''s''" "\<lambda>_. []" False noReport]
  show ?thesis by auto
qed

section \<open>Standing aside for a directory\<close>

text \<open>
  Detection never stops a machine this agent already serves: the callback stands aside exactly when
  detection succeeded and either the operator chose never, or the mode is auto, the machine has no
  certificate of ours and a directory provides one; in every other case, a failed detection included,
  it is \<open>Ensure\<close> that runs. Standing aside changes nothing on the device.
\<close>

theorem ensureNetCert_defers:
  "ensureNetCert tools policy startMode mk lib env dir url devid secret now deferredOnce d =
     (let mode = (if snd (ParseMode policy) = None then fst (ParseMode policy) else startMode);
          src = fst (detect tools);
          aside = (snd (detect tools) \<and>
            (mode = ModeNever \<or> mode = ModeAuto \<and> \<not> ProvidedByUs src \<and> ProvidedByDirectory src))
      in if aside then
           (((None, Some ErrNotConfigured), d), True,
            if deferredOnce then []
            else [if ProvidedByUs src then DeferWarn (dec_Reason (Decide src mode)) else DeferInfo (dec_Reason (Decide src mode))])
         else (ensure mk lib env dir url devid secret now d, deferredOnce, []))"
  by (cases "detect tools"; cases "ParseMode policy") (auto simp: ensureNetCert_def Let_def Decide_defer split: bool.splits)

text \<open>A machine told never to provide an identity reports that it holds no certificate, while it still
  presents the one it has.\<close>

lemma deferral_hides_certificate:
  assumes "detect tools = (src, True)"
  shows "fst (fst (ensureNetCert tools ''never'' m0 mk lib env dir url devid secret now once d)) = (None, Some ErrNotConfigured)"
  using assms by (simp add: ensureNetCert_def Decide_defer ParseMode_def Let_def)

section \<open>Interruptions\<close>

lemma warnings_hd:
  "warnings ts (Some t0) = w # ws \<Longrightarrow> tellUserEvery \<le> w - t0"
  by (induction ts)
     (auto simp: warnUserAboutCertificate_def subT_def tellUserEvery_def second_def Let_def split: if_splits)

text \<open>
  Where the time of a warning can be recorded, two warnings are at least a day apart, however often
  the agent is restarted in between.
\<close>

theorem warnings_daily:
  "successively (\<lambda>a b. tellUserEvery \<le> b - a) (warnings ts stamp)"
proof (induction ts arbitrary: stamp)
  case (Cons t ts)
  obtain shown stamp' where w: "warnUserAboutCertificate True t stamp = (shown, stamp')" by fastforce
  show ?case
  proof (cases shown)
    case True
    then have "stamp' = Some t" using w by (auto simp: warnUserAboutCertificate_def split: option.splits if_splits)
    then show ?thesis using True w Cons.IH [of "Some t"] warnings_hd [of ts t]
      by (cases "warnings ts (Some t)") (auto simp: Let_def)
  next
    case False
    then show ?thesis using w Cons.IH by (simp add: Let_def)
  qed
qed simp

section \<open>A denied subscription is never forgotten\<close>

lemma watch_evidence:
  "watchLoop deadline ticks d = (WatchMarked False, d') \<Longrightarrow> list_ex (\<lambda>t. wk_probe t = Some True) ticks"
  by (induction deadline ticks d rule: watchLoop.induct) (auto split: if_splits dest: watchMark_kind)


lemma recordAll_violation:
  "lh_violation (recordAll es h) =
     (case filter isPermissionViolation (List.map_filter snd es) of
        [] \<Rightarrow> lh_violation h
      | vs \<Rightarrow> Some (last vs))"
  "lh_count (recordAll es h) = lh_count h + length (List.map_filter snd es)"
  by (induction es arbitrary: h)
     (auto simp: recordAll_def RecordAsyncError_def map_filter_def Let_def split: option.splits list.splits)

text \<open>
  A permissions violation stays on record whatever errors follow it, and a build on probation is
  confirmed healthy by the watch only on a probe at which the connection was up, a round trip
  succeeded, the jobs module was ready, and no violation had ever been recorded.
\<close>

theorem confirmed_needs_link:
  assumes "watchLoop deadline
      (map (\<lambda>(up, fl, rd, es, now). \<lparr>wk_probe = Some (probe up fl rd (Some (recordAll es newLinkHealth)) = None),
          wk_endedEarly = False, wk_now = now, wk_ended = False\<rparr>) ins) d = (WatchMarked False, d')"
  shows "\<exists>up fl rd es now. (up, fl, rd, es, now) \<in> set ins \<and> up \<and> fl = None \<and> rd = None \<and>
    (\<forall>e. Some e \<in> snd ` set es \<longrightarrow> \<not> isPermissionViolation e)"
proof -
  from watch_evidence [OF assms] obtain up fl rd es now where i: "(up, fl, rd, es, now) \<in> set ins"
    "probe up fl rd (Some (recordAll es newLinkHealth)) = None"
    by (auto simp: list_ex_iff)
  then have "up" "fl = None" "rd = None" "lh_violation (recordAll es newLinkHealth) = None"
    by (auto simp: probe_def split: if_splits option.splits)
  moreover from this(4) have "filter isPermissionViolation (List.map_filter snd es) = []"
    by (auto simp: recordAll_violation split: list.splits)
  then have "\<forall>e. Some e \<in> snd ` set es \<longrightarrow> \<not> isPermissionViolation e"
    by (force simp: filter_empty_conv map_filter_def)
  ultimately show ?thesis using i(1) by blast
qed

theorem confirmed_needs_link_witness:
  "\<exists>up fl rd es now. (up, fl, rd, es, now) \<in> set [(True, None :: string option, None :: string option, [(1 :: int, Some (False, ''slow consumer''))], 5 :: int)] \<and>
     up \<and> fl = None \<and> rd = None"
proof -
  let ?ins = "[(True, None :: string option, None :: string option, [(1 :: int, Some (False, ''slow consumer''))], 5 :: int)]"
  let ?r = "watchLoop 9 (map (\<lambda>(up, fl, rd, es, now). \<lparr>wk_probe = Some (probe up fl rd (Some (recordAll es newLinkHealth)) = None),
      wk_endedEarly = False, wk_now = now, wk_ended = False\<rparr>) ?ins) demoDisk"
  have "isPermissionViolation (False, ''slow consumer'') = False"
    by (simp add: isPermissionViolation_def containsSub_def hasPrefix_def toLower_def lowerChar_def char_class_defs)
  then have "?r = (WatchMarked False, snd ?r)"
    by (simp add: probe_def recordAll_def RecordAsyncError_def newLinkHealth_def watchMark_def MarkHealthy_def markHealthy_def
        demoDisk_def demoState_def noState_def statePending_def Let_def)
  from confirmed_needs_link [OF this] show ?thesis by blast
qed

section \<open>Exit codes\<close>

text \<open>The service manager is asked to restart the agent exactly when it is deaf or its binary was
  swapped; being asked to stop wins over a connection that closes at the same time.\<close>

lemma exitCode_restart:
  "exitCodeFor why = 0 \<longleftrightarrow> \<not> sr_deaf why \<and> sr_restart why = []"
  "exitCodeFor (waitForShutdown True w) = 0"
  by (simp_all add: exitCodeFor_def waitForShutdown_def askedToStop_def)

lemma nextInterval_bounds:
  "0 \<le> r \<Longrightarrow> r < 2 * heartbeatJitter \<Longrightarrow> 27 * second \<le> nextInterval r \<and> nextInterval r < 33 * second"
  by (simp add: nextInterval_def heartbeatInterval_def heartbeatJitter_def second_def)

end
