(* ===== verification/Config_State.thy ===== *)
theory Config_State
  imports Agent_Core
begin

text \<open>
  The identity of the agent on disk: the state file of \<open>agent/internal/config/config.go\<close>, the move of
  a state directory from before the rename (\<open>migrate.go\<close>), enrolment (\<open>enroll.go\<close>) and the renewal of
  the credential (\<open>renew.go\<close>).

  Directories are maps from file names to contents. The JSON library is an argument, as is what the
  disk and the server do during one call.
\<close>

section \<open>The state file\<close>

record config =
  cf_ServerURL :: string
  cf_AgentID :: string
  cf_AgentSecret :: string
  cf_NATSURL :: string
  cf_NetworkIdentity :: string
  cf_NetworkIdentityPolicy :: string

definition emptyConfig :: config where
  "emptyConfig = \<lparr>cf_ServerURL = [], cf_AgentID = [], cf_AgentSecret = [], cf_NATSURL = [],
     cf_NetworkIdentity = [], cf_NetworkIdentityPolicy = []\<rparr>"

definition EffectiveNetworkIdentity :: "config \<Rightarrow> string" where
  "EffectiveNetworkIdentity c =
     (if cf_NetworkIdentity c \<noteq> [] then cf_NetworkIdentity c else cf_NetworkIdentityPolicy c)"

definition Enrolled :: "config \<Rightarrow> bool" where
  "Enrolled c \<longleftrightarrow> cf_AgentID c \<noteq> [] \<and> cf_AgentSecret c \<noteq> []"

definition stateFileName :: string where
  "stateFileName = ''agent.json''"

record host_env =
  he_stateDir :: string
  he_goos :: string
  he_root :: bool
  he_home :: "string option"

definition stateDirOf :: "host_env \<Rightarrow> string option" where
  "stateDirOf h =
     (if he_stateDir h \<noteq> [] then Some (he_stateDir h)
      else if he_goos h = ''linux'' then
        (if he_root h then Some ''/etc/everwas''
         else map_option (\<lambda>home. home @ ''/.config/everwas'') (he_home h))
      else if he_goos h = ''darwin'' then Some ''/Library/Application Support/Everwas''
      else if he_goos h = ''windows'' then
        Some (''C:'' @ [CHR 0x5C] @ ''ProgramData'' @ [CHR 0x5C] @ ''Everwas'' @ [CHR 0x5C] @ ''Agent'')
      else None)"

definition legacyDir :: "host_env \<Rightarrow> string" where
  "legacyDir h =
     (if he_stateDir h \<noteq> [] then []
      else if he_goos h = ''linux'' then
        (if he_root h then ''/etc/openrmm''
         else (case he_home h of None \<Rightarrow> [] | Some home \<Rightarrow> home @ ''/.config/openrmm''))
      else if he_goos h = ''darwin'' then ''/Library/Application Support/OpenRMM''
      else if he_goos h = ''windows'' then ''C:'' @ [CHR 0x5C] @ ''ProgramData'' @ [CHR 0x5C] @ ''OpenRMM'' @ [CHR 0x5C] @ ''Agent''
      else [])"

type_synonym dirs = "string \<Rightarrow> (string \<Rightarrow> bytes option) option"

record json_config =
  jc_enc :: "config \<Rightarrow> string"
  jc_dec :: "string \<Rightarrow> config option"

record disk_env =
  de_readFails :: bool
  de_mkdirFails :: bool
  de_tmpWrite :: write_end
  de_renameFails :: bool

definition contentOf :: "dirs \<Rightarrow> string \<Rightarrow> string \<Rightarrow> bytes option" where
  "contentOf fs dir name = (case fs dir of None \<Rightarrow> None | Some files \<Rightarrow> files name)"

definition LoadFrom :: "json_config \<Rightarrow> disk_env \<Rightarrow> string \<Rightarrow> dirs \<Rightarrow> config option" where
  "LoadFrom js env dir fs =
     (case contentOf fs dir stateFileName of
        None \<Rightarrow> Some emptyConfig
      | Some raw \<Rightarrow> if de_readFails env then None else jc_dec js raw)"

definition mkdirAll :: "string \<Rightarrow> dirs \<Rightarrow> dirs" where
  "mkdirAll dir fs = (if fs dir = None then fs(dir \<mapsto> Map.empty) else fs)"

definition writeIn :: "string \<Rightarrow> string \<Rightarrow> bytes \<Rightarrow> dirs \<Rightarrow> dirs" where
  "writeIn dir name data fs = fs(dir := map_option (\<lambda>files. files(name \<mapsto> data)) (fs dir))"

text \<open>\<open>SaveTo\<close>: the new content is written beside the file and moved over it. The result says whether it
  succeeded.\<close>

definition tmpName :: string where
  "tmpName = stateFileName @ ''.tmp''"

definition SaveTo :: "json_config \<Rightarrow> disk_env \<Rightarrow> string \<Rightarrow> config \<Rightarrow> dirs \<Rightarrow> bool \<times> dirs" where
  "SaveTo js env dir c fs =
     (if de_mkdirFails env then (False, fs)
      else let fs1 = mkdirAll dir fs; raw = jc_enc js c @ [CHR 0x0A] in
        case de_tmpWrite env of
          OpenFails \<Rightarrow> (False, fs1)
        | WriteCut n \<Rightarrow> (False, writeIn dir tmpName (take n raw) fs1)
        | WriteOK \<Rightarrow>
            let fs2 = writeIn dir tmpName raw fs1 in
            if de_renameFails env then (False, fs2)
            else (True, fs2(dir := map_option (\<lambda>files. files(tmpName := None, stateFileName := files tmpName)) (fs2 dir))))"

section \<open>The move from before the rename\<close>

datatype migrate_error = PrepareFailed | MoveFailed

record move_env =
  mv_mkdirFails :: bool
  mv_renameFails :: bool

text \<open>\<open>mv_renameFails\<close> says whether \<open>os.Rename\<close> of the directory fails, as it does when the target is not
  empty.\<close>

definition migrateState :: "move_env \<Rightarrow> string \<Rightarrow> string \<Rightarrow> dirs \<Rightarrow> (bool \<times> migrate_error option) \<times> dirs" where
  "migrateState env legacy current fs =
     (if legacy = [] \<or> legacy = current then ((False, None), fs)
      else if contentOf fs current stateFileName \<noteq> None then ((False, None), fs)
      else if contentOf fs legacy stateFileName = None then ((False, None), fs)
      else if mv_mkdirFails env then ((False, Some PrepareFailed), fs)
      else if mv_renameFails env then ((False, Some MoveFailed), fs)
      else ((True, None), fs(current := fs legacy, legacy := None)))"

definition MigrateLegacyState :: "move_env \<Rightarrow> host_env \<Rightarrow> dirs \<Rightarrow> (bool \<times> migrate_error option) \<times> dirs" where
  "MigrateLegacyState env h fs =
     (if legacyDir h = [] then ((False, None), fs)
      else case stateDirOf h of
        None \<Rightarrow> ((False, Some PrepareFailed), fs)
      | Some current \<Rightarrow> migrateState env (legacyDir h) current fs)"

section \<open>Enrolment and renewal\<close>

record enroll_request =
  eq_Token :: string
  eq_Hostname :: string
  eq_OSFamily :: string
  eq_OSVersion :: string
  eq_Arch :: string
  eq_AgentVersion :: string

record enroll_env =
  ee_server :: "string \<Rightarrow> enroll_request \<Rightarrow> http_end"
  ee_decode :: "string \<Rightarrow> (string \<times> string \<times> string) option"
  ee_host :: enroll_request

datatype enroll_error = EnrollRequestFailed | EnrollRejected int string | EnrollMalformed | EnrollIncomplete | EnrollNotSaved

definition enrollPath :: string where
  "enrollPath = ''/api/v1/agents/enroll''"

definition exchange :: "enroll_env \<Rightarrow> string \<Rightarrow> string \<Rightarrow> string \<Rightarrow> enroll_error + config" where
  "exchange env serverURL token agentVersion =
     (case ee_server env (trimRightBy (\<lambda>c. c = CHR ''/'') serverURL @ enrollPath)
             ((ee_host env)\<lparr>eq_Token := token, eq_AgentVersion := agentVersion\<rparr>) of
        HttpFailed c \<Rightarrow> Inl EnrollRequestFailed
      | HttpStatus code body \<Rightarrow>
          if code < 200 \<or> 299 < code then Inl (EnrollRejected code (trimSpace (take 4096 body)))
          else (case ee_decode env body of
             None \<Rightarrow> Inl EnrollMalformed
           | Some (agentID, secret, natsURL) \<Rightarrow>
               if agentID = [] \<or> secret = [] \<or> natsURL = [] then Inl EnrollIncomplete
               else Inr (emptyConfig\<lparr>cf_ServerURL := serverURL, cf_AgentID := agentID, cf_AgentSecret := secret,
                 cf_NATSURL := natsURL\<rparr>)))"

definition Enroll :: "json_config \<Rightarrow> disk_env \<Rightarrow> enroll_env \<Rightarrow> string \<Rightarrow> string \<Rightarrow> string \<Rightarrow> string \<Rightarrow> dirs \<Rightarrow> enroll_error option \<times> dirs" where
  "Enroll js denv env dir serverURL token agentVersion fs =
     (case exchange env serverURL token agentVersion of
        Inl e \<Rightarrow> (Some e, fs)
      | Inr cfg \<Rightarrow> (case SaveTo js denv dir cfg fs of (True, fs') \<Rightarrow> (None, fs') | (False, fs') \<Rightarrow> (Some EnrollNotSaved, fs')))"

definition renewPath :: string where
  "renewPath = ''/api/v1/agents/renew''"

record renew_env =
  rn_server :: "string \<Rightarrow> string \<times> string \<Rightarrow> http_end"
  rn_decode :: "string \<Rightarrow> (string \<times> string) option"

text \<open>\<open>Renew\<close> changes the configuration in memory before it saves it.\<close>

definition Renew :: "json_config \<Rightarrow> disk_env \<Rightarrow> renew_env \<Rightarrow> string \<Rightarrow> config \<times> dirs \<Rightarrow> renew_end \<times> config \<times> dirs" where
  "Renew js denv env dir st =
     (let (cfg, fs) = st in
      if \<not> Enrolled cfg then (RenewFailed ''renew: not enrolled'', cfg, fs)
      else case rn_server env (trimRightBy (\<lambda>c. c = CHR ''/'') (cf_ServerURL cfg) @ renewPath) (cf_AgentID cfg, cf_AgentSecret cfg) of
        HttpFailed c \<Rightarrow> (RenewFailed ''renew'', cfg, fs)
      | HttpStatus code body \<Rightarrow>
          if code = 403 then (RenewRefused, cfg, fs)
          else if code \<noteq> 200 then (RenewFailed ''renew: server returned'', cfg, fs)
          else (case rn_decode env body of
             None \<Rightarrow> (RenewFailed ''renew: decode response'', cfg, fs)
           | Some (secret, policy) \<Rightarrow>
               if secret = [] then (RenewFailed ''renew: server returned an empty secret'', cfg, fs)
               else let cfg' = cfg\<lparr>cf_AgentSecret := secret, cf_NetworkIdentityPolicy := policy\<rparr> in
                 (case SaveTo js denv dir cfg' fs of
                    (True, fs') \<Rightarrow> (RenewOK, cfg', fs')
                  | (False, fs') \<Rightarrow> (RenewFailed ''renew: save new credential'', cfg', fs'))))"

fun renewals :: "json_config \<Rightarrow> string \<Rightarrow> (disk_env \<times> renew_env) list \<Rightarrow> config \<times> dirs \<Rightarrow> config \<times> dirs" where
  "renewals js dir [] st = st"
| "renewals js dir ((denv, env) # es) st = renewals js dir es (snd (Renew js denv env dir st))"

section \<open>Saving is all or nothing\<close>

definition faithfulJSON :: "json_config \<Rightarrow> bool" where
  "faithfulJSON js \<longleftrightarrow> (\<forall>c. jc_dec js (jc_enc js c @ [CHR 0x0A]) = Some c)"

lemma SaveTo_cases:
  assumes "SaveTo js env dir c fs = (ok, fs')"
  shows "contentOf fs' dir stateFileName = (if ok then Some (jc_enc js c @ [CHR 0x0A]) else contentOf fs dir stateFileName)"
    and "dir' \<noteq> dir \<Longrightarrow> fs' dir' = fs dir'"
  using assms
  by (auto simp: SaveTo_def mkdirAll_def writeIn_def contentOf_def tmpName_def Let_def
      split: if_splits write_end.splits option.splits)

lemma SaveTo_loads:
  assumes "faithfulJSON js" and "SaveTo js env dir c fs = (ok, fs')" and "\<not> de_readFails env'"
  shows "LoadFrom js env' dir fs' = (if ok then Some c else LoadFrom js env' dir fs)"
  using assms SaveTo_cases(1) [OF assms(2)] by (simp add: LoadFrom_def faithfulJSON_def split: option.splits)

text \<open>
  Saving the state file is all or nothing: when it succeeds the saved configuration is what is loaded
  next, and when it fails, wherever it fails, what was on disk before is what is loaded next; no
  other directory changes.
\<close>

theorem SaveTo_atomic:
  assumes "faithfulJSON js" and "SaveTo js env dir c fs = (ok, fs')" and "\<not> de_readFails env'"
  shows "LoadFrom js env' dir fs' = (if ok then Some c else LoadFrom js env' dir fs) \<and>
    (\<forall>dir'. dir' \<noteq> dir \<longrightarrow> fs' dir' = fs dir')"
  using SaveTo_loads [OF assms] SaveTo_cases(2) [OF assms(2)] by auto

text \<open>A faithful encoding for the witnesses.\<close>

fun encStr :: "string \<Rightarrow> string" where
  "encStr [] = ''.''"
| "encStr (c # cs) = CHR ''x'' # c # encStr cs"

fun decStr :: "string \<Rightarrow> string \<times> string" where
  "decStr (a # c # r) = (if a = CHR ''.'' then ([], c # r) else (let (s, r') = decStr r in (c # s, r')))"
| "decStr r = ([], [])"

lemma decStr_encStr: "r \<noteq> [] \<Longrightarrow> decStr (encStr s @ r) = (s, r)"
  by (induction s; cases r) auto

definition exJSON :: json_config where
  "exJSON = \<lparr>jc_enc = (\<lambda>c. encStr (cf_ServerURL c) @ encStr (cf_AgentID c) @ encStr (cf_AgentSecret c) @
       encStr (cf_NATSURL c) @ encStr (cf_NetworkIdentity c) @ encStr (cf_NetworkIdentityPolicy c)),
     jc_dec = (\<lambda>r0. let (a, r1) = decStr r0; (b, r2) = decStr r1; (c, r3) = decStr r2; (d, r4) = decStr r3;
         (e, r5) = decStr r4; (f, r6) = decStr r5
       in Some \<lparr>cf_ServerURL = a, cf_AgentID = b, cf_AgentSecret = c, cf_NATSURL = d, cf_NetworkIdentity = e,
         cf_NetworkIdentityPolicy = f\<rparr>)\<rparr>"

lemma encStr_ne [simp]: "encStr s \<noteq> []"
  by (cases s) auto

lemma exJSON_faithful: "faithfulJSON exJSON"
  by (simp add: faithfulJSON_def exJSON_def decStr_encStr)

definition exDisk :: disk_env where
  "exDisk = \<lparr>de_readFails = False, de_mkdirFails = False, de_tmpWrite = WriteOK, de_renameFails = False\<rparr>"

definition exCfg :: config where
  "exCfg = emptyConfig\<lparr>cf_AgentID := ''a1'', cf_AgentSecret := ''s1''\<rparr>"

theorem SaveTo_atomic_witness:
  "LoadFrom exJSON exDisk ''/etc/everwas'' (snd (SaveTo exJSON exDisk ''/etc/everwas'' exCfg Map.empty)) = Some exCfg"
proof -
  have "SaveTo exJSON exDisk ''/etc/everwas'' exCfg Map.empty = (True, snd (SaveTo exJSON exDisk ''/etc/everwas'' exCfg Map.empty))"
    by (simp add: SaveTo_def exDisk_def Let_def)
  from SaveTo_atomic [OF exJSON_faithful this, of exDisk] show ?thesis by (simp add: exDisk_def)
qed

section \<open>The credential survives\<close>

lemma Renew_split:
  assumes "Renew js denv env dir (cfg, fs) = (r, cfg', fs')"
  shows "(cfg' = cfg \<and> fs' = fs \<and> r \<noteq> RenewOK) \<or>
    (\<exists>url code body secret policy ok. rn_server env url (cf_AgentID cfg, cf_AgentSecret cfg) = HttpStatus code body \<and>
       rn_decode env body = Some (secret, policy) \<and> secret \<noteq> [] \<and> Enrolled cfg \<and>
       cfg' = cfg\<lparr>cf_AgentSecret := secret, cf_NetworkIdentityPolicy := policy\<rparr> \<and>
       SaveTo js denv dir cfg' fs = (ok, fs') \<and> (r = RenewOK \<longleftrightarrow> ok))"
  using assms
  by (force simp: Renew_def Let_def split: if_splits http_end.splits option.splits prod.splits bool.splits)

text \<open>What a server may hand out: the secrets of its answers.\<close>

definition issuedSecrets :: "(disk_env \<times> renew_env) list \<Rightarrow> string set" where
  "issuedSecrets es = {secret. \<exists>(denv, env) \<in> set es. \<exists>url cred code body policy.
     rn_server env url cred = HttpStatus code body \<and> rn_decode env body = Some (secret, policy)}"

definition sameIdentity :: "config \<Rightarrow> config \<Rightarrow> bool" where
  "sameIdentity c c' \<longleftrightarrow> cf_ServerURL c' = cf_ServerURL c \<and> cf_AgentID c' = cf_AgentID c \<and> cf_NATSURL c' = cf_NATSURL c \<and>
     cf_NetworkIdentity c' = cf_NetworkIdentity c"

lemma renewals_step:
  assumes js: "faithfulJSON js" and r: "\<not> de_readFails renv"
    and held: "LoadFrom js renv dir fs = Some c" and same: "sameIdentity c cfg" and e: "Enrolled c" "Enrolled cfg"
    and step: "Renew js denv env dir (cfg, fs) = (r', cfg', fs')"
  shows "\<exists>c'. LoadFrom js renv dir fs' = Some c' \<and> sameIdentity c c' \<and> sameIdentity c cfg' \<and> Enrolled c' \<and> Enrolled cfg' \<and>
    cf_AgentSecret c' \<in> insert (cf_AgentSecret c) (issuedSecrets [(denv, env)]) \<and>
    cf_AgentSecret cfg' \<in> insert (cf_AgentSecret cfg) (issuedSecrets [(denv, env)])"
  using Renew_split [OF step]
proof (elim disjE exE conjE)
  assume "cfg' = cfg" "fs' = fs"
  with assms show ?thesis by (auto simp: sameIdentity_def)
next
  fix url code body secret policy ok
  assume a: "rn_server env url (cf_AgentID cfg, cf_AgentSecret cfg) = HttpStatus code body"
    "rn_decode env body = Some (secret, policy)" "secret \<noteq> []"
    "cfg' = cfg\<lparr>cf_AgentSecret := secret, cf_NetworkIdentityPolicy := policy\<rparr>"
    "SaveTo js denv dir cfg' fs = (ok, fs')"
  have i: "secret \<in> issuedSecrets [(denv, env)]" using a(1,2) unfolding issuedSecrets_def by fastforce
  have "LoadFrom js renv dir fs' = Some (if ok then cfg' else c)"
    using SaveTo_loads [OF js a(5) r] held by simp
  with i a(3,4) same e show ?thesis by (auto simp: sameIdentity_def Enrolled_def)
qed

text \<open>
  However renewals go, and wherever the disk or the server fails in between, an enrolled agent stays
  enrolled under the same identity: the state file always loads, with the same agent, servers and local
  802.1X override, and its secret is the one it had or one the server handed out.
\<close>

theorem renewals_keep_identity:
  assumes "faithfulJSON js" and "\<not> de_readFails renv"
    and "LoadFrom js renv dir fs = Some cfg" and "Enrolled cfg"
    and "renewals js dir es (cfg, fs) = (cfg', fs')"
  shows "\<exists>c. LoadFrom js renv dir fs' = Some c \<and> sameIdentity cfg c \<and> sameIdentity cfg cfg' \<and> Enrolled c \<and>
    cf_AgentSecret c \<in> insert (cf_AgentSecret cfg) (issuedSecrets es) \<and>
    cf_AgentSecret cfg' \<in> insert (cf_AgentSecret cfg) (issuedSecrets es)"
proof -
  have "\<exists>c'. LoadFrom js renv dir fs' = Some c' \<and> sameIdentity c c' \<and> sameIdentity c cfg' \<and> Enrolled c' \<and>
      cf_AgentSecret c' \<in> insert (cf_AgentSecret c) (issuedSecrets es) \<and>
      cf_AgentSecret cfg' \<in> insert (cf_AgentSecret m) (issuedSecrets es)"
    if "LoadFrom js renv dir fs = Some c" "sameIdentity c m" "Enrolled c" "Enrolled m"
      "renewals js dir es (m, fs) = (cfg', fs')" for c m fs
    using that
  proof (induction es arbitrary: c m fs)
    case Nil then show ?case by (auto simp: sameIdentity_def)
  next
    case (Cons x es)
    obtain denv env where x: "x = (denv, env)" by fastforce
    obtain r m1 fs1 where s: "Renew js denv env dir (m, fs) = (r, m1, fs1)" by (metis prod_cases3)
    from renewals_step [OF assms(1,2) Cons.prems(1-4) s] obtain c1 where c1: "LoadFrom js renv dir fs1 = Some c1"
      "sameIdentity c c1" "sameIdentity c m1" "Enrolled c1" "Enrolled m1"
      "cf_AgentSecret c1 \<in> insert (cf_AgentSecret c) (issuedSecrets [x])"
      "cf_AgentSecret m1 \<in> insert (cf_AgentSecret m) (issuedSecrets [x])" unfolding x by blast
    have sub: "issuedSecrets (x # es) = issuedSecrets [x] \<union> issuedSecrets es" by (auto simp: issuedSecrets_def)
    have "sameIdentity c1 m1" using c1(2,3) by (simp add: sameIdentity_def)
    from Cons.IH [OF c1(1) this c1(4,5)] Cons.prems(5) s x obtain c' where "LoadFrom js renv dir fs' = Some c'"
      "sameIdentity c1 c'" "sameIdentity c1 cfg'" "Enrolled c'"
      "cf_AgentSecret c' \<in> insert (cf_AgentSecret c1) (issuedSecrets es)"
      "cf_AgentSecret cfg' \<in> insert (cf_AgentSecret m1) (issuedSecrets es)" by auto
    with c1 show ?case unfolding sub by (auto simp: sameIdentity_def)
  qed
  moreover have "sameIdentity cfg cfg" by (simp add: sameIdentity_def)
  ultimately show ?thesis using assms(3-5) by blast
qed

definition exFiles :: dirs where
  "exFiles = [''/etc/everwas'' \<mapsto> [stateFileName \<mapsto> jc_enc exJSON exCfg @ [CHR 0x0A]]]"

lemma exFiles_load: "LoadFrom exJSON exDisk ''/etc/everwas'' exFiles = Some exCfg"
  using exJSON_faithful by (simp add: LoadFrom_def contentOf_def exFiles_def exDisk_def faithfulJSON_def)

theorem renewals_keep_identity_witness:
  "\<exists>c. LoadFrom exJSON exDisk ''/etc/everwas'' (snd (renewals exJSON ''/etc/everwas''
      [(exDisk\<lparr>de_renameFails := True\<rparr>, \<lparr>rn_server = (\<lambda>_ _. HttpStatus 200 ''s2''), rn_decode = (\<lambda>b. Some (b, []))\<rparr>)]
      (exCfg, exFiles))) = Some c \<and> cf_AgentID c = ''a1'' \<and> Enrolled c"
proof -
  let ?es = "[(exDisk\<lparr>de_renameFails := True\<rparr>, \<lparr>rn_server = (\<lambda>_ _. HttpStatus 200 ''s2''), rn_decode = (\<lambda>b. Some (b, []))\<rparr>)]"
  have "renewals exJSON ''/etc/everwas'' ?es (exCfg, exFiles) =
      (fst (renewals exJSON ''/etc/everwas'' ?es (exCfg, exFiles)), snd (renewals exJSON ''/etc/everwas'' ?es (exCfg, exFiles)))"
    by simp
  from renewals_keep_identity [OF exJSON_faithful _ exFiles_load _ this] show ?thesis
    by (auto simp: exDisk_def exCfg_def emptyConfig_def Enrolled_def sameIdentity_def)
qed

section \<open>Migration and enrolment\<close>

text \<open>
  Moving the old state directory never costs an identity: a directory that already holds one is left
  alone, a failed or needless move changes nothing, and a move carries every file of the old directory
  over, so that the agent loads after it exactly what the old build would have loaded.
\<close>

theorem migration_keeps_identity:
  assumes "migrateState env legacy current fs = ((moved, err), fs')"
  shows "(\<not> moved \<longrightarrow> fs' = fs) \<and>
    (moved \<longrightarrow> err = None \<and> legacy \<noteq> current \<and> contentOf fs current stateFileName = None \<and> fs' current = fs legacy \<and>
       LoadFrom js denv current fs' = LoadFrom js denv legacy fs) \<and>
    (contentOf fs current stateFileName \<noteq> None \<longrightarrow> LoadFrom js denv current fs' = LoadFrom js denv current fs) \<and>
    (\<forall>dir. dir \<noteq> legacy \<and> dir \<noteq> current \<longrightarrow> fs' dir = fs dir)"
  using assms by (auto simp: migrateState_def LoadFrom_def contentOf_def split: if_splits)

theorem migration_keeps_identity_witness:
  "LoadFrom exJSON exDisk ''/etc/everwas''
     (snd (migrateState \<lparr>mv_mkdirFails = False, mv_renameFails = False\<rparr> ''/etc/openrmm'' ''/etc/everwas''
        [''/etc/openrmm'' \<mapsto> [stateFileName \<mapsto> jc_enc exJSON exCfg @ [CHR 0x0A]]])) =
   LoadFrom exJSON exDisk ''/etc/openrmm'' [''/etc/openrmm'' \<mapsto> [stateFileName \<mapsto> jc_enc exJSON exCfg @ [CHR 0x0A]]]"
proof -
  let ?fs = "[''/etc/openrmm'' \<mapsto> [stateFileName \<mapsto> jc_enc exJSON exCfg @ [CHR 0x0A]]] :: dirs"
  let ?r = "migrateState \<lparr>mv_mkdirFails = False, mv_renameFails = False\<rparr> ''/etc/openrmm'' ''/etc/everwas'' ?fs"
  have "?r = ((True, None), snd ?r)" by (simp add: migrateState_def contentOf_def)
  from migration_keeps_identity [OF this, of exJSON exDisk] show ?thesis by blast
qed

text \<open>Enrolment ends enrolled, and starts from an empty configuration: a local override of the 802.1X mode
  is lost by enrolling again.\<close>

lemma Enroll_enrols:
  assumes "faithfulJSON js" and "\<not> de_readFails renv" and "Enroll js denv env dir url token ver fs = (None, fs')"
  shows "\<exists>c. LoadFrom js renv dir fs' = Some c \<and> Enrolled c \<and> cf_ServerURL c = url \<and> cf_NetworkIdentity c = []"
proof -
  from assms(3) obtain cfg where c: "exchange env url token ver = Inr cfg" "SaveTo js denv dir cfg fs = (True, fs')"
    by (auto simp: Enroll_def split: sum.splits prod.splits bool.splits)
  then have "Enrolled cfg" "cf_ServerURL cfg = url" "cf_NetworkIdentity cfg = []"
    by (auto simp: exchange_def Enrolled_def emptyConfig_def split: http_end.splits option.splits if_splits)
  with SaveTo_loads [OF assms(1) c(2) assms(2)] show ?thesis by simp
qed

end
