(* ===== verification/Svc_Guard.thy ===== *)
theory Svc_Guard
  imports Config_State
begin

text \<open>
  The external rollback guard, the shell script in \<open>agent/internal/svc/guard.go\<close>, over the disk of
  \<open>Update_Tracker\<close>, and how it works together with the agent's own rollback.

  The service manager runs the guard before the agent. What the script asks the system for is the
  record \<open>guard_env\<close>: whether the target may be executed, and the clock in seconds, 0 when \<open>date\<close>
  fails. A command that changes a file takes its outcome from \<open>ud_faults\<close>; reading succeeds. The text
  of the probation file is the one \<open>writeProbation\<close> renders.
\<close>

section \<open>Text files\<close>

text \<open>The lines of a file as \<open>sed\<close>, \<open>tail\<close> and \<open>awk\<close> read them: a last line may lack its newline.\<close>

definition fileLines :: "string \<Rightarrow> string list" where
  "fileLines s = (let ls = splitOn CHR 0x0A s in if last ls = [] then butlast ls else ls)"

definition unlinesNL :: "string list \<Rightarrow> string" where
  "unlinesNL ls = concat (map (\<lambda>l. l @ [CHR 0x0A]) ls)"

definition tailLines :: "nat \<Rightarrow> string \<Rightarrow> string" where
  "tailLines k s =
     (let ls = splitOn CHR 0x0A s
      in if last ls = [] then unlinesNL (lastN k (butlast ls)) else joinWith [CHR 0x0A] (lastN k ls))"

text \<open>What \<open>writeProbation\<close> puts into the file.\<close>

definition probationText :: "probation \<Rightarrow> string" where
  "probationText pb =
     unlinesNL [''# written by everwas-agent, read by agent-guard.sh'',
       ''version='' @ pb_version pb, ''previous='' @ pb_previous pb, ''target='' @ pb_target pb,
       ''backup='' @ pb_backup pb, ''swapped_at='' @ itoa (pb_swappedAt pb),
       ''finalizing='' @ showBool (pb_finalizing pb)]"

section \<open>The script\<close>

record guard_env =
  ge_executable :: bool
  ge_now :: int

definition WINDOW :: int where "WINDOW = 120"
definition LIMIT :: nat where "LIMIT = 2"
definition KEEP :: nat where "KEEP = 16"

text \<open>\<open>sed -n s/^name=//p | head -n 1\<close>.\<close>

definition probation_field :: "string \<Rightarrow> udisk \<Rightarrow> string" where
  "probation_field name d =
     (case ud_probation d of
        None \<Rightarrow> []
      | Some pb \<Rightarrow>
          (case firstSome (cutPrefix (name @ ''='')) (fileLines (probationText pb)) of None \<Rightarrow> [] | Some v \<Rightarrow> v))"

text \<open>\<open>mv\<close> refuses to move a file onto itself.\<close>

definition mvForce :: "string \<Rightarrow> string \<Rightarrow> udisk \<Rightarrow> bool \<times> udisk" where
  "mvForce src dst d = (if src = dst then (False, d) else renameFile src dst d)"

definition guardDeny :: "string \<Rightarrow> udisk \<Rightarrow> udisk" where
  "guardDeny version d =
     (if version = [] then d
      else let (ok, d1) = fileOp d
        in if ok then d1\<lparr>ud_denied := Some ((case ud_denied d1 of None \<Rightarrow> [] | Some s \<Rightarrow> s) @ version @ [CHR 0x0A])\<rparr>
           else d1)"

definition guardRestore :: "string \<Rightarrow> string \<Rightarrow> udisk \<Rightarrow> bool \<times> udisk" where
  "guardRestore target backup d =
     (if ud_bin d backup = None then (False, d)
      else let (ok, d1) = mvForce backup target d
        in if \<not> ok then (False, d1)
           else let d2 = snd (fileOp d1);
                    d3 = guardDeny (probation_field ''version'' d2) d2;
                    d4 = snd (removeProbation d3)
             in (True, snd (removeStarts d4)))"

definition guardRecent :: "int \<Rightarrow> string \<Rightarrow> nat" where
  "guardRecent now text =
     length (filter (\<lambda>l. case digitsVal l of None \<Rightarrow> False | Some t \<Rightarrow> t \<le> now \<and> now - t \<le> WINDOW) (fileLines text))"

text \<open>Appending this start and keeping the last lines, in the temporary file and then in place.\<close>

definition guardAppend :: "int \<Rightarrow> udisk \<Rightarrow> udisk" where
  "guardAppend now d =
     (let (ok, d1) = fileOp d
      in if ok then d1\<lparr>ud_starts := Some ((case ud_starts d1 of None \<Rightarrow> [] | Some s \<Rightarrow> s) @ itoa now @ [CHR 0x0A])\<rparr>
         else d1)"

definition guardTrim :: "string \<Rightarrow> udisk \<Rightarrow> udisk" where
  "guardTrim raw d =
     (let (ok, d1) = fileOp d
      in if \<not> ok then d1
         else let (ok2, d2) = fileOp d1 in if ok2 then d2\<lparr>ud_starts := Some (tailLines KEEP raw)\<rparr> else d2)"

definition guardCount :: "string \<Rightarrow> string \<Rightarrow> int \<Rightarrow> udisk \<Rightarrow> udisk" where
  "guardCount target backup now d =
     (let d1 = guardAppend now d
      in case ud_starts d1 of
           None \<Rightarrow> d1
         | Some raw \<Rightarrow>
             let d2 = guardTrim raw d1;
                 recent = guardRecent now (case ud_starts d2 of None \<Rightarrow> [] | Some s \<Rightarrow> s)
             in if LIMIT < recent then snd (guardRestore target backup d2) else d2)"

definition guardBackup :: "string \<Rightarrow> udisk \<Rightarrow> string" where
  "guardBackup target d =
     (let b = probation_field ''backup'' d in if b = [] then target @ ''.old'' else b)"

definition guardCheck :: "string \<Rightarrow> guard_env \<Rightarrow> udisk \<Rightarrow> udisk" where
  "guardCheck target env d =
     (let backup = guardBackup target d;
          d1 = (if ud_bin d target = None \<or> \<not> ge_executable env then snd (guardRestore target backup d) else d)
      in if ud_probation d1 \<noteq> None \<and> probation_field ''finalizing'' d1 \<noteq> ''true'' \<and> ge_now env \<noteq> 0
         then guardCount target backup (ge_now env) d1 else d1)"

datatype guard_end = GuardExit0 | GuardExec string

definition guardMain :: "string \<Rightarrow> string \<Rightarrow> guard_env \<Rightarrow> udisk \<Rightarrow> guard_end \<times> udisk" where
  "guardMain mode target env d =
     (if target = [] then (GuardExit0, d)
      else (if mode = ''exec'' then GuardExec target else GuardExit0, guardCheck target env d))"

text \<open>The directory the script works in.\<close>

definition guardStateDir :: "string \<Rightarrow> string \<Rightarrow> string" where
  "guardStateDir stateDirVar uname =
     (if stateDirVar \<noteq> [] then stateDirVar
      else if uname = ''Darwin'' then ''/Library/Application Support/Everwas'' else ''/etc/everwas'')"

text \<open>Starts of the service in which the agent dies before it writes anything.\<close>

definition guardRuns :: "string \<Rightarrow> guard_env list \<Rightarrow> udisk \<Rightarrow> udisk" where
  "guardRuns target envs d = fold (guardCheck target) envs d"

section \<open>Lines\<close>

lemma splitOn_line:
  assumes "CHR 0x0A \<notin> set l"
  shows "splitOn CHR 0x0A (l @ CHR 0x0A # s) = l # splitOn CHR 0x0A s"
  using assms by (induction l) auto

lemma splitOn_unlinesNL:
  "list_all (\<lambda>l. CHR 0x0A \<notin> set l) ls \<Longrightarrow> splitOn CHR 0x0A (unlinesNL ls) = ls @ [[]]"
  by (induction ls) (simp_all add: unlinesNL_def splitOn_line)

lemma fileLines_unlinesNL: "list_all (\<lambda>l. CHR 0x0A \<notin> set l) ls \<Longrightarrow> fileLines (unlinesNL ls) = ls"
  by (simp add: fileLines_def splitOn_unlinesNL)

lemma tailLines_unlinesNL:
  "list_all (\<lambda>l. CHR 0x0A \<notin> set l) ls \<Longrightarrow> tailLines k (unlinesNL ls) = unlinesNL (lastN k ls)"
  by (simp add: tailLines_def splitOn_unlinesNL)

lemma unlinesNL_snoc: "unlinesNL ls @ l @ [CHR 0x0A] = unlinesNL (ls @ [l])"
  by (simp add: unlinesNL_def)

lemma newline_not_digit: "isDigit c \<Longrightarrow> c \<noteq> CHR 0x0A"
  by (rule notI) (simp add: isDigit_def)

lemma digits_no_newline: "list_all isDigit l \<Longrightarrow> CHR 0x0A \<notin> set l"
  by (auto simp: list_all_iff dest: newline_not_digit)

lemma itoa_digits: "0 \<le> i \<Longrightarrow> list_all isDigit (itoa i) \<and> itoa i \<noteq> []"
  using decNat_digits by (simp add: itoa_def list_all_iff)

lemma itoa_no_newline: "CHR 0x0A \<notin> set (itoa i)"
proof -
  have "CHR 0x0A \<notin> set (decNat n)" for n using decNat_digits [of n] newline_not_digit by blast
  then show ?thesis by (simp add: itoa_def)
qed

text \<open>Fields without a newline are read back by the script as the agent wrote them.\<close>

definition plainProbation :: "probation \<Rightarrow> bool" where
  "plainProbation pb \<longleftrightarrow> list_all (\<lambda>l. CHR 0x0A \<notin> set l) [pb_version pb, pb_previous pb, pb_target pb, pb_backup pb]"

lemma probation_lines:
  assumes "plainProbation pb"
  shows "fileLines (probationText pb) =
    [''# written by everwas-agent, read by agent-guard.sh'',
       ''version='' @ pb_version pb, ''previous='' @ pb_previous pb, ''target='' @ pb_target pb,
       ''backup='' @ pb_backup pb, ''swapped_at='' @ itoa (pb_swappedAt pb),
       ''finalizing='' @ showBool (pb_finalizing pb)]"
  unfolding probationText_def using assms
  by (intro fileLines_unlinesNL) (simp add: plainProbation_def itoa_no_newline showBool_def)

text \<open>
  The probation file carries what the guard needs across the language boundary: the version under
  test, the backup and whether a finalizer is at work are read by the script as the agent wrote
  them, whatever the other fields hold, as long as no field has a line break.
\<close>

lemma probation_roundtrip:
  assumes "ud_probation d = Some pb" and "plainProbation pb"
  shows "probation_field ''version'' d = pb_version pb" "probation_field ''backup'' d = pb_backup pb"
    "probation_field ''finalizing'' d = showBool (pb_finalizing pb)"
  using assms by (simp_all add: probation_field_def probation_lines cutPrefix_def)

section \<open>Counting starts\<close>

text \<open>The file of starts as the guard keeps it.\<close>

definition startLine :: "string \<Rightarrow> bool" where
  "startLine l \<longleftrightarrow> l \<noteq> [] \<and> list_all isDigit l"

definition startsAre :: "string list \<Rightarrow> udisk \<Rightarrow> bool" where
  "startsAre ls d \<longleftrightarrow> list_all startLine ls \<and> length ls \<le> KEEP \<and>
     (case ud_starts d of None \<Rightarrow> [] | Some s \<Rightarrow> s) = unlinesNL ls"

lemma startLine_no_newline: "list_all startLine ls \<Longrightarrow> list_all (\<lambda>l. CHR 0x0A \<notin> set l) ls"
  by (auto simp: list_all_iff startLine_def dest: newline_not_digit)

lemma digit_not_space: "isDigit c \<Longrightarrow> \<not> isSpace c"
  by (auto simp: isDigit_def isSpace_def)

lemma trimSpace_startLine: "startLine l \<Longrightarrow> trimSpace l = l"
  by (rule trimBy_id) (auto simp: startLine_def list_all_iff digit_not_space)

lemma digitsVal_nonneg: "digitsVal l = Some v \<Longrightarrow> 0 \<le> v"
proof -
  have "0 \<le> foldl (\<lambda>n c. 10 * n + (int (of_char c) - 48)) a l" if "0 \<le> a" "list_all isDigit l" for a
    using that by (induction l arbitrary: a) (auto simp: isDigit_def)
  then show "digitsVal l = Some v \<Longrightarrow> 0 \<le> v" by (auto simp: digitsVal_def split: if_splits)
qed

lemma parseInt64_startLine:
  assumes "startLine l"
  shows "\<exists>v. digitsVal l = Some v \<and> 0 \<le> v \<and> parseInt64 l = (if int64 v then Some v else None)"
proof -
  obtain c cs where l: "l = c # cs" using assms by (cases l) (auto simp: startLine_def)
  have "isDigit c" using assms l by (simp add: startLine_def)
  then have "c \<noteq> CHR ''-''" "c \<noteq> CHR ''+''" by (auto simp: isDigit_def)
  moreover obtain v where "digitsVal l = Some v" using assms by (simp add: startLine_def digitsVal_def)
  ultimately show ?thesis using l digitsVal_nonneg by (auto simp: parseInt64_def)
qed

text \<open>One line counts for the script exactly when it counts for the agent.\<close>

lemma start_counts:
  assumes "startLine l" and "int64 now"
  shows "(case digitsVal l of None \<Rightarrow> False | Some t \<Rightarrow> t \<le> now \<and> now - t \<le> WINDOW) \<longleftrightarrow>
    (case parseInt64 l of None \<Rightarrow> False | Some t \<Rightarrow> ofUnix t \<le> ofUnix now \<and> subT (ofUnix now) (ofUnix t) \<le> CrashWindow)"
proof -
  have w: "subT (ofUnix now) (ofUnix t) \<le> CrashWindow \<longleftrightarrow> now - t \<le> WINDOW" for t
    by (subst subT_le_iff) (auto simp: int64_def CrashWindow_def second_def ofUnix_def WINDOW_def)
  have le: "ofUnix t \<le> ofUnix now \<longleftrightarrow> t \<le> now" for t by (simp add: ofUnix_def second_def)
  from parseInt64_startLine [OF assms(1)] obtain v where
    "digitsVal l = Some v" "0 \<le> v" "parseInt64 l = (if int64 v then Some v else None)" by blast
  with assms(2) show ?thesis by (auto simp: w le int64_def)
qed

lemma externalStarts_lines:
  assumes "startsAre ls d"
  shows "externalStarts d = List.map_filter (\<lambda>l. map_option ofUnix (parseInt64 l)) ls"
proof -
  have n: "length (List.map_filter f ls) \<le> 16" for f :: "string \<Rightarrow> gtime option"
  proof -
    have "length (List.map_filter f ls) \<le> length ls" by (simp add: List.map_filter_def)
    also have "\<dots> \<le> 16" using assms by (simp add: startsAre_def KEEP_def)
    finally show ?thesis .
  qed
  let ?f = "\<lambda>line. let l = trimSpace line in if l = [] then None else map_option ofUnix (parseInt64 l)"
  have f: "?f l = map_option ofUnix (parseInt64 l)" if "l \<in> set ls" for l
    using that assms by (auto simp: startsAre_def list_all_iff trimSpace_startLine startLine_def)
  have "List.map_filter ?f (ls @ [[]]) = List.map_filter (\<lambda>l. map_option ofUnix (parseInt64 l)) ls"
    using f by (induction ls) (auto simp: List.map_filter_simps split: option.splits)
  moreover have "splitOn CHR 0x0A (unlinesNL ls) = ls @ [[]]"
    using assms by (simp add: startsAre_def splitOn_unlinesNL startLine_no_newline)
  ultimately show ?thesis using assms n
    by (cases "ud_starts d") (auto simp: externalStarts_def startsAre_def lastN_all maxStartsTracked_def unlinesNL_def)
qed

lemma guardRecent_lines:
  "list_all startLine ls \<Longrightarrow> guardRecent now (unlinesNL ls) =
     length (filter (\<lambda>l. case digitsVal l of None \<Rightarrow> False | Some t \<Rightarrow> t \<le> now \<and> now - t \<le> WINDOW) ls)"
  by (simp add: guardRecent_def fileLines_unlinesNL startLine_no_newline)

text \<open>
  The guard and the agent count alike: from a file of starts as the guard keeps it the script, in
  \<open>awk\<close>, finds as many starts in the last two minutes as the agent's own rollback decision does.
\<close>

theorem guard_counts_like_agent:
  assumes "startsAre ls d" and "int64 now"
  shows "guardRecent now (case ud_starts d of None \<Rightarrow> [] | Some s \<Rightarrow> s) = countStarts (externalStarts d) (ofUnix now)"
proof -
  have "list_all startLine ls" using assms(1) by (simp add: startsAre_def)
  then have "length (filter (\<lambda>l. case digitsVal l of None \<Rightarrow> False | Some t \<Rightarrow> t \<le> now \<and> now - t \<le> WINDOW) ls) =
      countStarts (List.map_filter (\<lambda>l. map_option ofUnix (parseInt64 l)) ls) (ofUnix now)"
  proof (induction ls)
    case (Cons l ls)
    then show ?case using start_counts [OF _ assms(2), of l]
      by (auto simp: countStarts_def List.map_filter_simps split: option.splits)
  qed (simp add: countStarts_def List.map_filter_simps)
  moreover have "(case ud_starts d of None \<Rightarrow> [] | Some s \<Rightarrow> s) = unlinesNL ls" "list_all startLine ls"
    using assms(1) by (simp_all add: startsAre_def)
  ultimately show ?thesis using externalStarts_lines [OF assms(1)] guardRecent_lines by simp
qed

theorem guard_counts_like_agent_witness:
  "guardRecent 130 (unlinesNL [''5'', ''10'', ''120'']) =
     countStarts (externalStarts (demoDisk\<lparr>ud_starts := Some (unlinesNL [''5'', ''10'', ''120''])\<rparr>)) (ofUnix 130)"
  using guard_counts_like_agent [of "[''5'', ''10'', ''120'']" "demoDisk\<lparr>ud_starts := Some (unlinesNL [''5'', ''10'', ''120''])\<rparr>" 130]
  by (simp add: startsAre_def startLine_def isDigit_def KEEP_def int64_def)

section \<open>One run of the guard\<close>

lemma lastN_lastN_snoc: "lastN k (lastN k xs @ [x]) = lastN k (xs @ [x])"
  by (cases "k \<le> length xs") (auto simp: lastN_def min_def Suc_diff_le)

lemma lastN_suffix: "length ys \<le> k \<Longrightarrow> \<exists>zs. lastN k (xs @ ys) = zs @ ys"
  by (auto simp: lastN_def)

lemma list_all_lastN: "list_all P xs \<Longrightarrow> list_all P (lastN k xs)"
  by (auto simp: lastN_def list_all_iff dest: in_set_dropD)

lemma length_lastN: "length (lastN k xs) \<le> k"
  by (simp add: lastN_def)

lemma digitsVal_decNat: "digitsVal (decNat n) = Some (int n)"
proof -
  have "foldl (\<lambda>n c. 10 * n + (int (of_char c) - 48)) 0 (decNat n) = int n"
  proof (induction n rule: decNat.induct)
    case (1 n)
    show ?case
    proof (cases "n < 10")
      case True
      then show ?thesis by (simp add: decNat.simps)
    next
      case False
      with 1 have "foldl (\<lambda>n c. 10 * n + (int (of_char c) - 48)) 0 (decNat n) = 10 * int (n div 10) + int (n mod 10)"
        by (subst decNat.simps) simp
      moreover have "int (10 * (n div 10) + n mod 10) = int n" by simp
      ultimately show ?thesis by (simp only: of_nat_add of_nat_mult of_nat_numeral)
    qed
  qed
  then show ?thesis using decNat_digits [of n] by (simp add: digitsVal_def list_all_iff)
qed

lemma digitsVal_itoa: "0 \<le> i \<Longrightarrow> digitsVal (itoa i) = Some i"
  by (simp add: itoa_def digitsVal_decNat)

lemma startLine_itoa: "0 \<le> i \<Longrightarrow> startLine (itoa i)"
  using itoa_digits by (simp add: startLine_def)

text \<open>The disk after the guard has put the backup in place.\<close>

definition restoredDisk :: "string \<Rightarrow> string \<Rightarrow> bytes \<Rightarrow> string \<Rightarrow> udisk \<Rightarrow> udisk" where
  "restoredDisk target backup old version d =
     d\<lparr>ud_bin := (ud_bin d)(backup := None, target \<mapsto> old),
       ud_denied := (if version = [] then ud_denied d
                     else Some ((case ud_denied d of None \<Rightarrow> [] | Some s \<Rightarrow> s) @ version @ [CHR 0x0A])),
       ud_probation := None, ud_starts := None\<rparr>"

lemma restoredDisk_starts [simp]: "restoredDisk target backup old version (d\<lparr>ud_starts := s\<rparr>) = restoredDisk target backup old version d"
  by (simp add: restoredDisk_def)

lemma probation_field_bin [simp]:
  "probation_field name (d\<lparr>ud_bin := b\<rparr>) = probation_field name d"
  "probation_field name (d\<lparr>ud_starts := s\<rparr>) = probation_field name d"
  by (simp_all add: probation_field_def)

lemma guardRestore_ok:
  assumes "ud_faults d = []" and "ud_bin d backup = Some old" and "backup \<noteq> target"
  shows "guardRestore target backup d = (True, restoredDisk target backup old (probation_field ''version'' d) d)"
  using assms by (simp add: guardRestore_def mvForce_def renameFile_def guardDeny_def removeProbation_def removeStarts_def
      restoredDisk_def Let_def)

text \<open>A build on probation that has been swapped in over the backup, with the files of the guard.\<close>

definition onGuard :: "update_state \<Rightarrow> bytes \<Rightarrow> string list \<Rightarrow> udisk \<Rightarrow> bool" where
  "onGuard st old ls d \<longleftrightarrow> onProbation Unix st old d \<and> \<not> us_Finalizing st \<and> us_Backup st = BackupPath Unix (us_Target st) \<and>
     (\<exists>pb. ud_probation d = Some pb \<and> plainProbation pb \<and> pb_version pb = us_PendingVersion st \<and>
        pb_backup pb = us_Backup st \<and> \<not> pb_finalizing pb) \<and>
     ud_bin d (us_Target st) \<noteq> None \<and> startsAre ls d"

definition recentLines :: "int \<Rightarrow> string list \<Rightarrow> nat" where
  "recentLines now ls = length (filter (\<lambda>l. case digitsVal l of None \<Rightarrow> False | Some t \<Rightarrow> t \<le> now \<and> now - t \<le> WINDOW) ls)"

lemma startsAre_step:
  assumes "startsAre ls d" and "0 \<le> now"
  shows "startsAre (lastN KEEP (ls @ [itoa now])) (d\<lparr>ud_starts := Some (unlinesNL (lastN KEEP (ls @ [itoa now])))\<rparr>)"
  using assms by (simp add: startsAre_def list_all_lastN length_lastN startLine_itoa)

lemma guardCount_ok:
  assumes "startsAre ls d" and "ud_faults d = []" and "0 \<le> now" and "ud_bin d backup = Some old" and "backup \<noteq> target"
  defines "ls' \<equiv> lastN KEEP (ls @ [itoa now])"
  shows "guardCount target backup now d =
    (if LIMIT < recentLines now ls' then restoredDisk target backup old (probation_field ''version'' d) d
     else d\<lparr>ud_starts := Some (unlinesNL ls')\<rparr>)"
proof -
  have ls: "list_all startLine (ls @ [itoa now])" "(case ud_starts d of None \<Rightarrow> [] | Some s \<Rightarrow> s) = unlinesNL ls"
    using assms by (simp_all add: startsAre_def startLine_itoa)
  then have ls': "list_all startLine ls'" by (simp add: ls'_def list_all_lastN)
  have app: "guardAppend now d = d\<lparr>ud_starts := Some (unlinesNL (ls @ [itoa now]))\<rparr>"
    using assms(2) ls(2) by (simp add: guardAppend_def unlinesNL_snoc)
  have trim: "guardTrim (unlinesNL (ls @ [itoa now])) (d\<lparr>ud_starts := s\<rparr>) = d\<lparr>ud_starts := Some (unlinesNL ls')\<rparr>" for s
    using assms(2) by (simp add: guardTrim_def tailLines_unlinesNL [OF startLine_no_newline [OF ls(1)]] ls'_def)
  show ?thesis
    using assms(2,4,5) by (simp add: guardCount_def app trim guardRecent_lines [OF ls'] recentLines_def guardRestore_ok)
qed

lemma guardCheck_ok:
  assumes "onGuard st old ls d" and "ge_executable env" and "0 < ge_now env"
  defines "ls' \<equiv> lastN KEEP (ls @ [itoa (ge_now env)])"
  shows "guardCheck (us_Target st) env d =
    (if LIMIT < recentLines (ge_now env) ls' then restoredDisk (us_Target st) (us_Backup st) old (us_PendingVersion st) d
     else d\<lparr>ud_starts := Some (unlinesNL ls')\<rparr>)"
proof -
  from assms(1) obtain pb where pb: "ud_probation d = Some pb" "plainProbation pb" "pb_version pb = us_PendingVersion st"
    "pb_backup pb = us_Backup st" "\<not> pb_finalizing pb" by (auto simp: onGuard_def)
  have f: "probation_field ''version'' d = us_PendingVersion st" "probation_field ''backup'' d = us_Backup st"
    "probation_field ''finalizing'' d = ''false''"
    using probation_roundtrip [OF pb(1,2)] pb by (simp_all add: showBool_def)
  have o: "us_Backup st \<noteq> []" "us_Backup st \<noteq> us_Target st" "ud_bin d (us_Backup st) = Some old" "ud_faults d = []"
    "startsAre ls d"
    using assms(1) by (auto simp: onGuard_def onProbation_def)
  obtain new where "ud_bin d (us_Target st) = Some new" using assms(1) by (auto simp: onGuard_def)
  then show ?thesis
    using o assms(2,3) pb(1) guardCount_ok [of ls d "ge_now env" "us_Backup st" old "us_Target st"]
    by (simp add: guardCheck_def guardBackup_def f Let_def ls'_def)
qed

section \<open>A build that dies before it can count\<close>

lemma onGuard_starts:
  "onGuard st old ls d \<Longrightarrow> 0 \<le> now \<Longrightarrow> onGuard st old (lastN KEEP (ls @ [itoa now]))
     (d\<lparr>ud_starts := Some (unlinesNL (lastN KEEP (ls @ [itoa now])))\<rparr>)"
  using startsAre_step [of ls d now] by (auto simp: onGuard_def onProbation_def)

text \<open>Once the backup is in place the guard leaves the disk alone.\<close>

lemma guardRuns_restored:
  "list_all ge_executable envs \<Longrightarrow>
     guardRuns target envs (restoredDisk target backup old v d) = restoredDisk target backup old v d"
  by (induction envs) (simp_all add: guardRuns_def guardCheck_def restoredDisk_def Let_def)

lemma recentLines_three:
  assumes "0 \<le> n1" "n1 \<le> n2" "n2 \<le> n3" "n3 \<le> n1 + WINDOW"
  shows "LIMIT < recentLines n3 (lastN KEEP (ls @ [itoa n1, itoa n2, itoa n3]))"
proof -
  obtain zs where "lastN KEEP (ls @ [itoa n1, itoa n2, itoa n3]) = zs @ [itoa n1, itoa n2, itoa n3]"
    using lastN_suffix [of "[itoa n1, itoa n2, itoa n3]" KEEP ls] by (auto simp: KEEP_def)
  then show ?thesis using assms by (simp add: recentLines_def digitsVal_itoa LIMIT_def)
qed

lemma guardRuns_three:
  assumes "onGuard st old ls d" and "list_all ge_executable [e1, e2, e3]" and "0 < ge_now e1"
    and "ge_now e1 \<le> ge_now e2" "ge_now e2 \<le> ge_now e3" "ge_now e3 \<le> ge_now e1 + WINDOW"
  shows "guardRuns (us_Target st) [e1, e2, e3] d = restoredDisk (us_Target st) (us_Backup st) old (us_PendingVersion st) d"
proof -
  let ?r = "restoredDisk (us_Target st) (us_Backup st) old (us_PendingVersion st) d"
  let ?after = "\<lambda>ls. d\<lparr>ud_starts := Some (unlinesNL ls)\<rparr>"
  define l1 where "l1 = lastN KEEP (ls @ [itoa (ge_now e1)])"
  define l2 where "l2 = lastN KEEP (l1 @ [itoa (ge_now e2)])"
  have o1: "onGuard st old l1 (?after l1)" and o2: "onGuard st old l2 (?after l2)"
    using onGuard_starts [OF assms(1), of "ge_now e1"] onGuard_starts [of st old l1 "?after l1" "ge_now e2"] assms
    by (simp_all add: l1_def l2_def)
  have l3: "lastN KEEP (l2 @ [itoa (ge_now e3)]) = lastN KEEP (ls @ [itoa (ge_now e1), itoa (ge_now e2), itoa (ge_now e3)])"
    unfolding l2_def l1_def lastN_lastN_snoc
    using lastN_lastN_snoc [of KEEP "ls @ [itoa (ge_now e1)]" "itoa (ge_now e2)"]
      lastN_lastN_snoc [of KEEP "ls @ [itoa (ge_now e1), itoa (ge_now e2)]" "itoa (ge_now e3)"] by simp
  have s1: "guardCheck (us_Target st) e1 d \<in> {?r, ?after l1}"
    using guardCheck_ok [OF assms(1), of e1] assms by (simp add: l1_def)
  have s2: "guardCheck (us_Target st) e2 (?after l1) \<in> {?r, ?after l2}"
    using guardCheck_ok [OF o1, of e2] assms by (simp add: l2_def)
  have s3: "guardCheck (us_Target st) e3 (?after l2) = ?r"
    using guardCheck_ok [OF o2, of e3] assms recentLines_three [of "ge_now e1" "ge_now e2" "ge_now e3" ls] by (simp add: l3)
  have stay: "guardCheck (us_Target st) e ?r = ?r" if "ge_executable e" for e
    using guardRuns_restored [of "[e]" "us_Target st" "us_Backup st" old "us_PendingVersion st" d] that
    by (simp add: guardRuns_def)
  show ?thesis using s1 s2 s3 stay assms(2) by (auto simp: guardRuns_def)
qed

section \<open>The restored agent\<close>

text \<open>The denylist file as the guard and the agent append to it.\<close>

definition deniedAre :: "string list \<Rightarrow> udisk \<Rightarrow> bool" where
  "deniedAre vs d \<longleftrightarrow> list_all (\<lambda>l. CHR 0x0A \<notin> set l) vs \<and> (case ud_denied d of None \<Rightarrow> [] | Some s \<Rightarrow> s) = unlinesNL vs"

lemma length_addDenied: "length (addDenied vs out) \<le> length vs + length out"
  by (induction vs out rule: addDenied.induct) (auto simp: Let_def)

lemma length_appendDenied: "length (appendDenied vs v) \<le> Suc (length vs)"
  by (auto simp: appendDenied_def lastN_def Let_def)

lemma IsDenied_line:
  assumes "v \<in> set (deniedLines d)" and "trimSpace v = v" and "v \<noteq> []" and "length (deniedLines d) \<le> 32"
  shows "IsDenied v d"
proof -
  have "length (addDenied (deniedLines d) []) \<le> 32" using length_addDenied [of "deniedLines d" "[]"] assms(4) by simp
  then show ?thesis
    using assms(1-3) by (simp add: IsDenied_def Denied_eq lastN_all maxDeniedTracked_def addDenied_set) metis
qed

lemma restored_denied:
  assumes "deniedAre vs d" and "v \<noteq> []" and "CHR 0x0A \<notin> set v"
  shows "ud_denied (restoredDisk target backup old v d) = Some (unlinesNL (vs @ [v]))"
    and "splitOn CHR 0x0A (unlinesNL (vs @ [v])) = vs @ [v, []]"
  using assms splitOn_unlinesNL [of "vs @ [v]"] by (simp_all add: deniedAre_def restoredDisk_def unlinesNL_snoc)

lemma reconcile_restored:
  fixes target backup :: string and old' :: bytes
  assumes "onProbation Unix st old d" and "deniedAre vs d" and "length (us_Denied st) + length vs \<le> 29"
    and "trimSpace (us_PendingVersion st) = us_PendingVersion st" and "CHR 0x0A \<notin> set (us_PendingVersion st)"
  defines "d1 \<equiv> restoredDisk target backup old' (us_PendingVersion st) d"
  shows "CheckAndRollback Unix now d1 = ((False, None), d1\<lparr>ud_state := SavedState (rolledBackState st)\<rparr>)"
    and "IsDenied (us_PendingVersion st) (d1\<lparr>ud_state := SavedState (rolledBackState st)\<rparr>)"
proof -
  let ?v = "us_PendingVersion st"
  have v: "?v \<noteq> []" and st: "loadTracker (ud_state d1) = Inr st" "statePending st" "\<not> us_RolledBack st" "ud_faults d1 = []"
    "ud_probation d1 = None" "ud_starts d1 = None"
    using assms(1) by (auto simp: onProbation_def statePending_def d1_def restoredDisk_def)
  note content = restored_denied(1) [OF assms(2) v assms(5), of target backup old', folded d1_def]
    restored_denied(2) [OF assms(2) v assms(5)]
  have l1: "deniedLines d1 = us_Denied st @ vs @ [?v, []]"
    using st(1) content by (simp add: deniedLines_def)
  have l2: "deniedLines (d1\<lparr>ud_state := SavedState (rolledBackState st)\<rparr>) = us_Denied (rolledBackState st) @ vs @ [?v, []]"
    using content by (simp add: deniedLines_def)
  have n: "length (us_Denied (rolledBackState st)) \<le> Suc (length (us_Denied st))"
    using length_appendDenied by (simp add: rolledBackState_def)
  have d1: "IsDenied ?v d1" using assms(3,4) v by (intro IsDenied_line) (simp_all add: l1)
  show "IsDenied ?v (d1\<lparr>ud_state := SavedState (rolledBackState st)\<rparr>)"
    using assms(3,4) v n by (intro IsDenied_line) (simp_all add: l2)
  have "d1\<lparr>ud_state := s, ud_probation := None, ud_starts := None\<rparr> = d1\<lparr>ud_state := s\<rparr>" for s
    using st(5,6) by simp
  with st d1 show "CheckAndRollback Unix now d1 = ((False, None), d1\<lparr>ud_state := SavedState (rolledBackState st)\<rparr>)"
    by (simp add: CheckAndRollback_def reconcileGuardRollback_def)
qed

text \<open>
  C3. A bad update cannot take a host down. When a build on probation dies three times within two
  minutes without ever counting a start itself, the guard has put the previous binary back; the
  restored agent, at its first start, finds the rollback, does not roll back a second time, ends
  the probation in its own state file, and refuses the version from then on.
\<close>

theorem crash_loop_recovers:
  assumes "onGuard st old ls d" and "deniedAre vs d" and "length (us_Denied st) + length vs \<le> 29"
    and "trimSpace (us_PendingVersion st) = us_PendingVersion st"
    and "list_all ge_executable (e1 # e2 # e3 # es)" and "0 < ge_now e1"
    and "ge_now e1 \<le> ge_now e2" "ge_now e2 \<le> ge_now e3" "ge_now e3 \<le> ge_now e1 + 120"
  shows "let d1 = guardRuns (us_Target st) (e1 # e2 # e3 # es) d; (r, d2) = CheckAndRollback Unix now d1 in
    ud_bin d1 = (ud_bin d)(us_Backup st := None, us_Target st \<mapsto> old) \<and> ud_probation d1 = None \<and>
    r = (False, None) \<and> ud_bin d2 = ud_bin d1 \<and>
    (\<exists>st'. ud_state d2 = SavedState st' \<and> us_RolledBack st' \<and> \<not> statePending st') \<and>
    IsDenied (us_PendingVersion st) d2"
proof -
  let ?d1 = "restoredDisk (us_Target st) (us_Backup st) old (us_PendingVersion st) d"
  have on: "onProbation Unix st old d" and nl: "CHR 0x0A \<notin> set (us_PendingVersion st)"
    using assms(1) by (auto simp: onGuard_def plainProbation_def)
  have "guardRuns (us_Target st) [e1, e2, e3] d = ?d1"
    using assms by (intro guardRuns_three) (simp_all add: WINDOW_def)
  then have runs: "guardRuns (us_Target st) (e1 # e2 # e3 # es) d = ?d1"
    using guardRuns_restored [of es "us_Target st"] assms(5) by (simp add: guardRuns_def)
  note rec = reconcile_restored [OF on assms(2-4) nl, where target = "us_Target st" and backup = "us_Backup st" and old' = old]
  show ?thesis
    unfolding runs rec(1) Let_def
    using rec(2) by (simp add: restoredDisk_def rolledBackState_def statePending_def)
qed

lemma demo_onGuard: "onGuard demoState ''good'' [] demoDisk"
  using demo_onProbation
  by (simp add: onGuard_def plainProbation_def startsAre_def unlinesNL_def demoDisk_def demoState_def noState_def)

theorem crash_loop_recovers_witness:
  "let d1 = guardRuns ''/agent'' [\<lparr>ge_executable = True, ge_now = 100\<rparr>, \<lparr>ge_executable = True, ge_now = 105\<rparr>,
       \<lparr>ge_executable = True, ge_now = 110\<rparr>] demoDisk;
     (r, d2) = CheckAndRollback Unix (ofUnix 111) d1 in
   ud_bin d1 ''/agent'' = Some ''good'' \<and> r = (False, None) \<and> IsDenied ''1.1'' d2"
proof -
  have "deniedAre [] demoDisk" by (simp add: deniedAre_def demoDisk_def unlinesNL_def)
  moreover have "trimSpace ''1.1'' = ''1.1''" by code_simp
  ultimately show ?thesis
    using crash_loop_recovers [OF demo_onGuard, of "[]" "\<lparr>ge_executable = True, ge_now = 100\<rparr>"
        "\<lparr>ge_executable = True, ge_now = 105\<rparr>" "\<lparr>ge_executable = True, ge_now = 110\<rparr>" "[]" "ofUnix 111"]
    by (simp add: demoState_def noState_def Let_def split: prod.splits)
qed

text \<open>\<open>BeginUpdate\<close> leaves the disk in the state the guard works from.\<close>

lemma BeginUpdate_onGuard:
  assumes "ud_faults d = []" and "loadTracker (ud_state d) = Inr prior" and "v \<noteq> []" and "target \<noteq> []"
    and "ud_bin d target = Some new" and "ud_bin d (BackupPath Unix target) = Some old"
    and "list_all (\<lambda>l. CHR 0x0A \<notin> set l) [v, prev, target]"
  shows "\<exists>st d'. BeginUpdate now v prev target (BackupPath Unix target) d = (None, d') \<and> onGuard st old [] d' \<and>
    us_PendingVersion st = v \<and> us_Target st = target \<and> us_Denied st = us_Denied prior"
proof -
  let ?st = "noState\<lparr>us_PendingVersion := v, us_PreviousVersion := prev, us_Target := target,
    us_Backup := BackupPath Unix target, us_SwappedAt := now, us_Denied := us_Denied prior\<rparr>"
  have "BeginUpdate now v prev target (BackupPath Unix target) d =
      (None, snd (BeginUpdate now v prev target (BackupPath Unix target) d)) \<and>
      onGuard ?st old [] (snd (BeginUpdate now v prev target (BackupPath Unix target) d))"
    using assms by (simp add: BeginUpdate_def saveAndProbation_def writeProbation_def onGuard_def onProbation_def
        statePending_def noState_def plainProbation_def startsAre_def unlinesNL_def Let_def)
  then show ?thesis by (intro exI [of _ ?st] exI) (simp add: noState_def)
qed

section \<open>What the guard may do\<close>

lemma fileOp_bin [simp]: "ud_bin (snd (fileOp d)) = ud_bin d" "ud_probation (snd (fileOp d)) = ud_probation d"
  by (simp_all add: fileOp_def split: list.splits)

lemma fileOp_fields: "fileOp d = (ok, d1) \<Longrightarrow> ud_bin d1 = ud_bin d \<and> ud_probation d1 = ud_probation d"
  using fileOp_bin [of d] by simp

lemma guard_steps_bin:
  "ud_bin (guardDeny v d) = ud_bin d" "ud_bin (snd (removeProbation d)) = ud_bin d"
  "ud_bin (snd (removeStarts d)) = ud_bin d" "ud_bin (guardAppend n d) = ud_bin d" "ud_bin (guardTrim raw d) = ud_bin d"
  by (auto simp: guardDeny_def removeProbation_def removeStarts_def guardAppend_def guardTrim_def Let_def
      split: prod.splits dest!: fileOp_fields)

lemma guardRestore_bin:
  "ud_bin (snd (guardRestore target backup d)) = ud_bin d \<or>
   backup \<noteq> target \<and> ud_bin d backup \<noteq> None \<and>
     ud_bin (snd (guardRestore target backup d)) = (ud_bin d)(backup := None, target := ud_bin d backup)"
proof (cases "fst (mvForce backup target d)")
  case False
  then show ?thesis
    by (auto simp: guardRestore_def mvForce_def renameFile_def split: prod.splits option.splits if_splits dest!: fileOp_fields)
next
  case True
  then obtain d1 where m: "mvForce backup target d = (True, d1)" by (cases "mvForce backup target d") auto
  then have "backup \<noteq> target \<and> ud_bin d backup \<noteq> None \<and> ud_bin d1 = (ud_bin d)(backup := None, target := ud_bin d backup)"
    by (auto simp: mvForce_def renameFile_def split: if_splits prod.splits option.splits dest!: fileOp_fields)
  with m show ?thesis by (auto simp: guardRestore_def guard_steps_bin Let_def)
qed

lemma guardCount_bin:
  "ud_bin (guardCount target backup now d) = ud_bin d \<or>
   backup \<noteq> target \<and> ud_bin d backup \<noteq> None \<and>
     ud_bin (guardCount target backup now d) = (ud_bin d)(backup := None, target := ud_bin d backup)"
proof -
  have "ud_bin (guardTrim raw (guardAppend now d)) = ud_bin d" for raw by (simp add: guard_steps_bin)
  then show ?thesis
    using guardRestore_bin [of target backup "guardTrim (the (ud_starts (guardAppend now d))) (guardAppend now d)"]
    by (auto simp: guardCount_def guard_steps_bin Let_def split: option.splits)
qed

text \<open>
  C26. Whatever fails on the disk, the guard replaces the agent only by the backup of the probation, moved
  into its place whole, and only when the agent's file is missing or cannot be executed or a build
  is on probation with no finalizer at work: the binary of a confirmed build that can be executed
  is never touched, and the previous binary is never lost.
\<close>

theorem guard_moves_only_backup:
  "let b = guardBackup target d; d' = guardCheck target env d in
     ud_bin d' = ud_bin d \<or>
     b \<noteq> target \<and> ud_bin d b \<noteq> None \<and> ud_bin d' = (ud_bin d)(b := None, target := ud_bin d b) \<and>
     (ud_bin d target = None \<or> \<not> ge_executable env \<or>
      ud_probation d \<noteq> None \<and> probation_field ''finalizing'' d \<noteq> ''true'')"
proof -
  let ?b = "guardBackup target d"
  let ?d1 = "snd (guardRestore target ?b d)"
  show ?thesis
  proof (cases "ud_bin d target = None \<or> \<not> ge_executable env")
    case True
    then show ?thesis
      using guardRestore_bin [of target ?b d] guardCount_bin [of target ?b "ge_now env" ?d1]
      by (auto simp: guardCheck_def Let_def)
  next
    case False
    then show ?thesis using guardCount_bin [of target ?b "ge_now env" d] by (auto simp: guardCheck_def Let_def)
  qed
qed

theorem guard_moves_only_backup_witness:
  "let d' = guardCheck ''/agent'' \<lparr>ge_executable = False, ge_now = 50\<rparr> demoDisk in
     ud_bin d' ''/agent'' = Some ''bad'' \<or> ud_bin d' ''/agent'' = Some ''good''"
proof -
  have "plainProbation (the (ud_probation demoDisk))" by (simp add: plainProbation_def demoDisk_def)
  then have "probation_field ''backup'' demoDisk = ''/agent.old''"
    using probation_roundtrip(2) [of demoDisk "the (ud_probation demoDisk)"] by (simp add: demoDisk_def)
  then have "guardBackup ''/agent'' demoDisk = ''/agent.old''" by (simp add: guardBackup_def)
  then show ?thesis
    using guard_moves_only_backup [of "''/agent''" demoDisk "\<lparr>ge_executable = False, ge_now = 50\<rparr>"]
    by (auto simp: Let_def demoDisk_def)
qed

text \<open>The script and the agent agree on the state directory when the agent runs as root, as a service
  does; for another user on Linux they do not, although the script says it has to match.\<close>

lemma guardStateDir_agrees:
  "he_goos h = ''darwin'' \<Longrightarrow> stateDirOf h = Some (guardStateDir (he_stateDir h) ''Darwin'')"
  "he_goos h = ''linux'' \<Longrightarrow> he_root h \<Longrightarrow> stateDirOf h = Some (guardStateDir (he_stateDir h) ''Linux'')"
  "he_goos h = ''linux'' \<Longrightarrow> \<not> he_root h \<Longrightarrow> he_stateDir h = [] \<Longrightarrow> he_home h = Some ''/home/a'' \<Longrightarrow>
     stateDirOf h \<noteq> Some (guardStateDir (he_stateDir h) ''Linux'')"
  by (simp_all add: stateDirOf_def guardStateDir_def)

end
