(* ===== verification/Svc_Install.thy ===== *)
theory Svc_Install
  imports Config_State
begin

text \<open>
  The service definitions and their installation, \<open>agent/internal/svc\<close>: what \<open>render.go\<close> writes for
  systemd and launchd, \<open>service.go\<close> with the paths and the atomic write, \<open>Install\<close> and \<open>Uninstall\<close> of
  \<open>service_linux.go\<close>, \<open>service_darwin.go\<close> and \<open>service_windows.go\<close>, and the control protocol of
  \<open>hosted_windows.go\<close>.

  \<open>svc_world\<close> holds the files with their modes, the outcomes of the file operations to come (the
  empty list: they succeed) and the commands run so far; what a command answers may depend on all
  commands before it and is a field of \<open>svc_env\<close>, as are the environment variables and the text of
  the guard script. Calls of the Windows service manager are events of a list, with their outcomes
  as an argument.
\<close>

section \<open>Paths\<close>

text \<open>\<open>filepath.Clean\<close> and \<open>filepath.Join\<close> of Unix.\<close>

fun cleanParts :: "bool \<Rightarrow> string list \<Rightarrow> string list \<Rightarrow> string list" where
  "cleanParts rooted [] out = rev out"
| "cleanParts rooted (p # ps) out =
     (if p = [] \<or> p = ''.'' then cleanParts rooted ps out
      else if p = ''..'' then
        (case out of
           [] \<Rightarrow> cleanParts rooted ps (if rooted then [] else [p])
         | q # qs \<Rightarrow> if q = ''..'' then cleanParts rooted ps (p # out) else cleanParts rooted ps qs)
      else cleanParts rooted ps (p # out))"

definition cleanPath :: "string \<Rightarrow> string" where
  "cleanPath s =
     (let rooted = hasPrefix s ''/''; r = (if rooted then ''/'' else []) @ joinWith ''/'' (cleanParts rooted (splitOn CHR ''/'' s) [])
      in if r = [] then ''.'' else r)"

definition pathJoin :: "string list \<Rightarrow> string" where
  "pathJoin es = (let ne = filter (\<lambda>e. e \<noteq> []) es in if ne = [] then [] else cleanPath (joinWith ''/'' ne))"

section \<open>The service\<close>

definition serviceName :: string where "serviceName = ''everwas-agent''"
definition DisplayName :: string where "DisplayName = ''Everwas Agent''"
definition Description :: string where "Description = ''Everwas remote monitoring and management agent''"
definition LaunchdLabel :: string where "LaunchdLabel = ''systems.supported.everwas.agent''"
definition MacLogDir :: string where "MacLogDir = ''/Library/Logs/Everwas''"
definition StateDirEnv :: string where "StateDirEnv = ''EVERWAS_STATE_DIR''"
definition LinuxGuardPath :: string where "LinuxGuardPath = ''/usr/local/lib/everwas/agent-guard.sh''"
definition DarwinGuardPath :: string where "DarwinGuardPath = ''/Library/Everwas/Agent/agent-guard.sh''"

record install_config =
  ic_BinaryPath :: string
  ic_Args :: "string list"
  ic_StateDir :: string
  ic_Prefix :: string

record svc_env =
  se_prefixVar :: string
  se_stateDirVar :: string
  se_guardScript :: bytes
  se_run :: "string list list \<Rightarrow> string list \<Rightarrow> bool \<times> string"

definition normalized :: "svc_env \<Rightarrow> install_config \<Rightarrow> install_config" where
  "normalized env c =
     (let c1 = (if ic_Args c = [] then c\<lparr>ic_Args := [''run'']\<rparr> else c);
          c2 = (if ic_Prefix c1 = [] then c1\<lparr>ic_Prefix := se_prefixVar env\<rparr> else c1)
      in if ic_StateDir c2 = [] then c2\<lparr>ic_StateDir := se_stateDirVar env\<rparr> else c2)"

datatype svc_error =
    ErrNoBinary | ErrUnsupported | SvcWriteGuard string | SvcWriteDef string | SvcRemove string | SvcLogDir | SvcCommand "string list"
  | SvcFallback "string list" | ScmFailed string

definition validateInstall :: "install_config \<Rightarrow> svc_error option" where
  "validateInstall c = (if trimSpace (ic_BinaryPath c) = [] then Some ErrNoBinary else None)"

definition DefaultInstallPath :: "string \<Rightarrow> string" where
  "DefaultInstallPath goos =
     (if goos = ''linux'' then ''/usr/local/bin/everwas-agent''
      else if goos = ''darwin'' then ''/Library/Everwas/Agent/everwas-agent''
      else if goos = ''windows'' then
        joinWith [CHR 0x5C] [''C:'', ''Program Files'', ''Everwas'', ''Agent'', ''everwas-agent.exe'']
      else [])"

definition rooted :: "string \<Rightarrow> string list \<Rightarrow> string" where
  "rooted prefix elem = pathJoin ((if prefix = [] then ''/'' else prefix) # elem)"

definition UnitPath :: "string \<Rightarrow> string" where
  "UnitPath prefix = rooted prefix [''etc'', ''systemd'', ''system'', serviceName @ ''.service'']"

definition PlistPath :: "string \<Rightarrow> string" where
  "PlistPath prefix = rooted prefix [''Library'', ''LaunchDaemons'', LaunchdLabel @ ''.plist'']"

definition DefaultGuardPath :: "string \<Rightarrow> string" where
  "DefaultGuardPath goos =
     (if goos = ''linux'' then LinuxGuardPath else if goos = ''darwin'' then DarwinGuardPath else [])"

definition GuardPath :: "string \<Rightarrow> string \<Rightarrow> string" where
  "GuardPath goos prefix =
     (let p = DefaultGuardPath goos in if p = [] then [] else if prefix = [] then p else pathJoin [prefix, p])"

section \<open>Rendering\<close>

definition systemdQuote :: "string \<Rightarrow> string" where
  "systemdQuote s =
     (if s \<noteq> [] \<and> \<not> list_ex (\<lambda>c. c \<in> {CHR '' '', CHR 0x09, CHR 0x22, CHR 0x27, CHR 0x5C, CHR ''$'', CHR ''%''}) s then s
      else [CHR 0x22] @
        concat (map (\<lambda>c. if c = CHR 0x5C then [CHR 0x5C, CHR 0x5C] else if c = CHR 0x22 then [CHR 0x5C, CHR 0x22]
          else if c = CHR ''%'' then ''%%'' else [c]) s) @ [CHR 0x22])"

definition systemdExec :: "install_config \<Rightarrow> string" where
  "systemdExec c = joinWith '' '' (map systemdQuote (ic_BinaryPath c # ic_Args c))"

definition systemdGuardExec :: "install_config \<Rightarrow> string" where
  "systemdGuardExec c = joinWith '' '' (map systemdQuote [''/bin/sh'', LinuxGuardPath, ''check'', ic_BinaryPath c])"

text \<open>The lines of the unit in order.\<close>

definition systemdLines :: "install_config \<Rightarrow> string list" where
  "systemdLines c =
     [''[Unit]'', ''Description='' @ Description, ''Documentation=https://github.com/everwas/everwas/agent'',
      ''After=network-online.target'', ''Wants=network-online.target'', [],
      ''[Service]'', ''Type=simple'',
      ''# The rollback guard runs OUTSIDE the agent, which is the only way to'',
      ''# recover a build that cannot execute at all: wrong architecture, missing'',
      ''# symbol, panic in package init, a config the new binary cannot parse.'',
      ''# None of those ever reach the agent'' @ [CHR 0x27] @ ''s own crash counter. The leading '' @ [CHR 0x27] @ ''-'' @ [CHR 0x27],
      ''# and the /bin/sh wrapper mean a missing guard can never block startup.'',
      ''ExecStartPre=-'' @ systemdGuardExec c, ''ExecStart='' @ systemdExec c,
      ''Restart=always'', ''RestartSec=5''] @
     (if ic_StateDir c \<noteq> [] then [''Environment='' @ StateDirEnv @ ''='' @ ic_StateDir c] else []) @
     [[],
      ''# The agent applies OS patches, so it runs as root and must keep the'',
      ''# ability to gain privileges. Forbidding that here breaks apt, dnf and'',
      ''# zypper in ways that are hard to spot from the outside.'',
      ''NoNewPrivileges=false'', ''ProtectHome=read-only'', ''PrivateTmp=true'', [],
      ''# Package managers run in a transient scope (systemd-run --scope), so they'',
      ''# are NOT members of this cgroup: a restart of the agent during a patch'',
      ''# window would otherwise SIGKILL dpkg mid-transaction and leave the package'',
      ''# database for a human to repair. TimeoutStopSec is generous for the'',
      ''# fallback case, where systemd-run is unavailable and the transaction'',
      ''# really is in this cgroup.'',
      ''KillMode=mixed'', ''TimeoutStopSec=300'', [],
      ''[Install]'', ''WantedBy=multi-user.target'']"

definition RenderSystemdUnit :: "svc_env \<Rightarrow> install_config \<Rightarrow> string" where
  "RenderSystemdUnit env cfg = concat (map (\<lambda>l. l @ [CHR 0x0A]) (systemdLines (normalized env cfg)))"

definition shQuote :: "string \<Rightarrow> string" where
  "shQuote s = [CHR 0x27] @ concat (map (\<lambda>c. if c = CHR 0x27 then [CHR 0x27, CHR 0x5C, CHR 0x27, CHR 0x27] else [c]) s) @ [CHR 0x27]"

definition launchdProgramArguments :: "install_config \<Rightarrow> string list" where
  "launchdProgramArguments c =
     (let guard = shQuote DarwinGuardPath
      in [''/bin/sh'', ''-c'',
          ''[ -x '' @ guard @ '' ] && '' @ guard @ '' check '' @ shQuote (ic_BinaryPath c) @ ''; exec '' @
          joinWith '' '' (map shQuote (ic_BinaryPath c # ic_Args c))])"

text \<open>\<open>xml.EscapeText\<close> on bytes: what XML cannot hold becomes the replacement character.\<close>

definition xmlEscapeChar :: "char \<Rightarrow> string" where
  "xmlEscapeChar c =
     (if c = CHR 0x22 then ''&#34;'' else if c = CHR 0x27 then ''&#39;'' else if c = CHR ''&'' then ''&amp;''
      else if c = CHR ''<'' then ''&lt;'' else if c = CHR ''>'' then ''&gt;''
      else if c = CHR 0x09 then ''&#x9;'' else if c = CHR 0x0A then ''&#xA;'' else if c = CHR 0x0D then ''&#xD;''
      else if (of_char c :: nat) < 32 then [CHR 0xEF, CHR 0xBF, CHR 0xBD] else [c])"

definition xmlEscape :: "string \<Rightarrow> string" where
  "xmlEscape s = concat (map xmlEscapeChar s)"

definition xmlString :: "string \<Rightarrow> string" where
  "xmlString s = ''<string>'' @ xmlEscape s @ ''</string>''"

definition plistLines :: "install_config \<Rightarrow> string list" where
  "plistLines c =
     [''<?xml version='' @ [CHR 0x22] @ ''1.0'' @ [CHR 0x22] @ '' encoding='' @ [CHR 0x22] @ ''UTF-8'' @ [CHR 0x22] @ ''?>'',
      ''<!DOCTYPE plist PUBLIC '' @ [CHR 0x22] @ ''-//Apple//DTD PLIST 1.0//EN'' @ [CHR 0x22] @ '' '' @ [CHR 0x22] @
        ''http://www.apple.com/DTDs/PropertyList-1.0.dtd'' @ [CHR 0x22] @ ''>'',
      ''<plist version='' @ [CHR 0x22] @ ''1.0'' @ [CHR 0x22] @ ''>'', ''<dict>'',
      ''  <key>Label</key>'', ''  '' @ xmlString LaunchdLabel,
      ''  <key>ProgramArguments</key>'', ''  <array>''] @
     map (\<lambda>a. ''    '' @ xmlString a) (launchdProgramArguments c) @
     [''  </array>'', ''  <key>RunAtLoad</key>'', ''  <true/>'', ''  <key>KeepAlive</key>'', ''  <true/>'',
      ''  <key>ThrottleInterval</key>'', ''  <integer>5</integer>'',
      ''  <key>ProcessType</key>'', ''  <string>Background</string>'',
      ''  <key>StandardOutPath</key>'', ''  '' @ xmlString (MacLogDir @ ''/agent.log''),
      ''  <key>StandardErrorPath</key>'', ''  '' @ xmlString (MacLogDir @ ''/agent.err.log'')] @
     (if ic_StateDir c \<noteq> []
      then [''  <key>EnvironmentVariables</key>'', ''  <dict>'', ''    <key>'' @ StateDirEnv @ ''</key>'',
            ''    '' @ xmlString (ic_StateDir c), ''  </dict>'']
      else []) @
     [''</dict>'', ''</plist>'']"

definition RenderLaunchdPlist :: "svc_env \<Rightarrow> install_config \<Rightarrow> string" where
  "RenderLaunchdPlist env cfg = concat (map (\<lambda>l. l @ [CHR 0x0A]) (plistLines (normalized env cfg)))"

section \<open>Files and commands\<close>

record svc_world =
  so_files :: "string \<Rightarrow> (bytes \<times> nat) option"
  so_ends :: "write_end list"
  so_cmds :: "string list list"

definition svcOp :: "svc_world \<Rightarrow> write_end \<times> svc_world" where
  "svcOp w = (case so_ends w of [] \<Rightarrow> (WriteOK, w) | e # es \<Rightarrow> (e, w\<lparr>so_ends := es\<rparr>))"

definition putFile :: "string \<Rightarrow> bytes \<Rightarrow> nat \<Rightarrow> svc_world \<Rightarrow> svc_world" where
  "putFile path data mode w =
     w\<lparr>so_files := (so_files w)(path \<mapsto> (data, case so_files w path of None \<Rightarrow> mode | Some (_, m) \<Rightarrow> m))\<rparr>"

definition svcRemove :: "string \<Rightarrow> svc_world \<Rightarrow> bool \<times> svc_world" where
  "svcRemove path w =
     (if so_files w path = None then (True, w)
      else case svcOp w of
        (WriteOK, w1) \<Rightarrow> (True, w1\<lparr>so_files := (so_files w1)(path := None)\<rparr>)
      | (_, w1) \<Rightarrow> (False, w1))"

definition writeFileAtomic :: "string \<Rightarrow> bytes \<Rightarrow> nat \<Rightarrow> svc_world \<Rightarrow> bool \<times> svc_world" where
  "writeFileAtomic path data mode w =
     (let tmp = path @ ''.tmp''; (mk, w1) = svcOp w
      in if mk \<noteq> WriteOK then (False, w1)
         else case svcOp w1 of
           (OpenFails, w2) \<Rightarrow> (False, w2)
         | (WriteCut n, w2) \<Rightarrow> (False, putFile tmp (take n data) mode w2)
         | (WriteOK, w2) \<Rightarrow>
             let w3 = putFile tmp data mode w2; (rn, w4) = svcOp w3
             in if rn \<noteq> WriteOK then (False, snd (svcRemove tmp w4))
                else let w5 = w4\<lparr>so_files := (so_files w4)(path := so_files w4 tmp, tmp := None)\<rparr>; (ch, w6) = svcOp w5
                  in if ch \<noteq> WriteOK then (False, w6)
                     else (True, w6\<lparr>so_files := (so_files w6)(path := map_option (\<lambda>(b, _). (b, mode)) (so_files w6 path))\<rparr>))"

definition runSvcCmd :: "svc_env \<Rightarrow> string list \<Rightarrow> svc_world \<Rightarrow> (bool \<times> string) \<times> svc_world" where
  "runSvcCmd env args w = (se_run env (so_cmds w) args, w\<lparr>so_cmds := so_cmds w @ [args]\<rparr>)"

definition writeGuard :: "svc_env \<Rightarrow> string \<Rightarrow> string \<Rightarrow> svc_world \<Rightarrow> bool \<times> svc_world" where
  "writeGuard env goos prefix w =
     (if GuardPath goos prefix = [] then (True, w) else writeFileAtomic (GuardPath goos prefix) (se_guardScript env) 493 w)"

definition removeGuard :: "string \<Rightarrow> string \<Rightarrow> svc_world \<Rightarrow> bool \<times> svc_world" where
  "removeGuard goos prefix w =
     (if GuardPath goos prefix = [] then (True, w) else svcRemove (GuardPath goos prefix) w)"

section \<open>Linux\<close>

definition systemctl :: "svc_env \<Rightarrow> string list \<Rightarrow> svc_world \<Rightarrow> svc_error option \<times> svc_world" where
  "systemctl env args w =
     (let ((ok, out), w1) = runSvcCmd env (''systemctl'' # args) w
      in (if ok then None else Some (SvcCommand args), w1))"

definition installLinux :: "svc_env \<Rightarrow> install_config \<Rightarrow> svc_world \<Rightarrow> svc_error option \<times> svc_world" where
  "installLinux env cfg w =
     (let c = normalized env cfg; unit = UnitPath (ic_Prefix c) in
      case validateInstall c of
        Some e \<Rightarrow> (Some e, w)
      | None \<Rightarrow>
          let (ok1, w1) = writeGuard env ''linux'' (ic_Prefix c) w in
          if \<not> ok1 then (Some (SvcWriteGuard (GuardPath ''linux'' (ic_Prefix c))), w1)
          else let (ok2, w2) = writeFileAtomic unit (RenderSystemdUnit env c) 420 w1 in
            if \<not> ok2 then (Some (SvcWriteDef unit), w2)
            else if ic_Prefix c \<noteq> [] then (None, w2)
            else (case systemctl env [''daemon-reload''] w2 of
               (Some e, w3) \<Rightarrow> (Some e, w3)
             | (None, w3) \<Rightarrow> systemctl env [''enable'', ''--now'', serviceName] w3))"

definition uninstallLinux :: "svc_env \<Rightarrow> svc_world \<Rightarrow> svc_error option \<times> svc_world" where
  "uninstallLinux env w =
     (let prefix = se_prefixVar env; unit = UnitPath prefix;
          w1 = (if prefix = [] then snd (systemctl env [''disable'', ''--now'', serviceName] w) else w);
          (ok2, w2) = svcRemove unit w1
      in if \<not> ok2 then (Some (SvcRemove unit), w2)
         else let (ok3, w3) = removeGuard ''linux'' prefix w2
           in if \<not> ok3 then (Some (SvcRemove (GuardPath ''linux'' prefix)), w3)
              else if prefix \<noteq> [] then (None, w3)
              else (case systemctl env [''daemon-reload''] w3 of
                 (Some e, w4) \<Rightarrow> (Some e, w4)
               | (None, w4) \<Rightarrow> (None, snd (systemctl env [''reset-failed'', serviceName] w4))))"

definition statusLinux :: "svc_env \<Rightarrow> svc_world \<Rightarrow> (string \<times> bool) \<times> svc_world" where
  "statusLinux env w =
     (if so_files w (UnitPath (se_prefixVar env)) = None then ((''not installed'', True), w)
      else let ((ok, out), w1) = runSvcCmd env [''systemctl'', ''is-active'', serviceName] w; state = trimSpace out
        in ((if state \<in> {''active'', ''activating'', ''reloading''} then (''running'', True)
             else if state \<in> {''inactive'', ''failed'', ''deactivating''} then (''stopped'', True)
             else if state = [] then (''unknown'', ok) else (state, True)), w1))"

section \<open>macOS\<close>

definition serviceTarget :: string where "serviceTarget = ''system/'' @ LaunchdLabel"

definition launchctl :: "svc_env \<Rightarrow> string list \<Rightarrow> svc_world \<Rightarrow> svc_error option \<times> svc_world" where
  "launchctl env args w =
     (let ((ok, out), w1) = runSvcCmd env (''/bin/launchctl'' # args) w
      in (if ok then None else Some (SvcCommand args), w1))"

definition installDarwin :: "svc_env \<Rightarrow> install_config \<Rightarrow> svc_world \<Rightarrow> svc_error option \<times> svc_world" where
  "installDarwin env cfg w =
     (let c = normalized env cfg; plist = PlistPath (ic_Prefix c) in
      case validateInstall c of
        Some e \<Rightarrow> (Some e, w)
      | None \<Rightarrow>
          let (mk, w0) = svcOp w in
          if mk \<noteq> WriteOK then (Some SvcLogDir, w0)
          else let (ok1, w1) = writeGuard env ''darwin'' (ic_Prefix c) w0 in
            if \<not> ok1 then (Some (SvcWriteGuard (GuardPath ''darwin'' (ic_Prefix c))), w1)
            else let (ok2, w2) = writeFileAtomic plist (RenderLaunchdPlist env c) 420 w1 in
              if \<not> ok2 then (Some (SvcWriteDef plist), w2)
              else if ic_Prefix c \<noteq> [] then (None, w2)
              else let w3 = snd (launchctl env [''bootout'', serviceTarget] w2) in
                (case launchctl env [''bootstrap'', ''system'', plist] w3 of
                   (Some e, w4) \<Rightarrow>
                     (case launchctl env [''load'', ''-w'', plist] w4 of
                        (Some e', w5) \<Rightarrow> (Some (SvcFallback [''bootstrap'', ''system'', plist]), w5)
                      | (None, w5) \<Rightarrow> (None, w5))
                 | (None, w4) \<Rightarrow> launchctl env [''kickstart'', ''-k'', serviceTarget] w4))"

definition uninstallDarwin :: "svc_env \<Rightarrow> svc_world \<Rightarrow> svc_error option \<times> svc_world" where
  "uninstallDarwin env w =
     (let prefix = se_prefixVar env; plist = PlistPath prefix;
          w1 = (if prefix \<noteq> [] then w
                else (case launchctl env [''bootout'', serviceTarget] w of
                        (Some e, w') \<Rightarrow> snd (launchctl env [''unload'', ''-w'', plist] w')
                      | (None, w') \<Rightarrow> w'));
          (ok2, w2) = svcRemove plist w1
      in if \<not> ok2 then (Some (SvcRemove plist), w2)
         else let (ok3, w3) = removeGuard ''darwin'' prefix w2
           in if \<not> ok3 then (Some (SvcRemove (GuardPath ''darwin'' prefix)), w3) else (None, w3))"

fun launchdState :: "string list \<Rightarrow> string option" where
  "launchdState [] = None"
| "launchdState (l # ls) =
     (let line = trimSpace l
      in if hasPrefix line ''state = '' then Some (if containsSub line ''running'' then ''running'' else ''stopped'')
         else launchdState ls)"

definition statusDarwin :: "svc_env \<Rightarrow> svc_world \<Rightarrow> string \<times> svc_world" where
  "statusDarwin env w =
     (if so_files w (PlistPath (se_prefixVar env)) = None then (''not installed'', w)
      else let ((ok, out), w1) = runSvcCmd env [''/bin/launchctl'', ''print'', serviceTarget] w
        in (if \<not> ok then ''stopped''
            else case launchdState (splitOn CHR 0x0A out) of
              Some s \<Rightarrow> s
            | None \<Rightarrow> if containsSub out ''pid = '' then ''running'' else ''stopped'', w1))"

section \<open>Windows\<close>

text \<open>The calls of the service manager, with the values that vary; the start type and the error control
  are always automatic and normal. \<open>esc\<close> is \<open>windows.EscapeArg\<close>.\<close>

datatype scm_call =
    ScmConnect | ScmOpen | ScmReadConfig | ScmUpdate string string string
  | ScmCreate string "string list" string string
  | ScmActions "nat list" nat | ScmCommand string | ScmNonCrash bool | ScmStart | ScmStop | ScmDelete

datatype scm_end = ScmOK | ScmAlreadyRunning | ScmNotActive | ScmCannotAccept | ScmErr

type_synonym scm = "scm_call list \<Rightarrow> scm_call \<Rightarrow> scm_end"

definition recoveryResetPeriod :: nat where "recoveryResetPeriod = 24 * 60 * 60"

definition binaryPathName :: "(string \<Rightarrow> string) \<Rightarrow> install_config \<Rightarrow> string" where
  "binaryPathName esc c = fold (\<lambda>a out. out @ '' '' @ esc a) (ic_Args c) (esc (ic_BinaryPath c))"

fun scmSteps :: "scm \<Rightarrow> (scm_call \<times> string) list \<Rightarrow> scm_call list \<Rightarrow> svc_error option \<times> scm_call list" where
  "scmSteps scm [] cs = (None, cs)"
| "scmSteps scm ((call, what) # rest) cs =
     (if scm cs call = ScmOK then scmSteps scm rest (cs @ [call]) else (Some (ScmFailed what), cs @ [call]))"

definition scmStart :: "scm \<Rightarrow> scm_call list \<Rightarrow> svc_error option \<times> scm_call list" where
  "scmStart scm cs =
     (if scm cs ScmStart \<in> {ScmOK, ScmAlreadyRunning} then (None, cs @ [ScmStart])
      else (Some (ScmFailed ''start service''), cs @ [ScmStart]))"

definition installWindows :: "scm \<Rightarrow> (string \<Rightarrow> string) \<Rightarrow> svc_env \<Rightarrow> install_config \<Rightarrow> svc_error option \<times> scm_call list" where
  "installWindows scm esc env cfg =
     (let c = normalized env cfg in
      case validateInstall c of
        Some e \<Rightarrow> (Some e, [])
      | None \<Rightarrow>
          if ic_Prefix c \<noteq> [] then (None, [])
          else if scm [] ScmConnect \<noteq> ScmOK then (Some (ScmFailed ''connect''), [ScmConnect])
          else let steps =
              (if scm [ScmConnect] ScmOpen = ScmOK
               then [(ScmReadConfig, ''read existing service config''), (ScmUpdate (binaryPathName esc c) DisplayName Description, ''update service config'')]
               else [(ScmCreate (ic_BinaryPath c) (ic_Args c) DisplayName Description, ''create service'')]) @
              [(ScmActions [5, 30, 60] recoveryResetPeriod, ''set recovery actions''),
               (ScmCommand [], ''clear recovery command''),
               (ScmNonCrash True, ''set recovery on non-crash exit'')]
            in (case scmSteps scm steps [ScmConnect, ScmOpen] of
                  (Some e, cs) \<Rightarrow> (Some e, cs)
                | (None, cs) \<Rightarrow> scmStart scm cs))"

definition uninstallWindows :: "scm \<Rightarrow> svc_env \<Rightarrow> svc_error option \<times> scm_call list" where
  "uninstallWindows scm env =
     (if se_prefixVar env \<noteq> [] then (None, [])
      else if scm [] ScmConnect \<noteq> ScmOK then (Some (ScmFailed ''connect''), [ScmConnect])
      else if scm [ScmConnect] ScmOpen \<noteq> ScmOK then (None, [ScmConnect, ScmOpen])
      else if scm [ScmConnect, ScmOpen] ScmStop \<notin> {ScmOK, ScmNotActive, ScmCannotAccept}
        then (Some (ScmFailed ''stop service''), [ScmConnect, ScmOpen, ScmStop])
      else scmSteps scm [(ScmDelete, ''delete service'')] [ScmConnect, ScmOpen, ScmStop])"

subsection \<open>Under the control dispatcher\<close>

datatype scm_cmd = CmdInterrogate | CmdStop | CmdShutdown | CmdOther

datatype host_event = WorkDone int | ControlReq scm_cmd | StopTick | StopDeadline

datatype host_out = StartPending nat | ServiceRunning | CurrentStatus | StopPending nat nat | CancelWork | ServiceStopped

definition startupGrace :: duration where "startupGrace = 20 * second"
definition checkpointEvery :: duration where "checkpointEvery = 5 * second"
definition millisOf :: "duration \<Rightarrow> nat" where "millisOf d = nat (d div 1000000)"

text \<open>After a stop request: the loop no longer reads requests, so they change nothing.\<close>

fun awaitStop :: "nat \<Rightarrow> host_event list \<Rightarrow> host_out list \<times> int option" where
  "awaitStop checkpoint [] = ([], None)"
| "awaitStop checkpoint (WorkDone code # es) = ([], Some code)"
| "awaitStop checkpoint (StopTick # es) =
     (let (out, r) = awaitStop (checkpoint + 1) es in (StopPending checkpoint (millisOf (2 * checkpointEvery)) # out, r))"
| "awaitStop checkpoint (StopDeadline # es) = ([], Some 1)"
| "awaitStop checkpoint (ControlReq c # es) = awaitStop checkpoint es"

fun serveLoop :: "host_event list \<Rightarrow> host_out list \<times> int option" where
  "serveLoop [] = ([], None)"
| "serveLoop (WorkDone code # es) = ([ServiceStopped], Some code)"
| "serveLoop (ControlReq c # es) =
     (if c = CmdInterrogate then (let (out, r) = serveLoop es in (CurrentStatus # out, r))
      else if c = CmdStop \<or> c = CmdShutdown then
        (let (out, r) = awaitStop 2 es
         in ([StopPending 1 (millisOf (2 * checkpointEvery)), CancelWork] @ out @ (if r = None then [] else [ServiceStopped]), r))
      else serveLoop es)"
| "serveLoop (StopTick # es) = serveLoop es"
| "serveLoop (StopDeadline # es) = serveLoop es"

definition executeHost :: "host_event list \<Rightarrow> host_out list \<times> int option" where
  "executeHost es = (let (out, r) = serveLoop es in ([StartPending (millisOf startupGrace), ServiceRunning] @ out, r))"

section \<open>Where the files are\<close>

lemma cleanParts_snoc:
  "x \<noteq> [] \<Longrightarrow> x \<noteq> ''.'' \<Longrightarrow> x \<noteq> ''..'' \<Longrightarrow> \<exists>qs. cleanParts r (ps @ [x]) out = qs @ [x]"
  by (induction r ps out rule: cleanParts.induct) (auto split: list.splits)

lemma joinWith_snoc_suffix: "\<exists>pre. joinWith sep (qs @ [x]) = pre @ x"
proof (induction qs)
  case (Cons q qs)
  then obtain pre where "joinWith sep (qs @ [x]) = pre @ x" by blast
  then show ?case by (simp add: joinWith_Cons)
qed auto

text \<open>A path keeps its last element.\<close>

lemma cleanPath_suffix:
  assumes "x \<noteq> []" "x \<noteq> ''.''" "x \<noteq> ''..''" "CHR ''/'' \<notin> set x"
  shows "\<exists>pre. cleanPath (s @ CHR ''/'' # x) = pre @ x"
proof -
  let ?r = "hasPrefix (s @ CHR ''/'' # x) ''/''"
  from cleanParts_snoc [OF assms(1-3), of ?r "splitOn CHR ''/'' s" "[]"]
  obtain qs where "cleanParts ?r (splitOn CHR ''/'' s @ [x]) [] = qs @ [x]" by blast
  moreover obtain pre where "joinWith ''/'' (qs @ [x]) = pre @ x" using joinWith_snoc_suffix by blast
  ultimately have "cleanPath (s @ CHR ''/'' # x) = ((if ?r then ''/'' else []) @ pre) @ x"
    using assms(1) by (simp add: cleanPath_def splitOn_append splitOn_free [OF assms(4)] Let_def)
  then show ?thesis by blast
qed

lemma pathJoin_two: "p \<noteq> [] \<Longrightarrow> q \<noteq> [] \<Longrightarrow> pathJoin [p, q] = cleanPath (p @ ''/'' @ q)"
  by (simp add: pathJoin_def)

lemma GuardPath_suffix:
  assumes "goos = ''linux'' \<or> goos = ''darwin''"
  shows "\<exists>pre. GuardPath goos prefix = pre @ ''agent-guard.sh''"
proof (cases "prefix = []")
  case True
  have l: "LinuxGuardPath = ''/usr/local/lib/everwas/'' @ ''agent-guard.sh''"
    "DarwinGuardPath = ''/Library/Everwas/Agent/'' @ ''agent-guard.sh''" by (simp_all add: LinuxGuardPath_def DarwinGuardPath_def)
  with True assms show ?thesis
    unfolding GuardPath_def DefaultGuardPath_def Let_def by (elim disjE) (simp_all only: l, auto)
next
  case False
  have "\<exists>pre. cleanPath ((prefix @ ''/'' @ d) @ CHR ''/'' # ''agent-guard.sh'') = pre @ ''agent-guard.sh''" for d
    by (rule cleanPath_suffix) auto
  from this [of "''/usr/local/lib/everwas''"] this [of "''/Library/Everwas/Agent''"] False assms show ?thesis
    by (auto simp: GuardPath_def DefaultGuardPath_def LinuxGuardPath_def DarwinGuardPath_def pathJoin_two)
qed

lemma rooted_suffix:
  assumes "x \<noteq> []" "x \<noteq> ''.''" "x \<noteq> ''..''" "CHR ''/'' \<notin> set x"
  shows "\<exists>pre. rooted prefix [a # as, b # bs, x] = pre @ x" "\<exists>pre. rooted prefix [a # as, b # bs, c # cs, x] = pre @ x"
  using cleanPath_suffix [OF assms, of "(if prefix = [] then ''/'' else prefix) @ ''/'' @ a # as @ ''/'' @ b # bs"]
    cleanPath_suffix [OF assms, of "(if prefix = [] then ''/'' else prefix) @ ''/'' @ a # as @ ''/'' @ b # bs @ ''/'' @ c # cs"]
    assms(1) by (auto simp: rooted_def pathJoin_def)

lemma UnitPath_suffix: "\<exists>pre. UnitPath prefix = pre @ ''.service''"
proof -
  have "\<exists>pre. UnitPath prefix = pre @ ''everwas-agent.service''"
    unfolding UnitPath_def serviceName_def using rooted_suffix(2) [of "''everwas-agent.service''" prefix] by auto
  then obtain pre where "UnitPath prefix = (pre @ ''everwas-agent'') @ ''.service''" by auto
  then show ?thesis by blast
qed

lemma PlistPath_suffix: "\<exists>pre. PlistPath prefix = pre @ ''.plist''"
proof -
  have "\<exists>pre. PlistPath prefix = pre @ ''systems.supported.everwas.agent.plist''"
    unfolding PlistPath_def LaunchdLabel_def using rooted_suffix(1) [of "''systems.supported.everwas.agent.plist''" prefix] by auto
  then obtain pre where "PlistPath prefix = (pre @ ''systems.supported.everwas.agent'') @ ''.plist''" by auto
  then show ?thesis by blast
qed

section \<open>The atomic write\<close>

lemma svcOp_same: "svcOp w = (e, w') \<Longrightarrow> so_files w' = so_files w \<and> so_cmds w' = so_cmds w"
  by (auto simp: svcOp_def split: list.splits)

lemma svcRemove_other:
  "svcRemove path w = (ok, w') \<Longrightarrow> so_cmds w' = so_cmds w \<and> (\<forall>p. p \<noteq> path \<longrightarrow> so_files w' p = so_files w p) \<and>
     (ok \<longrightarrow> so_files w' path = None)"
  by (auto simp: svcRemove_def split: if_splits prod.splits write_end.splits dest!: svcOp_same)

lemma svcRemove_snd [simp]:
  "so_cmds (snd (svcRemove path w)) = so_cmds w" "p \<noteq> path \<Longrightarrow> so_files (snd (svcRemove path w)) p = so_files w p"
  using svcRemove_other [of path w] by (cases "svcRemove path w"; auto)+

lemma writeFileAtomic_ok:
  "writeFileAtomic path data mode w = (True, w') \<Longrightarrow>
     so_files w' = (so_files w)(path \<mapsto> (data, mode), path @ ''.tmp'' := None) \<and> so_cmds w' = so_cmds w"
  by (auto simp: writeFileAtomic_def putFile_def Let_def fun_eq_iff split: if_splits prod.splits write_end.splits dest!: svcOp_same)

lemma writeFileAtomic_any:
  assumes "writeFileAtomic path data mode w = (ok, w')"
  shows "so_cmds w' = so_cmds w" "p \<noteq> path \<Longrightarrow> p \<noteq> path @ ''.tmp'' \<Longrightarrow> so_files w' p = so_files w p"
    "so_files w' path = so_files w path \<or> (\<exists>m. so_files w' path = Some (data, m))"
  using assms
  by (auto simp: writeFileAtomic_def putFile_def Let_def split: if_splits prod.splits write_end.splits option.splits
      dest!: svcOp_same)

section \<open>Installing\<close>

text \<open>
  What the two installers that write files have in common: nothing is touched, or the guard is
  written, then the definition that refers to it, then, outside a relocated install, commands run.
\<close>

definition guardedInstall :: "string \<Rightarrow> string \<Rightarrow> string \<Rightarrow> svc_env \<Rightarrow> install_config \<Rightarrow> svc_world \<Rightarrow> svc_error option \<Rightarrow> svc_world \<Rightarrow> bool" where
  "guardedInstall goos def text env c w r w' \<longleftrightarrow>
     so_files w' = so_files w \<and> so_cmds w' = so_cmds w \<and> r \<noteq> None \<or>
     (\<exists>w0 ok1 w1. so_files w0 = so_files w \<and> so_cmds w0 = so_cmds w \<and> writeGuard env goos (ic_Prefix c) w0 = (ok1, w1) \<and>
        (if \<not> ok1 then w' = w1 \<and> r \<noteq> None
         else \<exists>ok2 w2. writeFileAtomic def text 420 w1 = (ok2, w2) \<and> so_files w' = so_files w2 \<and>
           (\<not> ok2 \<or> ic_Prefix c \<noteq> [] \<longrightarrow> so_cmds w' = so_cmds w2) \<and> (r = None \<longrightarrow> ok2)))"

lemma guardedInstallI:
  assumes "so_files w0 = so_files w" "so_cmds w0 = so_cmds w" "writeGuard env goos (ic_Prefix c) w0 = (ok1, w1)"
    "writeFileAtomic def text 420 w1 = (ok2, w2)"
    "if \<not> ok1 then w' = w1 \<and> r \<noteq> None
     else so_files w' = so_files w2 \<and> (\<not> ok2 \<or> ic_Prefix c \<noteq> [] \<longrightarrow> so_cmds w' = so_cmds w2) \<and> (r = None \<longrightarrow> ok2)"
  shows "guardedInstall goos def text env c w r w'"
  unfolding guardedInstall_def using assms by (intro disjI2 exI [of _ w0] exI [of _ ok1] exI [of _ w1]) auto

locale file_installer =
  fixes goos :: string
    and defPath :: "string \<Rightarrow> string"
    and render :: "svc_env \<Rightarrow> install_config \<Rightarrow> string"
    and install :: "svc_env \<Rightarrow> install_config \<Rightarrow> svc_world \<Rightarrow> svc_error option \<times> svc_world"
  assumes has_guard: "GuardPath goos prefix \<noteq> []"
    and apart: "GuardPath goos prefix \<noteq> defPath prefix" "GuardPath goos prefix \<noteq> defPath prefix @ ''.tmp''"
      "GuardPath goos prefix @ ''.tmp'' \<noteq> defPath prefix"
    and shape: "install env cfg w = (r, w') \<Longrightarrow> guardedInstall goos (defPath (ic_Prefix (normalized env cfg)))
      (render env (normalized env cfg)) env (normalized env cfg) w r w'"
begin

lemmas both_apart = apart apart [symmetric]

lemma install_cases:
  fixes cfg :: install_config
  assumes "install env cfg w = (r, w')"
  defines "c \<equiv> normalized env cfg"
  obtains (untouched) "so_files w' = so_files w" "so_cmds w' = so_cmds w" "r \<noteq> None"
    | (guardFails) w0 where "so_files w0 = so_files w" "so_cmds w0 = so_cmds w"
        "writeFileAtomic (GuardPath goos (ic_Prefix c)) (se_guardScript env) 493 w0 = (False, w')" "r \<noteq> None"
    | (written) w0 w1 ok2 w2 where "so_files w0 = so_files w" "so_cmds w0 = so_cmds w"
        "writeFileAtomic (GuardPath goos (ic_Prefix c)) (se_guardScript env) 493 w0 = (True, w1)"
        "writeFileAtomic (defPath (ic_Prefix c)) (render env c) 420 w1 = (ok2, w2)" "so_files w' = so_files w2"
        "\<not> ok2 \<or> ic_Prefix c \<noteq> [] \<longrightarrow> so_cmds w' = so_cmds w2" "r = None \<longrightarrow> ok2"
  using shape [OF assms(1)] has_guard unfolding guardedInstall_def writeGuard_def c_def by (auto split: if_splits)

lemma guard_first:
  assumes "install env cfg w = (r, w')"
    and "so_files w' (defPath (ic_Prefix (normalized env cfg))) \<noteq> so_files w (defPath (ic_Prefix (normalized env cfg))) \<or> so_cmds w' \<noteq> so_cmds w"
  shows "so_files w' (GuardPath goos (ic_Prefix (normalized env cfg))) = Some (se_guardScript env, 493)"
  using assms(1)
proof (cases rule: install_cases)
  case untouched
  with assms(2) show ?thesis by simp
next
  case guardFails
  then have "so_files w' (defPath (ic_Prefix (normalized env cfg))) = so_files w (defPath (ic_Prefix (normalized env cfg)))"
    "so_cmds w' = so_cmds w"
    using writeFileAtomic_any(1,2) [OF guardFails(3)] both_apart by simp_all
  with assms(2) show ?thesis by simp
next
  case written
  then show ?thesis
    using writeFileAtomic_any(2) [OF written(4)] writeFileAtomic_ok [OF written(3)] both_apart by simp
qed

lemma definition_atomic:
  assumes "install env cfg w = (r, w')"
  shows "so_files w' (defPath (ic_Prefix (normalized env cfg))) = so_files w (defPath (ic_Prefix (normalized env cfg))) \<or>
    (\<exists>m. so_files w' (defPath (ic_Prefix (normalized env cfg))) = Some (render env (normalized env cfg), m))"
  using assms
proof (cases rule: install_cases)
  case guardFails
  with writeFileAtomic_any(2) [OF guardFails(3)] both_apart show ?thesis by simp
next
  case written
  with writeFileAtomic_any(3) [OF written(4)] writeFileAtomic_ok [OF written(3)] both_apart
  show ?thesis by simp
qed simp

lemma relocated_dry:
  assumes "install env cfg w = (r, w')" and "ic_Prefix (normalized env cfg) \<noteq> []"
  shows "so_cmds w' = so_cmds w"
  using assms(1)
proof (cases rule: install_cases)
  case guardFails
  with writeFileAtomic_any(1) [OF guardFails(3)] show ?thesis by simp
next
  case written
  with assms(2) writeFileAtomic_any(1) [OF written(4)] writeFileAtomic_ok [OF written(3)] show ?thesis by simp
qed simp

lemma installed:
  assumes "install env cfg w = (None, w')"
  shows "so_files w' (defPath (ic_Prefix (normalized env cfg))) = Some (render env (normalized env cfg), 420)"
  using assms
proof (cases rule: install_cases)
  case (written w0 w1 ok2 w2)
  then have "ok2" by simp
  with written(4,5) writeFileAtomic_ok [of _ _ _ w1 w2] show ?thesis by simp
qed simp_all

lemma installed_guard:
  assumes "install env cfg w = (None, w')"
  shows "so_files w' (GuardPath goos (ic_Prefix (normalized env cfg))) = Some (se_guardScript env, 493)"
  using assms
proof (cases rule: install_cases)
  case written
  then show ?thesis
    using writeFileAtomic_any(2) [OF written(4)] writeFileAtomic_ok [OF written(3)] both_apart by simp
qed simp_all

end

lemma systemctl_files: "systemctl env args w = (r, w') \<Longrightarrow> so_files w' = so_files w"
  by (auto simp: systemctl_def runSvcCmd_def Let_def split: prod.splits)

lemma launchctl_files: "launchctl env args w = (r, w') \<Longrightarrow> so_files w' = so_files w"
  by (auto simp: launchctl_def runSvcCmd_def Let_def split: prod.splits)

lemma launchctl_snd [simp]: "so_files (snd (launchctl env args w)) = so_files w"
  by (simp add: launchctl_def runSvcCmd_def Let_def split: prod.splits)

lemma last_apart: "last a \<noteq> last b \<Longrightarrow> a \<noteq> (b :: string)"
  by auto

interpretation linux_svc: file_installer "''linux''" UnitPath RenderSystemdUnit installLinux
proof
  fix prefix
  obtain g u where gu: "GuardPath ''linux'' prefix = g @ ''agent-guard.sh''" "UnitPath prefix = u @ ''.service''"
    using GuardPath_suffix [of "''linux''" prefix] UnitPath_suffix [of prefix] by blast
  show "GuardPath ''linux'' prefix \<noteq> []" by (simp add: gu)
  show "GuardPath ''linux'' prefix \<noteq> UnitPath prefix" "GuardPath ''linux'' prefix \<noteq> UnitPath prefix @ ''.tmp''"
    by (rule last_apart, simp add: gu)+
  show "GuardPath ''linux'' prefix @ ''.tmp'' \<noteq> UnitPath prefix"
    by (rule last_apart) (simp add: gu)
next
  fix env cfg w r w'
  assume i: "installLinux env cfg w = (r, w')"
  let ?c = "normalized env cfg"
  show "guardedInstall ''linux'' (UnitPath (ic_Prefix ?c)) (RenderSystemdUnit env ?c) env ?c w r w'"
  proof (cases "validateInstall ?c")
    case None
    obtain ok1 w1 where g: "writeGuard env ''linux'' (ic_Prefix ?c) w = (ok1, w1)" by fastforce
    obtain ok2 w2 where u: "writeFileAtomic (UnitPath (ic_Prefix ?c)) (RenderSystemdUnit env ?c) 420 w1 = (ok2, w2)" by fastforce
    show ?thesis
      by (rule guardedInstallI [OF refl refl g u])
        (use i in \<open>auto simp: installLinux_def None g u Let_def split: prod.splits option.splits if_splits dest!: systemctl_files\<close>)
  qed (use i in \<open>auto simp: installLinux_def guardedInstall_def\<close>)
qed

interpretation darwin_svc: file_installer "''darwin''" PlistPath RenderLaunchdPlist installDarwin
proof
  fix prefix
  obtain g u where gu: "GuardPath ''darwin'' prefix = g @ ''agent-guard.sh''" "PlistPath prefix = u @ ''.plist''"
    using GuardPath_suffix [of "''darwin''" prefix] PlistPath_suffix [of prefix] by blast
  show "GuardPath ''darwin'' prefix \<noteq> []" by (simp add: gu)
  show "GuardPath ''darwin'' prefix \<noteq> PlistPath prefix" "GuardPath ''darwin'' prefix \<noteq> PlistPath prefix @ ''.tmp''"
    by (rule last_apart, simp add: gu)+
  show "GuardPath ''darwin'' prefix @ ''.tmp'' \<noteq> PlistPath prefix"
    by (rule last_apart) (simp add: gu)
next
  fix env cfg w r w'
  assume i: "installDarwin env cfg w = (r, w')"
  let ?c = "normalized env cfg"
  obtain mk w0 where m: "svcOp w = (mk, w0)" by fastforce
  note m' = svcOp_same [OF m]
  show "guardedInstall ''darwin'' (PlistPath (ic_Prefix ?c)) (RenderLaunchdPlist env ?c) env ?c w r w'"
  proof (cases "validateInstall ?c = None \<and> mk = WriteOK")
    case True
    obtain ok1 w1 where g: "writeGuard env ''darwin'' (ic_Prefix ?c) w0 = (ok1, w1)" by fastforce
    obtain ok2 w2 where u: "writeFileAtomic (PlistPath (ic_Prefix ?c)) (RenderLaunchdPlist env ?c) 420 w1 = (ok2, w2)" by fastforce
    have v: "validateInstall ?c = None" "svcOp w = (WriteOK, w0)" using True m by simp_all
    show ?thesis
      by (rule guardedInstallI [OF _ _ g u])
        (use i m' in \<open>auto simp: installDarwin_def v g u Let_def split: prod.splits option.splits if_splits dest!: launchctl_files\<close>)
  next
    case False
    with i m m' show ?thesis by (auto simp: installDarwin_def guardedInstall_def Let_def split: option.splits if_splits)
  qed
qed

text \<open>
  C27. A service never starts without its rollback path because an install went wrong halfway. Wherever an
  install on Linux or macOS stops: if the service definition was changed or a command was run, the
  guard the definition refers to is on disk, complete and executable; the definition is the one
  there was or the whole new one; a relocated install runs no command; and an install that reports
  success has put the definition in place.
\<close>

theorem install_guarded:
  assumes "installLinux env cfg w = (r, w')" and "installDarwin env cfg v = (s, v')"
  shows "let c = normalized env cfg; unit = UnitPath (ic_Prefix c); plist = PlistPath (ic_Prefix c) in
    (so_files w' unit \<noteq> so_files w unit \<or> so_cmds w' \<noteq> so_cmds w \<longrightarrow>
       so_files w' (GuardPath ''linux'' (ic_Prefix c)) = Some (se_guardScript env, 493)) \<and>
    (so_files w' unit = so_files w unit \<or> (\<exists>m. so_files w' unit = Some (RenderSystemdUnit env c, m))) \<and>
    (ic_Prefix c \<noteq> [] \<longrightarrow> so_cmds w' = so_cmds w \<and> so_cmds v' = so_cmds v) \<and>
    (r = None \<longrightarrow> so_files w' unit = Some (RenderSystemdUnit env c, 420)) \<and>
    (so_files v' plist \<noteq> so_files v plist \<or> so_cmds v' \<noteq> so_cmds v \<longrightarrow>
       so_files v' (GuardPath ''darwin'' (ic_Prefix c)) = Some (se_guardScript env, 493)) \<and>
    (so_files v' plist = so_files v plist \<or> (\<exists>m. so_files v' plist = Some (RenderLaunchdPlist env c, m))) \<and>
    (s = None \<longrightarrow> so_files v' plist = Some (RenderLaunchdPlist env c, 420))"
  using linux_svc.guard_first [OF assms(1)] linux_svc.definition_atomic [OF assms(1)] linux_svc.relocated_dry [OF assms(1)]
    linux_svc.installed assms darwin_svc.guard_first [OF assms(2)] darwin_svc.definition_atomic [OF assms(2)]
    darwin_svc.relocated_dry [OF assms(2)] darwin_svc.installed
  unfolding Let_def by blast

definition exSvcEnv :: svc_env where
  "exSvcEnv = \<lparr>se_prefixVar = [], se_stateDirVar = [], se_guardScript = ''guard'', se_run = (\<lambda>_ _. (True, []))\<rparr>"

definition exInstall :: install_config where
  "exInstall = \<lparr>ic_BinaryPath = ''/usr/local/bin/everwas-agent'', ic_Args = [], ic_StateDir = [], ic_Prefix = []\<rparr>"

definition exSvcWorld :: svc_world where
  "exSvcWorld = \<lparr>so_files = (\<lambda>_. None), so_ends = [], so_cmds = []\<rparr>"

theorem install_guarded_witness:
  "so_cmds (snd (installLinux exSvcEnv (exInstall\<lparr>ic_Prefix := ''/tmp/stage''\<rparr>) exSvcWorld)) = [] \<and>
   so_cmds (snd (installDarwin exSvcEnv (exInstall\<lparr>ic_Prefix := ''/tmp/stage''\<rparr>) exSvcWorld)) = []"
proof -
  let ?c = "exInstall\<lparr>ic_Prefix := ''/tmp/stage''\<rparr>"
  have "ic_Prefix (normalized exSvcEnv ?c) \<noteq> []" by (simp add: normalized_def exInstall_def exSvcEnv_def)
  then show ?thesis
    using install_guarded [OF prod.collapse [symmetric] prod.collapse [symmetric], of exSvcEnv ?c exSvcWorld exSvcWorld]
    by (simp add: Let_def) (simp add: exSvcWorld_def)
qed

lemma writeFileAtomic_clean:
  "so_ends w = [] \<Longrightarrow> writeFileAtomic path data mode w =
     (True, w\<lparr>so_files := (so_files w)(path \<mapsto> (data, mode), path @ ''.tmp'' := None)\<rparr>)"
  by (simp add: writeFileAtomic_def svcOp_def putFile_def Let_def fun_upd_twist)

lemma svcRemove_clean:
  "so_ends w = [] \<Longrightarrow> svcRemove path w = (True, w\<lparr>so_files := (so_files w)(path := None)\<rparr>)"
  by (auto simp: svcRemove_def svcOp_def fun_upd_idem)

lemma systemctl_clean:
  "se_run env (so_cmds w) (''systemctl'' # args) = (True, out) \<Longrightarrow>
     systemctl env args w = (None, w\<lparr>so_cmds := so_cmds w @ [''systemctl'' # args]\<rparr>)"
  by (simp add: systemctl_def runSvcCmd_def Let_def)

lemma normalized_fields:
  "ic_BinaryPath (normalized env c) = ic_BinaryPath c" "ic_Prefix c = [] \<Longrightarrow> ic_Prefix (normalized env c) = se_prefixVar env"
  by (auto simp: normalized_def Let_def)

lemma fun_upd_undone: "f(gt := z, ut := z, u := z, g := z) = f(g := z, gt := z, u := z, ut := z)"
  by (auto simp: fun_eq_iff)

lemma systemctl_runs:
  "fst (se_run env (so_cmds v) (''systemctl'' # args)) \<Longrightarrow>
     systemctl env args v = (None, v\<lparr>so_cmds := so_cmds v @ [''systemctl'' # args]\<rparr>)"
  by (cases "se_run env (so_cmds v) (''systemctl'' # args)") (simp add: systemctl_clean)

lemma GuardPath_default: "GuardPath ''linux'' [] = LinuxGuardPath" "LinuxGuardPath \<noteq> []"
  by (simp_all add: GuardPath_def DefaultGuardPath_def LinuxGuardPath_def)

lemma installLinux_clean:
  assumes "so_ends w = []" and "ic_Prefix cfg = []" and "se_prefixVar env = []" and "trimSpace (ic_BinaryPath cfg) \<noteq> []"
    and "\<And>cs args. fst (se_run env cs args)"
  shows "installLinux env cfg w = (None, w\<lparr>so_files := (so_files w)(LinuxGuardPath \<mapsto> (se_guardScript env, 493),
      LinuxGuardPath @ ''.tmp'' := None, UnitPath [] \<mapsto> (RenderSystemdUnit env (normalized env cfg), 420), UnitPath [] @ ''.tmp'' := None),
      so_cmds := so_cmds w @ [[''systemctl'', ''daemon-reload''], [''systemctl'', ''enable'', ''--now'', serviceName]]\<rparr>)"
proof -
  define c where "c = normalized env cfg"
  have c: "ic_Prefix c = []" "validateInstall c = None"
    using assms(2-4) by (simp_all add: c_def validateInstall_def normalized_fields)
  have w: "writeGuard env ''linux'' [] w =
      (True, w\<lparr>so_files := (so_files w)(LinuxGuardPath \<mapsto> (se_guardScript env, 493), LinuxGuardPath @ ''.tmp'' := None)\<rparr>)"
    using assms(1) GuardPath_default by (simp only: writeGuard_def if_False writeFileAtomic_clean)
  show ?thesis
    unfolding installLinux_def c_def [symmetric] c w Let_def prod.case option.case
    using assms(1,5) by (simp add: writeFileAtomic_clean systemctl_runs)
qed

text \<open>
  Uninstalling undoes an install: both report success, the definition and the guard are gone, every other
  file is as before, and systemd is told to reload after each change.
\<close>

theorem uninstall_undoes_install:
  assumes "so_ends w = []" and "ic_Prefix cfg = []" and "se_prefixVar env = []" and "trimSpace (ic_BinaryPath cfg) \<noteq> []"
    and "\<And>cs args. fst (se_run env cs args)"
  shows "let (r1, w1) = installLinux env cfg w; (r2, w2) = uninstallLinux env w1;
      unit = UnitPath []; guard = LinuxGuardPath in
    r1 = None \<and> r2 = None \<and>
    so_files w2 = (so_files w)(guard := None, guard @ ''.tmp'' := None, unit := None, unit @ ''.tmp'' := None) \<and>
    so_cmds w2 = so_cmds w @ map ((#) ''systemctl'')
      [[''daemon-reload''], [''enable'', ''--now'', serviceName], [''disable'', ''--now'', serviceName],
       [''daemon-reload''], [''reset-failed'', serviceName]]"
proof -
  have "uninstallLinux env (v\<lparr>so_cmds := cs\<rparr>) = (None, v\<lparr>so_files := (so_files v)(UnitPath [] := None, LinuxGuardPath := None),
      so_cmds := cs @ [[''systemctl'', ''disable'', ''--now'', serviceName], [''systemctl'', ''daemon-reload''],
        [''systemctl'', ''reset-failed'', serviceName]]\<rparr>)" if "so_ends v = []" for v cs
    using that assms(3,5) GuardPath_default by (simp add: uninstallLinux_def systemctl_runs svcRemove_clean removeGuard_def)
  from this [of "w\<lparr>so_files := f\<rparr>" for f] show ?thesis
    using assms(1) by (simp add: installLinux_clean [OF assms] Let_def) (rule fun_upd_undone)
qed

section \<open>The line launchd runs\<close>

text \<open>
  How the shell reads a word: within single quotes every character stands for itself, outside a
  backslash quotes the next one, and a blank or an operator ends the word.
\<close>

definition shEnds :: "char \<Rightarrow> bool" where
  "shEnds c \<longleftrightarrow> c \<in> set ('' ;&|<>()'' @ [CHR 0x09, CHR 0x0A])"

fun shRead :: "bool \<Rightarrow> string \<Rightarrow> string \<times> string" where
  "shRead q [] = ([], [])"
| "shRead True (c # cs) = (if c = CHR 0x27 then shRead False cs else (let (w, r) = shRead True cs in (c # w, r)))"
| "shRead False (c # cs) =
     (if c = CHR 0x27 then shRead True cs
      else if c = CHR 0x5C then
        (case cs of [] \<Rightarrow> ([c], []) | x # xs \<Rightarrow> let (w, r) = shRead False xs in (if x = CHR 0x0A then w else x # w, r))
      else if shEnds c then ([], c # cs)
      else let (w, r) = shRead False cs in (c # w, r))"

lemma shRead_shorter: "length (snd (shRead q s)) \<le> length s"
proof (induction q s rule: shRead.induct)
  case (2 c cs)
  then show ?case by (cases "c = CHR 0x27") (simp_all add: split_beta)
next
  case (3 c cs)
  show ?case
  proof (cases "c = CHR 0x27")
    case True
    with 3(1) show ?thesis by simp
  next
    case quote: False
    show ?thesis
    proof (cases "c = CHR 0x5C")
      case True
      with quote 3(2) show ?thesis by (cases cs) (simp_all add: split_beta)
    next
      case False
      with quote 3(3) show ?thesis by (cases "shEnds c") (simp_all add: split_beta)
    qed
  qed
qed simp

function shWords :: "string \<Rightarrow> string list" where
  "shWords s = (case shRead False s of (w, []) \<Rightarrow> [w] | (w, c # r) \<Rightarrow> if c = CHR '' '' then w # shWords r else [w])"
  by auto
termination
proof (relation "measure length")
  fix s w :: string and r' c r
  assume "(w, r') = shRead False s" "r' = c # r"
  then show "(r, s) \<in> measure length" using shRead_shorter [of False s] by (metis Suc_le_lessD in_measure length_Cons snd_conv)
qed simp

declare shWords.simps [simp del]

lemma shRead_quoted:
  "shRead True (concat (map (\<lambda>c. if c = CHR 0x27 then [CHR 0x27, CHR 0x5C, CHR 0x27, CHR 0x27] else [c]) s) @ CHR 0x27 # rest) =
     (s @ fst (shRead False rest), snd (shRead False rest))"
  by (induction s) (auto simp: Let_def)

lemma shRead_shQuote:
  "shRead False (shQuote s @ rest) = (s @ fst (shRead False rest), snd (shRead False rest))"
  by (simp add: shQuote_def shRead_quoted del: append.simps(2)) (simp add: shRead_quoted)

lemma shWords_quoted: "ws \<noteq> [] \<Longrightarrow> shWords (joinWith '' '' (map shQuote ws)) = ws"
proof (induction ws rule: induct_list012)
  case (2 w)
  then show ?case using shRead_shQuote [of w "[]"] by (simp add: shWords.simps)
next
  case (3 w v ws)
  then show ?case
    using shRead_shQuote [of w "'' '' @ joinWith '' '' (map shQuote (v # ws))"]
    by (simp add: shWords.simps [of "shQuote w @ _"] shEnds_def)
qed simp

text \<open>
  The command line given to launchd is read back by the shell as the installed binary and exactly its
  arguments, whatever characters they hold, quotes, blanks and dollar signs included.
\<close>

theorem launchd_exec_words:
  "\<exists>check words. launchdProgramArguments c = [''/bin/sh'', ''-c'', check @ ''; exec '' @ words] \<and>
     shWords words = ic_BinaryPath c # ic_Args c"
proof -
  have "shWords (joinWith '' '' (map shQuote (ic_BinaryPath c # ic_Args c))) = ic_BinaryPath c # ic_Args c"
    by (rule shWords_quoted) simp
  then show ?thesis
    by (intro exI [of _ "''[ -x '' @ shQuote DarwinGuardPath @ '' ] && '' @ shQuote DarwinGuardPath @ '' check '' @ shQuote (ic_BinaryPath c)"]
        exI [of _ "joinWith '' '' (map shQuote (ic_BinaryPath c # ic_Args c))"]) (simp add: launchdProgramArguments_def Let_def)
qed

section \<open>The service manager of Windows is kept informed\<close>

lemma awaitStop_checkpoints: "\<exists>k. fst (awaitStop n es) = map (\<lambda>i. StopPending i 10000) [n..<n + k]"
proof (induction n es rule: awaitStop.induct)
  case (3 n es)
  then obtain k where "fst (awaitStop (n + 1) es) = map (\<lambda>i. StopPending i 10000) [n + 1..<n + 1 + k]" by blast
  then show ?case
    by (intro exI [of _ "Suc k"]) (simp add: split_beta upt_rec [of n] millisOf_def checkpointEvery_def second_def)
qed (auto intro: exI [of _ 0])

lemma serveLoop_shape:
  assumes "serveLoop es = (out, Some code)"
  shows "\<exists>k. out = replicate k CurrentStatus @ [ServiceStopped] \<or>
    (\<exists>m. out = replicate k CurrentStatus @ [StopPending 1 10000, CancelWork] @ map (\<lambda>i. StopPending i 10000) [2..<2 + m] @ [ServiceStopped])"
  using assms
proof (induction es arbitrary: out rule: serveLoop.induct)
  case (2 c es)
  then show ?case by (intro exI [of _ 0]) auto
next
  case (3 c es)
  show ?case
  proof (cases "c = CmdInterrogate")
    case True
    with 3(3) obtain out' where o: "serveLoop es = (out', Some code)" "out = CurrentStatus # out'"
      by (auto simp: split_beta prod_eq_iff)
    from 3(1) [OF True o(1)] obtain k where "out' = replicate k CurrentStatus @ [ServiceStopped] \<or>
      (\<exists>m. out' = replicate k CurrentStatus @ [StopPending 1 10000, CancelWork] @ map (\<lambda>i. StopPending i 10000) [2..<2 + m] @ [ServiceStopped])"
      by blast
    with o(2) show ?thesis by (intro exI [of _ "Suc k"]) auto
  next
    case False
    obtain m where m: "fst (awaitStop 2 es) = map (\<lambda>i. StopPending i 10000) [2..<2 + m]" using awaitStop_checkpoints by blast
    show ?thesis
    proof (cases "c = CmdStop \<or> c = CmdShutdown")
      case True
      with False 3(3) m have "out = [StopPending 1 10000, CancelWork] @ map (\<lambda>i. StopPending i 10000) [2..<2 + m] @ [ServiceStopped]"
        by (auto simp: split_beta millisOf_def checkpointEvery_def second_def)
      then show ?thesis by (intro exI [of _ 0]) auto
    next
      case False
      with \<open>c \<noteq> CmdInterrogate\<close> 3(3) show ?thesis by (intro 3(2)) simp_all
    qed
  qed
qed simp_all

text \<open>
  The status reports of the Windows service follow the protocol of the control manager: it is pending, then
  running; a stop is announced before the agent is cancelled, with check points that count up from
  one while it drains; and the last report is that it has stopped.
\<close>

theorem executeHost_protocol:
  assumes "executeHost es = (out, Some code)"
  shows "\<exists>k stop. out = [StartPending 20000, ServiceRunning] @ replicate k CurrentStatus @ stop @ [ServiceStopped] \<and>
    (stop = [] \<or> (\<exists>m. stop = [StopPending 1 10000, CancelWork] @ map (\<lambda>i. StopPending i 10000) [2..<2 + m]))"
proof -
  obtain out' where o: "serveLoop es = (out', Some code)" "out = [StartPending 20000, ServiceRunning] @ out'"
    using assms by (auto simp: executeHost_def split_beta prod_eq_iff millisOf_def startupGrace_def second_def)
  from serveLoop_shape [OF o(1)] o(2) show ?thesis by fastforce
qed

text \<open>An install that succeeds has told the service manager to restart the agent after every exit that is
  not clean, and to run no command of its own.\<close>

lemma scmSteps_None: "scmSteps scm steps cs = (None, cs') \<Longrightarrow> cs' = cs @ map fst steps"
  by (induction scm steps cs rule: scmSteps.induct) (auto split: if_splits)

theorem windows_install_recovers:
  assumes "installWindows scm esc env cfg = (None, cs)" and "ic_Prefix (normalized env cfg) = []"
  shows "\<exists>reg. cs = [ScmConnect, ScmOpen] @ reg @
    [ScmActions [5, 30, 60] 86400, ScmCommand [], ScmNonCrash True, ScmStart] \<and>
    (reg = [ScmReadConfig, ScmUpdate (binaryPathName esc (normalized env cfg)) DisplayName Description] \<or>
     reg = [ScmCreate (ic_BinaryPath cfg) (ic_Args (normalized env cfg)) DisplayName Description])"
  using assms
  by (auto simp: installWindows_def scmStart_def recoveryResetPeriod_def normalized_fields Let_def
      split: option.splits if_splits prod.splits dest!: scmSteps_None)

text \<open>launchd prints \<open>state = not running\<close> for a daemon that is stopped, which \<open>Status\<close> takes for running.\<close>

lemma stopped_daemon_reported_running:
  assumes "so_files w (PlistPath (se_prefixVar env)) \<noteq> None"
    and "se_run env (so_cmds w) [''/bin/launchctl'', ''print'', serviceTarget] = (True, ''state = not running'')"
  shows "fst (statusDarwin env w) = ''running''"
proof -
  have "launchdState (splitOn CHR 0x0A ''state = not running'') = Some ''running''" by code_simp
  then show ?thesis using assms by (simp add: statusDarwin_def runSvcCmd_def)
qed

end
