(* ===== verification/Agent_Start.thy ===== *)
theory Agent_Start
  imports Config_State Update_Apply Svc_Install
begin

text \<open>
  The commands of the agent, \<open>agent/internal/cli\<close>: how \<open>run\<close> starts (\<open>runAgent\<close> of \<open>cli.go\<close> up to the
  connection), and \<open>install\<close>, \<open>uninstall\<close> and \<open>update-finalize\<close> of \<open>install.go\<close>, composed of the operations
  of the other theories.

  The state file lives in the directories of \<open>Config_State\<close>, the record of an update and the binaries
  on the disk of \<open>Update_Tracker\<close>. Flags are given parsed; what is printed or logged is an event or is
  left out.
\<close>

section \<open>Starting\<close>

record start_env =
  sv_host :: host_env
  sv_move :: move_env
  sv_secureFails :: bool
  sv_os :: goos
  sv_now :: gtime
  sv_json :: json_config
  sv_disk :: disk_env
  sv_renew :: renew_env
  sv_connectFails :: bool

datatype start_end = StartExit int | AgentUp config identity_mode

datatype start_event =
    NoStateDir | MigrationFailed | StateMigrated | SecureFailed | RollbackFailed | RolledBackNow | ConfigUnreadable
  | ConfigNotEnrolled | ModeUnknown | RenewedAtStartup | RefusedAtStartup | RenewFailedAtStartup | ConnectFailed | AgentStarted

definition migrateEvents :: "bool \<times> migrate_error option \<Rightarrow> start_event list" where
  "migrateEvents r = (if snd r \<noteq> None then [MigrationFailed] else if fst r then [StateMigrated] else [])"

fun renewEvent :: "renew_end \<Rightarrow> start_event" where
  "renewEvent RenewOK = RenewedAtStartup"
| "renewEvent RenewRefused = RefusedAtStartup"
| "renewEvent (RenewFailed e) = RenewFailedAtStartup"

definition startConfigured :: "start_env \<Rightarrow> string \<Rightarrow> dirs \<Rightarrow> start_end \<times> start_event list \<times> dirs" where
  "startConfigured env dir fs =
     (case LoadFrom (sv_json env) (sv_disk env) dir fs of
        None \<Rightarrow> (StartExit 1, [ConfigUnreadable], fs)
      | Some cfg \<Rightarrow>
          if \<not> Enrolled cfg then (StartExit 1, [ConfigNotEnrolled], fs)
          else let (mode, mErr) = ParseMode (EffectiveNetworkIdentity cfg);
                   (r, cfg', fs') = Renew (sv_json env) (sv_disk env) (sv_renew env) dir (cfg, fs);
                   evs = (if mErr \<noteq> None then [ModeUnknown] else []) @ [renewEvent r]
            in if sv_connectFails env then (StartExit 1, evs @ [ConnectFailed], fs')
               else (AgentUp cfg' mode, evs @ [AgentStarted], fs'))"

definition runAgent :: "start_env \<Rightarrow> dirs \<Rightarrow> udisk \<Rightarrow> start_end \<times> start_event list \<times> dirs \<times> udisk" where
  "runAgent env fs d =
     (case stateDirOf (sv_host env) of
        None \<Rightarrow> (StartExit 1, [NoStateDir], fs, d)
      | Some dir \<Rightarrow>
          let (mig, fs1) = MigrateLegacyState (sv_move env) (sv_host env) fs;
              fs2 = (if sv_secureFails env then fs1 else mkdirAll dir fs1);
              evs = migrateEvents mig @ (if sv_secureFails env then [SecureFailed] else []);
              ((rolledBack, rbErr), d1) = CheckAndRollback (sv_os env) (sv_now env) d
          in if rbErr = None \<and> rolledBack then (StartExit 1, evs @ [RolledBackNow], fs2, d1)
             else let (r, evs', fs3) = startConfigured env dir fs2
               in (r, evs @ (if rbErr \<noteq> None then [RollbackFailed] else []) @ evs', fs3, d1))"

text \<open>The end of \<open>runAgent\<close>: the code its process exits with.\<close>

definition agentExit :: "start_end \<Rightarrow> bool \<Rightarrow> wake \<Rightarrow> int" where
  "agentExit r ctxEnded w = (case r of StartExit code \<Rightarrow> code | AgentUp cfg mode \<Rightarrow> exitCodeFor (waitForShutdown ctxEnded w))"

section \<open>Installing\<close>

text \<open>Windows does not replace the binary of a running service; the old file is moved aside first.\<close>

definition moveAside :: "goos \<Rightarrow> string \<Rightarrow> udisk \<Rightarrow> udisk" where
  "moveAside os dest d =
     (if os = Windows \<and> ud_bin d dest \<noteq> None
      then snd (renameFile dest (BackupPath os dest) (removeFile (BackupPath os dest) d)) else d)"

definition installBinary :: "goos \<Rightarrow> string option \<Rightarrow> string \<Rightarrow> udisk \<Rightarrow> bool \<times> udisk" where
  "installBinary os exe dest d =
     (case exe of
        None \<Rightarrow> (False, d)
      | Some src \<Rightarrow>
          if sameFile src dest d then (True, d)
          else let (mk, d1) = fileOp d in
            if \<not> mk then (False, d1)
            else (case ud_bin d1 src of
               None \<Rightarrow> (False, d1)
             | Some b \<Rightarrow>
                 let tmp = dest @ ''.new''; (opened, d2) = fileOp d1 in
                 if \<not> opened then (False, d2)
                 else let (copied, d3) = fileOp d2 in
                   if \<not> copied then (False, removeFile tmp (d3\<lparr>ud_bin := (ud_bin d3)(tmp \<mapsto> [])\<rparr>))
                   else let d4 = d3\<lparr>ud_bin := (ud_bin d3)(tmp \<mapsto> b)\<rparr>; (closed, d5) = fileOp d4 in
                     if \<not> closed then (False, removeFile tmp d5)
                     else let (placed, d7) = renameFile tmp dest (moveAside os dest d5)
                       in if \<not> placed then (False, removeFile tmp d7) else fileOp d7))"

record install_flags =
  fl_parseFails :: bool
  fl_server :: string
  fl_token :: string
  fl_dest :: string
  fl_skipService :: bool
  fl_force :: bool

record install_env =
  iv_host :: host_env
  iv_exe :: "string option"
  iv_json :: json_config
  iv_disk :: disk_env
  iv_enroll :: enroll_env
  iv_version :: string
  iv_svc :: svc_env
  iv_scm :: scm
  iv_esc :: "string \<Rightarrow> string"

record install_world =
  iw_bin :: udisk
  iw_dirs :: dirs
  iw_svc :: svc_world
  iw_scm :: "scm_call list"

definition hostOS :: "host_env \<Rightarrow> goos" where
  "hostOS h = (if he_goos h = ''windows'' then Windows else Unix)"

definition requireAdmin :: "host_env \<Rightarrow> bool" where
  "requireAdmin h \<longleftrightarrow> he_goos h = ''windows'' \<or> he_root h"

text \<open>\<open>svc.Install\<close> and \<open>svc.Uninstall\<close> of the platform the agent is built for.\<close>

definition svcInstall :: "install_env \<Rightarrow> install_config \<Rightarrow> install_world \<Rightarrow> svc_error option \<times> install_world" where
  "svcInstall env c w =
     (let g = he_goos (iv_host env) in
      if g = ''linux'' then (let (e, v) = installLinux (iv_svc env) c (iw_svc w) in (e, w\<lparr>iw_svc := v\<rparr>))
      else if g = ''darwin'' then (let (e, v) = installDarwin (iv_svc env) c (iw_svc w) in (e, w\<lparr>iw_svc := v\<rparr>))
      else if g = ''windows'' then (let (e, cs) = installWindows (iv_scm env) (iv_esc env) (iv_svc env) c in (e, w\<lparr>iw_scm := iw_scm w @ cs\<rparr>))
      else (Some ErrUnsupported, w))"

definition svcUninstall :: "install_env \<Rightarrow> install_world \<Rightarrow> svc_error option \<times> install_world" where
  "svcUninstall env w =
     (let g = he_goos (iv_host env) in
      if g = ''linux'' then (let (e, v) = uninstallLinux (iv_svc env) (iw_svc w) in (e, w\<lparr>iw_svc := v\<rparr>))
      else if g = ''darwin'' then (let (e, v) = uninstallDarwin (iv_svc env) (iw_svc w) in (e, w\<lparr>iw_svc := v\<rparr>))
      else if g = ''windows'' then (let (e, cs) = uninstallWindows (iv_scm env) (iv_svc env) in (e, w\<lparr>iw_scm := iw_scm w @ cs\<rparr>))
      else (Some ErrUnsupported, w))"

definition installEnroll :: "install_env \<Rightarrow> install_flags \<Rightarrow> string \<Rightarrow> dirs \<Rightarrow> bool \<times> dirs" where
  "installEnroll env fl dir fs =
     (case LoadFrom (iv_json env) (iv_disk env) dir fs of
        None \<Rightarrow> (False, fs)
      | Some cfg \<Rightarrow>
          if fl_server fl \<noteq> [] \<and> (\<not> Enrolled cfg \<or> fl_force fl) then
            (case Enroll (iv_json env) (iv_disk env) (iv_enroll env) dir (fl_server fl) (fl_token fl) (iv_version env) fs of
               (None, fs') \<Rightarrow> (True, fs')
             | (Some e, fs') \<Rightarrow> (False, fs'))
          else (True, fs))"

definition CmdInstall :: "install_env \<Rightarrow> install_flags \<Rightarrow> install_world \<Rightarrow> int \<times> install_world" where
  "CmdInstall env fl w =
     (if fl_parseFails fl then (2, w)
      else if \<not> requireAdmin (iv_host env) then (1, w)
      else if fl_dest fl = [] then (2, w)
      else if (fl_server fl = []) \<noteq> (fl_token fl = []) then (2, w)
      else let (ok1, d1) = installBinary (hostOS (iv_host env)) (iv_exe env) (fl_dest fl) (iw_bin w); w1 = w\<lparr>iw_bin := d1\<rparr> in
        if \<not> ok1 then (1, w1)
        else (case stateDirOf (iv_host env) of
           None \<Rightarrow> (1, w1)
         | Some dir \<Rightarrow>
             let (ok2, fs) = installEnroll env fl dir (iw_dirs w1); w2 = w1\<lparr>iw_dirs := fs\<rparr> in
             if \<not> ok2 then (1, w2)
             else if fl_skipService fl then (0, w2)
             else (case svcInstall env \<lparr>ic_BinaryPath = fl_dest fl, ic_Args = [], ic_StateDir = [], ic_Prefix = []\<rparr> w2 of
                (Some e, w3) \<Rightarrow> (1, w3)
              | (None, w3) \<Rightarrow> (0, w3))))"

text \<open>The path \<open>removeTree\<close> deletes, \<open>None\<close> when it refuses; the volume name of a path is the argument \<open>vol\<close>.
  \<open>left\<close> is what a deletion that fails leaves; one that succeeds takes the directory and all below it.\<close>

definition treeOf :: "(string \<Rightarrow> string) \<Rightarrow> string \<Rightarrow> string option" where
  "treeOf vol dir =
     (let clean = cleanPath (trimSpace dir) in
      if clean = [] \<or> clean = ''.'' \<or> clean = ''/'' then None
      else if vol clean \<noteq> [] \<and> clean = vol clean @ ''/'' then None
      else if \<not> containsSub (toLower clean) ''everwas'' then None
      else Some clean)"

definition removeTree :: "(string \<Rightarrow> string) \<Rightarrow> dirs option \<Rightarrow> string \<Rightarrow> dirs \<Rightarrow> bool \<times> dirs" where
  "removeTree vol left dir fs =
     (case treeOf vol dir of
        None \<Rightarrow> (False, fs)
      | Some clean \<Rightarrow>
          (case left of
             Some fs' \<Rightarrow> (False, fs')
           | None \<Rightarrow> (True, \<lambda>p. if p = clean \<or> hasPrefix p (clean @ ''/'') then None else fs p)))"

definition CmdUninstall :: "install_env \<Rightarrow> (string \<Rightarrow> string) \<Rightarrow> dirs option \<Rightarrow> bool \<Rightarrow> bool \<Rightarrow> install_world \<Rightarrow> int \<times> install_world" where
  "CmdUninstall env vol left parseFails purge w =
     (if parseFails then (2, w)
      else if \<not> requireAdmin (iv_host env) then (1, w)
      else (case svcUninstall env w of
         (Some e, w1) \<Rightarrow> (1, w1)
       | (None, w1) \<Rightarrow>
           if \<not> purge then (0, w1)
           else (case stateDirOf (iv_host env) of
              None \<Rightarrow> (1, w1)
            | Some dir \<Rightarrow>
                let (ok, fs) = removeTree vol left dir (iw_dirs w1); w2 = w1\<lparr>iw_dirs := fs\<rparr> in
                if \<not> ok then (1, w2)
                else let p = DefaultInstallPath (he_goos (iv_host env)) in
                  (0, if p = [] then w2 else w2\<lparr>iw_bin := removeFile p (iw_bin w2)\<rparr>))))"

section \<open>The finalizer\<close>

text \<open>\<open>WaitForExit\<close>: at every poll whether the process has exited and whether the deadline has passed.
  \<open>None\<close> is a wait that is not over.\<close>

fun WaitForExit :: "(bool \<times> bool) list \<Rightarrow> bool option" where
  "WaitForExit [] = None"
| "WaitForExit ((exited, late) # ps) = (if exited then Some True else if late then Some False else WaitForExit ps)"

record finalize_flags =
  ff_parseFails :: bool
  ff_pid :: int
  ff_target :: string
  ff_staged :: string
  ff_stateDir :: string

text \<open>The outcome of the wait, the clock and whether the service could be started are arguments; of the
  error texts the part that says which step failed is kept.\<close>

definition CmdUpdateFinalize :: "goos \<Rightarrow> host_env \<Rightarrow> bool \<Rightarrow> gtime \<Rightarrow> bool \<Rightarrow> finalize_flags \<Rightarrow> udisk \<Rightarrow> int \<times> udisk" where
  "CmdUpdateFinalize os h waited now started fl d =
     (if ff_parseFails fl then (2, d)
      else if ff_target fl = [] \<or> ff_staged fl = [] then (2, d)
      else let dir = (if ff_stateDir fl \<noteq> [] then ff_stateDir fl else case stateDirOf h of Some x \<Rightarrow> x | None \<Rightarrow> []);
               report = (\<lambda>failure d'. if dir = [] then d' else snd (FinalizeOutcome now failure d'))
        in if 0 < ff_pid fl \<and> \<not> waited then (1, report (Some (''waiting for agent pid '' @ itoa (ff_pid fl))) d)
           else (case Swap os (ff_target fl) (ff_staged fl) d of
              (Inl e, d1) \<Rightarrow> (1, report (Some (''swap '' @ ff_target fl)) d1)
            | (Inr s, d1) \<Rightarrow> (if started then 0 else 1, report None d1)))"

section \<open>Rollback comes first\<close>

text \<open>
  C4. A crash-looping update is undone at the start of the agent whatever else is broken: with any
  configuration, readable or not, enrolled or not, with any migration and any server, the third start
  within the crash window puts the previous binary back, ends the probation, and exits for the service
  manager to start it.
\<close>

theorem rollback_before_config:
  assumes "stateDirOf (sv_host env) = Some dir" and "onProbation (sv_os env) st old d" and "2 < crashCount (sv_now env) st d"
  shows "\<exists>evs fs' d'. runAgent env fs d = (StartExit 1, evs @ [RolledBackNow], fs', d') \<and>
    ud_bin d' = (ud_bin d)(BackupPath (sv_os env) (us_Target st) := None, us_Target st \<mapsto> old) \<and>
    ud_probation d' = None \<and> (\<exists>st'. ud_state d' = SavedState st' \<and> us_RolledBack st' \<and> \<not> statePending st')"
proof -
  have f: "ud_faults d = []" using assms(2) by (simp add: onProbation_def)
  note step = CheckAndRollback_step [OF assms(2), of "sv_now env"]
  obtain mig fs1 where m: "MigrateLegacyState (sv_move env) (sv_host env) fs = (mig, fs1)" by fastforce
  show ?thesis
    using assms(1,3) f by (simp add: runAgent_def m step Deny_ok Let_def rolledBackState_def statePending_def)
qed

definition exStart :: start_env where
  "exStart = \<lparr>sv_host = \<lparr>he_stateDir = [], he_goos = ''linux'', he_root = True, he_home = None\<rparr>,
     sv_move = \<lparr>mv_mkdirFails = False, mv_renameFails = False\<rparr>, sv_secureFails = False, sv_os = Unix, sv_now = 3 * second,
     sv_json = exJSON, sv_disk = exDisk, sv_renew = \<lparr>rn_server = (\<lambda>_ _. HttpFailed False), rn_decode = (\<lambda>_. None)\<rparr>,
     sv_connectFails = False\<rparr>"

theorem rollback_before_config_witness:
  "\<exists>evs fs' d'. runAgent (exStart\<lparr>sv_disk := exDisk\<lparr>de_readFails := True\<rparr>\<rparr>) exFiles demoDisk = (StartExit 1, evs @ [RolledBackNow], fs', d') \<and>
     ud_bin d' ''/agent'' = Some ''good''"
proof -
  let ?env = "exStart\<lparr>sv_disk := exDisk\<lparr>de_readFails := True\<rparr>\<rparr>"
  have "stateDirOf (sv_host ?env) = Some ''/etc/everwas''" by (simp add: exStart_def stateDirOf_def)
  moreover have "onProbation (sv_os ?env) demoState ''good'' demoDisk" using demo_onProbation by (simp add: exStart_def)
  moreover have "2 < crashCount (sv_now ?env) demoState demoDisk"
    by (simp add: exStart_def crashCount_def demoState_def demoDisk_def countStarts_def lastN_def maxStartsTracked_def
        subT_def second_def CrashWindow_def externalStarts_def)
  ultimately show ?thesis using rollback_before_config [of ?env _ demoState "''good''" demoDisk exFiles]
    by (fastforce simp: demoState_def)
qed

text \<open>
  A rollback that put the previous binary back but could not record the denial reports an error beside
  its success; the start looks at the error first and goes on, so the build that crashes keeps running
  although the binary on disk is the previous one.
\<close>

lemma half_rollback_runs_on:
  assumes "stateDirOf (sv_host env) = Some dir" and "CheckAndRollback (sv_os env) (sv_now env) d = ((True, Some e), d1)"
  shows "\<exists>evs fs2. runAgent env fs d = (fst (startConfigured env dir fs2), evs, snd (snd (startConfigured env dir fs2)), d1) \<and>
    RollbackFailed \<in> set evs"
proof -
  obtain mig fs1 where m: "MigrateLegacyState (sv_move env) (sv_host env) fs = (mig, fs1)" by fastforce
  show ?thesis
    using assms by (intro exI [of _ "fst (snd (runAgent env fs d))"] exI [of _ "if sv_secureFails env then fs1 else mkdirAll dir fs1"])
      (simp add: runAgent_def m Let_def split_beta)
qed

lemma half_rollback_happens:
  "let (r, d1) = CheckAndRollback Unix (3 * second) (demoDisk\<lparr>ud_faults := replicate 5 False @ [True]\<rparr>) in
     fst r \<and> \<not> Option.is_none (snd r) \<and> ud_bin d1 ''/agent'' = Some ''good'' \<and> \<not> Option.is_none (ud_probation d1)"
  by code_simp

section \<open>The identity survives every start\<close>

lemma LoadFrom_content: "contentOf fs' dir stateFileName = contentOf fs dir stateFileName \<Longrightarrow> LoadFrom js e dir fs' = LoadFrom js e dir fs"
  by (simp add: LoadFrom_def)

lemma LoadFrom_mkdirAll [simp]: "LoadFrom js e p (mkdirAll dir fs) = LoadFrom js e p fs"
  by (rule LoadFrom_content) (auto simp: contentOf_def mkdirAll_def)

lemma LoadFrom_reader: "LoadFrom js e1 dir fs = Some c \<Longrightarrow> \<not> de_readFails e2 \<Longrightarrow> LoadFrom js e2 dir fs = Some c"
  by (auto simp: LoadFrom_def split: option.splits if_splits)

lemma enrolled_content: "LoadFrom js e dir fs = Some c \<Longrightarrow> Enrolled c \<Longrightarrow> contentOf fs dir stateFileName \<noteq> None"
  by (auto simp: LoadFrom_def Enrolled_def emptyConfig_def split: option.splits)

lemma startConfigured_keeps:
  assumes "faithfulJSON (sv_json env)" and "\<not> de_readFails renv"
    and "LoadFrom (sv_json env) renv dir fs = Some c" and "Enrolled c" and "startConfigured env dir fs = (r, evs, fs')"
  shows "\<exists>c'. LoadFrom (sv_json env) renv dir fs' = Some c' \<and> sameIdentity c c' \<and> Enrolled c' \<and>
    (\<forall>cfg mode. r = AgentUp cfg mode \<longrightarrow> sameIdentity c cfg \<and> Enrolled cfg)"
proof (cases "LoadFrom (sv_json env) (sv_disk env) dir fs")
  case None
  with assms show ?thesis by (auto simp: startConfigured_def sameIdentity_def)
next
  case (Some cfg)
  then have [simp]: "cfg = c" using LoadFrom_reader [OF Some assms(2)] assms(3) by simp
  obtain r' cfg' fs1 where ren: "Renew (sv_json env) (sv_disk env) (sv_renew env) dir (c, fs) = (r', cfg', fs1)"
    by (metis prod_cases3)
  have "sameIdentity c c" by (simp add: sameIdentity_def)
  from renewals_step [OF assms(1,2,3) this assms(4,4) ren] obtain c' where
    "LoadFrom (sv_json env) renv dir fs1 = Some c'" "sameIdentity c c'" "sameIdentity c cfg'" "Enrolled c'" "Enrolled cfg'" by blast
  with assms(4,5) Some ren show ?thesis
    by (auto simp: startConfigured_def Let_def split: prod.splits if_splits)
qed

lemma runAgent_dirs:
  assumes "stateDirOf (sv_host env) = Some dir" and "runAgent env fs d = (r, evs, fs', d')"
  shows "\<exists>fs2. (fs' = fs2 \<and> (\<exists>code. r = StartExit code) \<or> (\<exists>evs'. startConfigured env dir fs2 = (r, evs', fs'))) \<and>
    (\<exists>mig fs1. MigrateLegacyState (sv_move env) (sv_host env) fs = (mig, fs1) \<and> fs2 \<in> {fs1, mkdirAll dir fs1})"
proof -
  obtain mig fs1 where m: "MigrateLegacyState (sv_move env) (sv_host env) fs = (mig, fs1)" by fastforce
  let ?fs2 = "if sv_secureFails env then fs1 else mkdirAll dir fs1"
  obtain rb e d1 where c: "CheckAndRollback (sv_os env) (sv_now env) d = ((rb, e), d1)" by (metis prod.collapse)
  obtain r' evs' fs3 where s: "startConfigured env dir ?fs2 = (r', evs', fs3)" by (metis prod_cases3)
  have "fs' = ?fs2 \<and> (\<exists>code. r = StartExit code) \<or> (\<exists>evs'. startConfigured env dir ?fs2 = (r, evs', fs'))"
    using assms s by (auto simp: runAgent_def m c Let_def split: if_splits)
  then show ?thesis using m by (intro exI [of _ ?fs2]) auto
qed

text \<open>
  C5. No start of the agent costs a machine its identity. If the state directory holds an enrolled
  configuration, or the directory from before the rename does and the new one has none, then after any
  start, however the migration, the rollback, the disk, the renewal or the connection go, that identity
  is still loaded from the new directory, or, when it could not be moved, from the old one; and an agent
  that comes up runs under it.
\<close>

theorem start_keeps_identity:
  assumes "faithfulJSON (sv_json env)" and "\<not> de_readFails renv" and "stateDirOf (sv_host env) = Some dir"
    and "LoadFrom (sv_json env) renv p fs = Some c" and "Enrolled c"
    and "p = dir \<or> p = legacyDir (sv_host env) \<and> p \<noteq> [] \<and> contentOf fs dir stateFileName = None"
    and "runAgent env fs d = (r, evs, fs', d')"
  shows "\<exists>c' q. (q = dir \<or> q = p) \<and> LoadFrom (sv_json env) renv q fs' = Some c' \<and> sameIdentity c c' \<and> Enrolled c' \<and>
    (\<forall>cfg mode. r = AgentUp cfg mode \<longrightarrow> q = dir \<and> sameIdentity c cfg \<and> Enrolled cfg)"
proof -
  have held: "contentOf fs p stateFileName \<noteq> None" by (rule enrolled_content [OF assms(4,5)])
  from runAgent_dirs [OF assms(3,7)] obtain fs2 mig fs1 where
    ends: "fs' = fs2 \<and> (\<exists>code. r = StartExit code) \<or> (\<exists>evs'. startConfigured env dir fs2 = (r, evs', fs'))"
    and m: "MigrateLegacyState (sv_move env) (sv_host env) fs = (mig, fs1)" and fs2: "fs2 \<in> {fs1, mkdirAll dir fs1}" by blast
  have l2: "LoadFrom (sv_json env) e q fs2 = LoadFrom (sv_json env) e q fs1" for e q using fs2 by auto
  show ?thesis
  proof (cases "LoadFrom (sv_json env) renv dir fs1 = Some c")
    case True
    from ends show ?thesis
    proof (elim disjE exE conjE)
      fix code assume "fs' = fs2" "r = StartExit code"
      with True assms(5) l2 show ?thesis by (intro exI [of _ c] exI [of _ dir]) (simp add: sameIdentity_def)
    next
      fix evs' assume "startConfigured env dir fs2 = (r, evs', fs')"
      from startConfigured_keeps [OF assms(1,2) _ assms(5) this] True l2 show ?thesis by auto
    qed
  next
    case False
    have "p \<noteq> dir" "fs1 = fs"
      using False m assms(3,4,6) held by (auto simp: MigrateLegacyState_def migrateState_def LoadFrom_def contentOf_def split: if_splits)
    moreover have "contentOf fs2 dir stateFileName = None"
      using fs2 \<open>fs1 = fs\<close> \<open>p \<noteq> dir\<close> assms(6) by (auto simp: contentOf_def mkdirAll_def)
    ultimately have "fs' = fs2 \<and> (\<exists>code. r = StartExit code)"
      using ends by (auto simp: startConfigured_def LoadFrom_def Enrolled_def emptyConfig_def)
    with assms(4,5) l2 \<open>fs1 = fs\<close> show ?thesis by (intro exI [of _ c] exI [of _ p]) (auto simp: sameIdentity_def)
  qed
qed

theorem start_keeps_identity_witness:
  "\<exists>c' q. LoadFrom exJSON exDisk q (fst (snd (snd (runAgent exStart exFiles (demoDisk\<lparr>ud_state := NoStateFile\<rparr>))))) = Some c' \<and>
     cf_AgentID c' = ''a1'' \<and> Enrolled c'"
proof -
  obtain r evs fs' d' where run: "runAgent exStart exFiles (demoDisk\<lparr>ud_state := NoStateFile\<rparr>) = (r, evs, fs', d')"
    by (metis prod_cases4)
  have "stateDirOf (sv_host exStart) = Some ''/etc/everwas''" "sv_json exStart = exJSON" "\<not> de_readFails exDisk" "Enrolled exCfg"
    by (simp_all add: exStart_def stateDirOf_def exDisk_def exCfg_def Enrolled_def emptyConfig_def)
  with start_keeps_identity [of exStart exDisk "''/etc/everwas''" "''/etc/everwas''" exFiles exCfg, OF _ _ _ _ _ _ run]
    exJSON_faithful exFiles_load run show ?thesis by (force simp: sameIdentity_def exCfg_def emptyConfig_def)
qed

section \<open>The finalizer leaves a record\<close>

lemma calm_ops:
  assumes "ud_faults d = []"
  shows "ud_faults (snd (renameFile a b d)) = []" "ud_faults (removeFile a d) = []" "ud_faults (snd (copyFile a b d)) = []"
    "ud_state (snd (renameFile a b d)) = ud_state d" "ud_state (removeFile a d) = ud_state d" "ud_state (snd (copyFile a b d)) = ud_state d"
  using assms by (auto simp: renameFile_def removeFile_def copyFile_def split: option.splits)

lemma Swap_calm:
  assumes "ud_faults d = []"
  shows "ud_faults (snd (Swap os target staged d)) = []" "ud_state (snd (Swap os target staged d)) = ud_state d"
  using assms calm_ops by (simp_all add: Swap_def Let_def split_beta)

lemma FinalizeOutcome_calm:
  assumes "ud_faults d = []" and "ud_state d = SavedState st"
  shows "ud_bin (snd (FinalizeOutcome now failure d)) = ud_bin d"
    "ud_state (snd (FinalizeOutcome now failure d)) = SavedState (st\<lparr>us_Finalizing := False, us_FinalizedAt := now,
       us_FinalizeErr := (case failure of Some m \<Rightarrow> m | None \<Rightarrow> [])\<rparr>)"
  using assms by (auto simp: FinalizeOutcome_def removeProbation_def writeProbation_def Let_def split: option.splits)


definition exFinalize :: finalize_flags where
  "exFinalize = \<lparr>ff_parseFails = False, ff_pid = 7, ff_target = ''/agent'', ff_staged = ''/staged'', ff_stateDir = ''/s''\<rparr>"


section \<open>Installing the binary\<close>

lemma moveAside_spec:
  "ud_bin (moveAside os dest d) dest = ud_bin d dest \<or>
     os = Windows \<and> ud_bin (moveAside os dest d) dest = None \<and> ud_bin (moveAside os dest d) (BackupPath os dest) = ud_bin d dest"
  "ud_bin (moveAside os dest d) (dest @ ''.new'') = ud_bin d (dest @ ''.new'')"
proof -
  let ?b = "BackupPath os dest"
  note ne = paths_apart(1) [of os dest] paths_apart(2) [of dest] paths_apart(3) [of os dest]
  obtain ok d1 where m: "renameFile dest ?b (removeFile ?b d) = (ok, d1)" by fastforce
  have rm: "ud_bin (removeFile ?b d) dest = ud_bin d dest" "ud_bin (removeFile ?b d) (dest @ ''.new'') = ud_bin d (dest @ ''.new'')"
    using ne by (simp_all add: removeFile_other)
  then show "ud_bin (moveAside os dest d) dest = ud_bin d dest \<or>
      os = Windows \<and> ud_bin (moveAside os dest d) dest = None \<and> ud_bin (moveAside os dest d) ?b = ud_bin d dest"
    "ud_bin (moveAside os dest d) (dest @ ''.new'') = ud_bin d (dest @ ''.new'')"
    using m ne renameFile_spec [OF m] by (auto simp: moveAside_def split: if_splits)
qed

text \<open>
  An install cannot leave a truncated executable where the service expects one. Whatever fails, on Unix
  the path holds what it held or the whole running binary; on Windows it may also be empty, but then the
  old binary is beside it under the backup's name. An install that succeeds leaves the running binary.
\<close>

lemma installBinary_safe:
  assumes "installBinary os (Some src) dest d = (ok, d')" and "src \<noteq> dest" and "src \<notin> {dest @ ''.new'', BackupPath os dest}"
  shows "(ud_bin d' dest = ud_bin d dest \<or> ud_bin d' dest = ud_bin d src \<and> ud_bin d src \<noteq> None \<or>
      os = Windows \<and> \<not> ok \<and> ud_bin d' dest = None \<and> ud_bin d' (BackupPath os dest) = ud_bin d dest) \<and>
    (ok \<longrightarrow> ud_bin d' dest = ud_bin d src \<and> ud_bin d src \<noteq> None)"
proof -
  let ?t = "dest @ ''.new''" and ?b = "BackupPath os dest"
  note ne = paths_apart(1) [of os dest] paths_apart(2) [of dest] paths_apart(3) [of os dest]
  have calm: ?thesis if "ud_bin d' dest = ud_bin d dest" "\<not> ok" using that by simp
  have nsame: "\<not> sameFile src dest d" using assms(2) by (simp add: sameFile_def)
  obtain mk d1 where o1: "fileOp d = (mk, d1)" by fastforce
  obtain opn d2 where o2: "fileOp d1 = (opn, d2)" by fastforce
  obtain cp d3 where o3: "fileOp d2 = (cp, d3)" by fastforce
  have bin: "ud_bin d1 = ud_bin d" "ud_bin d2 = ud_bin d" "ud_bin d3 = ud_bin d"
    using fileOp_frame [OF o1] fileOp_frame [OF o2] fileOp_frame [OF o3] by simp_all
  show ?thesis
  proof (cases "mk \<and> opn \<and> cp \<and> ud_bin d src \<noteq> None")
    case False
    with assms(1) nsame o1 o2 o3 bin ne show ?thesis
      by (intro calm) (auto simp: installBinary_def Let_def removeFile_other split: option.splits if_splits)
  next
    case True
    then obtain b where b: "ud_bin d src = Some b" by blast
    let ?d4 = "d3\<lparr>ud_bin := (ud_bin d3)(?t \<mapsto> b)\<rparr>"
    obtain cl d5 where o5: "fileOp ?d4 = (cl, d5)" by fastforce
    obtain pl d7 where o7: "renameFile ?t dest (moveAside os dest d5) = (pl, d7)" by fastforce
    have d5: "ud_bin d5 = (ud_bin d)(?t \<mapsto> b)" using fileOp_frame [OF o5] bin by simp
    have res: "(ok, d') = (if \<not> cl then (False, removeFile ?t d5) else if \<not> pl then (False, removeFile ?t d7) else fileOp d7)"
      using assms(1) nsame True o1 o2 o3 o5 o7 b bin
      by (cases cl) (simp_all add: installBinary_def Let_def)
    note aside = moveAside_spec [of os dest d5]
    show ?thesis
    proof (cases "cl \<and> pl")
      case True
      then have "ud_bin d7 dest = Some b" using renameFile_spec [OF o7] aside(2) d5 by auto
      moreover have "fileOp d7 = (ok, d')" using True res by simp
      ultimately have "ud_bin d' dest = Some b" using fileOp_frame [of d7 ok d'] by simp
      with b show ?thesis by simp
    next
      case False
      then have "\<not> ok" "ud_bin d' dest = ud_bin d5 dest \<or> os = Windows \<and> ud_bin d' dest = None \<and> ud_bin d' ?b = ud_bin d5 dest"
        using res renameFile_spec [OF o7] aside(1) ne by (cases cl; cases pl; simp add: removeFile_other)+
      with d5 ne show ?thesis by auto
    qed
  qed
qed

text \<open>On Windows a failed last step leaves no binary at the path of the service, and nothing puts the old one
  back.\<close>

lemma install_gap:
  "let d = demoDisk\<lparr>ud_bin := [''/agent.exe'' \<mapsto> ''old'', ''/dl'' \<mapsto> ''new''], ud_faults := replicate 6 False @ [True]\<rparr>;
       (ok, d') = installBinary Windows (Some ''/dl'') ''/agent.exe'' d in
     \<not> ok \<and> Option.is_none (ud_bin d' ''/agent.exe'') \<and> ud_bin d' ''/agent.old.exe'' = Some ''old''"
  by code_simp

lemma installEnroll_enrols:
  assumes "installEnroll env fl dir fs = (True, fs')" and "fl_server fl \<noteq> []" and "faithfulJSON (iv_json env)" and "\<not> de_readFails renv"
  shows "\<exists>cfg. LoadFrom (iv_json env) renv dir fs' = Some cfg \<and> Enrolled cfg"
proof -
  from assms(1) obtain cfg where l: "LoadFrom (iv_json env) (iv_disk env) dir fs = Some cfg"
    by (auto simp: installEnroll_def split: option.splits)
  show ?thesis
  proof (cases "Enrolled cfg \<and> \<not> fl_force fl")
    case True
    with assms(1) l have "fs' = fs" by (simp add: installEnroll_def)
    with LoadFrom_reader [OF l assms(4)] True show ?thesis by simp
  next
    case False
    with assms(1,2) l have "Enroll (iv_json env) (iv_disk env) (iv_enroll env) dir (fl_server fl) (fl_token fl) (iv_version env) fs = (None, fs')"
      by (auto simp: installEnroll_def split: option.splits prod.splits)
    from Enroll_enrols [OF assms(3,4) this] show ?thesis by blast
  qed
qed


definition exInstallEnv :: install_env where
  "exInstallEnv = \<lparr>iv_host = sv_host exStart, iv_exe = Some ''/dl/agent'', iv_json = exJSON, iv_disk = exDisk,
     iv_enroll = \<lparr>ee_server = (\<lambda>_ _. HttpFailed False), ee_decode = (\<lambda>_. None), ee_host = \<lparr>eq_Token = [], eq_Hostname = [],
       eq_OSFamily = [], eq_OSVersion = [], eq_Arch = [], eq_AgentVersion = []\<rparr>\<rparr>,
     iv_version = ''1.0'', iv_svc = exSvcEnv, iv_scm = (\<lambda>_ _. ScmOK), iv_esc = (\<lambda>s. s)\<rparr>"

definition exInstallWorld :: install_world where
  "exInstallWorld = \<lparr>iw_bin = demoDisk\<lparr>ud_bin := [''/dl/agent'' \<mapsto> ''elf'']\<rparr>, iw_dirs = Map.empty, iw_svc = exSvcWorld, iw_scm = []\<rparr>"

definition exInstallFlags :: install_flags where
  "exInstallFlags = \<lparr>fl_parseFails = False, fl_server = [], fl_token = [], fl_dest = ''/a'', fl_skipService = False, fl_force = False\<rparr>"


end
