(* ===== verification/Supplicant.thy ===== *)
theory Supplicant
  imports Svc_Install Svc_Guard
begin

text \<open>
  The 802.1X client profiles, \<open>agent/internal/supplicant\<close>, and the command that writes one,
  \<open>agent/internal/cli/supplicant.go\<close>: a configuration of wpa_supplicant, or on Windows the XML
  document that netsh reads.

  A text is its bytes; the verb \<open>%q\<close> leaves bytes above 127 alone, as it does for printable text in
  UTF-8. Files are those of the directories of \<open>Config_State\<close>.
\<close>

section \<open>The profile\<close>

record profile =
  pf_Identity :: string
  pf_CertDir :: string
  pf_SSID :: string
  pf_ClientIssuerThumbprint :: string

definition Wired :: "profile \<Rightarrow> bool" where
  "Wired p \<longleftrightarrow> pf_SSID p = []"

datatype profile_error =
    NoIdentity | NoCertDir | WouldInject | NoWLANProfile | NothingToPin | NoProfileName | BadThumbprint string

definition injects :: "string \<Rightarrow> bool" where
  "injects s \<longleftrightarrow> list_ex (\<lambda>c. c = CHR 0x22 \<or> c = CHR 0x0A \<or> c = CHR 0x0D) s"

definition validateProfile :: "profile \<Rightarrow> profile_error option" where
  "validateProfile p =
     (if trimSpace (pf_Identity p) = [] then Some NoIdentity
      else if trimSpace (pf_CertDir p) = [] then Some NoCertDir
      else if list_ex injects [pf_Identity p, pf_CertDir p, pf_SSID p] then Some WouldInject else None)"

section \<open>wpa\_supplicant\<close>

text \<open>\<open>%q\<close>: the letters of the short escapes, and the others in hexadecimal.\<close>

definition escapeLetter :: "char \<Rightarrow> char option" where
  "escapeLetter = map_of
     [(CHR 0x22, CHR 0x22), (CHR 0x5C, CHR 0x5C), (CHR 0x07, CHR ''a''), (CHR 0x08, CHR ''b''), (CHR 0x0C, CHR ''f''),
      (CHR 0x0A, CHR ''n''), (CHR 0x0D, CHR ''r''), (CHR 0x09, CHR ''t''), (CHR 0x0B, CHR ''v'')]"

definition quoteChar :: "char \<Rightarrow> string" where
  "quoteChar c =
     (case escapeLetter c of
        Some e \<Rightarrow> [CHR 0x5C, e]
      | None \<Rightarrow> if (of_char c :: nat) < 32 \<or> c = CHR 0x7F then [CHR 0x5C, CHR ''x''] @ hexByte (of_char c) else [c])"

definition goQuote :: "string \<Rightarrow> string" where
  "goQuote s = [CHR 0x22] @ concat (map quoteChar s) @ [CHR 0x22]"

definition renderLines :: "profile \<Rightarrow> string list" where
  "renderLines p =
     [''# Generated by the Everwas agent. Do not edit: it is rewritten'',
      ''# whenever the device'' @ [CHR 0x27] @ ''s certificate is renewed.'', ''#'',
      ''# The private key is NOT in this file. It is referenced by path and'',
      ''# stays owner-only where the agent wrote it.'', [],
      ''ctrl_interface=/run/wpa_supplicant'', ''eapol_version=2''] @
     (if Wired p then [''ap_scan=0''] else []) @
     [''fast_reauth=1'', [], ''network={''] @
     (if Wired p then [CHR 0x09 # ''key_mgmt=IEEE8021X'']
      else [CHR 0x09 # ''ssid='' @ goQuote (pf_SSID p), CHR 0x09 # ''key_mgmt=WPA-EAP'']) @
     [CHR 0x09 # ''eap=TLS'', CHR 0x09 # ''identity='' @ goQuote (pf_Identity p),
      CHR 0x09 # ''ca_cert='' @ goQuote (pathJoin [pf_CertDir p, ''network-chain.pem'']),
      CHR 0x09 # ''client_cert='' @ goQuote (pathJoin [pf_CertDir p, ''network.crt'']),
      CHR 0x09 # ''private_key='' @ goQuote (pathJoin [pf_CertDir p, ''network.key'']), ''}'']"

definition RenderWPA :: "profile \<Rightarrow> profile_error + string" where
  "RenderWPA p =
     (case validateProfile p of Some e \<Rightarrow> Inl e | None \<Rightarrow> Inr (unlinesNL (renderLines p)))"

section \<open>Windows\<close>

record windows_profile =
  wp_Name :: string
  wp_ServerCAThumbprints :: "string list"
  wp_ServerNames :: string
  wp_ClientIssuerThumbprints :: "string list"

text \<open>\<open>None\<close> is the empty result of a text that is not a thumbprint.\<close>

fun thumbDigits :: "string \<Rightarrow> string option" where
  "thumbDigits [] = Some []"
| "thumbDigits (c # cs) =
     (if c = CHR '' '' \<or> c = CHR '':'' \<or> c = CHR ''-'' then thumbDigits cs
      else if c \<in> set ''0123456789abcdef'' then map_option ((#) c) (thumbDigits cs)
      else if c \<in> set ''ABCDEF'' then map_option ((#) (lowerChar c)) (thumbDigits cs)
      else None)"

definition normaliseThumbprint :: "string \<Rightarrow> string option" where
  "normaliseThumbprint s =
     (case thumbDigits s of None \<Rightarrow> None | Some out \<Rightarrow> if length out = 40 then Some out else None)"

fun thumbLines :: "(string \<Rightarrow> string) \<Rightarrow> string list \<Rightarrow> profile_error + string list" where
  "thumbLines line [] = Inr []"
| "thumbLines line (tp # tps) =
     (case normaliseThumbprint tp of
        None \<Rightarrow> Inl (BadThumbprint tp)
      | Some clean \<Rightarrow> (case thumbLines line tps of Inl e \<Rightarrow> Inl e | Inr ls \<Rightarrow> Inr (line clean # ls)))"

abbreviation (input) "tabs n s \<equiv> replicate n (CHR 0x09) @ s"

definition rootLine :: "string \<Rightarrow> string" where
  "rootLine t = tabs 10 (''<TrustedRootCA>'' @ t @ ''</TrustedRootCA>'')"

definition issuerLine :: "string \<Rightarrow> string" where
  "issuerLine t = tabs 12 (''<IssuerHash>'' @ t @ ''</IssuerHash>'')"

definition xmlNS :: "string \<Rightarrow> string \<Rightarrow> string" where
  "xmlNS tag ns = CHR ''<'' # tag @ '' xmlns='' @ [CHR 0x22] @ ''http://www.microsoft.com/'' @ ns @ [CHR 0x22] @ ''>''"

definition windowsHead :: "bool \<Rightarrow> string \<Rightarrow> string list" where
  "windowsHead pinned serverNames =
     [''<?xml version='' @ [CHR 0x22] @ ''1.0'' @ [CHR 0x22] @ '' encoding='' @ [CHR 0x22] @ ''UTF-8'' @ [CHR 0x22] @ ''?>'',
      xmlNS ''LANProfile'' ''networking/LAN/profile/v1'',
      tabs 1 ''<MSM>'', tabs 2 ''<security>'',
      tabs 3 ''<OneXEnforced>false</OneXEnforced>'', tabs 3 ''<OneXEnabled>true</OneXEnabled>'',
      tabs 3 (xmlNS ''OneX'' ''networking/OneX/v1''), tabs 4 ''<authMode>machine</authMode>'',
      tabs 4 ''<EAPConfig>'', tabs 5 (xmlNS ''EapHostConfig'' ''provisioning/EapHostConfig''),
      tabs 6 ''<EapMethod>'',
      tabs 7 (xmlNS ''Type'' ''provisioning/EapCommon'' @ ''13</Type>''),
      tabs 7 (xmlNS ''VendorId'' ''provisioning/EapCommon'' @ ''0</VendorId>''),
      tabs 7 (xmlNS ''VendorType'' ''provisioning/EapCommon'' @ ''0</VendorType>''),
      tabs 7 (xmlNS ''AuthorId'' ''provisioning/EapCommon'' @ ''0</AuthorId>''),
      tabs 6 ''</EapMethod>'', tabs 6 (xmlNS ''Config'' ''provisioning/EapHostConfig''),
      tabs 7 (xmlNS ''Eap'' ''provisioning/BaseEapConnectionPropertiesV1''), tabs 8 ''<Type>13</Type>'',
      tabs 8 (xmlNS ''EapType'' ''provisioning/EapTlsConnectionPropertiesV1''),
      tabs 9 ''<CredentialsSource>'', tabs 10 ''<CertificateStore>'',
      tabs 11 (''<SimpleCertSelection>'' @ showBool (\<not> pinned) @ ''</SimpleCertSelection>''),
      tabs 10 ''</CertificateStore>'', tabs 9 ''</CredentialsSource>'',
      tabs 9 ''<ServerValidation>'',
      tabs 10 ''<DisableUserPromptForServerValidation>true</DisableUserPromptForServerValidation>'',
      tabs 10 (''<ServerNames>'' @ xmlEscape serverNames @ ''</ServerNames>'')]"

definition windowsTail :: "string list" where
  "windowsTail =
     [tabs 8 ''</EapType>'', tabs 7 ''</Eap>'', tabs 6 ''</Config>'', tabs 5 ''</EapHostConfig>'', tabs 4 ''</EAPConfig>'',
      tabs 3 ''</OneX>'', tabs 2 ''</security>'', tabs 1 ''</MSM>'', ''</LANProfile>'']"

definition pinLines :: "string list \<Rightarrow> string list" where
  "pinLines hashes =
     (if hashes = [] then []
      else [tabs 9 (xmlNS ''TLSExtensions'' ''provisioning/EapTlsConnectionPropertiesV2''),
            tabs 10 (xmlNS ''FilteringInfo'' ''provisioning/EapTlsConnectionPropertiesV3''),
            tabs 11 (''<CAHashList Enabled='' @ [CHR 0x22] @ ''true'' @ [CHR 0x22] @ ''>'')] @ hashes @
           [tabs 11 ''</CAHashList>'', tabs 10 ''</FilteringInfo>'', tabs 9 ''</TLSExtensions>''])"

definition windowsLines :: "windows_profile \<Rightarrow> profile_error + string list" where
  "windowsLines p =
     (if trimSpace (wp_Name p) = [] then Inl NoProfileName
      else case thumbLines rootLine (wp_ServerCAThumbprints p) of
        Inl e \<Rightarrow> Inl e
      | Inr roots \<Rightarrow>
          (case thumbLines issuerLine (wp_ClientIssuerThumbprints p) of
             Inl e \<Rightarrow> Inl e
           | Inr hashes \<Rightarrow>
               Inr (windowsHead (wp_ClientIssuerThumbprints p \<noteq> []) (wp_ServerNames p) @ roots @
                 [tabs 9 ''</ServerValidation>'', tabs 9 ''<DifferentUsername>false</DifferentUsername>''] @ pinLines hashes @ windowsTail)))"

definition RenderWindows :: "windows_profile \<Rightarrow> profile_error + string" where
  "RenderWindows p =
     (case windowsLines p of Inl e \<Rightarrow> Inl e | Inr ls \<Rightarrow> Inr (unlinesNL ls))"

section \<open>Writing\<close>

definition wpaFileName :: string where "wpaFileName = ''wpa_supplicant-everwas.conf''"
definition WindowsFileName :: string where "WindowsFileName = ''everwas-8021x.xml''"
definition WindowsProfileName :: string where "WindowsProfileName = ''Everwas 802.1X''"

definition renderFor :: "string \<Rightarrow> profile \<Rightarrow> profile_error + string \<times> string" where
  "renderFor goos p =
     (if goos \<noteq> ''windows'' then (case RenderWPA p of Inl e \<Rightarrow> Inl e | Inr c \<Rightarrow> Inr (wpaFileName, c))
      else case validateProfile p of
        Some e \<Rightarrow> Inl e
      | None \<Rightarrow>
          if \<not> Wired p then Inl NoWLANProfile
          else if trimSpace (pf_ClientIssuerThumbprint p) = [] then Inl NothingToPin
          else (case RenderWindows \<lparr>wp_Name = WindowsProfileName, wp_ServerCAThumbprints = [], wp_ServerNames = [],
                       wp_ClientIssuerThumbprints = [pf_ClientIssuerThumbprint p]\<rparr> of
             Inl e \<Rightarrow> Inl e
           | Inr c \<Rightarrow> Inr (WindowsFileName, c)))"

text \<open>\<open>filepath.Join\<close> of a directory and a name: on Windows of a directory that is already clean.\<close>

definition joinOn :: "string \<Rightarrow> string \<Rightarrow> string \<Rightarrow> string" where
  "joinOn goos dir name = (if goos = ''windows'' then dir @ [CHR 0x5C] @ name else pathJoin [dir, name])"

datatype write_error = ProfileInvalid profile_error | ProfileNotWritten

definition writeProfile :: "string \<Rightarrow> disk_env \<Rightarrow> string \<Rightarrow> profile \<Rightarrow> dirs \<Rightarrow> (write_error + string) \<times> dirs" where
  "writeProfile goos env dir p fs =
     (case renderFor goos p of
        Inl e \<Rightarrow> (Inl (ProfileInvalid e), fs)
      | Inr (name, content) \<Rightarrow>
          if de_mkdirFails env then (Inl ProfileNotWritten, fs)
          else let fs1 = mkdirAll dir fs; tmp = name @ ''.tmp'' in
            (case de_tmpWrite env of
               OpenFails \<Rightarrow> (Inl ProfileNotWritten, fs1)
             | WriteCut n \<Rightarrow> (Inl ProfileNotWritten, writeIn dir tmp (take n content) fs1)
             | WriteOK \<Rightarrow>
                 let fs2 = writeIn dir tmp content fs1 in
                 if de_renameFails env then (Inl ProfileNotWritten, fs2)
                 else (Inr (joinOn goos dir name),
                       fs2(dir := map_option (\<lambda>files. files(name := files tmp, tmp := None)) (fs2 dir)))))"

text \<open>What the operator is told to type next.\<close>

definition applySteps :: "string \<Rightarrow> string \<Rightarrow> string list" where
  "applySteps goos path =
     (if goos \<noteq> ''windows'' then [''wpa_supplicant -c '' @ path @ '' -i <interface> -D wired'']
      else [''Start-Service dot3svc'',
            ''netsh lan add profile filename='' @ [CHR 0x22] @ path @ [CHR 0x22] @ '' interface='' @ [CHR 0x22] @ ''Ethernet'' @ [CHR 0x22],
            [],
            ''The certificate itself is already in LocalMachine'' @ [CHR 0x5C] @ ''My, put there by the'',
            ''agent when it was issued. Get-ChildItem Cert:'' @ [CHR 0x5C] @ ''LocalMachine'' @ [CHR 0x5C] @ ''My should'',
            ''show it with HasPrivateKey True; if it does not, the supplicant has no'',
            ''credential to present and the profile will not help.''])"

text \<open>The command: its exit code, what it prints on standard output, and the directories. \<open>presence\<close> is
  \<open>netcert.Presence\<close> of the platform.\<close>

definition profileDir :: "string \<Rightarrow> string \<Rightarrow> string" where
  "profileDir stateDir outDir = (if outDir = [] then stateDir else outDir)"

definition CmdSupplicantProfile ::
  "host_env \<Rightarrow> json_config \<Rightarrow> disk_env \<Rightarrow> (string \<Rightarrow> string \<Rightarrow> netcert_error + string) \<Rightarrow> bool \<Rightarrow> string \<Rightarrow> string \<Rightarrow>
   dirs \<Rightarrow> int \<times> string list \<times> dirs" where
  "CmdSupplicantProfile h js env presence parseFails ssid outDir fs =
     (if parseFails then (2, [], fs)
      else case stateDirOf h of
        None \<Rightarrow> (1, [], fs)
      | Some stateDir \<Rightarrow>
          (case LoadFrom js env stateDir fs of
             None \<Rightarrow> (1, [], fs)
           | Some cfg \<Rightarrow>
               if \<not> Enrolled cfg then (1, [], fs)
               else let certDir = joinOn (he_goos h) stateDir ''netcert'' in
                 (case presence certDir (cf_AgentID cfg) of
                    Inl e \<Rightarrow> (1, [], fs)
                  | Inr pin \<Rightarrow>
                      (case writeProfile (he_goos h) env (profileDir stateDir outDir)
                              \<lparr>pf_Identity = cf_AgentID cfg, pf_CertDir = certDir, pf_SSID = ssid, pf_ClientIssuerThumbprint = pin\<rparr> fs of
                         (Inl e, fs') \<Rightarrow> (1, [], fs')
                       | (Inr path, fs') \<Rightarrow>
                           (0, [''wrote '' @ path, ''Nothing is using it yet. To test it against a switch:''] @
                               map ((@) ''  '') (applySteps (he_goos h) path), fs')))))"

section \<open>The shape of a configuration of wpa\_supplicant\<close>

text \<open>A line of the configuration as its reader sees it: the directive before the sign \<open>=\<close>, and the value
  between the quotes, in which nothing is an escape.\<close>

definition directive :: "string \<Rightarrow> string" where
  "directive l = takeWhile (\<lambda>c. c \<noteq> CHR ''='') l"

definition quotedValue :: "string \<Rightarrow> string" where
  "quotedValue l = butlast (tl (dropWhile (\<lambda>c. c \<noteq> CHR 0x22) l))"

definition wpaDirectives :: "bool \<Rightarrow> string list" where
  "wpaDirectives wired =
     [''# Generated by the Everwas agent. Do not edit: it is rewritten'',
      ''# whenever the device'' @ [CHR 0x27] @ ''s certificate is renewed.'', ''#'',
      ''# The private key is NOT in this file. It is referenced by path and'',
      ''# stays owner-only where the agent wrote it.'', [], ''ctrl_interface'', ''eapol_version''] @
     (if wired then [''ap_scan''] else []) @ [''fast_reauth'', [], ''network''] @
     map ((#) (CHR 0x09)) ((if wired then [] else [''ssid'']) @
        [''key_mgmt'', ''eap'', ''identity'', ''ca_cert'', ''client_cert'', ''private_key'']) @ [''}'']"

definition plainChar :: "char \<Rightarrow> bool" where
  "plainChar c \<longleftrightarrow> 32 \<le> (of_char c :: nat) \<and> c \<noteq> CHR 0x7F \<and> c \<noteq> CHR 0x22 \<and> c \<noteq> CHR 0x5C"

lemma set_joinWith: "set (joinWith sep ws) \<subseteq> set sep \<union> (\<Union>w\<in>set ws. set w)"
  by (induction sep ws rule: joinWith.induct) auto

lemma set_cleanParts: "w \<in> set (cleanParts r ps out) \<Longrightarrow> w \<in> set ps \<or> w \<in> set out"
  by (induction r ps out rule: cleanParts.induct) (auto split: if_splits list.splits)

lemma set_cleanPath: "set (cleanPath s) \<subseteq> {CHR ''/'', CHR ''.''} \<union> set s"
proof -
  have "set (joinWith ''/'' (cleanParts r (splitOn CHR ''/'' s) [])) \<subseteq> {CHR ''/''} \<union> set s" for r
  proof -
    have "set w \<subseteq> set s" if "w \<in> set (cleanParts r (splitOn CHR ''/'' s) [])" for w
      using set_cleanParts [OF that] set_splitOn [of w "CHR ''/''" s] by simp
    then show ?thesis using set_joinWith [of "''/''" "cleanParts r (splitOn CHR ''/'' s) []"] by auto
  qed
  then show ?thesis by (simp add: cleanPath_def Let_def) blast
qed

lemma set_pathJoin: "set (pathJoin es) \<subseteq> {CHR ''/'', CHR ''.''} \<union> (\<Union>e\<in>set es. set e)"
proof -
  have "set (joinWith ''/'' (filter (\<lambda>e. e \<noteq> []) es)) \<subseteq> {CHR ''/''} \<union> (\<Union>e\<in>set es. set e)"
    using set_joinWith [of "''/''" "filter (\<lambda>e. e \<noteq> []) es"] by auto
  then show ?thesis using set_cleanPath by (simp add: pathJoin_def Let_def) blast
qed

lemma set_hexByte: "set (hexByte b) \<subseteq> set ''0123456789abcdef''"
  using set_hexOf [of "[b]"] by (simp add: hexOf_def)

lemma escapeLetter_set: "escapeLetter c = Some e \<Longrightarrow> (c, e) \<in> set
     [(CHR 0x22, CHR 0x22), (CHR 0x5C, CHR 0x5C), (CHR 0x07, CHR ''a''), (CHR 0x08, CHR ''b''), (CHR 0x0C, CHR ''f''),
      (CHR 0x0A, CHR ''n''), (CHR 0x0D, CHR ''r''), (CHR 0x09, CHR ''t''), (CHR 0x0B, CHR ''v'')]"
  unfolding escapeLetter_def by (rule map_of_SomeD)

lemma escapeLetter_Some:
  assumes "escapeLetter c = Some e"
  shows "\<not> plainChar c" "e \<noteq> CHR 0x0A" "c \<noteq> CHR 0x22 \<Longrightarrow> e \<noteq> CHR 0x22"
  using escapeLetter_set [OF assms] by (auto simp: plainChar_def)

lemma escapeLetter_None: "escapeLetter c = None \<Longrightarrow> c \<noteq> CHR 0x22 \<and> c \<noteq> CHR 0x5C \<and> c \<noteq> CHR 0x0A"
  by (auto simp: escapeLetter_def)

lemma quoteChar_no_newline: "CHR 0x0A \<notin> set (quoteChar c)"
  using set_hexByte [of "of_char c"] escapeLetter_Some(2) [of c] escapeLetter_None [of c]
  by (auto simp: quoteChar_def split: option.splits)

lemma quoteChar_no_quote: "c \<noteq> CHR 0x22 \<Longrightarrow> CHR 0x22 \<notin> set (quoteChar c)"
  using set_hexByte [of "of_char c"] escapeLetter_Some(3) [of c]
  by (auto simp: quoteChar_def split: option.splits)

lemma goQuote_no_newline: "CHR 0x0A \<notin> set (goQuote s)"
  using quoteChar_no_newline by (auto simp: goQuote_def)

lemma goQuote_quotes:
  assumes "CHR 0x22 \<notin> set s"
  shows "count_list (goQuote s) (CHR 0x22) = 2"
proof -
  have "CHR 0x22 \<notin> set (quoteChar c)" if "c \<in> set s" for c
    using assms that by (intro quoteChar_no_quote) auto
  then have "CHR 0x22 \<notin> set (concat (map quoteChar s))" by simp
  then have "count_list (concat (map quoteChar s)) (CHR 0x22) = 0" by (simp only: count_list_0_iff not_False_eq_True)
  then show ?thesis by (simp only: goQuote_def count_list_append count_list.simps) simp
qed

lemma quoteChar_plain:
  assumes "plainChar c"
  shows "quoteChar c = [c]"
proof -
  have "escapeLetter c = None" using assms escapeLetter_Some(1) [of c] by (cases "escapeLetter c") auto
  then show ?thesis using assms by (simp add: plainChar_def quoteChar_def)
qed

lemma length_quoteChar:
  assumes "\<not> plainChar c"
  shows "2 \<le> length (quoteChar c)"
proof (cases "escapeLetter c")
  case None
  then have "(of_char c :: nat) < 32 \<or> c = CHR 0x7F"
    using assms escapeLetter_None [OF None] unfolding plainChar_def not_le [symmetric] by blast
  then show ?thesis by (simp only: quoteChar_def None option.case if_True length_append list.size length_hexByte)
next
  case (Some e)
  then show ?thesis by (simp add: quoteChar_def)
qed

lemma length_quoteChar_pos: "1 \<le> length (quoteChar c)"
  using length_quoteChar [of c] quoteChar_plain [of c] by (cases "plainChar c") auto

lemma length_quoted: "length s \<le> length (concat (map quoteChar s))"
proof (induction s)
  case (Cons c s)
  then show ?case using length_quoteChar_pos [of c] by simp
qed simp

text \<open>\<open>%q\<close> keeps a value exactly when nothing in it needs an escape.\<close>

lemma quoted_exact_iff: "concat (map quoteChar s) = s \<longleftrightarrow> list_all plainChar s"
proof (induction s)
  case (Cons c s)
  show ?case
  proof (cases "plainChar c")
    case True
    then show ?thesis using Cons by (simp add: quoteChar_plain)
  next
    case False
    then have "length (concat (map quoteChar (c # s))) > length (c # s)"
      using length_quoteChar [of c] length_quoted [of s] by simp
    then have "concat (map quoteChar (c # s)) \<noteq> c # s" by (metis less_irrefl)
    then show ?thesis using False by simp
  qed
qed simp

lemma quotedValue_goQuote: "CHR 0x22 \<notin> set k \<Longrightarrow> quotedValue (k @ goQuote s) = concat (map quoteChar s)"
proof -
  assume "CHR 0x22 \<notin> set k"
  then have "dropWhile (\<lambda>c. c \<noteq> CHR 0x22) (k @ goQuote s) = goQuote s"
    by (subst dropWhile_append2) (auto simp: goQuote_def)
  then show ?thesis by (simp add: quotedValue_def goQuote_def butlast_append)
qed

definition valueLine :: "string \<Rightarrow> string \<Rightarrow> string" where
  "valueLine key v = CHR 0x09 # key @ ''='' @ goQuote v"

lemma validate_free:
  assumes "validateProfile p = None" and "s \<in> {pf_Identity p, pf_CertDir p, pf_SSID p}"
  shows "CHR 0x22 \<notin> set s"
  using assms by (auto simp: validateProfile_def injects_def list_ex_iff split: if_splits)

lemma certPath_free:
  assumes "validateProfile p = None" and "CHR 0x22 \<notin> set name"
  shows "CHR 0x22 \<notin> set (pathJoin [pf_CertDir p, name])"
  using set_pathJoin [of "[pf_CertDir p, name]"] validate_free [OF assms(1), of "pf_CertDir p"] assms(2) by auto

lemma renderLines_eq:
  "renderLines p = take 8 (renderLines p) @ (if Wired p then [''ap_scan=0''] else []) @
     [''fast_reauth=1'', [], ''network={''] @
     (if Wired p then [CHR 0x09 # ''key_mgmt=IEEE8021X''] else [valueLine ''ssid'' (pf_SSID p), CHR 0x09 # ''key_mgmt=WPA-EAP'']) @
     [CHR 0x09 # ''eap=TLS'', valueLine ''identity'' (pf_Identity p),
      valueLine ''ca_cert'' (pathJoin [pf_CertDir p, ''network-chain.pem'']),
      valueLine ''client_cert'' (pathJoin [pf_CertDir p, ''network.crt'']),
      valueLine ''private_key'' (pathJoin [pf_CertDir p, ''network.key'']), ''}'']"
  by (simp add: renderLines_def valueLine_def)

lemma valueLine_no_newline: "CHR 0x0A \<notin> set key \<Longrightarrow> CHR 0x0A \<notin> set (valueLine key v)"
  using goQuote_no_newline [of v] by (auto simp: valueLine_def)

lemma directive_valueLine: "CHR ''='' \<notin> set key \<Longrightarrow> directive (valueLine key v) = CHR 0x09 # key"
  by (simp add: directive_def valueLine_def takeWhile_append)

lemma renderLines_no_newline: "list_all (\<lambda>l. CHR 0x0A \<notin> set l) (renderLines p)"
  by (subst renderLines_eq) (simp add: renderLines_def valueLine_no_newline)

lemma renderLines_directives: "map directive (renderLines p) = wpaDirectives (Wired p)"
  by (subst renderLines_eq) (simp add: renderLines_def directive_valueLine wpaDirectives_def, simp add: directive_def)

lemma valueLine_quotes:
  "CHR 0x22 \<notin> set key \<Longrightarrow> CHR 0x22 \<notin> set v \<Longrightarrow> count_list (valueLine key v) (CHR 0x22) = 2"
  by (simp add: valueLine_def goQuote_quotes count_list_append count_list_0_iff)

lemma renderLines_quotes:
  assumes "validateProfile p = None"
  shows "list_all (\<lambda>l. count_list l (CHR 0x22) \<in> {0, 2}) (renderLines p)"
  by (subst renderLines_eq)
    (simp add: renderLines_def valueLine_quotes certPath_free [OF assms] validate_free [OF assms])

lemma identity_line:
  "valueLine ''identity'' (pf_Identity p) \<in> set (renderLines p)"
  by (subst renderLines_eq) simp

lemma quotedValue_valueLine: "CHR 0x22 \<notin> set key \<Longrightarrow> quotedValue (valueLine key v) = concat (map quoteChar v)"
  using quotedValue_goQuote [of "CHR 0x09 # key @ ''=''" v] by (simp add: valueLine_def)


definition exProfile :: profile where
  "exProfile = \<lparr>pf_Identity = ''dev'', pf_CertDir = ''/d'', pf_SSID = ''corp'', pf_ClientIssuerThumbprint = []\<rparr>"


section \<open>The document for Windows\<close>

text \<open>The text of an element that stands on a line of its own.\<close>

definition elementText :: "string \<Rightarrow> string \<Rightarrow> string option" where
  "elementText tag l =
     map_option (trimSuffix (''</'' @ tag @ ''>'')) (cutPrefix (CHR ''<'' # tag @ ''>'') (dropWhile (\<lambda>c. c = CHR 0x09) l))"

definition elements :: "string \<Rightarrow> string list \<Rightarrow> string list" where
  "elements tag ls = List.map_filter (elementText tag) ls"

lemma lower_hex:
  assumes "c \<in> set ''ABCDEF''"
  shows "lowerChar c \<in> set ''0123456789abcdef''"
proof -
  have "list_all (\<lambda>c. lowerChar c \<in> set ''0123456789abcdef'') ''ABCDEF''" by code_simp
  then show ?thesis using assms unfolding list_all_iff by blast
qed

lemma thumbDigits_Some: "thumbDigits s = Some t \<Longrightarrow> set t \<subseteq> set ''0123456789abcdef''"
proof (induction s arbitrary: t)
  case (Cons c s)
  consider "thumbDigits s = Some t"
    | t' where "thumbDigits s = Some t'" "t = c # t'" "c \<in> set ''0123456789abcdef''"
    | t' where "thumbDigits s = Some t'" "t = lowerChar c # t'" "c \<in> set ''ABCDEF''"
    using Cons.prems unfolding thumbDigits.simps by (auto split: if_split_asm simp del: list.set)
  then show ?case
  proof cases
    case 1
    then show ?thesis by (rule Cons.IH)
  next
    case 2
    then show ?thesis using Cons.IH [of t'] by (simp del: list.set add: list.set(2) [of _ t'])
  next
    case 3
    then show ?thesis using Cons.IH [of t'] lower_hex [of c] by (simp del: list.set add: list.set(2) [of _ t'])
  qed
qed simp

lemma thumbDigits_hex: "set s \<subseteq> set ''0123456789abcdef'' \<Longrightarrow> thumbDigits s = Some s"
proof (induction s)
  case (Cons c s)
  then have "c \<in> set ''0123456789abcdef''" by (meson list.set_intros(1) subsetD)
  then have "c \<noteq> CHR '' ''" "c \<noteq> CHR '':''" "c \<noteq> CHR ''-''" by auto
  moreover have "thumbDigits s = Some s" using Cons by (meson set_subset_Cons subset_trans)
  ultimately show ?case using \<open>c \<in> _\<close> by (simp del: list.set)
qed simp

lemma normaliseThumbprint_Some:
  "normaliseThumbprint s = Some t \<Longrightarrow> length t = 40 \<and> set t \<subseteq> set ''0123456789abcdef''"
  using thumbDigits_Some [of s] by (auto simp: normaliseThumbprint_def simp del: list.set split: option.splits if_splits)

lemma normaliseThumbprint_sha1: "length h = 20 \<Longrightarrow> normaliseThumbprint (hexOf h) = Some (hexOf h)"
  using thumbDigits_hex [OF set_hexOf, of h] by (simp add: normaliseThumbprint_def)

lemma thumbLines_Inr:
  "thumbLines line tps = Inr ls \<Longrightarrow> \<exists>ts. map normaliseThumbprint tps = map Some ts \<and> ls = map line ts"
proof (induction tps arbitrary: ls)
  case (Cons tp tps)
  then obtain t ls' where t: "normaliseThumbprint tp = Some t" and "thumbLines line tps = Inr ls'"
    and ls: "ls = line t # ls'" by (auto split: option.splits sum.splits)
  from Cons.IH [OF this(2)] obtain ts where "map normaliseThumbprint tps = map Some ts" "ls' = map line ts" by blast
  then have "map normaliseThumbprint (tp # tps) = map Some (t # ts)" "ls = map line (t # ts)" using t ls by simp_all
  then show ?case by blast
qed simp

lemma elementText_own:
  "elementText tag (replicate n (CHR 0x09) @ (CHR ''<'' # tag @ ''>'') @ s @ ''</'' @ tag @ ''>'') = Some s"
  using trimSuffix_append [of "''</'' @ tag @ ''>''" s] by (simp add: elementText_def cutPrefix_def dropWhile_append3)

lemma elementText_other:
  "\<not> hasPrefix l (CHR ''<'' # tag @ ''>'') \<Longrightarrow> hd l \<noteq> CHR 0x09 \<Longrightarrow> l \<noteq> [] \<Longrightarrow>
   elementText tag (replicate n (CHR 0x09) @ l) = None"
  by (cases l) (auto simp: elementText_def cutPrefix_def hasPrefix_def dropWhile_append3)

lemma elements_simps [simp]:
  "elements tag [] = []"
  "elements tag (l # ls) = (case elementText tag l of None \<Rightarrow> elements tag ls | Some s \<Rightarrow> s # elements tag ls)"
  "elements tag (ls @ ms) = elements tag ls @ elements tag ms"
  by (simp_all add: elements_def map_filter_simps split: option.splits) (simp add: List.map_filter_def)

lemma elements_map: "(\<And>t. elementText tag (line t) = Some t) \<Longrightarrow> elements tag (map line ts) = ts"
  by (induction ts) simp_all

lemma elements_map_none: "(\<And>t. elementText tag (line t) = None) \<Longrightarrow> elements tag (map line ts) = []"
  by (induction ts) simp_all

lemma rootLine_elements:
  "elements ''TrustedRootCA'' (map rootLine ts) = ts" "elements ''IssuerHash'' (map rootLine ts) = []"
  "elements ''SimpleCertSelection'' (map rootLine ts) = []" "elements ''ServerNames'' (map rootLine ts) = []"
  using elementText_own [of "''TrustedRootCA''" 10] by (auto intro!: elements_map elements_map_none elementText_other simp: rootLine_def hasPrefix_def)

lemma issuerLine_elements:
  "elements ''IssuerHash'' (map issuerLine ts) = ts" "elements ''TrustedRootCA'' (map issuerLine ts) = []"
  "elements ''SimpleCertSelection'' (map issuerLine ts) = []" "elements ''ServerNames'' (map issuerLine ts) = []"
  using elementText_own [of "''IssuerHash''" 12] by (auto intro!: elements_map elements_map_none elementText_other simp: issuerLine_def hasPrefix_def)

lemma xmlEscape_no_newline: "CHR 0x0A \<notin> set (xmlEscape s)"
  by (auto simp: xmlEscape_def xmlEscapeChar_def split: if_splits)

lemma windowsHead_no_newline: "list_all (\<lambda>l. CHR 0x0A \<notin> set l) (windowsHead b names)"
  using xmlEscape_no_newline [of names] by (simp add: windowsHead_def xmlNS_def showBool_def)

lemma windowsHead_elements:
  "elements ''IssuerHash'' (windowsHead b names) = []"
  "elements ''TrustedRootCA'' (windowsHead b names) = []"
  "elements ''SimpleCertSelection'' (windowsHead b names) = [showBool (\<not> b)]"
  "elements ''ServerNames'' (windowsHead b names) = [xmlEscape names]"
  by (simp_all add: windowsHead_def xmlNS_def elementText_def cutPrefix_def dropWhile_append3 trimSuffix_def showBool_def)

definition windowsMid :: "string list" where
  "windowsMid = [tabs 9 ''</ServerValidation>'', tabs 9 ''<DifferentUsername>false</DifferentUsername>'']"

lemma windowsRest_elements:
  assumes "tag \<in> {''IssuerHash'', ''TrustedRootCA'', ''SimpleCertSelection'', ''ServerNames''}"
  shows "elements tag windowsTail = []" "elements tag windowsMid = []" "elements tag (pinLines hs) = elements tag hs"
  using assms
  by (auto simp: windowsTail_def windowsMid_def pinLines_def xmlNS_def elementText_def cutPrefix_def dropWhile_append3)

lemma thumb_no_newline:
  assumes "map normaliseThumbprint tps = map Some ts" "t \<in> set ts"
  shows "CHR 0x0A \<notin> set t"
proof -
  have "Some t \<in> set (map normaliseThumbprint tps)" unfolding assms(1) using assms(2) by simp
  then obtain s where "normaliseThumbprint s = Some t" by auto
  from normaliseThumbprint_Some [OF this] show ?thesis by auto
qed

lemma windowsLines_no_newline:
  assumes "map normaliseThumbprint xs = map Some roots" "map normaliseThumbprint ys = map Some hashes"
  shows "list_all (\<lambda>l. CHR 0x0A \<notin> set l)
    (windowsHead b names @ map rootLine roots @ windowsMid @ pinLines (map issuerLine hashes) @ windowsTail)"
proof -
  have "list_all (\<lambda>l. CHR 0x0A \<notin> set l) (map rootLine roots)"
    using thumb_no_newline [OF assms(1)] by (simp add: list_all_iff rootLine_def)
  moreover have "list_all (\<lambda>l. CHR 0x0A \<notin> set l) (map issuerLine hashes)"
    using thumb_no_newline [OF assms(2)] by (simp add: list_all_iff issuerLine_def)
  moreover have "list_all (\<lambda>l. CHR 0x0A \<notin> set l) windowsTail" "list_all (\<lambda>l. CHR 0x0A \<notin> set l) windowsMid"
    by (simp_all add: windowsTail_def windowsMid_def)
  ultimately show ?thesis using windowsHead_no_newline by (simp add: pinLines_def xmlNS_def del: list.pred_map)
qed

lemma RenderWindows_reads_back:
  assumes "RenderWindows p = Inr c"
  shows "map Some (elements ''TrustedRootCA'' (fileLines c)) = map normaliseThumbprint (wp_ServerCAThumbprints p) \<and>
    map Some (elements ''IssuerHash'' (fileLines c)) = map normaliseThumbprint (wp_ClientIssuerThumbprints p) \<and>
    elements ''SimpleCertSelection'' (fileLines c) = [showBool (wp_ClientIssuerThumbprints p = [])] \<and>
    elements ''ServerNames'' (fileLines c) = [xmlEscape (wp_ServerNames p)]"
proof -
  let ?head = "windowsHead (wp_ClientIssuerThumbprints p \<noteq> []) (wp_ServerNames p)"
  from assms obtain rl hl where rl: "thumbLines rootLine (wp_ServerCAThumbprints p) = Inr rl"
    and hl: "thumbLines issuerLine (wp_ClientIssuerThumbprints p) = Inr hl"
    and c: "c = unlinesNL (?head @ rl @ windowsMid @ pinLines hl @ windowsTail)"
    unfolding RenderWindows_def windowsLines_def windowsMid_def by (auto split: if_splits sum.splits)
  obtain roots where roots: "map normaliseThumbprint (wp_ServerCAThumbprints p) = map Some roots" "rl = map rootLine roots"
    using thumbLines_Inr [OF rl] by blast
  obtain hashes where hashes: "map normaliseThumbprint (wp_ClientIssuerThumbprints p) = map Some hashes" "hl = map issuerLine hashes"
    using thumbLines_Inr [OF hl] by blast
  have lines: "fileLines c = ?head @ map rootLine roots @ windowsMid @ pinLines (map issuerLine hashes) @ windowsTail"
    unfolding c roots(2) hashes(2) by (rule fileLines_unlinesNL) (rule windowsLines_no_newline [OF roots(1) hashes(1)])
  show ?thesis
    unfolding lines roots(1) hashes(1) elements_simps(3)
    by (simp add: windowsHead_elements windowsRest_elements rootLine_elements issuerLine_elements)
qed

section \<open>The command\<close>

lemma contentOf_mkdirAll [simp]: "contentOf (mkdirAll dir fs) d n = contentOf fs d n"
  by (simp add: contentOf_def mkdirAll_def)

lemma mkdirAll_Some: "\<exists>files. mkdirAll dir fs dir = Some files"
  by (cases "fs dir") (simp_all add: mkdirAll_def)

lemma contentOf_writeIn: "n \<noteq> name \<Longrightarrow> contentOf (writeIn dir name c fs) d n = contentOf fs d n"
  by (auto simp: contentOf_def writeIn_def split: option.splits)

lemma contentOf_install:
  "contentOf (fs(dir := map_option (\<lambda>files. files(name := files tmp, tmp := None)) (fs dir))) d n =
     (if d \<noteq> dir \<or> n \<notin> {name, tmp} then contentOf fs d n else if n = tmp then None else contentOf fs dir tmp)"
  by (auto simp: contentOf_def split: option.splits)

lemma writeProfile_frame:
  assumes "renderFor goos p = Inr (name, c)" "writeProfile goos env dir p fs = (r, fs')" "n \<notin> {name, name @ ''.tmp''}"
  shows "contentOf fs' d n = contentOf fs d n"
  using assms by (auto simp: writeProfile_def Let_def contentOf_writeIn contentOf_install split: if_splits write_end.splits)

lemma writeProfile_result:
  assumes "renderFor goos p = Inr (name, c)" "writeProfile goos env dir p fs = (r, fs')"
  shows "if isl r then contentOf fs' d name = contentOf fs d name
         else contentOf fs' dir name = Some c"
proof -
  obtain files where "mkdirAll dir fs dir = Some files" using mkdirAll_Some by blast
  then have "contentOf (writeIn dir (name @ ''.tmp'') c (mkdirAll dir fs)) dir (name @ ''.tmp'') = Some c"
    by (simp add: contentOf_def writeIn_def)
  then show ?thesis
    using assms by (auto simp: writeProfile_def Let_def contentOf_writeIn contentOf_install split: if_splits write_end.splits)
qed

lemma renderFor_windows:
  assumes "renderFor ''windows'' p = Inr (name, c)"
  shows "name = WindowsFileName \<and> normaliseThumbprint (pf_ClientIssuerThumbprint p) \<noteq> None \<and>
    elements ''IssuerHash'' (fileLines c) = [the (normaliseThumbprint (pf_ClientIssuerThumbprint p))] \<and>
    elements ''SimpleCertSelection'' (fileLines c) = [''false'']"
proof -
  let ?w = "\<lparr>wp_Name = WindowsProfileName, wp_ServerCAThumbprints = [], wp_ServerNames = [],
    wp_ClientIssuerThumbprints = [pf_ClientIssuerThumbprint p]\<rparr>"
  from assms have "name = WindowsFileName" "RenderWindows ?w = Inr c"
    by (auto simp: renderFor_def split: option.splits if_splits sum.splits)
  then show ?thesis
    using RenderWindows_reads_back [of ?w c] by (auto simp: showBool_def map_eq_Cons_conv dest!: sym [of "Some _"])
qed

text \<open>
  C37. On Windows the command that exits with 0 has written a profile that names the certificate authority
  of the very certificate the machine store holds for the enrolled device, by the thumbprint of the
  authority's certificate there, and leaves no choice to Windows. With any other exit code it prints
  nothing and the profile on disk is what it was, and in every case no file but the profile and its
  temporary copy is touched.
\<close>

theorem supplicant_profile_pinned:
  assumes windows: "he_goos h = ''windows''" and sha1: "\<forall>x. length (cl_sha1 lib x) = 20"
    and run: "CmdSupplicantProfile h js env (\<lambda>_ agentID. PresenceWindows lib openFails agentID d) parseFails ssid outDir fs =
      (code, out, fs')"
  shows "(code = 0 \<longrightarrow> (\<exists>stateDir cfg leaf issuer c.
       stateDirOf h = Some stateDir \<and> LoadFrom js env stateDir fs = Some cfg \<and> Enrolled cfg \<and>
       storedDeviceCert lib (cf_AgentID cfg) d = Some leaf \<and> storedIssuerOf lib leaf d = Some issuer \<and>
       contentOf fs' (profileDir stateDir outDir) WindowsFileName = Some c \<and>
       elements ''IssuerHash'' (fileLines c) = [hexOf (cl_sha1 lib (crt_Raw issuer))] \<and>
       elements ''SimpleCertSelection'' (fileLines c) = [''false''])) \<and>
    (code \<noteq> 0 \<longrightarrow> out = [] \<and> (\<forall>dir. contentOf fs' dir WindowsFileName = contentOf fs dir WindowsFileName)) \<and>
    (\<forall>dir n. n \<notin> {WindowsFileName, WindowsFileName @ ''.tmp''} \<longrightarrow> contentOf fs' dir n = contentOf fs dir n)"
proof (cases "code \<noteq> 0 \<and> out = [] \<and> fs' = fs")
  case False
  with run obtain stateDir cfg pin where sd: "stateDirOf h = Some stateDir" and cfg: "LoadFrom js env stateDir fs = Some cfg" "Enrolled cfg"
    and pin: "PresenceWindows lib openFails (cf_AgentID cfg) d = Inr pin"
    unfolding CmdSupplicantProfile_def by (auto simp: Let_def split: if_splits option.splits sum.splits)
  let ?p = "\<lparr>pf_Identity = cf_AgentID cfg, pf_CertDir = joinOn ''windows'' stateDir ''netcert'', pf_SSID = ssid,
    pf_ClientIssuerThumbprint = pin\<rparr>"
  obtain r fs1 where w: "writeProfile ''windows'' env (profileDir stateDir outDir) ?p fs = (r, fs1)" by fastforce
  with run False have fs1: "fs' = fs1" "code = (if isl r then 1 else 0)" "isl r \<Longrightarrow> out = []"
    unfolding CmdSupplicantProfile_def by (auto simp: sd cfg pin windows Let_def split: if_splits sum.splits)
  have ok: "\<exists>c. renderFor ''windows'' ?p = Inr (WindowsFileName, c)"
    using False w fs1 renderFor_windows [of ?p] by (auto simp: writeProfile_def split: sum.splits prod.splits)
  then obtain c where c: "renderFor ''windows'' ?p = Inr (WindowsFileName, c)" by blast
  from pin obtain leaf issuer where li: "storedDeviceCert lib (cf_AgentID cfg) d = Some leaf" "storedIssuerOf lib leaf d = Some issuer"
    "pin = hexOf (cl_sha1 lib (crt_Raw issuer))"
    by (auto simp: PresenceWindows_def split: if_splits option.splits)
  have "elements ''IssuerHash'' (fileLines c) = [hexOf (cl_sha1 lib (crt_Raw issuer))]"
      "elements ''SimpleCertSelection'' (fileLines c) = [''false'']"
    using renderFor_windows [OF c] sha1 by (simp_all add: li(3) normaliseThumbprint_sha1)
  moreover have "if isl r then contentOf fs1 dir WindowsFileName = contentOf fs dir WindowsFileName
      else contentOf fs1 (profileDir stateDir outDir) WindowsFileName = Some c" for dir
    by (rule writeProfile_result [OF c w])
  moreover have "contentOf fs1 dir n = contentOf fs dir n" if "n \<notin> {WindowsFileName, WindowsFileName @ ''.tmp''}" for dir n
    by (rule writeProfile_frame [OF c w that])
  ultimately show ?thesis using sd cfg li fs1 by (cases "isl r") auto
qed simp

definition exPinLib :: cert_lib where
  "exPinLib = exLib\<lparr>cl_parse := (\<lambda>der. Some \<lparr>crt_Raw = der, crt_Subject = ''a1'', crt_CommonName = ''a1'', crt_RawSubject = [],
       crt_RawIssuer = [], crt_NotBefore = 0, crt_NotAfter = 0, crt_Serial = 31, crt_Pub = der\<rparr>),
     cl_signedBy := (\<lambda>_ _. True), cl_sha1 := (\<lambda>_. replicate 20 0)\<rparr>"

definition exPinDevice :: device where
  "exPinDevice = exDevice\<lparr>dv_My := [(''leaf'', ''key'')], dv_CA := [''ca'']\<rparr>"

definition exWindows :: host_env where
  "exWindows = \<lparr>he_stateDir = ''/etc/everwas'', he_goos = ''windows'', he_root = True, he_home = None\<rparr>"

definition exSupplicant :: "int \<times> string list \<times> dirs" where
  "exSupplicant = CmdSupplicantProfile exWindows exJSON exDisk (\<lambda>_ agentID. PresenceWindows exPinLib False agentID exPinDevice)
     False [] [] exFiles"

lemma exSupplicant_code: "fst exSupplicant = 0"
proof -
  have pin: "PresenceWindows exPinLib False (cf_AgentID exCfg) exPinDevice = Inr (hexOf (replicate 20 0))"
    by (simp add: PresenceWindows_def storedDeviceCert_def storedIssuerOf_def issuerIn_def exPinLib_def exPinDevice_def
        exDevice_def exCfg_def emptyConfig_def)
  have "\<exists>c. renderFor ''windows'' \<lparr>pf_Identity = ''a1'', pf_CertDir = joinOn ''windows'' ''/etc/everwas'' ''netcert'', pf_SSID = [],
      pf_ClientIssuerThumbprint = hexOf (replicate 20 0)\<rparr> = Inr (WindowsFileName, c)" (is "\<exists>c. renderFor _ ?p = _")
  proof -
    have "validateProfile ?p = None \<and> trimSpace (hexOf (replicate 20 0)) \<noteq> [] \<and> trimSpace WindowsProfileName \<noteq> []" by code_simp
    then show ?thesis
      using normaliseThumbprint_sha1 [of "replicate 20 0"]
      by (simp add: renderFor_def Wired_def RenderWindows_def windowsLines_def)
  qed
  then show ?thesis
    using pin exFiles_load
    by (auto simp: exSupplicant_def CmdSupplicantProfile_def exWindows_def stateDirOf_def profileDir_def exCfg_def emptyConfig_def
        Enrolled_def writeProfile_def exDisk_def Let_def)
qed

theorem supplicant_profile_pinned_witness:
  "\<exists>c. contentOf (snd (snd exSupplicant)) ''/etc/everwas'' WindowsFileName = Some c \<and>
     elements ''IssuerHash'' (fileLines c) = [hexOf (replicate 20 0)]"
proof -
  have w: "he_goos exWindows = ''windows''" "\<forall>x. length (cl_sha1 exPinLib x) = 20" by (simp_all add: exWindows_def exPinLib_def)
  have r: "CmdSupplicantProfile exWindows exJSON exDisk (\<lambda>_ agentID. PresenceWindows exPinLib False agentID exPinDevice)
     False [] [] exFiles = (0, fst (snd exSupplicant), snd (snd exSupplicant))"
    using exSupplicant_code by (metis exSupplicant_def prod.collapse)
  have "stateDirOf exWindows = Some ''/etc/everwas''" "profileDir ''/etc/everwas'' [] = ''/etc/everwas''"
    "cl_sha1 exPinLib = (\<lambda>_. replicate 20 0)"
    by (simp_all add: exWindows_def stateDirOf_def profileDir_def exPinLib_def)
  then show ?thesis using conjunct1 [OF supplicant_profile_pinned [OF w r]] by auto
qed

text \<open>Whoever asks for a wireless profile is told to try it with the driver of wired networks.\<close>

lemma wireless_told_wired:
  assumes "he_goos h \<noteq> ''windows''" "ssid \<noteq> []"
    and run: "CmdSupplicantProfile h js env presence False ssid outDir fs = (0, out, fs')"
  shows "\<exists>path dir c. last out = ''  wpa_supplicant -c '' @ path @ '' -i <interface> -D wired'' \<and>
    contentOf fs' dir wpaFileName = Some c \<and> CHR 0x09 # ''key_mgmt=WPA-EAP'' \<in> set (fileLines c)"
proof -
  from run obtain dir p path where w: "writeProfile (he_goos h) env dir p fs = (Inr path, fs')" and p: "pf_SSID p = ssid"
    and out: "last out = ''  wpa_supplicant -c '' @ path @ '' -i <interface> -D wired''"
    unfolding CmdSupplicantProfile_def using assms(1)
    by (auto simp: Let_def applySteps_def split: option.splits if_splits sum.splits prod.splits)
  then obtain name c where "renderFor (he_goos h) p = Inr (name, c)"
    by (auto simp: writeProfile_def split: sum.splits)
  then have c: "renderFor (he_goos h) p = Inr (wpaFileName, c)" and "c = unlinesNL (renderLines p)"
    using assms(1) by (auto simp: renderFor_def RenderWPA_def split: sum.splits option.splits)
  then have "fileLines c = renderLines p" by (simp add: fileLines_unlinesNL renderLines_no_newline)
  then have "CHR 0x09 # ''key_mgmt=WPA-EAP'' \<in> set (fileLines c)" using p assms(2) by (simp add: renderLines_def Wired_def)
  moreover have "contentOf fs' dir wpaFileName = Some c" using writeProfile_result [OF c w] by simp
  ultimately show ?thesis using out by blast
qed

end
