(* ===== verification/Snapshot.thy ===== *)
theory Snapshot
  imports Sched Go_Float "HOL-Library.List_Lexorder" "HOL-Library.Char_ord" "HOL-Library.Multiset"
begin

text \<open>
  Snapshots of the inventory as they are sent, \<open>agent/internal/inventory\<close>: the canonical JSON text
  a snapshot is hashed over (\<open>hash.go\<close>), the object with its hash folded in, and publishing it
  (\<open>inventory.go\<close>).

  A payload is the tree its encoding decodes to, a number the text it is written with; \<open>None\<close> stands for
  a payload that cannot be encoded, such as one with a number that is not finite. Text is UTF-8 without
  the two line separators that \<open>encoding/json\<close> escapes on top of the characters below.
\<close>

section \<open>JSON\<close>

datatype json = JNull | JBool bool | JNum string | JStr string | JArr "json list" | JObj "(string \<times> json) list"

text \<open>How \<open>encoding/json\<close> writes a string: the short escapes, and the rest of what it escapes in hexadecimal.\<close>

definition jsonLetter :: "char \<Rightarrow> char option" where
  "jsonLetter = map_of
     [(CHR 0x22, CHR 0x22), (CHR 0x5C, CHR 0x5C), (CHR 0x08, CHR ''b''), (CHR 0x0C, CHR ''f''), (CHR 0x0A, CHR ''n''),
      (CHR 0x0D, CHR ''r''), (CHR 0x09, CHR ''t'')]"

definition jsonHex :: "char \<Rightarrow> bool" where
  "jsonHex c \<longleftrightarrow> (of_char c :: nat) < 32 \<or> c = CHR ''<'' \<or> c = CHR ''>'' \<or> c = CHR ''&''"

definition encChar :: "char \<Rightarrow> string" where
  "encChar c =
     (case jsonLetter c of
        Some e \<Rightarrow> [CHR 0x5C, e]
      | None \<Rightarrow> if jsonHex c then [CHR 0x5C, CHR ''u'', CHR ''0'', CHR ''0''] @ hexByte (byteOf c) else [c])"

definition encString :: "string \<Rightarrow> string" where
  "encString s = CHR 0x22 # concat (map encChar s) @ [CHR 0x22]"

definition encField :: "('a \<Rightarrow> string) \<Rightarrow> string \<times> 'a \<Rightarrow> string" where
  "encField f kv = encString (fst kv) @ CHR '':'' # f (snd kv)"

lemma encField_cong [fundef_cong]:
  "kv = kv' \<Longrightarrow> (\<And>v. v \<in> Basic_BNFs.snds kv' \<Longrightarrow> f v = g v) \<Longrightarrow> encField f kv = encField g kv'"
  by (cases kv') (simp add: encField_def)

fun encode :: "json \<Rightarrow> string" where
  "encode JNull = ''null''"
| "encode (JBool b) = showBool b"
| "encode (JNum n) = n"
| "encode (JStr s) = encString s"
| "encode (JArr vs) = CHR ''['' # joinWith '','' (map encode vs) @ '']''"
| "encode (JObj kvs) = CHR ''{'' # joinWith '','' (map (encField encode) kvs) @ ''}''"

text \<open>The untyped decoding has its objects as maps, which are encoded in the order of their keys.\<close>

fun canon :: "json \<Rightarrow> json" where
  "canon (JArr vs) = JArr (map canon vs)"
| "canon (JObj kvs) = JObj (sort_key fst (map (map_prod id canon) kvs))"
| "canon v = v"

definition canonText :: "json \<Rightarrow> string" where
  "canonText v = encode (canon v)"

section \<open>Hashing and publishing\<close>

text \<open>
  \<open>sn_sha256\<close> is SHA-256, and \<open>sn_float\<close> what becomes of a number that is decoded into a \<open>float64\<close> and
  encoded again, as in \<open>withSnapshotHash\<close>; \<open>snapshotHash\<close> decodes with \<open>UseNumber\<close>, which keeps it.
\<close>

record snapshot_env =
  sn_sha256 :: "string \<Rightarrow> 8 word list"
  sn_float :: "string \<Rightarrow> string"

datatype snapshot_error = NotEncodable | NotAnObject | PublishFailed

definition snapshotHash :: "snapshot_env \<Rightarrow> json option \<Rightarrow> snapshot_error + string" where
  "snapshotHash env payload =
     (case payload of None \<Rightarrow> Inl NotEncodable | Some v \<Rightarrow> Inr (hexOf (sn_sha256 env (canonText v))))"

fun throughFloat :: "(string \<Rightarrow> string) \<Rightarrow> json \<Rightarrow> json" where
  "throughFloat f (JNum n) = JNum (f n)"
| "throughFloat f (JArr vs) = JArr (map (throughFloat f) vs)"
| "throughFloat f (JObj kvs) = JObj (map (map_prod id (throughFloat f)) kvs)"
| "throughFloat f v = v"

definition hashKey :: string where
  "hashKey = ''snapshot_hash''"

definition withSnapshotHash :: "snapshot_env \<Rightarrow> json option \<Rightarrow> snapshot_error + json" where
  "withSnapshotHash env payload =
     (case snapshotHash env payload of
        Inl e \<Rightarrow> Inl e
      | Inr hash \<Rightarrow>
          (case payload of
             Some (JObj kvs) \<Rightarrow>
               (case throughFloat (sn_float env) (JObj kvs) of
                  JObj data \<Rightarrow> Inr (canon (JObj (filter (\<lambda>kv. fst kv \<noteq> hashKey) data @ [(hashKey, JStr hash)])))
                | _ \<Rightarrow> Inl NotAnObject)
           | _ \<Rightarrow> Inl NotAnObject))"

text \<open>A message: its subject, its header \<open>Nats-Msg-Id\<close> and the envelope.\<close>

type_synonym snapshot_message = "string \<times> string \<times> envelope"

definition publishSnapshot ::
  "snapshot_env \<Rightarrow> gtime \<Rightarrow> string \<Rightarrow> bool \<Rightarrow> string \<Rightarrow> string \<Rightarrow> json option \<Rightarrow> snapshot_message list \<Rightarrow>
   snapshot_error option \<times> snapshot_message list" where
  "publishSnapshot env now msgID busFails agentID kind payload sent =
     (case withSnapshotHash env payload of
        Inl e \<Rightarrow> (Some e, sent)
      | Inr data \<Rightarrow>
          (case NewEnvelope (Inr (encode data)) now ''inventory'' agentID msgID of
             Inl e \<Rightarrow> (Some e, sent)
           | Inr e \<Rightarrow>
               if busFails then (Some PublishFailed, sent)
               else (None, sent @ [(Inventory agentID kind, env_MsgID e, e)])))"

section \<open>The text determines the tree\<close>

definition numberText :: "string \<Rightarrow> bool" where
  "numberText n \<longleftrightarrow> n \<noteq> [] \<and> set n \<subseteq> set ''0123456789+-.eE''"

fun wfJson :: "json \<Rightarrow> bool" where
  "wfJson (JNum n) \<longleftrightarrow> numberText n"
| "wfJson (JArr vs) \<longleftrightarrow> list_all wfJson vs"
| "wfJson (JObj kvs) \<longleftrightarrow> distinct (map fst kvs) \<and> list_all (\<lambda>kv. wfJson (snd kv)) kvs"
| "wfJson v \<longleftrightarrow> True"

lemma jsonLetter_set: "jsonLetter c = Some e \<Longrightarrow> (c, e) \<in> set
     [(CHR 0x22, CHR 0x22), (CHR 0x5C, CHR 0x5C), (CHR 0x08, CHR ''b''), (CHR 0x0C, CHR ''f''), (CHR 0x0A, CHR ''n''),
      (CHR 0x0D, CHR ''r''), (CHR 0x09, CHR ''t'')]"
  unfolding jsonLetter_def by (rule map_of_SomeD)

lemma jsonLetter_inj: "jsonLetter c = Some e \<Longrightarrow> jsonLetter d = Some e \<Longrightarrow> c = d"
  by (drule jsonLetter_set, drule jsonLetter_set) auto

lemma jsonLetter_not_u: "jsonLetter c \<noteq> Some (CHR ''u'')"
  using jsonLetter_set [of c "CHR ''u''"] by auto

lemma jsonLetter_own: "jsonLetter (CHR 0x22) \<noteq> None" "jsonLetter (CHR 0x5C) \<noteq> None"
  by (simp_all add: jsonLetter_def)

lemma hexDigit_inj: "m < 16 \<Longrightarrow> n < 16 \<Longrightarrow> hexDigit m = hexDigit n \<Longrightarrow> m = n"
proof -
  assume "m < 16" "n < 16" "hexDigit m = hexDigit n"
  moreover have "distinct ''0123456789abcdef''" by simp
  ultimately show "m = n" by (simp add: hexDigit_def nth_eq_iff_index_eq)
qed

lemma hexByte_inj: "hexByte a = hexByte b \<Longrightarrow> a = b"
proof -
  assume h: "hexByte a = hexByte b"
  have *: "unat w div 16 < 16" "unat w mod 16 < 16" for w :: "8 word"
    using unsigned_less [of w, where ?'a=nat] by (simp_all add: less_mult_imp_div_less)
  from h have "unat a div 16 = unat b div 16" "unat a mod 16 = unat b mod 16"
    using hexDigit_inj * by (auto simp: hexByte_def)
  then have "unat a = unat b" by (metis div_mult_mod_eq)
  then show ?thesis by (rule unsigned_word_eqI)
qed

lemma byteOf_inj: "byteOf c = byteOf d \<Longrightarrow> c = d"
proof -
  assume "byteOf c = byteOf d"
  then have "unat (byteOf c) = unat (byteOf d)" by simp
  moreover have "unat (byteOf c) = of_char c" for c
    using nat_of_char_less_256 [of c] by (simp add: byteOf_def unat_of_nat take_bit_eq_mod)
  ultimately show ?thesis by simp
qed

definition escaped :: "string \<Rightarrow> char \<Rightarrow> bool" where
  "escaped w c \<longleftrightarrow> (\<exists>e. jsonLetter c = Some e \<and> w = [CHR 0x5C, e]) \<or>
     (jsonLetter c = None \<and> jsonHex c \<and> w = [CHR 0x5C, CHR ''u'', CHR ''0'', CHR ''0''] @ hexByte (byteOf c))"

lemma encChar_cases: "encChar c = [c] \<and> c \<noteq> CHR 0x22 \<and> c \<noteq> CHR 0x5C \<or> escaped (encChar c) c"
  using jsonLetter_own by (cases "jsonLetter c") (auto simp: encChar_def escaped_def)

lemma escaped_inj: "escaped v c \<Longrightarrow> escaped w d \<Longrightarrow> v @ r = w @ r' \<Longrightarrow> c = d \<and> r = r'"
proof -
  assume v: "escaped v c" and w: "escaped w d" and eq: "v @ r = w @ r'"
  have hex: "c = d \<and> r = r'" if "hexByte (byteOf c) @ r = hexByte (byteOf d) @ r'"
    using that byteOf_inj hexByte_inj by (metis append_eq_append_conv length_hexByte)
  show ?thesis
    using v w eq jsonLetter_inj jsonLetter_not_u hex unfolding escaped_def by fastforce
qed

lemma escaped_hd: "escaped w c \<Longrightarrow> \<exists>x. w = CHR 0x5C # x"
  by (auto simp: escaped_def)

lemma encChar_prefix: "encChar c @ r = encChar d @ r' \<Longrightarrow> c = d \<and> r = r'"
  using encChar_cases [of c] encChar_cases [of d] escaped_inj [of "encChar c" c "encChar d" d r r']
    escaped_hd [of "encChar c" c] escaped_hd [of "encChar d" d] by auto

lemma encChar_no_quote: "encChar c @ r \<noteq> CHR 0x22 # r'"
  using encChar_cases [of c] escaped_hd [of "encChar c" c] by auto

lemma encBody_prefix: "concat (map encChar a) @ CHR 0x22 # r = concat (map encChar b) @ CHR 0x22 # r' \<Longrightarrow> a = b \<and> r = r'"
proof (induction a arbitrary: b)
  case Nil
  show ?case
  proof (cases b)
    case (Cons d b')
    then show ?thesis using Nil encChar_no_quote [of d "concat (map encChar b') @ CHR 0x22 # r'" r] by (simp add: eq_commute)
  qed (use Nil in simp)
next
  case (Cons c a)
  show ?case
  proof (cases b)
    case Nil
    then show ?thesis using Cons.prems encChar_no_quote [of c "concat (map encChar a) @ CHR 0x22 # r" r'] by simp
  next
    case b: (Cons d b')
    then have "encChar c @ concat (map encChar a) @ CHR 0x22 # r = encChar d @ concat (map encChar b') @ CHR 0x22 # r'"
      using Cons.prems by simp
    from encChar_prefix [OF this] show ?thesis using Cons.IH [of b'] b by simp
  qed
qed

lemma encString_prefix: "encString a @ r = encString b @ r' \<Longrightarrow> a = b \<and> r = r'"
  using encBody_prefix [of a r b r'] by (simp add: encString_def)

definition delimited :: "string \<Rightarrow> bool" where
  "delimited s \<longleftrightarrow> s = [] \<or> hd s \<in> {CHR '','', CHR '']'', CHR ''}''}"

definition codeWord :: "('a \<Rightarrow> string) \<Rightarrow> 'a \<Rightarrow> 'a \<Rightarrow> bool" where
  "codeWord f x y \<longleftrightarrow> (\<forall>s t. delimited s \<longrightarrow> delimited t \<longrightarrow> f x @ s = f y @ t \<longrightarrow> x = y \<and> s = t)"

lemma joinWith_Cons_rest: "joinWith sep (w # ws) = w @ concat (map (\<lambda>v. sep @ v) ws)"
  by (induction ws arbitrary: w) simp_all

lemma rest_prefix:
  assumes "concat (map (\<lambda>v. CHR '','' # f v) xs) @ close # s = concat (map (\<lambda>v. CHR '','' # f v) ys) @ close # t"
    and "\<And>x y. x \<in> set xs \<Longrightarrow> y \<in> set ys \<Longrightarrow> codeWord f x y" and "close \<in> {CHR '']'', CHR ''}''}"
  shows "xs = ys \<and> s = t"
  using assms(1,2)
proof (induction xs arbitrary: ys)
  case Nil
  then show ?case using assms(3) by (cases ys) auto
next
  case (Cons x xs)
  show ?case
  proof (cases ys)
    case Nil
    then show ?thesis using Cons.prems(1) assms(3) by auto
  next
    case ys: (Cons y ys')
    let ?s = "concat (map (\<lambda>v. CHR '','' # f v) xs) @ close # s" and ?t = "concat (map (\<lambda>v. CHR '','' # f v) ys') @ close # t"
    have "delimited (concat (map (\<lambda>v. CHR '','' # f v) zs) @ close # u)" for zs u
      using assms(3) by (cases zs) (auto simp: delimited_def)
    moreover have "f x @ ?s = f y @ ?t" using Cons.prems(1) ys by simp
    moreover have "codeWord f x y" using Cons.prems(2) ys by simp
    ultimately have "x = y" "?s = ?t" unfolding codeWord_def by blast+
    then show ?thesis using Cons.IH [of ys'] Cons.prems(2) ys by simp
  qed
qed

text \<open>A list between brackets is read back when its elements are.\<close>

lemma list_prefix:
  assumes eq: "joinWith '','' (map f xs) @ close # s = joinWith '','' (map f ys) @ close # t"
    and code: "\<And>x y. x \<in> set xs \<Longrightarrow> y \<in> set ys \<Longrightarrow> codeWord f x y" and close: "close \<in> {CHR '']'', CHR ''}''}"
    and start: "\<And>z r. z \<in> set xs \<union> set ys \<Longrightarrow> f z @ r \<noteq> close # s \<and> f z @ r \<noteq> close # t"
  shows "xs = ys \<and> s = t"
proof (cases xs; cases ys)
  fix x xs' y ys' assume xs: "xs = x # xs'" and ys: "ys = y # ys'"
  have "(CHR '','' # f x) @ concat (map (\<lambda>v. CHR '','' # f v) xs') @ close # s =
      (CHR '','' # f y) @ concat (map (\<lambda>v. CHR '','' # f v) ys') @ close # t"
    using eq by (simp add: xs ys joinWith_Cons_rest comp_def)
  then have "concat (map (\<lambda>v. CHR '','' # f v) xs) @ close # s = concat (map (\<lambda>v. CHR '','' # f v) ys) @ close # t"
    by (simp add: xs ys)
  then show ?thesis using rest_prefix [OF _ code close] by blast
next
  fix y ys' assume "xs = []" "ys = y # ys'"
  then show ?thesis using eq start [of y] by (simp add: joinWith_Cons_rest) metis
next
  fix x xs' assume "xs = x # xs'" "ys = []"
  then show ?thesis using eq start [of x] by (simp add: joinWith_Cons_rest)
qed (use eq in simp)

lemma takeWhile_in: "set u \<subseteq> A \<Longrightarrow> v = [] \<or> hd v \<notin> A \<Longrightarrow> takeWhile (\<lambda>c. c \<in> A) (u @ v) = u"
  by (cases v) (auto simp: takeWhile_append subset_iff)

lemma delimited_no_number: "delimited v \<Longrightarrow> v = [] \<or> hd v \<notin> set ''0123456789+-.eE''"
  by (auto simp: delimited_def)

lemma number_prefix:
  assumes "numberText m" "numberText n" "delimited s" "delimited t" "m @ s = n @ t"
  shows "m = n \<and> s = t"
proof -
  have "takeWhile (\<lambda>c. c \<in> set ''0123456789+-.eE'') (u @ v) = u" if "numberText u" "delimited v" for u v
    using that delimited_no_number by (intro takeWhile_in) (simp_all only: numberText_def)
  then have "m = n" using assms by metis
  then show ?thesis using assms(5) by simp
qed

text \<open>The first character of a text tells what it is the text of.\<close>

definition kindChar :: "char \<Rightarrow> nat" where
  "kindChar c = (if c = CHR ''n'' then 0 else if c = CHR ''t'' \<or> c = CHR ''f'' then 1 else if c = CHR 0x22 then 3
     else if c = CHR ''['' then 4 else if c = CHR ''{'' then 5 else if c \<in> set ''0123456789+-.eE'' then 2 else 6)"

fun kindOf :: "json \<Rightarrow> nat" where
  "kindOf JNull = 0"
| "kindOf (JBool b) = 1"
| "kindOf (JNum n) = 2"
| "kindOf (JStr s) = 3"
| "kindOf (JArr vs) = 4"
| "kindOf (JObj kvs) = 5"

lemma numberText_hd: "numberText n \<Longrightarrow> n \<noteq> [] \<and> hd n \<in> set ''0123456789+-.eE''"
  unfolding numberText_def by (meson hd_in_set subsetD)

lemma kindChar_number: "c \<in> set ''0123456789+-.eE'' \<Longrightarrow> kindChar c = 2"
  by (auto simp: kindChar_def)

lemma encode_hd: "wfJson v \<Longrightarrow> encode v \<noteq> [] \<and> kindChar (hd (encode v)) = kindOf v"
  by (cases v) (use numberText_hd kindChar_number in \<open>auto simp: kindChar_def showBool_def encString_def\<close>)

lemma kindOf_le: "kindOf v \<le> 5"
  by (cases v) simp_all

lemma kindChar_close: "close \<in> {CHR '']'', CHR ''}''} \<Longrightarrow> kindChar close = 6"
proof -
  have "kindChar (CHR '']'') = 6" "kindChar (CHR ''}'') = 6" by code_simp+
  then show "close \<in> {CHR '']'', CHR ''}''} \<Longrightarrow> kindChar close = 6" by blast
qed

lemma encode_start:
  assumes "wfJson v" "close \<in> {CHR '']'', CHR ''}''}"
  shows "encode v @ r \<noteq> close # s"
proof
  assume "encode v @ r = close # s"
  then have "hd (encode v) = close" using encode_hd [OF assms(1)] by (cases "encode v") simp_all
  then show False using encode_hd [OF assms(1)] kindOf_le [of v] kindChar_close [OF assms(2)] by simp
qed

lemma field_start: "close \<in> {CHR '']'', CHR ''}''} \<Longrightarrow> encField f kv @ r \<noteq> close # s"
  by (auto simp: encField_def encString_def)

lemma field_codeWord:
  assumes "codeWord f (snd x) (snd y)"
  shows "codeWord (encField f) x y"
  unfolding codeWord_def
proof (intro allI impI)
  fix s t assume d: "delimited s" "delimited t" and eq: "encField f x @ s = encField f y @ t"
  then have "encString (fst x) @ CHR '':'' # f (snd x) @ s = encString (fst y) @ CHR '':'' # f (snd y) @ t"
    by (simp add: encField_def)
  from encString_prefix [OF this] have "fst x = fst y" "f (snd x) @ s = f (snd y) @ t" by simp_all
  then show "x = y \<and> s = t" using assms d unfolding codeWord_def by (metis prod.expand)
qed

lemma kind_eq:
  assumes "wfJson v" "wfJson w" "encode v @ s = encode w @ t"
  shows "kindOf v = kindOf w"
  using encode_hd [OF assms(1)] encode_hd [OF assms(2)] assms(3) by (metis hd_append2)

lemma encode_codeWord: "wfJson v \<Longrightarrow> wfJson w \<Longrightarrow> codeWord encode v w"
proof (induction v arbitrary: w rule: encode.induct)
  case (5 vs)
  show ?case unfolding codeWord_def
  proof (intro allI impI)
    fix s t assume d: "delimited s" "delimited t" and eq: "encode (JArr vs) @ s = encode w @ t"
    from kind_eq [OF 5(2,3) eq] obtain ws where w: "w = JArr ws" by (cases w) simp_all
    have "joinWith '','' (map encode vs) @ CHR '']'' # s = joinWith '','' (map encode ws) @ CHR '']'' # t"
      using eq by (simp add: w)
    moreover have "codeWord encode x y" if "x \<in> set vs" "y \<in> set ws" for x y
      using 5 that by (simp add: w list_all_iff)
    moreover have "encode z @ r \<noteq> CHR '']'' # u" if "z \<in> set vs \<union> set ws" for z r u
      using encode_start [of z "CHR '']''" r u] 5(2,3) that by (auto simp: w list_all_iff)
    ultimately show "JArr vs = w \<and> s = t" using list_prefix [of encode vs "CHR '']''" s ws t] by (simp add: w)
  qed
next
  case (6 kvs)
  show ?case unfolding codeWord_def
  proof (intro allI impI)
    fix s t assume d: "delimited s" "delimited t" and eq: "encode (JObj kvs) @ s = encode w @ t"
    from kind_eq [OF 6(2,3) eq] obtain kws where w: "w = JObj kws" by (cases w) simp_all
    have "joinWith '','' (map (encField encode) kvs) @ CHR ''}'' # s = joinWith '','' (map (encField encode) kws) @ CHR ''}'' # t"
      using eq by (simp add: w)
    moreover have "codeWord (encField encode) x y" if "x \<in> set kvs" "y \<in> set kws" for x y
    proof (rule field_codeWord)
      have "snd x \<in> Basic_BNFs.snds x" by (cases x) simp
      then show "codeWord encode (snd x) (snd y)" using 6 that by (simp add: w list_all_iff)
    qed
    moreover have "encField encode z @ r \<noteq> CHR ''}'' # u" for z r u by (rule field_start) simp
    ultimately show "JObj kvs = w \<and> s = t" using list_prefix [of "encField encode" kvs "CHR ''}''" s kws t] by (simp add: w)
  qed
next
  case 1
  show ?case unfolding codeWord_def
  proof (intro allI impI)
    fix s t assume "encode JNull @ s = encode w @ t"
    from kind_eq [OF 1(1,2) this] this show "JNull = w \<and> s = t" by (cases w) simp_all
  qed
next
  case (2 b)
  show ?case unfolding codeWord_def
  proof (intro allI impI)
    fix s t assume "encode (JBool b) @ s = encode w @ t"
    from kind_eq [OF 2(1,2) this] this show "JBool b = w \<and> s = t" by (cases w) (simp_all add: showBool_def split: if_splits)
  qed
next
  case (3 n)
  show ?case unfolding codeWord_def
  proof (intro allI impI)
    fix s t assume d: "delimited s" "delimited t" and eq: "encode (JNum n) @ s = encode w @ t"
    from kind_eq [OF 3(1,2) eq] obtain m where w: "w = JNum m" by (cases w) simp_all
    then show "JNum n = w \<and> s = t" using number_prefix [of n m s t] 3 d eq by simp
  qed
next
  case (4 x)
  show ?case unfolding codeWord_def
  proof (intro allI impI)
    fix s t assume eq: "encode (JStr x) @ s = encode w @ t"
    from kind_eq [OF 4(1,2) eq] obtain y where w: "w = JStr y" by (cases w) simp_all
    then show "JStr x = w \<and> s = t" using encString_prefix [of x s y t] eq by simp
  qed
qed

lemma encode_inj: "wfJson v \<Longrightarrow> wfJson w \<Longrightarrow> encode v = encode w \<Longrightarrow> v = w"
  using encode_codeWord [of v w] unfolding codeWord_def by (metis append_Nil2 delimited_def)

section \<open>The hash follows the content\<close>

text \<open>The same content: objects as maps, whatever the order of their fields.\<close>

inductive sameJson :: "json \<Rightarrow> json \<Rightarrow> bool" where
  leaf: "kindOf v < 4 \<Longrightarrow> sameJson v v"
| arr: "list_all2 sameJson vs ws \<Longrightarrow> sameJson (JArr vs) (JArr ws)"
| obj: "list_all2 (\<lambda>a b. fst a = fst b \<and> sameJson (snd a) (snd b)) kvs kws \<Longrightarrow> mset kws' = mset kws \<Longrightarrow>
    sameJson (JObj kvs) (JObj kws')"

lemma fst_map_prod_id [simp]: "fst \<circ> map_prod id f = fst"
  by auto

lemma sort_fields_eq:
  assumes "mset xs = mset ys" "distinct (map fst xs)"
  shows "sort_key fst xs = sort_key fst (ys :: (string \<times> 'a) list)"
  using assms by (intro sort_key_inj_key_eq) (auto simp: distinct_map)

lemma distinct_map_sort: "distinct (map f (sort_key g xs)) \<longleftrightarrow> distinct (map f xs)"
  by (rule mset_eq_imp_distinct_iff) simp

lemma wfJson_canon: "wfJson v \<Longrightarrow> wfJson (canon v)"
proof (induction v rule: canon.induct)
  case (2 kvs)
  have "distinct (map fst (sort_key fst (map (map_prod id canon) kvs)))"
    using 2(2) distinct_map_sort [of fst fst "map (map_prod id canon) kvs"] by simp
  then show ?case using 2 by (auto simp: list_all_iff)
qed (auto simp: list_all_iff)

lemma canon_same: "sameJson v w \<Longrightarrow> wfJson v \<Longrightarrow> canon v = canon w"
proof (induction rule: sameJson.induct)
  case (arr vs ws)
  then show ?case by (simp add: list_all_iff list_all2_conv_all_nth list_eq_iff_nth_eq)
next
  case (obj kvs kws kws')
  have "map (map_prod id canon) kvs = map (map_prod id canon) kws"
    using obj by (auto simp: list_all_iff list_all2_conv_all_nth list_eq_iff_nth_eq map_prod_def split_beta)
  moreover have "mset (map (map_prod id canon) kws) = mset (map (map_prod id canon) kws')"
    using obj(2) by simp
  moreover have "distinct (map fst (map (map_prod id canon) kvs))" using obj(3) by simp
  ultimately have "sort_key fst (map (map_prod id canon) kvs) = sort_key fst (map (map_prod id canon) kws')"
    using sort_fields_eq by metis
  then show ?case by simp
qed simp

lemma mset_map_reorder: "mset (map f xs) = mset (map f ys) \<Longrightarrow> \<exists>zs. mset zs = mset ys \<and> map f zs = map f xs"
proof (induction xs arbitrary: ys)
  case (Cons x xs)
  then have "f x \<in> set (map f ys)" by (metis list.set_intros(1) list.simps(9) mset_eq_setD)
  then obtain y where y: "y \<in> set ys" "f y = f x" by auto
  then have "mset ys = add_mset y (mset (remove1 y ys))" by simp
  then have "mset (map f xs) = mset (map f (remove1 y ys))" using Cons.prems y by (simp add: mset_map del: mset_remove1)
  from Cons.IH [OF this] obtain zs where "mset zs = mset (remove1 y ys)" "map f zs = map f xs" by blast
  then have "mset (y # zs) = mset ys \<and> map f (y # zs) = map f (x # xs)" using y by simp
  then show ?case by blast
qed simp

lemma same_leaf: "kindOf v < 4 \<Longrightarrow> canon v = canon w \<Longrightarrow> sameJson v w"
  by (cases v; cases w) (auto intro: sameJson.leaf)

lemma same_canon: "canon v = canon w \<Longrightarrow> sameJson v w"
proof (induction v arbitrary: w rule: canon.induct)
  case (1 vs)
  from 1(2) obtain ws where w: "w = JArr ws" "map canon vs = map canon ws" by (cases w) simp_all
  then show ?case
    using 1(1) by (auto intro!: sameJson.arr simp: list_all2_conv_all_nth list_eq_iff_nth_eq)
next
  case (2 kvs)
  from 2(2) obtain kws where w: "w = JObj kws" "sort_key fst (map (map_prod id canon) kvs) = sort_key fst (map (map_prod id canon) kws)"
    by (cases w) simp_all
  then have "mset (map (map_prod id canon) kvs) = mset (map (map_prod id canon) kws)" by (metis mset_sort)
  from mset_map_reorder [OF this] obtain zs where zs: "mset zs = mset kws" "map (map_prod id canon) zs = map (map_prod id canon) kvs"
    by blast
  have "list_all2 (\<lambda>a b. fst a = fst b \<and> sameJson (snd a) (snd b)) kvs zs"
    unfolding list_all2_conv_all_nth
  proof (intro conjI allI impI)
    show len: "length kvs = length zs" using zs(2) by (metis length_map)
    fix i assume i: "i < length kvs"
    then have "map_prod id canon (kvs ! i) = map_prod id canon (zs ! i)" using zs(2) len by (metis nth_map)
    then have "fst (kvs ! i) = fst (zs ! i)" "canon (snd (kvs ! i)) = canon (snd (zs ! i))"
      by (cases "kvs ! i"; cases "zs ! i"; simp)+
    then show "fst (kvs ! i) = fst (zs ! i)" "sameJson (snd (kvs ! i)) (snd (zs ! i))"
      using 2(1) [of "kvs ! i" "snd (kvs ! i)"] i by (auto simp: snds.simps)
  qed
  then show ?case using sameJson.obj zs(1) w(1) by simp
qed (erule same_leaf [rotated], simp)+

text \<open>
  C35. Two snapshots are hashed over the same text exactly when they have the same content: the order in
  which the fields of an object come does not change the hash, and any difference in content changes the
  text that is hashed.
\<close>

theorem canonical_text_faithful:
  assumes "wfJson v" "wfJson w"
  shows "canonText v = canonText w \<longleftrightarrow> sameJson v w"
proof
  assume "canonText v = canonText w"
  then have "canon v = canon w"
    using encode_inj [OF wfJson_canon [OF assms(1)] wfJson_canon [OF assms(2)]] by (simp add: canonText_def)
  then show "sameJson v w" by (rule same_canon)
next
  assume "sameJson v w"
  then show "canonText v = canonText w" using canon_same assms(1) by (simp add: canonText_def)
qed

theorem canonical_text_faithful_witness:
  "sameJson (JObj [(''b'', JNum ''1''), (''a'', JStr ''x'')]) (JObj [(''a'', JStr ''x''), (''b'', JNum ''1'')])"
proof -
  let ?v = "JObj [(''b'', JNum ''1''), (''a'', JStr ''x'')]" and ?w = "JObj [(''a'', JStr ''x''), (''b'', JNum ''1'')]"
  have "wfJson ?v" "wfJson ?w" "canonText ?v = canonText ?w" by code_simp+
  then show ?thesis using canonical_text_faithful [of ?v ?w] by blast
qed

text \<open>What a receiver hashes: the object without its hash.\<close>

definition withoutHash :: "json \<Rightarrow> json" where
  "withoutHash v = (case v of JObj kvs \<Rightarrow> JObj (filter (\<lambda>kv. fst kv \<noteq> hashKey) kvs) | _ \<Rightarrow> v)"

fun stableNumbers :: "(string \<Rightarrow> string) \<Rightarrow> json \<Rightarrow> bool" where
  "stableNumbers f (JNum n) \<longleftrightarrow> f n = n"
| "stableNumbers f (JArr vs) \<longleftrightarrow> list_all (stableNumbers f) vs"
| "stableNumbers f (JObj kvs) \<longleftrightarrow> list_all (\<lambda>kv. stableNumbers f (snd kv)) kvs"
| "stableNumbers f v \<longleftrightarrow> True"

lemma map_fixed: "map f xs = xs \<longleftrightarrow> (\<forall>x\<in>set xs. f x = x)"
  by (induction xs) auto

lemma snds_snd: "snd kv \<in> Basic_BNFs.snds kv"
  by (cases kv) simp

lemma map_prod_snd_fixed: "map_prod id f kv = kv \<longleftrightarrow> f (snd kv) = snd kv"
  by (cases kv) simp

lemma throughFloat_stable: "throughFloat f v = v \<longleftrightarrow> stableNumbers f v"
proof (induction v)
  case (JObj kvs)
  have "throughFloat f (snd kv) = snd kv \<longleftrightarrow> stableNumbers f (snd kv)" if "kv \<in> set kvs" for kv
    using JObj [OF that snds_snd] .
  then show ?case by (simp add: list_all_iff map_fixed map_prod_snd_fixed)
qed (simp_all add: list_all_iff map_fixed)

lemma insort_key_map: "insort_key f (h x) (map h xs) = map h (insort_key (\<lambda>a. f (h a)) x xs)"
  by (induction xs) simp_all

lemma sort_key_map: "sort_key f (map h xs) = map h (sort_key (\<lambda>a. f (h a)) xs)"
  by (induction xs) (simp_all add: insort_key_map)

lemma sort_fields_map: "sort_key fst (map (map_prod id h) xs) = map (map_prod id h) (sort_key fst xs)"
  by (simp add: sort_key_map)

lemma map_values_cong:
  assumes "\<And>kv. kv \<in> set kvs \<Longrightarrow> g (h (snd kv)) = g' (h' (snd kv))"
  shows "map (map_prod id g) (map (map_prod id h) kvs) = map (map_prod id g') (map (map_prod id h') kvs)"
  using assms by (auto simp: map_prod_def split_beta)

lemma canon_throughFloat: "canon (throughFloat f v) = throughFloat f (canon v)"
proof (induction v)
  case (JObj kvs)
  then have "map (map_prod id canon) (map (map_prod id (throughFloat f)) kvs) =
      map (map_prod id (throughFloat f)) (map (map_prod id canon) kvs)"
    using snds_snd by (intro map_values_cong) blast
  then show ?case by (simp only: canon.simps throughFloat.simps sort_fields_map [symmetric])
qed simp_all

lemma canon_idem [simp]: "canon (canon v) = canon v"
proof (induction v)
  case (JObj kvs)
  have "canon (canon (snd kv)) = id (canon (snd kv))" if "kv \<in> set kvs" for kv using JObj [OF that snds_snd] by simp
  then have "map (map_prod id canon) (map (map_prod id canon) kvs) = map (map_prod id id) (map (map_prod id canon) kvs)"
    by (rule map_values_cong)
  then have "map (map_prod id canon) (map (map_prod id canon) kvs) = map (map_prod id canon) kvs" by (simp add: prod.map_id)
  then show ?case by (simp only: canon.simps sort_fields_map [symmetric] sort_key_id_if_sorted [OF sorted_sort_key])
qed simp_all

lemma stableNumbers_canon: "stableNumbers f (canon v) \<longleftrightarrow> stableNumbers f v"
proof (induction v rule: canon.induct)
  case (2 kvs)
  then show ?case by (auto simp: list_all_iff snds.simps)
qed (simp_all add: list_all_iff)

lemma wfJson_throughFloat:
  assumes "\<And>n. numberText n \<Longrightarrow> numberText (f n)"
  shows "wfJson v \<Longrightarrow> wfJson (throughFloat f v)"
proof (induction v)
  case (JObj kvs)
  then show ?case by (auto simp: list_all_iff snds.simps)
qed (use assms in \<open>simp_all add: list_all_iff\<close>)

lemma withoutHash_with:
  assumes "hashKey \<notin> fst ` set kvs"
  shows "withoutHash (canon (JObj (kvs @ [(hashKey, x)]))) = canon (JObj kvs)"
proof -
  have "filter (\<lambda>kv. fst kv \<noteq> hashKey) (map (map_prod id canon) kvs) = map (map_prod id canon) kvs"
    using assms by (force simp: filter_id_conv image_iff)
  then show ?thesis by (simp add: withoutHash_def filter_sort)
qed

text \<open>
  C36. A snapshot that is published carries the hash of the text of its payload. What a receiver gets when
  it takes the hash out and puts the rest in canonical form is that very text exactly when no number of
  the payload changes on its way through a \<open>float64\<close>: then the hash is that of the data it came with.
\<close>

theorem snapshot_hash_covers:
  assumes run: "publishSnapshot env now msgID False agentID kind (Some (JObj kvs)) sent = (r, sent')"
    and wf: "wfJson (JObj kvs)" "hashKey \<notin> fst ` set kvs"
    and float: "\<forall>n. numberText n \<longrightarrow> numberText (sn_float env n)"
  shows "\<exists>data e. r = None \<and> sent' = sent @ [(Inventory agentID kind, msgID, e)] \<and> env_Data e = encode data \<and>
    (hashKey, JStr (hexOf (sn_sha256 env (canonText (JObj kvs))))) \<in> set (case data of JObj fs \<Rightarrow> fs) \<and>
    (canonText (withoutHash data) = canonText (JObj kvs) \<longleftrightarrow> stableNumbers (sn_float env) (JObj kvs))"
proof -
  let ?f = "sn_float env" and ?hash = "hexOf (sn_sha256 env (canonText (JObj kvs)))"
  let ?fs = "map (map_prod id (throughFloat ?f)) kvs"
  let ?data = "canon (JObj (?fs @ [(hashKey, JStr ?hash)]))"
  have keys: "hashKey \<notin> fst ` set ?fs" using wf(2) by (force simp: image_iff)
  have "filter (\<lambda>kv. fst kv \<noteq> hashKey) ?fs = ?fs" using keys by (force simp: filter_id_conv image_iff)
  then have "withSnapshotHash env (Some (JObj kvs)) = Inr ?data" by (simp add: withSnapshotHash_def snapshotHash_def)
  then obtain e where e: "r = None" "sent' = sent @ [(Inventory agentID kind, msgID, e)]" "env_Data e = encode ?data"
    using run by (auto simp: publishSnapshot_def NewEnvelope_def)
  have w: "wfJson (throughFloat ?f (JObj kvs))" using wfJson_throughFloat [of ?f "JObj kvs"] float wf(1) by blast
  have "canonText (withoutHash ?data) = canonText (throughFloat ?f (JObj kvs))"
    unfolding withoutHash_with [OF keys] by (simp only: canonText_def canon_idem throughFloat.simps)
  also have "\<dots> = canonText (JObj kvs) \<longleftrightarrow> throughFloat ?f (canon (JObj kvs)) = canon (JObj kvs)"
    unfolding canonText_def canon_throughFloat [symmetric]
    using encode_inj [OF wfJson_canon [OF w] wfJson_canon [OF wf(1)]] by metis
  finally have "canonText (withoutHash ?data) = canonText (JObj kvs) \<longleftrightarrow> stableNumbers ?f (JObj kvs)"
    unfolding throughFloat_stable stableNumbers_canon .
  moreover have "(hashKey, JStr ?hash) \<in> set (case ?data of JObj fs \<Rightarrow> fs)" by simp
  ultimately show ?thesis using e by blast
qed

definition exSnapshotEnv :: snapshot_env where
  "exSnapshotEnv = \<lparr>sn_sha256 = (\<lambda>s. replicate 32 0), sn_float = (\<lambda>n. n)\<rparr>"

theorem snapshot_hash_covers_witness:
  "\<exists>data e. publishSnapshot exSnapshotEnv 0 ''m'' False ''a'' ''services'' (Some (JObj [(''n'', JNum ''1'')])) [] =
     (None, [(Inventory ''a'' ''services'', ''m'', e)]) \<and> env_Data e = encode data \<and> canonText (withoutHash data) = canonText (JObj [(''n'', JNum ''1'')])"
proof -
  let ?p = "publishSnapshot exSnapshotEnv 0 ''m'' False ''a'' ''services'' (Some (JObj [(''n'', JNum ''1'')])) []"
  have "wfJson (JObj [(''n'', JNum ''1'')])" by code_simp
  moreover have "hashKey \<notin> fst ` set [(''n'', JNum ''1'')]" by (simp add: hashKey_def)
  moreover have "\<forall>n. numberText n \<longrightarrow> numberText (sn_float exSnapshotEnv n)" by (simp add: exSnapshotEnv_def)
  moreover have "?p = (fst ?p, snd ?p)" by simp
  moreover have "stableNumbers (sn_float exSnapshotEnv) (JObj [(''n'', JNum ''1'')])" by (simp add: exSnapshotEnv_def)
  ultimately show ?thesis using snapshot_hash_covers [of exSnapshotEnv 0 "''m''" "''a''" "''services''" "[(''n'', JNum ''1'')]" "[]"]
    by (metis append_Nil)
qed

text \<open>A counter of more than 53 bits is not stable: this one is published as its predecessor.\<close>

lemma large_counter_drifts: "f64 (of_int 9007199254740993) = of_int 9007199254740992"
proof -
  have "ilog2 9007199254740993 = 53" by (rule ilog2_unique) simp_all
  then have "f64 9007199254740993 = of_int (roundEven (9007199254740993 / 2)) * 2" by (simp add: f64_def)
  moreover have "\<lfloor>9007199254740993 / (2 :: rat)\<rfloor> = 4503599627370496" by (simp add: floor_eq_iff)
  then have "roundEven (9007199254740993 / 2) = 4503599627370496" by (simp add: roundEven_def Let_def)
  ultimately show ?thesis by simp
qed

end
