(* ===== verification/Collectors.thy ===== *)
theory Collectors
  imports Snapshot Patch_Parse Posture "HOL-Library.Product_Lexorder"
begin

text \<open>
  What the inventory collects, \<open>agent/internal/inventory\<close>: installed software on Linux and Windows,
  services, interactive sessions on Unix and Windows, network interfaces, processes, the identity of the
  hardware. A collector returns a payload or says why there is none: there is no collector for the platform,
  or looking failed.

  The host answers through arguments: commands, the registry, the sessions, the tables of the system.
  \<open>sort.Slice\<close> is the argument \<open>srt\<close>: it returns the elements in some order that agrees with the
  comparison. A cancelled context is the number of checks that still find it alive.
\<close>

section \<open>Outcomes\<close>

datatype collect_error = NoCollector | CollectFailed

type_synonym runner = "string \<Rightarrow> string list \<Rightarrow> string option"

type_synonym ctx = "nat option"

definition ctxDone :: "ctx \<Rightarrow> bool \<times> ctx" where
  "ctxDone c = (case c of None \<Rightarrow> (False, None) | Some 0 \<Rightarrow> (True, Some 0) | Some (Suc n) \<Rightarrow> (False, Some n))"

definition omitEmpty :: "string \<Rightarrow> string \<Rightarrow> (string \<times> json) list" where
  "omitEmpty k s = (if s = [] then [] else [(k, JStr s)])"

section \<open>Software\<close>

definition maxPackages :: nat where
  "maxPackages = 5000"

record pkg =
  pk_Name :: string
  pk_Version :: string

definition pkgJson :: "pkg \<Rightarrow> json" where
  "pkgJson p = JObj [(''name'', JStr (pk_Name p)), (''version'', JStr (pk_Version p))]"

definition softwareJson :: "pkg list \<Rightarrow> json" where
  "softwareJson ps = JObj [(''packages'', JArr (map pkgJson ps))]"

definition parsePackage :: "char \<Rightarrow> string \<Rightarrow> pkg option" where
  "parsePackage sep line =
     (case cutOn sep line of
        None \<Rightarrow> None
      | Some (name, version) \<Rightarrow> if name = [] then None else Some \<lparr>pk_Name = name, pk_Version = version\<rparr>)"

fun packagesLoop :: "char \<Rightarrow> pkg list \<Rightarrow> string list \<Rightarrow> pkg list" where
  "packagesLoop sep pkgs [] = pkgs"
| "packagesLoop sep pkgs (line # ls) =
     (case parsePackage sep line of
        None \<Rightarrow> packagesLoop sep pkgs ls
      | Some p \<Rightarrow> if length (pkgs @ [p]) = maxPackages then pkgs @ [p] else packagesLoop sep (pkgs @ [p]) ls)"

definition parseTabPackages :: "string \<Rightarrow> pkg list" where
  "parseTabPackages out = packagesLoop (CHR 0x09) [] (linesOf out)"

definition parsePacmanPackages :: "string \<Rightarrow> pkg list" where
  "parsePacmanPackages out = packagesLoop (CHR '' '') [] (linesOf out)"

type_synonym pkg_query = "string \<times> string list \<times> (string \<Rightarrow> pkg list)"

definition pkgQueries :: "pkg_query list" where
  "pkgQueries =
     [(''dpkg-query'', [''-W'', ''-f'', ''${Package}'' @ [CHR 0x09] @ ''${Version}'' @ [CHR 0x0A]], parseTabPackages),
      (''rpm'', [''-qa'', ''--qf'', ''%{NAME}'' @ [CHR 0x09] @ ''%{VERSION}-%{RELEASE}'' @ [CHR 0x0A]], parseTabPackages),
      (''pacman'', [''-Q''], parsePacmanPackages)]"

fun queryLoop :: "(string \<Rightarrow> bool) \<Rightarrow> runner \<Rightarrow> bool \<Rightarrow> pkg_query list \<Rightarrow> collect_error + pkg list" where
  "queryLoop onPath run present [] = (if present then Inr [] else Inl NoCollector)"
| "queryLoop onPath run present ((binary, args, parse) # qs) =
     (if \<not> onPath binary then queryLoop onPath run present qs
      else case run binary args of
        None \<Rightarrow> Inl CollectFailed
      | Some out \<Rightarrow> let pkgs = parse out in if pkgs \<noteq> [] then Inr pkgs else queryLoop onPath run True qs)"

definition listPackagesUnix :: "string \<Rightarrow> (string \<Rightarrow> bool) \<Rightarrow> runner \<Rightarrow> collect_error + pkg list" where
  "listPackagesUnix goos onPath run = (if goos \<noteq> ''linux'' then Inl NoCollector else queryLoop onPath run False pkgQueries)"

text \<open>The registry of Windows: a key that is missing, cannot be opened or listed, or the names of its entries.\<close>

datatype reg_root = LOCAL_MACHINE | CURRENT_USER
datatype reg_view = View64 | View32 | ViewNative

record uninstallKey =
  uk_root :: reg_root
  uk_path :: string
  uk_access :: reg_view

definition uninstallPath :: string where
  "uninstallPath = ''SOFTWARE'' @ [CHR 0x5C] @ ''Microsoft'' @ [CHR 0x5C] @ ''Windows'' @ [CHR 0x5C] @ ''CurrentVersion'' @
     [CHR 0x5C] @ ''Uninstall''"

definition uninstallKeys :: "uninstallKey list" where
  "uninstallKeys =
     [\<lparr>uk_root = LOCAL_MACHINE, uk_path = uninstallPath, uk_access = View64\<rparr>,
      \<lparr>uk_root = LOCAL_MACHINE, uk_path = uninstallPath, uk_access = View32\<rparr>,
      \<lparr>uk_root = CURRENT_USER, uk_path = uninstallPath, uk_access = ViewNative\<rparr>]"

datatype key_end = KeyMissing | KeyRefused | KeyNotListed | KeyNames "string list"

record reg_entry =
  re_opens :: bool
  re_DisplayName :: "string option"
  re_SystemComponent :: "nat option"
  re_ParentKeyName :: "string option"
  re_ReleaseType :: "string option"
  re_DisplayVersion :: "string option"

record win_registry =
  rg_key :: "uninstallKey \<Rightarrow> key_end"
  rg_entry :: "uninstallKey \<Rightarrow> string \<Rightarrow> reg_entry"

definition readUninstallEntry :: "reg_entry \<Rightarrow> pkg option" where
  "readUninstallEntry sub =
     (if \<not> re_opens sub then None
      else case re_DisplayName sub of
        None \<Rightarrow> None
      | Some raw \<Rightarrow>
          let display = trimSpace raw in
          if display = [] then None
          else if re_SystemComponent sub = Some 1 then None
          else if (case re_ParentKeyName sub of Some v \<Rightarrow> trimSpace v \<noteq> [] | None \<Rightarrow> False) then None
          else if (case re_ReleaseType sub of
                     Some v \<Rightarrow> toLower (trimSpace v) \<in> {''security update'', ''update rollup'', ''hotfix'', ''update''}
                   | None \<Rightarrow> False) then None
          else Some \<lparr>pk_Name = display,
                     pk_Version = trimSpace (case re_DisplayVersion sub of Some v \<Rightarrow> v | None \<Rightarrow> [])\<rparr>)"

fun readEntries :: "win_registry \<Rightarrow> uninstallKey \<Rightarrow> ctx \<Rightarrow> string list \<Rightarrow> pkg list \<times> ctx" where
  "readEntries reg k c [] = ([], c)"
| "readEntries reg k c (name # names) =
     (let (stop, c1) = ctxDone c in
      if stop then ([], c1)
      else let (rest, c2) = readEntries reg k c1 names in
        (case readUninstallEntry (rg_entry reg k name) of None \<Rightarrow> (rest, c2) | Some p \<Rightarrow> (p # rest, c2)))"

definition readUninstallKey :: "win_registry \<Rightarrow> uninstallKey \<Rightarrow> ctx \<Rightarrow> (collect_error + pkg list) \<times> ctx" where
  "readUninstallKey reg k c =
     (case rg_key reg k of
        KeyMissing \<Rightarrow> (Inr [], c)
      | KeyRefused \<Rightarrow> (Inl CollectFailed, c)
      | KeyNotListed \<Rightarrow> (Inl CollectFailed, c)
      | KeyNames names \<Rightarrow> let (pkgs, c1) = readEntries reg k c names in (Inr pkgs, c1))"

fun readKeys :: "win_registry \<Rightarrow> ctx \<Rightarrow> uninstallKey list \<Rightarrow> collect_error + pkg list" where
  "readKeys reg c [] = Inr []"
| "readKeys reg c (k # ks) =
     (let (stop, c1) = ctxDone c in
      if stop then Inl CollectFailed
      else case readUninstallKey reg k c1 of
        (Inl e, c2) \<Rightarrow> Inl e
      | (Inr found, c2) \<Rightarrow> (case readKeys reg c2 ks of Inl e \<Rightarrow> Inl e | Inr rest \<Rightarrow> Inr (found @ rest)))"

definition pkgKey :: "pkg \<Rightarrow> string \<times> string" where
  "pkgKey p = (pk_Name p, pk_Version p)"

definition listPackagesWindows :: "win_registry \<Rightarrow> ctx \<Rightarrow> collect_error + pkg list" where
  "listPackagesWindows reg c =
     (case readKeys reg c uninstallKeys of
        Inl e \<Rightarrow> Inl e
      | Inr found \<Rightarrow> Inr (take maxPackages (sort_key pkgKey (remdups found))))"

definition collectSoftware :: "collect_error + pkg list \<Rightarrow> collect_error + json" where
  "collectSoftware r = map_sum id softwareJson r"

section \<open>Services\<close>

record svc_row =
  sv_Name :: string
  sv_State :: string

definition servicesJson :: "svc_row list \<Rightarrow> json" where
  "servicesJson ss =
     JObj [(''services'', JArr (map (\<lambda>s. JObj [(''name'', JStr (sv_Name s)), (''state'', JStr (sv_State s))]) ss))]"

definition hasSuffix :: "string \<Rightarrow> string \<Rightarrow> bool" where
  "hasSuffix s q \<longleftrightarrow> hasPrefix (rev s) (rev q)"

definition parseUnit :: "string \<Rightarrow> svc_row option" where
  "parseUnit line =
     (let fs = fieldsOf line in
      if length fs < 3 \<or> \<not> hasSuffix (fs ! 0) ''.service'' then None
      else Some \<lparr>sv_Name = fs ! 0, sv_State = fs ! 2\<rparr>)"

definition parseSystemctlUnits :: "string \<Rightarrow> svc_row list" where
  "parseSystemctlUnits out = List.map_filter parseUnit (linesOf out)"

definition systemctlArgs :: "string list" where
  "systemctlArgs = [''list-units'', ''--type=service'', ''--all'', ''--no-pager'', ''--no-legend'', ''--plain'']"

definition collectServices :: "string \<Rightarrow> (string \<Rightarrow> bool) \<Rightarrow> runner \<Rightarrow> collect_error + json" where
  "collectServices goos onPath run =
     (if goos \<noteq> ''linux'' then Inl NoCollector
      else if \<not> onPath ''systemctl'' then Inr (servicesJson [])
      else case run ''systemctl'' systemctlArgs of
        None \<Rightarrow> Inl CollectFailed
      | Some out \<Rightarrow> Inr (servicesJson (parseSystemctlUnits out)))"

section \<open>Sessions\<close>

record login =
  lg_User :: string
  lg_Terminal :: string
  lg_Host :: string
  lg_Kind :: string
  lg_State :: string
  lg_Since :: string

definition loginJson :: "login \<Rightarrow> json" where
  "loginJson l =
     JObj ([(''user'', JStr (lg_User l))] @ omitEmpty ''terminal'' (lg_Terminal l) @ omitEmpty ''host'' (lg_Host l) @
       [(''kind'', JStr (lg_Kind l))] @ omitEmpty ''state'' (lg_State l) @ omitEmpty ''since'' (lg_Since l))"

definition loginsJson :: "login list \<Rightarrow> json" where
  "loginsJson ls = JObj [(''logins'', JArr (map loginJson ls))]"

definition kindConsole :: string where "kindConsole = ''console''"
definition kindRemote :: string where "kindRemote = ''remote''"

definition classify :: "string \<Rightarrow> string \<Rightarrow> string" where
  "classify terminal host =
     (if trimSpace host \<noteq> [] \<and> trimSpace host \<noteq> '':0'' \<and> trimSpace host \<noteq> ''localhost'' then kindRemote
      else let t = toLower terminal in
        if hasPrefix t ''rdp-'' \<or> hasPrefix t ''pts/'' \<or> hasPrefix t ''ssh'' then kindRemote else kindConsole)"

text \<open>A time that was read, and how \<open>time.RFC3339\<close> writes it.\<close>

definition sinceString :: "(gtime \<Rightarrow> string) \<Rightarrow> gtime option \<Rightarrow> string" where
  "sinceString rfc3339 t = (case t of None \<Rightarrow> [] | Some u \<Rightarrow> if unix u \<le> 0 then [] else rfc3339 u)"

definition loginLess :: "login \<Rightarrow> login \<Rightarrow> bool" where
  "loginLess a b \<longleftrightarrow> (if lg_User a \<noteq> lg_User b then lg_User a < lg_User b else lg_Terminal a < lg_Terminal b)"

definition collectLogins ::
  "((login \<Rightarrow> login \<Rightarrow> bool) \<Rightarrow> login list \<Rightarrow> login list) \<Rightarrow> collect_error + login list \<Rightarrow> collect_error + json" where
  "collectLogins srt r = map_sum id (\<lambda>ls. loginsJson (srt loginLess ls)) r"

record utmp_user =
  um_User :: string
  um_Terminal :: string
  um_Host :: string
  um_Started :: int

definition currentLoginsUnix :: "(gtime \<Rightarrow> string) \<Rightarrow> utmp_user list option \<Rightarrow> collect_error + login list" where
  "currentLoginsUnix rfc3339 users =
     (case users of
        None \<Rightarrow> Inl CollectFailed
      | Some us \<Rightarrow>
          Inr (map (\<lambda>u. \<lparr>lg_User = um_User u, lg_Terminal = um_Terminal u, lg_Host = um_Host u,
                         lg_Kind = classify (um_Terminal u) (um_Host u), lg_State = [],
                         lg_Since = sinceString rfc3339 (Some (ofUnix (um_Started u)))\<rparr>)
            (filter (\<lambda>u. um_User u \<noteq> []) us)))"

text \<open>The Terminal Services of Windows.\<close>

record wts_session =
  ws_SessionID :: nat
  ws_Station :: string
  ws_State :: nat

datatype wts_class = WtsUserName | WtsDomainName | WtsClientName

record wts_info =
  wi_whole :: bool
  wi_SessionID :: nat
  wi_LogonTime :: int

record wts =
  wt_sessions :: "wts_session list option"
  wt_string :: "nat \<Rightarrow> wts_class \<Rightarrow> string option"
  wt_info :: "nat \<Rightarrow> wts_info option"

definition wtsListen :: nat where "wtsListen = 6"

definition stateName :: "nat \<Rightarrow> string" where
  "stateName s =
     (if s = 0 then ''active'' else if s = 1 then ''connected'' else if s = 2 then ''connecting'' else if s = 3 then ''shadowing''
      else if s = 4 then ''disconnected'' else if s = 5 then ''idle'' else if s = 7 then ''reset'' else if s = 8 then ''down''
      else if s = 9 then ''init'' else [])"

definition classifyWindows :: "string \<Rightarrow> string \<Rightarrow> string" where
  "classifyWindows station host = (if equalFold station ''Console'' \<and> host = [] then kindConsole else kindRemote)"

definition queryString :: "wts \<Rightarrow> nat \<Rightarrow> wts_class \<Rightarrow> string option" where
  "queryString w sid cls = map_option trimSpace (wt_string w sid cls)"

text \<open>\<open>Filetime.Nanoseconds\<close> of the logon time, in 64 bits.\<close>

definition logonTime :: "wts \<Rightarrow> nat \<Rightarrow> gtime option" where
  "logonTime w sid =
     (case wt_info w sid of
        None \<Rightarrow> None
      | Some i \<Rightarrow>
          if \<not> wi_whole i then None
          else if wi_SessionID i \<noteq> sid then None
          else if wi_LogonTime i \<le> 0 then None
          else Some (wrap64 ((wi_LogonTime i - 116444736000000000) * 100)))"

definition sessionLogin :: "(gtime \<Rightarrow> string) \<Rightarrow> wts \<Rightarrow> wts_session \<Rightarrow> collect_error + login option" where
  "sessionLogin rfc3339 w s =
     (if ws_SessionID s = 0 \<or> ws_State s = wtsListen then Inr None
      else case queryString w (ws_SessionID s) WtsUserName of
        None \<Rightarrow> Inl CollectFailed
      | Some user \<Rightarrow>
          if user = [] then Inr None
          else (case queryString w (ws_SessionID s) WtsDomainName of
             None \<Rightarrow> Inl CollectFailed
           | Some domain \<Rightarrow>
               (case queryString w (ws_SessionID s) WtsClientName of
                  None \<Rightarrow> Inl CollectFailed
                | Some host \<Rightarrow>
                    Inr (Some \<lparr>lg_User = (if domain \<noteq> [] then domain @ [CHR 0x5C] @ user else user), lg_Terminal = ws_Station s,
                      lg_Host = host, lg_Kind = classifyWindows (ws_Station s) host, lg_State = stateName (ws_State s),
                      lg_Since = sinceString rfc3339 (logonTime w (ws_SessionID s))\<rparr>))))"

fun loginsLoop :: "(gtime \<Rightarrow> string) \<Rightarrow> wts \<Rightarrow> ctx \<Rightarrow> wts_session list \<Rightarrow> collect_error + login list" where
  "loginsLoop rfc3339 w c [] = Inr []"
| "loginsLoop rfc3339 w c (s # ss) =
     (let (stop, c1) = ctxDone c in
      if stop then Inl CollectFailed
      else case sessionLogin rfc3339 w s of
        Inl e \<Rightarrow> Inl e
      | Inr l \<Rightarrow>
          (case loginsLoop rfc3339 w c1 ss of
             Inl e \<Rightarrow> Inl e
           | Inr ls \<Rightarrow> Inr (case l of None \<Rightarrow> ls | Some row \<Rightarrow> row # ls)))"

definition currentLoginsWindows :: "(gtime \<Rightarrow> string) \<Rightarrow> wts \<Rightarrow> ctx \<Rightarrow> collect_error + login list" where
  "currentLoginsWindows rfc3339 w c =
     (case wt_sessions w of None \<Rightarrow> Inl CollectFailed | Some ss \<Rightarrow> loginsLoop rfc3339 w c ss)"

section \<open>Network interfaces\<close>

record net_interface =
  ni_Name :: string
  ni_MAC :: string
  ni_MTU :: int
  ni_Up :: bool
  ni_Loopback :: bool
  ni_Addresses :: "string list"

record net_source =
  ns_Name :: string
  ns_MAC :: string
  ns_MTU :: int
  ns_Flags :: "string list"
  ns_Addrs :: "string list"

definition interfaceJson :: "net_interface \<Rightarrow> json" where
  "interfaceJson i =
     JObj ([(''name'', JStr (ni_Name i))] @ omitEmpty ''mac'' (ni_MAC i) @
       (if ni_MTU i = 0 then [] else [(''mtu'', JNum (itoa (ni_MTU i)))]) @
       [(''up'', JBool (ni_Up i)), (''loopback'', JBool (ni_Loopback i))] @
       (if ni_Addresses i = [] then [] else [(''addresses'', JArr (map JStr (ni_Addresses i)))]))"

definition networkJson :: "net_interface list \<Rightarrow> json" where
  "networkJson is = JObj [(''interfaces'', JArr (map interfaceJson is))]"

definition flagSet :: "string list \<Rightarrow> string \<Rightarrow> bool" where
  "flagSet flags f \<longleftrightarrow> f \<in> set (map toLower flags)"

definition interfaceOf :: "net_source \<Rightarrow> net_interface" where
  "interfaceOf s =
     \<lparr>ni_Name = ns_Name s, ni_MAC = ns_MAC s, ni_MTU = ns_MTU s,
      ni_Up = (flagSet (ns_Flags s) ''up'' \<or> flagSet (ns_Flags s) ''running''), ni_Loopback = flagSet (ns_Flags s) ''loopback'',
      ni_Addresses = sort (filter (\<lambda>a. a \<noteq> []) (map trimSpace (ns_Addrs s)))\<rparr>"

definition collectNetwork ::
  "((net_interface \<Rightarrow> net_interface \<Rightarrow> bool) \<Rightarrow> net_interface list \<Rightarrow> net_interface list) \<Rightarrow> net_source list option \<Rightarrow>
   collect_error + json" where
  "collectNetwork srt ifaces =
     (case ifaces of
        None \<Rightarrow> Inl CollectFailed
      | Some ins \<Rightarrow> Inr (networkJson (srt (\<lambda>a b. ni_Name a < ni_Name b) (map interfaceOf ins))))"

section \<open>Processes\<close>

definition maxProcesses :: nat where
  "maxProcesses = 500"

text \<open>A float as the text it is encoded to, \<open>None\<close> for one that is not finite.\<close>

record proc_row =
  pr_PID :: int
  pr_Name :: string
  pr_CPUPct :: "string option"
  pr_MemRSS :: nat

record proc_source =
  ps_Pid :: int
  ps_name :: "string option"
  ps_rss :: "nat option"
  ps_cpu :: "string option option"

definition procOf :: "proc_source \<Rightarrow> proc_row option" where
  "procOf p =
     map_option (\<lambda>name. \<lparr>pr_PID = ps_Pid p, pr_Name = name,
        pr_CPUPct = (case ps_cpu p of Some pct \<Rightarrow> pct | None \<Rightarrow> Some ''0''),
        pr_MemRSS = (case ps_rss p of Some rss \<Rightarrow> rss | None \<Rightarrow> 0)\<rparr>) (ps_name p)"

definition procJson :: "proc_row \<Rightarrow> json option" where
  "procJson p =
     map_option (\<lambda>pct. JObj [(''pid'', JNum (itoa (pr_PID p))), (''name'', JStr (pr_Name p)), (''cpu_pct'', JNum pct),
        (''mem_rss'', JNum (itoa (int (pr_MemRSS p))))]) (pr_CPUPct p)"

definition processesJson :: "proc_row list \<Rightarrow> json option" where
  "processesJson ps =
     (if list_all (\<lambda>p. procJson p \<noteq> None) ps then Some (JObj [(''processes'', JArr (map (the \<circ> procJson) ps))]) else None)"

definition collectProcesses ::
  "((proc_row \<Rightarrow> proc_row \<Rightarrow> bool) \<Rightarrow> proc_row list \<Rightarrow> proc_row list) \<Rightarrow> proc_source list option \<Rightarrow>
   collect_error + json option" where
  "collectProcesses srt ps =
     (case ps of
        None \<Rightarrow> Inl CollectFailed
      | Some l \<Rightarrow> Inr (processesJson (take maxProcesses (srt (\<lambda>a b. pr_MemRSS a > pr_MemRSS b) (List.map_filter procOf l)))))"

section \<open>Hardware\<close>

record dmiInfo =
  dm_Manufacturer :: string
  dm_Model :: string
  dm_Serial :: string
  dm_Chassis :: string

definition noDMI :: dmiInfo where
  "noDMI = \<lparr>dm_Manufacturer = [], dm_Model = [], dm_Serial = [], dm_Chassis = []\<rparr>"

definition chassisName :: "int \<Rightarrow> string" where
  "chassisName code =
     (if code \<in> {3, 4, 5, 6, 7, 15, 16, 24, 35, 36} then ''desktop''
      else if code = 13 then ''all-in-one''
      else if code \<in> {8, 9, 10, 14} then ''laptop''
      else if code = 31 then ''convertible''
      else if code = 32 then ''detachable''
      else if code = 11 then ''handheld''
      else if code = 30 then ''tablet''
      else if code \<in> {17, 23, 25, 28, 29} then ''server''
      else if code = 34 then ''embedded''
      else [])"

definition dmiJunk :: "string list" where
  "dmiJunk =
     [[], ''to be filled by o.e.m.'', ''to be filled by oem'', ''default string'', ''system serial number'',
      ''system manufacturer'', ''system product name'', ''chassis serial number'', ''none'', ''not specified'',
      ''not applicable'', ''no enclosure'', ''unknown'', ''oem'', ''0'', ''123456789'', ''0123456789'', ''empty'']"

definition cleanDMI :: "string \<Rightarrow> string" where
  "cleanDMI s = (let t = trimSpace s in if toLower t \<in> set dmiJunk then [] else t)"

text \<open>The files of \<open>/sys/class/dmi/id\<close> that can be read.\<close>

definition readDMI :: "(string \<Rightarrow> string option) \<Rightarrow> dmiInfo" where
  "readDMI files =
     (let read = (\<lambda>name. case files name of None \<Rightarrow> [] | Some raw \<Rightarrow> cleanDMI raw);
          raw = read ''chassis_type''
      in \<lparr>dm_Manufacturer = read ''sys_vendor'', dm_Model = read ''product_name'', dm_Serial = read ''product_serial'',
          dm_Chassis = (if raw = [] then []
            else case parseInt64 (trimSpace raw) of Some code \<Rightarrow> chassisName code | None \<Rightarrow> [])\<rparr>)"

definition appleChassis :: "string \<Rightarrow> string" where
  "appleChassis machineName =
     (let name = toLower machineName in
      if hasPrefix name ''macbook'' then ''laptop''
      else if hasPrefix name ''imac'' then ''all-in-one''
      else if hasPrefix name ''mac mini'' \<or> hasPrefix name ''macmini'' \<or> hasPrefix name ''mac studio'' \<or> hasPrefix name ''mac pro''
        then ''desktop''
      else [])"

text \<open>The overview of \<open>system_profiler\<close>: model, name and serial number of each entry, \<open>None\<close> when it is not JSON.\<close>

definition parseHardwareOverview :: "(string \<times> string \<times> string) list option \<Rightarrow> dmiInfo" where
  "parseHardwareOverview doc =
     (case doc of
        Some ((model, name, serial) # _) \<Rightarrow>
          \<lparr>dm_Manufacturer = ''Apple Inc.'', dm_Model = cleanDMI model, dm_Serial = cleanDMI serial, dm_Chassis = appleChassis name\<rparr>
      | _ \<Rightarrow> noDMI)"

definition collectDMIDarwin ::
  "runner \<Rightarrow> (string \<Rightarrow> (string \<times> string \<times> string) list option) \<Rightarrow> dmiInfo" where
  "collectDMIDarwin run decode =
     (case run ''system_profiler'' [''SPHardwareDataType'', ''-json''] of
        None \<Rightarrow> noDMI
      | Some out \<Rightarrow> parseHardwareOverview (decode out))"

text \<open>The answers of the three queries of WMI.\<close>

record wmi =
  wm_system :: "(string \<times> string) list option"
  wm_bios :: "string list option"
  wm_enclosure :: "int list list option"

definition collectDMIWindows :: "wmi \<Rightarrow> dmiInfo" where
  "collectDMIWindows w =
     (let (man, model) = (case wm_system w of Some ((m, d) # _) \<Rightarrow> (cleanDMI m, cleanDMI d) | _ \<Rightarrow> ([], []))
      in \<lparr>dm_Manufacturer = man, dm_Model = model,
          dm_Serial = (case wm_bios w of Some (s # _) \<Rightarrow> cleanDMI s | _ \<Rightarrow> []),
          dm_Chassis = (case wm_enclosure w of Some ((code # _) # _) \<Rightarrow> chassisName code | _ \<Rightarrow> [])\<rparr>)"

text \<open>\<open>agent/internal/sysinfo\<close>.\<close>

definition osFamilyFor :: "string \<Rightarrow> string" where
  "osFamilyFor goos = (if goos = ''darwin'' then ''macos'' else goos)"

definition archFor :: "string \<Rightarrow> string" where
  "archFor goarch = (if goarch = ''amd64'' then ''x86_64'' else if goarch = ''arm64'' then ''aarch64'' else goarch)"

fun prettyLines :: "string list \<Rightarrow> string" where
  "prettyLines [] = []"
| "prettyLines (l # ls) =
     (case cutPrefix ''PRETTY_NAME='' (trimSpace l) of
        Some v \<Rightarrow> trimBy (\<lambda>c. c = CHR 0x22) v
      | None \<Rightarrow> prettyLines ls)"

definition prettyName :: "string \<Rightarrow> string" where
  "prettyName osRelease = prettyLines (splitOn CHR 0x0A osRelease)"

definition OSVersion :: "string \<Rightarrow> string option \<Rightarrow> runner \<Rightarrow> string" where
  "OSVersion goos osRelease run =
     (if goos = ''linux'' then (case osRelease of None \<Rightarrow> [] | Some raw \<Rightarrow> prettyName raw)
      else if goos = ''darwin'' then (case run ''sw_vers'' [''-productVersion''] of None \<Rightarrow> [] | Some out \<Rightarrow> trimSpace out)
      else [])"

record hardware =
  hw_CPUModel :: string
  hw_CPUCores :: int
  hw_MemTotal :: nat
  hw_Hostname :: string
  hw_OSFamily :: string
  hw_OSVersion :: string
  hw_Kernel :: string
  hw_Arch :: string
  hw_Virtualization :: string
  hw_DMI :: dmiInfo

definition hardwareJson :: "hardware \<Rightarrow> json" where
  "hardwareJson h =
     JObj ([(''cpu_model'', JStr (hw_CPUModel h)), (''cpu_cores'', JNum (itoa (hw_CPUCores h))),
        (''mem_total'', JNum (itoa (int (hw_MemTotal h)))), (''hostname'', JStr (hw_Hostname h)),
        (''os_family'', JStr (hw_OSFamily h)), (''os_version'', JStr (hw_OSVersion h)), (''kernel'', JStr (hw_Kernel h)),
        (''arch'', JStr (hw_Arch h)), (''virtualization'', JStr (hw_Virtualization h))] @
       omitEmpty ''manufacturer'' (dm_Manufacturer (hw_DMI h)) @ omitEmpty ''model'' (dm_Model (hw_DMI h)) @
       omitEmpty ''serial_number'' (dm_Serial (hw_DMI h)) @ omitEmpty ''chassis_type'' (dm_Chassis (hw_DMI h)))"

record host_info =
  hi_Hostname :: string
  hi_KernelVersion :: string
  hi_Virtualization :: string
  hi_Platform :: string
  hi_PlatformVersion :: string

record hw_source =
  hs_info :: "host_info option"
  hs_cpus :: "string list option"
  hs_cores :: "int option"
  hs_mem :: "nat option"

definition collectHardware :: "string \<Rightarrow> string \<Rightarrow> string \<Rightarrow> hw_source \<Rightarrow> dmiInfo \<Rightarrow> collect_error + json" where
  "collectHardware goos goarch osVersion src dmi =
     (case hs_info src of
        None \<Rightarrow> Inl CollectFailed
      | Some info \<Rightarrow>
          Inr (hardwareJson
            \<lparr>hw_CPUModel = (case hs_cpus src of Some (m # _) \<Rightarrow> m | _ \<Rightarrow> []),
             hw_CPUCores = (case hs_cores src of Some n \<Rightarrow> n | None \<Rightarrow> 0),
             hw_MemTotal = (case hs_mem src of Some n \<Rightarrow> n | None \<Rightarrow> 0),
             hw_Hostname = hi_Hostname info, hw_OSFamily = osFamilyFor goos,
             hw_OSVersion = (if osVersion = [] then trimSpace (hi_Platform info @ '' '' @ hi_PlatformVersion info) else osVersion),
             hw_Kernel = hi_KernelVersion info, hw_Arch = archFor goarch, hw_Virtualization = hi_Virtualization info,
             hw_DMI = dmi\<rparr>))"

section \<open>Posture\<close>

text \<open>The wire form of a posture result is the argument \<open>js\<close>; where a platform has no checks there is no collector.\<close>

definition postureSnapshot :: "(wire_result \<Rightarrow> json) \<Rightarrow> check list \<Rightarrow> collect_error + json" where
  "postureSnapshot js cs =
     (case collectPosture cs of
        Inl e \<Rightarrow> Inl NoCollector
      | Inr rs \<Rightarrow> Inr (JObj [(''checks'', JArr (map (MarshalJSON js) rs))]))"

section \<open>Packages on Linux\<close>

lemma packagesLoop_take:
  "length pkgs < maxPackages \<Longrightarrow>
   packagesLoop sep pkgs ls = take maxPackages (pkgs @ List.map_filter (parsePackage sep) ls)"
proof (induction ls arbitrary: pkgs)
  case (Cons l ls)
  show ?case
  proof (cases "parsePackage sep l")
    case None
    then show ?thesis using Cons by (simp add: map_filter_simps)
  next
    case (Some p)
    show ?thesis
    proof (cases "Suc (length pkgs) = maxPackages")
      case True
      then have "maxPackages - length pkgs = 1" by simp
      with True Some show ?thesis by (simp add: map_filter_simps)
    next
      case False
      then show ?thesis using Some Cons.IH [of "pkgs @ [p]"] Cons.prems by (simp add: map_filter_simps)
    qed
  qed
qed (simp add: map_filter_simps)

text \<open>An empty list of packages is an answer: a manager is there, and every one that is there answered.\<close>

lemma queryLoop_empty:
  "queryLoop onPath run p qs = Inr [] \<longleftrightarrow>
     (p \<or> (\<exists>q\<in>set qs. onPath (fst q))) \<and>
     (\<forall>(binary, args, parse)\<in>set qs. onPath binary \<longrightarrow> (\<exists>out. run binary args = Some out \<and> parse out = []))"
  by (induction onPath run p qs rule: queryLoop.induct) (auto simp: Let_def split: option.splits)

lemma queryLoop_answer:
  assumes "queryLoop onPath run p qs = Inr pkgs"
  shows "\<exists>pre post. qs = pre @ post \<and> (\<forall>(binary, args, parse)\<in>set pre. onPath binary \<longrightarrow> run binary args \<noteq> None) \<and>
    (pkgs \<noteq> [] \<longrightarrow> (\<exists>binary args parse out rest. post = (binary, args, parse) # rest \<and> onPath binary \<and>
       run binary args = Some out \<and> pkgs = parse out))"
  using assms
proof (induction onPath run p qs rule: queryLoop.induct)
  case (1 onPath run present)
  then show ?case by (auto split: if_splits)
next
  case (2 onPath run present binary args parse qs)
  show ?case
  proof (cases "onPath binary \<and> (\<exists>out. run binary args = Some out \<and> parse out \<noteq> [])")
    case True
    then obtain out where "run binary args = Some out" "parse out \<noteq> []" by blast
    with True 2(3) have "pkgs = parse out" by simp
    then show ?thesis using True \<open>run binary args = Some out\<close>
      by (intro exI [of _ "[]"] exI [of _ "(binary, args, parse) # qs"]) auto
  next
    case False
    then obtain q where "queryLoop onPath run q qs = Inr pkgs" "onPath binary \<longrightarrow> run binary args \<noteq> None"
      using 2(3) by (auto simp: Let_def split: if_splits option.splits)
    moreover have "\<exists>pre post. qs = pre @ post \<and> (\<forall>(binary, args, parse)\<in>set pre. onPath binary \<longrightarrow> run binary args \<noteq> None) \<and>
      (pkgs \<noteq> [] \<longrightarrow> (\<exists>binary args parse out rest. post = (binary, args, parse) # rest \<and> onPath binary \<and>
       run binary args = Some out \<and> pkgs = parse out))"
      using 2(1,2,3) False by (cases "onPath binary") (auto simp: Let_def split: option.splits)
    ultimately obtain pre post where "qs = pre @ post" "\<forall>(binary, args, parse)\<in>set pre. onPath binary \<longrightarrow> run binary args \<noteq> None"
      "pkgs \<noteq> [] \<longrightarrow> (\<exists>binary args parse out rest. post = (binary, args, parse) # rest \<and> onPath binary \<and>
       run binary args = Some out \<and> pkgs = parse out)" by blast
    then show ?thesis using \<open>onPath binary \<longrightarrow> run binary args \<noteq> None\<close>
      by (intro exI [of _ "(binary, args, parse) # pre"] exI [of _ post]) auto
  qed
qed

text \<open>What dpkg-query and rpm print for the formats they are given.\<close>

definition printPackages :: "pkg list \<Rightarrow> string" where
  "printPackages ps = concat (map (\<lambda>p. pk_Name p @ [CHR 0x09] @ pk_Version p @ [CHR 0x0A]) ps)"

definition printable :: "pkg \<Rightarrow> bool" where
  "printable p \<longleftrightarrow> pk_Name p \<noteq> [] \<and> CHR 0x09 \<notin> set (pk_Name p) \<and> CHR 0x0A \<notin> set (pk_Name p) \<and> CHR 0x0A \<notin> set (pk_Version p)"

lemma splitOn_packages:
  "list_all printable ps \<Longrightarrow>
   splitOn CHR 0x0A (printPackages ps) = map (\<lambda>p. pk_Name p @ [CHR 0x09] @ pk_Version p) ps @ [[]]"
proof (induction ps)
  case (Cons p ps)
  have "splitOn CHR 0x0A ((pk_Name p @ [CHR 0x09] @ pk_Version p) @ CHR 0x0A # printPackages ps) =
      splitOn CHR 0x0A (pk_Name p @ [CHR 0x09] @ pk_Version p) @ splitOn CHR 0x0A (printPackages ps)"
    by (rule splitOn_append)
  then show ?case using Cons by (simp add: printPackages_def printable_def splitOn_free)
qed (simp add: printPackages_def)

lemma packages_roundtrip:
  assumes "list_all printable ps"
  shows "parseTabPackages (printPackages ps) = take maxPackages ps"
proof -
  have "parsePackage (CHR 0x09) (pk_Name p @ CHR 0x09 # pk_Version p) = Some p" if "p \<in> set ps" for p
    using assms that cutOn_intro [of "CHR 0x09" "pk_Name p" "pk_Version p"]
    by (auto simp: parsePackage_def list_all_iff printable_def)
  then have "List.map_filter (parsePackage (CHR 0x09)) (map (\<lambda>p. pk_Name p @ [CHR 0x09] @ pk_Version p) ps) = ps"
    by (induction ps) (simp_all add: map_filter_simps)
  then show ?thesis
    by (simp add: parseTabPackages_def linesOf_def splitOn_packages [OF assms] packagesLoop_take maxPackages_def)
qed

section \<open>Packages on Windows\<close>

text \<open>What the registry records as installed, and whether every key can be looked through.\<close>

definition installed :: "win_registry \<Rightarrow> pkg set" where
  "installed reg = {p. \<exists>k\<in>set uninstallKeys. \<exists>names. rg_key reg k = KeyNames names \<and>
     (\<exists>name\<in>set names. readUninstallEntry (rg_entry reg k name) = Some p)}"

definition readable :: "win_registry \<Rightarrow> bool" where
  "readable reg \<longleftrightarrow> (\<forall>k\<in>set uninstallKeys. rg_key reg k \<noteq> KeyRefused \<and> rg_key reg k \<noteq> KeyNotListed)"

lemma ctxDone_None [simp]: "ctxDone None = (False, None)"
  by (simp add: ctxDone_def)

lemma readEntries_None:
  "readEntries reg k None names = (List.map_filter (\<lambda>n. readUninstallEntry (rg_entry reg k n)) names, None)"
  by (induction names) (auto simp: map_filter_simps split: option.splits)

lemma set_map_filter': "set (List.map_filter f xs) = {y. \<exists>x\<in>set xs. f x = Some y}"
  by (induction xs) (auto simp: map_filter_simps split: option.splits)

definition keyPackages :: "win_registry \<Rightarrow> uninstallKey \<Rightarrow> pkg set" where
  "keyPackages reg k = {p. \<exists>names. rg_key reg k = KeyNames names \<and> (\<exists>name\<in>set names. readUninstallEntry (rg_entry reg k name) = Some p)}"

lemma readKeys_None:
  "if \<exists>k\<in>set ks. rg_key reg k = KeyRefused \<or> rg_key reg k = KeyNotListed then readKeys reg None ks = Inl CollectFailed
   else \<exists>found. readKeys reg None ks = Inr found \<and> set found = (\<Union>k\<in>set ks. keyPackages reg k)"
proof (induction ks)
  case (Cons k ks)
  show ?case
    using Cons
    by (cases "rg_key reg k") (auto simp: readUninstallKey_def readEntries_None set_map_filter' keyPackages_def split: if_splits)
qed simp

lemma pkgKey_inj: "pkgKey p = pkgKey q \<Longrightarrow> p = q"
  by (cases p; cases q) (simp add: pkgKey_def)

lemma sorted_packages_unique:
  assumes "set ps = set qs" "distinct ps" "distinct qs" "sorted (map pkgKey ps)" "sorted (map pkgKey qs)"
  shows "ps = qs"
proof (rule map_sorted_distinct_set_unique)
  show "inj_on pkgKey (set ps \<union> set qs)" by (auto intro: inj_onI pkgKey_inj)
  show "distinct (map pkgKey ps)" "distinct (map pkgKey qs)"
    using assms by (auto simp: distinct_map intro: inj_onI pkgKey_inj)
qed (use assms in simp_all)

lemma listPackagesWindows_spec:
  assumes "readable reg"
  shows "\<exists>ps. set ps = installed reg \<and> distinct ps \<and> sorted (map pkgKey ps) \<and>
    listPackagesWindows reg None = Inr (take maxPackages ps)"
proof -
  have "\<not> (\<exists>k\<in>set uninstallKeys. rg_key reg k = KeyRefused \<or> rg_key reg k = KeyNotListed)" using assms by (auto simp: readable_def)
  then obtain found where "readKeys reg None uninstallKeys = Inr found" "set found = (\<Union>k\<in>set uninstallKeys. keyPackages reg k)"
    using readKeys_None [of uninstallKeys reg] by auto
  moreover have "(\<Union>k\<in>set uninstallKeys. keyPackages reg k) = installed reg" by (auto simp: keyPackages_def installed_def)
  ultimately show ?thesis
    by (intro exI [of _ "sort_key pkgKey (remdups found)"]) (simp add: listPackagesWindows_def)
qed

text \<open>
  The software of a Windows host is what its registry records, each product once, whatever the order in
  which the registry lists its entries: two hosts that record the same products are reported alike, so that
  the hash of the snapshot changes only with its content. A key that exists and cannot be looked through
  fails the collection instead of leaving its products out.
\<close>

theorem windows_software_stable:
  assumes "readable reg"
  shows "(\<exists>ps. set ps = installed reg \<and> distinct ps \<and> listPackagesWindows reg None = Inr (take maxPackages ps)) \<and>
    (\<forall>reg'. readable reg' \<and> installed reg' = installed reg \<longrightarrow> listPackagesWindows reg' None = listPackagesWindows reg None) \<and>
    (\<forall>reg'. \<not> readable reg' \<longrightarrow> listPackagesWindows reg' None = Inl CollectFailed)"
proof (intro conjI allI impI)
  obtain ps where ps: "set ps = installed reg" "distinct ps" "sorted (map pkgKey ps)"
    "listPackagesWindows reg None = Inr (take maxPackages ps)" using listPackagesWindows_spec [OF assms] by blast
  then show "\<exists>ps. set ps = installed reg \<and> distinct ps \<and> listPackagesWindows reg None = Inr (take maxPackages ps)" by blast
  fix reg'
  show "listPackagesWindows reg' None = listPackagesWindows reg None" if "readable reg' \<and> installed reg' = installed reg"
  proof -
    from that obtain qs where "set qs = installed reg" "distinct qs" "sorted (map pkgKey qs)"
      "listPackagesWindows reg' None = Inr (take maxPackages qs)" using listPackagesWindows_spec [of reg'] by auto
    then show ?thesis using sorted_packages_unique [of ps qs] ps by simp
  qed
  show "listPackagesWindows reg' None = Inl CollectFailed" if "\<not> readable reg'"
    using readKeys_None [of uninstallKeys reg'] that by (auto simp: listPackagesWindows_def readable_def split: if_splits)
qed

definition exEntry :: "string \<Rightarrow> reg_entry" where
  "exEntry name = \<lparr>re_opens = True, re_DisplayName = Some name, re_SystemComponent = None, re_ParentKeyName = None,
     re_ReleaseType = None, re_DisplayVersion = Some ''1''\<rparr>"

definition exRegistry :: "string list \<Rightarrow> win_registry" where
  "exRegistry names = \<lparr>rg_key = (\<lambda>k. if uk_root k = CURRENT_USER then KeyNames names else KeyMissing), rg_entry = (\<lambda>_. exEntry)\<rparr>"

theorem windows_software_stable_witness:
  "listPackagesWindows (exRegistry [''b'', ''a'']) None = listPackagesWindows (exRegistry [''a'', ''b'']) None"
proof -
  have "readable (exRegistry [''a'', ''b''])" "readable (exRegistry [''b'', ''a''])"
    "installed (exRegistry [''b'', ''a'']) = installed (exRegistry [''a'', ''b''])"
    by (auto simp: readable_def exRegistry_def installed_def uninstallKeys_def)
  then show ?thesis using windows_software_stable by blast
qed

text \<open>
  A scan that is cancelled while the last key is read, however, ends well with part of that key: the
  cancellation stops the loop over the entries without an error.
\<close>

lemma cancelled_scan_understates:
  "listPackagesWindows (exRegistry [''a'', ''b'']) (Some 4) = Inr [\<lparr>pk_Name = ''a'', pk_Version = ''1''\<rparr>]"
  by code_simp

section \<open>Sessions on Windows\<close>

text \<open>A session of a person: not the one of the services, not the listener, and with a user name.\<close>

definition occupied :: "wts \<Rightarrow> wts_session \<Rightarrow> bool" where
  "occupied w s \<longleftrightarrow> ws_SessionID s \<noteq> 0 \<and> ws_State s \<noteq> wtsListen \<and> (\<exists>u. queryString w (ws_SessionID s) WtsUserName = Some u \<and> u \<noteq> [])"

definition rowOf :: "(gtime \<Rightarrow> string) \<Rightarrow> wts \<Rightarrow> wts_session \<Rightarrow> login \<Rightarrow> bool" where
  "rowOf rfc3339 w s l \<longleftrightarrow> (\<exists>u. queryString w (ws_SessionID s) WtsUserName = Some u \<and> (\<exists>pre. lg_User l = pre @ u)) \<and>
     lg_Terminal l = ws_Station s \<and> lg_State l = stateName (ws_State s) \<and>
     queryString w (ws_SessionID s) WtsClientName = Some (lg_Host l) \<and> lg_Kind l = classifyWindows (ws_Station s) (lg_Host l) \<and>
     lg_Since l = sinceString rfc3339 (logonTime w (ws_SessionID s))"

lemma sessionLogin_Inr:
  assumes "sessionLogin rfc3339 w s = Inr r"
  shows "if occupied w s then \<exists>l. r = Some l \<and> rowOf rfc3339 w s l else r = None"
  using assms by (auto simp: sessionLogin_def occupied_def rowOf_def split: if_splits option.splits)

lemma loginsLoop_Inr:
  "loginsLoop rfc3339 w c ss = Inr ls \<Longrightarrow> list_all2 (rowOf rfc3339 w) (filter (occupied w) ss) ls"
proof (induction ss arbitrary: c ls)
  case (Cons s ss)
  obtain stop c1 where c: "ctxDone c = (stop, c1)" by (cases "ctxDone c")
  from Cons.prems obtain r rest where "\<not> stop" "sessionLogin rfc3339 w s = Inr r" "loginsLoop rfc3339 w c1 ss = Inr rest"
    "ls = (case r of None \<Rightarrow> rest | Some row \<Rightarrow> row # rest)"
    by (auto simp: c split: if_splits sum.splits)
  then show ?case using Cons.IH [of c1 rest] sessionLogin_Inr [of rfc3339 w s r] by (auto split: if_splits)
qed simp

lemma loginsLoop_fails:
  "s \<in> set ss \<Longrightarrow> sessionLogin rfc3339 w s = Inl e \<Longrightarrow> \<exists>e. loginsLoop rfc3339 w c ss = Inl e"
proof (induction ss arbitrary: c)
  case (Cons s' ss)
  obtain stop c1 where c: "ctxDone c = (stop, c1)" by (cases "ctxDone c")
  show ?case using Cons by (auto simp: c split: sum.splits) (metis sum.distinct(1))+
qed simp

text \<open>
  The sessions reported for a Windows host are those of people, all of them and in order, each with its
  own user, seat, origin and state; a session whose user or origin cannot be asked for fails the
  collection, whoever else is logged in, and so does a cancellation.
\<close>

theorem windows_logins_complete:
  assumes "currentLoginsWindows rfc3339 w c = Inr ls"
  shows "\<exists>ss. wt_sessions w = Some ss \<and> list_all2 (rowOf rfc3339 w) (filter (occupied w) ss) ls \<and>
    (\<forall>s\<in>set ss. ws_SessionID s \<noteq> 0 \<and> ws_State s \<noteq> wtsListen \<longrightarrow> queryString w (ws_SessionID s) WtsUserName \<noteq> None)"
proof -
  from assms obtain ss where ss: "wt_sessions w = Some ss" "loginsLoop rfc3339 w c ss = Inr ls"
    by (auto simp: currentLoginsWindows_def split: option.splits)
  have "queryString w (ws_SessionID s) WtsUserName \<noteq> None" if "s \<in> set ss" "ws_SessionID s \<noteq> 0" "ws_State s \<noteq> wtsListen" for s
  proof
    assume "queryString w (ws_SessionID s) WtsUserName = None"
    then have "sessionLogin rfc3339 w s = Inl CollectFailed" using that by (simp add: sessionLogin_def)
    then show False using loginsLoop_fails [OF that(1)] ss(2) by (metis sum.distinct(1))
  qed
  then show ?thesis using ss loginsLoop_Inr by blast
qed

definition exWts :: wts where
  "exWts = \<lparr>wt_sessions = Some [\<lparr>ws_SessionID = 0, ws_Station = ''Services'', ws_State = 4\<rparr>,
       \<lparr>ws_SessionID = 2, ws_Station = [], ws_State = 4\<rparr>, \<lparr>ws_SessionID = 3, ws_Station = [], ws_State = 4\<rparr>],
     wt_string = (\<lambda>sid cls. Some (if cls = WtsUserName then ''ann'' else if cls = WtsClientName then (if sid = 2 then ''pc1'' else ''pc2'') else [])),
     wt_info = (\<lambda>_. None)\<rparr>"

theorem windows_logins_complete_witness:
  "\<exists>ls ss. currentLoginsWindows (\<lambda>_. ''t'') exWts None = Inr ls \<and> wt_sessions exWts = Some ss \<and>
     list_all2 (rowOf (\<lambda>_. ''t'') exWts) (filter (occupied exWts) ss) ls \<and> length ls = 2"
proof -
  let ?r = "currentLoginsWindows (\<lambda>_. ''t'') exWts None"
  have r: "?r = Inr (projr ?r) \<and> length (projr ?r) = 2" by code_simp
  show ?thesis using windows_logins_complete [OF conjunct1 [OF r]] r by blast
qed

section \<open>Sorting\<close>

text \<open>What \<open>sort.Slice\<close> promises: the same elements, none before one that is less than it.\<close>

definition weakOrder :: "('a \<Rightarrow> 'a \<Rightarrow> bool) \<Rightarrow> bool" where
  "weakOrder lt \<longleftrightarrow> (\<forall>a b. \<not> lt a b \<or> \<not> lt b a) \<and> (\<forall>a b c. \<not> lt b a \<longrightarrow> \<not> lt c b \<longrightarrow> \<not> lt c a)"

definition sliceSorter :: "(('a \<Rightarrow> 'a \<Rightarrow> bool) \<Rightarrow> 'a list \<Rightarrow> 'a list) \<Rightarrow> bool" where
  "sliceSorter srt \<longleftrightarrow> (\<forall>lt xs. weakOrder lt \<longrightarrow> mset (srt lt xs) = mset xs \<and> sorted_wrt (\<lambda>a b. \<not> lt b a) (srt lt xs))"

lemma weakOrder_key: "weakOrder (\<lambda>a b. f a < (f b :: 'b :: linorder))"
  by (auto simp: weakOrder_def)

lemma sliceSorter_key:
  assumes "sliceSorter srt"
  shows "mset (srt (\<lambda>a b. f a < (f b :: 'b :: linorder)) xs) = mset xs" "sorted (map f (srt (\<lambda>a b. f a < f b) xs))"
  using assms weakOrder_key [of f] by (auto simp: sliceSorter_def sorted_wrt_map not_less)

text \<open>Interfaces have distinct names, so their order, and with it the snapshot, is determined.\<close>

lemma network_stable:
  assumes "sliceSorter srt" "sliceSorter srt'" "mset ins = mset ins'" "distinct (map ns_Name ins)"
  shows "collectNetwork srt (Some ins) = collectNetwork srt' (Some ins')"
proof -
  let ?s = "srt (\<lambda>a b. ni_Name a < ni_Name b) (map interfaceOf ins)" and ?s' = "srt' (\<lambda>a b. ni_Name a < ni_Name b) (map interfaceOf ins')"
  have m: "mset ?s = mset (map interfaceOf ins)" "mset ?s' = mset (map interfaceOf ins')"
    and so: "sorted (map ni_Name ?s)" "sorted (map ni_Name ?s')"
    using sliceSorter_key assms(1,2) by blast+
  have "mset ?s = mset ?s'" using m assms(3) by (simp add: mset_map)
  moreover have "distinct (map ni_Name (map interfaceOf ins))" using assms(4) by (simp add: interfaceOf_def comp_def)
  then have "inj_on ni_Name (set ?s)" using mset_eq_setD [OF m(1)] by (simp add: distinct_map del: map_map)
  ultimately have "?s = ?s'" using so sort_key_inj_key_eq [of ?s ?s' ni_Name] sort_key_inj_key_eq [of ?s ?s ni_Name] by simp
  then show ?thesis by (simp add: collectNetwork_def)
qed

text \<open>Two sorters that keep the promise: insertion from the right, and the same on the reversed slice.\<close>

fun insertBy :: "('a \<Rightarrow> 'a \<Rightarrow> bool) \<Rightarrow> 'a \<Rightarrow> 'a list \<Rightarrow> 'a list" where
  "insertBy lt x [] = [x]"
| "insertBy lt x (y # ys) = (if lt y x then y # insertBy lt x ys else x # y # ys)"

definition insertionSort :: "('a \<Rightarrow> 'a \<Rightarrow> bool) \<Rightarrow> 'a list \<Rightarrow> 'a list" where
  "insertionSort lt xs = foldr (insertBy lt) xs []"

definition reversedSort :: "('a \<Rightarrow> 'a \<Rightarrow> bool) \<Rightarrow> 'a list \<Rightarrow> 'a list" where
  "reversedSort lt xs = insertionSort lt (rev xs)"

lemma mset_insertBy [simp]: "mset (insertBy lt x ys) = add_mset x (mset ys)"
  by (induction ys) simp_all

lemma set_insertBy: "set (insertBy lt x ys) = insert x (set ys)"
  using mset_eq_setD [of "insertBy lt x ys" "x # ys"] by simp

lemma sorted_insertBy:
  assumes "weakOrder lt"
  shows "sorted_wrt (\<lambda>a b. \<not> lt b a) ys \<Longrightarrow> sorted_wrt (\<lambda>a b. \<not> lt b a) (insertBy lt x ys)"
proof (induction ys)
  case (Cons y ys)
  have as: "lt a b \<Longrightarrow> \<not> lt b a" and tr: "\<not> lt b a \<Longrightarrow> \<not> lt c b \<Longrightarrow> \<not> lt c a" for a b c
    using assms unfolding weakOrder_def by blast+
  show ?case
  proof (cases "lt y x")
    case True
    then show ?thesis using Cons as by (auto simp: set_insertBy)
  next
    case False
    then show ?thesis using Cons tr by auto
  qed
qed simp

lemma insertionSort_sorter: "sliceSorter insertionSort"
  unfolding sliceSorter_def
proof (intro allI impI)
  fix lt :: "'a \<Rightarrow> 'a \<Rightarrow> bool" and xs assume w: "weakOrder lt"
  show "mset (insertionSort lt xs) = mset xs \<and> sorted_wrt (\<lambda>a b. \<not> lt b a) (insertionSort lt xs)"
    by (induction xs) (use sorted_insertBy [OF w] in \<open>simp_all add: insertionSort_def\<close>)
qed

lemma reversedSort_sorter: "sliceSorter reversedSort"
  using insertionSort_sorter unfolding sliceSorter_def reversedSort_def by (metis mset_rev)

text \<open>
  The order of the sessions is not determined: two disconnected sessions of one user have no seat, the
  comparison does not tell them apart, and what is hashed depends on how the slice was sorted.
\<close>

lemma login_order_undetermined:
  "\<exists>ls v v'. currentLoginsWindows (\<lambda>_. ''t'') exWts None = Inr ls \<and> collectLogins insertionSort (Inr ls) = Inr v \<and>
     collectLogins reversedSort (Inr ls) = Inr v' \<and> \<not> sameJson v v'"
proof -
  let ?r = "currentLoginsWindows (\<lambda>_. ''t'') exWts None"
  let ?v = "projr (collectLogins insertionSort ?r)" and ?v' = "projr (collectLogins reversedSort ?r)"
  have r: "?r = Inr (projr ?r)" "collectLogins insertionSort ?r = Inr ?v" "collectLogins reversedSort ?r = Inr ?v'" by code_simp+
  have "wfJson ?v" "wfJson ?v'" "canonText ?v \<noteq> canonText ?v'" by code_simp+
  then have "\<not> sameJson ?v ?v'" using canon_same [of ?v ?v'] by (auto simp: canonText_def)
  then show ?thesis using r by metis
qed

section \<open>Identity of the hardware\<close>

definition noPlaceholder :: "string \<Rightarrow> bool" where
  "noPlaceholder s \<longleftrightarrow> s = [] \<or> toLower s \<notin> set dmiJunk"

lemma cleanDMI_clean [simp]: "noPlaceholder (cleanDMI s)"
  by (simp add: noPlaceholder_def cleanDMI_def Let_def)

lemma noPlaceholder_Nil [simp]: "noPlaceholder []"
  by (simp add: noPlaceholder_def)

text \<open>
  No placeholder of a manufacturer reaches the snapshot: neither model nor serial number is one of the known
  placeholders, on Linux, macOS and Windows.
\<close>

lemma dmi_no_placeholder:
  "noPlaceholder (dm_Model (readDMI files)) \<and> noPlaceholder (dm_Serial (readDMI files))"
  "noPlaceholder (dm_Model (collectDMIDarwin run decode)) \<and> noPlaceholder (dm_Serial (collectDMIDarwin run decode))"
  "noPlaceholder (dm_Model (collectDMIWindows w)) \<and> noPlaceholder (dm_Serial (collectDMIWindows w))"
  by (simp_all add: readDMI_def collectDMIDarwin_def parseHardwareOverview_def collectDMIWindows_def noDMI_def Let_def
      split: option.split list.split prod.split)

end
