(* ===== verification/Inventory_Publish.thy ===== *)
theory Inventory_Publish
  imports Collectors Job_Handlers
begin

text \<open>
  Publishing the inventory: one round over all collectors (\<open>agent/internal/inventory/inventory.go\<close>), and
  the patch state with its own cadence (\<open>patchstate.go\<close>), up to the job that asks for a patch scan.
\<close>

section \<open>A round\<close>

text \<open>The host as the collectors see it; \<open>ih_ctx\<close> is the context when the collector of a kind starts.\<close>

record inv_host =
  ih_goos :: string
  ih_goarch :: string
  ih_onPath :: "string \<Rightarrow> bool"
  ih_run :: runner
  ih_ctx :: "string \<Rightarrow> ctx"
  ih_registry :: win_registry
  ih_hw :: hw_source
  ih_osRelease :: "string option"
  ih_dmiFiles :: "string \<Rightarrow> string option"
  ih_dmiDecode :: "string \<Rightarrow> (string \<times> string \<times> string) list option"
  ih_wmi :: wmi
  ih_users :: "utmp_user list option"
  ih_wts :: wts
  ih_rfc3339 :: "gtime \<Rightarrow> string"
  ih_interfaces :: "net_source list option"
  ih_processes :: "proc_source list option"
  ih_checks :: "check list"
  ih_checkJson :: "wire_result \<Rightarrow> json"
  ih_sortLogins :: "(login \<Rightarrow> login \<Rightarrow> bool) \<Rightarrow> login list \<Rightarrow> login list"
  ih_sortInterfaces :: "(net_interface \<Rightarrow> net_interface \<Rightarrow> bool) \<Rightarrow> net_interface list \<Rightarrow> net_interface list"
  ih_sortProcesses :: "(proc_row \<Rightarrow> proc_row \<Rightarrow> bool) \<Rightarrow> proc_row list \<Rightarrow> proc_row list"

definition collectDMI :: "inv_host \<Rightarrow> dmiInfo" where
  "collectDMI h =
     (if ih_goos h = ''linux'' then readDMI (ih_dmiFiles h)
      else if ih_goos h = ''darwin'' then collectDMIDarwin (ih_run h) (ih_dmiDecode h)
      else if ih_goos h = ''windows'' then collectDMIWindows (ih_wmi h)
      else noDMI)"

definition listPackages :: "inv_host \<Rightarrow> collect_error + pkg list" where
  "listPackages h =
     (if ih_goos h = ''windows'' then listPackagesWindows (ih_registry h) (ih_ctx h ''software'')
      else listPackagesUnix (ih_goos h) (ih_onPath h) (ih_run h))"

definition currentLogins :: "inv_host \<Rightarrow> collect_error + login list" where
  "currentLogins h =
     (if ih_goos h = ''windows'' then currentLoginsWindows (ih_rfc3339 h) (ih_wts h) (ih_ctx h ''logins'')
      else currentLoginsUnix (ih_rfc3339 h) (ih_users h))"

type_synonym collected = "collect_error + json option"

definition collectors :: "inv_host \<Rightarrow> (string \<times> collected) list" where
  "collectors h =
     [(''hardware'', map_sum id Some (collectHardware (ih_goos h) (ih_goarch h)
         (OSVersion (ih_goos h) (ih_osRelease h) (ih_run h)) (ih_hw h) (collectDMI h))),
      (''software'', map_sum id Some (collectSoftware (listPackages h))),
      (''network'', map_sum id Some (collectNetwork (ih_sortInterfaces h) (ih_interfaces h))),
      (''logins'', map_sum id Some (collectLogins (ih_sortLogins h) (currentLogins h))),
      (''posture'', map_sum id Some (postureSnapshot (ih_checkJson h) (ih_checks h))),
      (''processes'', collectProcesses (ih_sortProcesses h) (ih_processes h)),
      (''services'', map_sum id Some (collectServices (ih_goos h) (ih_onPath h) (ih_run h)))]"

definition kindFailed :: "collect_error \<Rightarrow> bool" where
  "kindFailed e \<longleftrightarrow> e \<noteq> NoCollector"

text \<open>\<open>stamp\<close> gives the clock and the message id of a publication, \<open>busFails\<close> the publications that fail.\<close>

fun refreshLoop ::
  "snapshot_env \<Rightarrow> (string \<Rightarrow> gtime \<times> string) \<Rightarrow> (string \<Rightarrow> bool) \<Rightarrow> string \<Rightarrow> (string \<times> collected) list \<Rightarrow>
   string list \<times> snapshot_message list \<Rightarrow> string list \<times> snapshot_message list" where
  "refreshLoop env stamp busFails agentID [] acc = acc"
| "refreshLoop env stamp busFails agentID ((kind, r) # cs) (failed, sent) =
     refreshLoop env stamp busFails agentID cs
       (case r of
          Inl e \<Rightarrow> if \<not> kindFailed e then (failed, sent) else (failed @ [kind], sent)
        | Inr payload \<Rightarrow>
            (case publishSnapshot env (fst (stamp kind)) (snd (stamp kind)) (busFails kind) agentID kind payload sent of
               (None, sent') \<Rightarrow> (failed, sent')
             | (Some e, sent') \<Rightarrow> (failed @ [kind], sent')))"

definition RefreshNow ::
  "snapshot_env \<Rightarrow> (string \<Rightarrow> gtime \<times> string) \<Rightarrow> (string \<Rightarrow> bool) \<Rightarrow> string \<Rightarrow> inv_host \<Rightarrow> snapshot_message list \<Rightarrow>
   string option \<times> snapshot_message list" where
  "RefreshNow env stamp busFails agentID h sent =
     (let (failed, sent') = refreshLoop env stamp busFails agentID (collectors h) ([], sent)
      in (if failed \<noteq> [] then Some (''inventory kinds failed: '' @ joinWith '', '' failed) else None, sent'))"

section \<open>The patch state\<close>

definition KindPatchState :: string where "KindPatchState = ''patchstate''"
definition patchInterval :: duration where "patchInterval = 6 * 3600 * second"
definition patchJitter :: duration where "patchJitter = 30 * 60 * second"
definition backendUnsupported :: string where "backendUnsupported = ''unsupported''"

record patchEntry =
  pn_ID :: string
  pn_Title :: string
  pn_Kind :: string
  pn_Severity :: string
  pn_SizeBytes :: int
  pn_RebootLikely :: bool
  pn_Unsupported :: bool
  pn_Detail :: string
  pn_KBIDs :: "string list"

record patchState =
  pt_Patches :: "patchEntry list"
  pt_Backend :: string
  pt_RebootRequired :: bool

definition patchEntryJson :: "patchEntry \<Rightarrow> json" where
  "patchEntryJson e =
     JObj ([(''id'', JStr (pn_ID e)), (''title'', JStr (pn_Title e)), (''kind'', JStr (pn_Kind e)), (''severity'', JStr (pn_Severity e)),
        (''size_bytes'', JNum (itoa (pn_SizeBytes e))), (''reboot_likely'', JBool (pn_RebootLikely e)),
        (''unsupported'', JBool (pn_Unsupported e))] @ omitEmpty ''detail'' (pn_Detail e) @
       (if pn_KBIDs e = [] then [] else [(''kb_ids'', JArr (map JStr (pn_KBIDs e)))]))"

definition patchStateJson :: "patchState \<Rightarrow> json" where
  "patchStateJson s =
     JObj [(''patches'', JArr (map patchEntryJson (pt_Patches s))), (''backend'', JStr (pt_Backend s)),
       (''reboot_required'', JBool (pt_RebootRequired s))]"

definition patchEntries :: "update list \<Rightarrow> patchEntry list" where
  "patchEntries us =
     map (\<lambda>u. \<lparr>pn_ID = up_ID u, pn_Title = up_Title u, pn_Kind = up_Kind u, pn_Severity = up_Severity u,
       pn_SizeBytes = up_SizeBytes u, pn_RebootLikely = up_RebootLikely u, pn_Unsupported = up_Unsupported u,
       pn_Detail = up_Detail u, pn_KBIDs = up_KBIDs u\<rparr>) us"

text \<open>
  What \<open>patch.Detect\<close> answers, and one round: the answer it would give now, the scan and the reboot check of
  the backend, and whether the publication fails. \<open>pc_detects\<close> counts the calls of \<open>Detect\<close>.
\<close>

datatype detect_end = DetectUnsupported | DetectFailed job_error | Detected string

record patch_round =
  rd_detect :: detect_end
  rd_scan :: "string \<Rightarrow> job_error + update list"
  rd_reboot :: "string \<Rightarrow> bool option"
  rd_stamp :: "gtime \<times> string"
  rd_busFails :: bool

record patchCollector =
  pc_agentID :: string
  pc_mgr :: "string option"
  pc_detected :: bool
  pc_detErr :: "detect_end option"
  pc_detects :: nat

definition NewPatchCollector :: "string \<Rightarrow> patchCollector" where
  "NewPatchCollector agentID =
     \<lparr>pc_agentID = agentID, pc_mgr = None, pc_detected = False, pc_detErr = None, pc_detects = 0\<rparr>"

definition pcManager :: "patch_round \<Rightarrow> patchCollector \<Rightarrow> patchCollector" where
  "pcManager rd c =
     (if pc_detected c then c
      else let c1 = c\<lparr>pc_detected := True, pc_detects := Suc (pc_detects c)\<rparr> in
        case rd_detect rd of
          Detected k \<Rightarrow> c1\<lparr>pc_mgr := Some k\<rparr>
        | e \<Rightarrow> c1\<lparr>pc_detErr := Some e\<rparr>)"

definition emptyPatchState :: patchState where
  "emptyPatchState = \<lparr>pt_Patches = [], pt_Backend = backendUnsupported, pt_RebootRequired = False\<rparr>"

definition pcCollect :: "patch_round \<Rightarrow> patchCollector \<Rightarrow> (patchState \<times> job_error option) \<times> patchCollector" where
  "pcCollect rd c =
     (let c1 = pcManager rd c in
      case pc_detErr c1 of
        Some DetectUnsupported \<Rightarrow> ((emptyPatchState, None), c1)
      | Some (DetectFailed e) \<Rightarrow> ((emptyPatchState, Some e), c1)
      | _ \<Rightarrow>
          (case pc_mgr c1 of
             None \<Rightarrow> ((emptyPatchState, None), c1)
           | Some k \<Rightarrow>
               let st = emptyPatchState\<lparr>pt_Backend := k\<rparr> in
               (case rd_scan rd k of
                  Inl e \<Rightarrow> ((st, Some e), c1)
                | Inr us \<Rightarrow>
                    ((st\<lparr>pt_Patches := patchEntries us,
                         pt_RebootRequired := (case rd_reboot rd k of Some b \<Rightarrow> b | None \<Rightarrow> False)\<rparr>, None), c1))))"

definition pcRefreshNow ::
  "snapshot_env \<Rightarrow> patch_round \<Rightarrow> patchCollector \<times> snapshot_message list \<Rightarrow>
   (patchState \<times> job_error option) \<times> patchCollector \<times> snapshot_message list" where
  "pcRefreshNow env rd cs =
     (let (c, sent) = cs; ((st, err), c1) = pcCollect rd c in
      case err of
        Some e \<Rightarrow> ((st, Some e), c1, sent)
      | None \<Rightarrow>
          (case publishSnapshot env (fst (rd_stamp rd)) (snd (rd_stamp rd)) (rd_busFails rd) (pc_agentID c1) KindPatchState
                  (Some (patchStateJson st)) sent of
             (Some e, sent') \<Rightarrow> ((st, Some (JOther ''patchstate publish failed'')), c1, sent')
           | (None, sent') \<Rightarrow> ((st, None), c1, sent')))"

fun patchRounds ::
  "snapshot_env \<Rightarrow> patch_round list \<Rightarrow> patchCollector \<times> snapshot_message list \<Rightarrow>
   (patchState \<times> job_error option) list \<times> patchCollector \<times> snapshot_message list" where
  "patchRounds env [] cs = ([], cs)"
| "patchRounds env (rd # rds) cs =
     (let (r, cs1) = pcRefreshNow env rd cs; (rs, cs2) = patchRounds env rds cs1 in (r # rs, cs2))"

text \<open>\<open>fnv.New64a\<close>.\<close>

definition fnv1a :: "bytes \<Rightarrow> 64 word" where
  "fnv1a bs = foldl (\<lambda>h c. (h XOR ucast (byteOf c)) * 1099511628211) 14695981039346656037 bs"

definition jitterFor :: "string \<Rightarrow> duration \<Rightarrow> duration" where
  "jitterFor agentID window = (if window \<le> 0 then 0 else uint (fnv1a agentID mod word_of_int window))"

definition patchWait :: "string \<Rightarrow> duration" where
  "patchWait agentID = patchInterval + jitterFor agentID patchJitter"

section \<open>What is published\<close>

definition subjects :: "snapshot_message list \<Rightarrow> string list" where
  "subjects = map fst"

definition goesOut :: "(string \<Rightarrow> bool) \<Rightarrow> string \<times> collected \<Rightarrow> bool" where
  "goesOut busFails kr \<longleftrightarrow> (\<exists>v. snd kr = Inr (Some v)) \<and> \<not> busFails (fst kr)"

definition reportedFailed :: "(string \<Rightarrow> bool) \<Rightarrow> string \<times> collected \<Rightarrow> bool" where
  "reportedFailed busFails kr \<longleftrightarrow> snd kr \<noteq> Inl NoCollector \<and> \<not> goesOut busFails kr"

definition objects :: "(string \<times> collected) list \<Rightarrow> bool" where
  "objects cs \<longleftrightarrow> (\<forall>k v. (k, Inr (Some v)) \<in> set cs \<longrightarrow> (\<exists>kvs. v = JObj kvs))"

lemma publishSnapshot_refused:
  "publishSnapshot env now msgID True agentID kind (Some (JObj kvs)) sent = (Some PublishFailed, sent)"
  by (simp add: publishSnapshot_def withSnapshotHash_def snapshotHash_def NewEnvelope_def)

lemma publishSnapshot_sent:
  "\<exists>e. publishSnapshot env now msgID False agentID kind (Some (JObj kvs)) sent = (None, sent @ [(Inventory agentID kind, msgID, e)])"
  by (simp add: publishSnapshot_def withSnapshotHash_def snapshotHash_def NewEnvelope_def)

lemma publishSnapshot_None: "publishSnapshot env now msgID b agentID kind None sent = (Some NotEncodable, sent)"
  by (simp add: publishSnapshot_def withSnapshotHash_def snapshotHash_def)

lemma refreshLoop_exact:
  assumes "objects cs"
  shows "\<exists>msgs. refreshLoop env stamp busFails agentID cs (failed, sent) =
      (failed @ map fst (filter (reportedFailed busFails) cs), sent @ msgs) \<and>
    subjects msgs = map (\<lambda>kr. Inventory agentID (fst kr)) (filter (goesOut busFails) cs)"
  using assms
proof (induction cs arbitrary: failed sent)
  case (Cons kr cs)
  obtain kind r where kr: "kr = (kind, r)" by (cases kr)
  have rest: "objects cs" using Cons.prems by (simp add: objects_def)
  consider "r = Inl NoCollector" | "r = Inl CollectFailed" | "r = Inr None" | kvs where "r = Inr (Some (JObj kvs))"
  proof (cases r)
    case (Inl e)
    then show thesis using that(1,2) by (cases e) simp_all
  next
    case (Inr p)
    show thesis
    proof (cases p)
      case None
      then show thesis using Inr that(3) by simp
    next
      case (Some v)
      then obtain kvs where "v = JObj kvs" using Cons.prems Inr kr unfolding objects_def by auto
      then show thesis using Some Inr that(4) by simp
    qed
  qed
  then show ?case
  proof cases
    case (4 kvs)
    show ?thesis
    proof (cases "busFails kind")
      case True
      then show ?thesis
        using 4 Cons.IH [OF rest, of "failed @ [kind]" sent]
        by (auto simp: kr goesOut_def reportedFailed_def publishSnapshot_refused)
    next
      case False
      obtain e where "publishSnapshot env (fst (stamp kind)) (snd (stamp kind)) False agentID kind (Some (JObj kvs)) sent =
          (None, sent @ [(Inventory agentID kind, snd (stamp kind), e)])" using publishSnapshot_sent by blast
      then show ?thesis
        using 4 False Cons.IH [OF rest, of failed "sent @ [(Inventory agentID kind, snd (stamp kind), e)]"]
        by (auto simp: kr goesOut_def reportedFailed_def subjects_def)
    qed
  next
    case 1
    then show ?thesis using Cons.IH [OF rest, of failed sent] by (auto simp: kr goesOut_def reportedFailed_def kindFailed_def)
  next
    case 2
    then show ?thesis
      using Cons.IH [OF rest, of "failed @ [kind]" sent] by (auto simp: kr goesOut_def reportedFailed_def kindFailed_def)
  next
    case 3
    then show ?thesis
      using Cons.IH [OF rest, of "failed @ [kind]" sent] by (auto simp: kr goesOut_def reportedFailed_def publishSnapshot_None)
  qed
qed (simp add: subjects_def)

lemma map_sum_Inr: "map_sum f g r = Inr y \<longleftrightarrow> (\<exists>x. r = Inr x \<and> y = g x)"
  by (cases r) auto

definition object :: "collected \<Rightarrow> bool" where
  "object r \<longleftrightarrow> (\<forall>v. r = Inr (Some v) \<longrightarrow> (\<exists>kvs. v = JObj kvs))"

lemma collected_objects:
  "object (map_sum id Some (collectHardware goos goarch os src dmi))"
  "object (map_sum id Some (collectSoftware ps))"
  "object (map_sum id Some (collectNetwork sortI ifaces))"
  "object (map_sum id Some (collectLogins sortL ls))"
  "object (map_sum id Some (postureSnapshot js cs))"
  "object (collectProcesses sortP procs)"
  "object (map_sum id Some (collectServices goos onPath run))"
  by (auto simp: object_def map_sum_Inr collectHardware_def hardwareJson_def split: option.splits)
    (auto simp: collectSoftware_def softwareJson_def collectNetwork_def networkJson_def collectLogins_def loginsJson_def map_sum_Inr
      postureSnapshot_def collectProcesses_def processesJson_def collectServices_def servicesJson_def
      split: option.splits sum.splits if_splits)

lemma objects_iff: "objects cs \<longleftrightarrow> list_all (\<lambda>kr. object (snd kr)) cs"
  by (fastforce simp: objects_def object_def list_all_iff)

lemma collectors_objects: "objects (collectors h)"
  unfolding objects_iff collectors_def by (simp add: collected_objects)

lemma Inventory_inj: "Inventory agentID k = Inventory agentID k' \<longleftrightarrow> k = k'"
  by (simp add: Inventory_def)

lemma collectors_kinds: "map fst (collectors h) =
    [''hardware'', ''software'', ''network'', ''logins'', ''posture'', ''processes'', ''services'']"
  by (simp add: collectors_def)

lemma subject_iff:
  assumes "distinct (map fst cs)" "kr \<in> set cs"
  shows "Inventory a (fst kr) \<in> set (map (\<lambda>kr. Inventory a (fst kr)) (filter P cs)) \<longleftrightarrow> P kr"
proof
  assume "Inventory a (fst kr) \<in> set (map (\<lambda>kr. Inventory a (fst kr)) (filter P cs))"
  then obtain kr' where k: "Inventory a (fst kr) = Inventory a (fst kr')" "kr' \<in> set (filter P cs)" unfolding set_map by (rule imageE)
  then have "fst kr' = fst kr" "kr' \<in> set cs" by (simp_all add: Inventory_inj)
  then have "kr' = kr" using assms inj_onD [of fst "set cs" kr' kr] by (simp only: distinct_map)
  then show "P kr" using k(2) by simp
next
  assume "P kr"
  then show "Inventory a (fst kr) \<in> set (map (\<lambda>kr. Inventory a (fst kr)) (filter P cs))" using assms(2) by simp
qed


text \<open>A package manager that is there and fails keeps the software of the host out of the round.\<close>

lemma failing_manager_unpublished:
  assumes "ih_goos h = ''linux''" "ih_onPath h ''dpkg-query''" "ih_run h ''dpkg-query'' (fst (snd (hd pkgQueries))) = None"
  shows "(''software'', Inl CollectFailed) \<in> set (collectors h)"
  using assms by (simp add: collectors_def listPackages_def listPackagesUnix_def pkgQueries_def collectSoftware_def)

section \<open>The patch state is true\<close>

text \<open>The collector after its first detection, which is the only one.\<close>

definition pcSettled :: "detect_end \<Rightarrow> patchCollector \<Rightarrow> bool" where
  "pcSettled first c \<longleftrightarrow> pc_detected c \<and> pc_detects c = 1 \<and>
     (case first of Detected k \<Rightarrow> pc_mgr c = Some k \<and> pc_detErr c = None | e \<Rightarrow> pc_mgr c = None \<and> pc_detErr c = Some e)"

text \<open>What a round may claim, by what the detection found.\<close>

definition roundTrue :: "detect_end \<Rightarrow> patch_round \<Rightarrow> patchState \<times> job_error option \<Rightarrow> bool" where
  "roundTrue first rd r =
     (case first of
        DetectUnsupported \<Rightarrow> fst r = emptyPatchState
      | DetectFailed e \<Rightarrow> snd r = Some e
      | Detected k \<Rightarrow> pt_Backend (fst r) = k \<and>
          (case snd r of None \<Rightarrow> (\<exists>us. rd_scan rd k = Inr us \<and> pt_Patches (fst r) = patchEntries us) | Some e \<Rightarrow> True))"

lemma pcManager_first: "pcSettled (rd_detect rd) (pcManager rd (NewPatchCollector agentID))"
  by (simp add: pcSettled_def pcManager_def NewPatchCollector_def split: detect_end.splits)

lemma pcManager_keep: "pcSettled first c \<Longrightarrow> pcManager rd c = c"
  by (simp add: pcSettled_def pcManager_def)

lemma pcManager_agent [simp]: "pc_agentID (pcManager rd c) = pc_agentID c"
  by (simp add: pcManager_def Let_def split: detect_end.splits)

lemma pcCollect_true:
  assumes "pcSettled first (pcManager rd c)"
  shows "snd (pcCollect rd c) = pcManager rd c \<and> roundTrue first rd (fst (pcCollect rd c))"
  using assms
  by (auto simp: pcCollect_def Let_def pcSettled_def roundTrue_def emptyPatchState_def split: detect_end.splits sum.splits)

lemma patchStateJson_object: "\<exists>kvs. patchStateJson st = JObj kvs"
  by (simp add: patchStateJson_def)

lemma pcRefreshNow_step:
  assumes "pcSettled first (pcManager rd c)" "pcRefreshNow env rd (c, sent) = (r, c', sent')"
  shows "pcSettled first c' \<and> pc_agentID c' = pc_agentID c \<and> roundTrue first rd r \<and>
    (\<exists>msgs. sent' = sent @ msgs \<and> subjects msgs = (if snd r = None then [Inventory (pc_agentID c) KindPatchState] else []))"
proof -
  obtain st err c1 where c: "pcCollect rd c = ((st, err), c1)" by (metis prod.collapse)
  then have c1: "c1 = pcManager rd c" "roundTrue first rd (st, err)" using pcCollect_true [OF assms(1)] by simp_all
  show ?thesis
  proof (cases err)
    case (Some e)
    then show ?thesis using assms c c1 by (auto simp: pcRefreshNow_def subjects_def)
  next
    case None
    obtain kvs where k: "patchStateJson st = JObj kvs" using patchStateJson_object by blast
    let ?p = "publishSnapshot env (fst (rd_stamp rd)) (snd (rd_stamp rd)) (rd_busFails rd) (pc_agentID c) KindPatchState (Some (JObj kvs)) sent"
    have first: "first \<noteq> DetectFailed e" for e using c1(2) None by (auto simp: roundTrue_def)
    show ?thesis
    proof (cases "rd_busFails rd")
      case True
      then have "?p = (Some PublishFailed, sent)" by (simp add: publishSnapshot_refused)
      then have "r = (st, Some (JOther ''patchstate publish failed''))" "c' = c1" "sent' = sent"
        using assms(2) c c1(1) k None by (simp_all add: pcRefreshNow_def)
      moreover have "roundTrue first rd (st, Some e)" for e
        using c1(2) None first by (auto simp: roundTrue_def split: detect_end.splits)
      ultimately show ?thesis using assms(1) c1(1) by (simp add: subjects_def)
    next
      case False
      then obtain e where "?p = (None, sent @ [(Inventory (pc_agentID c) KindPatchState, snd (rd_stamp rd), e)])"
        using publishSnapshot_sent by (simp only:) blast
      then have "r = (st, None)" "c' = c1" "sent' = sent @ [(Inventory (pc_agentID c) KindPatchState, snd (rd_stamp rd), e)]"
        using assms(2) c c1(1) k None by (simp_all add: pcRefreshNow_def)
      then show ?thesis using assms(1) c1 None by (simp add: subjects_def)
    qed
  qed
qed

lemma patchRounds_settled:
  assumes "patchRounds env rds (c, sent) = (rs, c', sent')" "pcSettled first c"
  shows "pcSettled first c' \<and> list_all2 (roundTrue first) rds rs \<and>
    (\<exists>msgs. sent' = sent @ msgs \<and>
       subjects msgs = replicate (length (filter (\<lambda>r. snd r = None) rs)) (Inventory (pc_agentID c) KindPatchState))"
  using assms
proof (induction rds arbitrary: c sent rs)
  case (Cons rd rds)
  obtain r c1 sent1 where r: "pcRefreshNow env rd (c, sent) = (r, c1, sent1)" by (metis prod.collapse)
  obtain rs2 where rs: "patchRounds env rds (c1, sent1) = (rs2, c', sent')" "rs = r # rs2"
    using Cons.prems(1) r by (auto simp: Let_def split: prod.splits)
  have "pcSettled first (pcManager rd c)" using Cons.prems(2) pcManager_keep by simp
  from pcRefreshNow_step [OF this r] obtain msgs1 where s: "pcSettled first c1" "pc_agentID c1 = pc_agentID c" "roundTrue first rd r"
    "sent1 = sent @ msgs1" "subjects msgs1 = (if snd r = None then [Inventory (pc_agentID c) KindPatchState] else [])" by blast
  from Cons.IH [OF rs(1) s(1)] obtain msgs2 where t: "pcSettled first c'" "list_all2 (roundTrue first) rds rs2" "sent' = sent1 @ msgs2"
    "subjects msgs2 = replicate (length (filter (\<lambda>r. snd r = None) rs2)) (Inventory (pc_agentID c1) KindPatchState)" by blast
  have "subjects (msgs1 @ msgs2) = replicate (length (filter (\<lambda>r. snd r = None) rs)) (Inventory (pc_agentID c) KindPatchState)"
    using s(2,5) t(4) rs(2) by (simp add: subjects_def)
  then show ?case using s t rs(2) by auto
qed (simp add: subjects_def)

lemma scan_succeeded_iff: "rs_Status (patchResult err 0) = StatusSucceeded \<longleftrightarrow> err = None"
  by (auto simp: patchResult_def mkResult_def split: option.splits job_error.splits)


definition exRound :: patch_round where
  "exRound = \<lparr>rd_detect = Detected ''apt'', rd_scan = (\<lambda>_. Inr [mkUpdate ''a'' ''A'' ''os'' ''low'' False]), rd_reboot = (\<lambda>_. None),
     rd_stamp = (0, ''m''), rd_busFails = False\<rparr>"


section \<open>The cadence\<close>

lemma jitterFor_bounds:
  assumes "0 < window" "window < 2 ^ 63"
  shows "0 \<le> jitterFor agentID window" "jitterFor agentID window < window"
proof -
  have "uint (word_of_int window :: 64 word) = window" using assms by (simp add: uint_word_of_int)
  then show "0 \<le> jitterFor agentID window" "jitterFor agentID window < window"
    using assms by (simp_all add: jitterFor_def uint_mod)
qed

lemma patchWait_bounds: "6 * 3600 * second \<le> patchWait agentID" "patchWait agentID < (6 * 3600 + 30 * 60) * second"
  using jitterFor_bounds [of patchJitter agentID] by (simp_all add: patchWait_def patchInterval_def patchJitter_def second_def)

end
