(* ===== verification/Telemetry_Sample.thy ===== *)
theory Telemetry_Sample
  imports Collectors
begin

text \<open>
  The telemetry sample, \<open>agent/internal/telemetry/telemetry.go\<close>: what is read each minute and published.
  The counters of the host are arguments, \<open>None\<close> where reading them failed; a float is the text it is
  encoded to, \<open>None\<close> for one that is not finite. The disks that can be asked for their usage answer
  through \<open>tm_usage\<close>.
\<close>

section \<open>The sample\<close>

record netCounter =
  nt_Name :: string
  nt_BytesSent :: nat
  nt_BytesRecv :: nat
  nt_PacketsSent :: nat
  nt_PacketsRecv :: nat
  nt_ErrIn :: nat
  nt_ErrOut :: nat
  nt_DropIn :: nat
  nt_DropOut :: nat

record diskUsage =
  du_Mount :: string
  du_Used :: nat
  du_Total :: nat
  du_FSType :: string

record sample =
  sa_CPUPct :: "string option"
  sa_MemUsed :: nat
  sa_MemTotal :: nat
  sa_SwapPct :: "string option"
  sa_Load1 :: "string option option"
  sa_UptimeS :: nat
  sa_Disks :: "diskUsage list"
  sa_Nets :: "netCounter list"

record telemetry_host =
  tm_goos :: string
  tm_cpu :: "string option list option"
  tm_mem :: "(nat \<times> nat) option"
  tm_swap :: "string option option"
  tm_load :: "string option option"
  tm_uptime :: "nat option"
  tm_partitions :: "(string \<times> string) list option"
  tm_usage :: "string \<Rightarrow> (nat \<times> nat) option"
  tm_nets :: "netCounter list option"
  tm_sortNets :: "(netCounter \<Rightarrow> netCounter \<Rightarrow> bool) \<Rightarrow> netCounter list \<Rightarrow> netCounter list"

definition realFSTypes :: "string list" where
  "realFSTypes =
     [''ext4'', ''xfs'', ''btrfs'', ''zfs'', ''apfs'', ''hfs'', ''ntfs'', ''exfat'', ''vfat'', ''fat'', ''fat32'', ''fat16'']"

definition realFS :: "string \<Rightarrow> bool" where
  "realFS fstype \<longleftrightarrow> toLower fstype \<in> set realFSTypes"

definition loopbackName :: "string \<Rightarrow> bool" where
  "loopbackName n \<longleftrightarrow> toLower n = ''lo'' \<or> toLower n = ''lo0'' \<or> hasPrefix (toLower n) ''loopback''"

definition collectNets :: "telemetry_host \<Rightarrow> netCounter list" where
  "collectNets h =
     (case tm_nets h of
        None \<Rightarrow> []
      | Some stats \<Rightarrow>
          tm_sortNets h (\<lambda>a b. nt_Name a < nt_Name b)
            (filter (\<lambda>st. \<not> loopbackName (nt_Name st) \<and> \<not> (nt_BytesSent st = 0 \<and> nt_BytesRecv st = 0)) stats))"

text \<open>A partition is its mount point and the type of its file system.\<close>

fun disksLoop :: "(string \<Rightarrow> (nat \<times> nat) option) \<Rightarrow> string set \<Rightarrow> (string \<times> string) list \<Rightarrow> diskUsage list" where
  "disksLoop usage seen [] = []"
| "disksLoop usage seen ((mount, fstype) # ps) =
     (if \<not> realFS fstype \<or> mount \<in> seen then disksLoop usage seen ps
      else case usage mount of
        None \<Rightarrow> disksLoop usage (insert mount seen) ps
      | Some (used, cap) \<Rightarrow>
          \<lparr>du_Mount = mount, du_Used = used, du_Total = cap, du_FSType = fstype\<rparr> # disksLoop usage (insert mount seen) ps)"

definition collectDisks :: "telemetry_host \<Rightarrow> diskUsage list" where
  "collectDisks h = (case tm_partitions h of None \<Rightarrow> [] | Some ps \<Rightarrow> disksLoop (tm_usage h) {} ps)"

definition collectSample :: "telemetry_host \<Rightarrow> sample" where
  "collectSample h =
     \<lparr>sa_CPUPct = (case tm_cpu h of Some (p # _) \<Rightarrow> p | _ \<Rightarrow> Some ''0''),
      sa_MemUsed = (case tm_mem h of Some (u, _) \<Rightarrow> u | None \<Rightarrow> 0), sa_MemTotal = (case tm_mem h of Some (_, n) \<Rightarrow> n | None \<Rightarrow> 0),
      sa_SwapPct = (case tm_swap h of Some p \<Rightarrow> p | None \<Rightarrow> Some ''0''),
      sa_Load1 = (if tm_goos h \<noteq> ''windows'' then tm_load h else None),
      sa_UptimeS = (case tm_uptime h of Some u \<Rightarrow> u | None \<Rightarrow> 0),
      sa_Disks = collectDisks h, sa_Nets = collectNets h\<rparr>"

section \<open>Publishing\<close>

definition natJson :: "nat \<Rightarrow> json" where
  "natJson n = JNum (itoa (int n))"

definition netJson :: "netCounter \<Rightarrow> json" where
  "netJson c =
     JObj [(''name'', JStr (nt_Name c)), (''bytes_sent'', natJson (nt_BytesSent c)), (''bytes_recv'', natJson (nt_BytesRecv c)),
       (''packets_sent'', natJson (nt_PacketsSent c)), (''packets_recv'', natJson (nt_PacketsRecv c)),
       (''err_in'', natJson (nt_ErrIn c)), (''err_out'', natJson (nt_ErrOut c)), (''drop_in'', natJson (nt_DropIn c)),
       (''drop_out'', natJson (nt_DropOut c))]"

definition diskJson :: "diskUsage \<Rightarrow> json" where
  "diskJson d =
     JObj [(''mount'', JStr (du_Mount d)), (''used'', natJson (du_Used d)), (''total'', natJson (du_Total d)),
       (''fstype'', JStr (du_FSType d))]"

definition sampleJson :: "sample \<Rightarrow> json option" where
  "sampleJson s =
     (case (sa_CPUPct s, sa_SwapPct s, sa_Load1 s) of
        (Some cpu, Some swap, load) \<Rightarrow>
          if load = Some None then None
          else Some (JObj ([(''cpu_pct'', JNum cpu), (''mem_used'', natJson (sa_MemUsed s)), (''mem_total'', natJson (sa_MemTotal s)),
               (''swap_pct'', JNum swap)] @
             (case load of Some (Some l) \<Rightarrow> [(''load1'', JNum l)] | _ \<Rightarrow> []) @
             [(''uptime_s'', natJson (sa_UptimeS s)), (''disks'', JArr (map diskJson (sa_Disks s)))] @
             (if sa_Nets s = [] then [] else [(''nets'', JArr (map netJson (sa_Nets s)))])))
      | _ \<Rightarrow> None)"

definition publishSample ::
  "gtime \<Rightarrow> string \<Rightarrow> bool \<Rightarrow> string \<Rightarrow> telemetry_host \<Rightarrow> snapshot_message list \<Rightarrow> snapshot_message list" where
  "publishSample now msgID busFails agentID h sent =
     (case sampleJson (collectSample h) of
        None \<Rightarrow> sent
      | Some data \<Rightarrow>
          (case NewEnvelope (Inr (encode data) :: unit + bytes) now ''telemetry'' agentID msgID of
             Inl e \<Rightarrow> sent
           | Inr e \<Rightarrow> if busFails then sent else sent @ [(Telemetry agentID, env_MsgID e, e)]))"

section \<open>What a sample says\<close>

lemma disksLoop_unseen: "d \<in> set (disksLoop usage seen ps) \<Longrightarrow> du_Mount d \<notin> seen"
  by (induction usage seen ps rule: disksLoop.induct) (auto split: option.splits if_splits)

lemma disksLoop_mounts: "distinct (map du_Mount (disksLoop usage seen ps))"
  by (induction usage seen ps rule: disksLoop.induct) (auto dest: disksLoop_unseen split: option.splits)

lemma disksLoop_rows:
  "d \<in> set (disksLoop usage seen ps) \<Longrightarrow>
   (du_Mount d, du_FSType d) \<in> set ps \<and> realFS (du_FSType d) \<and> usage (du_Mount d) = Some (du_Used d, du_Total d)"
  by (induction usage seen ps rule: disksLoop.induct) (auto split: option.splits if_splits)

text \<open>
  A sample counts every disk once, only disks with a real file system, as they answered; it has no
  loopback interface and no idle one, in the order of their names; and on Windows it claims no load average.
\<close>

lemma sample_true:
  assumes "sliceSorter (tm_sortNets h)"
  shows "distinct (map du_Mount (sa_Disks (collectSample h))) \<and>
    list_all (\<lambda>d. realFS (du_FSType d) \<and> tm_usage h (du_Mount d) = Some (du_Used d, du_Total d)) (sa_Disks (collectSample h)) \<and>
    list_all (\<lambda>c. \<not> loopbackName (nt_Name c) \<and> 0 < nt_BytesSent c + nt_BytesRecv c) (sa_Nets (collectSample h)) \<and>
    sorted (map nt_Name (sa_Nets (collectSample h))) \<and>
    (tm_goos h = ''windows'' \<longrightarrow> sa_Load1 (collectSample h) = None)"
proof -
  let ?f = "\<lambda>st. \<not> loopbackName (nt_Name st) \<and> \<not> (nt_BytesSent st = 0 \<and> nt_BytesRecv st = 0)"
  have "list_all (\<lambda>c. \<not> loopbackName (nt_Name c) \<and> 0 < nt_BytesSent c + nt_BytesRecv c) (collectNets h) \<and>
      sorted (map nt_Name (collectNets h))"
  proof (cases "tm_nets h")
    case (Some stats)
    have "mset (collectNets h) = mset (filter ?f stats)" "sorted (map nt_Name (collectNets h))"
      using sliceSorter_key [OF assms, of nt_Name "filter ?f stats"] by (simp_all add: collectNets_def Some)
    then have "set (collectNets h) = set (filter ?f stats)" "sorted (map nt_Name (collectNets h))"
      using mset_eq_setD by blast+
    then show ?thesis by (auto simp: list_all_iff)
  qed (simp add: collectNets_def)
  moreover have "distinct (map du_Mount (collectDisks h))"
    using disksLoop_mounts by (simp add: collectDisks_def split: option.splits)
  moreover have "list_all (\<lambda>d. realFS (du_FSType d) \<and> tm_usage h (du_Mount d) = Some (du_Used d, du_Total d)) (collectDisks h)"
    using disksLoop_rows by (auto simp: collectDisks_def list_all_iff split: option.splits)
  ultimately show ?thesis by (simp add: collectSample_def)
qed

text \<open>One number that is not finite loses the whole sample, a host that answers nothing does not.\<close>

lemma sample_lost_iff:
  "publishSample stamp mid False agentID h sent = sent \<longleftrightarrow>
     sa_CPUPct (collectSample h) = None \<or> sa_SwapPct (collectSample h) = None \<or> sa_Load1 (collectSample h) = Some None"
  by (auto simp: publishSample_def sampleJson_def NewEnvelope_def split: option.splits)

end
