(* ===== verification/Patch_Exec.thy ===== *)
theory Patch_Exec
  imports Patch_Install "HOL-Library.Extended_Nat"
begin

text \<open>
  Running one command of a package manager: \<open>runCmd\<close>, \<open>finish\<close> and \<open>syncBuffer\<close>
  (\<open>agent/internal/patch/exec.go\<close>) with the process group of \<open>proc_unix.go\<close>, as a timeline in
  milliseconds from the start of the command.

  The argument \<open>run\<close> is what the world does with the command: the process that was started and
  every process it leaves behind, each with the moment it would end if nobody signalled it
  (\<open>\<infinity>\<close> for never), whether it stayed in the child's process group, whether it ignores
  SIGTERM and which of the two pipes it holds; what they write and when; and the moment the
  caller's context is cancelled. \<open>execCmd\<close> says when the call returns (\<open>\<infinity>\<close> for never) and with
  which result. What \<open>os/exec\<close> does is written out: the watcher that calls \<open>Cancel\<close> when the
  context is done and, \<open>WaitDelay\<close> later, closes the pipes provided the copy of stderr is still
  running; and \<open>Wait\<close>, which waits for the process, then for that copy. Where two events fall
  on the same millisecond the deadline is taken to be first.
\<close>

section \<open>Processes and what they write\<close>

record proc =
  pr_end :: enat
  pr_group :: bool
  pr_ignores :: bool
  pr_out :: bool
  pr_err :: bool

text \<open>A write: when, by which process (the child is the first), and the text, a line for stdout.\<close>

type_synonym writes = "(nat \<times> nat \<times> string) list"

record run =
  rn_startErr :: "string option"
  rn_child :: proc
  rn_code :: int
  rn_kids :: "proc list"
  rn_lines :: writes
  rn_notes :: writes
  rn_cancel :: enat
  rn_pipe :: nat

record execOptions =
  eo_Timeout :: int
  eo_LetFinish :: bool

definition quickTimeout :: int where "quickTimeout = 60000"
definition killGrace :: enat where "killGrace = 10000"
definition waitDelay :: enat where "waitDelay = 20000"

text \<open>The scanner's buffer: a line that does not fit with its newline ends the scan.\<close>

definition maxToken :: nat where "maxToken = 1024 * 1024"

definition fits :: "nat \<times> nat \<times> string \<Rightarrow> bool" where
  "fits e \<longleftrightarrow> length (snd (snd e)) < maxToken"

definition dropCR :: "string \<Rightarrow> string" where
  "dropCR l = (if l \<noteq> [] \<and> last l = CHR 0x0D then butlast l else l)"

definition procs :: "run \<Rightarrow> proc list" where
  "procs w = rn_child w # rn_kids w"

text \<open>
  Once the scan has ended nobody reads the pipe, and it stays open until \<open>Wait\<close> is over: what
  is left of the long line and what follows fills it, and the writer of the first line that no
  longer fits blocks, as does everyone who writes after it.
\<close>

fun blockedFrom :: "nat \<Rightarrow> writes \<Rightarrow> writes" where
  "blockedFrom room [] = []"
| "blockedFrom room (e # es) =
     (if room < length (snd (snd e)) + 1 then e # es
      else blockedFrom (room - (length (snd (snd e)) + 1)) es)"

definition blocked :: "run \<Rightarrow> writes" where
  "blocked w =
     (case dropWhile fits (rn_lines w) of
        [] \<Rightarrow> []
      | e # es \<Rightarrow> blockedFrom (rn_pipe w) ((fst e, fst (snd e), drop maxToken (snd (snd e))) # es))"

definition stuck :: "run \<Rightarrow> nat \<Rightarrow> bool" where
  "stuck w i \<longleftrightarrow> i \<in> (fst \<circ> snd) ` set (blocked w)"

text \<open>The processes when nobody signals them.\<close>

definition alone :: "run \<Rightarrow> proc list" where
  "alone w =
     map2 (\<lambda>i p. if stuck w i then p\<lparr>pr_end := \<infinity>\<rparr> else p) [0..<length (procs w)] (procs w)"

section \<open>Signals and pipes\<close>

text \<open>
  \<open>terminateGroup\<close> at the moment \<open>D\<close>: SIGTERM to the group, and SIGKILL \<open>killGrace\<close> later to
  what ignored it.
\<close>

definition terminateGroup :: "enat \<Rightarrow> proc list \<Rightarrow> proc list" where
  "terminateGroup D ps =
     map (\<lambda>p. if pr_group p
              then p\<lparr>pr_end := min (pr_end p) (if pr_ignores p then D + killGrace else D)\<rparr>
              else p) ps"

text \<open>When the last of the processes that hold a pipe ends.\<close>

definition released :: "(proc \<Rightarrow> bool) \<Rightarrow> proc list \<Rightarrow> enat" where
  "released holds ps = foldr (\<lambda>p t. max (pr_end p) t) (filter holds ps) 0"

definition written :: "proc list \<Rightarrow> writes \<Rightarrow> writes" where
  "written ps ws = filter (\<lambda>(t, i, s). i < length ps \<and> enat t \<le> pr_end (ps ! i)) ws"

definition longAt :: "proc list \<Rightarrow> writes \<Rightarrow> enat" where
  "longAt ps ws = (case dropWhile fits (written ps ws) of [] \<Rightarrow> \<infinity> | e # _ \<Rightarrow> enat (fst e))"

text \<open>When the drain of stdout ends by itself: at the end of the pipe, or at a line that is too long.\<close>

definition drainedAt :: "proc list \<Rightarrow> writes \<Rightarrow> enat" where
  "drainedAt ps ws = min (released pr_out ps) (longAt ps ws)"

definition upTo :: "enat \<Rightarrow> writes \<Rightarrow> writes" where
  "upTo T ws = filter (\<lambda>(t, _, _). enat t \<le> T) ws"

definition printLine :: "string \<Rightarrow> string" where
  "printLine l = dropCR l @ [CHR 0x0A]"

definition stdoutAt :: "proc list \<Rightarrow> writes \<Rightarrow> enat \<Rightarrow> string" where
  "stdoutAt ps ws T = concat (map (printLine \<circ> snd \<circ> snd) (takeWhile fits (upTo T (written ps ws))))"

definition tooLongNote :: string where
  "tooLongNote = ''everwas-agent: output read: bufio.Scanner: token too long'' @ [CHR 0x0A]"

definition stderrAt :: "proc list \<Rightarrow> writes \<Rightarrow> writes \<Rightarrow> enat \<Rightarrow> string" where
  "stderrAt ps lines notes T =
     (let ns = upTo T (written ps notes); l = longAt ps lines; text = concat \<circ> map (snd \<circ> snd)
      in if l \<le> T \<and> l < \<infinity>
         then text (filter (\<lambda>n. enat (fst n) \<le> l) ns) @ tooLongNote @ text (filter (\<lambda>n. l < enat (fst n)) ns)
         else text ns)"

section \<open>The call\<close>

definition execTimeout :: "execOptions \<Rightarrow> nat" where
  "execTimeout opts = nat (if eo_Timeout opts \<le> 0 then quickTimeout else eo_Timeout opts)"

definition deadlineOf :: "execOptions \<Rightarrow> run \<Rightarrow> enat" where
  "deadlineOf opts w = min (enat (execTimeout opts)) (rn_cancel w)"

definition ctxErrOf :: "execOptions \<Rightarrow> run \<Rightarrow> cmd_err" where
  "ctxErrOf opts w = (if enat (execTimeout opts) \<le> rn_cancel w then DeadlineExceeded else Canceled)"

text \<open>When the drain is over and the child has ended, so that \<open>Process.Wait\<close> has returned.\<close>

definition reapedAt :: "proc list \<Rightarrow> writes \<Rightarrow> enat" where
  "reapedAt ps ws = max (drainedAt ps ws) (pr_end (hd ps))"

text \<open>The context was not done before the child was reaped: nobody is signalled.\<close>

definition runFree :: "execOptions \<Rightarrow> run \<Rightarrow> enat \<times> cmdResult" where
  "runFree opts w =
     (let ps = alone w;
          reaped = reapedAt ps (rn_lines w);
          copied = released pr_err ps;
          ret = max reaped (min copied (reaped + waitDelay));
          wait = (if rn_code w \<noteq> 0 then WaitExit (rn_code w)
                  else if copied \<le> reaped + waitDelay then WaitOK
                  else WaitError ''exec: WaitDelay expired before I/O complete'');
          ctx = (if deadlineOf opts w \<le> ret then Some (ctxErrOf opts w) else None)
      in (ret, finish ctx (stdoutAt ps (rn_lines w) (drainedAt ps (rn_lines w)))
                  (stderrAt ps (rn_lines w) (rn_notes w) ret) wait))"

text \<open>
  The context was done first: the group is signalled, and \<open>WaitDelay\<close> later the pipes are
  closed, unless the copy of stderr is over by then.
\<close>

definition runCut :: "execOptions \<Rightarrow> run \<Rightarrow> enat \<times> cmdResult" where
  "runCut opts w =
     (let D = deadlineOf opts w;
          ps = terminateGroup D (alone w);
          reaped = reapedAt ps (rn_lines w);
          copied = released pr_err ps;
          late = D + waitDelay;
          ret = (if late \<le> reaped then (if late < copied then late else reaped)
                  else max reaped (min copied late));
          wait = (if pr_end (hd (alone w)) < D
                  then (if rn_code w = 0 then WaitError ''context'' else WaitExit (rn_code w))
                  else WaitExit (-1))
      in (ret, finish (Some (ctxErrOf opts w))
                  (stdoutAt ps (rn_lines w) (min (drainedAt ps (rn_lines w)) ret))
                  (stderrAt ps (rn_lines w) (rn_notes w) ret) wait))"

definition leftRunning :: "string \<Rightarrow> string" where
  "leftRunning name =
     ''everwas-agent: deadline reached, '' @ name @
     '' was left running so the transaction is not interrupted'' @ [CHR 0x0A]"

text \<open>\<open>LetFinish\<close>: no context is wired to the child, and no \<open>WaitDelay\<close>.\<close>

definition runLetFinish :: "execOptions \<Rightarrow> string \<Rightarrow> run \<Rightarrow> enat \<times> cmdResult" where
  "runLetFinish opts name w =
     (let ps = alone w;
          D = deadlineOf opts w;
          ret = max (reapedAt ps (rn_lines w)) (released pr_err ps)
      in if ret < D
         then (ret, finish None (stdoutAt ps (rn_lines w) (drainedAt ps (rn_lines w)))
                       (stderrAt ps (rn_lines w) (rn_notes w) ret)
                       (if rn_code w = 0 then WaitOK else WaitExit (rn_code w)))
         else (D, \<lparr>cr_Stdout = stdoutAt ps (rn_lines w) (min (drainedAt ps (rn_lines w)) D),
                   cr_Stderr = stderrAt ps (rn_lines w) (rn_notes w) D @ leftRunning name,
                   cr_ExitCode = -1, cr_Err = Some (ctxErrOf opts w)\<rparr>))"

definition cutShort :: "execOptions \<Rightarrow> run \<Rightarrow> bool" where
  "cutShort opts w \<longleftrightarrow> \<not> eo_LetFinish opts \<and> deadlineOf opts w \<le> reapedAt (alone w) (rn_lines w)"

definition execCmd :: "execOptions \<Rightarrow> string \<Rightarrow> run \<Rightarrow> enat \<times> cmdResult" where
  "execCmd opts name w =
     (case rn_startErr w of
        Some e \<Rightarrow> (0, \<lparr>cr_Stdout = [], cr_Stderr = [], cr_ExitCode = -1, cr_Err = Some (OtherErr e)\<rparr>)
      | None \<Rightarrow>
          if eo_LetFinish opts then runLetFinish opts name w
          else if cutShort opts w then runCut opts w
          else runFree opts w)"

text \<open>What becomes of the processes, whatever the call reported.\<close>

definition lives :: "execOptions \<Rightarrow> run \<Rightarrow> proc list" where
  "lives opts w = (if cutShort opts w then terminateGroup (deadlineOf opts w) (alone w) else alone w)"

section \<open>Correctness\<close>

lemma length_alone [simp]: "length (alone w) = Suc (length (rn_kids w))"
  by (simp add: alone_def procs_def)

lemma alone_nth: "i < length (procs w) \<Longrightarrow>
  alone w ! i = (if stuck w i then (procs w ! i)\<lparr>pr_end := \<infinity>\<rparr> else procs w ! i)"
  by (simp add: alone_def)

lemma alone_mem: "p \<in> set (alone w) \<Longrightarrow>
  \<exists>q\<in>set (procs w). pr_group p = pr_group q \<and> pr_ignores p = pr_ignores q \<and> pr_out p = pr_out q \<and> pr_err p = pr_err q"
  by (auto simp: in_set_conv_nth alone_nth alone_def split: if_splits) (metis nth_mem)+

lemma hd_alone: "pr_group (hd (alone w)) = pr_group (rn_child w)"
  by (simp add: alone_def procs_def upt_conv_Cons del: upt_Suc)

lemma released_ge: "p \<in> set ps \<Longrightarrow> holds p \<Longrightarrow> pr_end p \<le> released holds ps"
  by (induction ps) (auto simp: released_def max.coboundedI1 max.coboundedI2)

lemma released_le: "(\<And>p. p \<in> set ps \<Longrightarrow> holds p \<Longrightarrow> pr_end p \<le> T) \<Longrightarrow> released holds ps \<le> T"
  by (induction ps) (auto simp: released_def)

lemma terminated_group: "p \<in> set (terminateGroup D ps) \<Longrightarrow> pr_group p \<Longrightarrow> pr_end p \<le> D + killGrace"
  by (auto simp: terminateGroup_def min.coboundedI2 split: if_splits)

lemma terminated_mem: "p \<in> set (terminateGroup D ps) \<Longrightarrow>
  \<exists>q\<in>set ps. pr_group p = pr_group q \<and> pr_out p = pr_out q \<and> pr_err p = pr_err q"
  by (auto simp: terminateGroup_def split: if_splits)

lemma hd_terminate: "ps \<noteq> [] \<Longrightarrow> hd (terminateGroup D ps) \<in> set (terminateGroup D ps)"
  by (cases ps) (auto simp: terminateGroup_def)

lemma hd_terminate_group: "ps \<noteq> [] \<Longrightarrow> pr_group (hd (terminateGroup D ps)) = pr_group (hd ps)"
  by (cases ps) (auto simp: terminateGroup_def)

lemma grace_le_delay: "D + killGrace \<le> D + waitDelay"
  by (simp add: killGrace_def waitDelay_def add_left_mono)

text \<open>
  The child stayed in its group, and a process that left the group and holds stdout holds stderr
  too.
\<close>

definition tamed :: "run \<Rightarrow> bool" where
  "tamed w \<longleftrightarrow> pr_group (rn_child w) \<and> list_all (\<lambda>p. pr_group p \<or> (pr_out p \<longrightarrow> pr_err p)) (rn_kids w)"

lemma tamed_lives:
  assumes "tamed w" "p \<in> set (terminateGroup D (alone w))" "pr_out p"
  shows "pr_end p \<le> max (D + killGrace) (released pr_err (terminateGroup D (alone w)))"
proof (cases "pr_group p")
  case True
  then show ?thesis using terminated_group [OF assms(2)] by (simp add: max.coboundedI1)
next
  case False
  obtain q where "q \<in> set (procs w)" "pr_group q = pr_group p" "pr_out q = pr_out p" "pr_err q = pr_err p"
    using terminated_mem [OF assms(2)] alone_mem by metis
  then have "pr_err p"
    using False assms(1,3) by (auto simp: tamed_def procs_def list_all_iff)
  then show ?thesis using released_ge [OF assms(2)] by (simp add: max.coboundedI2)
qed

lemma reaped_child: "pr_end (hd ps) \<le> reapedAt ps ws"
  by (simp add: reapedAt_def)

lemma child_terminated:
  assumes "pr_group (rn_child w)"
  shows "pr_end (hd (terminateGroup D (alone w))) \<le> D + killGrace"
proof -
  have "alone w \<noteq> []" by (metis length_alone list.size(3) nat.distinct(1))
  then show ?thesis
    using terminated_group [OF hd_terminate] hd_terminate_group hd_alone assms by metis
qed

lemma runCut_bounded:
  assumes "tamed w"
  shows "fst (runCut opts w) \<le> deadlineOf opts w + waitDelay"
proof -
  define D where "D = deadlineOf opts w"
  define ps where "ps = terminateGroup D (alone w)"
  define late where "late = D + waitDelay"
  have child: "pr_end (hd ps) \<le> late"
    using order_trans [OF child_terminated grace_le_delay] assms by (simp add: tamed_def ps_def late_def)
  have "reapedAt ps (rn_lines w) \<le> late" if "released pr_err ps \<le> late"
  proof -
    have "released pr_out ps \<le> late"
    proof (rule released_le)
      fix p assume "p \<in> set ps" "pr_out p"
      then have "pr_end p \<le> max (D + killGrace) (released pr_err ps)"
        using tamed_lives [OF assms] by (simp add: ps_def)
      also have "\<dots> \<le> late" using that grace_le_delay [of D] by (simp add: late_def del: add_le_cancel_left)
      finally show "pr_end p \<le> late" .
    qed
    then show ?thesis using child by (simp add: reapedAt_def drainedAt_def min.coboundedI1)
  qed
  then show ?thesis
    by (auto simp: runCut_def Let_def D_def [symmetric] ps_def [symmetric] late_def [symmetric] min.coboundedI2)
qed

lemma runFree_bounded: "\<not> eo_LetFinish opts \<Longrightarrow> \<not> cutShort opts w \<Longrightarrow> fst (runFree opts w) \<le> deadlineOf opts w + waitDelay"
  by (auto simp: runFree_def cutShort_def Let_def not_le min.coboundedI2 add_right_mono order.strict_implies_order
      intro: order_trans [OF order.strict_implies_order] add_increasing2)

text \<open>A line is written by a process that holds stdout and has not ended.\<close>

definition scripted :: "run \<Rightarrow> bool" where
  "scripted w \<longleftrightarrow>
     list_all (\<lambda>(t, i, s). i < length (procs w) \<and> pr_out (procs w ! i) \<and> enat t \<le> pr_end (procs w ! i)) (rn_lines w)"

lemma fits_drop: "list_all fits ws \<Longrightarrow> dropWhile fits ws = []"
  by (induction ws) auto

lemma fits_filter: "list_all fits ws \<Longrightarrow> list_all fits (filter P ws)"
  by (induction ws) auto

lemma fits_take: "list_all fits ws \<Longrightarrow> takeWhile fits ws = ws"
  by (induction ws) auto

lemma fits_alone:
  assumes "list_all fits (rn_lines w)"
  shows "alone w = procs w"
proof (rule nth_equalityI)
  have "blocked w = []" using assms by (simp add: blocked_def fits_drop)
  then have "\<not> stuck w i" for i by (simp add: stuck_def)
  then show "alone w ! i = procs w ! i" if "i < length (alone w)" for i
    using that by (simp add: alone_nth procs_def)
qed (simp add: procs_def)

lemma fits_written: "list_all fits ws \<Longrightarrow> longAt ps ws = \<infinity>"
  by (simp add: longAt_def fits_drop written_def list_all_iff [symmetric] fits_filter)

lemma scripted_written: "scripted w \<Longrightarrow> written (procs w) (rn_lines w) = rn_lines w"
  by (force simp: scripted_def written_def list_all_iff filter_id_conv)

lemma scripted_upTo:
  assumes "scripted w"
  shows "upTo (released pr_out (procs w)) (rn_lines w) = rn_lines w"
proof -
  have "enat t \<le> released pr_out (procs w)" if "(t, i, s) \<in> set (rn_lines w)" for t i s
    using assms that released_ge [of "procs w ! i" "procs w" pr_out]
    by (fastforce simp: scripted_def list_all_iff intro: order_trans)
  then show ?thesis by (auto simp: upTo_def filter_id_conv)
qed

lemma scripted_stdout:
  assumes "scripted w" "list_all fits (rn_lines w)"
  shows "stdoutAt (alone w) (rn_lines w) (drainedAt (alone w) (rn_lines w)) = concat (map (printLine \<circ> snd \<circ> snd) (rn_lines w))"
  using assms by (simp add: stdoutAt_def drainedAt_def fits_alone fits_written fits_take scripted_written scripted_upTo)

lemma below_infinity: "(a :: enat) < b \<Longrightarrow> a < \<infinity>"
  using enat_ord_simps(3) less_le_trans by blast

lemma runCut_reports: "cr_Err (snd (runCut opts w)) = Some (ctxErrOf opts w) \<and> cr_ExitCode (snd (runCut opts w)) = -1"
  by (simp add: runCut_def Let_def finish_def)

lemma runFree_clean:
  assumes "\<not> cutShort opts w" "\<not> eo_LetFinish opts" "cr_Err (snd (runFree opts w)) = None"
  shows "cr_ExitCode (snd (runFree opts w)) = rn_code w \<and>
         cr_Stdout (snd (runFree opts w)) = stdoutAt (alone w) (rn_lines w) (drainedAt (alone w) (rn_lines w)) \<and>
         pr_end (hd (alone w)) \<le> fst (runFree opts w) \<and> fst (runFree opts w) < \<infinity>"
proof -
  have "reapedAt (alone w) (rn_lines w) < deadlineOf opts w" using assms(1,2) by (simp add: cutShort_def not_le)
  then have "reapedAt (alone w) (rn_lines w) < \<infinity>" by (rule below_infinity)
  then have bounded: "max (reapedAt (alone w) (rn_lines w)) (min c (reapedAt (alone w) (rn_lines w) + waitDelay)) < \<infinity>" for c
    by (cases "reapedAt (alone w) (rn_lines w)"; cases c) (auto simp: waitDelay_def numeral_eq_enat min_def)
  obtain ret ctx err where ret: "runFree opts w =
      (ret, finish ctx (stdoutAt (alone w) (rn_lines w) (drainedAt (alone w) (rn_lines w))) err
         (if rn_code w \<noteq> 0 then WaitExit (rn_code w)
          else if released pr_err (alone w) \<le> reapedAt (alone w) (rn_lines w) + waitDelay then WaitOK
          else WaitError ''exec: WaitDelay expired before I/O complete''))"
    and "ret = max (reapedAt (alone w) (rn_lines w)) (min (released pr_err (alone w)) (reapedAt (alone w) (rn_lines w) + waitDelay))"
    by (auto simp: runFree_def Let_def)
  then have "ret < \<infinity>" "pr_end (hd (alone w)) \<le> ret"
    using bounded reaped_child [of "alone w" "rn_lines w"] by (auto simp: max.coboundedI1)
  then show ?thesis using assms(3) ret by (auto simp: finish_def split: if_splits)
qed

lemma runLetFinish_clean:
  assumes "cr_Err (snd (runLetFinish opts name w)) = None"
  shows "cr_ExitCode (snd (runLetFinish opts name w)) = rn_code w \<and>
         cr_Stdout (snd (runLetFinish opts name w)) = stdoutAt (alone w) (rn_lines w) (drainedAt (alone w) (rn_lines w)) \<and>
         pr_end (hd (alone w)) \<le> fst (runLetFinish opts name w) \<and> fst (runLetFinish opts name w) < \<infinity>"
  using assms reaped_child [of "alone w" "rn_lines w"]
    below_infinity [of "max (reapedAt (alone w) (rn_lines w)) (released pr_err (alone w))" "deadlineOf opts w"]
  by (auto simp: runLetFinish_def Let_def finish_def max.coboundedI1 split: if_splits)

lemma exec_clean:
  assumes "scripted w" "list_all fits (rn_lines w)" "cr_Err (snd (execCmd opts name w)) = None"
  shows "cr_ExitCode (snd (execCmd opts name w)) = rn_code w \<and>
         cr_Stdout (snd (execCmd opts name w)) = concat (map (printLine \<circ> snd \<circ> snd) (rn_lines w)) \<and>
         lives opts w = procs w \<and> pr_end (rn_child w) \<le> fst (execCmd opts name w) \<and> fst (execCmd opts name w) < \<infinity>"
proof -
  have started: "rn_startErr w = None" using assms(3) by (simp add: execCmd_def split: option.splits)
  then have uncut: "\<not> cutShort opts w"
    using assms(3) runCut_reports [of opts w] by (auto simp: execCmd_def cutShort_def)
  have child: "hd (alone w) = rn_child w" using assms(2) by (simp add: fits_alone procs_def)
  show ?thesis
    using started uncut assms(3) child runFree_clean [of opts w] runLetFinish_clean [of opts name w]
      scripted_stdout [OF assms(1,2)] fits_alone [OF assms(2)]
    by (cases "eo_LetFinish opts") (simp_all add: execCmd_def lives_def)
qed

text \<open>What the parsers of the output see: every line, without its carriage return.\<close>

lemma exec_output_lines:
  assumes "scripted w" "list_all fits (rn_lines w)" "cr_Err (snd (execCmd opts name w)) = None"
    and "list_all (\<lambda>e. CHR 0x0A \<notin> set (snd (snd e))) (rn_lines w)"
  shows "linesOf (cr_Stdout (snd (execCmd opts name w))) = map (dropCR \<circ> snd \<circ> snd) (rn_lines w)"
proof -
  have "CHR 0x0A \<notin> set (dropCR l)" if "CHR 0x0A \<notin> set l" for l
    using that by (auto simp: dropCR_def dest: in_set_butlastD)
  then have "list_all (\<lambda>l. CHR 0x0A \<notin> set l) (map (dropCR \<circ> snd \<circ> snd) (rn_lines w))"
    using assms(4) by (auto simp: list_all_iff)
  then show ?thesis
    using exec_clean [OF assms(1-3)] linesOf_print [of "map (dropCR \<circ> snd \<circ> snd) (rn_lines w)"]
    by (simp add: printLine_def comp_def)
qed

text \<open>Once the context is done, nothing of the group outlives the grace, unless the run was to finish.\<close>

lemma exec_group_gone:
  "cutShort opts w \<Longrightarrow> p \<in> set (lives opts w) \<Longrightarrow> pr_group p \<Longrightarrow> pr_end p \<le> deadlineOf opts w + killGrace"
  by (simp add: lives_def terminated_group)

lemma letFinish_undisturbed:
  assumes "eo_LetFinish opts" "rn_startErr w = None" "deadlineOf opts w \<le> pr_end (hd (alone w))"
  shows "lives opts w = alone w \<and> fst (execCmd opts name w) = deadlineOf opts w \<and>
         cr_Err (snd (execCmd opts name w)) = Some (ctxErrOf opts w)"
proof -
  have "\<not> reapedAt (alone w) (rn_lines w) < deadlineOf opts w"
    using order_trans [OF assms(3) reaped_child] by (simp add: not_less)
  then show ?thesis
    using assms(1,2) by (simp add: lives_def cutShort_def execCmd_def runLetFinish_def Let_def)
qed

text \<open>
  A process that left the group (a daemon) and kept stdout but not stderr: the copy of stderr is
  over when \<open>WaitDelay\<close> passes, so the pipes are not closed and the call never returns.
\<close>

definition daemonRun :: run where
  "daemonRun = \<lparr>rn_startErr = None,
     rn_child = \<lparr>pr_end = 100, pr_group = True, pr_ignores = False, pr_out = True, pr_err = True\<rparr>, rn_code = 0,
     rn_kids = [\<lparr>pr_end = \<infinity>, pr_group = False, pr_ignores = False, pr_out = True, pr_err = False\<rparr>],
     rn_lines = [(50, 0, ''done'')], rn_notes = [], rn_cancel = \<infinity>, rn_pipe = 65536\<rparr>"

lemma daemon_alone: "alone daemonRun = procs daemonRun"
  by (rule fits_alone) (simp add: daemonRun_def fits_def maxToken_def)

lemma daemon_never_returns:
  assumes "\<not> eo_LetFinish opts"
  shows "fst (execCmd opts name daemonRun) = \<infinity>"
proof -
  define D where "D = deadlineOf opts daemonRun"
  have D: "D \<noteq> \<infinity>" by (simp add: D_def deadlineOf_def daemonRun_def)
  have long: "longAt ps (rn_lines daemonRun) = \<infinity>" for ps
    by (rule fits_written) (simp add: daemonRun_def fits_def maxToken_def)
  have held: "reapedAt (alone daemonRun) (rn_lines daemonRun) = \<infinity>"
    "reapedAt (terminateGroup D (alone daemonRun)) (rn_lines daemonRun) = \<infinity>"
    unfolding reapedAt_def drainedAt_def long daemon_alone
    by (simp_all add: procs_def daemonRun_def released_def terminateGroup_def)
  have "released pr_err (terminateGroup D (alone daemonRun)) \<le> D + waitDelay"
    unfolding daemon_alone by (simp add: procs_def daemonRun_def released_def terminateGroup_def min.coboundedI2 add_increasing2)
  then have "fst (runCut opts daemonRun) = \<infinity>"
    using held(2) by (auto simp: runCut_def Let_def D_def not_less [symmetric])
  moreover have "cutShort opts daemonRun" using assms held(1) by (simp add: cutShort_def)
  ultimately show ?thesis using assms by (simp add: execCmd_def daemonRun_def)
qed

text \<open>
  A transaction that may not be interrupted, prints a line longer than the scanner's buffer and
  then as much as the pipe holds: it blocks in its write and never ends, though nobody signals it
  and it would have ended after a second.
\<close>

definition longLineRun :: run where
  "longLineRun = \<lparr>rn_startErr = None,
     rn_child = \<lparr>pr_end = 1000, pr_group = True, pr_ignores = False, pr_out = True, pr_err = True\<rparr>, rn_code = 0,
     rn_kids = [], rn_lines = [(50, 0, replicate maxToken CHR ''x''), (60, 0, replicate 65536 CHR ''y'')],
     rn_notes = [], rn_cancel = \<infinity>, rn_pipe = 65536\<rparr>"

lemma long_line_blocks_transaction:
  "eo_LetFinish opts \<Longrightarrow> map pr_end (procs longLineRun) = [1000] \<and> map pr_end (lives opts longLineRun) = [\<infinity>]"
  by (simp add: lives_def cutShort_def alone_def procs_def longLineRun_def stuck_def blocked_def fits_def)

section \<open>The choice of a package manager\<close>

datatype backend = DnfBackend string | AptBackend | PacmanBackend

definition Detect :: "(string \<Rightarrow> bool) \<Rightarrow> backend option" where
  "Detect onPath =
     (if onPath ''dnf'' then Some (DnfBackend ''dnf'')
      else if onPath ''dnf5'' then Some (DnfBackend ''dnf5'')
      else if onPath ''apt-get'' then Some AptBackend
      else if onPath ''pacman'' then Some PacmanBackend
      else None)"

fun backendBinary :: "backend \<Rightarrow> string" where
  "backendBinary (DnfBackend b) = b"
| "backendBinary AptBackend = ''apt-get''"
| "backendBinary PacmanBackend = ''pacman''"

lemma Detect_present: "Detect onPath = Some b \<Longrightarrow> onPath (backendBinary b)"
  by (auto simp: Detect_def split: if_splits)

lemma Detect_rpm_first: "onPath ''dnf'' \<or> onPath ''dnf5'' \<Longrightarrow> Detect onPath \<in> {Some (DnfBackend ''dnf''), Some (DnfBackend ''dnf5'')}"
  by (auto simp: Detect_def)

section \<open>Properties\<close>

text \<open>
  C14. A result of \<open>runCmd\<close> without an error is the whole truth about the command: its exit
  code is the one the process itself returned, its output is every line that the process and
  those it left behind wrote to stdout (so a parser sees all of them, without their carriage
  returns), none of them was signalled, and the process had ended by the time the call returned.
  The lines are shorter than the scanner's buffer and hold no newline.
\<close>

theorem clean_result_complete:
  assumes "scripted w" "list_all fits (rn_lines w)" "cr_Err (snd (execCmd opts name w)) = None"
    and "list_all (\<lambda>e. CHR 0x0A \<notin> set (snd (snd e))) (rn_lines w)"
  shows "cr_ExitCode (snd (execCmd opts name w)) = rn_code w \<and>
         linesOf (cr_Stdout (snd (execCmd opts name w))) = map (dropCR \<circ> snd \<circ> snd) (rn_lines w) \<and>
         lives opts w = procs w \<and>
         pr_end (rn_child w) \<le> fst (execCmd opts name w) \<and> fst (execCmd opts name w) < \<infinity>"
  using exec_clean [OF assms(1-3)] exec_output_lines [OF assms] by blast

definition checkUpdateRun :: run where
  "checkUpdateRun = \<lparr>rn_startErr = None,
     rn_child = \<lparr>pr_end = 900, pr_group = True, pr_ignores = False, pr_out = True, pr_err = True\<rparr>, rn_code = 100,
     rn_kids = [\<lparr>pr_end = 950, pr_group = True, pr_ignores = False, pr_out = True, pr_err = True\<rparr>],
     rn_lines = [(50, 0, ''kernel.x86_64 6.1 updates''), (940, 1, ''bash.x86_64 5.2 updates'' @ [CHR 0x0D])],
     rn_notes = [], rn_cancel = \<infinity>, rn_pipe = 65536\<rparr>"

lemma checkUpdate_clean: "cr_Err (snd (execCmd \<lparr>eo_Timeout = 0, eo_LetFinish = False\<rparr> ''dnf'' checkUpdateRun)) = None"
proof -
  have fit: "list_all fits (rn_lines checkUpdateRun)" by (simp add: checkUpdateRun_def fits_def maxToken_def)
  have reaped: "reapedAt (alone checkUpdateRun) (rn_lines checkUpdateRun) = 950"
    unfolding reapedAt_def drainedAt_def fits_written [OF fit] fits_alone [OF fit]
    by (simp add: procs_def checkUpdateRun_def released_def)
  have copied: "released pr_err (alone checkUpdateRun) = 950"
    unfolding fits_alone [OF fit] by (simp add: procs_def checkUpdateRun_def released_def)
  show ?thesis
    using reaped copied
    by (simp add: execCmd_def cutShort_def runFree_def Let_def deadlineOf_def execTimeout_def quickTimeout_def
        checkUpdateRun_def finish_def waitDelay_def numeral_eq_enat)
qed

theorem clean_result_complete_witness:
  "linesOf (cr_Stdout (snd (execCmd \<lparr>eo_Timeout = 0, eo_LetFinish = False\<rparr> ''dnf'' checkUpdateRun))) =
     [''kernel.x86_64 6.1 updates'', ''bash.x86_64 5.2 updates''] \<and>
   cr_ExitCode (snd (execCmd \<lparr>eo_Timeout = 0, eo_LetFinish = False\<rparr> ''dnf'' checkUpdateRun)) = 100"
  using clean_result_complete [OF _ _ checkUpdate_clean]
  by (simp add: checkUpdateRun_def scripted_def procs_def fits_def maxToken_def dropCR_def numeral_eq_enat)

text \<open>
  C15. \<open>runCmd\<close> gives its job slot back. A transaction that may not be interrupted is reported
  at the deadline at the latest; any other command returns within \<open>waitDelay\<close> of the deadline
  whatever its processes do, as long as the child kept its group and a process that left the
  group with stdout kept stderr as well.
\<close>

theorem exec_returns_in_time:
  "(eo_LetFinish opts \<longrightarrow> fst (execCmd opts name w) \<le> deadlineOf opts w) \<and>
   (tamed w \<longrightarrow> fst (execCmd opts name w) \<le> deadlineOf opts w + waitDelay)"
  using runCut_bounded [of w opts] runFree_bounded [of opts w]
  by (auto simp: execCmd_def runLetFinish_def Let_def add_increasing2 split: option.splits)

definition orphanRun :: run where
  "orphanRun = \<lparr>rn_startErr = None,
     rn_child = \<lparr>pr_end = 100, pr_group = True, pr_ignores = False, pr_out = True, pr_err = True\<rparr>, rn_code = 0,
     rn_kids = [\<lparr>pr_end = \<infinity>, pr_group = False, pr_ignores = True, pr_out = True, pr_err = True\<rparr>],
     rn_lines = [(50, 0, ''spawned'')], rn_notes = [], rn_cancel = 300, rn_pipe = 65536\<rparr>"

theorem exec_returns_in_time_witness:
  "fst (execCmd \<lparr>eo_Timeout = 60000, eo_LetFinish = True\<rparr> ''apt-get'' orphanRun) \<le> 300 \<and>
   fst (execCmd \<lparr>eo_Timeout = 60000, eo_LetFinish = False\<rparr> ''apt-get'' orphanRun) \<le> 20300"
  using exec_returns_in_time [of "\<lparr>eo_Timeout = 60000, eo_LetFinish = True\<rparr>" "''apt-get''" orphanRun]
    exec_returns_in_time [of "\<lparr>eo_Timeout = 60000, eo_LetFinish = False\<rparr>" "''apt-get''" orphanRun]
  by (simp add: orphanRun_def tamed_def deadlineOf_def execTimeout_def waitDelay_def numeral_eq_enat)

end
