(* ===== verification/Job_Consumer.thy ===== *)
theory Job_Consumer
  imports Job_Registry Agent_Core
begin

text \<open>
  The life of the job consumer: \<open>Module.Run\<close>, \<open>setCmdSub\<close>, \<open>Ready\<close>
  (\<open>agent/internal/jobs/jobs.go\<close>) and \<open>consume\<close>, \<open>waitConsumer\<close>, \<open>bindConsumer\<close>
  (\<open>consumer.go\<close>).

  The state holds what the agent keeps (where \<open>Run\<close> is, the command subscription, the registry
  of jobs), what the server keeps (the agent's durable consumer) and what the client library
  keeps (whether the pull in progress is still open). \<open>agentStep\<close> is one move of \<open>Run\<close>, given
  what the server answers; \<open>world_step\<close> is what happens around it: the service stops, the stream
  is recreated, an operator reconfigures the consumer, the subscription dies. The messages
  themselves, and the wait at shutdown for the jobs that run, are in the theories of the job
  registry and of the handlers.
\<close>

section \<open>The consumer\<close>

record consumer_config =
  cf_Name :: string
  cf_Durable :: string
  cf_Description :: string
  cf_FilterSubject :: string
  cf_AckWait :: int
  cf_MaxAckPending :: int
  cf_MaxDeliver :: int

definition durableName :: "string \<Rightarrow> string" where
  "durableName agentID = ''agent-'' @ agentID"

definition jobsConfig :: "string \<Rightarrow> consumer_config" where
  "jobsConfig agentID =
     \<lparr>cf_Name = durableName agentID, cf_Durable = durableName agentID,
      cf_Description = ''everwas agent '' @ agentID, cf_FilterSubject = JobsQueue agentID,
      cf_AckWait = 30, cf_MaxAckPending = 16, cf_MaxDeliver = 3\<rparr>"

text \<open>What the server and the library answer to the calls of one move; \<open>None\<close> is success.\<close>

record answers =
  an_subscribe :: "string option"
  an_jetstream :: "string option"
  an_lookup :: "string option"
  an_create :: "string option"
  an_consume :: "string option"

datatype run_end = SubscribeFailed string | CtxEnded

datatype run_phase = Unstarted | Listening | Pulling | Backoff | Returned run_end

record jobs_run =
  jr_phase :: run_phase
  jr_ctx :: bool
  jr_cmdSub :: "bool option"
  jr_durable :: "consumer_config option"
  jr_open :: bool
  jr_pulls :: nat
  jr_reg :: registry

text \<open>\<open>bindConsumer\<close>: an existing durable is taken as it is; only a missing one is created.\<close>

definition bindConsumer :: "string \<Rightarrow> answers \<Rightarrow> consumer_config option \<Rightarrow> string option \<times> consumer_config option" where
  "bindConsumer agentID a durable =
     (case an_lookup a of
        Some e \<Rightarrow> (Some e, durable)
      | None \<Rightarrow>
          (case durable of
             Some c \<Rightarrow> (None, Some c)
           | None \<Rightarrow>
               (case an_create a of
                  Some e \<Rightarrow> (Some e, None)
                | None \<Rightarrow> (None, Some (jobsConfig agentID)))))"

text \<open>The part of \<open>consume\<close> before the wait.\<close>

definition consumeStart :: "string \<Rightarrow> answers \<Rightarrow> consumer_config option \<Rightarrow> string option \<times> consumer_config option" where
  "consumeStart agentID a durable =
     (case an_jetstream a of
        Some e \<Rightarrow> (Some (''jetstream: '' @ e), durable)
      | None \<Rightarrow>
          (case bindConsumer agentID a durable of
             (Some e, d) \<Rightarrow> (Some (''bind job consumer: '' @ e), d)
           | (None, d) \<Rightarrow>
               (case an_consume a of
                  Some e \<Rightarrow> (Some (''consume jobs: '' @ e), d)
                | None \<Rightarrow> (None, d))))"

definition setCmdSub :: "bool option \<Rightarrow> jobs_run \<Rightarrow> jobs_run" where
  "setCmdSub sub s = s\<lparr>jr_cmdSub := sub\<rparr>"

definition Ready :: "jobs_run \<Rightarrow> string option" where
  "Ready s =
     (case jr_cmdSub s of
        None \<Rightarrow> Some ''command handler is not subscribed''
      | Some valid \<Rightarrow> if valid then None else Some ''command subscription is no longer valid'')"

section \<open>Run\<close>

text \<open>The deferred calls: the subscription is taken back, then the jobs are drained.\<close>

definition leaveRun :: "run_end \<Rightarrow> jobs_run \<Rightarrow> jobs_run" where
  "leaveRun why s = (setCmdSub None s)\<lparr>jr_phase := Returned why, jr_reg := stopAccepting (jr_reg s)\<rparr>"

text \<open>After \<open>consume\<close> has returned: leave if the agent is stopping, otherwise wait and retry.\<close>

definition afterConsume :: "jobs_run \<Rightarrow> jobs_run" where
  "afterConsume s = (if jr_ctx s then leaveRun CtxEnded s else s\<lparr>jr_phase := Backoff\<rparr>)"

definition waitConsumer :: "jobs_run \<Rightarrow> bool" where
  "waitConsumer s \<longleftrightarrow> jr_ctx s \<or> \<not> jr_open s"

definition agentStep :: "string \<Rightarrow> answers \<Rightarrow> jobs_run \<Rightarrow> jobs_run" where
  "agentStep agentID a s =
     (case jr_phase s of
        Unstarted \<Rightarrow>
          (let s1 = s\<lparr>jr_reg := startJobs (jr_reg s)\<rparr>
           in case an_subscribe a of
                Some e \<Rightarrow> leaveRun (SubscribeFailed e) s1
              | None \<Rightarrow> (setCmdSub (Some True) s1)\<lparr>jr_phase := Listening\<rparr>)
      | Listening \<Rightarrow>
          (case consumeStart agentID a (jr_durable s) of
             (Some e, d) \<Rightarrow> afterConsume (s\<lparr>jr_durable := d\<rparr>)
           | (None, d) \<Rightarrow> s\<lparr>jr_durable := d, jr_phase := Pulling, jr_open := True, jr_pulls := jr_pulls s + 1\<rparr>)
      | Pulling \<Rightarrow>
          (if waitConsumer s then afterConsume (s\<lparr>jr_open := False, jr_pulls := jr_pulls s - 1\<rparr>) else s)
      | Backoff \<Rightarrow> (if jr_ctx s then leaveRun CtxEnded s else s\<lparr>jr_phase := Listening\<rparr>)
      | Returned why \<Rightarrow> s)"

inductive world_step :: "jobs_run \<Rightarrow> jobs_run \<Rightarrow> bool" where
  stopAsked: "world_step s (s\<lparr>jr_ctx := True\<rparr>)"
| consumerDeleted: "world_step s (s\<lparr>jr_durable := None, jr_open := False\<rparr>)"
| pullFailed: "world_step s (s\<lparr>jr_open := False\<rparr>)"
| reconfigured: "jr_durable s \<noteq> None \<Longrightarrow> world_step s (s\<lparr>jr_durable := Some c\<rparr>)"
| subscriptionLost: "jr_cmdSub s = Some v \<Longrightarrow> world_step s (s\<lparr>jr_cmdSub := Some False\<rparr>)"
| jobsMoved: "world_step s (s\<lparr>jr_reg := r\<rparr>)"

inductive run_moves :: "string \<Rightarrow> jobs_run \<Rightarrow> jobs_run \<Rightarrow> bool" for agentID where
  byAgent: "run_moves agentID s (agentStep agentID a s)"
| byWorld: "world_step s t \<Longrightarrow> run_moves agentID s t"

definition jobsRunStart :: "consumer_config option \<Rightarrow> registry \<Rightarrow> jobs_run" where
  "jobsRunStart d r = \<lparr>jr_phase = Unstarted, jr_ctx = False, jr_cmdSub = None, jr_durable = d, jr_open = False,
     jr_pulls = 0, jr_reg = r\<rparr>"

abbreviation run_reach :: "string \<Rightarrow> jobs_run \<Rightarrow> jobs_run \<Rightarrow> bool" where
  "run_reach agentID \<equiv> (run_moves agentID)\<^sup>*\<^sup>*"

section \<open>Correctness\<close>

inductive_cases world_stepE: "world_step s t"

lemmas agent_defs = agentStep_def leaveRun_def afterConsume_def setCmdSub_def waitConsumer_def Let_def

text \<open>
  One pull at a time, exactly while \<open>consume\<close> waits; a subscription exactly while \<open>Run\<close> is
  between its first and its last line; and a return only for the two reasons.
\<close>

definition consumer_inv :: "jobs_run \<Rightarrow> bool" where
  "consumer_inv s \<longleftrightarrow>
     jr_pulls s = (if jr_phase s = Pulling then 1 else 0) \<and>
     (jr_open s \<longrightarrow> jr_phase s = Pulling \<and> jr_durable s \<noteq> None) \<and>
     (jr_cmdSub s \<noteq> None \<longleftrightarrow> jr_phase s \<in> {Listening, Pulling, Backoff}) \<and>
     (jr_phase s = Returned CtxEnded \<longrightarrow> jr_ctx s)"

lemma consumeStart_bound: "fst (consumeStart agentID a d) = None \<Longrightarrow> snd (consumeStart agentID a d) \<noteq> None"
  by (auto simp: consumeStart_def bindConsumer_def split: option.splits prod.splits)

lemma consumer_inv_agent: "consumer_inv s \<Longrightarrow> consumer_inv (agentStep agentID a s)"
  using consumeStart_bound [of agentID a "jr_durable s"]
  by (cases "jr_phase s") (auto simp: consumer_inv_def agent_defs split: option.splits prod.splits)

lemma consumer_inv_world: "world_step s t \<Longrightarrow> consumer_inv s \<Longrightarrow> consumer_inv t"
  by (induction rule: world_step.induct) (auto simp: consumer_inv_def)

lemma consumer_inv_start: "consumer_inv (jobsRunStart d r)"
  by (simp add: consumer_inv_def jobsRunStart_def)

lemma consumer_inv_reach:
  assumes "run_reach agentID (jobsRunStart d r) s"
  shows "consumer_inv s"
  using assms
  by (induction rule: rtranclp_induct)
    (auto simp: consumer_inv_start elim!: run_moves.cases intro: consumer_inv_agent consumer_inv_world)

lemma consumeStart_keeps: "snd (consumeStart agentID a (Some c)) = Some c"
  by (auto simp: consumeStart_def bindConsumer_def split: option.splits)

lemma agentStep_keeps_durable: "jr_durable s = Some c \<Longrightarrow> jr_durable (agentStep agentID a s) = Some c"
  using consumeStart_keeps [of agentID a c]
  by (cases "jr_phase s") (auto simp: agent_defs split: option.splits prod.splits)

lemma agentStep_creates:
  "jr_durable s = None \<Longrightarrow> jr_durable (agentStep agentID a s) \<in> {None, Some (jobsConfig agentID)}"
  by (cases "jr_phase s") (auto simp: agent_defs consumeStart_def bindConsumer_def split: option.splits prod.splits)

text \<open>The server and the library answer every call with success.\<close>

definition allWell :: answers where
  "allWell = \<lparr>an_subscribe = None, an_jetstream = None, an_lookup = None, an_create = None, an_consume = None\<rparr>"

lemma consume_well:
  "jr_phase s = Listening \<Longrightarrow>
   jr_phase (agentStep agentID allWell s) = Pulling \<and> jr_open (agentStep agentID allWell s)"
  by (auto simp: agent_defs consumeStart_def bindConsumer_def allWell_def split: option.splits)

lemma backoff_well:
  "jr_phase s = Backoff \<Longrightarrow> \<not> jr_ctx s \<Longrightarrow> jr_phase (agentStep agentID allWell s) = Listening \<and> \<not> jr_ctx (agentStep agentID allWell s)"
  by (simp add: agent_defs)

lemma closed_well:
  "jr_phase s = Pulling \<Longrightarrow> \<not> jr_ctx s \<Longrightarrow> \<not> jr_open s \<Longrightarrow>
   jr_phase (agentStep agentID allWell s) = Backoff \<and> \<not> jr_ctx (agentStep agentID allWell s)"
  by (simp add: agent_defs)

lemma unstarted_well:
  "jr_phase s = Unstarted \<Longrightarrow> jr_phase (agentStep agentID allWell s) = Listening"
  by (simp add: agent_defs allWell_def)

lemma steps_to_pull:
  assumes "\<not> jr_ctx s" "\<forall>why. jr_phase s \<noteq> Returned why"
  shows "\<exists>k\<le>3. jr_phase ((agentStep agentID allWell ^^ k) s) = Pulling \<and> jr_open ((agentStep agentID allWell ^^ k) s)"
proof -
  let ?f = "agentStep agentID allWell"
  have goal: ?thesis if "k \<le> 3" "jr_phase ((?f ^^ k) s) = Pulling \<and> jr_open ((?f ^^ k) s)" for k
    using that by blast
  have two: "jr_phase (?f (?f t)) = Pulling \<and> jr_open (?f (?f t))" if "jr_phase t = Backoff" "\<not> jr_ctx t" for t
    using backoff_well [OF that] consume_well by blast
  show ?thesis
  proof (cases "jr_phase s")
    case Unstarted
    then show ?thesis using goal [of 2] unstarted_well consume_well by (simp add: numeral_2_eq_2)
  next
    case Listening
    then show ?thesis using goal [of 1] consume_well by simp
  next
    case Pulling
    then show ?thesis using goal [of 0] goal [of 3] closed_well two assms(1)
      by (cases "jr_open s") (simp_all add: numeral_3_eq_3)
  next
    case Backoff
    then show ?thesis using goal [of 2] two assms(1) by (simp add: numeral_2_eq_2)
  qed (use assms(2) in blast)
qed

text \<open>
  A build that cannot bind its consumer: every lookup fails. It never pulls a job, \<open>Ready\<close>
  reports success all along, the probe of \<open>agentcore.go\<close> passes, and the watch over a fresh
  update confirms the build.
\<close>

definition cannotBind :: answers where
  "cannotBind = allWell\<lparr>an_lookup := Some ''nats: API error: stream not found''\<rparr>"

definition unboundRun :: "string \<Rightarrow> nat \<Rightarrow> jobs_run" where
  "unboundRun agentID n = (agentStep agentID cannotBind ^^ Suc n) (jobsRunStart None newRegistry)"

lemma ready_without_consumer: "Ready (unboundRun agentID n) = None \<and> jr_pulls (unboundRun agentID n) = 0"
proof -
  have "jr_phase (unboundRun agentID n) \<in> {Listening, Backoff} \<and> \<not> jr_ctx (unboundRun agentID n) \<and>
        jr_cmdSub (unboundRun agentID n) = Some True \<and> jr_pulls (unboundRun agentID n) = 0"
  proof (induction n)
    case 0
    show ?case by (simp add: unboundRun_def agent_defs cannotBind_def allWell_def jobsRunStart_def)
  next
    case (Suc n)
    have "unboundRun agentID (Suc n) = agentStep agentID cannotBind (unboundRun agentID n)"
      by (simp add: unboundRun_def)
    then show ?case
      using Suc by (auto simp: agent_defs cannotBind_def allWell_def consumeStart_def bindConsumer_def)
  qed
  then show ?thesis by (simp add: Ready_def)
qed

lemma unbound_build_confirmed:
  "jr_pulls (unboundRun agentID n) = 0 \<and>
   fst (watchLoop 9 [\<lparr>wk_probe = Some (probe True None (Ready (unboundRun agentID n)) (Some newLinkHealth) = None),
      wk_endedEarly = False, wk_now = 5, wk_ended = False\<rparr>] demoDisk) = WatchMarked False"
  using ready_without_consumer [of agentID n]
  by (simp add: probe_def newLinkHealth_def watchMark_def MarkHealthy_def markHealthy_def
      demoDisk_def demoState_def noState_def statePending_def Let_def)

lemma agent_reach: "run_reach agentID s ((agentStep agentID a ^^ k) s)"
  by (induction k) (auto intro: rtranclp.rtrancl_into_rtrancl byAgent)

section \<open>Properties\<close>

text \<open>
  Whatever happens around it (the stream recreated, the pull ended, the subscription lost,
  the agent stopped), there is at most one pull at a time and it is on a consumer that exists;
  \<open>Ready\<close> reports success only while \<open>Run\<close> holds its command subscription; \<open>Run\<close> gives up
  only when the agent stops or the subscription is refused; and no move of the agent changes the
  settings of a consumer that exists, while one that it creates listens to its own queue only.
\<close>

theorem consumer_lifecycle:
  assumes "run_reach agentID (jobsRunStart d r) s"
  shows "jr_pulls s \<le> 1 \<and> (jr_open s \<longrightarrow> jr_pulls s = 1 \<and> jr_durable s \<noteq> None) \<and>
         (Ready s = None \<longrightarrow> jr_phase s \<in> {Listening, Pulling, Backoff}) \<and>
         (\<forall>why. jr_phase s = Returned why \<longrightarrow> jr_ctx s \<or> (\<exists>e. why = SubscribeFailed e)) \<and>
         (case jr_durable s of
            Some c \<Rightarrow> jr_durable (agentStep agentID a s) = Some c
          | None \<Rightarrow> \<forall>c. jr_durable (agentStep agentID a s) = Some c \<longrightarrow> cf_FilterSubject c = JobsQueue agentID)"
proof -
  have inv: "consumer_inv s" using assms by (rule consumer_inv_reach)
  have "jr_ctx s \<or> (\<exists>e. why = SubscribeFailed e)" if "jr_phase s = Returned why" for why
    using inv that by (cases why) (auto simp: consumer_inv_def)
  moreover have "Ready s = None \<longrightarrow> jr_cmdSub s \<noteq> None" by (auto simp: Ready_def split: option.splits)
  ultimately show ?thesis
    using inv agentStep_keeps_durable [of s] agentStep_creates [of s agentID a]
    by (auto simp: consumer_inv_def jobsConfig_def split: option.splits)
qed

theorem consumer_lifecycle_witness:
  "jr_pulls ((agentStep ''a1'' allWell ^^ 2) (jobsRunStart None newRegistry)) \<le> 1 \<and>
   jr_durable ((agentStep ''a1'' allWell ^^ 2) (jobsRunStart None newRegistry)) = Some (jobsConfig ''a1'')"
proof -
  from consumer_lifecycle [OF agent_reach] show ?thesis
    by (simp add: numeral_2_eq_2 agent_defs allWell_def jobsRunStart_def consumeStart_def bindConsumer_def)
qed

text \<open>
  C16. The consumer comes back: from any state the agent can be in, unless it is stopping or has
  returned, three moves against a server that answers are enough for it to be pulling jobs again
  on a consumer that exists, even after the stream and the consumer were deleted under it.
\<close>

theorem consumer_recovers:
  assumes "run_reach agentID (jobsRunStart d r) s" "\<not> jr_ctx s" "\<forall>why. jr_phase s \<noteq> Returned why"
  shows "\<exists>k\<le>3. let t = (agentStep agentID allWell ^^ k) s
              in jr_phase t = Pulling \<and> jr_open t \<and> jr_durable t \<noteq> None"
proof -
  have inv: "consumer_inv ((agentStep agentID allWell ^^ k) s)" for k
    by (induction k) (simp_all add: consumer_inv_reach [OF assms(1)] consumer_inv_agent)
  from steps_to_pull [OF assms(2,3)] show ?thesis
    using inv by (force simp: consumer_inv_def Let_def)
qed

definition deletedRun :: jobs_run where
  "deletedRun = ((agentStep ''a1'' allWell ^^ 2) (jobsRunStart None newRegistry))\<lparr>jr_durable := None, jr_open := False\<rparr>"

theorem consumer_recovers_witness:
  "\<exists>k\<le>3. let t = (agentStep ''a1'' allWell ^^ k) deletedRun
          in jr_phase t = Pulling \<and> jr_open t \<and> jr_durable t \<noteq> None"
proof -
  have "run_moves ''a1'' ((agentStep ''a1'' allWell ^^ 2) (jobsRunStart None newRegistry)) deletedRun"
    unfolding deletedRun_def by (intro byWorld consumerDeleted)
  with agent_reach have "run_reach ''a1'' (jobsRunStart None newRegistry) deletedRun" by (rule rtranclp.rtrancl_into_rtrancl)
  then show ?thesis
    by (rule consumer_recovers)
      (simp_all add: deletedRun_def numeral_2_eq_2 agent_defs allWell_def jobsRunStart_def consumeStart_def bindConsumer_def)
qed

end
