(* ===== verification/Notify.thy ===== *)
theory Notify
  imports Agent_Core
begin

text \<open>
  Telling the person at the machine that its certificate is about to expire:
  \<open>agent/internal/notify/notify_linux.go\<close>, \<open>notify_windows.go\<close>, \<open>notify_other.go\<close> and the text
  of the warning (\<open>certificateWarning\<close>, \<open>humanDeadline\<close> of \<open>agent/internal/cli/warnuser.go\<close>).

  The machine is the argument: where the three programs are, and how each command ends given
  the commands run before it (a command cut off by its context ends with an error). The names
  that \<open>/run/user/*/bus\<close> matches are a list. \<open>humanDeadline\<close> divides in floating point; here the
  division is exact.
\<close>

section \<open>Commands\<close>

record desk_cmd =
  dc_path :: string
  dc_args :: "string list"
  dc_env :: "string list"
  dc_cred :: "(32 word \<times> 32 word) option"
  dc_stdin :: string

type_synonym desk_trace = "(desk_cmd \<times> string option) list"

record desk =
  dk_notifySend :: "string option"
  dk_wall :: "string option"
  dk_msg :: "string option"
  dk_run :: "desk_trace \<Rightarrow> desk_cmd \<Rightarrow> string option"

datatype notify_error = NoOneToTell | NotifyFailed string

definition deskRun :: "desk \<Rightarrow> desk_cmd \<Rightarrow> desk_trace \<Rightarrow> string option \<times> desk_trace" where
  "deskRun d c tr = (dk_run d tr c, tr @ [(c, dk_run d tr c)])"

section \<open>Linux\<close>

text \<open>The names that are numbers, less system and greeter accounts.\<close>

definition graphicalSessions :: "string list \<Rightarrow> int list" where
  "graphicalSessions names = filter (\<lambda>uid. 1000 \<le> uid) (List.map_filter parseInt64 names)"

definition sendCmd :: "string \<Rightarrow> int \<Rightarrow> string \<Rightarrow> string \<Rightarrow> desk_cmd" where
  "sendCmd path uid title body =
     \<lparr>dc_path = path, dc_args = [''--urgency=critical'', ''--app-name=Everwas'', title, body],
      dc_env = [''DBUS_SESSION_BUS_ADDRESS=unix:path=/run/user/'' @ itoa uid @ ''/bus'',
                ''XDG_RUNTIME_DIR=/run/user/'' @ itoa uid],
      dc_cred = Some (word_of_int uid, word_of_int uid), dc_stdin = []\<rparr>"

definition notifySend :: "desk \<Rightarrow> int \<Rightarrow> string \<Rightarrow> string \<Rightarrow> desk_trace \<Rightarrow> string option \<times> desk_trace" where
  "notifySend d uid title body tr =
     (case dk_notifySend d of
        None \<Rightarrow> (Some ''executable file not found'', tr)
      | Some path \<Rightarrow> deskRun d (sendCmd path uid title body) tr)"

definition wallCmd :: "string \<Rightarrow> string list \<Rightarrow> string \<Rightarrow> desk_cmd" where
  "wallCmd path args msg = \<lparr>dc_path = path, dc_args = args, dc_env = [], dc_cred = None, dc_stdin = msg @ [CHR 0x0A]\<rparr>"

definition wall :: "desk \<Rightarrow> string \<Rightarrow> desk_trace \<Rightarrow> notify_error option \<times> desk_trace" where
  "wall d msg tr =
     (case dk_wall d of
        None \<Rightarrow> (Some NoOneToTell, tr)
      | Some path \<Rightarrow>
          (case deskRun d (wallCmd path [''-n''] msg) tr of
             (None, tr1) \<Rightarrow> (None, tr1)
           | (Some e, tr1) \<Rightarrow>
               (case deskRun d (wallCmd path [] msg) tr1 of
                  (None, tr2) \<Rightarrow> (None, tr2)
                | (Some e2, tr2) \<Rightarrow> (Some (NotifyFailed e), tr2))))"

fun notifyAll :: "desk \<Rightarrow> string \<Rightarrow> string \<Rightarrow> int list \<Rightarrow> nat \<Rightarrow> desk_trace \<Rightarrow> nat \<times> desk_trace" where
  "notifyAll d title body [] n tr = (n, tr)"
| "notifyAll d title body (uid # uids) n tr =
     (case notifySend d uid title body tr of
        (err, tr1) \<Rightarrow> notifyAll d title body uids (if err = None then n + 1 else n) tr1)"

definition localLinux :: "desk \<Rightarrow> string list \<Rightarrow> string \<Rightarrow> string \<Rightarrow> notify_error option \<times> desk_trace" where
  "localLinux d names title body =
     (case notifyAll d title body (graphicalSessions names) 0 [] of
        (notified, tr) \<Rightarrow>
          if 0 < notified then (None, tr) else wall d (title @ '': '' @ body) tr)"

section \<open>Windows and the other systems\<close>

definition localWindows :: "desk \<Rightarrow> string \<Rightarrow> string \<Rightarrow> notify_error option \<times> desk_trace" where
  "localWindows d title body =
     (case dk_msg d of
        None \<Rightarrow> (Some NoOneToTell, [])
      | Some path \<Rightarrow>
          (case deskRun d \<lparr>dc_path = path, dc_args = [''*'', ''/TIME:0'', title @ '': '' @ body], dc_env = [],
                           dc_cred = None, dc_stdin = []\<rparr> [] of
             (None, tr) \<Rightarrow> (None, tr)
           | (Some e, tr) \<Rightarrow> (Some NoOneToTell, tr)))"

definition localOther :: "string \<Rightarrow> string \<Rightarrow> notify_error option" where
  "localOther title body = Some NoOneToTell"

section \<open>The text\<close>

definition humanDeadline :: "duration \<Rightarrow> string" where
  "humanDeadline d =
     (let days = d div (24 * 60 * 60 * second)
      in if d \<le> 0 then ''today'' else if days = 0 then ''today'' else if days = 1 then ''tomorrow''
         else ''in '' @ itoa days @ '' days'')"

definition certificateWarning :: "phase \<Rightarrow> gtime \<Rightarrow> gtime \<Rightarrow> string \<times> string" where
  "certificateWarning p expires now =
     (if p = PhaseExpired
      then (''Network access needs attention'',
            ''This computer's network certificate has expired, so it may lose access to the company network. '' @
            ''Connect it to the office network or the VPN and leave it on for a few minutes so it can renew itself.'')
      else (let left = subT expires now
            in (''Network access expires '' @ humanDeadline left,
                ''This computer's network certificate expires '' @ humanDeadline left @
                '' and it has not been able to renew. Connect it to the office network or the VPN and leave it on '' @
                ''for a few minutes. If it expires, this computer may lose network access.'')))"

section \<open>Correctness\<close>

definition told :: "desk_trace \<Rightarrow> bool" where
  "told tr \<longleftrightarrow> (\<exists>c. (c, None) \<in> set tr)"

definition broadcast :: "desk_trace \<Rightarrow> bool" where
  "broadcast tr \<longleftrightarrow> (\<exists>(c, r) \<in> set tr. dc_cred c = None)"

text \<open>Every command so far was a notification to a person's own session, under their account.\<close>

definition personal :: "desk_trace \<Rightarrow> bool" where
  "personal tr \<longleftrightarrow>
     (\<forall>(c, r) \<in> set tr. \<exists>uid path title body. 1000 \<le> uid \<and> c = sendCmd path uid title body)"

lemma notifySend_trace:
  "notifySend d uid title body tr = (err, tr') \<Longrightarrow> 1000 \<le> uid \<Longrightarrow> personal tr \<Longrightarrow>
   personal tr' \<and> (told tr' \<longleftrightarrow> told tr \<or> err = None)"
  by (fastforce simp: notifySend_def deskRun_def personal_def told_def split: option.splits)

lemma notifyAll_trace:
  "notifyAll d title body uids n tr = (m, tr') \<Longrightarrow> \<forall>uid\<in>set uids. 1000 \<le> uid \<Longrightarrow> personal tr \<Longrightarrow> (0 < n \<longleftrightarrow> told tr) \<Longrightarrow>
   personal tr' \<and> (0 < m \<longleftrightarrow> told tr')"
proof (induction uids arbitrary: n tr)
  case (Cons uid uids)
  obtain err tr1 where s: "notifySend d uid title body tr = (err, tr1)" by fastforce
  then have "personal tr1 \<and> (told tr1 \<longleftrightarrow> told tr \<or> err = None)"
    using notifySend_trace Cons.prems(2,3) by simp
  with s Cons show ?case by (auto split: if_splits)
qed simp

lemma personal_no_broadcast: "personal tr \<Longrightarrow> \<not> broadcast tr"
  by (fastforce simp: personal_def broadcast_def sendCmd_def)

lemma wall_trace:
  "wall d msg tr = (err, tr') \<Longrightarrow> \<not> told tr \<Longrightarrow>
   (err = None \<longleftrightarrow> told tr') \<and> (\<exists>rest. tr' = tr @ rest \<and> (\<forall>(c, r) \<in> set rest. dc_cred c = None))"
  by (auto simp: wall_def deskRun_def told_def wallCmd_def split: option.splits)

lemma sessions_people: "uid \<in> set (graphicalSessions names) \<Longrightarrow> 1000 \<le> uid"
  by (simp add: graphicalSessions_def)

text \<open>
  The notification reports success exactly when somebody was told; the terminals are written to
  only when no desktop could be; and a command that runs as a user runs for an account of a
  person.
\<close>

lemma linux_told_once:
  assumes "localLinux d names title body = (err, tr)"
  shows "(err = None \<longleftrightarrow> told tr) \<and>
         (broadcast tr \<longrightarrow> (\<forall>(c, r) \<in> set tr. dc_cred c \<noteq> None \<longrightarrow> r \<noteq> None)) \<and>
         personal (filter (\<lambda>(c, r). dc_cred c \<noteq> None) tr)"
proof -
  obtain n tr0 where all: "notifyAll d title body (graphicalSessions names) 0 [] = (n, tr0)" by fastforce
  have tr0: "personal tr0 \<and> (0 < n \<longleftrightarrow> told tr0)"
    by (rule notifyAll_trace [OF all]) (auto simp: sessions_people personal_def told_def)
  show ?thesis
  proof (cases "0 < n")
    case True
    then have "err = None" "tr = tr0" using assms all by (simp_all add: localLinux_def)
    then show ?thesis using tr0 True personal_no_broadcast by (auto simp: personal_def)
  next
    case False
    then have "wall d (title @ '': '' @ body) tr0 = (err, tr)" using assms all by (simp add: localLinux_def)
    from wall_trace [OF this] obtain rest where
      rest: "tr = tr0 @ rest" "\<forall>(c, r) \<in> set rest. dc_cred c = None" and err: "err = None \<longleftrightarrow> told tr"
      using tr0 False by auto
    have "r \<noteq> None" if "(c, r) \<in> set tr0" for c r
      using tr0 False that by (cases r) (auto simp: told_def)
    then show ?thesis using tr0 rest err by (fastforce simp: personal_def)
  qed
qed

lemma credentials_bounded:
  assumes "1000 \<le> uid" "uid < 2 ^ 32"
  shows "\<exists>u g. dc_cred (sendCmd path uid title body) = Some (u, g) \<and> uint u = uid \<and> u \<noteq> 0"
proof -
  have "uint (word_of_int uid :: 32 word) = uid" using assms by (simp add: uint_word_of_int take_bit_eq_mod)
  then show ?thesis using assms(1) by (auto simp: sendCmd_def)
qed

text \<open>A countdown never shows a negative or a zero number of days.\<close>

lemma humanDeadline_shape:
  "humanDeadline d = ''today'' \<or> humanDeadline d = ''tomorrow'' \<or> (\<exists>n\<ge>2. humanDeadline d = ''in '' @ itoa n @ '' days'')"
proof -
  have "2 \<le> d div (24 * 60 * 60 * second)" if "0 < d" "d div (24 * 60 * 60 * second) \<notin> {0, 1}"
  proof -
    have "0 \<le> d div (24 * 60 * 60 * second)" using that(1) by (simp add: second_def pos_imp_zdiv_nonneg_iff)
    then show ?thesis using that(2) by auto
  qed
  then show ?thesis by (auto simp: humanDeadline_def Let_def)
qed

text \<open>A deadline just short of a day away is announced for today.\<close>

lemma almost_a_day_is_today: "humanDeadline ((23 * 60 + 47) * 60 * second) = ''today''"
  by (simp add: humanDeadline_def second_def)

end
