(* ===== verification/Spec2Isabelle.thy ===== *)
theory Spec2Isabelle
  imports Wire Fire_Heap Sched_Correct Scripts_Correct Job_Registry Update_Verify Update_Tracker
    Update_Apply Job_Handlers Shell_Correct Commands Patch_Jobs Patch_Mac Patch_WUA Config_State
    Svc_Guard Agent_Start Supplicant Inventory_Publish Telemetry_Sample Patch_Exec Job_Consumer Notify
begin

text \<open>
  A verification of the everwas agent, the Go program under \<open>agent/\<close> that runs on a managed host.

  The program. The agent holds one connection to its server. It receives commands
  (\<open>agent/internal/jobs/commands.go\<close>) and jobs from a durable stream (\<open>consumer.go\<close>), and starts
  jobs of its own from a cached schedule (\<open>agent/internal/sched\<close>). A job runs a script
  (\<open>agent/internal/scripts\<close>), installs operating system updates (\<open>agent/internal/patch\<close>), refreshes
  the inventory, or replaces the agent's own binary (\<open>agent/internal/update\<close>), which is then on
  probation and rolled back if it keeps crashing. Interactive shells (\<open>agent/internal/shell\<close>) share the
  connection. Every job ends in one result message, and every action is audited.

  How it is modelled. A Go struct is a record with the fields the code has, an operation is one
  definition or function, errors are values of a datatype or the left part of a sum, and a result
  that may not come is an option. The message bus, the file system, the clock, child processes,
  HTTP, JSON, the cron library and the hash and signature functions are arguments: fields of an
  environment record that the operations take, or events that they append to a log. Integers are
  unbounded where the code cannot reach their limits and wrap at 64 bits (\<open>wrap64\<close>) where it can; the
  bytes of digests are words. A text is its list of bytes: case folding and white space are those
  of ASCII. Goroutines that share state are inductive step relations over the critical sections,
  and invariants hold in every reachable state. A loop over a Go map is taken in the order of
  insertion, and nothing is proved that depends on it.

  The theories, with the code each follows.

  \<^item> \<open>Go_Base\<close>: the Go library as far as the code uses it (times and durations, the functions on
    strings, numbers as text, hexadecimal digits) and the lemmas shared by all theories.

  \<^item> \<open>Wire\<close> (\<open>agent/internal/wire\<close>): identifiers and subjects, message ids, envelopes. An accepted
    identifier cannot reach another subject or another directory.

  \<^item> \<open>Fire_Heap\<close>, \<open>Sched\<close>, \<open>Sched_Correct\<close> (\<open>agent/internal/sched\<close>): the timer heap, with the
    interface \<open>timer_queue\<close>; the cached document, jitter and the policy for missed fires; and the
    scheduler, whose run loop is \<open>sched_step\<close>. Every due item is fired once, missed fires are run or
    skipped as the policy says, and a new document is in force when it has been saved.

  \<^item> \<open>Scripts\<close>, \<open>Scripts_Correct\<close> (\<open>agent/internal/scripts\<close>): one run of a script from staging to the
    audit record, with its chunked output, its environment and its deadline. \<open>job_handler\<close> is what the
    job machinery expects of every handler: one terminal result under the job's id.

  \<^item> \<open>Job_Registry\<close> (\<open>agent/internal/jobs/inflight.go\<close>): the slots, the running and the finished jobs,
    with all interleavings of reserving, running and releasing, and shutdown.

  \<^item> \<open>Update_Verify\<close>, \<open>Update_Tracker\<close>, \<open>Update_Apply\<close> (\<open>agent/internal/update\<close>): signatures and trusted
    keys; the state of an update on disk, crash counting, rollback and the health watch; download,
    verification and the swap of the binary, over a file system that is a map.

  \<^item> \<open>Job_Handlers\<close> (\<open>agent/internal/jobs\<close>: \<open>jobs.go\<close>, \<open>consumer.go\<close>, \<open>patch_wire.go\<close>, \<open>update_wire.go\<close>):
    every kind of job as an instance of \<open>job_handler\<close>, and what the stream is told.

  \<^item> \<open>Job_Consumer\<close> (\<open>Run\<close> and \<open>Ready\<close> of \<open>jobs.go\<close>, \<open>consume\<close> of \<open>consumer.go\<close>): the life of the durable consumer
    and of the command subscription, with what the server and the operator do to them in between. There
    is one pull at a time, and the consumer comes back after it was deleted.

  \<^item> \<open>Shell\<close>, \<open>Shell_Correct\<close> (\<open>agent/internal/shell\<close>): flow control, the buffer for an outage, one
    session with its goroutines (\<open>shell_step\<close>), and the module. \<open>session_operation\<close> is the contract of
    the operations on a session; no byte is lost unannounced, and the output in flight is bounded.

  \<^item> \<open>Commands\<close> (\<open>agent/internal/jobs/commands.go\<close>): every command over the shell, the registry, the
    scheduler and the update handler.

  \<^item> \<open>Patch_Ids\<close>, \<open>Patch_Parse\<close>, \<open>Patch_Install\<close>, \<open>Patch_Correct\<close> (\<open>agent/internal/patch\<close>): update ids and
    install plans, the output of the package managers, and the installs of apt, dnf and pacman over
    a host that answers commands. \<open>install_planner\<close> is the contract of the three plans,
    \<open>booking_install\<close> that of an install: every id is accounted for once. Only requested and offered
    packages reach a package manager, and never as an option.

  \<^item> \<open>Patch_Mac\<close>, \<open>Patch_WUA\<close>: the same for softwareupdate and for Windows Update, whose install
    outlives its caller; \<open>com_step\<close> interleaves the callers with the COM thread.

  \<^item> \<open>Patch_Exec\<close> (\<open>exec.go\<close>, \<open>proc_unix.go\<close>, \<open>detect_linux.go\<close>): one command as a timeline in milliseconds of
    its processes, their pipes, the deadline, the signals and the delays of \<open>os/exec\<close>, with \<open>\<infinity>\<close> for what
    never happens. It is what the field \<open>h_run\<close> of a host in \<open>Patch_Install\<close> stands for. A result without an
    error is complete, and the call comes back in time.

  \<^item> \<open>Patch_Jobs\<close>: a patch job over the apt backend. A job that reports success has installed what
    it was asked for.

  \<^item> \<open>Go_Float\<close>: the rounding of float64, as far as the shares of a certificate's life need it.

  \<^item> \<open>Posture\<close> (\<open>agent/internal/posture\<close>, \<open>agent/internal/winident\<close>): the checks of Linux and Windows
    over the tools they query, the goroutines that run them (\<open>run_step\<close>), and the detection of another
    identity provider. \<open>posture_check\<close> is the contract of a check: what cannot be queried is not
    reported as failed.

  \<^item> \<open>Cert_Life\<close>, \<open>Net_Cert\<close> (\<open>agent/internal/netcert\<close>): the phases of a network certificate; its
    files, key containers and stores, and a call of \<open>Ensure\<close> on Unix and on Windows with every way it
    can fail. \<open>renewal_key\<close> is the contract of the two key providers: a renewal that is refused
    leaves the device as it was, up to a container that no certificate in use is bound to.

  \<^item> \<open>Agent_Core\<close> (\<open>agent/internal/agentcore\<close>, \<open>heartbeat\<close>, \<open>warnuser.go\<close> and the callbacks of \<open>cli.go\<close>): supervision, the loops that
    renew the credential and the certificate, what is reported about the certificate, the probe an
    update is confirmed by, the warnings to the user and the exit codes.

  \<^item> \<open>Config_State\<close> (\<open>agent/internal/config\<close>, \<open>agent/internal/enroll\<close>): the state file, its move from the
    former directory, enrolment and the renewal of the credential. Whatever fails, the identity on
    disk survives.

  \<^item> \<open>Svc_Guard\<close> (\<open>agent/internal/svc/guard.go\<close>): the shell script that the service manager runs before the
    agent, on the disk of \<open>Update_Tracker\<close>. A build that dies before it can count is rolled back, and
    the restored agent and the script agree on what happened.

  \<^item> \<open>Svc_Install\<close> (the rest of \<open>agent/internal/svc\<close>): the service definitions as they are rendered, installing
    and uninstalling on the three platforms, and the control protocol of the Windows service.
    \<open>file_installer\<close> is the contract of the installers that write files: the guard comes first.

  \<^item> \<open>Agent_Start\<close> (\<open>agent/internal/cli\<close>): how the agent starts, and the commands \<open>install\<close>, \<open>uninstall\<close> and
    \<open>update-finalize\<close>, composed of the operations of the other theories.

  \<^item> \<open>Supplicant\<close> (\<open>agent/internal/supplicant\<close> and its command in \<open>cli\<close>): the 802.1X profiles for
    wpa\_supplicant and for Windows, line by line. No value changes the shape of a profile, and the one
    for Windows names the authority of the certificate that the machine holds.

  \<^item> \<open>Snapshot\<close>, \<open>Collectors\<close>, \<open>Inventory_Publish\<close> (\<open>agent/internal/inventory\<close>, \<open>agent/internal/sysinfo\<close>): JSON values, their
    canonical text and the hash over it; what each collector makes of the answers of the host; a round
    over all collectors, and the patch state over any number of scans. The text determines the content,
    a look that failed is never published, and a patch state is what its scan returned.

  \<^item> \<open>Telemetry_Sample\<close> (\<open>agent/internal/telemetry\<close>): the sample of a minute.

  \<^item> \<open>Notify\<close> (\<open>agent/internal/notify\<close> and the text of \<open>warnuser.go\<close>): telling the person at the machine.
    Success is reported exactly when somebody was told.

  Termination and bounds. All functions are total except the wait for the dpkg lock
  (\<open>aptRunLoop\<close>), a partial function with \<open>None\<close> for a loop that does not end; it is shown to return
  within eleven attempts when the clock is steady. The loops over due timers and over the missed
  fires of an entry run on fuel: the number of items in the heap and the limit that the code has
  itself. The capacities (three jobs, five sessions, 1024 remembered ids, 32 denied versions, the
  caps on output) are the constants of the code.

  What the code does otherwise than it says is proved as well, for instance that redeliveries of
  finished jobs take the worker slots for good (\<open>redelivery_wedges_agent\<close>) and that the fire after
  a catch-up is dispatched twice (\<open>catchup_dispatches_twice\<close>), and that an update whose jobs module
  cannot bind its consumer is confirmed (\<open>unbound_build_confirmed\<close>).

  \<open>sort.Slice\<close> is an argument of the collectors that use it: any order that agrees with the comparison,
  as its documentation says; facts about them hold for every such order.

  Not modelled. The wiring of the modules, the parsing of flags and most of what is printed, and the
  options of the connection to the server: they are I/O and calls of libraries. Inside the modelled
  packages: starting the processes of a script, process groups on Windows, pseudo-terminals, COM
  variants, the marshalling of the calls of ncrypt and crypt32, requests that are only passed on to a
  service manager, and logging.
\<close>

end
